(* ===== verification/Errors.thy ===== *)
theory Errors
  imports Prelude
begin

text \<open>
  The crate's error type (\<open>rust/src/error.rs\<close>): one constructor per variant, with the texts the
  variants carry, its \<open>Display\<close> and the predicates callers branch on. A fallible function returns
  \<open>error + 'a\<close>, \<open>Inl\<close> for \<open>Err\<close>.
\<close>

datatype io_kind = IoNotFound | IoPermissionDenied | IoNotADirectory | IoOther

text \<open>A \<open>std::io::Error\<close>: its kind and the operating system's text.\<close>

record io_error =
  io_kind :: io_kind
  io_text :: string

datatype error =
    CacheMiss string string
  | Integrity string string
  | UnknownScheme string string
  | UnknownStore string
  | BadUrl string string
  | Transport string string
  | NotFound string string
  | AllMirrorsFailed string string bool
  | MissingAuth string
  | Io "string option" io_error
  | ManifestError string
  | UnknownFormat string
  | BadConfig string string
  | FormatError string string
  | RegionNotShardAligned string
  | CommitRefused string
  | PrefetchError string
  | BadPeriod string string
  | EsmSource string string string

type_synonym 'a result = "error + 'a"

definition io_err :: "string option \<Rightarrow> io_error \<Rightarrow> error" where
  "io_err p e = Io p e"

fun is_cache_miss :: "error \<Rightarrow> bool" where
  "is_cache_miss (CacheMiss url key) = True"
| "is_cache_miss _ = False"

fun is_not_found :: "error \<Rightarrow> bool" where
  "is_not_found (NotFound url detail) = True"
| "is_not_found (AllMirrorsFailed url detail nf) = nf"
| "is_not_found (Io p e) = (io_kind e = IoNotFound)"
| "is_not_found _ = False"

fun error_text :: "error \<Rightarrow> string" where
  "error_text (CacheMiss url key) = ''cache miss: no blob for key '' @ key @ '' (url '' @ url @ '')''"
| "error_text (Integrity key detail) = ''integrity failure for key '' @ key @ '': '' @ detail"
| "error_text (UnknownScheme scheme url) =
     ''no transport registered for scheme '' @ sq scheme
       @ '' (url '' @ url @ '')''"
| "error_text (UnknownStore name) =
     ''no store registered as '' @ sq name"
| "error_text (BadUrl url detail) = ''bad url '' @ sq url @ '': '' @ detail"
| "error_text (Transport url detail) = ''transport error for '' @ url @ '': '' @ detail"
| "error_text (NotFound url detail) = ''not found: '' @ url @ '' ('' @ detail @ '')''"
| "error_text (AllMirrorsFailed url detail nf) = ''all sources failed for '' @ url @ '': '' @ detail"
| "error_text (MissingAuth realm) =
     ''no auth resolver registered for realm '' @ sq realm"
| "error_text (Io p e) =
     (case p of
        Some path \<Rightarrow> ''io error at '' @ path @ '': '' @ io_text e
      | None \<Rightarrow> ''io error: '' @ io_text e)"
| "error_text (ManifestError detail) = ''manifest error: '' @ detail"
| "error_text (BadConfig var detail) = var @ '' is unusable: '' @ detail"
| "error_text (UnknownFormat name) =
     ''no reader registered for format '' @ sq name"
| "error_text (FormatError format detail) = format @ '' decode error: '' @ detail"
| "error_text (RegionNotShardAligned detail) = ''region not shard-aligned: '' @ detail"
| "error_text (CommitRefused detail) = ''commit refused: '' @ detail"
| "error_text (PrefetchError detail) = ''prefetch: '' @ detail"
| "error_text (EsmSource code source detail) =
     code @ '': data source '' @ dbg_str source @ '': '' @ detail"
| "error_text (BadPeriod period detail) =
     ''esm_period_invalid: '' @ dbg_str period @ '' is not a calendar period: '' @ detail"

text \<open>\<open>?\<close> and \<open>and_then\<close> on results.\<close>

definition bindR :: "'a result \<Rightarrow> ('a \<Rightarrow> 'b result) \<Rightarrow> 'b result" where
  "bindR r f = (case r of Inl e \<Rightarrow> Inl e | Inr x \<Rightarrow> f x)"

definition ok_or :: "error \<Rightarrow> 'a option \<Rightarrow> 'a result" where
  "ok_or e x = (case x of None \<Rightarrow> Inl e | Some y \<Rightarrow> Inr y)"

lemma bindR_simps [simp]: "bindR (Inl e) f = Inl e" "bindR (Inr x) f = f x"
  by (simp_all add: bindR_def)

lemma bindR_Inr [result_simps]: "bindR r f = Inr y \<longleftrightarrow> (\<exists>x. r = Inr x \<and> f x = Inr y)"
  by (cases r) auto

lemma bindR_Inl [result_simps]: "bindR r f = Inl e \<longleftrightarrow> r = Inl e \<or> (\<exists>x. r = Inr x \<and> f x = Inl e)"
  by (cases r) auto

lemma ok_or_simps [simp]: "ok_or e None = Inl e" "ok_or e (Some x) = Inr x"
  by (simp_all add: ok_or_def)

lemma ok_or_Inr [result_simps]: "ok_or e x = Inr y \<longleftrightarrow> x = Some y"
  by (cases x) auto

lemma ok_or_Inl [result_simps]: "ok_or e x = Inl e' \<longleftrightarrow> x = None \<and> e' = e"
  by (cases x) auto

end
