(* ===== verification/Keys.thy ===== *)
theory Keys
  imports Errors
begin

text \<open>
  Cache keys, content hashing and the environment switches: \<open>rust/src/key.rs\<close>,
  \<open>rust/src/offline.rs\<close> and \<open>rust/src/datadir.rs\<close>.

  SHA-256 itself (the \<open>sha2\<close> crate) is the parameter \<open>digest\<close>, from bytes to the 32 digest bytes;
  the process environment is the parameter \<open>env\<close>, from variable names to their values.
\<close>

section \<open>Hex digests and keys\<close>

definition hex_byte :: "char \<Rightarrow> string" where
  "hex_byte b = [hex_digit (of_char b div 16), hex_digit (of_char b mod 16)]"

definition hex_lower :: "string \<Rightarrow> string" where
  "hex_lower bytes = concat (map hex_byte bytes)"

definition sha256_hex :: "(string \<Rightarrow> string) \<Rightarrow> string \<Rightarrow> string" where
  "sha256_hex digest data = hex_lower (digest data)"

definition cache_key :: "(string \<Rightarrow> string) \<Rightarrow> string \<Rightarrow> string" where
  "cache_key digest url = hex_lower (digest url)"

definition cache_key_range :: "(string \<Rightarrow> string) \<Rightarrow> string \<Rightarrow> nat \<Rightarrow> nat \<Rightarrow> string" where
  "cache_key_range digest url a b =
     cache_key digest (url @ ''#bytes='' @ show_nat a @ ''-'' @ show_nat b)"

text \<open>
  \<open>Sha256Writer\<close>: what the inner writer holds and what the hasher was fed. The inner writer
  accepts a prefix of the buffer (\<open>accept\<close> gives its length, or an error), and only that prefix is
  hashed. A hasher's digest is the digest of everything it was updated with.
\<close>

record sha_writer =
  inner :: string
  hashed :: string

definition sha_writer_new :: sha_writer where
  "sha_writer_new = \<lparr>inner = [], hashed = []\<rparr>"

definition sha_write ::
    "(string \<Rightarrow> io_error + nat) \<Rightarrow> sha_writer \<Rightarrow> string \<Rightarrow> (io_error + nat) \<times> sha_writer" where
  "sha_write accept w buf =
     (case accept buf of
        Inl e \<Rightarrow> (Inl e, w)
      | Inr n \<Rightarrow> (Inr n, w\<lparr>inner := inner w @ take n buf, hashed := hashed w @ take n buf\<rparr>))"

definition sha_finalize :: "(string \<Rightarrow> string) \<Rightarrow> sha_writer \<Rightarrow> string" where
  "sha_finalize digest w = hex_lower (digest (hashed w))"

fun sha_writes :: "(string \<Rightarrow> io_error + nat) list \<Rightarrow> sha_writer \<Rightarrow> string list \<Rightarrow> sha_writer" where
  "sha_writes (a # as) w (b # bs) = sha_writes as (snd (sha_write a w b)) bs"
| "sha_writes _ w _ = w"

lemma inj_hex_digit: "a < 16 \<Longrightarrow> b < 16 \<Longrightarrow> hex_digit a = hex_digit b \<Longrightarrow> a = b"
  by (auto simp: hex_digit_def char_of_eq_iff take_bit_eq_mod split: if_splits)

lemma inj_hex_byte: "hex_byte a = hex_byte b \<Longrightarrow> a = b"
proof -
  assume h: "hex_byte a = hex_byte b"
  have a: "(of_char a :: nat) < 256" and b: "(of_char b :: nat) < 256" by simp_all
  from h have "of_char a div 16 = (of_char b div 16 :: nat)" "of_char a mod 16 = (of_char b mod 16 :: nat)"
    using a b inj_hex_digit by (auto simp: hex_byte_def less_mult_imp_div_less)
  then have "of_char a = (of_char b :: nat)"
    by (metis div_mult_mod_eq)
  then show ?thesis by simp
qed

lemma hex_lower_Cons: "hex_lower (b # bs) = hex_byte b @ hex_lower bs"
  by (simp add: hex_lower_def)

lemma length_hex_lower [simp]: "length (hex_lower bs) = 2 * length bs"
  by (induction bs) (simp_all add: hex_lower_def hex_byte_def)

lemma inj_hex_lower: "hex_lower a = hex_lower b \<Longrightarrow> a = b"
proof (induction a arbitrary: b)
  case Nil
  then have "length (hex_lower b) = 0" by (metis length_0_conv length_hex_lower mult_0_right)
  then show ?case by simp
next
  case (Cons x xs)
  then obtain y ys where b: "b = y # ys"
    by (cases b) (auto simp: hex_lower_def hex_byte_def)
  with Cons.prems have "hex_byte x @ hex_lower xs = hex_byte y @ hex_lower ys"
    by (simp add: hex_lower_Cons)
  then have "hex_byte x = hex_byte y" "hex_lower xs = hex_lower ys"
    by (auto simp: hex_byte_def)
  with Cons.IH b show ?case using inj_hex_byte by simp
qed

definition is_hex :: "char \<Rightarrow> bool" where
  "is_hex c \<longleftrightarrow> is_digit c \<or> (97 \<le> (of_char c :: nat) \<and> (of_char c :: nat) \<le> 102)"

lemma is_hex_hex_digit: "d < 16 \<Longrightarrow> is_hex (hex_digit d)"
  by (auto simp: is_hex_def hex_digit_def is_digit_def)

lemma hex_lower_hex: "c \<in> set (hex_lower bs) \<Longrightarrow> is_hex c"
  by (induction bs) (auto simp: hex_lower_def hex_byte_def is_hex_hex_digit less_mult_imp_div_less)

text \<open>A key is 64 lowercase hex digits.\<close>

definition valid_key :: "string \<Rightarrow> bool" where
  "valid_key key \<longleftrightarrow> length key = 64 \<and> list_all is_hex key"

text \<open>
  C10: with a 32-byte digest every cache key is 64 lowercase hex digits, and two URLs share a key
  only if their digests collide: the hex rendering loses nothing and the URL is not normalised.
\<close>

theorem cache_key_wellformed:
  assumes "\<forall>u. length (digest u) = 32"
  shows "valid_key (cache_key digest url) \<and>
    (cache_key digest url = cache_key digest url' \<longleftrightarrow> digest url = digest url')"
  using assms by (auto simp: cache_key_def valid_key_def list_all_iff hex_lower_hex dest: inj_hex_lower)

text \<open>A stand-in digest: the first 32 bytes, padded.\<close>

definition pad_digest :: "string \<Rightarrow> string" where
  "pad_digest u = take 32 (u @ replicate 32 (CHR ''x''))"

lemma length_pad_digest: "length (pad_digest u) = 32"
  by (simp add: pad_digest_def)

theorem cache_key_wellformed_witness:
  "cache_key pad_digest ''https://x/y'' \<noteq> cache_key pad_digest ''https://x/z''"
  using cache_key_wellformed [of pad_digest "''https://x/y''" "''https://x/z''"]
  by (simp add: length_pad_digest) (simp add: pad_digest_def)

lemma sha_writes_same: "hashed w = inner w \<Longrightarrow> hashed (sha_writes as w bs) = inner (sha_writes as w bs)"
  by (induction as w bs rule: sha_writes.induct) (auto simp: sha_write_def split: sum.splits)

text \<open>
  However the inner writer splits or refuses the writes, the digest taken in transit is the
  digest of exactly the bytes it accepted.
\<close>

theorem sha_writer_hashes_written:
  "sha_finalize digest (sha_writes as sha_writer_new bs) =
     sha256_hex digest (inner (sha_writes as sha_writer_new bs))"
  by (simp add: sha_finalize_def sha256_hex_def sha_writes_same sha_writer_new_def)

section \<open>Offline mode and the cache root\<close>

definition is_truthy :: "string \<Rightarrow> bool" where
  "is_truthy s \<longleftrightarrow> ascii_lower (trim s) \<in> {''1'', ''true'', ''yes''}"

definition is_offline :: "(string \<Rightarrow> string option) \<Rightarrow> bool option \<Rightarrow> bool" where
  "is_offline env expl =
     (case expl of
        Some v \<Rightarrow> v
      | None \<Rightarrow> (case env ''EARTHSCI_OFFLINE'' of Some s \<Rightarrow> is_truthy s | None \<Rightarrow> False))"

definition default_data_dir :: "(string \<Rightarrow> string option) \<Rightarrow> string" where
  "default_data_dir env =
     (let user = (case env ''USER'' of
                    Some u \<Rightarrow> u
                  | None \<Rightarrow> (case env ''LOGNAME'' of Some u \<Rightarrow> u | None \<Rightarrow> ''shared''))
      in ''/scratch.local/'' @ user @ ''/earthsci-cache'')"

definition data_dir :: "(string \<Rightarrow> string option) \<Rightarrow> string" where
  "data_dir env =
     (case env ''EARTHSCIDATADIR'' of
        Some dir \<Rightarrow> if dir \<noteq> [] then dir else default_data_dir env
      | None \<Rightarrow> default_data_dir env)"

definition expand_datadir_with :: "string \<Rightarrow> string \<Rightarrow> string" where
  "expand_datadir_with template root =
     (if \<not> contains_str ''EARTHSCIDATADIR'' template then template
      else replace_str ''$EARTHSCIDATADIR'' root (replace_str ''${EARTHSCIDATADIR}'' root template))"

definition expand_datadir :: "(string \<Rightarrow> string option) \<Rightarrow> string \<Rightarrow> string" where
  "expand_datadir env template = expand_datadir_with template (data_dir env)"

end
