(* ===== verification/Manifests.thy ===== *)
theory Manifests
  imports Keys
begin

text \<open>
  The per-blob manifest (\<open>rust/src/manifest.rs\<close>): its fields, the JSON document it is written as and
  read from, and the round trip between them.

  \<open>serde_json\<close> is not part of the repository: the printer of a document (\<open>to_string_pretty\<close>), the
  reader of a document (the JSON layer of \<open>from_slice\<close>) and the text of a refusal are the parameter
  \<open>serde_api\<close>. What the \<open>derive\<close>d (de)serialiser does with the document (field order, unknown,
  duplicate, missing and defaulted fields) is written out here. The locale \<open>serde_laws\<close> states that
  a flat document that was printed reads back, and the instance at the end (two-space printing,
  a reader for flat objects) satisfies it.
\<close>

section \<open>The manifest\<close>

datatype json =
    JNull
  | JBool bool
  | JInt int
  | JNum string
  | JStr string
  | JArr "json list"
  | JObj "(string \<times> json) list"

record serde_api =
  sj_pretty :: "json \<Rightarrow> string"
  sj_parse :: "string \<Rightarrow> string + json"
  sj_refusal :: "json \<Rightarrow> string"

definition manifest_schema :: string where
  "manifest_schema = ''earthsciio/manifest/v1''"

record manifest =
  m_auth_realm :: "string option"
  m_bytes :: nat
  m_etag :: "string option"
  m_fetched_at :: string
  m_last_modified :: "string option"
  m_schema :: string
  m_sha256_content :: string
  m_source_loader :: "string option"
  m_url :: string

definition json_opt :: "string option \<Rightarrow> json" where
  "json_opt x = (case x of None \<Rightarrow> JNull | Some s \<Rightarrow> JStr s)"

definition manifest_names :: "string list" where
  "manifest_names =
     [''auth_realm'', ''bytes'', ''etag'', ''fetched_at'', ''last_modified'', ''schema'',
      ''sha256_content'', ''source_loader'', ''url'']"

definition manifest_json :: "manifest \<Rightarrow> json" where
  "manifest_json m = JObj (zip manifest_names
     [json_opt (m_auth_realm m), JInt (int (m_bytes m)), json_opt (m_etag m),
      JStr (m_fetched_at m), json_opt (m_last_modified m), JStr (m_schema m),
      JStr (m_sha256_content m), json_opt (m_source_loader m), JStr (m_url m)])"

definition to_json_bytes :: "serde_api \<Rightarrow> manifest \<Rightarrow> string" where
  "to_json_bytes api m = sj_pretty api (manifest_json m) @ [CHR 0x0A]"

text \<open>One field of a document, as the derived reader takes it: an \<open>Option<String>\<close> may be absent or
  null, a \<open>String\<close> and the \<open>u64\<close> must be there (a \<open>String\<close> with a default need not).\<close>

definition field_opt :: "(string \<times> json) list \<Rightarrow> string \<Rightarrow> string option option" where
  "field_opt kvs k =
     (case map_of kvs k of
        None \<Rightarrow> Some None
      | Some JNull \<Rightarrow> Some None
      | Some (JStr s) \<Rightarrow> Some (Some s)
      | Some _ \<Rightarrow> None)"

definition field_str :: "(string \<times> json) list \<Rightarrow> string \<Rightarrow> string option \<Rightarrow> string option" where
  "field_str kvs k dflt =
     (case map_of kvs k of
        None \<Rightarrow> dflt
      | Some (JStr s) \<Rightarrow> Some s
      | Some _ \<Rightarrow> None)"

definition field_u64 :: "(string \<times> json) list \<Rightarrow> string \<Rightarrow> nat option" where
  "field_u64 kvs k =
     (case map_of kvs k of
        Some (JInt n) \<Rightarrow> if 0 \<le> n \<and> n \<le> u64_max then Some (nat n) else None
      | _ \<Rightarrow> None)"

definition manifest_of_fields :: "(string \<times> json) list \<Rightarrow> manifest option" where
  "manifest_of_fields kvs =
     (if \<not> list_all (\<lambda>(k, v). k \<in> set manifest_names) kvs \<or> \<not> distinct (map fst kvs) then None
      else
        Option.bind (field_opt kvs ''auth_realm'') (\<lambda>auth_realm.
        Option.bind (field_u64 kvs ''bytes'') (\<lambda>bytes.
        Option.bind (field_opt kvs ''etag'') (\<lambda>etag.
        Option.bind (field_str kvs ''fetched_at'' None) (\<lambda>fetched_at.
        Option.bind (field_opt kvs ''last_modified'') (\<lambda>last_modified.
        Option.bind (field_str kvs ''schema'' (Some manifest_schema)) (\<lambda>schema.
        Option.bind (field_str kvs ''sha256_content'' None) (\<lambda>sha.
        Option.bind (field_opt kvs ''source_loader'') (\<lambda>loader.
        Option.bind (field_str kvs ''url'' None) (\<lambda>url.
          Some \<lparr>m_auth_realm = auth_realm, m_bytes = bytes, m_etag = etag,
                m_fetched_at = fetched_at, m_last_modified = last_modified, m_schema = schema,
                m_sha256_content = sha, m_source_loader = loader, m_url = url\<rparr>))))))))))"

text \<open>A struct is also accepted as the array of its nine fields in order.\<close>

definition manifest_of_json :: "json \<Rightarrow> manifest option" where
  "manifest_of_json j =
     (case j of
        JObj kvs \<Rightarrow> manifest_of_fields kvs
      | JArr xs \<Rightarrow>
          if length xs = length manifest_names then manifest_of_fields (zip manifest_names xs)
          else None
      | _ \<Rightarrow> None)"

definition from_json_bytes :: "serde_api \<Rightarrow> string \<Rightarrow> manifest result" where
  "from_json_bytes api data =
     (case sj_parse api data of
        Inl e \<Rightarrow> Inl (ManifestError e)
      | Inr j \<Rightarrow>
          (case manifest_of_json j of
             None \<Rightarrow> Inl (ManifestError (sj_refusal api j))
           | Some m \<Rightarrow> Inr m))"

definition flat_json :: "json \<Rightarrow> bool" where
  "flat_json j =
     (case j of
        JObj kvs \<Rightarrow> list_all (\<lambda>(k, v). case v of JNull \<Rightarrow> True | JInt n \<Rightarrow> 0 \<le> n | JStr s \<Rightarrow> True | _ \<Rightarrow> False) kvs
      | _ \<Rightarrow> False)"

text \<open>Printing a flat document, with a newline after it, and reading it gives the document.\<close>

locale serde_laws =
  fixes api :: serde_api
  assumes parse_pretty: "flat_json j \<Longrightarrow> sj_parse api (sj_pretty api j @ [CHR 0x0A]) = Inr j"

definition manifest_ok :: "manifest \<Rightarrow> bool" where
  "manifest_ok m \<longleftrightarrow> int (m_bytes m) \<le> u64_max"

lemma flat_manifest_json: "flat_json (manifest_json m)"
  by (simp add: flat_json_def manifest_json_def manifest_names_def json_opt_def split: option.splits)

lemma manifest_of_manifest_json: "manifest_ok m \<Longrightarrow> manifest_of_json (manifest_json m) = Some m"
  by (cases m)
    (simp add: manifest_of_json_def manifest_json_def manifest_names_def manifest_of_fields_def
      field_opt_def field_str_def field_u64_def json_opt_def manifest_ok_def split: option.splits)

lemma manifest_of_fields_ok: "manifest_of_fields kvs = Some m \<Longrightarrow> manifest_ok m"
  by (auto simp: manifest_of_fields_def field_u64_def manifest_ok_def bind_eq_Some_conv
      split: if_splits option.splits json.splits)

lemma from_json_manifest_ok: "from_json_bytes api data = Inr m \<Longrightarrow> manifest_ok m"
  by (auto simp: from_json_bytes_def manifest_of_json_def dest: manifest_of_fields_ok
      split: sum.splits option.splits json.splits if_splits)

context serde_laws
begin

lemma from_to_json_bytes: "manifest_ok m \<Longrightarrow> from_json_bytes api (to_json_bytes api m) = Inr m"
  by (simp add: from_json_bytes_def to_json_bytes_def parse_pretty flat_manifest_json
      manifest_of_manifest_json)

end

section \<open>A printer and a reader of flat documents\<close>

definition escape_char :: "char \<Rightarrow> string" where
  "escape_char c =
     (if c = CHR 0x22 then [CHR 0x5C, CHR 0x22]
      else if c = CHR 0x5C then [CHR 0x5C, CHR 0x5C]
      else if (of_char c :: nat) < 32 then [CHR 0x5C, CHR ''u'', CHR ''0'', CHR ''0''] @ hex_byte c
      else [c])"

definition json_quote :: "string \<Rightarrow> string" where
  "json_quote s = CHR 0x22 # concat (map escape_char s) @ [CHR 0x22]"

definition unhex :: "char \<Rightarrow> nat" where
  "unhex c = (if is_digit c then of_char c - 48 else of_char c - 87)"

fun read_str :: "string \<Rightarrow> (string \<times> string) option" where
  "read_str [] = None"
| "read_str (c # cs) =
     (if c = CHR 0x22 then Some ([], cs)
      else if c = CHR 0x5C then
        (case cs of
           [] \<Rightarrow> None
         | d # ds \<Rightarrow>
             if d = CHR ''u'' then
               (case ds of
                  _ # _ # h # l # rest \<Rightarrow>
                    map_option (\<lambda>(s, r). (char_of (16 * unhex h + unhex l) # s, r)) (read_str rest)
                | _ \<Rightarrow> None)
             else map_option (\<lambda>(s, r). (d # s, r)) (read_str ds))
      else map_option (\<lambda>(s, r). (c # s, r)) (read_str cs))"

definition show_value :: "json \<Rightarrow> string" where
  "show_value v =
     (case v of JInt n \<Rightarrow> show_nat (nat n) | JStr s \<Rightarrow> json_quote s | _ \<Rightarrow> ''null'')"

definition read_value :: "string \<Rightarrow> (json \<times> string) option" where
  "read_value s =
     (case s of
        [] \<Rightarrow> None
      | c # cs \<Rightarrow>
          if c = CHR 0x22 then map_option (\<lambda>(t, r). (JStr t, r)) (read_str cs)
          else if is_digit c then
            Some (JInt (int (dec_value (takeWhile is_digit s))), dropWhile is_digit s)
          else map_option (\<lambda>r. (JNull, r)) (strip_prefix ''null'' s))"

definition show_member :: "string \<times> json \<Rightarrow> string" where
  "show_member m = ''  '' @ json_quote (fst m) @ '': '' @ show_value (snd m)"

fun show_members :: "(string \<times> json) list \<Rightarrow> string" where
  "show_members [] = []"
| "show_members [m] = show_member m"
| "show_members (m # ms) = show_member m @ '','' @ [CHR 0x0A] @ show_members ms"

definition flat_pretty :: "json \<Rightarrow> string" where
  "flat_pretty j =
     (case j of
        JObj [] \<Rightarrow> ''{}''
      | JObj kvs \<Rightarrow> ''{'' @ [CHR 0x0A] @ show_members kvs @ [CHR 0x0A] @ ''}''
      | _ \<Rightarrow> ''null'')"

fun read_members :: "nat \<Rightarrow> string \<Rightarrow> (string \<times> json) list option" where
  "read_members 0 s = None"
| "read_members (Suc fuel) s =
     (case dropWhile is_space s of
        c # cs \<Rightarrow>
          if c = CHR ''}'' then (if dropWhile is_space cs = [] then Some [] else None)
          else if c = CHR '','' then read_members fuel cs
          else if c = CHR 0x22 then
            Option.bind (read_str cs) (\<lambda>(k, r).
              Option.bind (strip_prefix '': '' r) (\<lambda>r.
                Option.bind (read_value r) (\<lambda>(v, r).
                  map_option (Cons (k, v)) (read_members fuel r))))
          else None
      | [] \<Rightarrow> None)"

definition flat_parse :: "string \<Rightarrow> string + json" where
  "flat_parse s =
     (case strip_prefix ''{'' s of
        None \<Rightarrow> Inl ''expected an object''
      | Some r \<Rightarrow>
          (case read_members (length s) r of
             None \<Rightarrow> Inl ''expected a flat object'' | Some kvs \<Rightarrow> Inr (JObj kvs)))"

definition flat_api :: serde_api where
  "flat_api = \<lparr>sj_pretty = flat_pretty, sj_parse = flat_parse, sj_refusal = (\<lambda>_. ''not a manifest'')\<rparr>"

lemma unhex_hex_digit: "d < 16 \<Longrightarrow> unhex (hex_digit d) = d"
  by (auto simp: unhex_def hex_digit_def is_digit_def take_bit_eq_mod)

lemma read_str_quote: "read_str (concat (map escape_char s) @ CHR 0x22 # r) = Some (s, r)"
proof (induction s)
  case Nil
  then show ?case by simp
next
  case (Cons c s)
  have "16 * (of_char c div 16) + of_char c mod 16 = (of_char c :: nat)" by simp
  then have "char_of (16 * unhex (hex_digit (of_char c div 16)) + unhex (hex_digit (of_char c mod 16))) = c"
    by (simp add: unhex_hex_digit less_mult_imp_div_less)
  with Cons show ?case by (simp add: escape_char_def hex_byte_def)
qed

lemma read_value_show:
  assumes "case v of JNull \<Rightarrow> True | JInt n \<Rightarrow> 0 \<le> n | JStr s \<Rightarrow> True | _ \<Rightarrow> False" "\<not> is_digit c"
  shows "read_value (show_value v @ c # r) = Some (v, c # r)"
proof (cases v)
  case (JInt n)
  obtain d ds where d: "show_nat (nat n) = d # ds" "is_digit d"
    by (metis list.exhaust list.set_intros(1) show_nat_digits show_nat_nonempty)
  have "takeWhile is_digit (d # ds @ c # r) = d # ds" "dropWhile is_digit (d # ds @ c # r) = c # r"
    using takeWhile_show_nat [OF assms(2), of "nat n" r] dropWhile_show_nat [OF assms(2), of "nat n" r] d
    by simp_all
  moreover have "dec_value (d # ds) = nat n" using d dec_value_show_nat [of "nat n"] by simp
  moreover have "d \<noteq> CHR 0x22" using d(2) by (auto simp: is_digit_def)
  ultimately show ?thesis using JInt d assms(1) by (simp add: read_value_def show_value_def)
next
  case (JStr s)
  then show ?thesis using read_str_quote [of s "c # r"] by (simp add: read_value_def show_value_def json_quote_def)
qed (use assms in \<open>simp_all add: read_value_def show_value_def strip_prefix_def is_digit_def\<close>)

lemma read_member_step:
  assumes "case v of JNull \<Rightarrow> True | JInt n \<Rightarrow> 0 \<le> n | JStr s \<Rightarrow> True | _ \<Rightarrow> False" "\<not> is_digit c"
  shows "read_members (Suc fuel) (CHR 0x0A # show_member (k, v) @ c # r) =
    map_option (Cons (k, v)) (read_members fuel (c # r))"
  using read_str_quote [of k "CHR '':'' # CHR '' '' # show_value v @ c # r"] read_value_show [OF assms, of r]
  by (simp add: show_member_def json_quote_def is_space_def strip_prefix_def)

lemma read_members_show:
  assumes "kvs \<noteq> []" "2 * length kvs < fuel"
    and "list_all (\<lambda>(k, v). case v of JNull \<Rightarrow> True | JInt n \<Rightarrow> 0 \<le> n | JStr s \<Rightarrow> True | _ \<Rightarrow> False) kvs"
  shows "read_members fuel (CHR 0x0A # show_members kvs @ [CHR 0x0A, CHR ''}'', CHR 0x0A]) = Some kvs"
  using assms
proof (induction kvs arbitrary: fuel rule: show_members.induct)
  case 1
  then show ?case by simp
next
  case (2 m)
  obtain k v where m: "m = (k, v)" by force
  obtain f where f: "fuel = Suc (Suc f)" using 2 by (cases fuel; cases "fuel - 1") auto
  have v: "case v of JNull \<Rightarrow> True | JInt n \<Rightarrow> 0 \<le> n | JStr s \<Rightarrow> True | _ \<Rightarrow> False"
    using 2 m by simp
  have nd: "\<not> is_digit (CHR 0x0A)" by (simp add: is_digit_def)
  show ?case
    using read_member_step [OF v nd, of "Suc f" k "[CHR ''}'', CHR 0x0A]"]
    by (simp add: f m is_space_def del: read_members.simps) (simp add: is_space_def)
next
  case (3 m m' ms)
  obtain k v where m: "m = (k, v)" by force
  obtain f where f: "fuel = Suc (Suc f)" using 3 by (cases fuel; cases "fuel - 1") auto
  have v: "case v of JNull \<Rightarrow> True | JInt n \<Rightarrow> 0 \<le> n | JStr s \<Rightarrow> True | _ \<Rightarrow> False"
    using 3 m by simp
  have nd: "\<not> is_digit (CHR '','')" by (simp add: is_digit_def)
  have IH: "read_members f (CHR 0x0A # show_members (m' # ms) @ [CHR 0x0A, CHR ''}'', CHR 0x0A]) = Some (m' # ms)"
    using 3 f by (intro "3.IH") auto
  have "read_members (Suc f) (CHR '','' # CHR 0x0A # show_members (m' # ms) @ [CHR 0x0A, CHR ''}'', CHR 0x0A])
      = Some (m' # ms)"
    using IH by (simp add: is_space_def)
  with read_member_step [OF v nd, of "Suc f" k "CHR 0x0A # show_members (m' # ms) @ [CHR 0x0A, CHR ''}'', CHR 0x0A]"]
  show ?case by (simp add: f m del: read_members.simps)
qed

lemma length_show_members: "2 * length kvs \<le> length (show_members kvs)"
  by (induction kvs rule: show_members.induct) (auto simp: show_member_def)

interpretation flat: serde_laws flat_api
proof
  fix j
  assume j: "flat_json j"
  then obtain kvs where kvs: "j = JObj kvs" by (cases j) (auto simp: flat_json_def)
  show "sj_parse flat_api (sj_pretty flat_api j @ [CHR 0x0A]) = Inr j"
  proof (cases "kvs = []")
    case True
    then show ?thesis by (simp add: kvs flat_api_def flat_pretty_def flat_parse_def strip_prefix_def is_space_def)
  next
    case False
    have "flat_pretty j @ [CHR 0x0A] = CHR ''{'' # CHR 0x0A # show_members kvs @ [CHR 0x0A, CHR ''}'', CHR 0x0A]"
      using False by (cases kvs) (simp_all add: kvs flat_pretty_def)
    then show ?thesis
      using read_members_show [OF False, of "length (flat_pretty j @ [CHR 0x0A])"] length_show_members [of kvs] j
      by (simp add: kvs flat_api_def flat_parse_def strip_prefix_def flat_json_def)
  qed
qed

text \<open>
  A manifest that was written reads back as it was, field by field, absent fields included.
\<close>

theorem manifest_roundtrip:
  assumes "serde_laws api" and "manifest_ok m"
  shows "from_json_bytes api (to_json_bytes api m) = Inr m"
  using serde_laws.from_to_json_bytes [OF assms] .

definition sample_manifest :: manifest where
  "sample_manifest =
     \<lparr>m_auth_realm = None, m_bytes = 1012, m_etag = Some ''W/1'', m_fetched_at = ''2026-06-26T00:00:00Z'',
      m_last_modified = None, m_schema = manifest_schema, m_sha256_content = ''fe1f'',
      m_source_loader = Some ''era5'', m_url = ''https://data.earthsci.dev/a.nc''\<rparr>"

theorem manifest_roundtrip_witness:
  "from_json_bytes flat_api (to_json_bytes flat_api sample_manifest) = Inr sample_manifest"
  by (rule manifest_roundtrip [OF flat.serde_laws_axioms])
    (simp add: manifest_ok_def sample_manifest_def u64_max_def)

end
