(* ===== verification/FileSystem.thy ===== *)
theory FileSystem
  imports Manifests
begin

text \<open>
  The part of \<open>std::fs\<close> the cache uses, as operations on an explicit world: the paths that exist
  (a directory lists its entries in the order of this list), the paths this host cannot access and
  how the system call fails there, the wall clock, the counter temporary names are drawn from, and
  whatever a transport reaches (\<open>remote\<close>). A file carries its bytes and its modification time, if
  the file system reports one. Paths are strings; \<open>path_join\<close> is \<open>Path::join\<close>.
\<close>

datatype node = FileNode string "int option" | DirNode

record 'r world =
  nodes :: "(string \<times> node) list"
  fault :: "string \<Rightarrow> io_error option"
  clock :: int
  fresh :: nat
  remote :: 'r

definition not_found_err :: io_error where
  "not_found_err = \<lparr>io_kind = IoNotFound, io_text = ''No such file or directory (os error 2)''\<rparr>"

definition is_a_directory_err :: io_error where
  "is_a_directory_err = \<lparr>io_kind = IoOther, io_text = ''Is a directory (os error 21)''\<rparr>"

definition not_a_directory_err :: io_error where
  "not_a_directory_err = \<lparr>io_kind = IoNotADirectory, io_text = ''Not a directory (os error 20)''\<rparr>"

definition file_too_large_err :: io_error where
  "file_too_large_err = \<lparr>io_kind = IoOther, io_text = ''File too large (os error 27)''\<rparr>"

definition path_join :: "string \<Rightarrow> string \<Rightarrow> string" where
  "path_join a b =
     (if starts_with ''/'' b then b
      else if a = [] \<or> last a = CHR ''/'' then a @ b
      else a @ ''/'' @ b)"

definition fs_node :: "string \<Rightarrow> 'r world \<Rightarrow> io_error + node" where
  "fs_node p w =
     (case fault w p of
        Some e \<Rightarrow> Inl e
      | None \<Rightarrow> (case map_of (nodes w) p of None \<Rightarrow> Inl not_found_err | Some n \<Rightarrow> Inr n))"

definition fs_read :: "string \<Rightarrow> 'r world \<Rightarrow> io_error + string" where
  "fs_read p w =
     (case fs_node p w of
        Inl e \<Rightarrow> Inl e
      | Inr (FileNode bytes mt) \<Rightarrow> Inr bytes
      | Inr DirNode \<Rightarrow> Inl is_a_directory_err)"

definition fs_write :: "string \<Rightarrow> string \<Rightarrow> 'r world \<Rightarrow> (io_error + unit) \<times> 'r world" where
  "fs_write p bytes w =
     (case fault w p of
        Some e \<Rightarrow> (Inl e, w)
      | None \<Rightarrow>
          if map_of (nodes w) p = Some DirNode then (Inl is_a_directory_err, w)
          else if u64_max < int (length bytes) then (Inl file_too_large_err, w)
          else (Inr (), w\<lparr>nodes := al_put p (FileNode bytes (Some (clock w))) (nodes w)\<rparr>))"

text \<open>\<open>rename\<close> replaces the destination atomically; the source is gone afterwards.\<close>

definition fs_rename :: "string \<Rightarrow> string \<Rightarrow> 'r world \<Rightarrow> (io_error + unit) \<times> 'r world" where
  "fs_rename a b w =
     (case fs_node a w of
        Inl e \<Rightarrow> (Inl e, w)
      | Inr n \<Rightarrow>
          (case fault w b of
             Some e \<Rightarrow> (Inl e, w)
           | None \<Rightarrow>
               if map_of (nodes w) b = Some DirNode then (Inl is_a_directory_err, w)
               else (Inr (), w\<lparr>nodes := al_put b n (al_del a (nodes w))\<rparr>)))"

definition fs_remove :: "string \<Rightarrow> 'r world \<Rightarrow> 'r world" where
  "fs_remove p w = w\<lparr>nodes := al_del p (nodes w)\<rparr>"

text \<open>The names \<open>read_dir\<close> lists: the entries directly below the directory, in its order.\<close>

definition dir_names :: "string \<Rightarrow> 'r world \<Rightarrow> string list" where
  "dir_names d w =
     List.map_filter (\<lambda>(p, n).
        case strip_prefix (d @ ''/'') p of
          None \<Rightarrow> None
        | Some name \<Rightarrow> if name \<noteq> [] \<and> CHR ''/'' \<notin> set name then Some name else None) (nodes w)"

definition fs_read_dir :: "string \<Rightarrow> 'r world \<Rightarrow> io_error + string list" where
  "fs_read_dir d w =
     (case fs_node d w of
        Inl e \<Rightarrow> Inl e
      | Inr (FileNode bytes mt) \<Rightarrow> Inl not_a_directory_err
      | Inr DirNode \<Rightarrow> Inr (dir_names d w))"

text \<open>\<open>create_dir_all\<close> makes the missing directories of a path from the root down and stops at the
  first it cannot make.\<close>

fun path_prefixes :: "string \<Rightarrow> string \<Rightarrow> string list" where
  "path_prefixes done [] = [done]"
| "path_prefixes done (c # cs) =
     (if c = CHR ''/'' \<and> done \<noteq> [] then done # path_prefixes (done @ [c]) cs
      else path_prefixes (done @ [c]) cs)"

fun mkdirs :: "string list \<Rightarrow> 'r world \<Rightarrow> (io_error + unit) \<times> 'r world" where
  "mkdirs [] w = (Inr (), w)"
| "mkdirs (d # ds) w =
     (case map_of (nodes w) d of
        Some DirNode \<Rightarrow> mkdirs ds w
      | Some (FileNode bytes mt) \<Rightarrow> (Inl not_a_directory_err, w)
      | None \<Rightarrow>
          (case fault w d of
             Some e \<Rightarrow> (Inl e, w)
           | None \<Rightarrow> mkdirs ds (w\<lparr>nodes := al_put d DirNode (nodes w)\<rparr>)))"

definition create_dir_all :: "string \<Rightarrow> 'r world \<Rightarrow> unit result \<times> 'r world" where
  "create_dir_all p w =
     (case mkdirs (path_prefixes [] p) w of
        (Inl e, w') \<Rightarrow> (Inl (Io (Some p) e), w')
      | (Inr u, w') \<Rightarrow> (Inr (), w'))"

text \<open>A named temporary file: a fresh, empty file in the directory.\<close>

definition temp_in ::
    "string \<Rightarrow> string \<Rightarrow> string \<Rightarrow> 'r world \<Rightarrow> (io_error + string) \<times> 'r world" where
  "temp_in dir prefix suffix w =
     (let p = path_join dir (prefix @ show_nat (fresh w) @ suffix) in
      case fs_write p [] (w\<lparr>fresh := Suc (fresh w)\<rparr>) of
        (Inl e, w') \<Rightarrow> (Inl e, w')
      | (Inr u, w') \<Rightarrow> (Inr p, w'))"

section \<open>What the operations change\<close>

definition file_bytes :: "'r world \<Rightarrow> string \<Rightarrow> string option" where
  "file_bytes w p = (case map_of (nodes w) p of Some (FileNode bytes mt) \<Rightarrow> Some bytes | _ \<Rightarrow> None)"

lemma fs_write_Inr:
  "fs_write p bytes w = (Inr u, w') \<Longrightarrow>
     map_of (nodes w') = (map_of (nodes w))(p \<mapsto> FileNode bytes (Some (clock w))) \<and>
     fault w' = fault w \<and> fault w p = None \<and> clock w' = clock w \<and> fresh w' = fresh w \<and>
     remote w' = remote w \<and> int (length bytes) \<le> u64_max"
  by (auto simp: fs_write_def split: option.splits if_splits)

lemma fs_write_Inl: "fs_write p bytes w = (Inl e, w') \<Longrightarrow> w' = w"
  by (auto simp: fs_write_def split: option.splits if_splits)

lemma fs_rename_Inr:
  "fs_rename a b w = (Inr u, w') \<Longrightarrow>
     \<exists>n. map_of (nodes w) a = Some n \<and> fault w b = None \<and>
       map_of (nodes w') = ((map_of (nodes w))(a := None))(b \<mapsto> n) \<and>
     fault w' = fault w \<and> clock w' = clock w \<and> fresh w' = fresh w \<and> remote w' = remote w"
  by (auto simp: fs_rename_def fs_node_def split: option.splits if_splits sum.splits)

lemma fs_rename_Inl: "fs_rename a b w = (Inl e, w') \<Longrightarrow> w' = w"
  by (auto simp: fs_rename_def split: option.splits if_splits sum.splits)

lemma mkdirs_keeps:
  "mkdirs ds w = (r, w') \<Longrightarrow>
     (\<forall>p n. map_of (nodes w) p = Some n \<longrightarrow> map_of (nodes w') p = Some n) \<and>
     (\<forall>p. map_of (nodes w) p = None \<longrightarrow> map_of (nodes w') p \<noteq> None \<longrightarrow>
        p \<in> set ds \<and> map_of (nodes w') p = Some DirNode) \<and>
     fault w' = fault w \<and> clock w' = clock w \<and> fresh w' = fresh w \<and> remote w' = remote w"
proof (induction ds w rule: mkdirs.induct)
  case (1 w)
  then show ?case by auto
next
  case (2 d ds w)
  show ?case
  proof (cases "map_of (nodes w) d")
    case None
    show ?thesis
    proof (cases "fault w d")
      case None': None
      let ?w1 = "w\<lparr>nodes := al_put d DirNode (nodes w)\<rparr>"
      from 2 None None' have "mkdirs ds ?w1 = (r, w')" by simp
      note IH = "2.IH"(1) [OF None None' this]
      have keep: "map_of (nodes ?w1) q = Some n \<longrightarrow> map_of (nodes w') q = Some n"
        and new: "map_of (nodes ?w1) q = None \<longrightarrow> map_of (nodes w') q \<noteq> None \<longrightarrow>
          q \<in> set ds \<and> map_of (nodes w') q = Some DirNode" for q n
        using IH by blast+
      have frames: "fault w' = fault w" "clock w' = clock w" "fresh w' = fresh w" "remote w' = remote w"
        using IH [THEN conjunct2, THEN conjunct2] by simp_all
      have "map_of (nodes w') q = Some n" if "map_of (nodes w) q = Some n" for q n
        using keep [of q n] that None by (cases "q = d") simp_all
      moreover have "q \<in> set (d # ds) \<and> map_of (nodes w') q = Some DirNode"
        if "map_of (nodes w) q = None" "map_of (nodes w') q \<noteq> None" for q
      proof (cases "q = d")
        case True
        with keep [of d DirNode] show ?thesis by simp
      next
        case False
        then have "map_of (nodes ?w1) q = None" using that(1) by simp
        with new [of q] that(2) show ?thesis by auto
      qed
      ultimately show ?thesis using frames by blast
    qed (use 2 None in auto)
  next
    case (Some n)
    with 2 show ?thesis by (cases n) auto
  qed
qed

lemma mkdirs_made: "mkdirs ds w = (Inr u, w') \<Longrightarrow> \<forall>d\<in>set ds. map_of (nodes w') d = Some DirNode"
proof (induction ds w rule: mkdirs.induct)
  case (2 d ds w)
  then obtain w1 where w1: "mkdirs ds w1 = (Inr u, w')" "map_of (nodes w1) d = Some DirNode"
    "\<forall>d\<in>set ds. map_of (nodes w') d = Some DirNode"
    by (auto split: option.splits node.splits)
  with mkdirs_keeps [OF w1(1)] show ?case by auto
qed simp

lemma path_prefixes_last: "done @ p \<in> set (path_prefixes done p)"
  by (induction "done" p rule: path_prefixes.induct) auto

lemma path_prefixes_prefix: "q \<in> set (path_prefixes done p) \<Longrightarrow> \<exists>r. done @ p = q @ r"
  by (induction "done" p rule: path_prefixes.induct) (auto split: if_splits)

lemma create_dir_all_keeps:
  assumes "create_dir_all p w = (r, w')"
  shows "map_of (nodes w) q = Some n \<Longrightarrow> map_of (nodes w') q = Some n"
    and "file_bytes w' q = file_bytes w q"
    and "map_of (nodes w) q = None \<Longrightarrow> map_of (nodes w') q \<noteq> None \<Longrightarrow>
      map_of (nodes w') q = Some DirNode \<and> (\<exists>s. p = q @ s)"
    and "fault w' = fault w" "clock w' = clock w" "fresh w' = fresh w" "remote w' = remote w"
proof -
  from assms obtain r' where m: "mkdirs (path_prefixes [] p) w = (r', w')"
    by (auto simp: create_dir_all_def split: prod.splits sum.splits)
  note k = mkdirs_keeps [OF m]
  then show "map_of (nodes w) q = Some n \<Longrightarrow> map_of (nodes w') q = Some n" by auto
  show "file_bytes w' q = file_bytes w q"
  proof (cases "map_of (nodes w) q")
    case None
    then have "map_of (nodes w') q = None \<or> map_of (nodes w') q = Some DirNode" using k by blast
    with None show ?thesis by (auto simp: file_bytes_def)
  next
    case (Some n)
    then have "map_of (nodes w') q = Some n" using k by blast
    with Some show ?thesis by (simp add: file_bytes_def)
  qed
  show "map_of (nodes w) q = None \<Longrightarrow> map_of (nodes w') q \<noteq> None \<Longrightarrow>
      map_of (nodes w') q = Some DirNode \<and> (\<exists>s. p = q @ s)"
    using k path_prefixes_prefix [of q "[]" p] by auto
  show "fault w' = fault w" "clock w' = clock w" "fresh w' = fresh w" "remote w' = remote w"
    using k by auto
qed

lemma create_dir_all_made: "create_dir_all p w = (Inr u, w') \<Longrightarrow> map_of (nodes w') p = Some DirNode"
  using path_prefixes_last [of "[]" p] mkdirs_made [of "path_prefixes [] p" w]
  by (auto simp: create_dir_all_def split: prod.splits sum.splits)

end
