(* ===== verification/LocalStore.thy ===== *)
theory LocalStore
  imports FileSystem
begin

text \<open>
  The store registry and the \<open>local\<close> store (\<open>rust/src/store/mod.rs\<close>, \<open>rust/src/store/local.rs\<close>):
  the trait as a record of operations on the world, the file-system layout, and the contract
  \<open>blob_store\<close> that the cache relies on, discharged for the local store.

  A \<open>StagingFile\<close> is the path of its temporary file; dropping it removes the file, and committing
  it consumes it (a failed commit drops it). \<open>lock\<close> blocks until the advisory lock is free: what
  other processes do to the cache in the meantime is the parameter \<open>others\<close>.
\<close>

section \<open>The store trait and its registry\<close>

record 'w store =
  st_name :: string
  st_exists :: "string \<Rightarrow> 'w \<Rightarrow> bool"
  st_get_blob :: "string \<Rightarrow> 'w \<Rightarrow> string option"
  st_get_blob_hinted :: "string \<Rightarrow> string \<Rightarrow> 'w \<Rightarrow> string option"
  st_get_meta :: "string \<Rightarrow> 'w \<Rightarrow> manifest option result"
  st_put_meta :: "string \<Rightarrow> manifest \<Rightarrow> 'w \<Rightarrow> unit result \<times> 'w"
  st_new_staging :: "'w \<Rightarrow> string result \<times> 'w"
  st_drop_staging :: "string \<Rightarrow> 'w \<Rightarrow> 'w"
  st_commit_blob :: "string \<Rightarrow> string \<Rightarrow> string \<Rightarrow> 'w \<Rightarrow> string result \<times> 'w"
  st_lock :: "string \<Rightarrow> 'w \<Rightarrow> unit result \<times> 'w"

type_synonym 'w store_registry = "(string \<times> 'w store) list"

definition store_register :: "'w store \<Rightarrow> 'w store_registry \<Rightarrow> 'w store_registry" where
  "store_register s r = al_put (st_name s) s r"

definition store_get :: "'w store_registry \<Rightarrow> string \<Rightarrow> 'w store option" where
  "store_get r name = map_of r name"

section \<open>The local layout\<close>

definition version_dir :: "string \<Rightarrow> string" where
  "version_dir root = path_join root ''v1''"

definition fanout_dir :: "string \<Rightarrow> string \<Rightarrow> string" where
  "fanout_dir root key = path_join (path_join (version_dir root) ''blobs'') (take 2 key)"

definition blob_path :: "string \<Rightarrow> string \<Rightarrow> string \<Rightarrow> string" where
  "blob_path root key ext =
     path_join (fanout_dir root key) (if ext = [] then key else key @ ''.'' @ ext)"

definition meta_dir :: "string \<Rightarrow> string" where
  "meta_dir root = path_join (version_dir root) ''meta''"

definition meta_path :: "string \<Rightarrow> string \<Rightarrow> string" where
  "meta_path root key = path_join (meta_dir root) (key @ ''.json'')"

definition lock_dir :: "string \<Rightarrow> string" where
  "lock_dir root = path_join (version_dir root) ''locks''"

definition lock_path :: "string \<Rightarrow> string \<Rightarrow> string" where
  "lock_path root key = path_join (lock_dir root) (key @ ''.lock'')"

definition tmp_dir :: "string \<Rightarrow> string" where
  "tmp_dir root = path_join (version_dir root) ''tmp''"

definition blob_name_matches :: "string \<Rightarrow> string \<Rightarrow> bool" where
  "blob_name_matches key name \<longleftrightarrow>
     name = key \<or> (case strip_prefix key name of None \<Rightarrow> False | Some rest \<Rightarrow> starts_with ''.'' rest)"

definition find_blob :: "string \<Rightarrow> string \<Rightarrow> 'r world \<Rightarrow> string option" where
  "find_blob root key w =
     (case fs_read_dir (fanout_dir root key) w of
        Inl e \<Rightarrow> None
      | Inr names \<Rightarrow>
          map_option (path_join (fanout_dir root key)) (find (blob_name_matches key) names))"

definition local_get_blob_hinted :: "string \<Rightarrow> string \<Rightarrow> string \<Rightarrow> 'r world \<Rightarrow> string option" where
  "local_get_blob_hinted root key ext w =
     (case fs_node (blob_path root key ext) w of
        Inr n \<Rightarrow> Some (blob_path root key ext)
      | Inl e \<Rightarrow>
          (if ext \<noteq> [] then
             (case fs_node (blob_path root key []) w of
                Inr n \<Rightarrow> Some (blob_path root key [])
              | Inl e \<Rightarrow> find_blob root key w)
           else find_blob root key w))"

definition local_get_meta ::
    "serde_api \<Rightarrow> string \<Rightarrow> string \<Rightarrow> 'r world \<Rightarrow> manifest option result" where
  "local_get_meta api root key w =
     (case fs_read (meta_path root key) w of
        Inr data \<Rightarrow> bindR (from_json_bytes api data) (\<lambda>m. Inr (Some m))
      | Inl e \<Rightarrow>
          if io_kind e = IoNotFound then Inr None else Inl (Io (Some (meta_path root key)) e))"

definition local_put_meta ::
    "serde_api \<Rightarrow> string \<Rightarrow> string \<Rightarrow> manifest \<Rightarrow> 'r world \<Rightarrow> unit result \<times> 'r world" where
  "local_put_meta api root key m w =
     (case create_dir_all (meta_dir root) w of
        (Inl e, w) \<Rightarrow> (Inl e, w)
      | (Inr u, w) \<Rightarrow>
          (case temp_in (meta_dir root) ''.meta-'' ''.json.part'' w of
             (Inl e, w) \<Rightarrow> (Inl (Io (Some (meta_dir root)) e), w)
           | (Inr tmp, w) \<Rightarrow>
               (case fs_write tmp (to_json_bytes api m) w of
                  (Inl e, w) \<Rightarrow> (Inl (Io (Some tmp) e), fs_remove tmp w)
                | (Inr u, w) \<Rightarrow>
                    (case fs_rename tmp (meta_path root key) w of
                       (Inl e, w) \<Rightarrow> (Inl (Io (Some (meta_path root key)) e), fs_remove tmp w)
                     | (Inr u, w) \<Rightarrow> (Inr (), w)))))"

definition local_new_staging :: "string \<Rightarrow> 'r world \<Rightarrow> string result \<times> 'r world" where
  "local_new_staging root w =
     (case create_dir_all (tmp_dir root) w of
        (Inl e, w) \<Rightarrow> (Inl e, w)
      | (Inr u, w) \<Rightarrow>
          (case temp_in (tmp_dir root) ''dl-'' ''.part'' w of
             (Inl e, w) \<Rightarrow> (Inl (Io (Some (tmp_dir root)) e), w)
           | (Inr p, w) \<Rightarrow> (Inr p, w)))"

definition local_commit_blob ::
    "string \<Rightarrow> string \<Rightarrow> string \<Rightarrow> string \<Rightarrow> 'r world \<Rightarrow> string result \<times> 'r world" where
  "local_commit_blob root key staged ext w =
     (case create_dir_all (fanout_dir root key) w of
        (Inl e, w) \<Rightarrow> (Inl e, fs_remove staged w)
      | (Inr u, w) \<Rightarrow>
          (case fs_rename staged (blob_path root key ext) w of
             (Inl e, w) \<Rightarrow> (Inl (Io (Some (blob_path root key ext)) e), fs_remove staged w)
           | (Inr u, w) \<Rightarrow> (Inr (blob_path root key ext), w)))"

definition local_lock ::
    "string \<Rightarrow> (string \<Rightarrow> 'r world \<Rightarrow> 'r world) \<Rightarrow> string \<Rightarrow> 'r world \<Rightarrow> unit result \<times> 'r world" where
  "local_lock root others key w =
     (case create_dir_all (lock_dir root) w of
        (Inl e, w) \<Rightarrow> (Inl e, w)
      | (Inr u, w) \<Rightarrow>
          (case fs_node (lock_path root key) w of
             Inr (FileNode bytes mt) \<Rightarrow> (Inr (), others key w)
           | Inr DirNode \<Rightarrow> (Inl (Io (Some (lock_path root key)) is_a_directory_err), w)
           | Inl e \<Rightarrow>
               (case fs_write (lock_path root key) [] w of
                  (Inl e, w) \<Rightarrow> (Inl (Io (Some (lock_path root key)) e), w)
                | (Inr u, w) \<Rightarrow> (Inr (), others key w))))"

definition local_store ::
    "serde_api \<Rightarrow> (string \<Rightarrow> 'r world \<Rightarrow> 'r world) \<Rightarrow> string \<Rightarrow> 'r world store" where
  "local_store api others root =
     \<lparr>st_name = ''local'',
      st_exists = (\<lambda>key w. find_blob root key w \<noteq> None),
      st_get_blob = find_blob root,
      st_get_blob_hinted = local_get_blob_hinted root,
      st_get_meta = local_get_meta api root,
      st_put_meta = local_put_meta api root,
      st_new_staging = local_new_staging root,
      st_drop_staging = fs_remove,
      st_commit_blob = local_commit_blob root,
      st_lock = local_lock root others\<rparr>"


section \<open>The contract of a store\<close>

definition same_meta :: "'r world store \<Rightarrow> 'r world \<Rightarrow> 'r world \<Rightarrow> string \<Rightarrow> bool" where
  "same_meta S w w' k \<longleftrightarrow> st_get_meta S k w' = st_get_meta S k w"

definition same_blob :: "'r world store \<Rightarrow> 'r world \<Rightarrow> 'r world \<Rightarrow> string \<Rightarrow> bool" where
  "same_blob S w w' k \<longleftrightarrow> (\<forall>ext. st_get_blob_hinted S k ext w' = st_get_blob_hinted S k ext w \<and>
     (\<forall>p. st_get_blob_hinted S k ext w = Some p \<longrightarrow> file_bytes w' p = file_bytes w p))"

definition same_entries :: "'r world store \<Rightarrow> 'r world \<Rightarrow> 'r world \<Rightarrow> bool" where
  "same_entries S w w' \<longleftrightarrow> (\<forall>k. valid_key k \<longrightarrow> same_meta S w w' k \<and> same_blob S w w' k)"

text \<open>
  What the cache relies on: a manifest that was put is read back and disturbs no other entry; a
  committed blob is the one the same hint finds, with the staged bytes; staging, a failed put and
  a failed commit change no entry.
\<close>

locale blob_store =
  fixes S :: "'r world store" and staging :: "string \<Rightarrow> bool"
  assumes put_meta_ok: "valid_key k \<Longrightarrow> manifest_ok m \<Longrightarrow> st_put_meta S k m w = (Inr u, w') \<Longrightarrow>
      st_get_meta S k w' = Inr (Some m) \<and>
      (\<forall>j. valid_key j \<longrightarrow> j \<noteq> k \<longrightarrow> same_meta S w w' j) \<and> (\<forall>j. valid_key j \<longrightarrow> same_blob S w w' j)"
    and get_meta_ok: "st_get_meta S k w = Inr (Some m) \<Longrightarrow> manifest_ok m"
    and put_meta_err: "valid_key k \<Longrightarrow> st_put_meta S k m w = (Inl e, w') \<Longrightarrow> same_entries S w w'"
    and new_staging: "st_new_staging S w = (r, w') \<Longrightarrow> same_entries S w w'"
    and staging_path: "st_new_staging S w = (Inr p, w') \<Longrightarrow> staging p"
    and drop_staging: "staging p \<Longrightarrow> same_entries S w (st_drop_staging S p w)"
    and write_staging: "staging p \<Longrightarrow> fs_write p bytes w = (wr, w') \<Longrightarrow> same_entries S w w'"
    and commit_ok: "valid_key k \<Longrightarrow> staging p \<Longrightarrow> st_commit_blob S k p ext w = (Inr q, w') \<Longrightarrow>
      st_get_blob_hinted S k ext w' = Some q \<and> file_bytes w' q = file_bytes w p \<and> fault w' = fault w \<and>
      (\<forall>j. valid_key j \<longrightarrow> same_meta S w w' j)"
    and store_errors: "(\<exists>m. st_put_meta S k m w = (Inl e, w')) \<or> st_new_staging S w = (Inl e, w') \<or>
      (\<exists>p ext. st_commit_blob S k p ext w = (Inl e, w')) \<or> st_lock S k w = (Inl e, w') \<Longrightarrow> \<exists>p x. e = Io p x"
    and get_meta_errors: "st_get_meta S k w = Inl e \<Longrightarrow> (\<exists>p x. e = Io p x) \<or> (\<exists>d. e = ManifestError d)"
    and commit_err: "valid_key k \<Longrightarrow> staging p \<Longrightarrow> st_commit_blob S k p ext w = (Inl e, w') \<Longrightarrow>
      (\<forall>j. valid_key j \<longrightarrow> same_meta S w w' j)"

lemma same_entries_refl [simp, intro]: "same_entries S w w"
  by (simp add: same_entries_def same_meta_def same_blob_def)

lemma same_entries_trans: "same_entries S w w' \<Longrightarrow> same_entries S w' w'' \<Longrightarrow> same_entries S w w''"
  by (auto simp: same_entries_def same_meta_def same_blob_def)

lemma same_blobD:
  "same_blob S w w' k \<Longrightarrow> st_get_blob_hinted S k ext w = Some p \<Longrightarrow>
     st_get_blob_hinted S k ext w' = Some p \<and> file_bytes w' p = file_bytes w p"
  by (simp add: same_blob_def)

section \<open>The layout's regions\<close>

definition vdir :: "string \<Rightarrow> string" where
  "vdir root = version_dir root @ ''/''"

lemma version_dir_last: "version_dir root \<noteq> []" "last (version_dir root) = CHR ''1''"
  by (auto simp: version_dir_def path_join_def)

lemma join_version [simp]:
  "c \<noteq> CHR ''/'' \<Longrightarrow> path_join (version_dir root) (c # cs) = vdir root @ c # cs"
  using version_dir_last [of root] by (simp add: path_join_def vdir_def)

lemma valid_key_split:
  assumes "valid_key k"
  obtains a b r where "k = a # b # r" "is_hex a" "is_hex b" "length r = 62" "list_all is_hex r"
proof -
  obtain a as where "k = a # as" using assms by (cases k) (auto simp: valid_key_def)
  moreover obtain b r where "as = b # r" using assms calculation by (cases as) (auto simp: valid_key_def)
  ultimately show ?thesis using that assms by (auto simp: valid_key_def)
qed

lemma hex_not_sep:
  "is_hex c \<Longrightarrow> c \<noteq> CHR ''/'' \<and> c \<noteq> CHR ''.'' \<and> CHR ''/'' \<noteq> c \<and> CHR ''.'' \<noteq> c"
  by (auto simp: is_hex_def is_digit_def)

lemma layout_paths:
  assumes "valid_key k"
  shows "fanout_dir root k = vdir root @ ''blobs/'' @ take 2 k"
    and "blob_path root k ext = vdir root @ ''blobs/'' @ take 2 k @ ''/'' @ k @ (if ext = [] then [] else ''.'' @ ext)"
    and "meta_dir root = vdir root @ ''meta''"
    and "meta_path root k = vdir root @ ''meta/'' @ k @ ''.json''"
    and "tmp_dir root = vdir root @ ''tmp''"
    and "lock_dir root = vdir root @ ''locks''"
proof -
  obtain a b r where k: "k = a # b # r" "is_hex a" "is_hex b" using assms by (rule valid_key_split)
  note h = hex_not_sep [OF k(2)] hex_not_sep [OF k(3)]
  show "fanout_dir root k = vdir root @ ''blobs/'' @ take 2 k" using h
    by (simp add: fanout_dir_def k) (simp add: path_join_def)
  then show "blob_path root k ext = vdir root @ ''blobs/'' @ take 2 k @ ''/'' @ k @ (if ext = [] then [] else ''.'' @ ext)"
    using h by (simp add: blob_path_def k) (simp add: path_join_def)
  show md: "meta_dir root = vdir root @ ''meta''" by (simp add: meta_dir_def)
  show "meta_path root k = vdir root @ ''meta/'' @ k @ ''.json''"
    using h by (simp add: meta_path_def md k) (simp add: path_join_def)
  show "tmp_dir root = vdir root @ ''tmp''" by (simp add: tmp_dir_def)
  show "lock_dir root = vdir root @ ''locks''" by (simp add: lock_dir_def)
qed

definition in_blobs :: "string \<Rightarrow> string \<Rightarrow> bool" where
  "in_blobs root p \<longleftrightarrow> starts_with (vdir root @ ''blobs/'') p"

definition local_staging :: "string \<Rightarrow> string \<Rightarrow> bool" where
  "local_staging root p \<longleftrightarrow> starts_with (vdir root @ ''tmp/'') p"

definition blob_part :: "string \<Rightarrow> 'r world \<Rightarrow> (string \<times> node) list" where
  "blob_part root w = filter (\<lambda>(p, n). in_blobs root p) (nodes w)"

text \<open>Two worlds agree on the store: the blob area, the manifests and the accessible paths.\<close>

definition store_same :: "string \<Rightarrow> 'r world \<Rightarrow> 'r world \<Rightarrow> bool" where
  "store_same root w w' \<longleftrightarrow> fault w' = fault w \<and> blob_part root w' = blob_part root w \<and>
     (\<forall>k. valid_key k \<longrightarrow> map_of (nodes w') (meta_path root k) = map_of (nodes w) (meta_path root k))"

lemma store_same_refl [simp]: "store_same root w w"
  by (simp add: store_same_def)

lemma store_same_trans: "store_same root w w' \<Longrightarrow> store_same root w' w'' \<Longrightarrow> store_same root w w''"
  by (simp add: store_same_def)

lemma map_of_blob_part: "in_blobs root p \<Longrightarrow> map_of (blob_part root w) p = map_of (nodes w) p"
  by (simp add: blob_part_def map_of_filter_key)


lemma prefix_notin_blobs:
  assumes "vdir root @ x = q @ s" "length x < 6"
  shows "\<not> in_blobs root q"
proof
  assume "in_blobs root q"
  then have "length (vdir root @ ''blobs/'') \<le> length q"
    by (metis in_blobs_def length_append le_add1 starts_withD)
  moreover have "length q \<le> length (vdir root @ x)" using assms(1) by (metis length_append le_add1)
  ultimately show False using assms(2) by simp
qed

lemma in_blobs_vdir [simp]: "in_blobs root (vdir root @ x) \<longleftrightarrow> starts_with ''blobs/'' x"
  unfolding in_blobs_def starts_with_iff by auto

lemma staging_vdir [simp]: "local_staging root (vdir root @ x) \<longleftrightarrow> starts_with ''tmp/'' x"
  unfolding local_staging_def starts_with_iff by auto

lemma mkdirs_blob_part:
  "mkdirs ds w = (r, w') \<Longrightarrow> \<forall>d\<in>set ds. \<not> in_blobs root d \<Longrightarrow> blob_part root w' = blob_part root w"
  by (induction ds w rule: mkdirs.induct)
    (auto simp: blob_part_def filter_al_put_other split: option.splits node.splits)

lemma create_dir_all_same:
  assumes "create_dir_all (vdir root @ x) w = (r, w')" "length x < 6"
    and meta: "\<And>k. valid_key k \<Longrightarrow> meta_path root k \<notin> {q. \<exists>s. vdir root @ x = q @ s}"
  shows "store_same root w w'"
proof -
  from assms(1) obtain r' where m: "mkdirs (path_prefixes [] (vdir root @ x)) w = (r', w')"
    by (auto simp: create_dir_all_def split: prod.splits sum.splits)
  have "blob_part root w' = blob_part root w"
    by (rule mkdirs_blob_part [OF m]) (use path_prefixes_prefix prefix_notin_blobs assms(2) in fastforce)
  moreover have "map_of (nodes w') (meta_path root k) = map_of (nodes w) (meta_path root k)"
    if "valid_key k" for k
    using create_dir_all_keeps(1,3) [OF assms(1), of "meta_path root k"] meta [OF that]
    by (cases "map_of (nodes w) (meta_path root k)"; cases "map_of (nodes w') (meta_path root k)") auto
  ultimately show ?thesis using create_dir_all_keeps(4) [OF assms(1)] by (simp add: store_same_def)
qed

lemma prefix_length: "x = q @ s \<Longrightarrow> length q \<le> length x"
  by simp

lemma meta_path_long:
  assumes "valid_key k"
  shows "meta_path root k \<notin> {q. \<exists>s. vdir root @ ''meta'' = q @ s}"
    and "meta_path root k \<notin> {q. \<exists>s. vdir root @ ''tmp'' = q @ s}"
proof -
  have *: "length (meta_path root k) > length (vdir root @ ''meta'')"
    by (simp add: layout_paths(4) [OF assms])
  have "length q \<le> length (vdir root @ ''meta'')"
    if "vdir root @ ''meta'' = q @ s \<or> vdir root @ ''tmp'' = q @ s" for q s
    using that
  proof (elim disjE)
    assume "vdir root @ ''meta'' = q @ s"
    then show ?thesis by (rule prefix_length)
  next
    assume "vdir root @ ''tmp'' = q @ s"
    then have "length q \<le> length (vdir root @ ''tmp'')" by (rule prefix_length)
    then show ?thesis by simp
  qed
  with * show "meta_path root k \<notin> {q. \<exists>s. vdir root @ ''meta'' = q @ s}"
    and "meta_path root k \<notin> {q. \<exists>s. vdir root @ ''tmp'' = q @ s}" by fastforce+
qed

lemma fs_node_same: "store_same root w w' \<Longrightarrow> in_blobs root p \<Longrightarrow> fs_node p w' = fs_node p w"
  using map_of_blob_part [of root p w] map_of_blob_part [of root p w']
  by (cases "fault w p") (simp_all add: fs_node_def store_same_def)

lemma dir_names_same:
  fixes w w' :: "'r world"
  assumes "valid_key k" "blob_part root w' = blob_part root w"
  shows "dir_names (fanout_dir root k) w' = dir_names (fanout_dir root k) w"
proof -
  let ?f = "\<lambda>(p, n :: node). case strip_prefix (fanout_dir root k @ ''/'') p of None \<Rightarrow> None
    | Some name \<Rightarrow> if name \<noteq> [] \<and> CHR ''/'' \<notin> set name then Some name else None"
  have *: "in_blobs root p" if "strip_prefix (fanout_dir root k @ ''/'') p = Some x" for p x
    using that by (simp add: strip_prefix_Some layout_paths(1) [OF assms(1)])
  have eq: "List.map_filter ?f (nodes v) = List.map_filter ?f (blob_part root v)" for v :: "'r world"
    unfolding blob_part_def by (rule map_filter_filter [symmetric]) (auto split: option.splits dest: *)
  show ?thesis unfolding dir_names_def by (simp only: eq assms(2))
qed

lemma get_blob_in_blobs:
  assumes k: "valid_key k" and found: "local_get_blob_hinted root k ext w = Some p"
  shows "in_blobs root p"
proof -
  note lp = layout_paths [OF k]
  have "in_blobs root (path_join (fanout_dir root k) x)" if "blob_name_matches k x" for x
  proof -
    obtain a r where "k = a # r" "is_hex a" using valid_key_split [OF k] by metis
    then have "x \<noteq> [] \<and> hd x = a"
      using that by (auto simp: blob_name_matches_def strip_prefix_Some split: option.splits)
    with hex_not_sep [OF \<open>is_hex a\<close>] show ?thesis
      by (cases x) (auto simp: path_join_def lp)
  qed
  with found show ?thesis
    by (auto simp: local_get_blob_hinted_def find_blob_def lp find_Some_iff
        split: sum.splits if_splits)
qed

text \<open>Agreement of one manifest, of all blobs.\<close>

lemma same_metaI:
  assumes "fault w' = fault w" "map_of (nodes w') (meta_path root k) = map_of (nodes w) (meta_path root k)"
  shows "same_meta (local_store api others root) w w' k"
proof -
  have "fs_read (meta_path root k) w' = fs_read (meta_path root k) w"
    using assms by (cases "fault w (meta_path root k)") (simp_all add: fs_read_def fs_node_def)
  then show ?thesis by (simp add: same_meta_def local_store_def local_get_meta_def)
qed

lemma same_blobI:
  assumes k: "valid_key k" and f: "fault w' = fault w" and b: "blob_part root w' = blob_part root w"
  shows "same_blob (local_store api others root) w w' k"
proof -
  have n: "fs_node p w' = fs_node p w" and fb: "file_bytes w' p = file_bytes w p" if "in_blobs root p" for p
    using that f b map_of_blob_part [of root p w] map_of_blob_part [of root p w']
    by (cases "fault w p"; simp add: fs_node_def file_bytes_def)+
  note lp = layout_paths [OF k]
  have "fs_node (fanout_dir root k) w' = fs_node (fanout_dir root k) w"
    and "fs_node (blob_path root k e) w' = fs_node (blob_path root k e) w" for e
    by (rule n; simp add: lp)+
  then have "local_get_blob_hinted root k ext w' = local_get_blob_hinted root k ext w" for ext
    using dir_names_same [OF k b]
    unfolding local_get_blob_hinted_def find_blob_def fs_read_dir_def by (simp only:)
  moreover have "file_bytes w' p = file_bytes w p" if "local_get_blob_hinted root k ext w = Some p" for ext p
    by (rule fb [OF get_blob_in_blobs [OF k that]])
  ultimately show ?thesis by (simp add: same_blob_def local_store_def)
qed

lemma store_same_entries: "store_same root w w' \<Longrightarrow> same_entries (local_store api others root) w w'"
  by (simp add: same_entries_def same_metaI same_blobI store_same_def)

section \<open>The local store satisfies the contract\<close>

text \<open>Paths outside the blob area that are no manifest: staging files and temporary manifests.\<close>

definition neutral :: "string \<Rightarrow> string \<Rightarrow> bool" where
  "neutral root p \<longleftrightarrow> \<not> in_blobs root p \<and> (\<forall>k. valid_key k \<longrightarrow> meta_path root k \<noteq> p)"

lemma neutral_put:
  "neutral root p \<Longrightarrow> store_same root w (w\<lparr>nodes := al_put p n (nodes w)\<rparr>)"
  by (simp add: neutral_def store_same_def blob_part_def filter_al_put_other)

lemma neutral_del:
  "neutral root p \<Longrightarrow> store_same root w (w\<lparr>nodes := al_del p (nodes w)\<rparr>)"
  by (simp add: neutral_def store_same_def blob_part_def filter_al_del_other)

lemma neutral_remove: "neutral root p \<Longrightarrow> store_same root w (fs_remove p w)"
  by (simp add: fs_remove_def neutral_del)

lemma neutral_write: "neutral root p \<Longrightarrow> fs_write p bytes w = (r, w') \<Longrightarrow> store_same root w w'"
  by (auto simp: fs_write_def neutral_put split: option.splits if_splits)

lemma neutral_temp:
  assumes "neutral root (path_join dir (prefix @ show_nat (fresh w) @ suffix))"
    and "temp_in dir prefix suffix w = (r, w')"
  shows "store_same root w w'"
proof -
  have "store_same root w (w\<lparr>fresh := Suc (fresh w)\<rparr>)" by (simp add: store_same_def blob_part_def)
  moreover have "store_same root (w\<lparr>fresh := Suc (fresh w)\<rparr>) w'"
    using assms neutral_write by (fastforce simp: temp_in_def Let_def split: prod.splits sum.splits)
  ultimately show ?thesis by (rule store_same_trans)
qed

lemma meta_path_vdir: "valid_key k \<Longrightarrow> meta_path root k = vdir root @ ''meta/'' @ k @ ''.json''"
  by (rule layout_paths(4))

lemma staging_neutral: "local_staging root p \<Longrightarrow> neutral root p"
  by (auto simp: local_staging_def neutral_def starts_with_iff meta_path_vdir)

lemma meta_tmp_neutral: "neutral root (vdir root @ ''meta/.'' @ x)"
proof -
  have "meta_path root k \<noteq> vdir root @ ''meta/.'' @ x" if k: "valid_key k" for k
  proof -
    obtain a r where "k = a # r" "is_hex a" using valid_key_split [OF k] by metis
    with hex_not_sep [of a] k show ?thesis by (auto simp: meta_path_vdir)
  qed
  then show ?thesis by (simp add: neutral_def)
qed

lemma join_meta_dir: "path_join (meta_dir root) (CHR ''.'' # cs) = vdir root @ ''meta/.'' @ cs"
  by (simp add: meta_dir_def) (simp add: path_join_def)

lemma join_tmp_dir: "path_join (tmp_dir root) (CHR ''d'' # cs) = vdir root @ ''tmp/d'' @ cs"
  by (simp add: tmp_dir_def) (simp add: path_join_def)

lemma meta_dir_vdir: "meta_dir root = vdir root @ ''meta''" "tmp_dir root = vdir root @ ''tmp''"
  by (simp_all add: meta_dir_def tmp_dir_def)

lemma meta_dirs_same: "create_dir_all (meta_dir root) w = (r, w') \<Longrightarrow> store_same root w w'"
  using meta_path_long(1) by (auto simp: meta_dir_vdir intro: create_dir_all_same)

lemma tmp_dirs_same: "create_dir_all (tmp_dir root) w = (r, w') \<Longrightarrow> store_same root w w'"
  using meta_path_long(2) by (auto simp: meta_dir_vdir intro: create_dir_all_same)

lemma meta_temp_same:
  "temp_in (meta_dir root) ''.meta-'' ''.json.part'' w = (r, w') \<Longrightarrow> store_same root w w'"
  by (rule neutral_temp) (simp_all add: join_meta_dir meta_tmp_neutral [simplified])

lemma temp_in_path:
  "temp_in d p s w = (Inr q, w') \<Longrightarrow> q = path_join d (p @ show_nat (fresh w) @ s)"
  by (auto simp: temp_in_def Let_def split: prod.splits sum.splits)

lemma meta_temp_path:
  assumes "temp_in (meta_dir root) ''.meta-'' ''.json.part'' w = (Inr q, w')"
  shows "neutral root q"
  using temp_in_path [OF assms] by (simp add: join_meta_dir meta_tmp_neutral [simplified])

lemma tmp_temp_same:
  "temp_in (tmp_dir root) ''dl-'' ''.part'' w = (r, w') \<Longrightarrow> store_same root w w'"
  by (rule neutral_temp) (simp_all add: join_tmp_dir staging_neutral)

lemma tmp_temp_path:
  "temp_in (tmp_dir root) ''dl-'' ''.part'' w = (Inr q, w') \<Longrightarrow> local_staging root q"
  using temp_in_path [of "tmp_dir root" "''dl-''" "''.part''" w q w'] by (simp add: join_tmp_dir)

text \<open>A put either leaves the store as it was, or renames a complete temporary file over the
  manifest.\<close>

lemma local_put_meta_cases:
  assumes "local_put_meta api root k m w = (r, w')"
  obtains e where "r = Inl e" "store_same root w w'"
  | q w3 where "r = Inr ()" "neutral root q" "store_same root w w3"
      "file_bytes w3 q = Some (to_json_bytes api m)" "fs_rename q (meta_path root k) w3 = (Inr (), w')"
proof -
  obtain r1 w1 where d: "create_dir_all (meta_dir root) w = (r1, w1)" by force
  note s1 = meta_dirs_same [OF d]
  obtain r2 w2 where t: "temp_in (meta_dir root) ''.meta-'' ''.json.part'' w1 = (r2, w2)" by force
  note s2 = store_same_trans [OF s1 meta_temp_same [OF t]]
  show ?thesis
  proof (cases r1)
    case (Inl e1)
    with assms d s1 that(1) [of e1] show ?thesis by (simp add: local_put_meta_def)
  next
    case r1: (Inr u1)
    show ?thesis
    proof (cases r2)
      case (Inl e2)
      with assms d t r1 s2 that(1) [of "Io (Some (meta_dir root)) e2"] show ?thesis by (simp add: local_put_meta_def)
    next
      case r2: (Inr q)
      note q = meta_temp_path [OF t [unfolded r2]]
      obtain r3 w3 where wr: "fs_write q (to_json_bytes api m) w2 = (r3, w3)" by force
      note s3 = store_same_trans [OF s2 neutral_write [OF q wr]]
      note s3' = store_same_trans [OF s3 neutral_remove [OF q]]
      obtain r4 w4 where rn: "fs_rename q (meta_path root k) w3 = (r4, w4)" by force
      show ?thesis
      proof (cases r3)
        case (Inl e3)
        with assms d t wr r1 r2 s3' that(1) [of "Io (Some q) e3"] show ?thesis by (simp add: local_put_meta_def)
      next
        case r3: (Inr u3)
        show ?thesis
        proof (cases r4)
          case (Inl e4)
          with fs_rename_Inl rn have "w4 = w3" by blast
          with assms d t wr rn r1 r2 r3 Inl s3' that(1) [of "Io (Some (meta_path root k)) e4"] show ?thesis by (simp add: local_put_meta_def)
        next
          case (Inr u4)
          have "file_bytes w3 q = Some (to_json_bytes api m)"
            using fs_write_Inr [OF wr [unfolded r3]] by (simp add: file_bytes_def)
          with assms d t wr rn r1 r2 r3 Inr q s3 that(2) [of q w3] show ?thesis by (simp add: local_put_meta_def)
        qed
      qed
    qed
  qed
qed

lemma file_bytes_Some: "file_bytes w p = Some b \<Longrightarrow> \<exists>mt. map_of (nodes w) p = Some (FileNode b mt)"
  by (auto simp: file_bytes_def split: option.splits node.splits)

lemma meta_path_inj:
  "valid_key j \<Longrightarrow> valid_key k \<Longrightarrow> meta_path root j = meta_path root k \<longleftrightarrow> j = k"
  by (auto simp: meta_path_vdir)

lemma meta_not_blob: "valid_key k \<Longrightarrow> \<not> in_blobs root (meta_path root k)"
  by (simp add: meta_path_vdir)

text \<open>A rename over a manifest, or into the blob area, leaves the rest alone.\<close>

lemma rename_over_meta:
  assumes k: "valid_key k" and q: "neutral root q" and rn: "fs_rename q (meta_path root k) w = (Inr u, w')"
  shows "blob_part root w' = blob_part root w" and "fault w' = fault w"
    and "file_bytes w' (meta_path root k) = file_bytes w q" and "fault w (meta_path root k) = None"
    and "valid_key j \<Longrightarrow> j \<noteq> k \<Longrightarrow>
      map_of (nodes w') (meta_path root j) = map_of (nodes w) (meta_path root j)"
proof -
  obtain n where n: "map_of (nodes w) q = Some n" "w' = w\<lparr>nodes := al_put (meta_path root k) n (al_del q (nodes w))\<rparr>"
      "fault w (meta_path root k) = None"
    using rn by (auto simp: fs_rename_def fs_node_def split: option.splits if_splits sum.splits)
  then show "fault w' = fault w" "fault w (meta_path root k) = None" by simp_all
  show "file_bytes w' (meta_path root k) = file_bytes w q" using n by (simp add: file_bytes_def)
  show "blob_part root w' = blob_part root w"
    using n(2) q meta_not_blob [OF k, of root]
    by (simp add: blob_part_def neutral_def filter_al_put_other filter_al_del_other)
  show "map_of (nodes w') (meta_path root j) = map_of (nodes w) (meta_path root j)"
    if "valid_key j" "j \<noteq> k"
    using n(2) q that meta_path_inj [OF that(1) k, of root] by (auto simp: neutral_def)
qed

lemma fanout_dirs_meta:
  assumes "valid_key k" "create_dir_all (fanout_dir root k) w = (r, w')" "valid_key j"
  shows "map_of (nodes w') (meta_path root j) = map_of (nodes w) (meta_path root j)"
proof -
  have "\<not> (\<exists>s. fanout_dir root k = meta_path root j @ s)"
    using assms by (simp add: layout_paths)
  with create_dir_all_keeps(1,3) [OF assms(2), of "meta_path root j"] show ?thesis
    by (cases "map_of (nodes w) (meta_path root j)"; cases "map_of (nodes w') (meta_path root j)") auto
qed

lemma local_commit_cases:
  assumes "local_commit_blob root k p ext w = (r, w')" "valid_key k"
  obtains e r1 w1 where "r = Inl e" "w' = fs_remove p w1" "create_dir_all (fanout_dir root k) w = (r1, w1)"
  | w1 where "r = Inr (blob_path root k ext)" "create_dir_all (fanout_dir root k) w = (Inr (), w1)"
      "fs_rename p (blob_path root k ext) w1 = (Inr (), w')"
proof -
  obtain r1 w1 where d: "create_dir_all (fanout_dir root k) w = (r1, w1)" by force
  obtain r2 w2 where rn: "fs_rename p (blob_path root k ext) w1 = (r2, w2)" by force
  show ?thesis
    using assms d rn fs_rename_Inl [of p "blob_path root k ext" w1] that
    by (cases r1; cases r2) (auto simp: local_commit_blob_def)
qed

lemma staging_not_meta: "local_staging root p \<Longrightarrow> valid_key j \<Longrightarrow> meta_path root j \<noteq> p"
  using staging_neutral [of root p] by (auto simp: neutral_def)

lemma blob_not_meta: "valid_key k \<Longrightarrow> valid_key j \<Longrightarrow> meta_path root j \<noteq> blob_path root k ext"
  by (simp add: layout_paths)

lemma local_commit_meta:
  assumes k: "valid_key k" and p: "local_staging root p"
    and c: "local_commit_blob root k p ext w = (r, w')" and j: "valid_key j"
  shows "same_meta (local_store api others root) w w' j"
  using c k
proof (cases rule: local_commit_cases)
  case (1 e r1 w1)
  with fanout_dirs_meta [OF k 1(3) j] create_dir_all_keeps(4) [OF 1(3)] staging_not_meta [OF p j]
  show ?thesis by (intro same_metaI) (simp_all add: fs_remove_def)
next
  case (2 w1)
  obtain n where "map_of (nodes w') = ((map_of (nodes w1))(p := None))(blob_path root k ext \<mapsto> n)"
      "fault w' = fault w1"
    using fs_rename_Inr [OF 2(3)] by blast
  with fanout_dirs_meta [OF k 2(2) j] create_dir_all_keeps(4) [OF 2(2)] staging_not_meta [OF p j]
    blob_not_meta [OF k j, of root ext]
  show ?thesis by (intro same_metaI) simp_all
qed

lemma local_commit_found:
  assumes k: "valid_key k" and c: "local_commit_blob root k p ext w = (Inr q, w')"
  shows "local_get_blob_hinted root k ext w' = Some q \<and> file_bytes w' q = file_bytes w p \<and> fault w' = fault w"
  using c k
proof (cases rule: local_commit_cases)
  case (2 w1)
  obtain n where n: "map_of (nodes w1) p = Some n" "fault w1 (blob_path root k ext) = None"
      "map_of (nodes w') = ((map_of (nodes w1))(p := None))(blob_path root k ext \<mapsto> n)" "fault w' = fault w1"
    using fs_rename_Inr [OF 2(3)] by blast
  have "file_bytes w' (blob_path root k ext) = file_bytes w p"
    using n create_dir_all_keeps(2) [OF 2(2), of p] by (simp add: file_bytes_def)
  with n 2(1) create_dir_all_keeps(4) [OF 2(2)] show ?thesis
    by (simp add: local_get_blob_hinted_def fs_node_def)
qed simp

lemma local_staging_same:
  assumes "local_new_staging root w = (r, w')"
  shows "store_same root w w'" and "r = Inr p \<Longrightarrow> local_staging root p"
proof -
  obtain r1 w1 where d: "create_dir_all (tmp_dir root) w = (r1, w1)" by force
  obtain r2 w2 where t: "temp_in (tmp_dir root) ''dl-'' ''.part'' w1 = (r2, w2)" by force
  note s1 = tmp_dirs_same [OF d]
  note s2 = store_same_trans [OF s1 tmp_temp_same [OF t]]
  from assms d t s1 s2 show "store_same root w w'"
    by (cases r1; cases r2) (simp_all add: local_new_staging_def)
  from assms d t tmp_temp_path [of root w1 p w2] show "local_staging root p" if "r = Inr p"
    using that by (cases r1; cases r2) (simp_all add: local_new_staging_def)
qed

lemma local_store_sel [simp]:
  "st_get_blob_hinted (local_store api others root) = local_get_blob_hinted root"
  "st_get_meta (local_store api others root) = local_get_meta api root"
  "st_put_meta (local_store api others root) = local_put_meta api root"
  "st_new_staging (local_store api others root) = local_new_staging root"
  "st_drop_staging (local_store api others root) = fs_remove"
  "st_commit_blob (local_store api others root) = local_commit_blob root"
  "st_lock (local_store api others root) = local_lock root others"
  "st_name (local_store api others root) = ''local''"
  by (simp_all add: local_store_def)

lemma create_dir_all_error: "create_dir_all d w = (Inl e, w') \<Longrightarrow> \<exists>p x. e = Io p x"
  by (auto simp: create_dir_all_def split: prod.splits sum.splits)

lemma local_store_errors:
  "local_put_meta api root k m w = (Inl e, w') \<Longrightarrow> \<exists>p x. e = Io p x"
  "local_new_staging root w = (Inl e, w') \<Longrightarrow> \<exists>p x. e = Io p x"
  "local_commit_blob root k p ext w = (Inl e, w') \<Longrightarrow> \<exists>p x. e = Io p x"
  "local_lock root others k w = (Inl e, w') \<Longrightarrow> \<exists>p x. e = Io p x"
  by (auto simp: local_put_meta_def local_new_staging_def local_commit_blob_def local_lock_def
      split: node.splits prod.splits sum.splits dest: create_dir_all_error)

sublocale serde_laws \<subseteq> local: blob_store "local_store api others root" "local_staging root"
  for others root
proof
  let ?S = "local_store api others root"
  show "st_get_meta ?S k w' = Inr (Some m) \<and> (\<forall>j. valid_key j \<longrightarrow> j \<noteq> k \<longrightarrow> same_meta ?S w w' j) \<and>
      (\<forall>j. valid_key j \<longrightarrow> same_blob ?S w w' j)"
    if k: "valid_key k" and m: "manifest_ok m" and "st_put_meta ?S k m w = (Inr u, w')" for k m w u w'
  proof -
    from that have "local_put_meta api root k m w = (Inr u, w')" by simp
    then show ?thesis
    proof (cases rule: local_put_meta_cases)
      case (2 q w3)
      note rn = rename_over_meta [OF k 2(2) 2(5)]
      from 2(3) have s: "fault w3 = fault w" "blob_part root w3 = blob_part root w"
        "\<And>j. valid_key j \<Longrightarrow> map_of (nodes w3) (meta_path root j) = map_of (nodes w) (meta_path root j)"
        by (simp_all add: store_same_def)
      obtain mt where "map_of (nodes w') (meta_path root k) = Some (FileNode (to_json_bytes api m) mt)"
        using file_bytes_Some rn(3) 2(4) by metis
      then have "st_get_meta ?S k w' = Inr (Some m)"
        using rn(2,4) from_to_json_bytes [OF m]
        by (simp add: local_get_meta_def fs_read_def fs_node_def)
      with rn s show ?thesis by (simp add: same_metaI same_blobI)
    qed simp
  qed
  show "manifest_ok m" if "st_get_meta ?S k w = Inr (Some m)" for k w m
    using that by (auto simp: local_get_meta_def result_simps dest: from_json_manifest_ok
        split: sum.splits if_splits)
  show "same_entries ?S w w'" if "valid_key k" "st_put_meta ?S k m w = (Inl e, w')" for k m w e w'
  proof -
    from that have "local_put_meta api root k m w = (Inl e, w')" by simp
    then show ?thesis by (cases rule: local_put_meta_cases) (simp_all add: store_same_entries)
  qed
  show "same_entries ?S w w'" if "st_new_staging ?S w = (r, w')" for w r w'
    using that store_same_entries [OF local_staging_same(1)] by simp
  show "local_staging root p" if "st_new_staging ?S w = (Inr p, w')" for w p w'
    using that local_staging_same(2) [of root w "Inr p" w' p] by simp
  show "same_entries ?S w (st_drop_staging ?S p w)" if "local_staging root p" for p w
    using store_same_entries [OF neutral_remove [OF staging_neutral [OF that]]] by simp
  show "same_entries ?S w w'" if "local_staging root p" "fs_write p bytes w = (wr, w')" for p bytes w wr w'
    using neutral_write [OF staging_neutral [OF that(1)] that(2)] by (rule store_same_entries)
  show "st_get_blob_hinted ?S k ext w' = Some q \<and> file_bytes w' q = file_bytes w p \<and> fault w' = fault w \<and>
      (\<forall>j. valid_key j \<longrightarrow> same_meta ?S w w' j)"
    if "valid_key k" "local_staging root p" "st_commit_blob ?S k p ext w = (Inr q, w')" for k p ext w q w'
  proof -
    from that have c: "local_commit_blob root k p ext w = (Inr q, w')" by simp
    show ?thesis using local_commit_found [OF that(1) c] local_commit_meta [OF that(1,2) c]
      by simp
  qed
  show "\<exists>p x. e = Io p x"
    if "(\<exists>m. st_put_meta ?S k m w = (Inl e, w')) \<or> st_new_staging ?S w = (Inl e, w') \<or>
      (\<exists>p ext. st_commit_blob ?S k p ext w = (Inl e, w')) \<or> st_lock ?S k w = (Inl e, w')" for k w e w'
    using that local_store_errors by auto
  show "(\<exists>p x. e = Io p x) \<or> (\<exists>d. e = ManifestError d)" if "st_get_meta ?S k w = Inl e" for k w e
    using that by (auto simp: local_get_meta_def result_simps from_json_bytes_def
        split: sum.splits if_splits option.splits)
  show "\<forall>j. valid_key j \<longrightarrow> same_meta ?S w w' j"
    if "valid_key k" "local_staging root p" "st_commit_blob ?S k p ext w = (Inl e, w')" for k p ext w e w'
  proof -
    from that have c: "local_commit_blob root k p ext w = (Inl e, w')" by simp
    show ?thesis using local_commit_meta [OF that(1,2) c] by blast
  qed
qed

end
