(* ===== verification/Transports.thy ===== *)
theory Transports
  imports LocalStore
begin

text \<open>
  The auth seam (\<open>rust/src/auth.rs\<close>), the transport registry (\<open>rust/src/transport/mod.rs\<close>) and the
  \<open>file\<close> transport (\<open>rust/src/transport/file.rs\<close>).

  A transport is a record of its schemes and its \<open>fetch\<close>; \<open>fetch_hashed\<close> is present when the
  transport overrides the trait's default. The locale \<open>staged_transport\<close> is what the cache relies
  on: a fetch into a staging file changes no entry of the store, and a download leaves the bytes
  there whose digest it may report. The \<open>file\<close> transport is shown to keep it.
\<close>

section \<open>Auth resolvers\<close>

record resolver =
  rs_realm :: string
  rs_headers :: "(string \<times> string) list"

type_synonym auth_registry = "(string \<times> resolver) list"

definition auth_register :: "resolver \<Rightarrow> auth_registry \<Rightarrow> auth_registry" where
  "auth_register r reg = al_put (rs_realm r) r reg"

definition auth_get :: "auth_registry \<Rightarrow> string \<Rightarrow> resolver option" where
  "auth_get reg realm = map_of reg realm"

definition auth_realms :: "auth_registry \<Rightarrow> string list" where
  "auth_realms reg = map fst reg"

definition bearer_auth :: "string \<Rightarrow> string \<Rightarrow> resolver" where
  "bearer_auth realm token = \<lparr>rs_realm = realm, rs_headers = [(''Authorization'', ''Bearer '' @ token)]\<rparr>"

definition header_auth :: "string \<Rightarrow> string \<Rightarrow> string \<Rightarrow> resolver" where
  "header_auth realm name v = \<lparr>rs_realm = realm, rs_headers = [(name, v)]\<rparr>"

definition headers_auth :: "string \<Rightarrow> (string \<times> string) list \<Rightarrow> resolver" where
  "headers_auth realm hs = \<lparr>rs_realm = realm, rs_headers = hs\<rparr>"

section \<open>Transports and their registry\<close>

text \<open>\<open>str::parse::<u64>\<close>: an optional plus sign, then digits only, without overflow.\<close>

definition parse_u64 :: "string \<Rightarrow> nat option" where
  "parse_u64 s =
     (let ds = (case s of c # cs \<Rightarrow> if c = CHR ''+'' then cs else s | [] \<Rightarrow> [])
      in if ds \<noteq> [] \<and> list_all is_digit ds \<and> int (dec_value ds) \<le> u64_max
         then Some (dec_value ds) else None)"

definition env_secs :: "(string \<Rightarrow> string option) \<Rightarrow> string \<Rightarrow> nat \<Rightarrow> nat" where
  "env_secs env var default_secs =
     (case Option.bind (env var) parse_u64 of None \<Rightarrow> default_secs | Some n \<Rightarrow> n)"

record conditional =
  cd_etag :: "string option"
  cd_last_modified :: "string option"

definition no_conditional :: conditional where
  "no_conditional = \<lparr>cd_etag = None, cd_last_modified = None\<rparr>"

definition conditional_is_empty :: "conditional \<Rightarrow> bool" where
  "conditional_is_empty c \<longleftrightarrow> cd_etag c = None \<and> cd_last_modified c = None"

datatype fetch_status = Downloaded | NotModified

record fetch_result =
  fr_status :: fetch_status
  fr_etag :: "string option"
  fr_last_modified :: "string option"
  fr_bytes_written :: nat

type_synonym ('w, 'a) fetcher =
  "string \<Rightarrow> string \<Rightarrow> conditional \<Rightarrow> resolver option \<Rightarrow> 'w \<Rightarrow> 'a result \<times> 'w"

record 'w transport =
  tr_schemes :: "string list"
  tr_fetch :: "('w, fetch_result) fetcher"
  tr_hashed :: "('w, fetch_result \<times> string option) fetcher option"

definition fetch_hashed :: "'w transport \<Rightarrow> ('w, fetch_result \<times> string option) fetcher" where
  "fetch_hashed t url dest cond auth w =
     (case tr_hashed t of
        Some f \<Rightarrow> f url dest cond auth w
      | None \<Rightarrow>
          (case tr_fetch t url dest cond auth w of
             (Inl e, w) \<Rightarrow> (Inl e, w)
           | (Inr result, w) \<Rightarrow> (Inr (result, None), w)))"

type_synonym 'w transport_registry = "(string \<times> 'w transport) list"

definition transport_register :: "'w transport \<Rightarrow> 'w transport_registry \<Rightarrow> 'w transport_registry" where
  "transport_register t reg = fold (\<lambda>scheme reg. al_put scheme t reg) (tr_schemes t) reg"

definition transport_get :: "'w transport_registry \<Rightarrow> string \<Rightarrow> 'w transport option" where
  "transport_get reg scheme = map_of reg scheme"

definition transport_schemes :: "'w transport_registry \<Rightarrow> string list" where
  "transport_schemes reg = map fst reg"

lemma transport_get_register:
  "transport_get (transport_register t reg) s =
     (if s \<in> set (tr_schemes t) then Some t else transport_get reg s)"
proof -
  have "map_of (fold (\<lambda>scheme reg. al_put scheme t reg) ss reg) s =
      (if s \<in> set ss then Some t else map_of reg s)" for ss
    by (induction ss arbitrary: reg) auto
  then show ?thesis by (simp add: transport_get_def transport_register_def)
qed

section \<open>The file transport\<close>

definition file_url_to_path :: "(string \<Rightarrow> string option) \<Rightarrow> string \<Rightarrow> string result" where
  "file_url_to_path env url =
     (let expanded = expand_datadir env url in
      if 7 \<le> length expanded \<and> eq_ignore_case (take 7 expanded) ''file://'' then
        (let rest = drop 7 expanded in
         case strip_prefix ''/'' rest of
           Some stripped \<Rightarrow> Inr (''/'' @ stripped)
         | None \<Rightarrow>
             (case position (\<lambda>c. c = CHR ''/'') rest of
                Some i \<Rightarrow> Inr (drop i rest)
              | None \<Rightarrow> Inl (BadUrl url ''file:// URL has no path'')))
      else Inl (BadUrl url ''not a file:// URL''))"

definition not_regular_err :: io_error where
  "not_regular_err = \<lparr>io_kind = IoOther,
     io_text = ''the source path is neither a regular file nor a symlink to a regular file''\<rparr>"

text \<open>\<open>std::fs::copy\<close> of a regular file onto another path.\<close>

definition fs_copy :: "string \<Rightarrow> string \<Rightarrow> 'r world \<Rightarrow> (io_error + nat) \<times> 'r world" where
  "fs_copy src dest w =
     (case fs_node src w of
        Inl e \<Rightarrow> (Inl e, w)
      | Inr DirNode \<Rightarrow> (Inl not_regular_err, w)
      | Inr (FileNode bytes mt) \<Rightarrow>
          (case fs_write dest bytes w of
             (Inl e, w) \<Rightarrow> (Inl e, w)
           | (Inr u, w) \<Rightarrow> (Inr (length bytes), w)))"

definition file_fetch ::
    "(string \<Rightarrow> string option) \<Rightarrow> ('r world, fetch_result) fetcher" where
  "file_fetch env url dest cond auth w =
     (case file_url_to_path env url of
        Inl e \<Rightarrow> (Inl e, w)
      | Inr src \<Rightarrow>
          (case fs_copy src dest w of
             (Inl e, w) \<Rightarrow> (Inl (Io (Some src) e), w)
           | (Inr n, w) \<Rightarrow>
               (Inr \<lparr>fr_status = Downloaded, fr_etag = None, fr_last_modified = None,
                     fr_bytes_written = n\<rparr>, w)))"

definition file_transport :: "(string \<Rightarrow> string option) \<Rightarrow> 'r world transport" where
  "file_transport env =
     \<lparr>tr_schemes = [''file''], tr_fetch = file_fetch env, tr_hashed = None\<rparr>"

section \<open>What the cache relies on\<close>

locale staged_transport =
  fixes S :: "'r world store" and staging :: "string \<Rightarrow> bool"
    and digest :: "string \<Rightarrow> string" and t :: "'r world transport"
  assumes fetch_keeps: "staging dest \<Longrightarrow> fetch_hashed t url dest cond auth w = (r, w') \<Longrightarrow>
      same_entries S w w'"
    and fetch_downloads: "staging dest \<Longrightarrow>
      fetch_hashed t url dest cond auth w = (Inr (res, sha), w') \<Longrightarrow> fr_status res = Downloaded \<Longrightarrow>
      \<exists>bytes. file_bytes w' dest = Some bytes \<and> int (length bytes) \<le> u64_max \<and>
        (\<forall>h. sha = Some h \<longrightarrow> h = sha256_hex digest bytes)"

lemma file_fetch_cases:
  assumes "file_fetch env url dest cond auth w = (r, w')"
  obtains e where "r = Inl e" "w' = w"
  | src bytes mt where "file_url_to_path env url = Inr src" "fs_node src w = Inr (FileNode bytes mt)"
      "fs_write dest bytes w = (Inr (), w')"
      "r = Inr \<lparr>fr_status = Downloaded, fr_etag = None, fr_last_modified = None,
        fr_bytes_written = length bytes\<rparr>"
proof (cases "file_url_to_path env url")
  case (Inl e)
  with assms that(1) show ?thesis by (auto simp: file_fetch_def)
next
  case src: (Inr src)
  show ?thesis
  proof (cases "fs_node src w")
    case (Inl e)
    with src assms that(1) show ?thesis by (auto simp: file_fetch_def fs_copy_def)
  next
    case (Inr n)
    show ?thesis
    proof (cases n)
      case (FileNode bytes mt)
      obtain x w1 where wr: "fs_write dest bytes w = (x, w1)" by force
      show ?thesis
      proof (cases x)
        case (Inl e)
        with fs_write_Inl wr have "w1 = w" by blast
        with Inl wr FileNode Inr src assms that(1) show ?thesis by (auto simp: file_fetch_def fs_copy_def)
      next
        case x: (Inr u)
        from wr x FileNode Inr src assms that(2) [of src bytes mt] show ?thesis
          by (simp add: file_fetch_def fs_copy_def)
      qed
    next
      case DirNode
      with Inr src assms that(1) show ?thesis by (auto simp: file_fetch_def fs_copy_def)
    qed
  qed
qed

sublocale blob_store \<subseteq> copying: staged_transport S staging digest "file_transport env"
  for digest env
proof
  show "same_entries S w w'"
    if "staging dest" "fetch_hashed (file_transport env) url dest cond auth w = (r, w')"
    for url dest cond auth w r w'
  proof -
    note fetched = that(2)
    obtain r0 where "file_fetch env url dest cond auth w = (r0, w')"
      using fetched by (auto simp: fetch_hashed_def file_transport_def split: prod.splits sum.splits)
    then show ?thesis by (cases rule: file_fetch_cases) (use write_staging that(1) in auto)
  qed
  show "\<exists>bytes. file_bytes w' dest = Some bytes \<and> int (length bytes) \<le> u64_max \<and> (\<forall>h. sha = Some h \<longrightarrow> h = sha256_hex digest bytes)"
    if "fetch_hashed (file_transport env) url dest cond auth w = (Inr (res, sha), w')"
    for url dest cond auth w res sha w'
  proof -
    from that have "file_fetch env url dest cond auth w = (Inr res, w')" "sha = None"
      by (auto simp: fetch_hashed_def file_transport_def split: prod.splits sum.splits)
    then show ?thesis
      by (cases rule: file_fetch_cases) (auto simp: file_bytes_def dest!: fs_write_Inr)
  qed
qed

end
