(* ===== verification/Validate.thy ===== *)
theory Validate
  imports Transports
begin

text \<open>
  The validation ladder (\<open>rust/src/validate.rs\<close>): the pure decision on a manifest, and rung 0, the
  recheck of a local source with its fingerprint memo.

  The memo's map and counter are the state \<open>revalidator\<close>, threaded explicitly (its mutex is never
  poisoned: nothing panics while it is held). The last section runs checks inside a history of the
  host and compares them with re-hashing, the documented miss included. The host's digest, clock
  format, RFC 3339 reader and environment are the parameter \<open>host\<close>. A \<open>Duration\<close> and a \<open>SystemTime\<close> are nanoseconds.
\<close>

record host =
  h_digest :: "string \<Rightarrow> string"
  h_stamp :: "int \<Rightarrow> string option"
  h_parse :: "string \<Rightarrow> int option"
  h_env :: "string \<Rightarrow> string option"
  h_dir_len :: nat

definition now_rfc3339 :: "host \<Rightarrow> 'r world \<Rightarrow> string" where
  "now_rfc3339 H w =
     (case h_stamp H (clock w) of Some s \<Rightarrow> s | None \<Rightarrow> ''1970-01-01T00:00:00Z'')"

section \<open>The ladder\<close>

datatype temporal = Static | ClosedPeriod | Incomplete int

definition is_fresh :: "(string \<Rightarrow> int option) \<Rightarrow> temporal \<Rightarrow> string \<Rightarrow> int \<Rightarrow> bool" where
  "is_fresh parse t fetched_at now =
     (case t of
        Static \<Rightarrow> True
      | ClosedPeriod \<Rightarrow> True
      | Incomplete ttl \<Rightarrow>
          (case parse fetched_at of
             Some fetched \<Rightarrow> (let elapsed = now - fetched in elapsed < 0 \<or> \<bar>elapsed\<bar> < ttl)
           | None \<Rightarrow> False))"

datatype cache_decision = Hit | Revalidate | Miss

definition decide_at ::
    "(string \<Rightarrow> int option) \<Rightarrow> manifest \<Rightarrow> temporal option \<Rightarrow> string option \<Rightarrow> int \<Rightarrow> cache_decision"
  where
  "decide_at parse m temporal expected now =
     (case expected of
        Some e \<Rightarrow> if eq_ignore_case e (m_sha256_content m) then Hit else Miss
      | None \<Rightarrow>
          if temporal = None \<or> temporal = Some Static \<or> temporal = Some ClosedPeriod then Hit
          else if m_etag m \<noteq> None \<or> m_last_modified m \<noteq> None then Revalidate
          else (case temporal of
                  None \<Rightarrow> Hit
                | Some Static \<Rightarrow> Hit
                | Some ClosedPeriod \<Rightarrow> Hit
                | Some (Incomplete ttl) \<Rightarrow>
                    if is_fresh parse (Incomplete ttl) (m_fetched_at m) now then Hit else Miss))"

definition decide :: "host \<Rightarrow> 'r world \<Rightarrow> manifest \<Rightarrow> temporal option \<Rightarrow> string option \<Rightarrow> cache_decision" where
  "decide H w m temporal expected = decide_at (h_parse H) m temporal expected (clock w)"

definition is_falsey :: "string \<Rightarrow> bool" where
  "is_falsey s \<longleftrightarrow> ascii_lower (trim s) \<in> {''0'', ''false'', ''no'', ''off''}"

definition revalidate_file_sources :: "(string \<Rightarrow> string option) \<Rightarrow> bool option \<Rightarrow> bool" where
  "revalidate_file_sources env expl =
     (case expl of
        Some v \<Rightarrow> v
      | None \<Rightarrow> (case env ''EARTHSCI_REVALIDATE_FILE'' of Some s \<Rightarrow> \<not> is_falsey s | None \<Rightarrow> True))"

section \<open>Rung 0: the source recheck\<close>

datatype source_state = Current | Replaced | Missing | Unknown

definition stat_source :: "string \<Rightarrow> 'r world \<Rightarrow> source_state + (nat \<times> int option)" where
  "stat_source source w =
     (case fs_node source w of
        Inr (FileNode bytes mt) \<Rightarrow> Inr (length bytes, mt)
      | Inr DirNode \<Rightarrow> Inl Missing
      | Inl e \<Rightarrow> if io_kind e = IoNotFound then Inl Missing else Inl Unknown)"

record fingerprint =
  fp_len :: nat
  fp_mtime :: int
  fp_sha256 :: string
  fp_hashed_at :: int

definition memo_cap :: nat where "memo_cap = 512"

definition racy_margin :: int where "racy_margin = 2 * 1000000000"

text \<open>A \<open>SystemTime\<close> holds its seconds as an \<open>i64\<close>; \<open>checked_sub\<close> fails below that.\<close>

definition sys_checked_sub :: "int \<Rightarrow> int \<Rightarrow> int option" where
  "sys_checked_sub t d = (if in_i64 ((t - d) div 1000000000) then Some (t - d) else None)"

definition is_racy :: "int \<Rightarrow> int \<Rightarrow> bool" where
  "is_racy mtime hashed_at =
     (case sys_checked_sub hashed_at racy_margin of
        Some safe_before \<Rightarrow> mtime \<ge> safe_before
      | None \<Rightarrow> True)"

record revalidator =
  rv_seen :: "(string \<times> fingerprint) list"
  rv_full_reads :: nat

definition rv_new :: revalidator where
  "rv_new = \<lparr>rv_seen = [], rv_full_reads = 0\<rparr>"

definition remembered :: "revalidator \<Rightarrow> string \<Rightarrow> nat \<Rightarrow> int option \<Rightarrow> string option" where
  "remembered rv source len mtime =
     Option.bind mtime (\<lambda>mtime.
       Option.bind (map_of (rv_seen rv) source) (\<lambda>fp.
         if fp_len fp = len \<and> fp_mtime fp = mtime \<and> \<not> is_racy (fp_mtime fp) (fp_hashed_at fp)
         then Some (fp_sha256 fp) else None))"

definition remember ::
    "revalidator \<Rightarrow> string \<Rightarrow> nat \<Rightarrow> int option \<Rightarrow> string \<Rightarrow> int \<Rightarrow> revalidator" where
  "remember rv source len mtime sha hashed_at =
     (case mtime of
        None \<Rightarrow> rv
      | Some mtime \<Rightarrow>
          (let seen = (if length (rv_seen rv) \<ge> memo_cap then [] else rv_seen rv)
           in rv\<lparr>rv_seen := al_put source
                  \<lparr>fp_len = len, fp_mtime = mtime, fp_sha256 = sha, fp_hashed_at = hashed_at\<rparr> seen\<rparr>))"

definition verdict :: "string \<Rightarrow> manifest \<Rightarrow> source_state" where
  "verdict sha m = (if eq_ignore_case sha (m_sha256_content m) then Current else Replaced)"

definition sha256_file :: "(string \<Rightarrow> string) \<Rightarrow> string \<Rightarrow> 'r world \<Rightarrow> io_error + string" where
  "sha256_file digest p w =
     (case fs_read p w of Inl e \<Rightarrow> Inl e | Inr bytes \<Rightarrow> Inr (sha256_hex digest bytes))"

definition source_check ::
    "(string \<Rightarrow> string) \<Rightarrow> string \<Rightarrow> manifest \<Rightarrow> 'r world \<Rightarrow> revalidator \<Rightarrow> source_state \<times> revalidator"
  where
  "source_check digest source m w rv =
     (case stat_source source w of
        Inl st \<Rightarrow> (st, rv)
      | Inr (len, mtime) \<Rightarrow>
          if len \<noteq> m_bytes m then (Replaced, rv)
          else
            (case remembered rv source len mtime of
               Some sha \<Rightarrow> (verdict sha m, rv)
             | None \<Rightarrow>
                 (let hashed_at = clock w in
                  case sha256_file digest source w of
                    Inl e \<Rightarrow> (if io_kind e = IoNotFound then Missing else Unknown, rv)
                  | Inr sha \<Rightarrow>
                      (verdict sha m,
                       remember (rv\<lparr>rv_full_reads := rv_full_reads rv + 1\<rparr>)
                         source len mtime sha hashed_at))))"

definition file_source_state ::
    "(string \<Rightarrow> string) \<Rightarrow> string \<Rightarrow> manifest \<Rightarrow> 'r world \<Rightarrow> source_state" where
  "file_source_state digest source m w = fst (source_check digest source m w rv_new)"

definition file_source_is_current ::
    "(string \<Rightarrow> string) \<Rightarrow> string \<Rightarrow> manifest \<Rightarrow> 'r world \<Rightarrow> bool" where
  "file_source_is_current digest source m w \<longleftrightarrow> file_source_state digest source m w = Current"

section \<open>The memo is transparent\<close>

text \<open>A fingerprint that may be reused, and the sources it vouches for: whatever file has this
  length and this modification time has this digest.\<close>

definition vouches :: "(string \<Rightarrow> string) \<Rightarrow> 'r world \<Rightarrow> string \<Rightarrow> fingerprint \<Rightarrow> bool" where
  "vouches digest w source fp \<longleftrightarrow>
     fp_hashed_at fp \<le> clock w \<and>
     (is_racy (fp_mtime fp) (fp_hashed_at fp) \<or>
      (\<forall>bytes. map_of (nodes w) source = Some (FileNode bytes (Some (fp_mtime fp))) \<longrightarrow>
         length bytes = fp_len fp \<longrightarrow> sha256_hex digest bytes = fp_sha256 fp))"

definition memo_ok :: "(string \<Rightarrow> string) \<Rightarrow> 'r world \<Rightarrow> revalidator \<Rightarrow> bool" where
  "memo_ok digest w rv \<longleftrightarrow>
     (\<forall>source fp. map_of (rv_seen rv) source = Some fp \<longrightarrow> vouches digest w source fp)"

lemma memo_ok_new [simp, inv_intros]: "memo_ok digest w rv_new"
  by (simp add: memo_ok_def rv_new_def)

lemma remembered_Some [result_simps]:
  "remembered rv source len mtime = Some sha \<longleftrightarrow>
     (\<exists>t fp. mtime = Some t \<and> map_of (rv_seen rv) source = Some fp \<and> fp_len fp = len \<and>
        fp_mtime fp = t \<and> \<not> is_racy t (fp_hashed_at fp) \<and> fp_sha256 fp = sha)"
  by (cases mtime; cases "map_of (rv_seen rv) source") (auto simp: remembered_def)

lemma remembered_new [simp]: "remembered rv_new source len mtime = None"
  by (cases mtime) (simp_all add: remembered_def rv_new_def)

lemma stat_source_Inr [result_simps]:
  "stat_source source w = Inr (len, mtime) \<longleftrightarrow>
     (\<exists>bytes. fs_node source w = Inr (FileNode bytes mtime) \<and> length bytes = len)"
  by (auto simp: stat_source_def split: sum.splits node.splits if_splits)

lemma fs_node_Inr [result_simps]:
  "fs_node p w = Inr n \<longleftrightarrow> fault w p = None \<and> map_of (nodes w) p = Some n"
  by (auto simp: fs_node_def split: option.splits)

text \<open>What the check answers without a memo.\<close>

lemma file_source_state_eq:
  "file_source_state digest source m w =
     (case stat_source source w of
        Inl st \<Rightarrow> st
      | Inr (len, mtime) \<Rightarrow>
          if len \<noteq> m_bytes m then Replaced
          else (case sha256_file digest source w of
                  Inl e \<Rightarrow> if io_kind e = IoNotFound then Missing else Unknown
                | Inr sha \<Rightarrow> verdict sha m))"
  by (auto simp: file_source_state_def source_check_def Let_def split: sum.splits)

lemma source_check_verdict:
  assumes "memo_ok digest w rv"
  shows "fst (source_check digest source m w rv) = file_source_state digest source m w"
proof (cases "stat_source source w")
  case (Inl st)
  then show ?thesis by (simp add: source_check_def file_source_state_eq)
next
  case (Inr stat)
  obtain len mtime where stat: "stat = (len, mtime)" by force
  with Inr obtain bytes where b: "fs_node source w = Inr (FileNode bytes mtime)" "length bytes = len"
    by (auto simp: stat_source_Inr)
  show ?thesis
  proof (cases "remembered rv source len mtime")
    case None
    with Inr stat show ?thesis
      by (auto simp: source_check_def file_source_state_eq Let_def split: sum.splits)
  next
    case (Some sha)
    then obtain t fp where fp: "mtime = Some t" "map_of (rv_seen rv) source = Some fp" "fp_len fp = len"
        "fp_mtime fp = t" "\<not> is_racy t (fp_hashed_at fp)" "fp_sha256 fp = sha"
      by (auto simp: remembered_Some)
    with assms have "vouches digest w source fp" by (simp add: memo_ok_def)
    with fp b have "sha256_hex digest bytes = sha" by (auto simp: vouches_def fs_node_Inr)
    with Inr stat Some b show ?thesis
      by (cases "len = m_bytes m")
        (auto simp: source_check_def file_source_state_eq sha256_file_def fs_read_def)
  qed
qed

lemma memo_ok_remember:
  assumes "memo_ok digest w rv" "fs_node source w = Inr (FileNode bytes mtime)" "length bytes = len"
  shows "memo_ok digest w (remember rv source len mtime (sha256_hex digest bytes) (clock w))"
  using assms by (auto simp: remember_def memo_ok_def vouches_def fs_node_Inr Let_def split: option.splits)

lemma source_check_memo_ok [inv_intros]:
  assumes "memo_ok digest w rv"
  shows "memo_ok digest w (snd (source_check digest source m w rv))"
proof (cases "stat_source source w")
  case (Inl st)
  with assms show ?thesis by (simp add: source_check_def)
next
  case (Inr stat)
  obtain len mtime where stat: "stat = (len, mtime)" by force
  with Inr obtain bytes where b: "fs_node source w = Inr (FileNode bytes mtime)" "length bytes = len"
    by (auto simp: stat_source_Inr)
  have "memo_ok digest w (rv\<lparr>rv_full_reads := n\<rparr>)" for n using assms by (simp add: memo_ok_def)
  from memo_ok_remember [OF this b] assms Inr stat b show ?thesis
    by (auto simp: source_check_def sha256_file_def fs_read_def Let_def split: option.splits)
qed

text \<open>
  Time passes, and somebody writes a source. A plain write is stamped by the file system with its
  clock, to its granularity; a write that brings its own modification time (\<open>cp --preserve\<close>,
  \<open>touch -d\<close>, a rename of a file written long ago) leaves whatever time it brings, or none.
\<close>

definition tick :: "nat \<Rightarrow> 'r world \<Rightarrow> 'r world" where
  "tick d w = w\<lparr>clock := clock w + int d\<rparr>"

definition place_source :: "string \<Rightarrow> string \<Rightarrow> int option \<Rightarrow> 'r world \<Rightarrow> 'r world" where
  "place_source p bytes mtime w = w\<lparr>nodes := al_put p (FileNode bytes mtime) (nodes w)\<rparr>"

definition write_source :: "int \<Rightarrow> string \<Rightarrow> string \<Rightarrow> 'r world \<Rightarrow> 'r world" where
  "write_source gran p bytes w = place_source p bytes (Some (clock w div gran * gran)) w"

lemma memo_ok_tick [inv_intros]: "memo_ok digest w rv \<Longrightarrow> memo_ok digest (tick d w) rv"
  by (fastforce simp: memo_ok_def vouches_def tick_def)

lemma memo_ok_remove [inv_intros]: "memo_ok digest w rv \<Longrightarrow> memo_ok digest (fs_remove p w) rv"
  by (fastforce simp: memo_ok_def vouches_def fs_remove_def split: if_splits)

lemma memo_ok_fault: "memo_ok digest w rv \<Longrightarrow> memo_ok digest (w\<lparr>fault := f\<rparr>) rv"
  by (simp add: memo_ok_def vouches_def)

text \<open>Whoever places a file keeps the memo honest unless its modification time is older than the
  margin by now: no digest taken so far is trusted with a younger one.\<close>

definition young :: "int option \<Rightarrow> 'r world \<Rightarrow> bool" where
  "young mtime w = (case mtime of None \<Rightarrow> True | Some t \<Rightarrow> clock w \<le> t + racy_margin)"

lemma memo_ok_place:
  assumes "memo_ok digest w rv" "young mtime w"
  shows "memo_ok digest (place_source p bytes mtime w) rv"
proof -
  have "vouches digest (place_source p bytes mtime w) source fp"
    if fp: "map_of (rv_seen rv) source = Some fp" for source fp
  proof -
    have v: "vouches digest w source fp" using assms(1) fp by (simp add: memo_ok_def)
    have "is_racy t (fp_hashed_at fp)" if "mtime = Some t" for t
      using v assms(2) that by (auto simp: vouches_def young_def is_racy_def sys_checked_sub_def)
    with v show ?thesis by (auto simp: vouches_def place_source_def)
  qed
  then show ?thesis by (simp add: memo_ok_def)
qed

lemma memo_ok_write [inv_intros]:
  assumes "memo_ok digest w rv" "0 < gran" "gran \<le> racy_margin"
  shows "memo_ok digest (write_source gran p bytes w) rv"
proof -
  have "clock w - gran < clock w div gran * gran"
    using assms(2) by (simp add: minus_mod_eq_div_mult [symmetric])
  with assms(3) have "young (Some (clock w div gran * gran)) w" by (simp add: young_def)
  with assms(1) show ?thesis by (simp add: write_source_def memo_ok_place)
qed

text \<open>A history of the host: writes of both kinds, removals, permission changes, time, and the
  cache's checks, each a step of its own. The clock does not go back.\<close>

datatype source_event =
    Ticks nat
  | Writes string string
  | Places string string "int option"
  | Removes string
  | Faults "string \<Rightarrow> io_error option"
  | Checks string manifest

fun host_step :: "int \<Rightarrow> source_event \<Rightarrow> 'r world \<Rightarrow> 'r world" where
  "host_step gran (Ticks d) w = tick d w"
| "host_step gran (Writes p b) w = write_source gran p b w"
| "host_step gran (Places p b mtime) w = place_source p b mtime w"
| "host_step gran (Removes p) w = fs_remove p w"
| "host_step gran (Faults f) w = w\<lparr>fault := f\<rparr>"
| "host_step gran (Checks p m) w = w"

fun check_step ::
    "(string \<Rightarrow> string) \<Rightarrow> source_event \<Rightarrow> 'r world \<Rightarrow> revalidator \<Rightarrow> source_state list \<times> revalidator" where
  "check_step digest (Checks p m) w rv = (let (st, rv) = source_check digest p m w rv in ([st], rv))"
| "check_step digest e w rv = ([], rv)"

fun run_checks ::
    "int \<Rightarrow> (string \<Rightarrow> string) \<Rightarrow> source_event list \<Rightarrow> 'r world \<Rightarrow> revalidator \<Rightarrow> source_state list" where
  "run_checks gran digest [] w rv = []"
| "run_checks gran digest (e # es) w rv =
     (let (answers, rv) = check_step digest e w rv
      in answers @ run_checks gran digest es (host_step gran e w) rv)"

text \<open>
  What the documentation says of the same history, without a memo. A check that reads a file with a
  modification time is a reading: the path, its bytes, that time, and when. A later check of a file
  that was replaced since, with the length and the modification time of a reading that was taken more
  than the margin after that time, may be answered from that reading; any other check must be answered
  by re-hashing.
\<close>

type_synonym reading = "string \<times> string \<times> int \<times> int"

definition readings :: "string \<Rightarrow> manifest \<Rightarrow> 'r world \<Rightarrow> reading list" where
  "readings source m w =
     (case fs_node source w of
        Inr (FileNode bytes (Some t)) \<Rightarrow>
          if length bytes = m_bytes m then [(source, bytes, t, clock w)] else []
      | _ \<Rightarrow> [])"

definition stale_answers ::
    "(string \<Rightarrow> string) \<Rightarrow> string \<Rightarrow> manifest \<Rightarrow> 'r world \<Rightarrow> reading list \<Rightarrow> source_state list" where
  "stale_answers digest source m w past =
     (case fs_node source w of
        Inr (FileNode bytes (Some t)) \<Rightarrow>
          map (\<lambda>(p, old, t0, at). verdict (sha256_hex digest old) m)
            (filter (\<lambda>(p, old, t0, at). p = source \<and> old \<noteq> bytes \<and> length old = length bytes \<and>
               t0 = t \<and> t + racy_margin < at) past)
      | _ \<Rightarrow> [])"

fun run_unmemoised ::
    "int \<Rightarrow> (string \<Rightarrow> string) \<Rightarrow> source_event list \<Rightarrow> 'r world \<Rightarrow> reading list
      \<Rightarrow> (source_state \<times> source_state list) list" where
  "run_unmemoised gran digest [] w past = []"
| "run_unmemoised gran digest (e # es) w past =
     (case e of
        Checks p m \<Rightarrow>
          (file_source_state digest p m w, stale_answers digest p m w past) #
          run_unmemoised gran digest es w (readings p m w @ past)
      | _ \<Rightarrow> run_unmemoised gran digest es (host_step gran e w) past)"

text \<open>No file is placed with a modification time older than the margin.\<close>

fun placed_young :: "int \<Rightarrow> source_event list \<Rightarrow> 'r world \<Rightarrow> bool" where
  "placed_young gran [] w = True"
| "placed_young gran (e # es) w =
     ((case e of Places p b mtime \<Rightarrow> young mtime w | _ \<Rightarrow> True) \<and>
      placed_young gran es (host_step gran e w))"

lemma memo_ok_step:
  assumes "0 < gran" "gran \<le> racy_margin" "memo_ok digest w rv"
    and "case e of Places p b mtime \<Rightarrow> young mtime w | _ \<Rightarrow> True"
  shows "memo_ok digest (host_step gran e w) (snd (check_step digest e w rv))"
  using assms source_check_memo_ok [OF assms(3)]
  by (cases e)
    (auto simp: memo_ok_tick memo_ok_write memo_ok_place memo_ok_remove memo_ok_fault split_beta Let_def)

lemma run_checks_unmemoised:
  assumes "0 < gran" "gran \<le> racy_margin" "memo_ok digest w rv" "placed_young gran es w"
  shows "run_checks gran digest es w rv = map fst (run_unmemoised gran digest es w past)"
  using assms(3,4)
proof (induction es arbitrary: w rv past)
  case (Cons e es)
  note ok = memo_ok_step [OF assms(1,2) Cons.prems(1), of e]
  have IH: "run_checks gran digest es (host_step gran e w) (snd (check_step digest e w rv)) =
      map fst (run_unmemoised gran digest es (host_step gran e w) past')" for past'
    using Cons.IH ok Cons.prems(2) by simp
  show ?case
  proof (cases e)
    case (Checks p m)
    with IH source_check_verdict [OF Cons.prems(1), of p m] show ?thesis
      by (auto simp: split_beta Let_def)
  qed (use IH in \<open>simp_all add: split_beta Let_def\<close>)
qed simp

text \<open>Every fingerprint of the memo is one of the readings so far, whatever happens to the files.\<close>

definition backed :: "(string \<Rightarrow> string) \<Rightarrow> revalidator \<Rightarrow> reading list \<Rightarrow> bool" where
  "backed digest rv past \<longleftrightarrow>
     (\<forall>source fp. map_of (rv_seen rv) source = Some fp \<longrightarrow>
        (\<exists>old. (source, old, fp_mtime fp, fp_hashed_at fp) \<in> set past \<and>
           length old = fp_len fp \<and> sha256_hex digest old = fp_sha256 fp))"

lemma backed_new [simp]: "backed digest rv_new past"
  by (simp add: backed_def rv_new_def)

lemma backed_more: "backed digest rv past \<Longrightarrow> backed digest rv (newer @ past)"
  unfolding backed_def by fastforce

lemma backed_remember:
  assumes "backed digest rv past" "fs_node source w = Inr (FileNode bytes mtime)" "length bytes = m_bytes m"
  shows "backed digest (remember rv source (m_bytes m) mtime (sha256_hex digest bytes) (clock w))
    (readings source m w @ past)"
proof (cases mtime)
  case None
  with assms show ?thesis by (simp add: remember_def readings_def)
next
  case (Some t)
  have "\<exists>old. (s, old, fp_mtime fp, fp_hashed_at fp) \<in> set past \<and>
      length old = fp_len fp \<and> sha256_hex digest old = fp_sha256 fp"
    if "map_of (rv_seen rv) s = Some fp" for s fp
    using assms(1) that by (simp add: backed_def)
  with Some assms(2,3) show ?thesis
    by (fastforce simp: backed_def remember_def readings_def Let_def split: if_splits)
qed

lemma source_check_backed:
  assumes "backed digest rv past"
  shows "backed digest (snd (source_check digest source m w rv)) (readings source m w @ past)"
proof (cases "snd (source_check digest source m w rv) = rv")
  case True
  with backed_more [OF assms] show ?thesis by simp
next
  case False
  then obtain bytes mtime where b: "fs_node source w = Inr (FileNode bytes mtime)" "length bytes = m_bytes m"
      "remembered rv source (length bytes) mtime = None"
    by (auto simp: source_check_def stat_source_def split: sum.splits node.splits if_splits option.splits)
  then have "snd (source_check digest source m w rv) =
      remember (rv\<lparr>rv_full_reads := rv_full_reads rv + 1\<rparr>) source (length bytes) mtime
        (sha256_hex digest bytes) (clock w)"
    by (simp add: source_check_def stat_source_def sha256_file_def fs_read_def Let_def)
  moreover have "backed digest (rv\<lparr>rv_full_reads := n\<rparr>) past" for n using assms by (simp add: backed_def)
  note backed_remember [OF this b(1,2)]
  ultimately show ?thesis using b(2) by metis
qed

lemma source_check_stale:
  assumes "backed digest rv past"
  shows "fst (source_check digest source m w rv) = file_source_state digest source m w \<or>
    fst (source_check digest source m w rv) \<in> set (stale_answers digest source m w past)"
proof (cases "stat_source source w")
  case (Inl st)
  then show ?thesis by (simp add: source_check_def file_source_state_eq)
next
  case (Inr stat)
  obtain len mtime where stat: "stat = (len, mtime)" by force
  with Inr obtain bytes where b: "fs_node source w = Inr (FileNode bytes mtime)" "length bytes = len"
    by (auto simp: stat_source_Inr)
  show ?thesis
  proof (cases "remembered rv source len mtime")
    case None
    with Inr stat show ?thesis
      by (auto simp: source_check_def file_source_state_eq Let_def split: sum.splits)
  next
    case (Some sha)
    then obtain t fp where fp: "mtime = Some t" "map_of (rv_seen rv) source = Some fp" "fp_len fp = len"
        "fp_mtime fp = t" "\<not> is_racy t (fp_hashed_at fp)" "fp_sha256 fp = sha"
      by (auto simp: remembered_Some)
    from assms fp obtain old where old: "(source, old, t, fp_hashed_at fp) \<in> set past"
        "length old = len" "sha256_hex digest old = sha"
      unfolding backed_def by blast
    have t: "t + racy_margin < fp_hashed_at fp"
      using fp(5) by (auto simp: is_racy_def sys_checked_sub_def split: if_splits)
    have here: "len \<noteq> m_bytes m \<or> fst (source_check digest source m w rv) = verdict sha m"
      using Inr stat Some by (cases "len = m_bytes m") (auto simp: source_check_def)
    show ?thesis
    proof (cases "len = m_bytes m \<and> old \<noteq> bytes")
      case True
      with here old t b fp(1) have "fst (source_check digest source m w rv) \<in> set (stale_answers digest source m w past)"
        by (force simp: stale_answers_def)
      then show ?thesis ..
    next
      case False
      with Inr stat Some b old(3) show ?thesis
        by (cases "len = m_bytes m")
          (auto simp: source_check_def file_source_state_eq sha256_file_def fs_read_def)
    qed
  qed
qed

lemma run_checks_stale:
  assumes "backed digest rv past"
  shows "list_all2 (\<lambda>answer (truth, stale). answer = truth \<or> answer \<in> set stale)
    (run_checks gran digest es w rv) (run_unmemoised gran digest es w past)"
  using assms
proof (induction es arbitrary: w rv past)
  case (Cons e es)
  show ?case
  proof (cases e)
    case (Checks p m)
    with source_check_stale [OF Cons.prems, of p m w]
      Cons.IH [OF source_check_backed [OF Cons.prems, of p m w], of w] show ?thesis
      by (simp add: split_beta Let_def)
  qed (use Cons in \<open>simp_all add: Let_def\<close>)
qed simp

text \<open>The miss itself: a file read safely after its modification time, then replaced by one with the
  same length and the same modification time.\<close>

lemma preserved_replacement_missed:
  assumes "fs_node p w = Inr (FileNode old (Some t))" "t + racy_margin < clock w"
    and "in_i64 ((clock w - racy_margin) div 1000000000)"
    and "length old = m_bytes m" "length bytes = m_bytes m"
  shows "run_checks gran digest [Checks p m, Places p bytes (Some t), Checks p m] w rv_new =
    [verdict (sha256_hex digest old) m, verdict (sha256_hex digest old) m]"
proof -
  have "\<not> is_racy t (clock w)" using assms(2,3) by (simp add: is_racy_def sys_checked_sub_def)
  moreover have "fs_node p (place_source p bytes (Some t) w) = Inr (FileNode bytes (Some t))"
    using assms(1) by (simp add: fs_node_Inr place_source_def)
  ultimately show ?thesis using assms(1,4,5)
    by (simp add: source_check_def stat_source_def sha256_file_def fs_read_def Let_def remember_def
        remembered_def rv_new_def memo_cap_def)
qed

text \<open>
  C9: over any history of a host whose clock does not go back, writes that bring an arbitrary
  modification time included, each
  answer of the memoised recheck is what re-hashing the source would answer, or it is the answer for
  an earlier reading of a file that was since replaced keeping its length and a modification time
  that was more than two seconds old when it was read. So if no file is ever placed with a
  modification time older than two seconds (plain writes, on a file system whose times are at most
  two seconds coarse, never do that) the answers are exactly those of re-hashing; and the exception
  is real: such a replacement of a file just checked (two seconds before its clock still being a time
  that a \<open>SystemTime\<close> holds) is answered as if it had not happened.
\<close>

theorem memo_answers:
  assumes "0 < gran" "gran \<le> racy_margin"
  shows "list_all2 (\<lambda>answer (truth, stale). answer = truth \<or> answer \<in> set stale)
      (run_checks gran digest es w rv_new) (run_unmemoised gran digest es w []) \<and>
    (placed_young gran es w \<longrightarrow>
      run_checks gran digest es w rv_new = map fst (run_unmemoised gran digest es w [])) \<and>
    (\<forall>p old t m bytes. fs_node p w = Inr (FileNode old (Some t)) \<longrightarrow> t + racy_margin < clock w \<longrightarrow>
      in_i64 ((clock w - racy_margin) div 1000000000) \<longrightarrow>
      length old = m_bytes m \<longrightarrow> length bytes = m_bytes m \<longrightarrow>
      run_checks gran digest [Checks p m, Places p bytes (Some t), Checks p m] w rv_new =
        [verdict (sha256_hex digest old) m, verdict (sha256_hex digest old) m])"
  using run_checks_stale [OF backed_new] run_checks_unmemoised [OF assms memo_ok_new]
    preserved_replacement_missed by blast

definition sample_world :: "unit world" where
  "sample_world = \<lparr>nodes = [(''/c'', FileNode ''old'' (Some 0))], fault = (\<lambda>_. None),
     clock = 9000000000, fresh = 0, remote = ()\<rparr>"

definition source_manifest :: "string \<Rightarrow> manifest" where
  "source_manifest bytes =
     sample_manifest\<lparr>m_bytes := length bytes, m_sha256_content := sha256_hex (\<lambda>u. u) bytes\<rparr>"

definition sample_events :: "source_event list" where
  "sample_events = [Checks ''/c'' (source_manifest ''old''), Writes ''/c'' ''new'',
     Checks ''/c'' (source_manifest ''old''), Removes ''/c'', Checks ''/c'' (source_manifest ''old'')]"

definition preserved_events :: "source_event list" where
  "preserved_events = [Checks ''/c'' (source_manifest ''old''), Places ''/c'' ''new'' (Some 0),
     Checks ''/c'' (source_manifest ''old'')]"

theorem memo_answers_witness:
  "run_checks 2000000000 (\<lambda>u. u) sample_events sample_world rv_new = [Current, Replaced, Missing] \<and>
   run_checks 2000000000 (\<lambda>u. u) preserved_events sample_world rv_new = [Current, Current] \<and>
   run_unmemoised 2000000000 (\<lambda>u. u) preserved_events sample_world [] = [(Current, []), (Replaced, [Current])]"
proof -
  have z: "0 < (2000000000::int)" and p: "2000000000 \<le> racy_margin" by (simp_all add: racy_margin_def)
  have y: "placed_young 2000000000 sample_events sample_world" by code_simp
  have s: "map fst (run_unmemoised 2000000000 (\<lambda>u. u) sample_events sample_world []) = [Current, Replaced, Missing]"
    by code_simp
  have u: "run_unmemoised 2000000000 (\<lambda>u. u) preserved_events sample_world [] = [(Current, []), (Replaced, [Current])]"
    by code_simp
  have v: "verdict (sha256_hex (\<lambda>u. u) ''old'') (source_manifest ''old'') = Current" by code_simp
  have c: "fs_node ''/c'' sample_world = Inr (FileNode ''old'' (Some 0))" "0 + racy_margin < clock sample_world"
      "in_i64 ((clock sample_world - racy_margin) div 1000000000)"
      "length ''old'' = m_bytes (source_manifest ''old'')" "length ''new'' = m_bytes (source_manifest ''old'')"
    by code_simp+
  note all = memo_answers [OF z p, of "\<lambda>u. u" _ sample_world]
  have "run_checks 2000000000 (\<lambda>u. u) preserved_events sample_world rv_new = [Current, Current]"
    unfolding preserved_events_def using all [of "[]"] c v by simp
  with all [of sample_events] y s u show ?thesis by simp
qed

end
