(* ===== verification/Cache.thy ===== *)
theory Cache
  imports Validate
begin

text \<open>
  The cache fetcher (\<open>rust/src/cache.rs\<close>): the offline read, the hit test, the locked download with
  its mirrors and its single retry, the commit, and the builder.

  A cache's registries and switches are a record; its memo (\<open>revalidator\<close>) and the world are the
  state. Every early return, \<open>?\<close> and drop of the staging file of the code is a branch here. The
  lemmas show what a fetch promises over any store that keeps \<open>blob_store\<close> and any transports that
  keep \<open>staged_transport\<close>; both are discharged for the local store and the file transport.
\<close>

record cached_blob =
  cb_key :: string
  cb_path :: string
  cb_manifest :: manifest

record fetch_request =
  rq_url :: string
  rq_loader :: "string option"
  rq_auth_realm :: "string option"
  rq_temporal :: "temporal option"
  rq_checksum :: "string option"
  rq_mirrors :: "string list"

definition request :: "string \<Rightarrow> fetch_request" where
  "request url = \<lparr>rq_url = url, rq_loader = None, rq_auth_realm = None, rq_temporal = None,
     rq_checksum = None, rq_mirrors = []\<rparr>"

record 'r cache =
  c_store :: "'r world store"
  c_transports :: "'r world transport_registry"
  c_auth :: auth_registry
  c_offline :: bool
  c_verify_on_read :: bool
  c_revalidate :: bool

section \<open>URLs\<close>

definition scheme_of :: "string \<Rightarrow> string result" where
  "scheme_of url =
     (case split_once ''://'' url of
        Some (scheme, rest) \<Rightarrow>
          if scheme \<noteq> [] then Inr scheme else Inl (BadUrl url ''missing scheme'')
      | None \<Rightarrow> Inl (BadUrl url ''missing scheme''))"

definition local_source_path :: "(string \<Rightarrow> string option) \<Rightarrow> string \<Rightarrow> string option" where
  "local_source_path env url =
     (if (case scheme_of url of Inr s \<Rightarrow> eq_ignore_case s ''file'' | Inl e \<Rightarrow> False)
      then (case file_url_to_path env url of Inr p \<Rightarrow> Some p | Inl e \<Rightarrow> None)
      else None)"

definition ext_from_url :: "string \<Rightarrow> string" where
  "ext_from_url url =
     (let path = takeWhile (\<lambda>c. c \<noteq> CHR ''?'' \<and> c \<noteq> CHR ''#'') url;
          last_seg = (case rsplit_char (CHR ''/'') path of Some (a, b) \<Rightarrow> b | None \<Rightarrow> path)
      in case rsplit_char (CHR ''.'') last_seg of
           Some (stem, ext) \<Rightarrow>
             if stem \<noteq> [] \<and> ext \<noteq> [] \<and> length ext \<le> 8 \<and> list_all is_alnum ext
             then ascii_lower ext else []
         | None \<Rightarrow> [])"

section \<open>Integrity and the offline read\<close>

text \<open>\<open>metadata(p).len()\<close>; what a directory reports is the host's \<open>dir_len\<close>.\<close>

definition fs_len :: "nat \<Rightarrow> string \<Rightarrow> 'r world \<Rightarrow> io_error + nat" where
  "fs_len dir_len p w =
     (case fs_node p w of
        Inl e \<Rightarrow> Inl e
      | Inr (FileNode bytes mt) \<Rightarrow> Inr (length bytes)
      | Inr DirNode \<Rightarrow> Inr dir_len)"

definition verify_integrity :: "host \<Rightarrow> string \<Rightarrow> string \<Rightarrow> manifest \<Rightarrow> 'r world \<Rightarrow> unit result" where
  "verify_integrity H key blob m w =
     (case fs_len (h_dir_len H) blob w of
        Inl e \<Rightarrow> Inl (Io (Some blob) e)
      | Inr len \<Rightarrow>
          if len \<noteq> m_bytes m then
            Inl (Integrity key (''on-disk size '' @ show_nat len @ '' != manifest.bytes '' @ show_nat (m_bytes m)))
          else
            (case sha256_file (h_digest H) blob w of
               Inl e \<Rightarrow> Inl (Io (Some blob) e)
             | Inr sha \<Rightarrow>
                 if \<not> eq_ignore_case sha (m_sha256_content m) then
                   Inl (Integrity key (''sha256 '' @ sha @ '' != manifest.sha256_content '' @ m_sha256_content m))
                 else Inr ()))"

definition read_offline :: "host \<Rightarrow> 'r cache \<Rightarrow> string \<Rightarrow> string \<Rightarrow> 'r world \<Rightarrow> cached_blob result" where
  "read_offline H C key url w =
     bindR (ok_or (CacheMiss url key) (st_get_blob_hinted (c_store C) key (ext_from_url url) w)) (\<lambda>path.
     bindR (st_get_meta (c_store C) key w) (\<lambda>om.
     bindR (ok_or (CacheMiss url key) om) (\<lambda>m.
     bindR (if c_verify_on_read C then verify_integrity H key path m w else Inr ()) (\<lambda>u.
       Inr \<lparr>cb_key = key, cb_path = path, cb_manifest = m\<rparr>))))"

section \<open>The online fetch\<close>

text \<open>What rung 0 does with the source's state: serve the entry, or send it to a re-ingest.\<close>

definition source_serves :: "source_state \<Rightarrow> string list \<Rightarrow> bool" where
  "source_serves st mirrors =
     (case st of
        Current \<Rightarrow> True
      | Replaced \<Rightarrow> False
      | Missing \<Rightarrow> mirrors \<noteq> []
      | Unknown \<Rightarrow> True)"

definition try_hit ::
    "host \<Rightarrow> 'r cache \<Rightarrow> string \<Rightarrow> fetch_request \<Rightarrow> 'r world \<Rightarrow> revalidator
      \<Rightarrow> cached_blob option result \<times> revalidator" where
  "try_hit H C key req w rv =
     (case st_get_blob_hinted (c_store C) key (ext_from_url (rq_url req)) w of
        None \<Rightarrow> (Inr None, rv)
      | Some path \<Rightarrow>
          (case st_get_meta (c_store C) key w of
             Inl e \<Rightarrow> (Inl e, rv)
           | Inr None \<Rightarrow> (Inr None, rv)
           | Inr (Some m) \<Rightarrow>
               (case decide H w m (rq_temporal req) (rq_checksum req) of
                  Hit \<Rightarrow>
                    (let (served, rv) =
                       (if c_revalidate C then
                          (case local_source_path (h_env H) (rq_url req) of
                             Some src \<Rightarrow>
                               (let (st, rv) = source_check (h_digest H) src m w rv
                                in (source_serves st (rq_mirrors req), rv))
                           | None \<Rightarrow> (True, rv))
                        else (True, rv))
                     in if \<not> served then (Inr None, rv)
                        else
                          (case (if c_verify_on_read C then verify_integrity H key path m w else Inr ()) of
                             Inl e \<Rightarrow> (Inl e, rv)
                           | Inr u \<Rightarrow> (Inr (Some \<lparr>cb_key = key, cb_path = path, cb_manifest = m\<rparr>), rv)))
                | Revalidate \<Rightarrow> (Inr None, rv)
                | Miss \<Rightarrow> (Inr None, rv))))"

definition commit_result ::
    "host \<Rightarrow> 'r cache \<Rightarrow> string \<Rightarrow> fetch_request \<Rightarrow> string \<Rightarrow> fetch_result \<times> string option
      \<Rightarrow> manifest option \<Rightarrow> string \<Rightarrow> 'r world \<Rightarrow> cached_blob result \<times> 'r world" where
  "commit_result H C key req chosen_url fetched prior staging w =
     (let S = c_store C; (res, sha_in_transit) = fetched in
      case fr_status res of
        NotModified \<Rightarrow>
          (case st_get_blob_hinted S key (ext_from_url chosen_url) w of
             None \<Rightarrow>
               (Inl (Integrity key ''304 Not Modified but no cached blob present''),
                st_drop_staging S staging w)
           | Some path \<Rightarrow>
               (case prior of
                  None \<Rightarrow>
                    (Inl (Integrity key ''304 Not Modified with no prior manifest''),
                     st_drop_staging S staging w)
                | Some p \<Rightarrow>
                    (let m = p\<lparr>m_fetched_at := now_rfc3339 H w,
                               m_etag := (if fr_etag res \<noteq> None then fr_etag res else m_etag p),
                               m_last_modified := (if fr_last_modified res \<noteq> None
                                 then fr_last_modified res else m_last_modified p)\<rparr>
                     in case st_put_meta S key m w of
                          (Inl e, w) \<Rightarrow> (Inl e, st_drop_staging S staging w)
                        | (Inr u, w) \<Rightarrow>
                            (Inr \<lparr>cb_key = key, cb_path = path, cb_manifest = m\<rparr>,
                             st_drop_staging S staging w))))
      | Downloaded \<Rightarrow>
          (case fs_len (h_dir_len H) staging w of
             Inl e \<Rightarrow> (Inl (Io (Some staging) e), st_drop_staging S staging w)
           | Inr bytes \<Rightarrow>
               (case (case sha_in_transit of
                        Some sha \<Rightarrow> Inr sha
                      | None \<Rightarrow>
                          (case sha256_file (h_digest H) staging w of
                             Inl e \<Rightarrow> Inl (Io (Some staging) e) | Inr sha \<Rightarrow> Inr sha)) of
                  Inl e \<Rightarrow> (Inl e, st_drop_staging S staging w)
                | Inr sha \<Rightarrow>
                    (case (case rq_checksum req of
                             Some expected \<Rightarrow>
                               if eq_ignore_case expected sha then Inr ()
                               else Inl (Integrity key (''declared checksum '' @ expected
                                       @ '' != downloaded '' @ sha))
                           | None \<Rightarrow> Inr ()) of
                       Inl e \<Rightarrow> (Inl e, st_drop_staging S staging w)
                     | Inr u \<Rightarrow>
                         (case st_commit_blob S key staging (ext_from_url chosen_url) w of
                            (Inl e, w) \<Rightarrow> (Inl e, w)
                          | (Inr path, w) \<Rightarrow>
                              (let m = \<lparr>m_auth_realm = rq_auth_realm req, m_bytes = bytes,
                                        m_etag = fr_etag res, m_fetched_at = now_rfc3339 H w,
                                        m_last_modified = fr_last_modified res,
                                        m_schema = manifest_schema, m_sha256_content = sha,
                                        m_source_loader = rq_loader req, m_url = rq_url req\<rparr>
                               in case st_put_meta S key m w of
                                    (Inl e, w) \<Rightarrow> (Inl e, w)
                                  | (Inr u, w) \<Rightarrow>
                                      (Inr \<lparr>cb_key = key, cb_path = path, cb_manifest = m\<rparr>, w)))))))"

fun try_sources ::
    "host \<Rightarrow> 'r cache \<Rightarrow> string \<Rightarrow> fetch_request \<Rightarrow> conditional \<Rightarrow> resolver option \<Rightarrow> manifest option
      \<Rightarrow> string list \<Rightarrow> error option \<Rightarrow> bool \<Rightarrow> bool \<Rightarrow> 'r world \<Rightarrow> cached_blob result \<times> 'r world" where
  "try_sources H C key req cond auth prior [] last_err attempted all_nf w =
     (Inl (AllMirrorsFailed (rq_url req)
        (case last_err of None \<Rightarrow> ''no sources'' | Some e \<Rightarrow> error_text e) (attempted \<and> all_nf)), w)"
| "try_sources H C key req cond auth prior (src # srcs) last_err attempted all_nf w =
     (case scheme_of src of
        Inl e \<Rightarrow> (Inl e, w)
      | Inr s \<Rightarrow>
          (case transport_get (c_transports C) (ascii_lower s) of
             None \<Rightarrow>
               try_sources H C key req cond auth prior srcs
                 (Some (UnknownScheme (ascii_lower s) src)) True False w
           | Some t \<Rightarrow>
               (case st_new_staging (c_store C) w of
                  (Inl e, w) \<Rightarrow> (Inl e, w)
                | (Inr p, w) \<Rightarrow>
                    (case fetch_hashed t src p cond auth w of
                       (Inr fetched, w) \<Rightarrow> commit_result H C key req src fetched prior p w
                     | (Inl e, w) \<Rightarrow>
                         try_sources H C key req cond auth prior srcs (Some e) True
                           (all_nf \<and> is_not_found e) (st_drop_staging (c_store C) p w)))))"

definition download_locked_with ::
    "host \<Rightarrow> 'r cache \<Rightarrow> string \<Rightarrow> fetch_request \<Rightarrow> bool \<Rightarrow> 'r world \<Rightarrow> cached_blob result \<times> 'r world"
  where
  "download_locked_with H C key req use_validators w =
     (case st_get_meta (c_store C) key w of
        Inl e \<Rightarrow> (Inl e, w)
      | Inr prior \<Rightarrow>
          (let cond = (case prior of
                         Some m \<Rightarrow>
                           if use_validators
                           then \<lparr>cd_etag = m_etag m, cd_last_modified = m_last_modified m\<rparr>
                           else no_conditional
                       | None \<Rightarrow> no_conditional)
           in case (case rq_auth_realm req of
                      None \<Rightarrow> Inr None
                    | Some realm \<Rightarrow> map_sum id Some (ok_or (MissingAuth realm) (auth_get (c_auth C) realm))) of
                Inl e \<Rightarrow> (Inl e, w)
              | Inr auth \<Rightarrow>
                  try_sources H C key req cond auth prior (rq_url req # rq_mirrors req) None False True w))"

definition download_locked ::
    "host \<Rightarrow> 'r cache \<Rightarrow> string \<Rightarrow> fetch_request \<Rightarrow> 'r world \<Rightarrow> cached_blob result \<times> 'r world" where
  "download_locked H C key req w =
     (case download_locked_with H C key req True w of
        (Inl (Integrity k detail), w) \<Rightarrow>
          if starts_with ''304 Not Modified'' detail then download_locked_with H C key req False w
          else (Inl (Integrity k detail), w)
      | (r, w) \<Rightarrow> (r, w))"

definition fetch_online ::
    "host \<Rightarrow> 'r cache \<Rightarrow> string \<Rightarrow> fetch_request \<Rightarrow> 'r world \<times> revalidator
      \<Rightarrow> cached_blob result \<times> 'r world \<times> revalidator" where
  "fetch_online H C key req st =
     (let (w, rv) = st in
      case try_hit H C key req w rv of
        (Inl e, rv) \<Rightarrow> (Inl e, w, rv)
      | (Inr (Some b), rv) \<Rightarrow> (Inr b, w, rv)
      | (Inr None, rv) \<Rightarrow>
          (case st_lock (c_store C) key w of
             (Inl e, w) \<Rightarrow> (Inl e, w, rv)
           | (Inr u, w) \<Rightarrow>
               (case try_hit H C key req w rv of
                  (Inl e, rv) \<Rightarrow> (Inl e, w, rv)
                | (Inr (Some b), rv) \<Rightarrow> (Inr b, w, rv)
                | (Inr None, rv) \<Rightarrow>
                    (case download_locked H C key req w of (r, w) \<Rightarrow> (r, w, rv)))))"

definition fetch ::
    "host \<Rightarrow> 'r cache \<Rightarrow> fetch_request \<Rightarrow> 'r world \<times> revalidator
      \<Rightarrow> cached_blob result \<times> 'r world \<times> revalidator" where
  "fetch H C req st =
     (let key = cache_key (h_digest H) (rq_url req) in
      if c_offline C then (read_offline H C key (rq_url req) (fst st), st)
      else fetch_online H C key req st)"

definition get_offline :: "host \<Rightarrow> 'r cache \<Rightarrow> string \<Rightarrow> 'r world \<Rightarrow> cached_blob result" where
  "get_offline H C url w = read_offline H C (cache_key (h_digest H) url) url w"

section \<open>The builder\<close>

record 'r cache_builder =
  bd_data_dir :: "string option"
  bd_store_name :: string
  bd_stores :: "'r world store_registry"
  bd_user_transports :: "'r world transport list"
  bd_builtin_transports :: bool
  bd_auth :: auth_registry
  bd_offline :: "bool option"
  bd_verify_on_read :: bool
  bd_revalidate :: "bool option"

definition builder_new :: "'r cache_builder" where
  "builder_new =
     \<lparr>bd_data_dir = None, bd_store_name = ''local'', bd_stores = [], bd_user_transports = [],
      bd_builtin_transports = True, bd_auth = [], bd_offline = None, bd_verify_on_read = False,
      bd_revalidate = None\<rparr>"

text \<open>\<open>mk_local\<close> opens a local store at a root; \<open>builtins\<close> are the built-in transports in the
  order they are registered (\<open>http\<close>, \<open>file\<close>, \<open>cds\<close>, \<open>s3\<close>).\<close>

definition build ::
    "host \<Rightarrow> (string \<Rightarrow> 'r world store) \<Rightarrow> 'r world transport list \<Rightarrow> 'r cache_builder
      \<Rightarrow> ('r cache \<times> revalidator) result" where
  "build H mk_local builtins b =
     (let root = (case bd_data_dir b of Some d \<Rightarrow> d | None \<Rightarrow> data_dir (h_env H));
          stores = (if store_get (bd_stores b) ''local'' = None
                    then store_register (mk_local root) (bd_stores b) else bd_stores b)
      in bindR (ok_or (UnknownStore (bd_store_name b)) (store_get stores (bd_store_name b))) (\<lambda>store.
           let offline = is_offline (h_env H) (bd_offline b);
               transports =
                 (if offline then []
                  else fold transport_register
                    ((if bd_builtin_transports b then builtins else []) @ bd_user_transports b) [])
           in Inr (\<lparr>c_store = store, c_transports = transports, c_auth = bd_auth b,
                    c_offline = offline, c_verify_on_read = bd_verify_on_read b,
                    c_revalidate = revalidate_file_sources (h_env H) (bd_revalidate b)\<rparr>, rv_new)))"

section \<open>What a fetch promises\<close>

text \<open>The cache's assumptions: a store and transports that keep their contracts, a 32-byte digest.\<close>

locale cache_laws = blob_store "c_store C" staging for C :: "'r cache" and staging +
  fixes H :: host
  assumes digest_length: "length (h_digest H u) = 32"
    and transports: "transport_get (c_transports C) s = Some t \<Longrightarrow>
      staged_transport (c_store C) staging (h_digest H) t"

definition bytes_match :: "host \<Rightarrow> manifest \<Rightarrow> string \<Rightarrow> bool" where
  "bytes_match H m bytes \<longleftrightarrow>
     length bytes = m_bytes m \<and> eq_ignore_case (sha256_hex (h_digest H) bytes) (m_sha256_content m)"

text \<open>The entry of a URL, if there is one, is the blob its manifest describes.\<close>

definition entry_sound :: "host \<Rightarrow> 'r cache \<Rightarrow> string \<Rightarrow> 'r world \<Rightarrow> bool" where
  "entry_sound H C url w \<longleftrightarrow>
     (\<forall>p m. st_get_blob_hinted (c_store C) (cache_key (h_digest H) url) (ext_from_url url) w = Some p \<longrightarrow>
        st_get_meta (c_store C) (cache_key (h_digest H) url) w = Inr (Some m) \<longrightarrow>
        (\<exists>bytes. file_bytes w p = Some bytes \<and> bytes_match H m bytes))"

text \<open>A blob that was returned is the entry the store holds, and it matches its manifest.\<close>

definition entry_served :: "host \<Rightarrow> 'r cache \<Rightarrow> string \<Rightarrow> 'r world \<Rightarrow> cached_blob \<Rightarrow> bool" where
  "entry_served H C url w b \<longleftrightarrow>
     cb_key b = cache_key (h_digest H) url \<and>
     st_get_blob_hinted (c_store C) (cb_key b) (ext_from_url url) w = Some (cb_path b) \<and>
     st_get_meta (c_store C) (cb_key b) w = Inr (Some (cb_manifest b)) \<and>
     (\<exists>bytes. file_bytes w (cb_path b) = Some bytes \<and> bytes_match H (cb_manifest b) bytes)"

lemma entry_served_sound: "entry_served H C url w b \<Longrightarrow> entry_sound H C url w"
  by (auto simp: entry_served_def entry_sound_def)

lemma entry_sound_served:
  assumes "entry_sound H C url w" "cb_key b = cache_key (h_digest H) url"
    and "st_get_blob_hinted (c_store C) (cb_key b) (ext_from_url url) w = Some (cb_path b)"
    and "st_get_meta (c_store C) (cb_key b) w = Inr (Some (cb_manifest b))"
  shows "entry_served H C url w b"
  using assms by (auto simp: entry_served_def entry_sound_def)

lemma entry_sound_same:
  "same_entries (c_store C) w w' \<Longrightarrow> valid_key (cache_key (h_digest H) url) \<Longrightarrow>
     entry_sound H C url w \<Longrightarrow> entry_sound H C url w'"
  by (simp add: same_entries_def same_meta_def same_blob_def entry_sound_def)

text \<open>What a hit returns is in the store.\<close>

lemma try_hit_Some:
  "try_hit H C key req w rv = (Inr (Some b), rv') \<Longrightarrow>
     cb_key b = key \<and>
     st_get_blob_hinted (c_store C) key (ext_from_url (rq_url req)) w = Some (cb_path b) \<and>
     st_get_meta (c_store C) key w = Inr (Some (cb_manifest b)) \<and>
     decide H w (cb_manifest b) (rq_temporal req) (rq_checksum req) = Hit"
  by (auto simp: try_hit_def Let_def split: option.splits sum.splits cache_decision.splits
      prod.splits if_splits)

text \<open>A commit that downloaded, step by step.\<close>

lemma commit_downloaded:
  assumes "commit_result H C key req src (res, sha) prior p w = (r, w')" "fr_status res = Downloaded"
    and "file_bytes w p = Some bytes" "\<forall>h. sha = Some h \<longrightarrow> h = sha256_hex (h_digest H) bytes"
  obtains e where "r = Inl e" "w' = st_drop_staging (c_store C) p w"
      "(\<exists>x. e = Io (Some p) x) \<or> (\<exists>k d. e = Integrity k d \<and> \<not> starts_with ''304 Not Modified'' d)"
  | e where "r = Inl e" "st_commit_blob (c_store C) key p (ext_from_url src) w = (Inl e, w')"
  | path w1 e m where "r = Inl e" "st_commit_blob (c_store C) key p (ext_from_url src) w = (Inr path, w1)"
      "st_put_meta (c_store C) key m w1 = (Inl e, w')"
  | path w1 m where "st_commit_blob (c_store C) key p (ext_from_url src) w = (Inr path, w1)"
      "st_put_meta (c_store C) key m w1 = (Inr (), w')"
      "r = Inr \<lparr>cb_key = key, cb_path = path, cb_manifest = m\<rparr>"
      "m_bytes m = length bytes" "m_sha256_content m = sha256_hex (h_digest H) bytes"
      "m_url m = rq_url req"
      "\<forall>e. rq_checksum req = Some e \<longrightarrow> eq_ignore_case e (m_sha256_content m)"
proof -
  obtain mt where mt: "map_of (nodes w) p = Some (FileNode bytes mt)"
    using file_bytes_Some [OF assms(3)] by blast
  show ?thesis
  proof (cases "fault w p")
    case (Some x)
    with assms(1,2) that(1) show ?thesis
      by (auto simp: commit_result_def fs_len_def fs_node_def)
  next
    case None
    let ?sha = "sha256_hex (h_digest H) bytes"
    have len: "fs_len (h_dir_len H) p w = Inr (length bytes)"
      and dig: "(case sha of Some s \<Rightarrow> Inr s | None \<Rightarrow>
        (case sha256_file (h_digest H) p w of Inl e \<Rightarrow> Inl (Io (Some p) e) | Inr s \<Rightarrow> Inr s)) = Inr ?sha"
      using None mt assms(4)
      by (auto simp: fs_len_def fs_node_def sha256_file_def fs_read_def split: option.splits)
    obtain rc wc where c: "st_commit_blob (c_store C) key p (ext_from_url src) w = (rc, wc)" by force
    show ?thesis
    proof (cases "\<exists>e. rq_checksum req = Some e \<and> \<not> eq_ignore_case e ?sha")
      case True
      with assms(1,2) len dig that(1) show ?thesis
        by (auto simp: commit_result_def)
    next
      case False
      then have ck: "(case rq_checksum req of Some expected \<Rightarrow>
             if eq_ignore_case expected ?sha then Inr ()
             else Inl (Integrity key (''declared checksum '' @ expected @ '' != downloaded '' @ ?sha))
           | None \<Rightarrow> Inr ()) = (Inr () :: unit result)"
        by (auto split: option.splits)
      show ?thesis
      proof (cases rc)
        case (Inl e)
        with assms(1,2) len dig ck c that(2) show ?thesis by (auto simp: commit_result_def)
      next
        case (Inr path)
        let ?m = "\<lparr>m_auth_realm = rq_auth_realm req, m_bytes = length bytes, m_etag = fr_etag res,
          m_fetched_at = now_rfc3339 H wc, m_last_modified = fr_last_modified res,
          m_schema = manifest_schema, m_sha256_content = ?sha, m_source_loader = rq_loader req,
          m_url = rq_url req\<rparr>"
        obtain rp wp where pm: "st_put_meta (c_store C) key ?m wc = (rp, wp)" by force
        show ?thesis
        proof (cases rp)
          case (Inl e)
          with assms(1,2) len dig ck c \<open>rc = Inr path\<close> pm that(3) [of e path wc ?m] show ?thesis
            by (auto simp: commit_result_def Let_def)
        next
          case (Inr u)
          with assms(1,2) len dig ck c \<open>rc = Inr path\<close> pm False that(4) [of path wc ?m] show ?thesis
            by (auto simp: commit_result_def Let_def)
        qed
      qed
    qed
  qed
qed

text \<open>A commit that revalidated.\<close>

lemma commit_not_modified:
  assumes "commit_result H C key req src (res, sha) prior p w = (r, w')" "fr_status res = NotModified"
  obtains d where "r = Inl (Integrity key d)" "w' = st_drop_staging (c_store C) p w"
      "starts_with ''304 Not Modified'' d"
  | e m w1 where "r = Inl e" "st_put_meta (c_store C) key m w = (Inl e, w1)"
      "w' = st_drop_staging (c_store C) p w1"
  | path m0 m w1 where "prior = Some m0"
      "st_get_blob_hinted (c_store C) key (ext_from_url src) w = Some path"
      "st_put_meta (c_store C) key m w = (Inr (), w1)" "w' = st_drop_staging (c_store C) p w1"
      "r = Inr \<lparr>cb_key = key, cb_path = path, cb_manifest = m\<rparr>"
      "m_bytes m = m_bytes m0" "m_sha256_content m = m_sha256_content m0" "m_url m = m_url m0"
proof (cases "st_get_blob_hinted (c_store C) key (ext_from_url src) w")
  case None
  with assms that(1) show ?thesis by (auto simp: commit_result_def)
next
  case path: (Some path)
  show ?thesis
  proof (cases prior)
    case None
    with path assms that(1) show ?thesis by (auto simp: commit_result_def)
  next
    case (Some m0)
    let ?m = "m0\<lparr>m_fetched_at := now_rfc3339 H w,
      m_etag := (if fr_etag res \<noteq> None then fr_etag res else m_etag m0),
      m_last_modified := (if fr_last_modified res \<noteq> None then fr_last_modified res else m_last_modified m0)\<rparr>"
    obtain rp wp where pm: "st_put_meta (c_store C) key ?m w = (rp, wp)" by force
    from that(2) [of _ ?m wp] that(3) [OF Some path, of ?m wp] path Some assms pm show ?thesis
      by (cases rp) (auto simp: commit_result_def Let_def)
  qed
qed

text \<open>One pass over the sources: it either ends without a fetch having succeeded, or it is the commit
  of the first fetch that did.\<close>

context cache_laws
begin

lemma key_ok: "valid_key (cache_key (h_digest H) url)"
  using digest_length by (auto simp: cache_key_def valid_key_def list_all_iff hex_lower_hex)

lemma try_sources_cases:
  assumes "try_sources H C key req cond auth prior srcs last_err att nf w = (r, w')"
  obtains e where "r = Inl e" "same_entries (c_store C) w w'" "\<not> (\<exists>k d. e = Integrity k d)"
  | src t p fetched w1 w2 s where "src \<in> set srcs" "staging p"
      "staged_transport (c_store C) staging (h_digest H) t" "same_entries (c_store C) w w2"
      "fetch_hashed t src p cond auth w1 = (Inr fetched, w2)"
      "commit_result H C key req src fetched prior p w2 = (r, w')"
      "transport_get (c_transports C) s = Some t"
  using assms
proof (induction srcs arbitrary: last_err att nf w thesis)
  case Nil
  then show ?case by auto
next
  case (Cons src srcs)
  show ?case
  proof (cases "scheme_of src")
    case (Inl e)
    then have "\<exists>u d. e = BadUrl u d" by (auto simp: scheme_of_def split: option.splits if_splits)
    with Inl Cons.prems(1,3) show ?thesis by auto
  next
    case s: (Inr s)
    show ?thesis
    proof (cases "transport_get (c_transports C) (ascii_lower s)")
      case None
      with s Cons.prems(3) have "try_sources H C key req cond auth prior srcs
          (Some (UnknownScheme (ascii_lower s) src)) True False w = (r, w')" by simp
      from Cons.IH [OF _ _ this] Cons.prems(1,2) show ?thesis by (metis list.set_intros(2))
    next
      case t: (Some t)
      obtain rn w0 where n: "st_new_staging (c_store C) w = (rn, w0)" by force
      note same0 = new_staging [OF n]
      show ?thesis
      proof (cases rn)
        case (Inl e)
        with store_errors [of _ w e w0] n have "\<exists>p x. e = Io p x" by auto
        with Inl s t n Cons.prems(1,3) same0 show ?thesis by auto
      next
        case (Inr p)
        have p: "staging p" using staging_path n Inr by blast
        obtain rf w1 where f: "fetch_hashed t src p cond auth w0 = (rf, w1)" by force
        have tr: "staged_transport (c_store C) staging (h_digest H) t" using transports t by blast
        have same1: "same_entries (c_store C) w w1"
          using same_entries_trans [OF same0 staged_transport.fetch_keeps [OF tr p f]] .
        show ?thesis
        proof (cases rf)
          case rf: (Inr fetched)
          from Cons.prems(2) [OF _ p tr same1 f [unfolded rf] _ t] s t n Inr f rf Cons.prems(3) show ?thesis by simp
        next
          case rf: (Inl e)
          let ?w = "st_drop_staging (c_store C) p w1"
          have same2: "same_entries (c_store C) w ?w"
            using same_entries_trans [OF same1 drop_staging [OF p]] .
          from rf s t n Inr f Cons.prems(3) have rest: "try_sources H C key req cond auth prior srcs
              (Some e) True (nf \<and> is_not_found e) ?w = (r, w')" by simp
          show ?thesis
          proof (rule Cons.IH [OF _ _ rest])
            show thesis if "r = Inl e" "same_entries (c_store C) ?w w'" "\<not> (\<exists>k d. e = Integrity k d)" for e
              using Cons.prems(1) that(1) same_entries_trans [OF same2 that(2)] that(3) .
            show thesis if "src' \<in> set srcs" "staging p'" "staged_transport (c_store C) staging (h_digest H) t'"
              "same_entries (c_store C) ?w w2" "fetch_hashed t' src' p' cond auth w1' = (Inr fetched, w2)"
              "commit_result H C key req src' fetched prior p' w2 = (r, w')"
              "transport_get (c_transports C) s' = Some t'" for src' t' p' fetched w1' w2 s'
              using Cons.prems(2) [OF list.set_intros(2) [OF that(1)] that(2,3)
                  same_entries_trans [OF same2 that(4)] that(5-7)] .
          qed
        qed
      qed
    qed
  qed
qed

lemma same_entries_meta:
  "same_entries (c_store C) w w' \<Longrightarrow> valid_key k \<Longrightarrow>
     st_get_meta (c_store C) k w' = st_get_meta (c_store C) k w"
  by (simp add: same_entries_def same_meta_def)

text \<open>A commit that succeeds leaves a served entry; one that fails leaves every manifest alone, and
  every entry too when it was a refused 304.\<close>

lemma commit_served:
  assumes tr: "staged_transport (c_store C) staging (h_digest H) t" and p: "staging p"
    and f: "fetch_hashed t src p cond auth w1 = (Inr fetched, w2)"
    and c: "commit_result H C (cache_key (h_digest H) (rq_url req)) req src fetched prior p w2 = (Inr b, w')"
    and ext: "ext_from_url src = ext_from_url (rq_url req)"
    and prior: "st_get_meta (c_store C) (cache_key (h_digest H) (rq_url req)) w2 = Inr prior"
    and sound: "entry_sound H C (rq_url req) w2"
  shows "entry_served H C (rq_url req) w' b"
proof -
  let ?S = "c_store C" and ?k = "cache_key (h_digest H) (rq_url req)"
  obtain res sha where fetched: "fetched = (res, sha)" by force
  show ?thesis
  proof (cases "fr_status res")
    case Downloaded
    obtain bytes where bytes: "file_bytes w2 p = Some bytes" "int (length bytes) \<le> u64_max"
        "\<forall>h. sha = Some h \<longrightarrow> h = sha256_hex (h_digest H) bytes"
      using staged_transport.fetch_downloads [OF tr p f [unfolded fetched] Downloaded] by blast
    from c [unfolded fetched] Downloaded bytes(1,3) show ?thesis
    proof (cases rule: commit_downloaded)
      case (4 path w3 m)
      note ok = commit_ok [OF key_ok p 4(1)]
      have m: "manifest_ok m" using 4 bytes(2) by (simp add: manifest_ok_def)
      note put = put_meta_ok [OF key_ok m 4(2)]
      from put key_ok have "same_blob ?S w3 w' ?k" by blast
      from same_blobD [OF this, of "ext_from_url src" path] ok bytes(1)
      have "st_get_blob_hinted ?S ?k (ext_from_url src) w' = Some path" "file_bytes w' path = Some bytes"
        by simp_all
      with 4 put ext show ?thesis by (auto simp: entry_served_def bytes_match_def)
    qed simp_all
  next
    case NotModified
    from c [unfolded fetched] NotModified show ?thesis
    proof (cases rule: commit_not_modified)
      case (3 path m0 m w3)
      have m0: "st_get_meta ?S ?k w2 = Inr (Some m0)" using prior 3(1) by simp
      then have m: "manifest_ok m" using get_meta_ok 3(6) by (simp add: manifest_ok_def)
      note put = put_meta_ok [OF key_ok m 3(3)]
      note drop = drop_staging [OF p, of w3]
      obtain bytes where bytes: "file_bytes w2 path = Some bytes" "bytes_match H m0 bytes"
        using sound 3(2) m0 ext by (auto simp: entry_sound_def)
      have "st_get_meta ?S ?k w' = Inr (Some m)"
        using same_entries_meta [OF drop key_ok] put 3(4) by simp
      moreover have b3: "same_blob ?S w2 w3 ?k" and b4: "same_blob ?S w3 w' ?k"
        using put key_ok drop 3(4) by (auto simp: same_entries_def)
      have "st_get_blob_hinted ?S ?k (ext_from_url src) w' = Some path \<and> file_bytes w' path = Some bytes"
        using same_blobD [OF b4, of "ext_from_url src" path] same_blobD [OF b3 3(2)] bytes(1) by simp
      ultimately show ?thesis using 3(5-7) ext bytes(2) by (auto simp: entry_served_def bytes_match_def)
    qed simp_all
  qed
qed

lemma commit_error:
  assumes tr: "staged_transport (c_store C) staging (h_digest H) t" and p: "staging p"
    and f: "fetch_hashed t src p cond auth w1 = (Inr fetched, w2)" and k: "valid_key k"
    and c: "commit_result H C k req src fetched prior p w2 = (Inl e, w')"
  shows "(\<forall>j. valid_key j \<longrightarrow> same_meta (c_store C) w2 w' j) \<and>
    ((\<exists>q x. e = Io q x) \<or> same_entries (c_store C) w2 w' \<and> (\<exists>j d. e = Integrity j d))"
proof -
  let ?S = "c_store C"
  have entries: "?thesis" if "same_entries ?S w2 w'" "(\<exists>q x. e = Io q x) \<or> (\<exists>j d. e = Integrity j d)"
    using that by (auto simp: same_entries_def)
  obtain res sha where fetched: "fetched = (res, sha)" by force
  show ?thesis
  proof (cases "fr_status res")
    case Downloaded
    obtain bytes where bytes: "file_bytes w2 p = Some bytes" "int (length bytes) \<le> u64_max"
        "\<forall>h. sha = Some h \<longrightarrow> h = sha256_hex (h_digest H) bytes"
      using staged_transport.fetch_downloads [OF tr p f [unfolded fetched] Downloaded] by blast
    from c [unfolded fetched] Downloaded bytes(1,3) show ?thesis
    proof (cases rule: commit_downloaded)
      case (1 e')
      with drop_staging [OF p] entries show ?thesis by auto
    next
      case (2 e')
      with commit_err [OF k p 2(2)] store_errors [of k w2 e' w'] show ?thesis by blast
    next
      case (3 path w3 e' m)
      have "same_meta ?S w2 w' j" if "valid_key j" for j
        using commit_ok [OF k p 3(2)] put_meta_err [OF k 3(3)] that
        by (simp add: same_entries_def same_meta_def)
      with 3 store_errors [of k w3 e' w'] show ?thesis by blast
    qed simp
  next
    case NotModified
    from c [unfolded fetched] NotModified show ?thesis
    proof (cases rule: commit_not_modified)
      case (1 d)
      with drop_staging [OF p] entries show ?thesis by auto
    next
      case (2 e' m w3)
      have "same_entries ?S w2 w'"
        using same_entries_trans [OF put_meta_err [OF k 2(2)] drop_staging [OF p]] 2(3) by simp
      with 2 store_errors [of k w2 e' w3] entries show ?thesis by blast
    qed simp
  qed
qed

lemma same_metas_trans:
  "same_entries (c_store C) w w1 \<Longrightarrow> (\<forall>j. valid_key j \<longrightarrow> same_meta (c_store C) w1 w' j) \<Longrightarrow>
     (\<forall>j. valid_key j \<longrightarrow> same_meta (c_store C) w w' j)"
  by (simp add: same_entries_def same_meta_def)

lemma try_sources_error:
  assumes "try_sources H C k req cond auth prior srcs le att nf w = (Inl e, w')" "valid_key k"
  shows "(\<forall>j. valid_key j \<longrightarrow> same_meta (c_store C) w w' j) \<and>
    ((\<exists>q x. e = Io q x) \<or> same_entries (c_store C) w w')"
  using assms(1)
proof (cases rule: try_sources_cases)
  case (1 e')
  then show ?thesis by (auto simp: same_entries_def)
next
  case (2 src t p fetched w1 w2 s)
  from commit_error [OF 2(3,2,5) assms(2) 2(6)] same_metas_trans [OF 2(4)] same_entries_trans [OF 2(4)]
  show ?thesis by blast
qed

lemma download_with_cases:
  assumes "download_locked_with H C k req uv w = (r, w')"
  obtains realm where "r = Inl (MissingAuth realm)" "w' = w"
  | e where "r = Inl e" "w' = w" "st_get_meta (c_store C) k w = Inl e"
  | prior cond auth where "st_get_meta (c_store C) k w = Inr prior"
      "try_sources H C k req cond auth prior (rq_url req # rq_mirrors req) None False True w = (r, w')"
      "uv = False \<Longrightarrow> cond = no_conditional"
proof (cases "st_get_meta (c_store C) k w")
  case (Inl e)
  with assms that(2) show ?thesis by (auto simp: download_locked_with_def Let_def simp del: try_sources.simps)
next
  case (Inr prior)
  show ?thesis
  proof (cases "rq_auth_realm req")
    case None
    with assms Inr that(3) [OF Inr] show ?thesis
      by (cases prior; cases uv) (auto simp: download_locked_with_def Let_def simp del: try_sources.simps)
  next
    case (Some realm)
    show ?thesis
    proof (cases "auth_get (c_auth C) realm")
      case None
      with assms Inr Some that(1) [of realm] show ?thesis by (auto simp: download_locked_with_def Let_def simp del: try_sources.simps)
    next
      case (Some a)
      with assms Inr \<open>rq_auth_realm req = Some realm\<close> that(3) [OF Inr] show ?thesis
        by (cases prior; cases uv) (auto simp: download_locked_with_def Let_def simp del: try_sources.simps)
    qed
  qed
qed

lemma download_with_error:
  assumes "download_locked_with H C k req uv w = (Inl e, w')" "valid_key k"
  shows "(\<forall>j. valid_key j \<longrightarrow> same_meta (c_store C) w w' j) \<and>
    ((\<exists>q x. e = Io q x) \<or> same_entries (c_store C) w w')"
  using assms(1)
proof (cases rule: download_with_cases)
  case (3 prior cond auth)
  show ?thesis by (rule try_sources_error [OF 3(2) assms(2)])
qed (auto simp: same_meta_def)

lemma download_error:
  assumes "download_locked H C k req w = (Inl e, w')" "valid_key k"
  shows "(\<forall>j. valid_key j \<longrightarrow> same_meta (c_store C) w w' j) \<and>
    ((\<exists>q x. e = Io q x) \<or> same_entries (c_store C) w w')"
proof -
  obtain r1 w1 where d: "download_locked_with H C k req True w = (r1, w1)" by force
  show ?thesis
  proof (cases "\<exists>j d. r1 = Inl (Integrity j d) \<and> starts_with ''304 Not Modified'' d")
    case True
    then obtain j d' where jd: "r1 = Inl (Integrity j d')" "starts_with ''304 Not Modified'' d'" by blast
    with d assms have again: "download_locked_with H C k req False w1 = (Inl e, w')"
      by (simp add: download_locked_def)
    from download_with_error [OF d [unfolded jd(1)] assms(2)] have same: "same_entries (c_store C) w w1"
      by simp
    from download_with_error [OF again assms(2)] same_metas_trans [OF same] same_entries_trans [OF same]
    show ?thesis by blast
  next
    case False
    with d assms have "r1 = Inl e \<and> w1 = w'"
      by (auto simp: download_locked_def split: sum.splits error.splits if_splits)
    with download_with_error d assms show ?thesis by blast
  qed
qed

lemma download_with_served:
  assumes d: "download_locked_with H C (cache_key (h_digest H) (rq_url req)) req uv w = (Inr b, w')"
    and ext: "\<forall>u\<in>set (rq_mirrors req). ext_from_url u = ext_from_url (rq_url req)"
    and sound: "entry_sound H C (rq_url req) w"
  shows "entry_served H C (rq_url req) w' b"
  using d
proof (cases rule: download_with_cases)
  case (3 prior cond auth)
  from 3(2) show ?thesis
  proof (cases rule: try_sources_cases)
    case (2 src t p fetched w1 w2 s)
    have "ext_from_url src = ext_from_url (rq_url req)" using 2(1) ext by auto
    then show ?thesis
      using commit_served [OF 2(3,2,5,6)] same_entries_meta [OF 2(4) key_ok] 3(1)
        entry_sound_same [OF 2(4) key_ok sound] by simp
  qed simp
qed simp_all

lemma download_served:
  assumes d: "download_locked H C (cache_key (h_digest H) (rq_url req)) req w = (Inr b, w')"
    and ext: "\<forall>u\<in>set (rq_mirrors req). ext_from_url u = ext_from_url (rq_url req)"
    and sound: "entry_sound H C (rq_url req) w"
  shows "entry_served H C (rq_url req) w' b"
proof -
  let ?k = "cache_key (h_digest H) (rq_url req)"
  obtain r1 w1 where d1: "download_locked_with H C ?k req True w = (r1, w1)" by force
  show ?thesis
  proof (cases r1)
    case (Inr b1)
    with d d1 have "b1 = b" "w1 = w'" by (simp_all add: download_locked_def)
    with d1 Inr download_with_served ext sound show ?thesis by blast
  next
    case (Inl e)
    with d d1 obtain j d' where jd: "e = Integrity j d'"
      and again: "download_locked_with H C ?k req False w1 = (Inr b, w')"
      by (auto simp: download_locked_def split: error.splits if_splits)
    have "same_entries (c_store C) w w1"
      using download_with_error [OF d1 [unfolded Inl jd] key_ok] by simp
    from download_with_served [OF again ext entry_sound_same [OF this key_ok sound]] show ?thesis .
  qed
qed

lemma try_hit_served:
  assumes "try_hit H C (cache_key (h_digest H) (rq_url req)) req w rv = (Inr (Some b), rv')"
    and "entry_sound H C (rq_url req) w"
  shows "entry_served H C (rq_url req) w b"
  using entry_sound_served [OF assms(2)] try_hit_Some [OF assms(1)] by simp

end

text \<open>How an online fetch ends: a hit, a hit after the lock, an error, or a download.\<close>

lemma fetch_online_cases:
  assumes "fetch_online H C k req (w, rv) = (r, w', rv')"
  obtains b where "try_hit H C k req w rv = (Inr (Some b), rv')" "r = Inr b" "w' = w"
  | e where "r = Inl e" "try_hit H C k req w rv = (Inl e, rv')" "w' = w"
  | e where "r = Inl e" "st_lock (c_store C) k w = (Inl e, w')"
  | u w1 rv1 b where "st_lock (c_store C) k w = (Inr u, w1)" "w' = w1" "r = Inr b"
      "try_hit H C k req w rv = (Inr None, rv1)" "try_hit H C k req w1 rv1 = (Inr (Some b), rv')"
  | u w1 rv1 e where "st_lock (c_store C) k w = (Inr u, w1)" "w' = w1" "r = Inl e"
      "try_hit H C k req w1 rv1 = (Inl e, rv')" "try_hit H C k req w rv = (Inr None, rv1)"
  | u w1 rv1 where "st_lock (c_store C) k w = (Inr u, w1)" "try_hit H C k req w rv = (Inr None, rv1)"
      "try_hit H C k req w1 rv1 = (Inr None, rv')" "download_locked H C k req w1 = (r, w')"
proof -
  obtain h rv1 where h: "try_hit H C k req w rv = (h, rv1)" by force
  obtain l w1 where l: "st_lock (c_store C) k w = (l, w1)" by force
  obtain h2 rv2 where h2: "try_hit H C k req w1 rv1 = (h2, rv2)" by force
  consider (err) e where "h = Inl e" | (hit) b where "h = Inr (Some b)" | (miss) "h = Inr None"
    by (cases h) auto
  then show ?thesis
  proof cases
    case err
    with assms h have "r = Inl e" "w' = w" "rv' = rv1" by (simp_all add: fetch_online_def)
    with that(2) h err show ?thesis by simp
  next
    case hit
    with assms h have "r = Inr b" "w' = w" "rv' = rv1" by (simp_all add: fetch_online_def)
    with that(1) h hit show ?thesis by simp
  next
    case miss
    show ?thesis
    proof (cases l)
      case (Inl e)
      with assms h miss l have "r = Inl e" "w' = w1" by (simp_all add: fetch_online_def)
      with that(3) l Inl show ?thesis by simp
    next
      case l': (Inr u)
      consider (err) e where "h2 = Inl e" | (hit) b where "h2 = Inr (Some b)" | (again) "h2 = Inr None"
        by (cases h2) auto
      then show ?thesis
      proof cases
        case err
        with assms h miss l l' h2 have "r = Inl e" "w' = w1" "rv' = rv2" by (simp_all add: fetch_online_def)
        with that(5) h miss l l' h2 err show ?thesis by simp
      next
        case hit
        with assms h miss l l' h2 have "r = Inr b" "w' = w1" "rv' = rv2" by (simp_all add: fetch_online_def)
        with that(4) h miss l l' h2 hit show ?thesis by simp
      next
        case again
        obtain rd wd where d: "download_locked H C k req w1 = (rd, wd)" by force
        with assms h miss l l' h2 again have "r = rd" "w' = wd" "rv' = rv2"
          by (simp_all add: fetch_online_def)
        with that(6) h miss l l' h2 again d show ?thesis by simp
      qed
    qed
  qed
qed

end
