(* ===== verification/Fetching.thy ===== *)
theory Fetching
  imports Cache
begin

text \<open>
  What callers of the cache may rely on (\<open>rust/src/cache.rs\<close>): the entry a fetch returns, what a
  failed fetch leaves, when an absence is definitive, offline mode, the 304 retry, and the recheck of
  local sources, end to end over the local store and the file transport.
\<close>

section \<open>The entry a fetch returns\<close>

lemma read_offline_Inr:
  "read_offline H C key url w = Inr b \<Longrightarrow>
     cb_key b = key \<and> st_get_blob_hinted (c_store C) key (ext_from_url url) w = Some (cb_path b) \<and>
     st_get_meta (c_store C) key w = Inr (Some (cb_manifest b))"
  by (auto simp: read_offline_def result_simps)

lemma fetch_cases:
  assumes "fetch H C req (w, rv) = (r, w', rv')"
  obtains "c_offline C" "w' = w" "rv' = rv"
      "read_offline H C (cache_key (h_digest H) (rq_url req)) (rq_url req) w = r"
  | "\<not> c_offline C" "fetch_online H C (cache_key (h_digest H) (rq_url req)) req (w, rv) = (r, w', rv')"
  using assms by (auto simp: fetch_def Let_def split: if_splits)

text \<open>
  C3: however a fetch is answered (an offline read, a hit, a hit after waiting for the lock, a
  download, a mirror, a 304), the blob it returns is the entry the store now holds for the URL's key,
  with the length and digest its manifest records, provided the entry was sound before, the peers
  holding the lock keep it so, and the mirrors share the canonical URL's extension.
\<close>

theorem fetch_serves_sound_entry:
  assumes "cache_laws C staging H"
    and "\<forall>w u w'. st_lock (c_store C) (cache_key (h_digest H) (rq_url req)) w = (Inr u, w') \<longrightarrow>
      entry_sound H C (rq_url req) w \<longrightarrow> entry_sound H C (rq_url req) w'"
    and "\<forall>u\<in>set (rq_mirrors req). ext_from_url u = ext_from_url (rq_url req)"
    and "entry_sound H C (rq_url req) w"
    and "fetch H C req (w, rv) = (Inr b, w', rv')"
  shows "entry_served H C (rq_url req) w' b"
  using assms(5)
proof (cases rule: fetch_cases)
  case 1
  with read_offline_Inr [OF 1(4)] entry_sound_served [OF assms(4)] show ?thesis by simp
next
  case 2
  from 2(2) show ?thesis
  proof (cases rule: fetch_online_cases)
    case (1 b')
    with cache_laws.try_hit_served [OF assms(1) _ assms(4)] show ?thesis by simp
  next
    case (4 u w1 rv1 b')
    with assms(2,4) have "entry_sound H C (rq_url req) w1" by blast
    with 4 cache_laws.try_hit_served [OF assms(1)] show ?thesis by simp
  next
    case (6 u w1 rv1)
    with assms(2,4) have "entry_sound H C (rq_url req) w1" by blast
    with 6 cache_laws.download_served [OF assms(1) _ assms(3)] show ?thesis by simp
  qed simp_all
qed

section \<open>What a failed fetch leaves\<close>

lemma verify_integrity_error:
  "verify_integrity H key p m w = Inl e \<Longrightarrow>
     (\<exists>q x. e = Io q x) \<or> (\<exists>k d. e = Integrity k d \<and> \<not> starts_with ''304 Not Modified'' d)"
  by (auto simp: verify_integrity_def split: sum.splits if_splits)

lemma try_hit_error:
  "try_hit H C key req w rv = (Inl e, rv') \<Longrightarrow>
     st_get_meta (c_store C) key w = Inl e \<or> (\<exists>p m. verify_integrity H key p m w = Inl e)"
  by (auto simp: try_hit_def Let_def split: option.splits sum.splits cache_decision.splits
      prod.splits if_splits)

text \<open>
  C6: a fetch that fails leaves every manifest of the store as it found it (as the peers left it,
  once it holds the lock), and unless the failure is one of the store's own I/O errors every blob
  too: a transport's failure, a checksum mismatch or a refused 304 commits nothing.
\<close>

theorem failed_fetch_keeps_entries:
  assumes "cache_laws C staging H" and "fetch H C req (w, rv) = (Inl e, w', rv')"
  shows "\<exists>w1\<in>{w, snd (st_lock (c_store C) (cache_key (h_digest H) (rq_url req)) w)}.
    (\<forall>j. valid_key j \<longrightarrow> same_meta (c_store C) w1 w' j) \<and>
    ((\<exists>p x. e = Io p x) \<or> same_entries (c_store C) w1 w')"
  using assms(2)
proof (cases rule: fetch_cases)
  case 1
  then show ?thesis by (auto simp: same_meta_def)
next
  case 2
  have refl: "\<And>v j. same_meta (c_store C) v v j" by (simp add: same_meta_def)
  from 2(2) show ?thesis
  proof (cases rule: fetch_online_cases)
    case (6 u w1 rv1)
    have "(\<forall>j. valid_key j \<longrightarrow> same_meta (c_store C) w1 w' j) \<and>
        ((\<exists>p x. e = Io p x) \<or> same_entries (c_store C) w1 w')"
      using cache_laws.download_error [OF assms(1) 6(4) cache_laws.key_ok [OF assms(1)]] .
    with 6(1) show ?thesis by simp
  qed (auto simp: refl)
qed

section \<open>A definitive absence\<close>

text \<open>
  The sources a fetch asked in vain. \<open>source_failures\<close> follows one pass over the sources through the
  worlds in which they are asked and lists each source that failed with its error; it stops at a
  source that answered, at a bad URL and where no staging file could be made. \<open>pass_failures\<close> gives
  the pass of \<open>download_locked_with\<close> its validators and credentials, and \<open>fetch_failures\<close> is the
  last pass a fetch made, none if it made none.
\<close>

fun source_failures ::
    "'r cache \<Rightarrow> conditional \<Rightarrow> resolver option \<Rightarrow> string list \<Rightarrow> 'r world \<Rightarrow> (string \<times> error) list" where
  "source_failures C cond auth [] w = []"
| "source_failures C cond auth (src # srcs) w =
     (case scheme_of src of
        Inl e \<Rightarrow> []
      | Inr s \<Rightarrow>
          (case transport_get (c_transports C) (ascii_lower s) of
             None \<Rightarrow> (src, UnknownScheme (ascii_lower s) src) # source_failures C cond auth srcs w
           | Some t \<Rightarrow>
               (case st_new_staging (c_store C) w of
                  (Inl e, w) \<Rightarrow> []
                | (Inr p, w) \<Rightarrow>
                    (case fetch_hashed t src p cond auth w of
                       (Inr fetched, w) \<Rightarrow> []
                     | (Inl e, w) \<Rightarrow>
                         (src, e) # source_failures C cond auth srcs (st_drop_staging (c_store C) p w)))))"

definition pass_failures ::
    "'r cache \<Rightarrow> string \<Rightarrow> fetch_request \<Rightarrow> bool \<Rightarrow> 'r world \<Rightarrow> (string \<times> error) list" where
  "pass_failures C key req use_validators w =
     (case (st_get_meta (c_store C) key w,
            case rq_auth_realm req of
              None \<Rightarrow> Some None
            | Some realm \<Rightarrow> map_option Some (auth_get (c_auth C) realm)) of
        (Inr prior, Some auth) \<Rightarrow>
          source_failures C
            (case prior of
               Some m \<Rightarrow>
                 if use_validators then \<lparr>cd_etag = m_etag m, cd_last_modified = m_last_modified m\<rparr>
                 else no_conditional
             | None \<Rightarrow> no_conditional)
            auth (rq_url req # rq_mirrors req) w
      | _ \<Rightarrow> [])"

definition download_failures ::
    "host \<Rightarrow> 'r cache \<Rightarrow> string \<Rightarrow> fetch_request \<Rightarrow> 'r world \<Rightarrow> (string \<times> error) list" where
  "download_failures H C key req w =
     (case download_locked_with H C key req True w of
        (Inl (Integrity k detail), w') \<Rightarrow>
          if starts_with ''304 Not Modified'' detail then pass_failures C key req False w'
          else pass_failures C key req True w
      | _ \<Rightarrow> pass_failures C key req True w)"

definition fetch_failures ::
    "host \<Rightarrow> 'r cache \<Rightarrow> fetch_request \<Rightarrow> 'r world \<times> revalidator \<Rightarrow> (string \<times> error) list" where
  "fetch_failures H C req st =
     (let (w, rv) = st; key = cache_key (h_digest H) (rq_url req) in
      if c_offline C then []
      else case try_hit H C key req w rv of
        (Inr None, rv) \<Rightarrow>
          (case st_lock (c_store C) key w of
             (Inr u, w) \<Rightarrow>
               (case try_hit H C key req w rv of
                  (Inr None, rv) \<Rightarrow> download_failures H C key req w
                | _ \<Rightarrow> [])
           | _ \<Rightarrow> [])
      | _ \<Rightarrow> [])"

text \<open>How a run that tried its sources ended, seen from the failures: all of them failed, or the
  error, if there is one, is none that a source reported.\<close>

definition all_failed :: "fetch_request \<Rightarrow> (string \<times> error) list \<Rightarrow> bool" where
  "all_failed req fs \<longleftrightarrow> map fst fs = rq_url req # rq_mirrors req"

definition pass_error :: "error \<Rightarrow> bool" where
  "pass_error e \<longleftrightarrow> (\<forall>url d. e \<noteq> NotFound url d) \<and> (\<forall>u d b. e \<noteq> AllMirrorsFailed u d b)"

definition ends_as :: "fetch_request \<Rightarrow> (string \<times> error) list \<Rightarrow> cached_blob result \<Rightarrow> bool" where
  "ends_as req fs r \<longleftrightarrow>
     (if all_failed req fs
      then r = Inl (AllMirrorsFailed (rq_url req) (error_text (snd (last fs))) (list_all (is_not_found \<circ> snd) fs))
      else \<forall>e. r = Inl e \<longrightarrow> pass_error e)"

lemma pass_error_simps [simp]:
  "pass_error (Io p x)" "pass_error (Integrity k d)" "pass_error (BadUrl u d)" "pass_error (MissingAuth a)"
  "pass_error (ManifestError d)" "pass_error (CacheMiss u k)"
  "\<not> pass_error (AllMirrorsFailed u d b)" "\<not> pass_error (NotFound u d)"
  by (simp_all add: pass_error_def)

lemma ends_as_none [simp]: "ends_as req [] r \<longleftrightarrow> (\<forall>e. r = Inl e \<longrightarrow> pass_error e)"
  by (simp add: ends_as_def all_failed_def)

context cache_laws
begin

lemma try_sources_failures:
  assumes "valid_key k" "try_sources H C k req cond auth prior srcs le att nf w = (r, w')"
  shows "if map fst (source_failures C cond auth srcs w) = srcs
    then r = Inl (AllMirrorsFailed (rq_url req)
        (case source_failures C cond auth srcs w of
           [] \<Rightarrow> (case le of None \<Rightarrow> ''no sources'' | Some e \<Rightarrow> error_text e)
         | f # fs \<Rightarrow> error_text (snd (last (f # fs))))
        ((att \<or> srcs \<noteq> []) \<and> nf \<and> list_all (is_not_found \<circ> snd) (source_failures C cond auth srcs w)))
    else \<forall>e. r = Inl e \<longrightarrow> pass_error e"
  using assms(2)
proof (induction srcs arbitrary: le att nf w)
  case Nil
  then show ?case by auto
next
  case (Cons src srcs)
  show ?case
  proof (cases "scheme_of src")
    case (Inl e)
    then have "\<exists>u d. e = BadUrl u d" by (auto simp: scheme_of_def split: option.splits if_splits)
    with Inl Cons.prems show ?thesis by auto
  next
    case s: (Inr s)
    show ?thesis
    proof (cases "transport_get (c_transports C) (ascii_lower s)")
      case None
      with s Cons.prems have "try_sources H C k req cond auth prior srcs
          (Some (UnknownScheme (ascii_lower s) src)) True False w = (r, w')" by simp
      from Cons.IH [OF this] None s show ?thesis by (auto split: list.splits if_splits)
    next
      case t: (Some t)
      obtain rn w0 where n: "st_new_staging (c_store C) w = (rn, w0)" by force
      show ?thesis
      proof (cases rn)
        case (Inl e)
        with store_errors [of k w e w0] s t n Cons.prems show ?thesis by auto
      next
        case (Inr p)
        obtain rf w1 where f: "fetch_hashed t src p cond auth w0 = (rf, w1)" by force
        show ?thesis
        proof (cases rf)
          case rf: (Inr fetched)
          have c: "commit_result H C k req src fetched prior p w1 = (r, w')"
            using s t n Inr f rf Cons.prems by simp
          have "pass_error e" if "r = Inl e" for e
            using commit_error [OF transports [OF t] staging_path [OF n [unfolded Inr]] f [unfolded rf]
                assms(1) c [unfolded that]] by auto
          with s t n Inr f rf show ?thesis by simp
        next
          case rf: (Inl e)
          from rf s t n Inr f Cons.prems have "try_sources H C k req cond auth prior srcs
              (Some e) True (nf \<and> is_not_found e) (st_drop_staging (c_store C) p w1) = (r, w')" by simp
          from Cons.IH [OF this] rf s t n Inr f show ?thesis
            by (auto split: list.splits if_splits)
        qed
      qed
    qed
  qed
qed

lemma download_with_ends_as:
  assumes "valid_key k" "download_locked_with H C k req uv w = (r, w')"
  shows "ends_as req (pass_failures C k req uv w) r"
proof (cases "st_get_meta (c_store C) k w")
  case (Inl e)
  with assms(2) get_meta_errors [OF Inl] show ?thesis
    by (auto simp: download_locked_with_def pass_failures_def)
next
  case meta: (Inr prior)
  show ?thesis
  proof (cases "case rq_auth_realm req of None \<Rightarrow> Some None | Some realm \<Rightarrow> map_option Some (auth_get (c_auth C) realm)")
    case None
    with meta assms(2) show ?thesis
      by (auto simp: download_locked_with_def pass_failures_def Let_def split: option.splits)
  next
    case (Some auth)
    let ?cond = "case prior of Some m \<Rightarrow>
        if uv then \<lparr>cd_etag = m_etag m, cd_last_modified = m_last_modified m\<rparr> else no_conditional
      | None \<Rightarrow> no_conditional"
    have "(case rq_auth_realm req of None \<Rightarrow> Inr None
        | Some realm \<Rightarrow> map_sum id Some (ok_or (MissingAuth realm) (auth_get (c_auth C) realm))) = Inr auth"
      using Some by (auto simp: result_simps split: option.splits)
    with meta assms(2) have "try_sources H C k req ?cond auth prior (rq_url req # rq_mirrors req)
        None False True w = (r, w')"
      by (simp add: download_locked_with_def Let_def del: try_sources.simps)
    from try_sources_failures [OF assms(1) this] Some meta show ?thesis
      by (auto simp: ends_as_def all_failed_def pass_failures_def simp del: source_failures.simps
          split: list.splits)
  qed
qed

lemma download_ends_as:
  assumes "valid_key k" "download_locked H C k req w = (r, w')"
  shows "ends_as req (download_failures H C k req w) r"
proof -
  obtain r1 w1 where d: "download_locked_with H C k req True w = (r1, w1)" by force
  note first = download_with_ends_as [OF assms(1) d]
  show ?thesis
  proof (cases "\<exists>i x. r1 = Inl (Integrity i x) \<and> starts_with ''304 Not Modified'' x")
    case True
    with d assms(2) have "download_locked_with H C k req False w1 = (r, w')"
      by (auto simp: download_locked_def)
    from download_with_ends_as [OF assms(1) this] True d show ?thesis
      by (auto simp: download_failures_def)
  next
    case False
    with d assms(2) have "r1 = r" "download_failures H C k req w = pass_failures C k req True w"
      by (auto simp: download_locked_def download_failures_def split: sum.splits error.splits if_splits)
    with first show ?thesis by simp
  qed
qed

end

lemma fetch_ends_as:
  assumes "cache_laws C staging H" and "fetch H C req (w, rv) = (r, w', rv')"
  shows "ends_as req (fetch_failures H C req (w, rv)) r"
proof -
  let ?k = "cache_key (h_digest H) (rq_url req)"
  note k = cache_laws.key_ok [OF assms(1), of "rq_url req"]
  note store = cache_laws.axioms(1) [OF assms(1)]
  have nv: "verify_integrity H ?k p m v = Inl e \<Longrightarrow> pass_error e" for p m v e
    using verify_integrity_error by force
  have nm: "st_get_meta (c_store C) ?k v = Inl e \<Longrightarrow> pass_error e" for v e
    using blob_store.get_meta_errors [OF store] by force
  have nh: "try_hit H C ?k req v x = (Inl e, y) \<Longrightarrow> pass_error e" for v x y e
    using try_hit_error nv nm by blast
  have nl: "st_lock (c_store C) ?k v = (Inl e, v') \<Longrightarrow> pass_error e" for v v' e
    using blob_store.store_errors [OF store] by force
  from assms(2) show ?thesis
  proof (cases rule: fetch_cases)
    case 1
    have "pass_error e" if "r = Inl e" for e
      using 1(4) that nm nv by (auto simp: read_offline_def result_simps split: if_splits)
    with 1(1) show ?thesis by (simp add: fetch_failures_def)
  next
    case 2
    from 2(2) show ?thesis
    proof (cases rule: fetch_online_cases)
      case (6 u w1 rv1)
      with cache_laws.download_ends_as [OF assms(1) k 6(4)] 2(1) show ?thesis
        by (simp add: fetch_failures_def Let_def)
    qed (use 2(1) nh nl in \<open>auto simp: fetch_failures_def Let_def split: sum.splits option.splits prod.splits\<close>)
  qed
qed

text \<open>
  C7: when a fetch ends in the failure of all sources, the canonical URL and every mirror were asked
  in order and failed, the text is the last one's, and the flag is set exactly when each of their
  errors was an absence: a scheme without a transport, a refused connection or a timeout anywhere
  among them leaves the question open. And when the error of a fetch reads as an absence, either all
  sources were asked and reported it, or it is an I/O error of the store's own files with kind "not
  found", in a run in which not every source was asked in vain.
\<close>

theorem absence_exact:
  assumes "cache_laws C staging H" and "fetch H C req (w, rv) = (Inl e, w', rv')"
  shows "let fs = fetch_failures H C req (w, rv);
             asked = map fst fs = rq_url req # rq_mirrors req;
             absent = list_all (is_not_found \<circ> snd) fs
    in ((\<exists>u d b. e = AllMirrorsFailed u d b) \<longleftrightarrow> asked) \<and>
       (asked \<longrightarrow> e = AllMirrorsFailed (rq_url req) (error_text (snd (last fs))) absent) \<and>
       (is_not_found e \<longleftrightarrow>
          asked \<and> absent \<or> \<not> asked \<and> (\<exists>p x. e = Io p x \<and> io_kind x = IoNotFound))"
proof -
  note ends = fetch_ends_as [OF assms]
  show ?thesis
  proof (cases "all_failed req (fetch_failures H C req (w, rv))")
    case True
    with ends show ?thesis by (simp add: ends_as_def all_failed_def Let_def)
  next
    case False
    with ends have "pass_error e" by (simp add: ends_as_def)
    with False show ?thesis
      by (cases e) (simp_all add: all_failed_def Let_def)
  qed
qed

section \<open>The 304 retry and the declared checksum\<close>

definition downloads_unconditionally :: "'r cache \<Rightarrow> bool" where
  "downloads_unconditionally C \<longleftrightarrow>
     (\<forall>s t url dest auth w res sha w'. transport_get (c_transports C) s = Some t \<longrightarrow>
        fetch_hashed t url dest no_conditional auth w = (Inr (res, sha), w') \<longrightarrow> fr_status res = Downloaded)"

definition never_not_modified :: "'r cache \<Rightarrow> bool" where
  "never_not_modified C \<longleftrightarrow>
     (\<forall>s t url dest cond auth w res sha w'. transport_get (c_transports C) s = Some t \<longrightarrow>
        fetch_hashed t url dest cond auth w = (Inr (res, sha), w') \<longrightarrow> fr_status res = Downloaded)"

context cache_laws
begin

text \<open>How a pass ends when the source that answered sent bytes.\<close>

lemma commit_of_download:
  assumes "staged_transport (c_store C) staging (h_digest H) t" "staging p"
    and "fetch_hashed t src p cond auth w1 = (Inr (res, sha), w2)" "fr_status res = Downloaded"
    and "commit_result H C k req src (res, sha) prior p w2 = (r, w')"
  shows "r = Inl (Integrity j d) \<Longrightarrow> \<not> starts_with ''304 Not Modified'' d"
    and "r = Inr b \<Longrightarrow> rq_checksum req = Some e \<Longrightarrow> eq_ignore_case e (m_sha256_content (cb_manifest b))"
proof -
  obtain bytes where bytes: "file_bytes w2 p = Some bytes"
      "\<forall>h. sha = Some h \<longrightarrow> h = sha256_hex (h_digest H) bytes"
    using staged_transport.fetch_downloads [OF assms(1,2,3,4)] by blast
  from assms(5,4) bytes have
    "(r = Inl (Integrity j d) \<longrightarrow> \<not> starts_with ''304 Not Modified'' d) \<and>
     (r = Inr b \<longrightarrow> rq_checksum req = Some e \<longrightarrow> eq_ignore_case e (m_sha256_content (cb_manifest b)))"
  proof (cases rule: commit_downloaded)
    case (2 e')
    with store_errors [of k w2 e' w'] show ?thesis by auto
  next
    case (3 path w3 e' m)
    with store_errors [of k w3 e' w'] show ?thesis by auto
  qed auto
  then show "r = Inl (Integrity j d) \<Longrightarrow> \<not> starts_with ''304 Not Modified'' d"
    and "r = Inr b \<Longrightarrow> rq_checksum req = Some e \<Longrightarrow> eq_ignore_case e (m_sha256_content (cb_manifest b))"
    by blast+
qed

lemma download_unconditional_error:
  assumes "downloads_unconditionally C"
    and "download_locked_with H C k req False w = (Inl (Integrity j d), w')"
  shows "\<not> starts_with ''304 Not Modified'' d"
  using assms(2)
proof (cases rule: download_with_cases)
  case (2 e)
  with get_meta_errors [OF 2(3)] show ?thesis by auto
next
  case (3 prior cond auth)
  from 3(2) show ?thesis
  proof (cases rule: try_sources_cases)
    case (2 src t p fetched w1 w2 s)
    obtain res sha where f: "fetched = (res, sha)" by force
    have dl: "fr_status res = Downloaded"
      using assms(1) 2(5,7) 3(3) f unfolding downloads_unconditionally_def by blast
    show ?thesis
      using commit_of_download(1) [OF 2(3,2) 2(5) [unfolded f] dl 2(6) [unfolded f] refl] .
  qed simp
qed simp

lemma download_locked_error:
  assumes "downloads_unconditionally C"
    and "download_locked H C k req w = (Inl (Integrity j d), w')"
  shows "\<not> starts_with ''304 Not Modified'' d"
proof -
  obtain r1 w1 where d: "download_locked_with H C k req True w = (r1, w1)" by force
  show ?thesis
  proof (cases "\<exists>i x. r1 = Inl (Integrity i x) \<and> starts_with ''304 Not Modified'' x")
    case True
    with d assms(2) have "download_locked_with H C k req False w1 = (Inl (Integrity j d), w')"
      by (auto simp: download_locked_def)
    then show ?thesis by (rule download_unconditional_error [OF assms(1)])
  next
    case False
    with d assms(2) show ?thesis
      by (auto simp: download_locked_def split: sum.splits error.splits if_splits)
  qed
qed

lemma download_with_checksum:
  assumes "never_not_modified C" "rq_checksum req = Some e"
    and "download_locked_with H C k req uv w = (Inr b, w')"
  shows "eq_ignore_case e (m_sha256_content (cb_manifest b))"
  using assms(3)
proof (cases rule: download_with_cases)
  case (3 prior cond auth)
  from 3(2) show ?thesis
  proof (cases rule: try_sources_cases)
    case (2 src t p fetched w1 w2 s)
    obtain res sha where f: "fetched = (res, sha)" by force
    have dl: "fr_status res = Downloaded"
      using assms(1) 2(5,7) f unfolding never_not_modified_def by blast
    show ?thesis
      using commit_of_download(2) [OF 2(3,2) 2(5) [unfolded f] dl 2(6) [unfolded f] refl assms(2)] .
  qed simp
qed simp_all

lemma download_checksum:
  assumes "never_not_modified C" "rq_checksum req = Some e"
    and "download_locked H C k req w = (Inr b, w')"
  shows "eq_ignore_case e (m_sha256_content (cb_manifest b))"
proof -
  obtain r1 w1 where d: "download_locked_with H C k req True w = (r1, w1)" by force
  have "(r1 = Inr b \<and> w1 = w') \<or> download_locked_with H C k req False w1 = (Inr b, w')"
    using assms(3) d by (cases r1; cases "projl r1") (auto simp: download_locked_def split: if_splits)
  then show ?thesis using download_with_checksum [OF assms(1,2)] d by blast
qed

end

lemma hit_checksum:
  "try_hit H C key req w rv = (Inr (Some b), rv') \<Longrightarrow> rq_checksum req = Some e \<Longrightarrow>
     eq_ignore_case e (m_sha256_content (cb_manifest b))"
  using try_hit_Some [of H C key req w rv b rv'] by (auto simp: decide_def decide_at_def split: if_splits)

text \<open>
  An entry whose blob was pruned while its validators survived is never stuck: as long as the
  transports answer an unconditional request with bytes, no fetch ends in the error of a 304 with
  nothing to serve.
\<close>

theorem no_dangling_304:
  fixes C :: "'r cache"
  assumes "cache_laws C staging H" and "downloads_unconditionally C"
    and "fetch H C req (w, rv) = (Inl (Integrity j d), w', rv')"
  shows "\<not> starts_with ''304 Not Modified'' d"
proof -
  let ?k = "cache_key (h_digest H) (rq_url req)"
  note st = cache_laws.axioms(1) [OF assms(1)]
  have nv: "verify_integrity H ?k p m v = Inl (Integrity j d) \<Longrightarrow> ?thesis" for p m and v :: "'r world"
    using verify_integrity_error by blast
  have nm: "st_get_meta (c_store C) ?k v \<noteq> Inl (Integrity j d)" for v
    using blob_store.get_meta_errors [OF st] by blast
  have nh: "try_hit H C ?k req v x = (Inl (Integrity j d), y) \<Longrightarrow> ?thesis" for v x y
    using try_hit_error nv nm by blast
  have nl: "st_lock (c_store C) ?k v \<noteq> (Inl (Integrity j d), v')" for v v'
    using blob_store.store_errors [OF st] by blast
  from assms(3) show ?thesis
  proof (cases rule: fetch_cases)
    case 1
    then show ?thesis using nm nv by (auto simp: read_offline_def result_simps split: if_splits option.splits)
  next
    case 2
    from 2(2) show ?thesis
    proof (cases rule: fetch_online_cases)
      case (6 u' w1 rv1)
      from cache_laws.download_locked_error [OF assms(1,2) 6(4)] show ?thesis .
    qed (use nh nl in auto)
  qed
qed

text \<open>
  C8: over transports that send bytes, an online fetch that declares a checksum returns a blob with
  that checksum: a warm entry with another digest is not a hit, and a download with another digest is
  refused.
\<close>

theorem checksum_enforced:
  assumes "cache_laws C staging H" and "never_not_modified C"
    and "\<not> c_offline C" and "rq_checksum req = Some e"
    and "fetch H C req (w, rv) = (Inr b, w', rv')"
  shows "eq_ignore_case e (m_sha256_content (cb_manifest b))"
  using assms(5)
proof (cases rule: fetch_cases)
  case 1
  with assms(3) show ?thesis by simp
next
  case 2
  from 2(2) show ?thesis
  proof (cases rule: fetch_online_cases)
    case (6 u w1 rv1)
    from cache_laws.download_checksum [OF assms(1,2,4) 6(4)] show ?thesis .
  qed (use hit_checksum assms(4) in auto)
qed

section \<open>Offline\<close>

text \<open>
  An offline cache is built with no transport at all, its fetch changes neither the world nor
  the memo, an entry without its blob or without its manifest is a cache miss naming the URL and the
  key, and what it returns is in the store, re-hashed when it verifies on read.
\<close>

theorem offline_reads_only:
  assumes "build H mk_local builtins bld = Inr (C, rv0)" and "is_offline (h_env H) (bd_offline bld)"
  shows "c_transports C = [] \<and> snd (fetch H C req (w, rv)) = (w, rv) \<and>
    (st_get_blob_hinted (c_store C) (cache_key (h_digest H) (rq_url req)) (ext_from_url (rq_url req)) w = None \<or>
     st_get_meta (c_store C) (cache_key (h_digest H) (rq_url req)) w = Inr None \<longrightarrow>
     fst (fetch H C req (w, rv)) = Inl (CacheMiss (rq_url req) (cache_key (h_digest H) (rq_url req)))) \<and>
    (\<forall>b. fst (fetch H C req (w, rv)) = Inr b \<longrightarrow>
       st_get_meta (c_store C) (cb_key b) w = Inr (Some (cb_manifest b)) \<and>
       (bd_verify_on_read bld \<longrightarrow>
         (\<exists>bytes. file_bytes w (cb_path b) = Some bytes \<and> bytes_match H (cb_manifest b) bytes)))"
proof -
  from assms have C: "c_offline C" "c_transports C = []" "c_verify_on_read C = bd_verify_on_read bld"
    by (auto simp: build_def Let_def result_simps)
  have ver: "(\<exists>bytes. file_bytes w p = Some bytes \<and> bytes_match H m bytes)"
    if "verify_integrity H k p m w = Inr u" for k p m u
    using that by (auto simp: verify_integrity_def sha256_file_def fs_read_def fs_len_def
        file_bytes_def bytes_match_def fs_node_Inr split: sum.splits node.splits if_splits)
  let ?k = "cache_key (h_digest H) (rq_url req)"
  have f: "fetch H C req (w, rv) = (read_offline H C ?k (rq_url req) w, w, rv)"
    using C(1) by (simp add: fetch_def Let_def)
  have r: "st_get_meta (c_store C) (cb_key b) w = Inr (Some (cb_manifest b)) \<and>
       (bd_verify_on_read bld \<longrightarrow>
         (\<exists>bytes. file_bytes w (cb_path b) = Some bytes \<and> bytes_match H (cb_manifest b) bytes))"
    if "read_offline H C ?k (rq_url req) w = Inr b" for b
    using that ver C(3) read_offline_Inr [OF that]
    by (auto simp: read_offline_def result_simps split: if_splits)
  have m: "read_offline H C ?k (rq_url req) w = Inl (CacheMiss (rq_url req) ?k)"
    if "st_get_blob_hinted (c_store C) ?k (ext_from_url (rq_url req)) w = None \<or>
      st_get_meta (c_store C) ?k w = Inr None"
    using that by (cases "st_get_blob_hinted (c_store C) ?k (ext_from_url (rq_url req)) w")
      (auto simp: read_offline_def)
  show ?thesis using f r m C(2) by simp
qed

end
