(* ===== verification/LocalFiles.thy ===== *)
theory LocalFiles
  imports Fetching
begin

text \<open>
  A cache over the local store with the file transport, on a host where the store's directories are
  accessible: every operation of \<open>rust/src/store/local.rs\<close> succeeds there, sources outside the root
  are left alone, and a fetch of a \<open>file://\<close> URL returns the bytes its source has now.
\<close>

section \<open>A healthy store\<close>

definition layout_dir :: "string \<Rightarrow> string \<Rightarrow> bool" where
  "layout_dir root d \<longleftrightarrow>
     d = meta_dir root \<or> d = tmp_dir root \<or> d = lock_dir root \<or> (\<exists>k. valid_key k \<and> d = fanout_dir root k)"

text \<open>Nothing is inaccessible, no file stands where the layout has a directory, no directory where
  it has a file.\<close>

definition healthy :: "string \<Rightarrow> 'r world \<Rightarrow> bool" where
  "healthy root w \<longleftrightarrow>
     (\<forall>p. fault w p = None) \<and>
     (\<forall>d p b mt. layout_dir root d \<longrightarrow> p \<in> set (path_prefixes [] d) \<longrightarrow>
        map_of (nodes w) p \<noteq> Some (FileNode b mt)) \<and>
     (\<forall>p. map_of (nodes w) p = Some DirNode \<longrightarrow> starts_with (vdir root) p \<longrightarrow>
        (\<exists>d s. layout_dir root d \<and> d = p @ s))"

definition file_path :: "string \<Rightarrow> string \<Rightarrow> bool" where
  "file_path root f \<longleftrightarrow> starts_with (vdir root) f \<and> \<not> (\<exists>d s. layout_dir root d \<and> d = f @ s)"

definition local_ok :: "string \<Rightarrow> 'r world \<Rightarrow> 'r world \<Rightarrow> bool" where
  "local_ok root w w' \<longleftrightarrow>
     healthy root w' \<and> clock w' = clock w \<and>
     (\<forall>p b t. \<not> starts_with (vdir root) p \<longrightarrow> map_of (nodes w) p = Some (FileNode b t) \<longrightarrow>
        map_of (nodes w') p = Some (FileNode b t))"

lemma local_ok_trans: "local_ok root w w' \<Longrightarrow> local_ok root w' w'' \<Longrightarrow> local_ok root w w''"
  by (simp add: local_ok_def)

lemma local_ok_refl: "healthy root w \<Longrightarrow> local_ok root w w"
  by (simp add: local_ok_def)

lemma local_ok_healthy: "local_ok root w w' \<Longrightarrow> healthy root w'"
  by (simp add: local_ok_def)

lemma file_path_put:
  assumes "healthy root w" "file_path root f"
  shows "local_ok root w (w\<lparr>nodes := al_put f (FileNode b t) (nodes w)\<rparr>)"
proof -
  have "\<not> (\<exists>d. layout_dir root d \<and> f \<in> set (path_prefixes [] d))"
    using assms(2) path_prefixes_prefix [of f "[]"] by (fastforce simp: file_path_def)
  with assms show ?thesis by (auto simp: local_ok_def healthy_def file_path_def)
qed

lemma file_path_del:
  assumes "healthy root w" "file_path root f"
  shows "local_ok root w (w\<lparr>nodes := al_del f (nodes w)\<rparr>)"
  using assms by (auto simp: local_ok_def healthy_def file_path_def split: if_splits)

lemma file_path_node:
  "healthy root w \<Longrightarrow> file_path root f \<Longrightarrow> map_of (nodes w) f \<noteq> Some DirNode \<and> fault w f = None"
  unfolding healthy_def file_path_def by blast

lemma fs_write_ok:
  assumes "healthy root w" "file_path root f" "int (length b) \<le> u64_max"
  obtains w' where "fs_write f b w = (Inr (), w')" "local_ok root w w'" "file_bytes w' f = Some b"
  using file_path_node [OF assms(1,2)] file_path_put [OF assms(1,2), of b "Some (clock w)"] assms(3)
  by (auto simp: fs_write_def file_bytes_def)

lemma fs_rename_ok:
  assumes "healthy root w" "file_path root a" "file_path root f" "file_bytes w a = Some b"
  obtains w' where "fs_rename a f w = (Inr (), w')" "local_ok root w w'"
proof -
  obtain t where a: "map_of (nodes w) a = Some (FileNode b t)" using file_bytes_Some [OF assms(4)] by blast
  let ?w1 = "w\<lparr>nodes := al_del a (nodes w)\<rparr>"
  have "fs_rename a f w = (Inr (), ?w1\<lparr>nodes := al_put f (FileNode b t) (nodes ?w1)\<rparr>)"
    using file_path_node [OF assms(1,2)] file_path_node [OF assms(1,3)] a
    by (simp add: fs_rename_def fs_node_def)
  moreover have "local_ok root w (?w1\<lparr>nodes := al_put f (FileNode b t) (nodes ?w1)\<rparr>)"
    using file_path_del [OF assms(1,2)] file_path_put [OF local_ok_healthy assms(3), of w ?w1 b t]
    by (blast intro: local_ok_trans)
  ultimately show ?thesis by (rule that)
qed

lemma mkdirs_ok:
  assumes "\<forall>d\<in>set ds. fault w d = None \<and> (\<forall>b t. map_of (nodes w) d \<noteq> Some (FileNode b t))"
  shows "\<exists>w'. mkdirs ds w = (Inr (), w')"
  using assms by (induction ds w rule: mkdirs.induct) (auto split: option.splits node.splits)

lemma layout_dir_prefix:
  "p \<in> set (path_prefixes [] d) \<Longrightarrow> \<exists>s. d = p @ s"
  using path_prefixes_prefix [of p "[]" d] by simp

lemma layout_dirs_ok:
  assumes h: "healthy root w" and d: "layout_dir root d"
  obtains w' where "create_dir_all d w = (Inr (), w')" "local_ok root w w'"
proof -
  obtain w' where w': "mkdirs (path_prefixes [] d) w = (Inr (), w')"
    using mkdirs_ok [of "path_prefixes [] d" w] h d by (auto simp: healthy_def)
  then have c: "create_dir_all d w = (Inr (), w')" by (simp add: create_dir_all_def)
  note k = create_dir_all_keeps [OF c]
  have "map_of (nodes w') p \<noteq> Some (FileNode b mt)"
    if "layout_dir root e" "p \<in> set (path_prefixes [] e)" for e p b mt
    using that h k(1,3) [of p] unfolding healthy_def
    by (cases "map_of (nodes w) p") (force, metis node.exhaust node.distinct(1) option.inject)
  moreover have "\<exists>e s. layout_dir root e \<and> e = p @ s"
    if "map_of (nodes w') p = Some DirNode" "starts_with (vdir root) p" for p
  proof (cases "map_of (nodes w) p")
    case None
    with k(3) [of p] that d show ?thesis by auto
  next
    case (Some n)
    with k(1) [OF Some] that h show ?thesis by (auto simp: healthy_def)
  qed
  ultimately have "local_ok root w w'" using h k(1,4,5) by (auto simp: local_ok_def healthy_def)
  with c show ?thesis by (rule that)
qed

section \<open>The layout's files\<close>

lemma layout_dir_cases:
  assumes "layout_dir root d"
  obtains "d = vdir root @ ''meta''" | "d = vdir root @ ''tmp''" | "d = vdir root @ ''locks''"
  | a b where "d = vdir root @ ''blobs/'' @ [a, b]"
proof -
  have fan: "\<exists>a b. fanout_dir root k = vdir root @ ''blobs/'' @ [a, b]" if k: "valid_key k" for k
  proof -
    obtain a b r where "k = a # b # r" using valid_key_split [OF k] by metis
    then show ?thesis using layout_paths(1) [OF k, of root] by simp
  qed
  have lock: "lock_dir root = vdir root @ ''locks''" by (simp add: lock_dir_def)
  from assms consider "d = meta_dir root" | "d = tmp_dir root" | "d = lock_dir root"
    | k where "valid_key k" "d = fanout_dir root k"
    unfolding layout_dir_def by blast
  then show ?thesis
  proof cases
    case 1
    then show ?thesis using that(1) by (simp add: meta_dir_vdir)
  next
    case 2
    then show ?thesis using that(2) by (simp add: meta_dir_vdir)
  next
    case 3
    then show ?thesis using that(3) by (simp add: lock)
  next
    case (4 k)
    with fan [OF 4(1)] that(4) show ?thesis by blast
  qed
qed

lemma file_path_vdir:
  assumes "starts_with ''meta/'' x \<or> starts_with ''tmp/'' x \<or> starts_with ''locks/'' x \<or>
      (\<exists>a b y. x = ''blobs/'' @ a # b # CHR ''/'' # y)"
  shows "file_path root (vdir root @ x)"
proof -
  have "d \<noteq> vdir root @ x @ s" if "layout_dir root d" for d s
    using that by (cases rule: layout_dir_cases) (use assms in \<open>auto simp: starts_with_iff\<close>)
  then show ?thesis by (auto simp: file_path_def)
qed

lemma layout_files:
  assumes k: "valid_key k"
  shows "file_path root (meta_path root k)" and "file_path root (blob_path root k ext)"
    and "file_path root (lock_path root k)"
proof -
  obtain a b r where s: "k = a # b # r" "is_hex a" using valid_key_split [OF k] by metis
  show "file_path root (meta_path root k)"
    unfolding layout_paths(4) [OF k] by (rule file_path_vdir) simp
  show "file_path root (blob_path root k ext)"
    unfolding layout_paths(2) [OF k] by (rule file_path_vdir) (simp add: s)
  have "lock_path root k = vdir root @ ''locks/'' @ k @ ''.lock''"
    using s hex_not_sep [OF s(2)] by (simp add: lock_path_def lock_dir_def) (simp add: path_join_def)
  then show "file_path root (lock_path root k)"
    by (metis file_path_vdir starts_with_append)
qed

lemma temp_files:
  "local_staging root p \<Longrightarrow> file_path root p" "file_path root (vdir root @ ''meta/.'' @ y)"
proof -
  show "file_path root p" if p: "local_staging root p"
  proof -
    obtain t where "p = vdir root @ ''tmp/'' @ t"
      using p by (auto simp: local_staging_def starts_with_iff)
    then show ?thesis by (metis file_path_vdir starts_with_append)
  qed
  show "file_path root (vdir root @ ''meta/.'' @ y)" by (rule file_path_vdir) simp
qed

lemma layout_dirs [simp]:
  "layout_dir root (meta_dir root)" "layout_dir root (tmp_dir root)" "layout_dir root (lock_dir root)"
  "valid_key k \<Longrightarrow> layout_dir root (fanout_dir root k)"
  by (auto simp: layout_dir_def)

section \<open>A cache of local files\<close>

text \<open>Nobody else touches the cache while its lock is waited for.\<close>

definition alone :: "string \<Rightarrow> 'r world \<Rightarrow> 'r world" where
  "alone key w = w"

definition local_cache :: "host \<Rightarrow> serde_api \<Rightarrow> (string \<Rightarrow> 'r world \<Rightarrow> 'r world) \<Rightarrow> string \<Rightarrow> 'r cache" where
  "local_cache H api others root =
     \<lparr>c_store = local_store api others root,
      c_transports = transport_register (file_transport (h_env H)) [], c_auth = [],
      c_offline = False, c_verify_on_read = False, c_revalidate = True\<rparr>"

lemma key64: "(\<And>u. length (d u) = 32) \<Longrightarrow> valid_key (cache_key d url)"
  by (auto simp: cache_key_def valid_key_def list_all_iff hex_lower_hex)

lemma transport_get_nil: "transport_get [] s = None"
  by (simp add: transport_get_def)

locale local_files = serde_laws api for api +
  fixes H :: host
  assumes digest32: "length (h_digest H u) = 32"

sublocale local_files \<subseteq> files: cache_laws "local_cache H api others root" "local_staging root" H
  for others root
proof -
  have S: "c_store (local_cache H api others root) = local_store api others root"
    and T: "transport_get (c_transports (local_cache H api others root)) s = Some t \<Longrightarrow>
      t = file_transport (h_env H)" for s and t :: "'a world transport"
    by (simp_all add: local_cache_def transport_get_register transport_get_nil split: if_splits)
  show "cache_laws (local_cache H api others root) (local_staging root) H"
    unfolding cache_laws_def cache_laws_axioms_def S
    using local.blob_store_axioms local.copying.staged_transport_axioms digest32 T
    by blast
qed

section \<open>Every operation of a healthy local store succeeds\<close>

lemma temp_in_ok:
  assumes "healthy root w" "file_path root (path_join d (pre @ show_nat (fresh w) @ suf))"
  obtains p w' where "temp_in d pre suf w = (Inr p, w')" "local_ok root w w'"
    "p = path_join d (pre @ show_nat (fresh w) @ suf)"
proof -
  let ?w = "w\<lparr>fresh := Suc (fresh w)\<rparr>"
  have h: "healthy root ?w" using assms(1) by (simp add: healthy_def)
  have "int (length ([] :: string)) \<le> u64_max" by (simp add: u64_max_def)
  from fs_write_ok [OF h assms(2) this] obtain w' where
    w': "fs_write (path_join d (pre @ show_nat (fresh w) @ suf)) [] ?w = (Inr (), w')" "local_ok root ?w w'" .
  then have "temp_in d pre suf w = (Inr (path_join d (pre @ show_nat (fresh w) @ suf)), w')"
    by (simp add: temp_in_def Let_def)
  moreover have "local_ok root w w'" using w'(2) by (simp add: local_ok_def)
  ultimately show ?thesis using that by blast
qed

lemma local_lock_ok:
  assumes "healthy root w" "valid_key k"
  obtains w' where "local_lock root alone k w = (Inr (), w')" "local_ok root w w'"
proof -
  obtain w1 where d: "create_dir_all (lock_dir root) w = (Inr (), w1)" "local_ok root w w1"
    using layout_dirs_ok [OF assms(1) layout_dirs(3)] .
  note h1 = local_ok_healthy [OF d(2)] and f = layout_files(3) [OF assms(2), of root]
  have z: "int (length ([] :: string)) \<le> u64_max" by (simp add: u64_max_def)
  obtain w2 where w2: "fs_write (lock_path root k) [] w1 = (Inr (), w2)" "local_ok root w1 w2"
    using fs_write_ok [OF h1 f z] .
  show ?thesis
  proof (cases "map_of (nodes w1) (lock_path root k)")
    case None
    with d w2 file_path_node [OF h1 f] that [of w2] local_ok_trans [OF d(2) w2(2)] show ?thesis
      by (simp add: local_lock_def fs_node_def alone_def)
  next
    case (Some n)
    with d file_path_node [OF h1 f] that [of w1] show ?thesis
      by (cases n) (auto simp: local_lock_def fs_node_def alone_def)
  qed
qed

lemma local_new_staging_ok:
  assumes "healthy root w"
  obtains p w' where "local_new_staging root w = (Inr p, w')" "local_ok root w w'" "local_staging root p"
proof -
  obtain w1 where d: "create_dir_all (tmp_dir root) w = (Inr (), w1)" "local_ok root w w1"
    using layout_dirs_ok [OF assms layout_dirs(2)] .
  have "file_path root (path_join (tmp_dir root) (''dl-'' @ show_nat (fresh w1) @ ''.part''))"
    by (rule temp_files(1)) (simp add: join_tmp_dir)
  from temp_in_ok [OF local_ok_healthy [OF d(2)] this] obtain p w2 where
    t: "temp_in (tmp_dir root) ''dl-'' ''.part'' w1 = (Inr p, w2)" "local_ok root w1 w2" .
  with d have "local_new_staging root w = (Inr p, w2)" by (simp add: local_new_staging_def)
  from this local_ok_trans [OF d(2) t(2)] tmp_temp_path [OF t(1)] show ?thesis by (rule that)
qed

lemma local_commit_ok:
  assumes "healthy root w" "valid_key k" "local_staging root p" "file_bytes w p = Some b"
  obtains w' where "local_commit_blob root k p ext w = (Inr (blob_path root k ext), w')"
    "local_ok root w w'" "file_bytes w' (blob_path root k ext) = Some b"
proof -
  obtain w1 where d: "create_dir_all (fanout_dir root k) w = (Inr (), w1)" "local_ok root w w1"
    using layout_dirs_ok [OF assms(1) layout_dirs(4) [OF assms(2)]] .
  have b1: "file_bytes w1 p = Some b" using create_dir_all_keeps(2) [OF d(1)] assms(4) by simp
  obtain w2 where r: "fs_rename p (blob_path root k ext) w1 = (Inr (), w2)" "local_ok root w1 w2"
    using fs_rename_ok [OF local_ok_healthy [OF d(2)] temp_files(1) [OF assms(3)] layout_files(2) [OF assms(2)] b1] .
  have c: "local_commit_blob root k p ext w = (Inr (blob_path root k ext), w2)"
    using d r by (simp add: local_commit_blob_def)
  from local_commit_found [OF assms(2) c] assms(4)
  have "file_bytes w2 (blob_path root k ext) = Some b" by simp
  from that [OF c local_ok_trans [OF d(2) r(2)] this] show ?thesis .
qed

lemma local_put_meta_ok:
  assumes "healthy root w" "valid_key k" "int (length (to_json_bytes api m)) \<le> u64_max"
  obtains w' where "local_put_meta api root k m w = (Inr (), w')" "local_ok root w w'"
proof -
  obtain w1 where d: "create_dir_all (meta_dir root) w = (Inr (), w1)" "local_ok root w w1"
    using layout_dirs_ok [OF assms(1) layout_dirs(1)] .
  note h1 = local_ok_healthy [OF d(2)]
  have tf: "file_path root (path_join (meta_dir root) (''.meta-'' @ show_nat (fresh w1) @ ''.json.part''))"
    using temp_files(2) [of root "''meta-'' @ show_nat (fresh w1) @ ''.json.part''"] by (simp add: join_meta_dir)
  obtain p w2 where t: "temp_in (meta_dir root) ''.meta-'' ''.json.part'' w1 = (Inr p, w2)" "local_ok root w1 w2"
      "p = path_join (meta_dir root) (''.meta-'' @ show_nat (fresh w1) @ ''.json.part'')"
    using temp_in_ok [OF h1 tf] .
  obtain w3 where wr: "fs_write p (to_json_bytes api m) w2 = (Inr (), w3)" "local_ok root w2 w3"
      "file_bytes w3 p = Some (to_json_bytes api m)"
    using fs_write_ok [OF local_ok_healthy [OF t(2)] tf [folded t(3)] assms(3)] .
  obtain w4 where r: "fs_rename p (meta_path root k) w3 = (Inr (), w4)" "local_ok root w3 w4"
    using fs_rename_ok [OF local_ok_healthy [OF wr(2)] tf [folded t(3)] layout_files(1) [OF assms(2)] wr(3)] .
  have "local_put_meta api root k m w = (Inr (), w4)"
    using d t(1) wr r by (simp add: local_put_meta_def)
  moreover have "local_ok root w w4"
    using d(2) t(2) wr(2) r(2) by (blast intro: local_ok_trans)
  ultimately show ?thesis by (rule that)
qed

section \<open>The lock alone changes no entry\<close>

lemma lock_neutral:
  assumes "valid_key k"
  shows "neutral root (lock_path root k)"
    and "lock_dir root = vdir root @ ''locks''"
proof -
  obtain a r where s: "k = a # r" "is_hex a" using valid_key_split [OF assms] by metis
  have lp: "lock_path root k = vdir root @ ''locks/'' @ k @ ''.lock''"
    using s hex_not_sep [OF s(2)] by (simp add: lock_path_def lock_dir_def) (simp add: path_join_def)
  show "neutral root (lock_path root k)" by (auto simp: neutral_def lp meta_path_vdir)
  show "lock_dir root = vdir root @ ''locks''" by (simp add: lock_dir_def)
qed

lemma local_lock_same:
  assumes "local_lock root alone k w = (r, w')" "valid_key k"
  shows "store_same root w w'"
proof -
  obtain r1 w1 where d: "create_dir_all (lock_dir root) w = (r1, w1)" by force
  have m: "meta_path root j \<notin> {q. \<exists>s. vdir root @ ''locks'' = q @ s}" if "valid_key j" for j
    using that by (auto simp: meta_path_vdir)
  have s1: "store_same root w w1"
    by (rule create_dir_all_same [OF d [unfolded lock_neutral(2) [OF assms(2)]] _ m]) simp_all
  obtain r2 w2 where wr: "fs_write (lock_path root k) [] w1 = (r2, w2)" by force
  note s2 = store_same_trans [OF s1 neutral_write [OF lock_neutral(1) [OF assms(2)] wr]]
  from assms(1) d wr s1 s2 show ?thesis
    by (auto simp: local_lock_def alone_def split: sum.splits node.splits)
qed

lemma memo_ok_fs_write: "memo_ok digest w rv \<Longrightarrow> fs_write p b w = (r, w') \<Longrightarrow> memo_ok digest w' rv"
  using memo_ok_write [of digest w rv 1 p b]
  by (auto simp: fs_write_def write_source_def place_source_def racy_margin_def split: option.splits if_splits)

lemma vouches_mono:
  assumes "vouches digest w s fp" "clock w' = clock w"
    and "\<And>b t. map_of (nodes w') s = Some (FileNode b t) \<Longrightarrow> map_of (nodes w) s = Some (FileNode b t)"
  shows "vouches digest w' s fp"
  using assms by (auto simp: vouches_def)

lemma memo_ok_dirs:
  assumes "memo_ok digest w rv" "create_dir_all d w = (r, w')"
  shows "memo_ok digest w' rv"
proof -
  have "map_of (nodes w) p = Some (FileNode b t)" if "map_of (nodes w') p = Some (FileNode b t)" for p b t
    using create_dir_all_keeps(1,3) [OF assms(2), of p] that
    by (cases "map_of (nodes w) p") auto
  then show ?thesis
    using assms(1) vouches_mono [OF _ create_dir_all_keeps(5) [OF assms(2)]]
    unfolding memo_ok_def by blast
qed

lemma local_lock_memo:
  assumes "memo_ok digest w rv" "local_lock root alone k w = (r, w')"
  shows "memo_ok digest w' rv"
proof -
  obtain r1 w1 where d: "create_dir_all (lock_dir root) w = (r1, w1)" by force
  note m1 = memo_ok_dirs [OF assms(1) d]
  obtain r2 w2 where wr: "fs_write (lock_path root k) [] w1 = (r2, w2)" by force
  from assms(2) d wr m1 memo_ok_fs_write [OF m1 wr] show ?thesis
    by (auto simp: local_lock_def alone_def split: sum.splits node.splits)
qed

section \<open>Fetching a local file\<close>

text \<open>The manifest written for a local file that was ingested.\<close>

definition file_manifest :: "host \<Rightarrow> string \<Rightarrow> string \<Rightarrow> int \<Rightarrow> manifest" where
  "file_manifest H url bytes now =
     \<lparr>m_auth_realm = None, m_bytes = length bytes, m_etag = None,
      m_fetched_at = (case h_stamp H now of Some s \<Rightarrow> s | None \<Rightarrow> ''1970-01-01T00:00:00Z''),
      m_last_modified = None, m_schema = manifest_schema,
      m_sha256_content = sha256_hex (h_digest H) bytes, m_source_loader = None, m_url = url\<rparr>"

lemma ascii_lower_hex: "ascii_lower (hex_lower bs) = hex_lower bs"
proof -
  have "lower_char c = c" if "is_hex c" for c
    using that by (auto simp: is_hex_def is_digit_def lower_char_def is_upper_def)
  then have "map lower_char cs = cs" if "\<forall>c\<in>set cs. is_hex c" for cs
    using that by (induction cs) auto
  then show ?thesis using hex_lower_hex by (simp add: ascii_lower_def)
qed

lemma same_digest:
  "eq_ignore_case (sha256_hex d a) s \<Longrightarrow> eq_ignore_case (sha256_hex d b) s \<Longrightarrow> d a = d b"
  using inj_hex_lower by (auto simp: eq_ignore_case_def sha256_hex_def ascii_lower_hex)

context local_files
begin

lemma file_hit:
  fixes w :: "'r world"
  assumes src: "local_source_path (h_env H) url = Some src" "fault w src = None"
      "map_of (nodes w) src = Some (FileNode bytes mt)"
    and meta: "local_get_meta api root (cache_key (h_digest H) url) w = Inr om"
    and sound: "entry_sound H (local_cache H api alone root) url w"
    and memo: "memo_ok (h_digest H) w rv"
    and hit: "try_hit H (local_cache H api alone root) (cache_key (h_digest H) url) (request url) w rv = (r, rv')"
  shows "memo_ok (h_digest H) w rv'"
    and "r = Inr None \<or> (\<exists>b bs. r = Inr (Some b) \<and> file_bytes w (cb_path b) = Some bs \<and>
      length bs = length bytes \<and> h_digest H bs = h_digest H bytes)"
proof -
  let ?k = "cache_key (h_digest H) url" and ?C = "local_cache H api alone root :: 'r cache"
  have C: "c_store ?C = local_store api alone root" "c_revalidate ?C" "\<not> c_verify_on_read ?C"
    by (simp_all add: local_cache_def)
  have "memo_ok (h_digest H) w rv' \<and> (r = Inr None \<or> (\<exists>b bs. r = Inr (Some b) \<and>
      file_bytes w (cb_path b) = Some bs \<and> length bs = length bytes \<and> h_digest H bs = h_digest H bytes))"
  proof (cases "local_get_blob_hinted root ?k (ext_from_url url) w")
    case None
    with hit memo C show ?thesis by (simp add: try_hit_def request_def)
  next
    case (Some p)
    show ?thesis
    proof (cases om)
      case None
      with hit memo C Some meta show ?thesis by (simp add: try_hit_def request_def)
    next
      case (Some m)
      note p = \<open>local_get_blob_hinted root ?k (ext_from_url url) w = Some p\<close>
      obtain st rv1 where st: "source_check (h_digest H) src m w rv = (st, rv1)" by force
      have memo1: "memo_ok (h_digest H) w rv1" using source_check_memo_ok [OF memo, of src m] st by simp
      have v: "st = file_source_state (h_digest H) src m w"
        using source_check_verdict [OF memo, of src m] st by simp
      have d: "decide H w m None None = Hit" by (simp add: decide_def decide_at_def)
      have res: "(r, rv') = (if source_serves st [] then
          (Inr (Some \<lparr>cb_key = ?k, cb_path = p, cb_manifest = m\<rparr>), rv1) else (Inr None, rv1))"
        using hit C p meta Some src(1) st d
        by (cases "source_serves st []") (simp_all add: try_hit_def request_def Let_def)
      show ?thesis
      proof (cases "source_serves st []")
        case False
        with res memo1 show ?thesis by simp
      next
        case True
        have "st = Current"
          using True v src by (auto simp: source_serves_def file_source_state_eq stat_source_def
              fs_node_def sha256_file_def fs_read_def verdict_def split: if_splits)
        with v src have m: "length bytes = m_bytes m"
            "eq_ignore_case (sha256_hex (h_digest H) bytes) (m_sha256_content m)"
          by (auto simp: file_source_state_eq stat_source_def fs_node_def sha256_file_def fs_read_def
              verdict_def split: if_splits)
        obtain bs where bs: "file_bytes w p = Some bs" "bytes_match H m bs"
          using sound p meta Some C by (auto simp: entry_sound_def)
        with m same_digest have "length bs = length bytes" "h_digest H bs = h_digest H bytes"
          by (auto simp: bytes_match_def)
        with res True bs memo1 show ?thesis by simp
      qed
    qed
  qed
  then show "memo_ok (h_digest H) w rv'" and "r = Inr None \<or> (\<exists>b bs. r = Inr (Some b) \<and>
      file_bytes w (cb_path b) = Some bs \<and> length bs = length bytes \<and> h_digest H bs = h_digest H bytes)"
    by blast+
qed

text \<open>A download of a local file succeeds, with the bytes the source has.\<close>

lemma file_download:
  fixes w :: "'r world"
  assumes h: "healthy root w" and src: "local_source_path (h_env H) url = Some src"
      "\<not> starts_with (vdir root) src" "map_of (nodes w) src = Some (FileNode bytes mt)"
    and size: "int (length bytes) \<le> u64_max"
      "int (length (to_json_bytes api (file_manifest H url bytes (clock w)))) \<le> u64_max"
    and meta: "local_get_meta api root (cache_key (h_digest H) url) w = Inr om"
  shows "\<exists>b w'. download_locked H (local_cache H api alone root) (cache_key (h_digest H) url) (request url) w
      = (Inr b, w') \<and> file_bytes w' (cb_path b) = Some bytes"
proof -
  let ?k = "cache_key (h_digest H) url" and ?C = "local_cache H api alone root :: 'r cache"
  have k: "valid_key ?k" by (rule key64) (rule digest32)
  have C: "c_store ?C = local_store api alone root" by (simp add: local_cache_def)
  obtain sch where sch: "scheme_of url = Inr sch" "ascii_lower sch = ''file''" "file_url_to_path (h_env H) url = Inr src"
    using src(1) by (auto simp: local_source_path_def eq_ignore_case_def ascii_lower_def lower_char_def
        is_upper_def split: sum.splits if_splits)
  have t: "transport_get (c_transports ?C) ''file'' = Some (file_transport (h_env H))"
    by (simp add: local_cache_def transport_get_register file_transport_def)
  obtain p w1 where st: "local_new_staging root w = (Inr p, w1)" "local_ok root w w1" "local_staging root p"
    using local_new_staging_ok [OF h] .
  note h1 = local_ok_healthy [OF st(2)]
  have src1: "map_of (nodes w1) src = Some (FileNode bytes mt)" "fault w1 src = None"
    using st(2) src(2,3) h1 by (auto simp: local_ok_def healthy_def)
  obtain w2 where wr: "fs_write p bytes w1 = (Inr (), w2)" "local_ok root w1 w2" "file_bytes w2 p = Some bytes"
    using fs_write_ok [OF h1 temp_files(1) [OF st(3)] size(1)] .
  note h2 = local_ok_healthy [OF wr(2)]
  let ?res = "\<lparr>fr_status = Downloaded, fr_etag = None, fr_last_modified = None,
      fr_bytes_written = length bytes\<rparr>"
  have f: "fetch_hashed (file_transport (h_env H)) url p cond None w1 = (Inr (?res, None), w2)" for cond
    using sch(3) src1 wr(1)
    by (simp add: fetch_hashed_def file_transport_def file_fetch_def fs_copy_def fs_node_def)
  obtain w3 where c: "local_commit_blob root ?k p (ext_from_url url) w2 =
        (Inr (blob_path root ?k (ext_from_url url)), w3)" "local_ok root w2 w3"
      "file_bytes w3 (blob_path root ?k (ext_from_url url)) = Some bytes"
    using local_commit_ok [OF h2 k st(3) wr(3)] .
  have clock: "clock w3 = clock w" using st(2) wr(2) c(2) by (simp add: local_ok_def)
  let ?m = "file_manifest H url bytes (clock w)"
  obtain w4 where pm: "local_put_meta api root ?k ?m w3 = (Inr (), w4)" "local_ok root w3 w4"
    using local_put_meta_ok [OF local_ok_healthy [OF c(2)] k size(2)] .
  have "manifest_ok ?m" using size(1) by (simp add: manifest_ok_def file_manifest_def)
  from local.put_meta_ok [OF k this, of alone root w3 "()" w4] pm(1) k
  have same: "same_blob (local_store api alone root) w3 w4 ?k" by simp
  have "st_get_blob_hinted (local_store api alone root) ?k (ext_from_url url) w3 =
      Some (blob_path root ?k (ext_from_url url))"
    using local_commit_found [OF k c(1)] by simp
  from same_blobD [OF same this] c(3)
  have blob: "file_bytes w4 (blob_path root ?k (ext_from_url url)) = Some bytes" by simp
  obtain t where node: "map_of (nodes w2) p = Some (FileNode bytes t)" using file_bytes_Some [OF wr(3)] by blast
  have fault: "fault w2 p = None" using h2 by (simp add: healthy_def)
  have cr: "commit_result H ?C ?k (request url) url (?res, None) prior p w2 =
      (Inr \<lparr>cb_key = ?k, cb_path = blob_path root ?k (ext_from_url url), cb_manifest = ?m\<rparr>, w4)" for prior
    using C c(1) pm(1) node fault clock
    by (simp add: commit_result_def fs_len_def fs_node_def sha256_file_def fs_read_def request_def
        Let_def file_manifest_def now_rfc3339_def)
  have "download_locked_with H ?C ?k (request url) True w =
      (Inr \<lparr>cb_key = ?k, cb_path = blob_path root ?k (ext_from_url url), cb_manifest = ?m\<rparr>, w4)"
    using C meta sch t st(1) f cr by (simp add: download_locked_with_def request_def Let_def)
  then show ?thesis using blob by (auto simp: download_locked_def)
qed

lemma file_fetch_ok:
  fixes w :: "'r world"
  assumes h: "healthy root w" and src: "local_source_path (h_env H) url = Some src"
      "\<not> starts_with (vdir root) src" "map_of (nodes w) src = Some (FileNode bytes mt)"
    and size: "int (length bytes) \<le> u64_max"
      "int (length (to_json_bytes api (file_manifest H url bytes (clock w)))) \<le> u64_max"
    and meta: "local_get_meta api root (cache_key (h_digest H) url) w = Inr om"
    and sound: "entry_sound H (local_cache H api alone root) url w"
    and memo: "memo_ok (h_digest H) w rv"
  shows "\<exists>b w' rv' bs. fetch H (local_cache H api alone root) (request url) (w, rv) = (Inr b, w', rv') \<and>
      file_bytes w' (cb_path b) = Some bs \<and> length bs = length bytes \<and> h_digest H bs = h_digest H bytes"
proof -
  let ?k = "cache_key (h_digest H) url" and ?C = "local_cache H api alone root :: 'r cache"
  have k: "valid_key ?k" by (rule key64) (rule digest32)
  have C: "c_store ?C = local_store api alone root" by (simp add: local_cache_def)
  have f: "fetch H ?C (request url) (w, rv) = fetch_online H ?C ?k (request url) (w, rv)"
    by (simp add: fetch_def local_cache_def request_def)
  obtain r1 rv1 where t1: "try_hit H ?C ?k (request url) w rv = (r1, rv1)" by force
  have "fault w src = None" using h by (simp add: healthy_def)
  note hit1 = file_hit [OF src(1) this src(3) meta sound memo t1]
  from hit1(2) show ?thesis
  proof (elim disjE exE conjE)
    fix b bs assume "r1 = Inr (Some b)" "file_bytes w (cb_path b) = Some bs" "length bs = length bytes"
      "h_digest H bs = h_digest H bytes"
    with f t1 show ?thesis by (auto simp: fetch_online_def)
  next
    assume r1: "r1 = Inr None"
    obtain w1 where l: "local_lock root alone ?k w = (Inr (), w1)" "local_ok root w w1"
      using local_lock_ok [OF h k] .
    note h1 = local_ok_healthy [OF l(2)]
    have same: "same_entries (local_store api alone root) w w1"
      using store_same_entries [OF local_lock_same [OF l(1) k]] .
    have meta1: "local_get_meta api root ?k w1 = Inr om"
      using same k meta by (simp add: same_entries_def same_meta_def)
    have sound1: "entry_sound H ?C url w1"
      using entry_sound_same [of ?C w w1 H url] same k sound C by simp
    have memo1: "memo_ok (h_digest H) w1 rv1" using local_lock_memo [OF hit1(1) l(1)] .
    have src1: "map_of (nodes w1) src = Some (FileNode bytes mt)" "fault w1 src = None"
      and clock1: "clock w1 = clock w"
      using l(2) src(2,3) h1 by (auto simp: local_ok_def healthy_def)
    obtain r2 rv2 where t2: "try_hit H ?C ?k (request url) w1 rv1 = (r2, rv2)" by force
    from file_hit(2) [OF src(1) src1(2,1) meta1 sound1 memo1 t2] show ?thesis
    proof (elim disjE exE conjE)
      fix b bs assume "r2 = Inr (Some b)" "file_bytes w1 (cb_path b) = Some bs" "length bs = length bytes"
        "h_digest H bs = h_digest H bytes"
      with f t1 r1 l t2 C show ?thesis by (auto simp: fetch_online_def)
    next
      assume r2: "r2 = Inr None"
      obtain b w' where "download_locked H ?C ?k (request url) w1 = (Inr b, w')"
          "file_bytes w' (cb_path b) = Some bytes"
        using file_download [OF h1 src(1,2) src1(1) size(1) _ meta1] size(2) clock1 by auto
      with f t1 r1 l t2 C r2 show ?thesis by (auto simp: fetch_online_def)
    qed
  qed
qed

end

text \<open>
  C4: a fetch of a \<open>file://\<close> URL over a healthy local store always succeeds and returns a blob with
  the length and the digest the source has at that moment, whether the entry was absent, warm, or
  made from a file that has since been replaced.
\<close>

theorem file_fetch_is_current:
  assumes "local_files api H"
    and "healthy root w" and "local_source_path (h_env H) url = Some src"
    and "\<not> starts_with (vdir root) src" and "map_of (nodes w) src = Some (FileNode bytes mt)"
    and "int (length bytes) \<le> u64_max"
    and "int (length (to_json_bytes api (file_manifest H url bytes (clock w)))) \<le> u64_max"
    and "local_get_meta api root (cache_key (h_digest H) url) w = Inr om"
    and "entry_sound H (local_cache H api alone root) url w" and "memo_ok (h_digest H) w rv"
  shows "\<exists>b w' rv' bs. fetch H (local_cache H api alone root) (request url) (w, rv) = (Inr b, w', rv') \<and>
      file_bytes w' (cb_path b) = Some bs \<and> length bs = length bytes \<and> h_digest H bs = h_digest H bytes"
  using local_files.file_fetch_ok [OF assms] .

section \<open>A declared checksum and a 304\<close>

definition web_cache :: "serde_api \<Rightarrow> string \<Rightarrow> 'r world transport \<Rightarrow> 'r cache" where
  "web_cache api root t =
     \<lparr>c_store = local_store api alone root, c_transports = transport_register t [], c_auth = [],
      c_offline = False, c_verify_on_read = False, c_revalidate = True\<rparr>"

definition not_modified :: fetch_result where
  "not_modified = \<lparr>fr_status = NotModified, fr_etag = None, fr_last_modified = None, fr_bytes_written = 0\<rparr>"

text \<open>
  C11: a warm entry whose digest is not the declared one is a miss, but the download that follows
  still sends the entry's validators; a source that answers 304 gets the old blob served under the
  old digest, and the declared checksum is not consulted again.
\<close>

theorem checksum_ignored_on_304:
  fixes w :: "'r world"
  assumes "local_files api H" and "healthy root w" and "scheme_of url = Inr s"
    and "ascii_lower s \<in> set (tr_schemes t)"
    and "local_get_blob_hinted root (cache_key (h_digest H) url) (ext_from_url url) w = Some p"
    and "local_get_meta api root (cache_key (h_digest H) url) w = Inr (Some m)"
    and "\<not> eq_ignore_case e (m_sha256_content m)"
    and "\<forall>dest w. fetch_hashed t url dest \<lparr>cd_etag = m_etag m, cd_last_modified = m_last_modified m\<rparr> None w
      = (Inr (not_modified, None), w)"
    and "int (length (to_json_bytes api (m\<lparr>m_fetched_at := now_rfc3339 H w\<rparr>))) \<le> u64_max"
  shows "\<exists>b w' rv'. fetch H (web_cache api root t) ((request url)\<lparr>rq_checksum := Some e\<rparr>) (w, rv) = (Inr b, w', rv') \<and>
      cb_path b = p \<and> m_sha256_content (cb_manifest b) = m_sha256_content m"
proof -
  let ?k = "cache_key (h_digest H) url" and ?C = "web_cache api root t :: 'r cache"
  let ?req = "(request url)\<lparr>rq_checksum := Some e\<rparr>"
  have k: "valid_key ?k" by (rule key64) (rule local_files.digest32 [OF assms(1)])
  have C: "c_store ?C = local_store api alone root" and tr: "transport_get (c_transports ?C) (ascii_lower s) = Some t"
    using assms(4) by (simp_all add: web_cache_def transport_get_register)
  have miss: "try_hit H ?C ?k ?req v x = (Inr None, x)" if "same_entries (local_store api alone root) w v" for v x
  proof -
    have "local_get_blob_hinted root ?k (ext_from_url url) v = Some p" "local_get_meta api root ?k v = Inr (Some m)"
      using that k assms(5,6) by (simp_all add: same_entries_def same_meta_def same_blob_def)
    then show ?thesis using C assms(7) by (simp add: try_hit_def decide_def decide_at_def request_def)
  qed
  obtain w1 where l: "local_lock root alone ?k w = (Inr (), w1)" "local_ok root w w1"
    using local_lock_ok [OF assms(2) k] .
  have same1: "same_entries (local_store api alone root) w w1"
    using store_same_entries [OF local_lock_same [OF l(1) k]] .
  obtain q w2 where st: "local_new_staging root w1 = (Inr q, w2)" "local_ok root w1 w2" "local_staging root q"
    using local_new_staging_ok [OF local_ok_healthy [OF l(2)]] .
  have same2: "same_entries (local_store api alone root) w w2"
    using same_entries_trans [OF same1 store_same_entries [OF local_staging_same(1) [OF st(1)]]] .
  have blob: "local_get_blob_hinted root ?k (ext_from_url url) w2 = Some p"
    and meta: "local_get_meta api root ?k w1 = Inr (Some m)"
    using same1 same2 k assms(5,6) by (simp_all add: same_entries_def same_meta_def same_blob_def)
  have now: "now_rfc3339 H w2 = now_rfc3339 H w" using l(2) st(2) by (simp add: now_rfc3339_def local_ok_def)
  let ?m = "m\<lparr>m_fetched_at := now_rfc3339 H w\<rparr>"
  have size: "int (length (to_json_bytes api ?m)) \<le> u64_max" by (rule assms(9))
  obtain w3 where pm: "local_put_meta api root ?k ?m w2 = (Inr (), w3)"
    using local_put_meta_ok [OF local_ok_healthy [OF st(2)] k size] .
  have "commit_result H ?C ?k ?req url (not_modified, None) (Some m) q w2 =
      (Inr \<lparr>cb_key = ?k, cb_path = p, cb_manifest = ?m\<rparr>, fs_remove q w3)"
    using C blob pm now by (simp add: commit_result_def not_modified_def Let_def)
  then have "download_locked H ?C ?k ?req w1 = (Inr \<lparr>cb_key = ?k, cb_path = p, cb_manifest = ?m\<rparr>, fs_remove q w3)"
    using C meta assms(3) tr st(1) assms(8)
    by (simp add: download_locked_def download_locked_with_def request_def Let_def)
  moreover have "fetch H ?C ?req (w, rv) = fetch_online H ?C ?k ?req (w, rv)"
    by (simp add: fetch_def web_cache_def request_def)
  ultimately show ?thesis
    using miss [OF same_entries_refl] miss [OF same1] l(1) C by (simp add: fetch_online_def)
qed

section \<open>The theorems at a concrete cache\<close>

definition sample_host :: host where
  "sample_host = \<lparr>h_digest = pad_digest, h_stamp = (\<lambda>_. Some ''2026-06-26T00:00:00Z''),
     h_parse = (\<lambda>_. None), h_env = (\<lambda>_. None), h_dir_len = 4096\<rparr>"

interpretation sample: local_files flat_api sample_host
  by unfold_locales (simp add: sample_host_def length_pad_digest)

definition files_world :: "unit world" where
  "files_world = \<lparr>nodes = [(''/s.nc'', FileNode ''abc'' (Some 0))], fault = (\<lambda>_. None),
     clock = 9000000000, fresh = 0, remote = ()\<rparr>"

abbreviation sample_cache :: "unit cache" where
  "sample_cache \<equiv> local_cache sample_host flat_api alone ''/d''"

text \<open>A root nothing has been put under yet.\<close>

lemma fresh_root:
  assumes k: "valid_key k" and f: "\<forall>p. fault w p = None"
    and n: "\<forall>p n. map_of (nodes w) p = Some n \<longrightarrow> (\<forall>x s. vdir root @ x \<noteq> p @ s)"
  shows "healthy root w" and "local_get_blob_hinted root k ext w = None" and "local_get_meta api root k w = Inr None"
proof -
  have none: "map_of (nodes w) (vdir root @ x) = None" for x
    using n by (metis append_Nil2 option.exhaust)
  have "map_of (nodes w) p \<noteq> Some (FileNode b mt)"
    if "layout_dir root d" "p \<in> set (path_prefixes [] d)" for d p b mt
  proof -
    have "\<exists>x. d = vdir root @ x" using that(1) by (cases rule: layout_dir_cases) auto
    moreover have "\<exists>s. d = p @ s" by (rule layout_dir_prefix [OF that(2)])
    ultimately show ?thesis using n by metis
  qed
  moreover have "map_of (nodes w) p \<noteq> Some DirNode" if "starts_with (vdir root) p" for p
    using none that by (auto simp: starts_with_iff)
  ultimately show "healthy root w" using f by (auto simp: healthy_def)
  show "local_get_blob_hinted root k ext w = None"
    using none f by (simp add: local_get_blob_hinted_def find_blob_def fs_read_dir_def fs_node_def
        layout_paths(1,2) [OF k])
  show "local_get_meta api root k w = Inr None"
    using none f by (simp add: local_get_meta_def fs_read_def fs_node_def layout_paths(4) [OF k]
        not_found_err_def)
qed

lemma vdir_d: "vdir ''/d'' = ''/d/v1/''"
  by (simp add: vdir_def version_dir_def path_join_def)

lemma sample_key: "valid_key (cache_key (h_digest sample_host) url)"
  by (rule sample.files.key_ok)

lemma sample_fresh:
  "healthy ''/d'' files_world" "local_get_blob_hinted ''/d'' (cache_key (h_digest sample_host) url) ext files_world = None"
  "local_get_meta flat_api ''/d'' (cache_key (h_digest sample_host) url) files_world = Inr None"
  by (rule fresh_root [OF sample_key]; auto simp: files_world_def vdir_d split: if_splits)+

lemma sample_sound: "entry_sound sample_host sample_cache url files_world"
  using sample_fresh(2) by (simp add: entry_sound_def local_cache_def)

lemma sample_size:
  "int (length (to_json_bytes flat_api (file_manifest sample_host ''file:///s.nc'' ''abc'' (clock files_world)))) \<le> u64_max"
  by code_simp

lemma sample_source: "local_source_path (h_env sample_host) ''file:///s.nc'' = Some ''/s.nc''"
  by code_simp

lemma sample_file:
  "\<not> starts_with (vdir ''/d'') ''/s.nc''"
  "map_of (nodes files_world) ''/s.nc'' = Some (FileNode ''abc'' (Some 0))" "int (length ''abc'') \<le> u64_max"
  by (simp_all add: vdir_d files_world_def u64_max_def)

lemma sample_fetch:
  "\<exists>b w' rv'. fetch sample_host sample_cache (request ''file:///s.nc'') (files_world, rv_new) = (Inr b, w', rv')"
  using sample.file_fetch_ok [OF sample_fresh(1) sample_source sample_file sample_size sample_fresh(3)
      sample_sound memo_ok_new] by blast

lemma sample_lock_sound:
  "\<forall>w u w'. st_lock (c_store sample_cache) (cache_key (h_digest sample_host) url) w = (Inr u, w') \<longrightarrow>
     entry_sound sample_host sample_cache url w \<longrightarrow> entry_sound sample_host sample_cache url w'"
proof (intro allI impI)
  fix w u w'
  assume "st_lock (c_store sample_cache) (cache_key (h_digest sample_host) url) w = (Inr u, w')"
    and sound: "entry_sound sample_host sample_cache url w"
  then have "local_lock ''/d'' alone (cache_key (h_digest sample_host) url) w = (Inr u, w')"
    by (simp add: local_cache_def)
  from store_same_entries [OF local_lock_same [OF this sample_key], of flat_api alone]
  have "same_entries (c_store sample_cache) w w'" by (simp add: local_cache_def)
  from entry_sound_same [OF this sample_key sound] show "entry_sound sample_host sample_cache url w'" .
qed

theorem fetch_serves_sound_entry_witness:
  "\<exists>b w' rv'. fetch sample_host sample_cache (request ''file:///s.nc'') (files_world, rv_new) = (Inr b, w', rv') \<and>
     entry_served sample_host sample_cache ''file:///s.nc'' w' b"
proof -
  obtain b w' rv' where f: "fetch sample_host sample_cache (request ''file:///s.nc'') (files_world, rv_new) = (Inr b, w', rv')"
    using sample_fetch by blast
  have "entry_served sample_host sample_cache (rq_url (request ''file:///s.nc'')) w' b"
    by (rule fetch_serves_sound_entry [OF sample.files.cache_laws_axioms sample_lock_sound _ sample_sound f])
      (simp add: request_def)
  with f show ?thesis by (auto simp: request_def)
qed

lemma sample_absent:
  "case fetch sample_host sample_cache (request ''file:///gone'') (files_world, rv_new) of
     (Inl (AllMirrorsFailed u d nf), st) \<Rightarrow> nf | _ \<Rightarrow> False"
  by code_simp

lemma sample_absent_fetch:
  obtains u d w' rv' where "fetch sample_host sample_cache (request ''file:///gone'') (files_world, rv_new) =
    (Inl (AllMirrorsFailed u d True), w', rv')"
  using sample_absent by (auto split: prod.splits sum.splits error.splits)

theorem failed_fetch_keeps_entries_witness:
  "\<exists>e w' rv' w1. fetch sample_host sample_cache (request ''file:///gone'') (files_world, rv_new) = (Inl e, w', rv') \<and>
     same_entries (c_store sample_cache) w1 w'"
proof -
  obtain u d w' rv' where f: "fetch sample_host sample_cache (request ''file:///gone'') (files_world, rv_new) =
    (Inl (AllMirrorsFailed u d True), w', rv')" using sample_absent_fetch .
  from failed_fetch_keeps_entries [OF sample.files.cache_laws_axioms f] f show ?thesis by blast
qed

definition mirrored_request :: fetch_request where
  "mirrored_request = (request ''file:///gone'')\<lparr>rq_mirrors := [''nope://x/y'']\<rparr>"

lemma sample_mirrors:
  "case fetch sample_host sample_cache mirrored_request (files_world, rv_new) of
     (Inl (AllMirrorsFailed u d nf), st) \<Rightarrow> True | _ \<Rightarrow> False"
  by code_simp

lemma sample_mirror_failures:
  "fetch_failures sample_host sample_cache mirrored_request (files_world, rv_new) =
     [(''file:///gone'', Io (Some ''/gone'') not_found_err), (''nope://x/y'', UnknownScheme ''nope'' ''nope://x/y'')]"
  by code_simp

lemma mirrored_sources: "rq_url mirrored_request = ''file:///gone''" "rq_mirrors mirrored_request = [''nope://x/y'']"
  by (simp_all add: mirrored_request_def request_def)

theorem absence_exact_witness:
  "(\<exists>e st. fetch sample_host sample_cache (request ''file:///gone'') (files_world, rv_new) = (Inl e, st) \<and>
      is_not_found e \<and> map fst (fetch_failures sample_host sample_cache (request ''file:///gone'') (files_world, rv_new)) =
        [''file:///gone'']) \<and>
   (\<exists>d st. fetch sample_host sample_cache mirrored_request (files_world, rv_new) =
      (Inl (AllMirrorsFailed ''file:///gone'' d False), st))"
proof -
  obtain u d w' rv' where f: "fetch sample_host sample_cache (request ''file:///gone'') (files_world, rv_new) =
    (Inl (AllMirrorsFailed u d True), w', rv')" using sample_absent_fetch .
  obtain u2 d2 b2 w2 rv2 where g: "fetch sample_host sample_cache mirrored_request (files_world, rv_new) =
    (Inl (AllMirrorsFailed u2 d2 b2), w2, rv2)" using sample_mirrors by (auto split: prod.splits sum.splits error.splits)
  have a: "map fst (fetch_failures sample_host sample_cache (request ''file:///gone'') (files_world, rv_new)) =
      [''file:///gone'']"
    using absence_exact [OF sample.files.cache_laws_axioms f] unfolding Let_def request_def by auto
  have "AllMirrorsFailed u2 d2 b2 = AllMirrorsFailed ''file:///gone''
      (error_text (UnknownScheme ''nope'' ''nope://x/y'')) False"
    using absence_exact [OF sample.files.cache_laws_axioms g]
    by (simp add: sample_mirror_failures mirrored_sources Let_def del: error_text.simps)
  with a f g show ?thesis by auto
qed

text \<open>The other case of the characterisation: the staging directory disappears between its creation
  and that of the staging file, and the fetch of a file that is there, and was not asked for, fails
  with an error that reads as a definitive absence.\<close>

definition unstaged_world :: "unit world" where
  "unstaged_world = files_world\<lparr>fault := (\<lambda>p. if starts_with (tmp_dir ''/d'' @ ''/'') p then Some not_found_err else None)\<rparr>"

theorem local_not_found_reads_as_absence:
  "(case fetch sample_host sample_cache (request ''file:///s.nc'') (unstaged_world, rv_new) of
      (Inl e, st) \<Rightarrow> is_not_found e | _ \<Rightarrow> False) \<and>
   fs_read ''/s.nc'' unstaged_world = Inr ''abc'' \<and>
   fetch_failures sample_host sample_cache (request ''file:///s.nc'') (unstaged_world, rv_new) = []"
  by (intro conjI; code_simp)

lemma sample_never_304: "never_not_modified sample_cache" "downloads_unconditionally sample_cache"
proof -
  have "fr_status res = Downloaded"
    if "transport_get (c_transports sample_cache) s = Some t" "fetch_hashed t url dest cond auth w = (Inr (res, sha), w')"
    for s t url dest cond auth w res sha w'
  proof -
    have "t = file_transport (h_env sample_host)"
      using that(1) by (simp add: local_cache_def transport_get_register transport_get_nil split: if_splits)
    with that(2) have "file_fetch (h_env sample_host) url dest cond auth w = (Inr res, w')"
      by (auto simp: fetch_hashed_def file_transport_def split: prod.splits sum.splits)
    then show ?thesis by (cases rule: file_fetch_cases) auto
  qed
  then show "never_not_modified sample_cache" "downloads_unconditionally sample_cache"
    by (auto simp: never_not_modified_def downloads_unconditionally_def)
qed

abbreviation checked_request :: "string \<Rightarrow> fetch_request" where
  "checked_request h \<equiv> (request ''file:///s.nc'')\<lparr>rq_checksum := Some h\<rparr>"

lemma sample_mismatch:
  "case fetch sample_host sample_cache (checked_request ''ff'') (files_world, rv_new) of
     (Inl (Integrity j d), st) \<Rightarrow> True | _ \<Rightarrow> False"
  by code_simp

theorem no_dangling_304_witness:
  "\<exists>j d w' rv'. fetch sample_host sample_cache (checked_request ''ff'') (files_world, rv_new) =
     (Inl (Integrity j d), w', rv') \<and> \<not> starts_with ''304 Not Modified'' d"
proof -
  obtain j d w' rv' where f: "fetch sample_host sample_cache (checked_request ''ff'') (files_world, rv_new) =
      (Inl (Integrity j d), w', rv')"
    using sample_mismatch by (auto split: prod.splits sum.splits error.splits)
  from no_dangling_304 [OF sample.files.cache_laws_axioms sample_never_304(2) f] f show ?thesis by blast
qed

definition abc_sum :: string where
  "abc_sum = ''6162637878787878787878787878787878787878787878787878787878787878''"

lemma sample_match:
  "case fetch sample_host sample_cache (checked_request abc_sum) (files_world, rv_new) of
     (Inr b, st) \<Rightarrow> True | _ \<Rightarrow> False"
  by code_simp

theorem checksum_enforced_witness:
  "\<exists>b w' rv'. fetch sample_host sample_cache (checked_request abc_sum) (files_world, rv_new) = (Inr b, w', rv') \<and>
     eq_ignore_case abc_sum (m_sha256_content (cb_manifest b))"
proof -
  obtain b w' rv' where f: "fetch sample_host sample_cache (checked_request abc_sum) (files_world, rv_new) = (Inr b, w', rv')"
    using sample_match by (auto split: prod.splits sum.splits)
  have "\<not> c_offline sample_cache" by (simp add: local_cache_def)
  from checksum_enforced [OF sample.files.cache_laws_axioms sample_never_304(1) this _ f] f show ?thesis by auto
qed

definition offline_builder :: "unit cache_builder" where
  "offline_builder = builder_new\<lparr>bd_data_dir := Some ''/d'', bd_offline := Some True\<rparr>"

theorem offline_reads_only_witness:
  "\<exists>C rv0. build sample_host (local_store flat_api alone) [file_transport (h_env sample_host)] offline_builder = Inr (C, rv0) \<and>
     c_transports C = [] \<and>
     fst (fetch sample_host C (request ''file:///s.nc'') (files_world, rv_new)) =
       Inl (CacheMiss ''file:///s.nc'' (cache_key (h_digest sample_host) ''file:///s.nc''))"
proof -
  let ?C = "\<lparr>c_store = local_store flat_api alone ''/d'', c_transports = [], c_auth = [], c_offline = True,
    c_verify_on_read = False, c_revalidate = True\<rparr>"
  have b: "build sample_host (local_store flat_api alone) [file_transport (h_env sample_host)] offline_builder = Inr (?C, rv_new)"
    by (simp add: build_def offline_builder_def builder_new_def store_get_def store_register_def
        is_offline_def revalidate_file_sources_def sample_host_def Let_def)
  have o: "is_offline (h_env sample_host) (bd_offline offline_builder)"
    by (simp add: is_offline_def offline_builder_def)
  from offline_reads_only [OF b o, of "request ''file:///s.nc''" files_world rv_new] b sample_fresh(2)
  show ?thesis by (auto simp: request_def)
qed

theorem file_fetch_is_current_witness:
  "\<exists>b w' rv' bs. fetch sample_host sample_cache (request ''file:///s.nc'') (files_world, rv_new) = (Inr b, w', rv') \<and>
      file_bytes w' (cb_path b) = Some bs \<and> length bs = length ''abc'' \<and> h_digest sample_host bs = h_digest sample_host ''abc''"
  by (rule file_fetch_is_current [OF sample.local_files_axioms sample_fresh(1) sample_source sample_file
        sample_size sample_fresh(3) sample_sound memo_ok_new])

text \<open>A warm entry under \<open>/d\<close> whose source answers 304.\<close>

definition unchanged_transport :: "unit world transport" where
  "unchanged_transport = \<lparr>tr_schemes = [''http''], tr_fetch = (\<lambda>url dest cond auth w. (Inr not_modified, w)),
     tr_hashed = None\<rparr>"

definition warm_key :: string where
  "warm_key = cache_key (h_digest sample_host) ''http://x/a.nc''"

definition warm_world :: "unit world" where
  "warm_world = \<lparr>nodes = al_put (meta_path ''/d'' warm_key) (FileNode (to_json_bytes flat_api sample_manifest) None)
       (al_put (blob_path ''/d'' warm_key ''nc'') (FileNode ''abc'' None) []),
     fault = (\<lambda>_. None), clock = 0, fresh = 0, remote = ()\<rparr>"

lemma warm_valid: "valid_key warm_key"
  unfolding warm_key_def by (rule sample_key)

lemma warm_healthy: "healthy ''/d'' warm_world"
proof -
  let ?e = "\<lparr>nodes = [], fault = (\<lambda>_. None), clock = 0, fresh = 0, remote = ()\<rparr>"
  have e: "healthy ''/d'' ?e" by (simp add: healthy_def)
  note f = layout_files [OF warm_valid, of "''/d''"]
  show ?thesis
    using local_ok_healthy [OF file_path_put [OF local_ok_healthy [OF file_path_put [OF e f(2)]] f(1)]]
    by (simp add: warm_world_def)
qed

lemma warm_entry:
  "local_get_blob_hinted ''/d'' warm_key ''nc'' warm_world = Some (blob_path ''/d'' warm_key ''nc'')"
  "local_get_meta flat_api ''/d'' warm_key warm_world = Inr (Some sample_manifest)"
proof -
  have "manifest_ok sample_manifest" by (simp add: manifest_ok_def sample_manifest_def u64_max_def)
  note m = flat.from_to_json_bytes [OF this]
  show "local_get_blob_hinted ''/d'' warm_key ''nc'' warm_world = Some (blob_path ''/d'' warm_key ''nc'')"
    using blob_not_meta [OF warm_valid warm_valid, of "''/d''" "''nc''"]
    by (simp add: local_get_blob_hinted_def fs_node_def warm_world_def)
  show "local_get_meta flat_api ''/d'' warm_key warm_world = Inr (Some sample_manifest)"
    by (simp add: local_get_meta_def fs_read_def fs_node_def warm_world_def m)
qed

lemma warm_size:
  "int (length (to_json_bytes flat_api (sample_manifest\<lparr>m_fetched_at := ''2026-06-26T00:00:00Z''\<rparr>))) \<le> u64_max"
  by code_simp

theorem checksum_ignored_on_304_witness:
  "\<exists>b w' rv'. fetch sample_host (web_cache flat_api ''/d'' unchanged_transport)
       ((request ''http://x/a.nc'')\<lparr>rq_checksum := Some ''ff''\<rparr>) (warm_world, rv_new) = (Inr b, w', rv') \<and>
     m_sha256_content (cb_manifest b) = ''fe1f''"
proof -
  have s: "scheme_of ''http://x/a.nc'' = Inr ''http''" by (simp add: scheme_of_def)
  have t: "ascii_lower ''http'' \<in> set (tr_schemes unchanged_transport)"
    by (simp add: unchanged_transport_def ascii_lower_def lower_char_def is_upper_def)
  have x: "ext_from_url ''http://x/a.nc'' = ''nc''" by code_simp
  have c: "\<not> eq_ignore_case ''ff'' (m_sha256_content sample_manifest)"
    by (simp add: sample_manifest_def eq_ignore_case_def ascii_lower_def)
  have a: "\<forall>dest w. fetch_hashed unchanged_transport ''http://x/a.nc'' dest
      \<lparr>cd_etag = m_etag sample_manifest, cd_last_modified = m_last_modified sample_manifest\<rparr> None w =
      (Inr (not_modified, None), w)"
    by (simp add: fetch_hashed_def unchanged_transport_def)
  have z: "int (length (to_json_bytes flat_api (sample_manifest\<lparr>m_fetched_at := now_rfc3339 sample_host warm_world\<rparr>))) \<le> u64_max"
    using warm_size by (simp add: now_rfc3339_def sample_host_def)
  have h: "local_get_blob_hinted ''/d'' (cache_key (h_digest sample_host) ''http://x/a.nc'')
      (ext_from_url ''http://x/a.nc'') warm_world = Some (blob_path ''/d'' warm_key ''nc'')"
    using warm_entry(1) by (simp only: x warm_key_def)
  have k: "local_get_meta flat_api ''/d'' (cache_key (h_digest sample_host) ''http://x/a.nc'') warm_world =
      Inr (Some sample_manifest)"
    using warm_entry(2) by (simp only: warm_key_def)
  have m: "m_sha256_content sample_manifest = ''fe1f''" by (simp add: sample_manifest_def)
  from checksum_ignored_on_304 [OF sample.local_files_axioms warm_healthy s t h
      k c a z, of rv_new] m
  show ?thesis by metis
qed

end
