(* ===== verification/Calendar.thy ===== *)
theory Calendar
  imports Errors
begin

text \<open>
  Calendar cadences (\<open>rust/src/calendar.rs\<close>): ISO 8601 periods, their anchors on the proleptic
  Gregorian calendar, and the index of the anchor at or before an instant.

  An instant is an \<open>OffsetDateTime\<close> in UTC, given by its nanoseconds since the Unix epoch; a
  \<open>Duration\<close> is a number of nanoseconds. The \<open>time\<close> crate is not part of the repository: what the
  code uses of its calendar (\<open>year\<close>/\<open>month\<close>/\<open>day\<close> of a day, \<open>Date::from_calendar_date\<close>,
  \<open>Month::length\<close> and the range of days it represents) is the parameter \<open>civil_api\<close>, and the
  locale \<open>civil_laws\<close> states its documented behaviour. Theory \<open>Gregorian\<close> gives an instance.
  A function that can panic (an instant outside the representable range, an overflowing
  multiplication) returns an option, \<open>None\<close> for the panic.
\<close>

type_synonym instant = int

definition ns_per_s :: int where "ns_per_s = 1000000000"
definition ns_per_day :: int where "ns_per_day = 86400000000000"

section \<open>Periods\<close>

definition mean_month_s :: int where "mean_month_s = 2629746"

record calendar_period =
  p_months :: int
  p_seconds :: int

definition zero_period :: calendar_period where
  "zero_period = \<lparr>p_months = 0, p_seconds = 0\<rparr>"

definition months_period :: "int \<Rightarrow> calendar_period" where
  "months_period m = \<lparr>p_months = m, p_seconds = 0\<rparr>"

definition seconds_period :: "int \<Rightarrow> calendar_period" where
  "seconds_period s = \<lparr>p_months = 0, p_seconds = s\<rparr>"

definition is_positive :: "calendar_period \<Rightarrow> bool" where
  "is_positive p \<longleftrightarrow> 0 \<le> p_months p \<and> 0 \<le> p_seconds p \<and> (0 < p_months p \<or> 0 < p_seconds p)"

text \<open>\<open>Duration::whole_seconds\<close> and \<open>subsec_nanoseconds\<close> truncate towards zero.\<close>

definition whole_seconds :: "int \<Rightarrow> int" where
  "whole_seconds d = trunc_div d ns_per_s"

definition subsec_ns :: "int \<Rightarrow> int" where
  "subsec_ns d = d - whole_seconds d * ns_per_s"

definition period_from_duration :: "int \<Rightarrow> calendar_period" where
  "period_from_duration d =
     (if subsec_ns d \<noteq> 0 \<or> whole_seconds d \<le> 0 then zero_period
      else \<lparr>p_months = 0, p_seconds = whole_seconds d\<rparr>)"

definition bad_period :: "string \<Rightarrow> string \<Rightarrow> error" where
  "bad_period period detail = BadPeriod period detail"

text \<open>\<open>parse::<i64>\<close> of a run of digits.\<close>

definition parse_i64_digits :: "string \<Rightarrow> int option" where
  "parse_i64_digits ds = checked_i64 (int (dec_value ds))"

lemma dropWhile_Cons_shorter: "y # ys = dropWhile P xs \<Longrightarrow> length ys < length xs"
  by (metis Suc_le_lessD length_Cons length_dropWhile_le)

function components_go ::
    "string \<Rightarrow> char list \<Rightarrow> nat \<Rightarrow> int list \<Rightarrow> string \<Rightarrow> int list result" where
  "components_go period order nxt vals rest =
     (if rest = [] then Inr vals
      else
        let digits = takeWhile is_digit rest; tail = dropWhile is_digit rest in
        (case tail of
           [] \<Rightarrow> Inl (bad_period period (dbg_str rest @ '' has no designator''))
         | d # tail' \<Rightarrow>
             if digits = [] then
               Inl (bad_period period
                 (''expected a whole number before '' @ dbg_char (utf8_head rest)))
             else
               (case position (\<lambda>c. c = d) (drop nxt order) of
                  None \<Rightarrow>
                    Inl (bad_period period
                      (dbg_char (utf8_head tail) @
                       '' is not allowed here (a fraction, a sign, or a designator out of order)''))
                | Some p \<Rightarrow>
                    (case parse_i64_digits digits of
                       None \<Rightarrow> Inl (bad_period period (dbg_str digits @ '' is too large''))
                     | Some v \<Rightarrow>
                         components_go period order (p + nxt + 1) (vals[p + nxt := v]) tail'))))"
  by pat_completeness auto

termination
  by (relation "measure (\<lambda>(period, order, nxt, vals, rest). length rest)")
    (auto dest: dropWhile_Cons_shorter)

declare components_go.simps [simp del]

definition components :: "string \<Rightarrow> string \<Rightarrow> char list \<Rightarrow> int list result" where
  "components period s order = components_go period order 0 (replicate (length order) 0) s"

text \<open>The \<open>try_fold\<close> over the seconds: every product and every partial sum is checked.\<close>

fun fold_seconds :: "int \<Rightarrow> (int \<times> int) list \<Rightarrow> int option" where
  "fold_seconds acc [] = Some acc"
| "fold_seconds acc ((n, unit) # rest) =
     (case checked_i64 (n * unit) of
        None \<Rightarrow> None
      | Some v \<Rightarrow>
          (case checked_i64 (acc + v) of None \<Rightarrow> None | Some acc' \<Rightarrow> fold_seconds acc' rest))"

definition parse_period :: "string \<Rightarrow> calendar_period result" where
  "parse_period spec =
     (case strip_prefix ''P'' spec of
        None \<Rightarrow> Inl (bad_period spec (''a period starts with '' @ sq ''P''))
      | Some body \<Rightarrow>
          let parts = (case split_once ''T'' body of
                         Some (d, t) \<Rightarrow> (d, Some t)
                       | None \<Rightarrow> (body, None));
              date = fst parts; time = snd parts in
          if time = Some [] then
            Inl (bad_period spec (''a '' @ sq ''T'' @ '' must be followed by a time component''))
          else if date = [] \<and> time = None then Inl (bad_period spec ''it has no components'')
          else
            bindR (components spec date ''YMWD'') (\<lambda>ymwd.
            bindR (case time of Some t \<Rightarrow> components spec t ''HMS'' | None \<Rightarrow> Inr [0, 0, 0]) (\<lambda>hms.
              let overflow = bad_period spec ''it is too large'' in
              bindR (ok_or overflow
                 (case checked_i64 (ymwd ! 0 * 12) of
                    None \<Rightarrow> None
                  | Some y \<Rightarrow> checked_i64 (y + ymwd ! 1))) (\<lambda>months.
              bindR (ok_or overflow
                 (fold_seconds 0
                    [(ymwd ! 2, 604800), (ymwd ! 3, 86400), (hms ! 0, 3600), (hms ! 1, 60),
                     (hms ! 2, 1)])) (\<lambda>seconds.
                let p = \<lparr>p_months = months, p_seconds = seconds\<rparr> in
                if \<not> is_positive p then Inl (bad_period spec ''every component is zero'')
                else Inr p)))))"

section \<open>Anchors\<close>

record civil_api =
  ymd_of :: "int \<Rightarrow> int \<times> int \<times> int"
  day_of :: "int \<Rightarrow> int \<Rightarrow> int \<Rightarrow> int option"
  month_len :: "int \<Rightarrow> int \<Rightarrow> int"
  min_day :: int
  max_day :: int

definition in_range :: "civil_api \<Rightarrow> instant \<Rightarrow> bool" where
  "in_range api t \<longleftrightarrow> min_day api \<le> t div ns_per_day \<and> t div ns_per_day \<le> max_day api"

definition add_months :: "civil_api \<Rightarrow> instant \<Rightarrow> int \<Rightarrow> instant option" where
  "add_months api t n =
     (if n = 0 then Some t
      else
        let (y, m, d) = ymd_of api (t div ns_per_day);
            m0 = y * 12 + (m - 1) + n in
        if \<not> in_i64 m0 then None
        else
          let year = as_i32 (m0 div 12);
              month = m0 mod 12 + 1;
              day = min d (month_len api year month) in
          (case day_of api year month day of
             None \<Rightarrow> None
           | Some date \<Rightarrow> Some (date * ns_per_day + t mod ns_per_day)))"

definition anchor :: "civil_api \<Rightarrow> calendar_period \<Rightarrow> instant \<Rightarrow> int \<Rightarrow> instant option" where
  "anchor api p start k =
     (if \<not> in_i64 (k * p_months p) then None
      else
        (case add_months api start (k * p_months p) of
           None \<Rightarrow> None
         | Some t \<Rightarrow>
             if \<not> in_i64 (k * p_seconds p) then None
             else
               let r = t + k * p_seconds p * ns_per_s in
               if in_range api r then Some r else None))"

text \<open>The estimate of the anchor's index, before the exact walk.\<close>

definition floor_guess :: "calendar_period \<Rightarrow> instant \<Rightarrow> instant \<Rightarrow> int" where
  "floor_guess p start t =
     as_i64 (whole_seconds (t - start) div (p_months p * mean_month_s + p_seconds p))"

partial_function (option) walk_down ::
    "civil_api \<Rightarrow> calendar_period \<Rightarrow> instant \<Rightarrow> instant \<Rightarrow> int \<Rightarrow> int option" where
  "walk_down api p start t k =
     Option.bind (anchor api p start k) (\<lambda>a.
       if t < a then (if in_i64 (k - 1) then walk_down api p start t (k - 1) else None)
       else Some k)"

partial_function (option) walk_up ::
    "civil_api \<Rightarrow> calendar_period \<Rightarrow> instant \<Rightarrow> instant \<Rightarrow> int \<Rightarrow> int option" where
  "walk_up api p start t k =
     (if in_i64 (k + 1) then
        Option.bind (anchor api p start (k + 1)) (\<lambda>a.
          if a \<le> t then walk_up api p start t (k + 1) else Some k)
      else None)"

definition floor_index ::
    "civil_api \<Rightarrow> calendar_period \<Rightarrow> instant \<Rightarrow> instant \<Rightarrow> int option" where
  "floor_index api p start t =
     (if 0 < p_months p * mean_month_s + p_seconds p then
        Option.bind (walk_down api p start t (floor_guess p start t)) (walk_up api p start t)
      else None)"

definition ceil_index ::
    "civil_api \<Rightarrow> calendar_period \<Rightarrow> instant \<Rightarrow> instant \<Rightarrow> int option" where
  "ceil_index api p start t =
     Option.bind (floor_index api p start t) (\<lambda>k.
     Option.bind (anchor api p start k) (\<lambda>a.
       if a = t then Some k else if in_i64 (k + 1) then Some (k + 1) else None))"

definition period_floor ::
    "civil_api \<Rightarrow> calendar_period \<Rightarrow> instant \<Rightarrow> instant \<Rightarrow> instant option" where
  "period_floor api p start t = Option.bind (floor_index api p start t) (anchor api p start)"


section \<open>Parsing: positivity and the round trip\<close>

lemma length_components_go:
  "components_go period order nxt vals rest = Inr vs \<Longrightarrow> length vs = length vals"
proof (induction period order nxt vals rest arbitrary: vs rule: components_go.induct)
  case (1 period order nxt vals rest)
  show ?case
  proof (cases "rest = []")
    case True
    with "1.prems" show ?thesis by (simp add: components_go.simps [of period order])
  next
    case False
    with "1.prems" obtain d tl p v where
      *: "dropWhile is_digit rest = d # tl" "takeWhile is_digit rest \<noteq> []"
        "position (\<lambda>c. c = d) (drop nxt order) = Some p"
        "parse_i64_digits (takeWhile is_digit rest) = Some v"
        "components_go period order (p + nxt + 1) (vals[p + nxt := v]) tl = Inr vs"
      by (simp add: components_go.simps [of period order nxt vals rest] Let_def
            split: list.splits if_splits option.splits)
    have "length vs = length (vals[p + nxt := v])"
      using "1.IH" [OF False refl refl *(1) *(2) *(3) *(4) *(5)]
      by simp
    then show ?thesis by simp
  qed
qed

lemma parse_period_Inr:
  "parse_period spec = Inr p \<Longrightarrow> is_positive p \<and> in_i64 (p_months p)"
  by (auto simp: parse_period_def Let_def bindR_Inr ok_or_Inr checked_i64_Some
      split: option.splits if_splits)

text \<open>One component of a duration's text, absent or present, and its value.\<close>

fun opt_text :: "nat option \<Rightarrow> char \<Rightarrow> string" where
  "opt_text None d = []"
| "opt_text (Some n) d = show_nat n @ [d]"

definition opt_val :: "nat option \<Rightarrow> int" where
  "opt_val x = (case x of None \<Rightarrow> 0 | Some n \<Rightarrow> int n)"

lemma opt_val_simps [simp]: "opt_val None = 0" "opt_val (Some n) = int n"
  by (simp_all add: opt_val_def)

lemma opt_val_nonneg [simp]: "0 \<le> opt_val x"
  by (cases x) auto

definition date_text :: "nat option \<Rightarrow> nat option \<Rightarrow> nat option \<Rightarrow> nat option \<Rightarrow> string" where
  "date_text y m w d =
     opt_text y (CHR ''Y'') @ opt_text m (CHR ''M'') @ opt_text w (CHR ''W'') @ opt_text d (CHR ''D'')"

definition time_text :: "nat option \<Rightarrow> nat option \<Rightarrow> nat option \<Rightarrow> string" where
  "time_text h mi s =
     opt_text h (CHR ''H'') @ opt_text mi (CHR ''M'') @ opt_text s (CHR ''S'')"

definition iso_text ::
    "nat option \<Rightarrow> nat option \<Rightarrow> nat option \<Rightarrow> nat option \<Rightarrow>
     nat option \<Rightarrow> nat option \<Rightarrow> nat option \<Rightarrow> string" where
  "iso_text y m w d h mi s =
     ''P'' @ date_text y m w d @
       (if time_text h mi s = [] then [] else ''T'' @ time_text h mi s)"

lemma parse_i64_show_nat [simp]:
  "in_i64 (int n) \<Longrightarrow> parse_i64_digits (show_nat n) = Some (int n)"
  by (simp add: parse_i64_digits_def checked_i64_def)

lemma components_go_Nil [simp]: "components_go period order nxt vals [] = Inr vals"
  by (simp add: components_go.simps)

lemma components_go_step:
  assumes "\<not> is_digit c" and "in_i64 (int n)"
    and "position (\<lambda>x. x = c) (drop nxt order) = Some p"
  shows "components_go period order nxt vals (show_nat n @ c # rest) =
    components_go period order (p + nxt + 1) (vals[p + nxt := int n]) rest"
  using assms
  by (subst components_go.simps)
    (simp add: takeWhile_show_nat dropWhile_show_nat Let_def)

lemma components_date:
  assumes "in_i64 (opt_val y)" "in_i64 (opt_val m)" "in_i64 (opt_val w)" "in_i64 (opt_val d)"
  shows "components period (date_text y m w d) ''YMWD'' =
    Inr [opt_val y, opt_val m, opt_val w, opt_val d]"
  using assms
  by (cases y; cases m; cases w; cases d)
    (simp_all add: components_def date_text_def components_go_step is_digit_def)

lemma components_time:
  assumes "in_i64 (opt_val h)" "in_i64 (opt_val mi)" "in_i64 (opt_val s)"
  shows "components period (time_text h mi s) ''HMS'' =
    Inr [opt_val h, opt_val mi, opt_val s]"
  using assms
  by (cases h; cases mi; cases s)
    (simp_all add: components_def time_text_def components_go_step is_digit_def)

lemma not_in_show_nat: "\<not> is_digit c \<Longrightarrow> c \<notin> set (show_nat n)"
  using show_nat_digits by blast

lemma T_notin_opt_text: "d \<noteq> CHR ''T'' \<Longrightarrow> CHR ''T'' \<notin> set (opt_text x d)"
  by (cases x) (auto simp: not_in_show_nat is_digit_def)

lemma T_notin_date_text: "CHR ''T'' \<notin> set (date_text y m w d)"
  by (simp add: date_text_def T_notin_opt_text)

lemma split_iso_body:
  "split_once ''T'' (date_text y m w d @ (if tt = [] then [] else ''T'' @ tt)) =
     (if tt = [] then None else Some (date_text y m w d, tt))"
  using split_once_char [OF T_notin_date_text [of y m w d], of tt]
    split_once_char_None [OF T_notin_date_text [of y m w d]]
  by simp

lemma fold_seconds_nonneg:
  assumes "0 \<le> acc" "\<forall>(n, u)\<in>set xs. 0 \<le> n \<and> 0 \<le> u"
    and "in_i64 (acc + (\<Sum>(n, u)\<leftarrow>xs. n * u))"
  shows "fold_seconds acc xs = Some (acc + (\<Sum>(n, u)\<leftarrow>xs. n * u))"
  using assms
proof (induction xs arbitrary: acc)
  case Nil
  then show ?case by simp
next
  case (Cons x xs)
  obtain n u where x: "x = (n, u)" by force
  have "0 \<le> (\<Sum>(n, u)\<leftarrow>xs. n * u)"
    using Cons.prems(2) by (intro sum_list_nonneg) auto
  moreover have "0 \<le> n * u" using Cons.prems(2) x by simp
  ultimately have "in_i64 (n * u)" "in_i64 (acc + n * u)"
    using Cons.prems(1,3) x by (auto simp: in_i64_def i64_min_def)
  with Cons.IH [of "acc + n * u"] Cons.prems x \<open>0 \<le> n * u\<close> show ?case
    by (simp add: checked_i64_def add.assoc)
qed

lemma in_i64_0: "in_i64 0"
  by (simp add: in_i64_def i64_min_def i64_max_def)

lemma in_i64_le: "0 \<le> x \<Longrightarrow> x \<le> y \<Longrightarrow> in_i64 y \<Longrightarrow> in_i64 x"
  by (simp add: in_i64_def i64_min_def)

text \<open>
  C5: a duration's text, with any of its components absent, parses to the period it denotes:
  twelve months a year, and its weeks, days, hours, minutes and seconds in seconds, as long as
  something is present, not everything is zero, and both totals fit an \<open>i64\<close>.
\<close>

theorem parse_period_roundtrip:
  assumes months: "in_i64 (12 * opt_val y + opt_val m)"
    and seconds: "in_i64 (604800 * opt_val w + 86400 * opt_val d + 3600 * opt_val h
                          + 60 * opt_val mi + opt_val s)"
    and positive: "0 < opt_val y + opt_val m + opt_val w + opt_val d + opt_val h
                        + opt_val mi + opt_val s"
  shows "parse_period (iso_text y m w d h mi s) =
    Inr \<lparr>p_months = 12 * opt_val y + opt_val m,
         p_seconds = 604800 * opt_val w + 86400 * opt_val d + 3600 * opt_val h
                     + 60 * opt_val mi + opt_val s\<rparr>"
proof -
  have nn: "0 \<le> opt_val y" "0 \<le> opt_val m" "0 \<le> opt_val w" "0 \<le> opt_val d" "0 \<le> opt_val h"
    "0 \<le> opt_val mi" "0 \<le> opt_val s" by simp_all
  have fit: "in_i64 (opt_val y)" "in_i64 (12 * opt_val y)" "in_i64 (opt_val m)"
    using nn by (auto intro!: in_i64_le [OF _ _ months])
  have fit': "in_i64 (opt_val w)" "in_i64 (opt_val d)" "in_i64 (opt_val h)" "in_i64 (opt_val mi)"
    "in_i64 (opt_val s)"
    using nn by (auto intro!: in_i64_le [OF _ _ seconds])
  let ?ss = "[(opt_val w, 604800), (opt_val d, 86400), (opt_val h, 3600), (opt_val mi, 60),
                (opt_val s, 1)] :: (int \<times> int) list"
  have fold: "fold_seconds 0 ?ss = Some (604800 * opt_val w + 86400 * opt_val d
      + 3600 * opt_val h + 60 * opt_val mi + opt_val s)"
    using fold_seconds_nonneg [of 0 ?ss] nn seconds by (simp add: algebra_simps)
  have pos: "is_positive \<lparr>p_months = 12 * opt_val y + opt_val m,
      p_seconds = 604800 * opt_val w + 86400 * opt_val d + 3600 * opt_val h
        + 60 * opt_val mi + opt_val s\<rparr>"
  proof (cases "0 < opt_val y + opt_val m")
    case True
    with nn have "0 < 12 * opt_val y + opt_val m" by linarith
    then show ?thesis by (simp add: is_positive_def)
  next
    case False
    with nn positive have "0 < 604800 * opt_val w + 86400 * opt_val d + 3600 * opt_val h
        + 60 * opt_val mi + opt_val s" by linarith
    then show ?thesis by (simp add: is_positive_def)
  qed
  have time0: "time_text h mi s = [] \<Longrightarrow> opt_val h = 0 \<and> opt_val mi = 0 \<and> opt_val s = 0"
    by (cases h; cases mi; cases s) (auto simp: time_text_def)
  have date0: "date_text y m w d = [] \<Longrightarrow>
      opt_val y = 0 \<and> opt_val m = 0 \<and> opt_val w = 0 \<and> opt_val d = 0"
    by (cases y; cases m; cases w; cases d) (auto simp: date_text_def)
  show ?thesis
  proof (cases "time_text h mi s = []")
    case True
    note z = time0 [OF True]
    have ne: "date_text y m w d \<noteq> []" using date0 z positive by auto
    show ?thesis
      using True ne z fit months fold pos split_iso_body [of y m w d "time_text h mi s"]
      by (simp add: parse_period_def iso_text_def strip_prefix_def Let_def components_date fit'
          checked_i64_def mult.commute in_i64_0 del: fold_seconds.simps)
  next
    case False
    then show ?thesis
      using fit months fold pos split_iso_body [of y m w d "time_text h mi s"]
      by (simp add: parse_period_def iso_text_def strip_prefix_def Let_def components_date
          components_time fit' checked_i64_def mult.commute del: fold_seconds.simps)
  qed
qed

theorem parse_period_roundtrip_witness:
  "parse_period (iso_text None (Some 1) None None (Some 3) None None) =
     Inr \<lparr>p_months = 1, p_seconds = 10800\<rparr>"
  using parse_period_roundtrip [of None "Some 1" None None "Some 3" None None]
  by (simp add: in_i64_def i64_min_def i64_max_def)


section \<open>The calendar's documented behaviour\<close>

text \<open>
  \<open>Date::from_calendar_date\<close> accepts exactly the valid dates of the years \<open>-9999\<close> to \<open>9999\<close>, it is
  inverse to \<open>year\<close>/\<open>month\<close>/\<open>day\<close>, days of a month are consecutive and a later month has later
  days; a month has 28 to 31 days.
\<close>

locale civil_laws =
  fixes api :: civil_api
  assumes month_len_bounds: "1 \<le> m \<Longrightarrow> m \<le> 12 \<Longrightarrow> 28 \<le> month_len api y m \<and> month_len api y m \<le> 31"
    and day_of_valid: "day_of api y m d \<noteq> None \<longleftrightarrow>
      - 9999 \<le> y \<and> y \<le> 9999 \<and> 1 \<le> m \<and> m \<le> 12 \<and> 1 \<le> d \<and> d \<le> month_len api y m"
    and day_of_iff: "day_of api y m d = Some n \<longleftrightarrow>
      min_day api \<le> n \<and> n \<le> max_day api \<and> ymd_of api n = (y, m, d)"
    and day_of_mono: "day_of api y m d = Some n \<Longrightarrow> day_of api y' m' d' = Some n' \<Longrightarrow>
      12 * y + m < 12 * y' + m' \<Longrightarrow> n < n'"
    and day_of_succ: "day_of api y m d = Some n \<Longrightarrow> day_of api y m d' = Some n' \<Longrightarrow> n' - n = d' - d"

definition no_wrap :: "int \<Rightarrow> bool" where
  "no_wrap n \<longleftrightarrow> \<bar>n\<bar> \<le> 12000000000"

definition month_index :: "civil_api \<Rightarrow> instant \<Rightarrow> int" where
  "month_index api t = (let (y, m, d) = ymd_of api (t div ns_per_day) in 12 * y + m)"

definition month_day :: "civil_api \<Rightarrow> instant \<Rightarrow> int" where
  "month_day api t = (let (y, m, d) = ymd_of api (t div ns_per_day) in d)"

definition days_in :: "civil_api \<Rightarrow> int \<Rightarrow> int" where
  "days_in api mi = month_len api ((mi - 1) div 12) ((mi - 1) mod 12 + 1)"

lemma ns_per_day_pos [simp]: "0 < ns_per_day"
  by (simp add: ns_per_day_def)

lemma day_tod: "(t div ns_per_day) * ns_per_day + t mod ns_per_day = t"
  by simp

lemma day_tod_div: "0 \<le> r \<Longrightarrow> r < ns_per_day \<Longrightarrow> (q * ns_per_day + r) div ns_per_day = q"
  by (simp add: div_pos_pos_trivial)

context civil_laws
begin

lemma ymd_in_range:
  assumes "in_range api t" "ymd_of api (t div ns_per_day) = (y, m, d)"
  shows "day_of api y m d = Some (t div ns_per_day)" "- 9999 \<le> y" "y \<le> 9999" "1 \<le> m" "m \<le> 12"
    "1 \<le> d" "d \<le> month_len api y m"
proof -
  show "day_of api y m d = Some (t div ns_per_day)"
    using assms by (simp add: day_of_iff in_range_def)
  then show "- 9999 \<le> y" "y \<le> 9999" "1 \<le> m" "m \<le> 12" "1 \<le> d" "d \<le> month_len api y m"
    using day_of_valid [of y m d] by auto
qed

lemma add_months_facts:
  assumes t: "in_range api t" and a: "add_months api t n = Some a" and n: "no_wrap n"
  shows "month_index api a = month_index api t + n"
    and "month_day api a = min (month_day api t) (days_in api (month_index api t + n))"
    and "a mod ns_per_day = t mod ns_per_day"
    and "in_range api a"
proof -
  obtain y m d where ymd: "ymd_of api (t div ns_per_day) = (y, m, d)" by (cases "ymd_of api (t div ns_per_day)")
  note r = ymd_in_range [OF t ymd]
  define m0 where "m0 = y * 12 + (m - 1) + n"
  have year: "as_i32 (m0 div 12) = m0 div 12"
  proof (rule as_i32_small)
    have "- 25769803776 \<le> m0" "m0 \<le> 25769803775"
      using r n unfolding m0_def no_wrap_def by linarith+
    then have "- 25769803776 div 12 \<le> m0 div 12" "m0 div 12 \<le> 25769803775 div 12"
      by (intro zdiv_mono1; simp)+
    then show "- 2147483648 \<le> m0 div 12" "m0 div 12 \<le> 2147483647" by simp_all
  qed
  have mi: "month_index api t + n - 1 = m0" by (simp add: month_index_def ymd m0_def)
  have "month_index api a = month_index api t + n \<and>
    month_day api a = min (month_day api t) (days_in api (month_index api t + n)) \<and>
    a mod ns_per_day = t mod ns_per_day \<and> in_range api a"
  proof (cases "n = 0")
    case True
    with a have "a = t" by (simp add: add_months_def)
    moreover have "12 * y + m - 1 = (m - 1) + 12 * y" by simp
    then have "(12 * y + m - 1) div 12 = y" "(12 * y + m - 1) mod 12 = m - 1"
      using r(4,5) by (simp_all only: div_mult_self2 mod_mult_self2) simp_all
    then have "days_in api (month_index api t) = month_len api y m"
      by (simp add: days_in_def month_index_def ymd)
    ultimately show ?thesis using True r t by (simp add: month_day_def ymd)
  next
    case False
    define dd where "dd = min d (month_len api (m0 div 12) (m0 mod 12 + 1))"
    from a False obtain date where
      date: "day_of api (m0 div 12) (m0 mod 12 + 1) dd = Some date"
      and a': "a = date * ns_per_day + t mod ns_per_day"
      by (auto simp: add_months_def ymd Let_def m0_def [symmetric] year dd_def
          split: if_splits option.splits)
    have ad: "a div ns_per_day = date" "a mod ns_per_day = t mod ns_per_day"
      using a' by (simp_all add: day_tod_div)
    from date have ymd': "ymd_of api (a div ns_per_day) = (m0 div 12, m0 mod 12 + 1, dd)"
      and rng: "in_range api a"
      by (simp_all add: ad day_of_iff in_range_def)
    have "month_index api a = m0 + 1" unfolding month_index_def ymd' by simp
    moreover have "month_day api a = dd" unfolding month_day_def ymd' by simp
    moreover have "days_in api (month_index api t + n) = month_len api (m0 div 12) (m0 mod 12 + 1)"
      unfolding days_in_def mi ..
    moreover have "month_day api t = d" unfolding month_day_def ymd by simp
    ultimately show ?thesis using ad rng mi by (simp add: dd_def)
  qed
  then show "month_index api a = month_index api t + n"
    and "month_day api a = min (month_day api t) (days_in api (month_index api t + n))"
    and "a mod ns_per_day = t mod ns_per_day" and "in_range api a" by auto
qed

lemma later_month_later:
  assumes "in_range api a" "in_range api b" "month_index api a < month_index api b"
    and "a mod ns_per_day = b mod ns_per_day"
  shows "a < b"
proof -
  obtain y m d where a: "ymd_of api (a div ns_per_day) = (y, m, d)" by (cases "ymd_of api (a div ns_per_day)")
  obtain y' m' d' where b: "ymd_of api (b div ns_per_day) = (y', m', d')" by (cases "ymd_of api (b div ns_per_day)")
  have "a div ns_per_day < b div ns_per_day"
    using day_of_mono [OF ymd_in_range(1) [OF assms(1) a] ymd_in_range(1) [OF assms(2) b]] assms(3)
    by (simp add: month_index_def a b)
  then have "a div ns_per_day * ns_per_day < b div ns_per_day * ns_per_day" by simp
  then show ?thesis using day_tod [of a] day_tod [of b] assms(4) by linarith
qed

lemma add_months_strict_mono:
  assumes "in_range api t" "add_months api t n = Some a" "add_months api t n' = Some b"
    and "n < n'" "no_wrap n" "no_wrap n'"
  shows "a < b"
proof -
  note A = add_months_facts [OF assms(1,2,5)] and B = add_months_facts [OF assms(1,3,6)]
  show ?thesis
  proof (rule later_month_later [OF A(4) B(4)])
    show "month_index api a < month_index api b" using A(1) B(1) assms(4) by linarith
    show "a mod ns_per_day = b mod ns_per_day" using A(3) B(3) by (simp only:)
  qed
qed

lemma anchor_strict_mono:
  assumes "is_positive p" "in_range api s" "anchor api p s k = Some a" "anchor api p s j = Some b"
    and "k < j" "no_wrap (k * p_months p)" "no_wrap (j * p_months p)"
  shows "a < b"
proof -
  from assms(3) obtain a' where a': "add_months api s (k * p_months p) = Some a'"
    "a = a' + k * p_seconds p * ns_per_s"
    by (auto simp: anchor_def Let_def split: if_splits option.splits)
  from assms(4) obtain b' where b': "add_months api s (j * p_months p) = Some b'"
    "b = b' + j * p_seconds p * ns_per_s"
    by (auto simp: anchor_def Let_def split: if_splits option.splits)
  show ?thesis
  proof (cases "p_months p = 0")
    case True
    with assms(1) have "0 < p_seconds p" by (simp add: is_positive_def)
    with True a' b' assms(5) show ?thesis by (simp add: add_months_def ns_per_s_def)
  next
    case False
    with assms(1) have pos: "0 < p_months p" "0 \<le> p_seconds p" by (auto simp: is_positive_def)
    with assms(5) have "k * p_months p < j * p_months p" by simp
    then have "a' < b'" using add_months_strict_mono [OF assms(2) a'(1) b'(1)] assms(6,7) by simp
    moreover have "k * p_seconds p \<le> j * p_seconds p" using pos assms(5) by (simp add: mult_right_mono)
    ultimately show ?thesis using a'(2) b'(2) by (simp add: ns_per_s_def)
  qed
qed

end

section \<open>The walk\<close>

text \<open>
  \<open>bracketed api p start t lo hi\<close>: the anchors \<open>lo\<close> to \<open>hi\<close> exist (computing them does not panic),
  \<open>lo\<close>'s is not after \<open>t\<close>, \<open>hi\<close>'s is, and no month count in between leaves the range in which the
  \<open>as i32\<close> of the year is exact.
\<close>

definition bracketed ::
    "civil_api \<Rightarrow> calendar_period \<Rightarrow> instant \<Rightarrow> instant \<Rightarrow> int \<Rightarrow> int \<Rightarrow> bool" where
  "bracketed api p start t lo hi \<longleftrightarrow>
     in_i64 lo \<and> in_i64 hi \<and> lo \<le> hi \<and> no_wrap (lo * p_months p) \<and> no_wrap (hi * p_months p) \<and>
     list_all (\<lambda>k. anchor api p start k \<noteq> None) [lo..hi] \<and>
     (case anchor api p start lo of None \<Rightarrow> False | Some a \<Rightarrow> a \<le> t) \<and>
     (case anchor api p start hi of None \<Rightarrow> False | Some b \<Rightarrow> t < b)"

lemma walk_down_finds:
  assumes "\<forall>j\<in>{lo..k}. \<exists>a. anchor api p s j = Some a" "lo \<le> k" "in_i64 lo" "in_i64 k"
    and "anchor api p s lo = Some a0" "a0 \<le> t"
  shows "\<exists>r a. walk_down api p s t k = Some r \<and> lo \<le> r \<and> r \<le> k \<and> anchor api p s r = Some a \<and> a \<le> t"
  using assms
proof (induction "nat (k - lo)" arbitrary: k)
  case 0
  then have "k = lo" by simp
  with 0 show ?case by (subst walk_down.simps) auto
next
  case (Suc n)
  then obtain a where a: "anchor api p s k = Some a" by fastforce
  show ?case
  proof (cases "t < a")
    case True
    have "\<exists>r a. walk_down api p s t (k - 1) = Some r \<and> lo \<le> r \<and> r \<le> k - 1 \<and>
        anchor api p s r = Some a \<and> a \<le> t"
      using Suc.hyps(2) Suc.prems by (intro Suc.hyps(1)) (auto simp: in_i64_def)
    moreover have "in_i64 (k - 1)" using Suc.hyps(2) Suc.prems by (auto simp: in_i64_def)
    ultimately show ?thesis using a True by (subst walk_down.simps) fastforce
  next
    case False
    with a Suc.prems show ?thesis by (subst walk_down.simps) auto
  qed
qed

lemma walk_up_finds:
  assumes "\<forall>j\<in>{k..hi}. \<exists>a. anchor api p s j = Some a" "k < hi" "in_i64 hi" "in_i64 k"
    and "anchor api p s hi = Some b0" "t < b0" "anchor api p s k = Some a" "a \<le> t"
  shows "\<exists>r a b. walk_up api p s t k = Some r \<and> k \<le> r \<and> r < hi \<and> anchor api p s r = Some a \<and> a \<le> t
    \<and> anchor api p s (r + 1) = Some b \<and> t < b"
  using assms
proof (induction "nat (hi - k)" arbitrary: k a)
  case 0
  then show ?case by simp
next
  case (Suc n)
  have i: "in_i64 (k + 1)" using Suc.prems by (auto simp: in_i64_def)
  from Suc.prems(1,2) obtain b where b: "anchor api p s (k + 1) = Some b" by fastforce
  show ?case
  proof (cases "b \<le> t")
    case True
    then have "k + 1 < hi" using Suc.prems b by (cases "k + 1 = hi") auto
    have "\<exists>r a b. walk_up api p s t (k + 1) = Some r \<and> k + 1 \<le> r \<and> r < hi \<and>
        anchor api p s r = Some a \<and> a \<le> t \<and> anchor api p s (r + 1) = Some b \<and> t < b"
      using Suc.hyps(2) Suc.prems \<open>k + 1 < hi\<close> i b True by (intro Suc.hyps(1) [of "k + 1" b]) auto
    then show ?thesis using b True i by (subst walk_up.simps) fastforce
  next
    case False
    with Suc.prems b i show ?thesis by (subst walk_up.simps) auto
  qed
qed

lemma floor_walk:
  assumes p: "is_positive p" and br: "bracketed api p s t lo hi"
    and g: "lo \<le> floor_guess p s t" "floor_guess p s t \<le> hi"
  shows "\<exists>k a b. floor_index api p s t = Some k \<and> lo \<le> k \<and> k < hi \<and> anchor api p s k = Some a \<and> a \<le> t
    \<and> anchor api p s (k + 1) = Some b \<and> t < b"
proof -
  let ?g = "floor_guess p s t"
  from br obtain a0 b0 where ends: "anchor api p s lo = Some a0" "a0 \<le> t"
      "anchor api p s hi = Some b0" "t < b0" and i: "in_i64 lo" "in_i64 hi" "lo \<le> hi"
    by (auto simp: bracketed_def split: option.splits)
  from br have all: "\<forall>j\<in>{lo..hi}. \<exists>a. anchor api p s j = Some a"
    by (auto simp: bracketed_def list_all_iff)
  have "in_i64 ?g" by (simp add: floor_guess_def in_i64_as_i64)
  then obtain r a where r: "walk_down api p s t ?g = Some r" "lo \<le> r" "r \<le> ?g"
      "anchor api p s r = Some a" "a \<le> t"
    using walk_down_finds [of lo ?g api p s a0 t] all g ends i by auto
  have "r < hi" using r ends g by (cases "r = hi") auto
  have "in_i64 r" using r(2) \<open>r < hi\<close> i by (auto simp: in_i64_def)
  then obtain k a' b where k: "walk_up api p s t r = Some k" "r \<le> k" "k < hi"
      "anchor api p s k = Some a'" "a' \<le> t" "anchor api p s (k + 1) = Some b" "t < b"
    using walk_up_finds [of r hi api p s b0 t a] all ends i r \<open>r < hi\<close> by auto
  have "0 < p_months p * mean_month_s + p_seconds p"
    using p by (auto simp: is_positive_def mean_month_s_def)
  then have "floor_index api p s t = Some k" using r k by (simp add: floor_index_def)
  with k r show ?thesis by fastforce
qed

end
