(* ===== verification/Gregorian.thy ===== *)
theory Gregorian
  imports Calendar
begin

text \<open>
  An instance of the calendar parameter: the proleptic Gregorian calendar of the years \<open>-9999\<close>
  to \<open>9999\<close>, with days counted from 1970-01-01. It satisfies \<open>civil_laws\<close>, so the hypotheses the
  calendar's theorems make about the \<open>time\<close> crate can hold, and their witnesses compute with it.
  The theorems about anchors and the index of an anchor follow.
\<close>

section \<open>The calendar\<close>

definition leap :: "int \<Rightarrow> bool" where
  "leap y \<longleftrightarrow> y mod 4 = 0 \<and> (y mod 100 \<noteq> 0 \<or> y mod 400 = 0)"

definition mlen :: "int \<Rightarrow> int \<Rightarrow> int" where
  "mlen y m =
     (if m = 2 then (if leap y then 29 else 28)
      else if m = 4 \<or> m = 6 \<or> m = 9 \<or> m = 11 then 30 else 31)"

definition before_year :: "int \<Rightarrow> int" where
  "before_year y = 365 * (y - 1970) + ((y - 1) div 4 - (y - 1) div 100 + (y - 1) div 400) - 477"

definition before_month :: "int \<Rightarrow> int \<Rightarrow> int" where
  "before_month y m =
     (if m = 1 then 0 else if m = 2 then 31
      else (if leap y then 1 else 0) +
        (if m = 3 then 59 else if m = 4 then 90 else if m = 5 then 120 else if m = 6 then 151
         else if m = 7 then 181 else if m = 8 then 212 else if m = 9 then 243
         else if m = 10 then 273 else if m = 11 then 304 else if m = 12 then 334 else 365))"

definition valid_date :: "int \<Rightarrow> int \<Rightarrow> int \<Rightarrow> bool" where
  "valid_date y m d \<longleftrightarrow>
     - 9999 \<le> y \<and> y \<le> 9999 \<and> 1 \<le> m \<and> m \<le> 12 \<and> 1 \<le> d \<and> d \<le> mlen y m"

definition day_number :: "int \<Rightarrow> int \<Rightarrow> int \<Rightarrow> int" where
  "day_number y m d = before_year y + before_month y m + d - 1"

definition year_of :: "int \<Rightarrow> int" where
  "year_of n =
     (let e = (400 * n) div 146097 + 1970 in
      if n < before_year e then e - 1 else if before_year (e + 1) \<le> n then e + 1 else e)"

definition month_at :: "int \<Rightarrow> int \<Rightarrow> int" where
  "month_at y r =
     (if r < before_month y 2 then 1 else if r < before_month y 3 then 2
      else if r < before_month y 4 then 3 else if r < before_month y 5 then 4
      else if r < before_month y 6 then 5 else if r < before_month y 7 then 6
      else if r < before_month y 8 then 7 else if r < before_month y 9 then 8
      else if r < before_month y 10 then 9 else if r < before_month y 11 then 10
      else if r < before_month y 12 then 11 else 12)"

definition date_of :: "int \<Rightarrow> int \<times> int \<times> int" where
  "date_of n =
     (let y = year_of n; r = n - before_year y; m = month_at y r
      in (y, m, r - before_month y m + 1))"

definition greg_api :: civil_api where
  "greg_api =
     \<lparr>ymd_of = date_of,
      day_of = (\<lambda>y m d. if valid_date y m d then Some (day_number y m d) else None),
      month_len = mlen,
      min_day = before_year (- 9999),
      max_day = before_year 10000 - 1\<rparr>"

section \<open>Years and months\<close>

lemma div_step:
  fixes y k :: int
  assumes "1 < k"
  shows "y div k - (y - 1) div k = (if y mod k = 0 then 1 else 0)"
proof (cases "y mod k = 0")
  case True
  have "y = k * (y div k)" using True by auto
  then have eq: "y - 1 = k * (y div k - 1) + (k - 1)" by (simp add: algebra_simps)
  have "(y - 1) div k = y div k - 1" using assms by (intro int_div_pos_eq [OF eq]) simp_all
  with True show ?thesis by simp
next
  case False
  have "y mod k \<ge> 1" using assms False pos_mod_sign [of k y] by linarith
  moreover have eq: "y - 1 = k * (y div k) + (y mod k - 1)" by simp
  moreover have "y mod k < k" using assms by simp
  ultimately have "(y - 1) div k = y div k" by (intro int_div_pos_eq [OF eq]) simp_all
  with False show ?thesis by simp
qed

lemma leap_count:
  fixes a b c a' b' c' :: int
  assumes "a - a' = (if p then 1 else 0)" "b - b' = (if q then 1 else 0)" "c - c' = (if r then 1 else 0)"
    and "r \<Longrightarrow> q" "q \<Longrightarrow> p"
  shows "a - b + c = a' - b' + c' + (if p \<and> (\<not> q \<or> r) then 1 else 0)"
  using assms by (cases p; cases q; cases r) auto

lemma before_year_step: "before_year (y + 1) = before_year y + 365 + (if leap y then 1 else 0)"
proof -
  have c: "y mod 400 = 0 \<Longrightarrow> y mod 100 = 0" "y mod 100 = 0 \<Longrightarrow> y mod 4 = 0"
    using mod_mod_cancel [of 100 400 y] mod_mod_cancel [of 4 100 y] by simp_all
  have d: "y div 4 - (y - 1) div 4 = (if y mod 4 = 0 then 1 else 0)"
    "y div 100 - (y - 1) div 100 = (if y mod 100 = 0 then 1 else 0)"
    "y div 400 - (y - 1) div 400 = (if y mod 400 = 0 then 1 else 0)"
    by (rule div_step, simp)+
  have "y div 4 - y div 100 + y div 400 =
      (y - 1) div 4 - (y - 1) div 100 + (y - 1) div 400 + (if leap y then 1 else 0)"
    unfolding leap_def by (rule leap_count [OF d c])
  moreover define A where "A = y div 4 - y div 100 + y div 400"
  moreover define B where "B = (y - 1) div 4 - (y - 1) div 100 + (y - 1) div 400"
  ultimately have AB: "A = B + (if leap y then 1 else 0)" by simp
  have "before_year (y + 1) = 365 * (y + 1 - 1970) + A - 477"
    by (simp only: before_year_def A_def add_diff_cancel_right')
  moreover have "before_year y = 365 * (y - 1970) + B - 477"
    by (simp only: before_year_def B_def)
  ultimately show ?thesis using AB by simp
qed

lemma before_year_estimate:
  "146000 * (y - 1970) + 97 * (y - 1) - 699 - 190800 \<le> 400 * before_year y"
  "400 * before_year y \<le> 146000 * (y - 1970) + 97 * (y - 1) + 396 - 190800"
proof -
  define a b c where abc: "a = (y - 1) div 4" "b = (y - 1) div 100" "c = (y - 1) div 400"
  define a' b' c' where abc': "a' = (y - 1) mod 4" "b' = (y - 1) mod 100" "c' = (y - 1) mod 400"
  have e: "4 * a + a' = y - 1" "100 * b + b' = y - 1" "400 * c + c' = y - 1"
    by (simp_all add: abc abc')
  have r: "0 \<le> a'" "a' < 4" "0 \<le> b'" "b' < 100" "0 \<le> c'" "c' < 400"
    by (simp_all add: abc')
  have y: "before_year y = 365 * (y - 1970) + (a - b + c) - 477"
    by (simp add: before_year_def abc)
  show "146000 * (y - 1970) + 97 * (y - 1) - 699 - 190800 \<le> 400 * before_year y"
    using e r y by (simp add: algebra_simps)
  show "400 * before_year y \<le> 146000 * (y - 1970) + 97 * (y - 1) + 396 - 190800"
    using e r y by (simp add: algebra_simps)
qed

lemma before_year_mono: "y < y' \<Longrightarrow> before_year y + 365 \<le> before_year y'"
proof (induction "nat (y' - y)" arbitrary: y')
  case 0
  then show ?case by simp
next
  case (Suc n)
  have step: "before_year y' = before_year (y' - 1) + 365 + (if leap (y' - 1) then 1 else 0)"
    using before_year_step [of "y' - 1"] by simp
  show ?case
  proof (cases "y = y' - 1")
    case True
    with step show ?thesis by simp
  next
    case False
    with Suc have "before_year y + 365 \<le> before_year (y' - 1)" by simp
    with step show ?thesis by simp
  qed
qed

lemma before_year_mono_le: "y \<le> y' \<Longrightarrow> before_year y \<le> before_year y'"
  using before_year_mono [of y y'] by (cases "y = y'") auto

lemma year_of_bounds: "before_year (year_of n) \<le> n \<and> n < before_year (year_of n + 1)"
proof -
  define e where "e = (400 * n) div 146097 + 1970"
  have q: "146097 * (e - 1970) \<le> 400 * n" "400 * n < 146097 * (e - 1970) + 146097"
    using pos_mod_bound [of 146097 "400 * n"] pos_mod_sign [of 146097 "400 * n"]
      mult_div_mod_eq [of 146097 "400 * n"] by (simp_all add: e_def)
  have "before_year (e - 1) \<le> n"
    using before_year_estimate(2) [of "e - 1"] q by (simp add: algebra_simps)
  moreover have "n < before_year (e + 1 + 1)"
    using before_year_estimate(1) [of "e + 1 + 1"] q by (simp add: algebra_simps)
  moreover have "year_of n = (if n < before_year e then e - 1 else if before_year (e + 1) \<le> n then e + 1 else e)"
    by (simp add: year_of_def e_def)
  ultimately show ?thesis by (simp add: not_less not_le)
qed

lemma year_of_unique:
  assumes "before_year y \<le> n" "n < before_year (y + 1)"
  shows "year_of n = y"
proof (rule ccontr)
  assume "year_of n \<noteq> y"
  then consider "year_of n + 1 \<le> y" | "y + 1 \<le> year_of n" by linarith
  then show False
    using before_year_mono_le [of "year_of n + 1" y] before_year_mono_le [of "y + 1" "year_of n"]
      year_of_bounds [of n] assms by cases auto
qed

lemma twelve_cases:
  "(1::int) \<le> m \<Longrightarrow> m \<le> 12 \<Longrightarrow>
   m = 1 \<or> m = 2 \<or> m = 3 \<or> m = 4 \<or> m = 5 \<or> m = 6 \<or> m = 7 \<or> m = 8 \<or> m = 9 \<or> m = 10 \<or> m = 11 \<or> m = 12"
  by arith

lemma before_month_step:
  "1 \<le> m \<Longrightarrow> m \<le> 12 \<Longrightarrow> before_month y (m + 1) = before_month y m + mlen y m"
  by (drule (1) twelve_cases) (auto simp: before_month_def mlen_def)

lemma before_month_13: "before_month y 13 = 365 + (if leap y then 1 else 0)"
  by (simp add: before_month_def)

lemma month_at_before: "1 \<le> m \<Longrightarrow> m \<le> 12 \<Longrightarrow> 1 \<le> d \<Longrightarrow> d \<le> mlen y m \<Longrightarrow>
  month_at y (before_month y m + d - 1) = m"
  by (drule (1) twelve_cases, cases "leap y"; elim disjE; simp add: month_at_def before_month_def mlen_def)

lemma month_at_cases:
  assumes "r < before_month y 2 \<Longrightarrow> P 1"
    and "before_month y 2 \<le> r \<Longrightarrow> r < before_month y 3 \<Longrightarrow> P 2"
    and "before_month y 3 \<le> r \<Longrightarrow> r < before_month y 4 \<Longrightarrow> P 3"
    and "before_month y 4 \<le> r \<Longrightarrow> r < before_month y 5 \<Longrightarrow> P 4"
    and "before_month y 5 \<le> r \<Longrightarrow> r < before_month y 6 \<Longrightarrow> P 5"
    and "before_month y 6 \<le> r \<Longrightarrow> r < before_month y 7 \<Longrightarrow> P 6"
    and "before_month y 7 \<le> r \<Longrightarrow> r < before_month y 8 \<Longrightarrow> P 7"
    and "before_month y 8 \<le> r \<Longrightarrow> r < before_month y 9 \<Longrightarrow> P 8"
    and "before_month y 9 \<le> r \<Longrightarrow> r < before_month y 10 \<Longrightarrow> P 9"
    and "before_month y 10 \<le> r \<Longrightarrow> r < before_month y 11 \<Longrightarrow> P 10"
    and "before_month y 11 \<le> r \<Longrightarrow> r < before_month y 12 \<Longrightarrow> P 11"
    and "before_month y 12 \<le> r \<Longrightarrow> P 12"
  shows "P (month_at y r)"
  using assms by (simp add: month_at_def not_less)

lemma month_at_bounds:
  assumes "0 \<le> r" "r < 365 + (if leap y then 1 else 0)"
  shows "1 \<le> month_at y r \<and> month_at y r \<le> 12 \<and> before_month y (month_at y r) \<le> r \<and>
    r < before_month y (month_at y r) + mlen y (month_at y r)"
proof -
  note st = before_month_step [of _ y, symmetric]
  show ?thesis
    by (rule month_at_cases [of r y]) (use assms before_month_13 [of y] in \<open>simp_all add: st\<close>,
      simp add: before_month_def)
qed

lemma mlen_bounds: "28 \<le> mlen y m" "mlen y m \<le> 31"
  by (simp_all add: mlen_def)

lemma before_month_mono: "1 \<le> m \<Longrightarrow> m \<le> m' \<Longrightarrow> m' \<le> 13 \<Longrightarrow> before_month y m \<le> before_month y m'"
proof (induction "nat (m' - m)" arbitrary: m')
  case 0
  then show ?case by simp
next
  case (Suc n)
  then have "before_month y m \<le> before_month y (m' - 1)" by simp
  moreover have "before_month y m' = before_month y (m' - 1) + mlen y (m' - 1)"
    using before_month_step [of "m' - 1" y] Suc by simp
  ultimately show ?case using mlen_bounds(1) [of y "m' - 1"] by linarith
qed

lemma before_month_le:
  assumes "1 \<le> m" "m \<le> 12" "d \<le> mlen y m" "1 \<le> d"
  shows "0 \<le> before_month y m" "before_month y m + d \<le> 365 + (if leap y then 1 else 0)"
proof -
  have "before_month y 1 = 0" by (simp add: before_month_def)
  then show "0 \<le> before_month y m" using before_month_mono [of 1 m y] assms by simp
  show "before_month y m + d \<le> 365 + (if leap y then 1 else 0)"
    using before_month_step [OF assms(1,2), of y] before_month_mono [of "m + 1" 13 y]
      before_month_13 [of y] assms by simp
qed

lemma date_of_day_number:
  assumes "valid_date y m d"
  shows "date_of (day_number y m d) = (y, m, d)"
proof -
  from assms have v: "1 \<le> m" "m \<le> 12" "1 \<le> d" "d \<le> mlen y m" by (auto simp: valid_date_def)
  note b = before_month_le [OF v(1,2,4,3)]
  have "year_of (day_number y m d) = y"
    using b v before_year_step [of y] by (intro year_of_unique) (auto simp: day_number_def)
  moreover have "day_number y m d - before_year y = before_month y m + d - 1" by (simp add: day_number_def)
  ultimately show ?thesis using month_at_before [OF v] by (simp add: date_of_def Let_def)
qed

lemma day_number_date_of:
  assumes "date_of n = (y, m, d)"
  shows "day_number y m d = n" "1 \<le> m" "m \<le> 12" "1 \<le> d" "d \<le> mlen y m" "y = year_of n"
proof -
  let ?y = "year_of n" let ?r = "n - before_year (year_of n)"
  have r: "0 \<le> ?r" "?r < 365 + (if leap ?y then 1 else 0)"
    using year_of_bounds [of n] before_year_step [of ?y] by auto
  note mb = month_at_bounds [OF r]
  from assms show y: "y = year_of n" by (simp add: date_of_def Let_def)
  from assms have m: "m = month_at ?y ?r" and d: "d = ?r - before_month ?y (month_at ?y ?r) + 1"
    by (auto simp: date_of_def Let_def)
  show "day_number y m d = n" "1 \<le> m" "m \<le> 12" "1 \<le> d" "d \<le> mlen y m"
    using mb by (auto simp: day_number_def m d y)
qed

lemma year_of_range:
  assumes "before_year (- 9999) \<le> n" "n \<le> before_year 10000 - 1"
  shows "- 9999 \<le> year_of n" "year_of n \<le> 9999"
proof -
  show "- 9999 \<le> year_of n"
    using before_year_mono_le [of "year_of n + 1" "- 9999"] year_of_bounds [of n] assms by linarith
  show "year_of n \<le> 9999"
    using before_year_mono_le [of 10000 "year_of n"] year_of_bounds [of n] assms by linarith
qed

lemma day_number_range:
  assumes "valid_date y m d"
  shows "before_year (- 9999) \<le> day_number y m d" "day_number y m d \<le> before_year 10000 - 1"
proof -
  from assms have v: "1 \<le> m" "m \<le> 12" "1 \<le> d" "d \<le> mlen y m" "- 9999 \<le> y" "y \<le> 9999"
    by (auto simp: valid_date_def)
  note b = before_month_le [OF v(1,2,4,3)]
  have "before_year (- 9999) \<le> before_year y"
    using before_year_mono [of "- 9999" y] v by (cases "y = - 9999") auto
  moreover have "before_year (y + 1) \<le> before_year 10000"
    using before_year_mono [of "y + 1" 10000] v by (cases "y + 1 = 10000") auto
  ultimately show "before_year (- 9999) \<le> day_number y m d" "day_number y m d \<le> before_year 10000 - 1"
    using b v before_year_step [of y] by (auto simp: day_number_def split: if_splits)
qed

lemma day_number_mono:
  assumes "valid_date y m d" "valid_date y' m' d'" "12 * y + m < 12 * y' + m'"
  shows "day_number y m d < day_number y' m' d'"
proof -
  from assms have v: "1 \<le> m" "m \<le> 12" "1 \<le> d" "d \<le> mlen y m" "1 \<le> m'" "m' \<le> 12" "1 \<le> d'" "d' \<le> mlen y' m'"
    by (auto simp: valid_date_def)
  show ?thesis
  proof (cases "y = y'")
    case True
    then have "m < m'" using assms(3) by simp
    then have "before_month y m + mlen y m \<le> before_month y m'"
      using before_month_step [OF v(1,2)] before_month_mono [of "m + 1" m' y] v by simp
    with True v show ?thesis by (simp add: day_number_def)
  next
    case False
    then have "y < y'" using assms(3) v by linarith
    then have "before_year (y + 1) \<le> before_year y'"
      using before_year_mono [of "y + 1" y'] by (cases "y + 1 = y'") auto
    then show ?thesis
      using before_month_le [OF v(1,2,4,3)] before_month_le [OF v(5,6,8,7)] v before_year_step [of y]
      by (auto simp: day_number_def)
  qed
qed

interpretation greg: civil_laws greg_api
proof
  fix y m d n
  show "day_of greg_api y m d = Some n \<longleftrightarrow>
      min_day greg_api \<le> n \<and> n \<le> max_day greg_api \<and> ymd_of greg_api n = (y, m, d)"
  proof
    assume "day_of greg_api y m d = Some n"
    then have "valid_date y m d" "n = day_number y m d" by (auto simp: greg_api_def split: if_splits)
    then show "min_day greg_api \<le> n \<and> n \<le> max_day greg_api \<and> ymd_of greg_api n = (y, m, d)"
      using day_number_range date_of_day_number by (simp add: greg_api_def)
  next
    assume a: "min_day greg_api \<le> n \<and> n \<le> max_day greg_api \<and> ymd_of greg_api n = (y, m, d)"
    then have "date_of n = (y, m, d)" and r: "before_year (- 9999) \<le> n" "n \<le> before_year 10000 - 1"
      by (simp_all add: greg_api_def)
    then show "day_of greg_api y m d = Some n"
      using day_number_date_of year_of_range [OF r] by (auto simp: greg_api_def valid_date_def)
  qed
qed (auto simp: greg_api_def mlen_bounds valid_date_def day_number_def split: if_splits
      intro: day_number_mono [unfolded day_number_def])


section \<open>Anchors and indices\<close>

text \<open>
  An anchor of a period of whole months is the start moved by exactly that many months, with
  the day of the month clamped to the target month's length and the time of day kept. The clamp
  is always taken from the start, never from the previous anchor.
\<close>

theorem month_anchor_clamps:
  assumes "civil_laws api" and "in_range api start" and "no_wrap (k * m)"
    and "anchor api (months_period m) start k = Some a"
  shows "month_index api a = month_index api start + k * m \<and>
    month_day api a = min (month_day api start) (days_in api (month_index api a)) \<and>
    a mod ns_per_day = start mod ns_per_day"
proof -
  from assms(4) have "add_months api start (k * m) = Some a"
    by (auto simp: anchor_def months_period_def Let_def split: if_splits option.splits)
  from civil_laws.add_months_facts [OF assms(1,2) this assms(3)] show ?thesis by metis
qed

text \<open>2016-01-31 06:00 plus one month is 2016-02-29 06:00.\<close>

definition jan31 :: instant where
  "jan31 = (16831 * 86400 + 6 * 3600) * ns_per_s"

lemma jan31_in_range: "in_range greg_api jan31"
  by code_simp

lemma jan31_anchor: "anchor greg_api (months_period 1) jan31 1 = Some (jan31 + 29 * ns_per_day)"
  by code_simp

theorem month_anchor_clamps_witness:
  "month_day greg_api (jan31 + 29 * ns_per_day) = 29"
proof -
  have "no_wrap (1 * 1)" by (simp add: no_wrap_def)
  from month_anchor_clamps [OF greg.civil_laws_axioms jan31_in_range this jan31_anchor]
  have "month_day greg_api (jan31 + 29 * ns_per_day) =
      min (month_day greg_api jan31) (days_in greg_api (month_index greg_api jan31 + 1 * 1))" by simp
  also have "\<dots> = 29" by code_simp
  finally show ?thesis .
qed

text \<open>
  The anchors of a positive period are strictly increasing in their index, whatever the
  clamping does, as long as the month counts stay in the range where the year's \<open>as i32\<close> is exact.
\<close>

theorem anchors_strictly_increasing:
  assumes "civil_laws api" and "is_positive p" and "in_range api start"
    and "no_wrap (k * p_months p)" and "no_wrap (j * p_months p)" and "k < j"
    and "anchor api p start k = Some a" and "anchor api p start j = Some b"
  shows "a < b"
  using civil_laws.anchor_strict_mono [OF assms(1,2,3,7,8,6,4,5)] .

lemma jan31_anchor2: "anchor greg_api (months_period 1) jan31 2 = Some (jan31 + 60 * ns_per_day)"
  by code_simp

theorem anchors_strictly_increasing_witness: "jan31 + 29 * ns_per_day < jan31 + 60 * ns_per_day"
  by (rule anchors_strictly_increasing [OF greg.civil_laws_axioms _ jan31_in_range _ _ _
        jan31_anchor jan31_anchor2])
    (simp_all add: is_positive_def months_period_def no_wrap_def)

lemma bracketed_no_wrap:
  assumes "is_positive p" "bracketed api p start t lo hi" "lo \<le> j" "j \<le> hi"
  shows "no_wrap (j * p_months p)"
proof -
  have "0 \<le> p_months p" using assms(1) by (simp add: is_positive_def)
  then have "lo * p_months p \<le> j * p_months p" "j * p_months p \<le> hi * p_months p"
    using assms(3,4) by (simp_all add: mult_right_mono)
  then show ?thesis using assms(2) by (auto simp: bracketed_def no_wrap_def)
qed

lemma floor_char:
  assumes "civil_laws api" and p: "is_positive p" and "in_range api start"
    and br: "bracketed api p start t lo hi"
    and g: "lo \<le> floor_guess p start t" "floor_guess p start t \<le> hi"
    and k: "floor_index api p start t = Some k"
    and j: "j \<in> {lo..hi}" and c: "anchor api p start j = Some c"
  shows "c \<le> t \<longleftrightarrow> j \<le> k"
proof -
  obtain a b where a: "lo \<le> k" "k < hi"
    "anchor api p start k = Some a" "a \<le> t" "anchor api p start (k + 1) = Some b" "t < b"
    using floor_walk [OF p br g] k by auto
  note mono = civil_laws.anchor_strict_mono [OF assms(1,2,3)]
  note w = bracketed_no_wrap [OF p br]
  have "j = k \<or> c < a" if "j \<le> k" using mono [OF c a(3)] that w j a(1,2) by fastforce
  moreover have "j = k + 1 \<or> b < c" if "k < j" using mono [OF a(5) c] that w j a(1,2) by fastforce
  ultimately show ?thesis using c a by (cases "j \<le> k") fastforce+
qed

lemma ceil_char:
  assumes "civil_laws api" and p: "is_positive p" and "in_range api start"
    and br: "bracketed api p start t lo hi"
    and g: "lo \<le> floor_guess p start t" "floor_guess p start t \<le> hi"
  shows "\<exists>k c. ceil_index api p start t = Some k \<and> anchor api p start k = Some c \<and> t \<le> c \<and>
    lo \<le> k \<and> k \<le> hi \<and>
    (\<forall>j\<in>{lo..hi}. \<forall>c. anchor api p start j = Some c \<longrightarrow> (t \<le> c \<longleftrightarrow> k \<le> j))"
proof -
  obtain k a b where k: "floor_index api p start t = Some k" "lo \<le> k" "k < hi"
    "anchor api p start k = Some a" "a \<le> t" "anchor api p start (k + 1) = Some b" "t < b"
    using floor_walk [OF p br g] by blast
  have "in_i64 (k + 1)" using br k by (auto simp: bracketed_def in_i64_def)
  with k have r: "ceil_index api p start t = Some (if a = t then k else k + 1)"
    by (simp add: ceil_index_def)
  note mono = civil_laws.anchor_strict_mono [OF assms(1,2,3)]
  note w = bracketed_no_wrap [OF p br]
  have before: "c < a" if "j \<in> {lo..hi}" "anchor api p start j = Some c" "j < k" for j c
    using mono [OF that(2) k(4)] that w k(2,3) by fastforce
  have t: "c \<le> t \<longleftrightarrow> j \<le> k" if "j \<in> {lo..hi}" "anchor api p start j = Some c" for j c
    using floor_char [OF assms k(1) that] .
  have "t \<le> c \<longleftrightarrow> (if a = t then k else k + 1) \<le> j" if j: "j \<in> {lo..hi}" "anchor api p start j = Some c" for j c
  proof -
    consider "j < k" | "j = k" | "k < j" by linarith
    then show ?thesis
    proof cases
      case 1
      with before [OF j] k(5) show ?thesis by auto
    next
      case 2
      with j(2) k(4,5) show ?thesis by auto
    next
      case 3
      with t [OF j] show ?thesis by auto
    qed
  qed
  then show ?thesis using r k by (cases "a = t") auto
qed

text \<open>
  \<open>floor_index\<close> returns, and its result \<open>k\<close> is the index of the anchor at or before \<open>t\<close>:
  \<open>anchor k \<le> t < anchor (k + 1)\<close>, and among the anchors of the bracket exactly those up to \<open>k\<close> are
  not after \<open>t\<close>. The mean-month estimate only has to fall in the bracket.
\<close>

theorem floor_index_correct:
  assumes "civil_laws api" and "is_positive p" and "in_range api start"
    and br: "bracketed api p start t lo hi"
    and "lo \<le> floor_guess p start t" and "floor_guess p start t \<le> hi"
  shows "\<exists>k a b. floor_index api p start t = Some k \<and>
    anchor api p start k = Some a \<and> a \<le> t \<and> anchor api p start (k + 1) = Some b \<and> t < b \<and>
    (\<forall>j\<in>{lo..hi}. \<forall>c. anchor api p start j = Some c \<longrightarrow> (c \<le> t \<longleftrightarrow> j \<le> k))"
  using floor_walk [OF assms(2,4,5,6)] floor_char [OF assms] by blast

lemma jan31_bracket:
  "bracketed greg_api (months_period 1) jan31 (jan31 + 50 * ns_per_day) 0 3"
  by code_simp

theorem floor_index_correct_witness:
  "\<exists>k. floor_index greg_api (months_period 1) jan31 (jan31 + 50 * ns_per_day) = Some k"
proof -
  have g: "0 \<le> floor_guess (months_period 1) jan31 (jan31 + 50 * ns_per_day)"
    "floor_guess (months_period 1) jan31 (jan31 + 50 * ns_per_day) \<le> 3" by code_simp+
  have p: "is_positive (months_period 1)" by (simp add: is_positive_def months_period_def)
  from floor_index_correct [OF greg.civil_laws_axioms p jan31_in_range jan31_bracket g]
  show ?thesis by blast
qed

lemma whole_seconds_guess:
  fixes e :: int
  assumes s: "0 < s"
  defines "q \<equiv> e div (s * ns_per_s)"
  shows "q \<le> whole_seconds e div s \<and> whole_seconds e div s \<le> q + 1"
proof -
  have n: "0 < ns_per_s" by (simp add: ns_per_s_def)
  have q: "q = e div ns_per_s div s"
    unfolding q_def mult.commute [of s] using s by (intro zdiv_zmult2_eq) simp
  show ?thesis
  proof (cases "0 \<le> e")
    case True
    then have "whole_seconds e = e div ns_per_s"
      using n by (cases "e = 0") (auto simp: whole_seconds_def trunc_div_def)
    with q show ?thesis by simp
  next
    case False
    then have w: "whole_seconds e = - ((- e) div ns_per_s)"
      using n by (simp add: whole_seconds_def trunc_div_def)
    have d: "- ((- e) div ns_per_s) = e div ns_per_s \<or> - ((- e) div ns_per_s) = e div ns_per_s + 1"
      using n zdiv_zminus1_eq_if [of ns_per_s e] by (simp split: if_splits)
    have "(x + 1) div s \<le> x div s + 1" for x
      using s by (metis add.commute div_add_self1 order_less_le zdiv_mono1 zle_add1_eq_le
          add_le_cancel_left int_one_le_iff_zero_less)
    moreover have "x div s \<le> (x + 1) div s" for x using s by (simp add: zdiv_mono1)
    ultimately show ?thesis using d w q by (metis add_increasing2 order_refl zero_le_one)
  qed
qed

lemma div_bracket:
  fixes x d :: int
  assumes "0 < d"
  shows "x div d * d \<le> x" "x < (x div d + 1) * d"
proof -
  have eq: "x div d * d = x - x mod d" by (simp add: minus_mod_eq_div_mult)
  then show "x div d * d \<le> x" using pos_mod_sign [OF assms, of x] by linarith
  show "x < (x div d + 1) * d" using eq pos_mod_bound [OF assms, of x] by (simp add: distrib_right)
qed

lemma fixed_index_fits:
  fixes q s :: int
  assumes "1 \<le> s" "s < 9000000000" "- 9000000000000 - s \<le> q * s" "q * s \<le> 9000000000000"
  shows "in_i64 q" "in_i64 (q + 1)" "in_i64 (q * s)" "in_i64 ((q + 1) * s)"
proof -
  have "q \<le> 9000000000000"
  proof (rule ccontr)
    assume *: "\<not> q \<le> 9000000000000"
    then have "q * 1 \<le> q * s" using assms by (intro mult_left_mono) auto
    with assms * show False by simp
  qed
  moreover have "- 9000000000000 - s \<le> q"
  proof (rule ccontr)
    assume *: "\<not> - 9000000000000 - s \<le> q"
    then have "q \<le> 0" using assms by linarith
    then have "q * s \<le> q * 1" using assms by (intro mult_left_mono_neg) auto
    with assms * show False by simp
  qed
  ultimately show "in_i64 q" "in_i64 (q + 1)" "in_i64 (q * s)" "in_i64 ((q + 1) * s)"
    using assms by (auto simp: in_i64_def i64_min_def i64_max_def algebra_simps)
qed

text \<open>
  For a cadence of whole seconds the walk is exact division: the index is
  \<open>(t - start) div step\<close> rounded down, also before the start and for fractions of a second.
\<close>

theorem floor_index_fixed_step:
  assumes step: "0 < s" "s < 9000000000"
    and rng: "\<bar>t - start\<bar> \<le> 9000000000000000000000"
    and q: "q = (t - start) div (s * ns_per_s)"
    and a: "in_range api (start + q * s * ns_per_s)"
    and b: "in_range api (start + (q + 1) * s * ns_per_s)"
  shows "floor_index api (seconds_period s) start t = Some q"
proof -
  let ?p = "seconds_period s"
  have le: "q * (s * ns_per_s) \<le> t - start" "t - start < (q + 1) * (s * ns_per_s)"
    unfolding q using div_bracket [of "s * ns_per_s" "t - start"] step by (simp_all add: ns_per_s_def)
  have "- 9000000000000 - s \<le> q * s" "q * s \<le> 9000000000000"
    using le rng step by (simp_all add: ns_per_s_def algebra_simps)
  then have i: "in_i64 q" "in_i64 (q + 1)" "in_i64 (q * s)" "in_i64 ((q + 1) * s)"
    using fixed_index_fits [of s q] step by auto
  have an: "anchor api ?p start q = Some (start + q * s * ns_per_s)"
    "anchor api ?p start (q + 1) = Some (start + (q + 1) * s * ns_per_s)"
    using i a b by (simp_all add: anchor_def seconds_period_def add_months_def in_i64_0 Let_def)
  have [simp]: "[q..1 + q] = [q, 1 + q]" by (simp add: upto.simps)
  have br: "bracketed api ?p start t q (q + 1)"
    using an i le by (simp add: bracketed_def no_wrap_def seconds_period_def algebra_simps)
  note g = whole_seconds_guess [OF step(1), of "t - start", folded q]
  have "floor_guess ?p start t = whole_seconds (t - start) div s"
    using g i as_i64_small [of "whole_seconds (t - start) div s"]
    by (auto simp: floor_guess_def seconds_period_def in_i64_def)
  then have "q \<le> floor_guess ?p start t" "floor_guess ?p start t \<le> q + 1" using g by auto
  moreover have "is_positive ?p" using step by (simp add: is_positive_def seconds_period_def)
  ultimately show ?thesis using floor_walk [OF _ br] by fastforce
qed

theorem floor_index_fixed_step_witness:
  "floor_index greg_api (seconds_period 3600) jan31 (jan31 - 500000000) = Some (- 1)"
proof (rule floor_index_fixed_step)
  show "in_range greg_api (jan31 + (- 1) * 3600 * ns_per_s)"
    "in_range greg_api (jan31 + (- 1 + 1) * 3600 * ns_per_s)" by code_simp+
  show "- 1 = (jan31 - 500000000 - jan31) div (3600 * ns_per_s)" by code_simp
qed simp_all


text \<open>
  \<open>ceil_index\<close> returns the smallest index of the bracket whose anchor is not before \<open>t\<close>.
\<close>

theorem ceil_index_correct:
  assumes "civil_laws api" and "is_positive p" and "in_range api start"
    and br: "bracketed api p start t lo hi"
    and "lo \<le> floor_guess p start t" and "floor_guess p start t \<le> hi"
  shows "\<exists>k c. ceil_index api p start t = Some k \<and> anchor api p start k = Some c \<and> t \<le> c \<and>
    (\<forall>j\<in>{lo..hi}. \<forall>c. anchor api p start j = Some c \<longrightarrow> (t \<le> c \<longleftrightarrow> k \<le> j))"
  using ceil_char [OF assms] by blast

theorem ceil_index_correct_witness:
  "\<exists>k. ceil_index greg_api (months_period 1) jan31 (jan31 + 50 * ns_per_day) = Some k"
proof -
  have g: "0 \<le> floor_guess (months_period 1) jan31 (jan31 + 50 * ns_per_day)"
    "floor_guess (months_period 1) jan31 (jan31 + 50 * ns_per_day) \<le> 3" by code_simp+
  have p: "is_positive (months_period 1)" by (simp add: is_positive_def months_period_def)
  from ceil_index_correct [OF greg.civil_laws_axioms p jan31_in_range jan31_bracket g]
  show ?thesis by blast
qed

text \<open>
  C12: a deviation. The documentation of \<open>anchor\<close> says it panics when the anchor is outside the years
  the \<open>time\<close> crate represents, but the year goes through \<open>as i32\<close>: \<open>12 * 2^32\<close> months wrap around
  to the start itself, so every such anchor equals the start and the walk never passes it.
\<close>

theorem month_anchor_wraps:
  assumes "civil_laws api" and "in_range api start"
  shows "anchor api (months_period 51539607552) start 1 = Some start"
proof -
  obtain y m d where ymd: "ymd_of api (start div ns_per_day) = (y, m, d)"
    by (cases "ymd_of api (start div ns_per_day)")
  note r = civil_laws.ymd_in_range [OF assms ymd]
  have m0: "y * 12 + (m - 1) + 51539607552 = (m - 1) + 12 * (y + 4294967296)" by simp
  have "(y * 12 + (m - 1) + 51539607552) div 12 = y + 4294967296"
    "(y * 12 + (m - 1) + 51539607552) mod 12 = m - 1"
    unfolding m0 using r by (simp_all only: div_mult_self2 mod_mult_self2) simp_all
  moreover have "as_i32 (y + 4294967296) = y"
  proof -
    have "y + 4294967296 + 2147483648 = (y + 2147483648) + 4294967296 * 1" by simp
    then have "(y + 4294967296 + 2147483648) mod 4294967296 = y + 2147483648"
      using r by (simp only: mod_mult_self2) simp
    then show ?thesis by (simp add: as_i32_def)
  qed
  moreover have "in_i64 (y * 12 + (m - 1) + 51539607552)"
    using r by (simp add: in_i64_def i64_min_def i64_max_def)
  ultimately have "add_months api start 51539607552 = Some start"
    using r day_tod [of start] by (simp add: add_months_def ymd Let_def)
  then show ?thesis
    using assms(2) by (simp add: anchor_def months_period_def in_i64_def i64_min_def i64_max_def Let_def)
qed

theorem month_anchor_wraps_witness:
  "anchor greg_api (months_period 51539607552) jan31 1 = Some jan31"
  by (rule month_anchor_wraps [OF greg.civil_laws_axioms jan31_in_range])

end
