(* ===== verification/Prefetch.thy ===== *)
theory Prefetch
  imports Errors "HOL-Library.Multiset"
begin

text \<open>
  The prefetch group (\<open>rust/src/prefetch.rs\<close>): epochs admitted up to a depth and a byte budget,
  decoded by workers in any interleaving, and taken in the declared order.

  The mutex-protected \<open>State\<close> is the record \<open>pf_state\<close>; each critical section of the code is one
  function on it, and what runs between them (a decode in a worker thread) is an in-flight job of
  the system state \<open>pf_system\<close>. A step of \<open>pf_step\<close> is one critical section by the consumer or by a
  worker, so every interleaving of the threads is a run of it. A decode's outcome is not assumed to
  be the same twice: \<open>cf_produces\<close> relates a member and an anchor to the outcomes it may have (a
  panic is one of its errors). Waiting is a blocked call: \<open>take\<close> answers \<open>None\<close> while the head
  slot is unfinished. The timing statistics and the injected latency are left out.
\<close>

section \<open>The state\<close>

type_synonym cell_key = "nat \<times> int"

datatype 'd cell_status = Queued | Running | CellReady 'd nat | CellFailed "error option"

record 'd cell =
  cl_status :: "'d cell_status"
  cl_slots :: nat
  cl_estimate :: "nat option"

record slot =
  sl_pos :: nat
  sl_keys :: "cell_key list"
  sl_settled :: bool

datatype phase = Idle | Active | Cancelled | PhFailed nat | Closed

record pf_stats =
  ps_peak_bytes :: nat
  ps_epochs_decoded :: nat
  ps_samples_decoded :: nat
  ps_samples_reused :: nat
  ps_oversize_epochs :: nat

text \<open>Members are their keys, in key order; an epoch's boundary is its unix second; \<open>cf_warm\<close> names
  the files a member fetches for a boundary.\<close>

record 'd config =
  cf_members :: "string list"
  cf_boundaries :: "int list"
  cf_anchors :: "int list list"
  cf_depth :: nat
  cf_max_bytes :: "nat option"
  cf_fetch_ahead :: nat
  cf_produces :: "nat \<Rightarrow> int \<Rightarrow> ('d \<times> nat) result \<Rightarrow> bool"
  cf_warm :: "nat \<Rightarrow> int \<Rightarrow> string list"

record 'd pf_state =
  pf_phase :: phase
  pf_generation :: nat
  pf_order :: "nat list"
  pf_next :: nat
  pf_admitted :: nat
  pf_slots :: "slot list"
  pf_cells :: "(cell_key \<times> 'd cell) list"
  pf_queue :: "(nat \<times> cell_key) list"
  pf_fetch_queue :: "(nat \<times> nat \<times> string) list"
  pf_fetch_end :: nat
  pf_fetched :: "(nat \<times> string) list"
  pf_prev_anchor :: "int option list"
  pf_last_taken :: "(int \<times> 'd \<times> nat) option list"
  pf_last_size :: "nat option list"
  pf_running :: nat
  pf_shutdown :: bool
  pf_stats :: pf_stats

definition pf_new :: "nat \<Rightarrow> 'd pf_state" where
  "pf_new members =
     \<lparr>pf_phase = Idle, pf_generation = 0, pf_order = [], pf_next = 0, pf_admitted = 0, pf_slots = [],
      pf_cells = [], pf_queue = [], pf_fetch_queue = [], pf_fetch_end = 0, pf_fetched = [],
      pf_prev_anchor = replicate members None, pf_last_taken = replicate members None,
      pf_last_size = replicate members None, pf_running = 0, pf_shutdown = False,
      pf_stats = \<lparr>ps_peak_bytes = 0, ps_epochs_decoded = 0, ps_samples_decoded = 0,
        ps_samples_reused = 0, ps_oversize_epochs = 0\<rparr>\<rparr>"

definition prefetch_err :: "string \<Rightarrow> error" where
  "prefetch_err detail = PrefetchError detail"

definition closed_err :: error where
  "closed_err = prefetch_err ''the group is closed''"

definition end_order :: "phase \<Rightarrow> 'd pf_state \<Rightarrow> 'd pf_state" where
  "end_order ph st =
     st\<lparr>pf_phase := ph, pf_generation := pf_generation st + 1, pf_order := [], pf_next := 0,
        pf_admitted := 0, pf_slots := [], pf_cells := [], pf_queue := [], pf_fetch_queue := [],
        pf_fetch_end := 0, pf_fetched := [],
        pf_prev_anchor := map (\<lambda>_. None) (pf_prev_anchor st)\<rparr>"

definition finished :: "'d cell_status \<Rightarrow> bool" where
  "finished s = (case s of CellReady d b \<Rightarrow> True | CellFailed e \<Rightarrow> True | _ \<Rightarrow> False)"

definition is_failed :: "'d cell_status \<Rightarrow> bool" where
  "is_failed s = (case s of CellFailed e \<Rightarrow> True | _ \<Rightarrow> False)"

text \<open>\<open>self.cells[k]\<close>: every live slot's keys have a cell (an invariant below); the model reads a
  missing one as queued.\<close>

definition status_of :: "'d pf_state \<Rightarrow> cell_key \<Rightarrow> 'd cell_status" where
  "status_of st k = (case map_of (pf_cells st) k of Some c \<Rightarrow> cl_status c | None \<Rightarrow> Queued)"

definition head_done :: "'d pf_state \<Rightarrow> bool" where
  "head_done st =
     (case pf_slots st of [] \<Rightarrow> False | s # ss \<Rightarrow> list_all (\<lambda>k. finished (status_of st k)) (sl_keys s))"

definition any_failed :: "'d pf_state \<Rightarrow> bool" where
  "any_failed st = list_ex (\<lambda>s. list_ex (\<lambda>k. is_failed (status_of st k)) (sl_keys s)) (pf_slots st)"

definition cell_bytes :: "'d cell \<Rightarrow> nat option" where
  "cell_bytes c =
     (case cl_status c of
        CellReady d b \<Rightarrow> Some b | CellFailed e \<Rightarrow> Some 0 | _ \<Rightarrow> cl_estimate c)"

definition sum_opt :: "nat option list \<Rightarrow> nat option" where
  "sum_opt xs = foldr (\<lambda>a b. case a of None \<Rightarrow> None | Some m \<Rightarrow> map_option ((+) m) b) xs (Some 0)"

definition committed_bytes :: "'d pf_state \<Rightarrow> nat option" where
  "committed_bytes st = sum_opt (map (cell_bytes \<circ> snd) (pf_cells st))"

definition keys_of :: "'d config \<Rightarrow> nat \<Rightarrow> cell_key list" where
  "keys_of cfg epoch = map (\<lambda>i. (i, cf_anchors cfg ! i ! epoch)) [0..<length (cf_members cfg)]"

section \<open>Admission\<close>

definition size_of :: "'d pf_state \<Rightarrow> cell_key \<Rightarrow> nat option" where
  "size_of st k =
     (case pf_last_taken st ! fst k of
        Some (a, d, bytes) \<Rightarrow> if a = snd k then Some bytes else pf_last_size st ! fst k
      | None \<Rightarrow> pf_last_size st ! fst k)"

definition within_budget :: "'d config \<Rightarrow> 'd pf_state \<Rightarrow> cell_key list \<Rightarrow> bool" where
  "within_budget cfg st keys =
     (if pf_admitted st > pf_next st then
        (case cf_max_bytes cfg of
           None \<Rightarrow> True
         | Some mx \<Rightarrow>
             (case (sum_opt (map (size_of st) (filter (\<lambda>k. map_of (pf_cells st) k = None) keys)),
                    committed_bytes st) of
                (Some e, Some c) \<Rightarrow> c + e \<le> mx
              | _ \<Rightarrow> False))
      else True)"

definition bump_reused :: "'d pf_state \<Rightarrow> 'd pf_state" where
  "bump_reused st =
     st\<lparr>pf_stats := (pf_stats st)\<lparr>ps_samples_reused := ps_samples_reused (pf_stats st) + 1\<rparr>\<rparr>"

definition queue_cell :: "cell_key \<Rightarrow> 'd pf_state \<Rightarrow> 'd pf_state" where
  "queue_cell k st =
     st\<lparr>pf_cells := al_put k \<lparr>cl_status = Queued, cl_slots = 1, cl_estimate = pf_last_size st ! fst k\<rparr> (pf_cells st),
        pf_queue := pf_queue st @ [(pf_generation st, k)]\<rparr>"

definition admit_key :: "cell_key \<Rightarrow> 'd pf_state \<Rightarrow> 'd pf_state" where
  "admit_key k st =
     (case map_of (pf_cells st) k of
        Some c \<Rightarrow> bump_reused (st\<lparr>pf_cells := al_put k (c\<lparr>cl_slots := cl_slots c + 1\<rparr>) (pf_cells st)\<rparr>)
      | None \<Rightarrow>
          (case pf_last_taken st ! fst k of
             Some (a, d, bytes) \<Rightarrow>
               if a = snd k then
                 bump_reused (st\<lparr>pf_cells := al_put k
                   \<lparr>cl_status = CellReady d bytes, cl_slots = 1, cl_estimate = Some bytes\<rparr> (pf_cells st)\<rparr>)
               else queue_cell k st
           | None \<Rightarrow> queue_cell k st))"

definition admit_slot :: "'d config \<Rightarrow> 'd pf_state \<Rightarrow> 'd pf_state" where
  "admit_slot cfg st =
     (let keys = keys_of cfg (pf_order st ! pf_admitted st);
          st' = fold admit_key keys st
      in st'\<lparr>pf_slots := pf_slots st' @ [\<lparr>sl_pos = pf_admitted st', sl_keys = keys, sl_settled = False\<rparr>],
             pf_admitted := pf_admitted st' + 1\<rparr>)"

text \<open>The admission loop; the counter is the number of positions left (\<open>order.len() - admitted\<close>),
  which the loop's own guard bounds it by.\<close>

fun admit_slots :: "nat \<Rightarrow> 'd config \<Rightarrow> 'd pf_state \<Rightarrow> 'd pf_state" where
  "admit_slots 0 cfg st = st"
| "admit_slots (Suc n) cfg st =
     (if pf_admitted st - pf_next st < cf_depth cfg \<and> \<not> any_failed st \<and>
         within_budget cfg st (keys_of cfg (pf_order st ! pf_admitted st))
      then admit_slots n cfg (admit_slot cfg st) else st)"

definition ready_bytes :: "'d pf_state \<Rightarrow> cell_key \<Rightarrow> nat" where
  "ready_bytes st k = (case status_of st k of CellReady d b \<Rightarrow> b | _ \<Rightarrow> 0)"

definition slot_ready :: "'d pf_state \<Rightarrow> slot \<Rightarrow> bool" where
  "slot_ready st s =
     list_all (\<lambda>k. case status_of st k of CellReady d b \<Rightarrow> True | _ \<Rightarrow> False) (sl_keys s)"

definition settle :: "'d config \<Rightarrow> 'd pf_state \<Rightarrow> 'd pf_state" where
  "settle cfg st =
     (let fresh_slots = filter (\<lambda>s. \<not> sl_settled s \<and> slot_ready st s) (pf_slots st);
          oversize = filter (\<lambda>s. case cf_max_bytes cfg of
             None \<Rightarrow> False | Some mx \<Rightarrow> sum_list (map (ready_bytes st) (sl_keys s)) > mx) fresh_slots;
          held = sum_list (map (\<lambda>(k, c). case cl_status c of CellReady d b \<Rightarrow> b | _ \<Rightarrow> 0) (pf_cells st));
          stats = pf_stats st
      in st\<lparr>pf_slots := map (\<lambda>s. s\<lparr>sl_settled := sl_settled s \<or> slot_ready st s\<rparr>) (pf_slots st),
            pf_stats := stats\<lparr>ps_epochs_decoded := ps_epochs_decoded stats + length fresh_slots,
              ps_oversize_epochs := ps_oversize_epochs stats + length oversize,
              ps_peak_bytes := max (ps_peak_bytes stats) held\<rparr>\<rparr>)"

definition queue_file :: "nat \<Rightarrow> string \<Rightarrow> 'd pf_state \<Rightarrow> 'd pf_state" where
  "queue_file i url st =
     (if (i, url) \<in> set (pf_fetched st) then st
      else st\<lparr>pf_fetched := (i, url) # pf_fetched st,
              pf_fetch_queue := pf_fetch_queue st @ [(pf_generation st, i, url)]\<rparr>)"

definition queue_files :: "'d config \<Rightarrow> nat \<Rightarrow> 'd pf_state \<Rightarrow> 'd pf_state" where
  "queue_files cfg pos st =
     fold (\<lambda>i. fold (queue_file i) (cf_warm cfg i (cf_boundaries cfg ! (pf_order st ! pos))))
       [0..<length (cf_members cfg)] st"

definition fetch_ahead :: "'d config \<Rightarrow> 'd pf_state \<Rightarrow> 'd pf_state" where
  "fetch_ahead cfg st =
     (if cf_fetch_ahead cfg > 0 \<and> \<not> any_failed st then
        (let stop = min (pf_admitted st + cf_fetch_ahead cfg) (length (pf_order st));
             st' = fold (queue_files cfg) [max (pf_fetch_end st) (pf_admitted st)..<stop] st
         in st'\<lparr>pf_fetch_end := max (pf_fetch_end st') stop\<rparr>)
      else st)"

definition admit :: "'d config \<Rightarrow> 'd pf_state \<Rightarrow> 'd pf_state" where
  "admit cfg st =
     (if pf_phase st \<noteq> Active then st
      else fetch_ahead cfg (settle cfg (admit_slots (length (pf_order st) - pf_admitted st) cfg st)))"

section \<open>The consumer\<close>

datatype order = Forward | Reverse | Explicit "nat list"

definition order_seq :: "nat \<Rightarrow> order \<Rightarrow> nat list result" where
  "order_seq n ord =
     (case ord of
        Forward \<Rightarrow> Inr [0..<n]
      | Reverse \<Rightarrow> Inr (rev [0..<n])
      | Explicit v \<Rightarrow>
          if v = [] then Inl (prefetch_err ''an explicit order must name at least one epoch'')
          else (case find (\<lambda>e. e \<ge> n) v of
                  Some bad \<Rightarrow>
                    Inl (prefetch_err (''epoch '' @ show_nat bad @ '' is out of range: the group has ''
                      @ show_nat n @ '' epochs (0..'' @ show_nat n @ '')''))
                | None \<Rightarrow> Inr v))"

definition from_seq :: "nat option \<Rightarrow> nat list \<Rightarrow> nat list result" where
  "from_seq from seq =
     (case from of
        None \<Rightarrow> Inr seq
      | Some f \<Rightarrow>
          (case position (\<lambda>e. e = f) seq of
             Some at \<Rightarrow> Inr (drop at seq)
           | None \<Rightarrow>
               Inl (prefetch_err (''start(from = '' @ show_nat f @ ''): epoch '' @ show_nat f
                 @ '' is not in the order''))))"

definition pf_start :: "'d config \<Rightarrow> order \<Rightarrow> nat option \<Rightarrow> 'd pf_state \<Rightarrow> unit result \<times> 'd pf_state" where
  "pf_start cfg ord from st =
     (case bindR (order_seq (length (cf_boundaries cfg)) ord) (from_seq from) of
        Inl e \<Rightarrow> (Inl e, st)
      | Inr seq \<Rightarrow>
          if pf_phase st = Closed then (Inl closed_err, st)
          else (Inr (), admit cfg ((end_order Active st)\<lparr>pf_order := seq\<rparr>)))"

record 'd sample =
  sm_data :: 'd
  sm_anchor :: int
  sm_changed :: bool

record 'd epoch_sample =
  es_epoch :: nat
  es_samples :: "(string \<times> 'd sample) list"

definition phase_refusal :: "nat \<Rightarrow> phase \<Rightarrow> error option" where
  "phase_refusal k ph =
     (case ph of
        Active \<Rightarrow> None
      | Idle \<Rightarrow> Some (prefetch_err (''take('' @ show_nat k
          @ '') before any start: declare the order with start first''))
      | Cancelled \<Rightarrow> Some (prefetch_err (''take('' @ show_nat k
          @ '') after cancel: the order was dropped; call start again''))
      | PhFailed e \<Rightarrow> Some (prefetch_err (''take('' @ show_nat k @ ''): the order ended when take(''
          @ show_nat e @ '') raised its stored error; call start again (start(order, Some(''
          @ show_nat (e + 1) @ '')) resumes past it)''))
      | Closed \<Rightarrow> Some closed_err)"

text \<open>One member's part of a take: its reference on the cell is given up, the sample noted.\<close>

definition drop_ref :: "cell_key \<Rightarrow> 'd cell \<Rightarrow> (cell_key \<times> 'd cell) list \<Rightarrow> (cell_key \<times> 'd cell) list" where
  "drop_ref k c cells =
     (if cl_slots c - 1 = 0 then al_del k cells else al_put k (c\<lparr>cl_slots := cl_slots c - 1\<rparr>) cells)"

definition take_key ::
    "'d config \<Rightarrow> nat \<times> cell_key \<Rightarrow> (string \<times> 'd sample) list \<times> 'd pf_state
      \<Rightarrow> (string \<times> 'd sample) list \<times> 'd pf_state" where
  "take_key cfg ik acc =
     (case (ik, acc) of ((i, k), (samples, st)) \<Rightarrow>
       (case map_of (pf_cells st) k of
          Some c \<Rightarrow>
            (case cl_status c of
               CellReady d bytes \<Rightarrow>
                 (samples @ [(cf_members cfg ! i,
                    \<lparr>sm_data = d, sm_anchor = snd k,
                     sm_changed = (pf_prev_anchor st ! i \<noteq> Some (snd k))\<rparr>)],
                  st\<lparr>pf_cells := drop_ref k c (pf_cells st),
                     pf_prev_anchor := (pf_prev_anchor st)[i := Some (snd k)],
                     pf_last_taken := (pf_last_taken st)[i := Some (snd k, d, bytes)]\<rparr>)
             | _ \<Rightarrow> (samples, st))
        | None \<Rightarrow> (samples, st)))"

definition pf_take :: "'d config \<Rightarrow> nat \<Rightarrow> 'd pf_state \<Rightarrow> ('d epoch_sample result \<times> 'd pf_state) option" where
  "pf_take cfg k st =
     (case phase_refusal k (pf_phase st) of
        Some e \<Rightarrow> Some (Inl e, st)
      | None \<Rightarrow>
          if pf_next st \<ge> length (pf_order st) then
            Some (Inl (prefetch_err (''take('' @ show_nat k @ ''): the order is exhausted (all ''
              @ show_nat (length (pf_order st)) @ '' entries taken); call start again'')), st)
          else if k \<noteq> pf_order st ! pf_next st then
            Some (Inl (prefetch_err (''take('' @ show_nat k
              @ ''): the next epoch in the current order is '' @ show_nat (pf_order st ! pf_next st))), st)
          else if \<not> head_done st then None
          else
            (let head = hd (pf_slots st); st1 = st\<lparr>pf_slots := tl (pf_slots st)\<rparr> in
             case find (\<lambda>key. is_failed (status_of st1 key)) (sl_keys head) of
               Some key \<Rightarrow>
                 Some (Inl (case status_of st1 key of
                          CellFailed (Some e) \<Rightarrow> e
                        | _ \<Rightarrow> prefetch_err (''take('' @ show_nat k @ ''): a member decode failed'')),
                       end_order (PhFailed k) st1)
             | None \<Rightarrow>
                 (let (samples, st2) = fold (take_key cfg) (zip [0..<length (sl_keys head)] (sl_keys head)) ([], st1)
                  in Some (Inr \<lparr>es_epoch = k, es_samples = samples\<rparr>,
                           admit cfg (st2\<lparr>pf_next := pf_next st2 + 1\<rparr>)))))"

definition pf_ready :: "nat \<Rightarrow> 'd pf_state \<Rightarrow> bool" where
  "pf_ready k st \<longleftrightarrow>
     pf_phase st = Active \<and> pf_next st < length (pf_order st) \<and> pf_order st ! pf_next st = k \<and> head_done st"

definition pf_cancel :: "'d pf_state \<Rightarrow> 'd pf_state" where
  "pf_cancel st = (if pf_phase st = Closed then st else end_order Cancelled st)"

definition pf_close :: "'d pf_state \<Rightarrow> 'd pf_state" where
  "pf_close st = (if pf_phase st \<noteq> Closed then end_order Closed st else st)"

text \<open>The end of \<open>close\<close>, once no decode runs, and what \<open>Drop\<close> does in one critical section.\<close>

definition pf_shut :: "'d pf_state \<Rightarrow> 'd pf_state" where
  "pf_shut st = st\<lparr>pf_shutdown := True\<rparr>"

definition pf_drop :: "'d pf_state \<Rightarrow> 'd pf_state" where
  "pf_drop st = pf_shut (pf_close st)"

section \<open>The workers\<close>

text \<open>A worker's first critical section: pop, skip what is stale, claim the cell. The second: store
  the outcome if the order it belongs to still runs.\<close>

definition worker_pop :: "'d pf_state \<Rightarrow> (nat \<times> cell_key) option \<times> 'd pf_state" where
  "worker_pop st =
     (case pf_queue st of
        [] \<Rightarrow> (None, st)
      | (g, k) # q \<Rightarrow>
          (let st1 = st\<lparr>pf_queue := q\<rparr> in
           if g \<noteq> pf_generation st then (None, st1)
           else (case map_of (pf_cells st1) k of
                   None \<Rightarrow> (None, st1)
                 | Some c \<Rightarrow>
                     (Some (g, k),
                      st1\<lparr>pf_cells := al_put k (c\<lparr>cl_status := Running\<rparr>) (pf_cells st1),
                          pf_running := pf_running st1 + 1\<rparr>))))"

definition store_outcome :: "cell_key \<Rightarrow> ('d \<times> nat) result \<Rightarrow> 'd pf_state \<Rightarrow> 'd pf_state" where
  "store_outcome k outcome st =
     (case map_of (pf_cells st) k of
        None \<Rightarrow> st
      | Some c \<Rightarrow>
          (case outcome of
             Inr (d, bytes) \<Rightarrow>
               st\<lparr>pf_last_size := (pf_last_size st)[fst k := Some bytes],
                  pf_stats := (pf_stats st)\<lparr>ps_samples_decoded := ps_samples_decoded (pf_stats st) + 1\<rparr>,
                  pf_cells := al_put k (c\<lparr>cl_status := CellReady d bytes\<rparr>) (pf_cells st)\<rparr>
           | Inl e \<Rightarrow>
               st\<lparr>pf_cells := al_put k (c\<lparr>cl_status := CellFailed (Some e)\<rparr>) (pf_cells st)\<rparr>))"

definition worker_finish ::
    "'d config \<Rightarrow> nat \<times> cell_key \<Rightarrow> ('d \<times> nat) result \<Rightarrow> 'd pf_state \<Rightarrow> 'd pf_state" where
  "worker_finish cfg job outcome st =
     (let st1 = st\<lparr>pf_running := pf_running st - 1\<rparr> in
      if fst job = pf_generation st1 \<and> map_of (pf_cells st1) (snd job) \<noteq> None
      then admit cfg (settle cfg (store_outcome (snd job) outcome st1))
      else st1)"

text \<open>The fetch thread's pop: stale entries are dropped; \<open>warm\<close> itself is best effort and only
  touches the disk cache.\<close>

definition fetcher_pop :: "'d pf_state \<Rightarrow> (nat \<times> string) option \<times> 'd pf_state" where
  "fetcher_pop st =
     (case pf_fetch_queue st of
        [] \<Rightarrow> (None, st)
      | (g, i, url) # q \<Rightarrow>
          (if g \<noteq> pf_generation st then (None, st\<lparr>pf_fetch_queue := q\<rparr>)
           else (Some (i, url), st\<lparr>pf_fetch_queue := q\<rparr>)))"

section \<open>Runs of the group\<close>

record 'd pf_system =
  sys_state :: "'d pf_state"
  sys_jobs :: "(nat \<times> cell_key) list"

inductive worker_step :: "'d config \<Rightarrow> 'd pf_system \<Rightarrow> 'd pf_system \<Rightarrow> bool" for cfg where
  skip: "worker_pop (sys_state s) = (None, st) \<Longrightarrow> pf_queue (sys_state s) \<noteq> [] \<Longrightarrow>
    \<not> pf_shutdown (sys_state s) \<Longrightarrow> worker_step cfg s (s\<lparr>sys_state := st\<rparr>)"
| pop: "worker_pop (sys_state s) = (Some job, st) \<Longrightarrow> \<not> pf_shutdown (sys_state s) \<Longrightarrow>
    worker_step cfg s (s\<lparr>sys_state := st, sys_jobs := sys_jobs s @ [job]\<rparr>)"
| finish: "n < length (sys_jobs s) \<Longrightarrow> sys_jobs s ! n = job \<Longrightarrow>
    cf_produces cfg (fst (snd job)) (snd (snd job)) outcome \<Longrightarrow>
    worker_step cfg s (s\<lparr>sys_state := worker_finish cfg job outcome (sys_state s),
      sys_jobs := take n (sys_jobs s) @ drop (Suc n) (sys_jobs s)\<rparr>)"

inductive pf_step :: "'d config \<Rightarrow> 'd pf_system \<Rightarrow> 'd pf_system \<Rightarrow> bool" for cfg where
  start: "pf_start cfg ord frm (sys_state s) = (r, st) \<Longrightarrow> pf_step cfg s (s\<lparr>sys_state := st\<rparr>)"
| take_ok: "pf_take cfg k (sys_state s) = Some (r, st) \<Longrightarrow> pf_step cfg s (s\<lparr>sys_state := st\<rparr>)"
| cancel: "pf_step cfg s (s\<lparr>sys_state := pf_cancel (sys_state s)\<rparr>)"
| close: "pf_step cfg s (s\<lparr>sys_state := pf_close (sys_state s)\<rparr>)"
| shut: "pf_phase (sys_state s) = Closed \<Longrightarrow> pf_running (sys_state s) = 0 \<Longrightarrow>
    pf_step cfg s (s\<lparr>sys_state := pf_shut (sys_state s)\<rparr>)"
| dropped: "pf_step cfg s (s\<lparr>sys_state := pf_drop (sys_state s)\<rparr>)"
| fetch: "fetcher_pop (sys_state s) = (r, st) \<Longrightarrow> \<not> pf_shutdown (sys_state s) \<Longrightarrow> pf_step cfg s (s\<lparr>sys_state := st\<rparr>)"
| work: "worker_step cfg s s' \<Longrightarrow> pf_step cfg s s'"

definition pf_initial :: "'d config \<Rightarrow> 'd pf_system" where
  "pf_initial cfg = \<lparr>sys_state = pf_new (length (cf_members cfg)), sys_jobs = []\<rparr>"

inductive pf_reachable :: "'d config \<Rightarrow> 'd pf_system \<Rightarrow> bool" for cfg where
  initial: "pf_reachable cfg (pf_initial cfg)"
| step: "pf_reachable cfg s \<Longrightarrow> pf_step cfg s s' \<Longrightarrow> pf_reachable cfg s'"

inductive_cases worker_step_cases: "worker_step cfg s s'"
inductive_cases pf_step_cases: "pf_step cfg s s'"

end
