(* ===== verification/PrefetchRuns.thy ===== *)
theory PrefetchRuns
  imports Prefetch
begin

text \<open>
  The prefetch group's invariant and what it gives: cells are exactly the keys of the live slots and
  count them, every unfinished cell is queued or being decoded, every finished one holds an outcome
  of its own member and anchor. It holds in every reachable state, whatever the interleaving of the
  consumer and the workers.
\<close>

declare split_paired_All [simp del]

section \<open>Cells and their references\<close>

text \<open>\<open>counts st f\<close>: a key has a cell exactly when \<open>f\<close> counts a reference to it.\<close>

definition counts :: "'d pf_state \<Rightarrow> (cell_key \<Rightarrow> nat) \<Rightarrow> bool" where
  "counts st f \<longleftrightarrow>
     (\<forall>k c. map_of (pf_cells st) k = Some c \<longrightarrow> cl_slots c = f k \<and> 0 < f k) \<and>
     (\<forall>k. map_of (pf_cells st) k = None \<longrightarrow> f k = 0)"

definition genuine :: "'d config \<Rightarrow> 'd pf_state \<Rightarrow> bool" where
  "genuine cfg st \<longleftrightarrow>
     (\<forall>k c. map_of (pf_cells st) k = Some c \<longrightarrow>
        (case cl_status c of
           CellReady d b \<Rightarrow> cf_produces cfg (fst k) (snd k) (Inr (d, b))
         | CellFailed x \<Rightarrow> (\<exists>e. x = Some e \<and> cf_produces cfg (fst k) (snd k) (Inl e))
         | _ \<Rightarrow> True)) \<and>
     (\<forall>i a d b. i < length (pf_last_taken st) \<longrightarrow> pf_last_taken st ! i = Some (a, d, b) \<longrightarrow>
        cf_produces cfg i a (Inr (d, b)))"

definition pending :: "(nat \<times> cell_key) list \<Rightarrow> 'd pf_state \<Rightarrow> bool" where
  "pending jobs st \<longleftrightarrow>
     (\<forall>k c. map_of (pf_cells st) k = Some c \<longrightarrow>
        (cl_status c = Queued \<longrightarrow> (pf_generation st, k) \<in> set (pf_queue st)) \<and>
        (cl_status c = Running \<longrightarrow> (pf_generation st, k) \<in> set jobs))"

definition sized :: "'d config \<Rightarrow> 'd pf_state \<Rightarrow> bool" where
  "sized cfg st \<longleftrightarrow> length (pf_prev_anchor st) = length (cf_members cfg) \<and>
     length (pf_last_taken st) = length (cf_members cfg) \<and> length (pf_last_size st) = length (cf_members cfg)"

definition core :: "'d config \<Rightarrow> (nat \<times> cell_key) list \<Rightarrow> (cell_key \<Rightarrow> nat) \<Rightarrow> 'd pf_state \<Rightarrow> bool" where
  "core cfg jobs f st \<longleftrightarrow> counts st f \<and> genuine cfg st \<and> pending jobs st \<and> sized cfg st"

lemma countsD:
  "counts st f \<Longrightarrow> map_of (pf_cells st) k = Some c \<Longrightarrow> cl_slots c = f k \<and> 0 < f k"
  "counts st f \<Longrightarrow> map_of (pf_cells st) k = None \<Longrightarrow> f k = 0"
  by (simp_all add: counts_def)

text \<open>The part of the state admission leaves alone.\<close>

definition same_frame :: "'d pf_state \<Rightarrow> 'd pf_state \<Rightarrow> bool" where
  "same_frame st st' \<longleftrightarrow>
     pf_phase st' = pf_phase st \<and> pf_generation st' = pf_generation st \<and> pf_order st' = pf_order st \<and>
     pf_next st' = pf_next st \<and> pf_prev_anchor st' = pf_prev_anchor st \<and>
     pf_last_taken st' = pf_last_taken st \<and> pf_last_size st' = pf_last_size st \<and>
     pf_running st' = pf_running st \<and> pf_shutdown st' = pf_shutdown st"

lemma same_frame_refl [simp]: "same_frame st st"
  by (simp add: same_frame_def)

lemma same_frame_trans: "same_frame a b \<Longrightarrow> same_frame b c \<Longrightarrow> same_frame a c"
  by (simp add: same_frame_def)

lemma admit_key_frame:
  "same_frame st (admit_key k st) \<and> pf_slots (admit_key k st) = pf_slots st \<and>
     pf_admitted (admit_key k st) = pf_admitted st"
  by (simp add: admit_key_def bump_reused_def queue_cell_def same_frame_def split: option.splits prod.splits)

lemma fold_admit_frame:
  "same_frame st (fold admit_key ks st) \<and> pf_slots (fold admit_key ks st) = pf_slots st \<and>
     pf_admitted (fold admit_key ks st) = pf_admitted st"
proof (induction ks arbitrary: st)
  case (Cons k ks)
  from Cons [of "admit_key k st"] admit_key_frame [of st k] show ?case
    by (auto intro: same_frame_trans)
qed simp

definition status_genuine :: "'d config \<Rightarrow> cell_key \<Rightarrow> 'd cell_status \<Rightarrow> bool" where
  "status_genuine cfg k s =
     (case s of
        CellReady d b \<Rightarrow> cf_produces cfg (fst k) (snd k) (Inr (d, b))
      | CellFailed x \<Rightarrow> (\<exists>e. x = Some e \<and> cf_produces cfg (fst k) (snd k) (Inl e))
      | _ \<Rightarrow> True)"

lemma genuineD: "genuine cfg st \<Longrightarrow> map_of (pf_cells st) k = Some c \<Longrightarrow> status_genuine cfg k (cl_status c)"
  by (simp add: genuine_def status_genuine_def)

text \<open>Putting one cell: what has to hold of it.\<close>

lemma core_put:
  assumes c: "core cfg jobs f st" and cells: "pf_cells st' = al_put k cell (pf_cells st)"
    and frame: "pf_generation st' = pf_generation st" "pf_last_taken st' = pf_last_taken st"
      "pf_prev_anchor st' = pf_prev_anchor st" "length (pf_last_size st') = length (pf_last_size st)"
    and queue: "set (pf_queue st) \<subseteq> set (pf_queue st')" and jobs: "set jobs \<subseteq> set jobs'"
    and slots: "cl_slots cell = n" "0 < n" and gen: "status_genuine cfg k (cl_status cell)"
    and pend: "cl_status cell = Queued \<Longrightarrow> (pf_generation st, k) \<in> set (pf_queue st')"
      "cl_status cell = Running \<Longrightarrow> (pf_generation st, k) \<in> set jobs'"
  shows "core cfg jobs' (f(k := n)) st'"
proof -
  have m: "map_of (pf_cells st') = (map_of (pf_cells st))(k \<mapsto> cell)" using cells by simp
  have "counts st' (f(k := n))"
    using c slots unfolding core_def counts_def m by auto
  moreover have "genuine cfg st'"
    using c gen frame(2) unfolding core_def genuine_def m
    by (simp add: status_genuine_def)
  moreover have "pending jobs' st'"
    using c pend queue jobs unfolding core_def pending_def m frame(1)
    by auto
  moreover have "sized cfg st'" using c frame by (simp add: core_def sized_def)
  ultimately show ?thesis by (simp add: core_def)
qed

lemma coreD:
  assumes "core cfg jobs f st" "map_of (pf_cells st) k = Some c"
  shows "cl_slots c = f k" "0 < f k" "status_genuine cfg k (cl_status c)"
    "cl_status c = Queued \<Longrightarrow> (pf_generation st, k) \<in> set (pf_queue st)"
    "cl_status c = Running \<Longrightarrow> (pf_generation st, k) \<in> set jobs"
  using assms countsD(1) [of st f k c] genuineD [of cfg st k c] by (simp_all add: core_def pending_def)

lemma core_bump [simp]: "core cfg jobs f (bump_reused st) = core cfg jobs f st"
  by (simp add: core_def counts_def genuine_def pending_def sized_def bump_reused_def)

lemma admit_key_core:
  assumes c: "core cfg jobs f st" and k: "fst k < length (cf_members cfg)"
  shows "core cfg jobs (f(k := f k + 1)) (admit_key k st)"
proof -
  have n: "fst k < length (pf_last_taken st)" using c k by (simp add: core_def sized_def)
  have queued: "core cfg jobs (f(k := 1)) (queue_cell k st)"
    by (rule core_put [OF c, where cell = "\<lparr>cl_status = Queued, cl_slots = 1, cl_estimate = pf_last_size st ! fst k\<rparr>"])
      (simp_all add: queue_cell_def status_genuine_def subset_iff)
  show ?thesis
  proof (cases "map_of (pf_cells st) k")
    case (Some cell)
    note p = coreD [OF c Some]
    define cell' where "cell' = cell\<lparr>cl_slots := cl_slots cell + 1\<rparr>"
    have cell': "cl_slots cell' = f k + 1" "cl_status cell' = cl_status cell"
      using p(1) by (simp_all add: cell'_def)
    have "core cfg jobs (f(k := f k + 1)) (st\<lparr>pf_cells := al_put k cell' (pf_cells st)\<rparr>)"
      by (rule core_put [OF c, where cell = cell']) (simp_all add: cell' p)
    then show ?thesis using Some
      by (simp add: cell'_def admit_key_def)
  next
    case None
    with c countsD(2) [of st f k] have f: "f k = 0" by (simp add: core_def)
    show ?thesis
    proof (cases "\<exists>d b. pf_last_taken st ! fst k = Some (snd k, d, b)")
      case True
      then obtain d b where t: "pf_last_taken st ! fst k = Some (snd k, d, b)" by blast
      with c n have "cf_produces cfg (fst k) (snd k) (Inr (d, b))" by (simp add: core_def genuine_def)
      then have "core cfg jobs (f(k := 1)) (st\<lparr>pf_cells := al_put k
          \<lparr>cl_status = CellReady d b, cl_slots = 1, cl_estimate = Some b\<rparr> (pf_cells st)\<rparr>)"
        by (intro core_put [OF c, where cell = "\<lparr>cl_status = CellReady d b, cl_slots = 1, cl_estimate = Some b\<rparr>"])
          (simp_all add: status_genuine_def)
      with None t f show ?thesis
        by (simp add: admit_key_def)
    next
      case False
      then have "admit_key k st = queue_cell k st"
        using None by (auto simp: admit_key_def split: option.splits)
      with queued f show ?thesis by simp
    qed
  qed
qed

lemma fold_admit_core:
  "core cfg jobs f st \<Longrightarrow> \<forall>k\<in>set ks. fst k < length (cf_members cfg) \<Longrightarrow>
     core cfg jobs (\<lambda>k. f k + count_list ks k) (fold admit_key ks st)"
proof (induction ks arbitrary: f st)
  case (Cons k ks)
  from Cons.IH [OF admit_key_core [OF Cons.prems(1)]] Cons.prems(2)
  have "core cfg jobs (\<lambda>j. (f(k := f k + 1)) j + count_list ks j) (fold admit_key ks (admit_key k st))"
    by simp
  moreover have "(\<lambda>j. (f(k := f k + 1)) j + count_list ks j) = (\<lambda>j. f j + count_list (k # ks) j)"
    by (auto simp: fun_eq_iff)
  ultimately show ?case by simp
qed simp

section \<open>Slots\<close>

definition refs :: "slot list \<Rightarrow> cell_key \<Rightarrow> nat" where
  "refs slots k = length (filter (\<lambda>s. k \<in> set (sl_keys s)) slots)"

definition shaped :: "'d config \<Rightarrow> 'd pf_state \<Rightarrow> bool" where
  "shaped cfg st \<longleftrightarrow>
     pf_next st \<le> pf_admitted st \<and> pf_admitted st \<le> length (pf_order st) \<and>
     pf_admitted st - pf_next st \<le> cf_depth cfg \<and>
     map sl_pos (pf_slots st) = [pf_next st..<pf_admitted st] \<and>
     (\<forall>s\<in>set (pf_slots st). sl_keys s = keys_of cfg (pf_order st ! sl_pos s)) \<and>
     (\<forall>e\<in>set (pf_order st). e < length (cf_boundaries cfg)) \<and>
     (pf_phase st \<noteq> Active \<longrightarrow> pf_order st = [])"

definition head_admitted :: "'d pf_state \<Rightarrow> bool" where
  "head_admitted st \<longleftrightarrow>
     (pf_phase st = Active \<longrightarrow> pf_next st < length (pf_order st) \<longrightarrow> pf_next st < pf_admitted st)"

definition pf_inv :: "'d config \<Rightarrow> 'd pf_system \<Rightarrow> bool" where
  "pf_inv cfg s \<longleftrightarrow>
     (let st = sys_state s in
      core cfg (sys_jobs s) (refs (pf_slots st)) st \<and> shaped cfg st \<and> head_admitted st \<and>
      pf_running st = length (sys_jobs s))"

definition shut_closed :: "'d pf_system \<Rightarrow> bool" where
  "shut_closed s \<longleftrightarrow> (pf_shutdown (sys_state s) \<longrightarrow> pf_phase (sys_state s) = Closed)"

lemma keys_of_props:
  "distinct (keys_of cfg e)" "k \<in> set (keys_of cfg e) \<Longrightarrow> fst k < length (cf_members cfg)"
  "length (keys_of cfg e) = length (cf_members cfg)"
  "i < length (cf_members cfg) \<Longrightarrow> keys_of cfg e ! i = (i, cf_anchors cfg ! i ! e)"
  by (auto simp: keys_of_def distinct_map inj_on_def)

lemma refs_append:
  "refs (slots @ [s]) k = refs slots k + (if k \<in> set (sl_keys s) then 1 else 0)"
  by (simp add: refs_def)

lemma refs_Cons:
  "refs (s # slots) k = refs slots k + (if k \<in> set (sl_keys s) then 1 else 0)"
  by (simp add: refs_def)

lemma count_list_distinct: "distinct xs \<Longrightarrow> count_list xs x = (if x \<in> set xs then 1 else 0)"
  by (induction xs) auto

lemma refs_cong: "map sl_keys a = map sl_keys b \<Longrightarrow> refs a k = refs b k"
proof (induction a arbitrary: b)
  case (Cons x a)
  then obtain y b' where "b = y # b'" by (cases b) auto
  with Cons show ?case by (auto simp: refs_Cons)
qed (simp add: refs_def)

lemma admit_slot_frame:
  "same_frame st (admit_slot cfg st)" "pf_admitted (admit_slot cfg st) = pf_admitted st + 1"
  using fold_admit_frame [of st "keys_of cfg (pf_order st ! pf_admitted st)"]
  by (simp_all add: admit_slot_def Let_def same_frame_def)

lemma admit_slot_inv:
  assumes "core cfg jobs (refs (pf_slots st)) st" "shaped cfg st" "pf_phase st = Active"
    and "pf_admitted st < length (pf_order st)" "pf_admitted st - pf_next st < cf_depth cfg"
  shows "core cfg jobs (refs (pf_slots (admit_slot cfg st))) (admit_slot cfg st)"
    and "shaped cfg (admit_slot cfg st)"
proof -
  let ?keys = "keys_of cfg (pf_order st ! pf_admitted st)"
  let ?st' = "fold admit_key ?keys st"
  note fr = fold_admit_frame [of st ?keys]
  have "core cfg jobs (\<lambda>k. refs (pf_slots st) k + count_list ?keys k) ?st'"
    using fold_admit_core [OF assms(1)] keys_of_props(2) by blast
  moreover have "refs (pf_slots (admit_slot cfg st)) = (\<lambda>k. refs (pf_slots st) k + count_list ?keys k)"
    using fr by (auto simp: fun_eq_iff admit_slot_def Let_def refs_append count_list_distinct keys_of_props(1))
  ultimately show "core cfg jobs (refs (pf_slots (admit_slot cfg st))) (admit_slot cfg st)"
    by (simp add: core_def counts_def genuine_def pending_def sized_def admit_slot_def Let_def)
  show "shaped cfg (admit_slot cfg st)"
    using assms fr by (auto simp: shaped_def same_frame_def admit_slot_def Let_def)
qed

lemma admit_slots_mono: "pf_admitted st \<le> pf_admitted (admit_slots n cfg st)"
proof (induction n cfg st rule: admit_slots.induct)
  case (2 n cfg st)
  then show ?case using admit_slot_frame(2) [of cfg st] by auto
qed simp

lemma admit_slots_inv:
  assumes "core cfg jobs (refs (pf_slots st)) st" "shaped cfg st" "pf_phase st = Active"
    and "n = length (pf_order st) - pf_admitted st"
  shows "core cfg jobs (refs (pf_slots (admit_slots n cfg st))) (admit_slots n cfg st) \<and>
    shaped cfg (admit_slots n cfg st) \<and> same_frame st (admit_slots n cfg st)"
  using assms
proof (induction n cfg st rule: admit_slots.induct)
  case (1 cfg st)
  then show ?case by simp
next
  case (2 n cfg st)
  show ?case
  proof (cases "pf_admitted st - pf_next st < cf_depth cfg \<and> \<not> any_failed st \<and>
      within_budget cfg st (keys_of cfg (pf_order st ! pf_admitted st))")
    case False
    then have e: "admit_slots (Suc n) cfg st = st" by (simp only: admit_slots.simps if_False)
    show ?thesis unfolding e using "2.prems"(1,2) by simp
  next
    case True
    note fr = admit_slot_frame [where st = st and cfg = cfg]
    have inv: "core cfg jobs (refs (pf_slots (admit_slot cfg st))) (admit_slot cfg st)" "shaped cfg (admit_slot cfg st)"
      using admit_slot_inv [OF "2.prems"(1-3)] True "2.prems"(4) by auto
    have "pf_phase (admit_slot cfg st) = Active"
        "n = length (pf_order (admit_slot cfg st)) - pf_admitted (admit_slot cfg st)"
      using fr "2.prems"(3,4) by (auto simp: same_frame_def)
    from "2.IH" [OF True inv this] True fr(1) show ?thesis by (auto intro: same_frame_trans)
  qed
qed

text \<open>With no live slot nothing has failed and there is no budget to keep: the head is admitted.\<close>

lemma admit_slots_head:
  assumes "pf_slots st = []" "0 < cf_depth cfg" "pf_admitted st = pf_next st" "pf_next st < length (pf_order st)"
  shows "pf_next st < pf_admitted (admit_slots (length (pf_order st) - pf_admitted st) cfg st)"
proof -
  obtain n where n: "length (pf_order st) - pf_admitted st = Suc n"
    using assms(3,4) by (metis Suc_diff_Suc)
  have "admit_slots (Suc n) cfg st = admit_slots n cfg (admit_slot cfg st)"
    using assms by (simp add: any_failed_def within_budget_def)
  with admit_slots_mono [of "admit_slot cfg st" n cfg] admit_slot_frame(2) [of cfg st] assms(3) n
  show ?thesis by simp
qed

section \<open>Admission keeps the invariant\<close>

lemma settle_frame:
  "same_frame st (settle cfg st)" "pf_admitted (settle cfg st) = pf_admitted st"
  "pf_cells (settle cfg st) = pf_cells st" "pf_queue (settle cfg st) = pf_queue st"
  "map sl_pos (pf_slots (settle cfg st)) = map sl_pos (pf_slots st)"
  "map sl_keys (pf_slots (settle cfg st)) = map sl_keys (pf_slots st)"
  by (simp_all add: settle_def Let_def same_frame_def)

lemma queue_file_frame:
  "same_frame st (queue_file i u st) \<and> pf_admitted (queue_file i u st) = pf_admitted st \<and>
   pf_cells (queue_file i u st) = pf_cells st \<and> pf_queue (queue_file i u st) = pf_queue st \<and>
   pf_slots (queue_file i u st) = pf_slots st"
  by (simp add: queue_file_def same_frame_def)

lemma fold_queue_file_frame:
  "same_frame st (fold (queue_file i) us st) \<and> pf_admitted (fold (queue_file i) us st) = pf_admitted st \<and>
   pf_cells (fold (queue_file i) us st) = pf_cells st \<and> pf_queue (fold (queue_file i) us st) = pf_queue st \<and>
   pf_slots (fold (queue_file i) us st) = pf_slots st"
proof (induction us arbitrary: st)
  case (Cons u us)
  from Cons [of "queue_file i u st"] queue_file_frame [of st i u] show ?case
    by (auto intro: same_frame_trans)
qed simp

lemma queue_files_frame:
  "same_frame st (queue_files cfg p st) \<and> pf_admitted (queue_files cfg p st) = pf_admitted st \<and>
   pf_cells (queue_files cfg p st) = pf_cells st \<and> pf_queue (queue_files cfg p st) = pf_queue st \<and>
   pf_slots (queue_files cfg p st) = pf_slots st"
proof -
  have "same_frame st (fold (\<lambda>i. fold (queue_file i) (g i)) is st) \<and>
    pf_admitted (fold (\<lambda>i. fold (queue_file i) (g i)) is st) = pf_admitted st \<and>
    pf_cells (fold (\<lambda>i. fold (queue_file i) (g i)) is st) = pf_cells st \<and>
    pf_queue (fold (\<lambda>i. fold (queue_file i) (g i)) is st) = pf_queue st \<and>
    pf_slots (fold (\<lambda>i. fold (queue_file i) (g i)) is st) = pf_slots st" for g "is"
  proof (induction "is" arbitrary: st)
    case (Cons i "is")
    from Cons [of "fold (queue_file i) (g i) st"] fold_queue_file_frame [of st i "g i"] show ?case
      by (auto intro: same_frame_trans)
  qed simp
  then show ?thesis by (simp add: queue_files_def)
qed

lemma fetch_ahead_frame:
  "same_frame st (fetch_ahead cfg st) \<and> pf_admitted (fetch_ahead cfg st) = pf_admitted st \<and>
   pf_cells (fetch_ahead cfg st) = pf_cells st \<and> pf_queue (fetch_ahead cfg st) = pf_queue st \<and>
   pf_slots (fetch_ahead cfg st) = pf_slots st"
proof -
  have "same_frame st (fold (queue_files cfg) ps st) \<and> pf_admitted (fold (queue_files cfg) ps st) = pf_admitted st \<and>
    pf_cells (fold (queue_files cfg) ps st) = pf_cells st \<and> pf_queue (fold (queue_files cfg) ps st) = pf_queue st \<and>
    pf_slots (fold (queue_files cfg) ps st) = pf_slots st" for ps
  proof (induction ps arbitrary: st)
    case (Cons p ps)
    from Cons [of "queue_files cfg p st"] queue_files_frame [of st cfg p] show ?case
      by (auto intro: same_frame_trans)
  qed simp
  then show ?thesis by (simp add: fetch_ahead_def Let_def same_frame_def)
qed

lemma core_cong:
  assumes "core cfg jobs f st" "same_frame st st'" "pf_cells st' = pf_cells st" "pf_queue st' = pf_queue st"
  shows "core cfg jobs f st'"
  using assms by (simp add: core_def counts_def genuine_def pending_def sized_def same_frame_def)

lemma shaped_cong:
  assumes "shaped cfg st" "same_frame st st'" "pf_admitted st' = pf_admitted st"
    and "map sl_pos (pf_slots st') = map sl_pos (pf_slots st)" "map sl_keys (pf_slots st') = map sl_keys (pf_slots st)"
  shows "shaped cfg st'"
proof -
  have "\<forall>s\<in>set (pf_slots st'). sl_keys s = keys_of cfg (pf_order st ! sl_pos s)"
  proof
    fix s assume "s \<in> set (pf_slots st')"
    then obtain i where i: "i < length (pf_slots st')" "pf_slots st' ! i = s" by (auto simp: in_set_conv_nth)
    have l: "length (pf_slots st') = length (pf_slots st)" using assms(4) by (metis length_map)
    have "sl_pos s = sl_pos (pf_slots st ! i)" "sl_keys s = sl_keys (pf_slots st ! i)"
      using i l assms(4,5) by (metis nth_map)+
    moreover have "pf_slots st ! i \<in> set (pf_slots st)" using i l by simp
    ultimately show "sl_keys s = keys_of cfg (pf_order st ! sl_pos s)" using assms(1) by (simp add: shaped_def)
  qed
  with assms show ?thesis by (simp add: shaped_def same_frame_def)
qed

lemma admit_inv:
  assumes "core cfg jobs (refs (pf_slots st)) st" "shaped cfg st" "0 < cf_depth cfg"
  shows "core cfg jobs (refs (pf_slots (admit cfg st))) (admit cfg st) \<and> shaped cfg (admit cfg st) \<and>
    head_admitted (admit cfg st) \<and> same_frame st (admit cfg st)"
proof (cases "pf_phase st = Active")
  case False
  with assms show ?thesis by (simp add: admit_def head_admitted_def)
next
  case True
  let ?a = "admit_slots (length (pf_order st) - pf_admitted st) cfg st"
  let ?b = "settle cfg ?a" and ?c = "fetch_ahead cfg (settle cfg ?a)"
  have a: "core cfg jobs (refs (pf_slots ?a)) ?a" "shaped cfg ?a" "same_frame st ?a"
    using admit_slots_inv [OF assms(1,2) True refl] by blast+
  have r: "refs (pf_slots ?b) = refs (pf_slots ?a)" using refs_cong [OF settle_frame(6)] by blast
  have b: "core cfg jobs (refs (pf_slots ?b)) ?b" "shaped cfg ?b" "same_frame st ?b" "pf_admitted ?b = pf_admitted ?a"
    unfolding r
    by (rule core_cong [OF a(1) settle_frame(1,3,4)] shaped_cong [OF a(2) settle_frame(1,2,5,6)]
        same_frame_trans [OF a(3) settle_frame(1)] settle_frame(2))+
  note fr = fetch_ahead_frame [of ?b cfg]
  have c: "core cfg jobs (refs (pf_slots ?c)) ?c" "shaped cfg ?c" "same_frame st ?c" "pf_admitted ?c = pf_admitted ?a"
    using core_cong [OF b(1)] shaped_cong [OF b(2)] same_frame_trans [OF b(3)] fr b(4) by auto
  have "pf_next ?c < pf_admitted ?c" if "pf_next ?c < length (pf_order ?c)"
  proof (cases "pf_admitted st = pf_next st")
    case eq: True
    have "pf_slots st = []" using assms(2) eq by (auto simp: shaped_def)
    from admit_slots_head [OF this assms(3) eq] that c(3,4) show ?thesis by (simp add: same_frame_def)
  next
    case False
    then have "pf_next st < pf_admitted st" using assms(2) by (simp add: shaped_def)
    with admit_slots_mono [of st "length (pf_order st) - pf_admitted st" cfg] c(3,4) show ?thesis
      by (simp add: same_frame_def)
  qed
  with c True show ?thesis by (simp add: admit_def head_admitted_def)
qed

section \<open>Every step keeps the invariant\<close>

lemma core_end_order:
  assumes "core cfg jobs f st"
  shows "core cfg jobs' (refs (pf_slots (end_order ph st))) (end_order ph st)"
  using assms by (simp add: core_def counts_def genuine_def pending_def sized_def end_order_def refs_def)

lemma end_order_inv:
  assumes "pf_inv cfg s" "ph \<noteq> Active"
  shows "pf_inv cfg (s\<lparr>sys_state := end_order ph (sys_state s)\<rparr>)"
  using assms core_end_order [of cfg "sys_jobs s" "refs (pf_slots (sys_state s))" "sys_state s" "sys_jobs s" ph]
  by (simp add: pf_inv_def Let_def) (simp add: shaped_def head_admitted_def end_order_def)

lemma order_seq_bound: "order_seq n ord = Inr seq \<Longrightarrow> \<forall>e\<in>set seq. e < n"
  by (auto simp: order_seq_def find_None_iff split: order.splits if_splits option.splits)

lemma from_seq_suffix: "from_seq from seq = Inr s \<Longrightarrow> set s \<subseteq> set seq"
  by (auto simp: from_seq_def split: option.splits dest: in_set_dropD)

lemma start_inv:
  assumes "pf_inv cfg s" "0 < cf_depth cfg" "pf_start cfg ord from (sys_state s) = (r, st)"
  shows "pf_inv cfg (s\<lparr>sys_state := st\<rparr>)"
proof (cases "st = sys_state s")
  case True
  with assms(1) show ?thesis by (simp add: pf_inv_def)
next
  case False
  then obtain seq where seq: "bindR (order_seq (length (cf_boundaries cfg)) ord) (from_seq from) = Inr seq"
    and st: "st = admit cfg ((end_order Active (sys_state s))\<lparr>pf_order := seq\<rparr>)"
    using assms(3) by (auto simp: pf_start_def split: sum.splits if_splits)
  let ?e = "end_order Active (sys_state s)" and ?f = "(end_order Active (sys_state s))\<lparr>pf_order := seq\<rparr>"
  have bound: "\<forall>e\<in>set seq. e < length (cf_boundaries cfg)"
    using seq order_seq_bound from_seq_suffix by (fastforce simp: result_simps)
  have c: "core cfg (sys_jobs s) (refs (pf_slots ?e)) ?e"
    using assms(1) core_end_order unfolding pf_inv_def Let_def by blast
  have c': "core cfg (sys_jobs s) (refs (pf_slots ?f)) ?f"
    using c by (simp add: core_def counts_def genuine_def pending_def sized_def)
  have s': "shaped cfg ?f" using bound by (simp add: shaped_def end_order_def)
  from admit_inv [OF c' s' assms(2)] assms(1) show ?thesis
    by (simp add: pf_inv_def Let_def st same_frame_def end_order_def)
qed

subsection \<open>Taking the head\<close>

definition taken_data :: "'d pf_state \<Rightarrow> cell_key \<Rightarrow> 'd \<Rightarrow> bool" where
  "taken_data st k d \<longleftrightarrow> (\<exists>c b. map_of (pf_cells st) k = Some c \<and> cl_status c = CellReady d b)"

lemma core_del:
  assumes "core cfg jobs f st"
  shows "core cfg jobs (f(k := 0)) (st\<lparr>pf_cells := al_del k (pf_cells st)\<rparr>)"
  using assms by (auto simp: core_def counts_def genuine_def pending_def sized_def)

lemma core_note:
  assumes "core cfg jobs f st" "cf_produces cfg i a (Inr (d, b))"
  shows "core cfg jobs f (st\<lparr>pf_prev_anchor := (pf_prev_anchor st)[i := x],
    pf_last_taken := (pf_last_taken st)[i := Some (a, d, b)]\<rparr>)"
  using assms
  by (cases "i < length (pf_last_taken st)")
    (auto simp: core_def counts_def genuine_def pending_def sized_def nth_list_update split: if_splits)

text \<open>The fields a take's bookkeeping leaves alone.\<close>

definition take_frame :: "'d pf_state \<Rightarrow> 'd pf_state \<Rightarrow> bool" where
  "take_frame st st' \<longleftrightarrow>
     pf_phase st' = pf_phase st \<and> pf_generation st' = pf_generation st \<and> pf_order st' = pf_order st \<and>
     pf_next st' = pf_next st \<and> pf_admitted st' = pf_admitted st \<and> pf_slots st' = pf_slots st \<and>
     pf_running st' = pf_running st \<and> pf_queue st' = pf_queue st"

lemma take_key_step:
  assumes core: "core cfg jobs f st" and k: "map_of (pf_cells st) k = Some c" "cl_status c = CellReady d b"
    and i: "fst k = i"
  obtains st' where "take_key cfg (i, k) (acc, st) =
      (acc @ [(cf_members cfg ! i, \<lparr>sm_data = d, sm_anchor = snd k,
         sm_changed = (pf_prev_anchor st ! i \<noteq> Some (snd k))\<rparr>)], st')"
    "core cfg jobs (f(k := f k - 1)) st'" "take_frame st st'"
    "pf_prev_anchor st' = (pf_prev_anchor st)[i := Some (snd k)]"
    "\<And>k'. k' \<noteq> k \<Longrightarrow> map_of (pf_cells st') k' = map_of (pf_cells st) k'"
proof -
  note p = coreD [OF core k(1)]
  let ?st1 = "st\<lparr>pf_cells := drop_ref k c (pf_cells st)\<rparr>"
  let ?st2 = "?st1\<lparr>pf_prev_anchor := (pf_prev_anchor ?st1)[i := Some (snd k)],
      pf_last_taken := (pf_last_taken ?st1)[i := Some (snd k, d, b)]\<rparr>"
  have made: "cf_produces cfg i (snd k) (Inr (d, b))" using p(3) k(2) i by (simp add: status_genuine_def)
  have "core cfg jobs (f(k := f k - 1)) ?st1"
  proof (cases "f k = 1")
    case True
    then show ?thesis using core_del [OF core, of k] p(1) by (simp add: drop_ref_def)
  next
    case False
    define c' where "c' = c\<lparr>cl_slots := cl_slots c - 1\<rparr>"
    have c': "cl_slots c' = f k - 1" "cl_status c' = cl_status c" using p(1) by (simp_all add: c'_def)
    have "core cfg jobs (f(k := f k - 1)) (st\<lparr>pf_cells := al_put k c' (pf_cells st)\<rparr>)"
      by (rule core_put [OF core, where cell = c']) (use False p c' k(2) in \<open>simp_all\<close>)
    then show ?thesis using False p(1,2) by (simp add: drop_ref_def c'_def)
  qed
  from core_note [OF this made] have c2: "core cfg jobs (f(k := f k - 1)) ?st2" .
  have t: "take_key cfg (i, k) (acc, st) =
      (acc @ [(cf_members cfg ! i, \<lparr>sm_data = d, sm_anchor = snd k,
         sm_changed = (pf_prev_anchor st ! i \<noteq> Some (snd k))\<rparr>)], ?st2)"
    using k by (simp add: take_key_def)
  show ?thesis by (rule that [OF t c2]) (simp_all add: take_frame_def drop_ref_def)
qed

lemma take_fold:
  assumes "core cfg jobs f st" "distinct (map fst ks)"
    and "\<forall>k\<in>set ks. fst k < length (cf_members cfg) \<and> (\<exists>d. taken_data st k d)"
  shows "\<exists>ss st'. fold (take_key cfg) (map (\<lambda>k. (fst k, k)) ks) (acc, st) = (acc @ ss, st') \<and>
    core cfg jobs (\<lambda>k. f k - count_list ks k) st' \<and> take_frame st st' \<and>
    length ss = length ks \<and>
    (\<forall>j<length ks. fst (ss ! j) = cf_members cfg ! fst (ks ! j) \<and>
       taken_data st (ks ! j) (sm_data (snd (ss ! j))) \<and> sm_anchor (snd (ss ! j)) = snd (ks ! j) \<and>
       sm_changed (snd (ss ! j)) = (pf_prev_anchor st ! fst (ks ! j) \<noteq> Some (snd (ks ! j))) \<and>
       pf_prev_anchor st' ! fst (ks ! j) = Some (snd (ks ! j))) \<and>
    (\<forall>i. i \<notin> fst ` set ks \<longrightarrow> pf_prev_anchor st' ! i = pf_prev_anchor st ! i)"
  using assms
proof (induction ks arbitrary: f st acc)
  case Nil
  then show ?case by (simp add: take_frame_def)
next
  case (Cons k ks)
  obtain d where "taken_data st k d" using Cons.prems(3) by auto
  then obtain c b where k: "map_of (pf_cells st) k = Some c" "cl_status c = CellReady d b"
    by (auto simp: taken_data_def)
  let ?s = "(cf_members cfg ! fst k, \<lparr>sm_data = d, sm_anchor = snd k,
      sm_changed = (pf_prev_anchor st ! fst k \<noteq> Some (snd k))\<rparr>)"
  obtain st1 where st1: "take_key cfg (fst k, k) (acc, st) = (acc @ [?s], st1)"
      "core cfg jobs (f(k := f k - 1)) st1" "take_frame st st1"
      "pf_prev_anchor st1 = (pf_prev_anchor st)[fst k := Some (snd k)]"
      "\<And>k'. k' \<noteq> k \<Longrightarrow> map_of (pf_cells st1) k' = map_of (pf_cells st) k'"
    using take_key_step [OF Cons.prems(1) k refl] by metis
  have kn: "k \<notin> set ks" "fst k \<notin> fst ` set ks" using Cons.prems(2) by auto
  have keep: "taken_data st1 k' x = taken_data st k' x" if "k' \<in> set ks" for k' x
  proof -
    have "k' \<noteq> k" using that kn by blast
    from st1(5) [OF this] show ?thesis by (simp add: taken_data_def)
  qed
  have "\<forall>k'\<in>set ks. fst k' < length (cf_members cfg) \<and> (\<exists>d. taken_data st1 k' d)"
    using Cons.prems(3) keep by auto
  with Cons.IH [OF st1(2), of "acc @ [?s]"] Cons.prems(2) obtain ss st' where
    r: "fold (take_key cfg) (map (\<lambda>k. (fst k, k)) ks) (acc @ [?s], st1) = ((acc @ [?s]) @ ss, st')"
      "core cfg jobs (\<lambda>j. (f(k := f k - 1)) j - count_list ks j) st'" "take_frame st1 st'"
      "length ss = length ks"
      "\<forall>j<length ks. fst (ss ! j) = cf_members cfg ! fst (ks ! j) \<and>
         taken_data st1 (ks ! j) (sm_data (snd (ss ! j))) \<and> sm_anchor (snd (ss ! j)) = snd (ks ! j) \<and>
         sm_changed (snd (ss ! j)) = (pf_prev_anchor st1 ! fst (ks ! j) \<noteq> Some (snd (ks ! j))) \<and>
         pf_prev_anchor st' ! fst (ks ! j) = Some (snd (ks ! j))"
      "\<forall>i. i \<notin> fst ` set ks \<longrightarrow> pf_prev_anchor st' ! i = pf_prev_anchor st1 ! i"
    by auto
  have len: "fst k < length (pf_prev_anchor st)"
    using Cons.prems(1,3) by (simp add: core_def sized_def)
  have prev: "pf_prev_anchor st1 ! i = pf_prev_anchor st ! i" if "i \<noteq> fst k" for i
    using that by (simp add: st1(4))
  have prev_k: "pf_prev_anchor st' ! fst k = Some (snd k)"
    using r(6) kn(2) st1(4) len by simp
  have f': "(\<lambda>j. (f(k := f k - 1)) j - count_list ks j) = (\<lambda>j. f j - count_list (k # ks) j)"
    by (auto simp: fun_eq_iff)
  have fold: "fold (take_key cfg) (map (\<lambda>k. (fst k, k)) (k # ks)) (acc, st) = (acc @ ?s # ss, st')"
    using r(1) st1(1) by simp
  have entries: "fst ((?s # ss) ! j) = cf_members cfg ! fst ((k # ks) ! j) \<and>
       taken_data st ((k # ks) ! j) (sm_data (snd ((?s # ss) ! j))) \<and>
       sm_anchor (snd ((?s # ss) ! j)) = snd ((k # ks) ! j) \<and>
       sm_changed (snd ((?s # ss) ! j)) = (pf_prev_anchor st ! fst ((k # ks) ! j) \<noteq> Some (snd ((k # ks) ! j))) \<and>
       pf_prev_anchor st' ! fst ((k # ks) ! j) = Some (snd ((k # ks) ! j))"
    if "j < length (k # ks)" for j
  proof (cases j)
    case 0
    then show ?thesis using k prev_k by (auto simp: taken_data_def)
  next
    case (Suc m)
    then have m: "m < length ks" "ks ! m \<in> set ks" using that by auto
    then have "fst (ks ! m) \<noteq> fst k" using kn(2) by (metis image_eqI)
    moreover have "taken_data st1 (ks ! m) = taken_data st (ks ! m)" using keep [OF m(2)] by blast
    ultimately show ?thesis using r(5) [rule_format, OF m(1)] Suc prev by simp
  qed
  have others: "\<forall>i. i \<notin> fst ` set (k # ks) \<longrightarrow> pf_prev_anchor st' ! i = pf_prev_anchor st ! i"
    using r(6) prev by auto
  have frame: "take_frame st st'" using st1(3) r(3) by (simp add: take_frame_def)
  show ?case
    using fold r(2) [unfolded f'] frame r(4) entries others
    by (intro exI [of _ "?s # ss"] exI [of _ st']) auto
qed


text \<open>What a successful take returns: one sample per member, in key order, the data its cell holds.\<close>

definition sample_ok :: "'d config \<Rightarrow> 'd pf_state \<Rightarrow> nat \<Rightarrow> nat \<Rightarrow> string \<times> 'd sample \<Rightarrow> bool" where
  "sample_ok cfg st k i s \<longleftrightarrow>
     fst s = cf_members cfg ! i \<and>
     sm_anchor (snd s) = cf_anchors cfg ! i ! k \<and>
     (\<exists>b. cf_produces cfg i (cf_anchors cfg ! i ! k) (Inr (sm_data (snd s), b))) \<and>
     sm_changed (snd s) = (pf_prev_anchor st ! i \<noteq> Some (cf_anchors cfg ! i ! k))"

lemma zip_keys: "zip [0..<length (keys_of cfg e)] (keys_of cfg e) = map (\<lambda>k. (fst k, k)) (keys_of cfg e)"
  by (rule nth_equalityI) (simp_all add: keys_of_props)

lemma distinct_fst_keys: "distinct (map fst (keys_of cfg e))"
  by (simp add: keys_of_def comp_def)

lemma head_slot:
  assumes "shaped cfg st" "head_done st"
  obtains hs ss where "pf_slots st = hs # ss" "sl_pos hs = pf_next st" "pf_next st < pf_admitted st"
    "sl_keys hs = keys_of cfg (pf_order st ! pf_next st)" "map sl_pos ss = [Suc (pf_next st)..<pf_admitted st]"
proof (cases "pf_slots st")
  case Nil
  with assms(2) show ?thesis by (simp add: head_done_def)
next
  case (Cons hs ss)
  have m: "sl_pos hs # map sl_pos ss = [pf_next st..<pf_admitted st]"
    using assms(1) Cons by (simp add: shaped_def)
  then have lt: "pf_next st < pf_admitted st" by (metis list.distinct(1) upt_conv_Nil not_le)
  with m have "sl_pos hs = pf_next st" "map sl_pos ss = [Suc (pf_next st)..<pf_admitted st]"
    by (simp_all add: upt_conv_Cons)
  moreover have "sl_keys hs = keys_of cfg (pf_order st ! sl_pos hs)"
    using assms(1) Cons by (simp add: shaped_def)
  ultimately show ?thesis using that Cons lt by simp
qed

lemma take_ok_inv:
  assumes inv: "pf_inv cfg s" and depth: "0 < cf_depth cfg"
    and t: "pf_take cfg k (sys_state s) = Some (Inr es, st')"
  shows "pf_inv cfg (s\<lparr>sys_state := st'\<rparr>)"
    and "k = pf_order (sys_state s) ! pf_next (sys_state s)" "pf_next (sys_state s) < length (pf_order (sys_state s))"
    and "es_epoch es = k" "length (es_samples es) = length (cf_members cfg)"
    and "\<forall>i<length (cf_members cfg). sample_ok cfg (sys_state s) k i (es_samples es ! i) \<and>
      pf_prev_anchor st' ! i = Some (cf_anchors cfg ! i ! k)"
    and "pf_phase st' = Active" "pf_order st' = pf_order (sys_state s)" "pf_next st' = Suc (pf_next (sys_state s))"
proof -
  let ?st = "sys_state s"
  from inv have core: "core cfg (sys_jobs s) (refs (pf_slots ?st)) ?st" and sh: "shaped cfg ?st"
    and run: "pf_running ?st = length (sys_jobs s)" by (simp_all add: pf_inv_def Let_def)
  from t have active: "pf_phase ?st = Active" and nx: "pf_next ?st < length (pf_order ?st)"
    and k: "k = pf_order ?st ! pf_next ?st" and hd: "head_done ?st"
    by (auto simp: pf_take_def phase_refusal_def Let_def split: phase.splits if_splits option.splits prod.splits)
  obtain hs ss where hs: "pf_slots ?st = hs # ss" "sl_pos hs = pf_next ?st" "pf_next ?st < pf_admitted ?st"
      "sl_keys hs = keys_of cfg k" "map sl_pos ss = [Suc (pf_next ?st)..<pf_admitted ?st]"
    using head_slot [OF sh hd] k by metis
  let ?st1 = "?st\<lparr>pf_slots := ss\<rparr>"
  have nofail: "find (\<lambda>key. is_failed (status_of ?st1 key)) (keys_of cfg k) = None"
    using t active nx k hd hs by (auto simp: pf_take_def phase_refusal_def Let_def split: option.splits)
  have core1: "core cfg (sys_jobs s) (refs (hs # ss)) ?st1"
    using core hs(1) by (simp add: core_def counts_def genuine_def pending_def sized_def)
  have ready: "\<exists>d. taken_data ?st1 key d" if key: "key \<in> set (keys_of cfg k)" for key
  proof -
    have "refs (hs # ss) key > 0" using key hs(4) by (simp add: refs_Cons)
    then obtain c where c: "map_of (pf_cells ?st1) key = Some c"
      using core1 by (cases "map_of (pf_cells ?st1) key") (auto simp: core_def counts_def)
    moreover have "finished (cl_status c)"
      using hd hs key c by (auto simp: head_done_def list_all_iff status_of_def)
    moreover have "\<not> is_failed (status_of ?st1 key)"
      using nofail key by (metis (no_types, lifting) find_None_iff)
    then have "\<not> is_failed (cl_status c)" using c by (simp add: status_of_def)
    ultimately show ?thesis
      by (cases "cl_status c") (auto simp: finished_def is_failed_def taken_data_def)
  qed
  have cond: "\<forall>key\<in>set (keys_of cfg k). fst key < length (cf_members cfg) \<and> (\<exists>d. taken_data ?st1 key d)"
    using ready keys_of_props(2) by blast
  obtain samples st2 where f: "fold (take_key cfg) (map (\<lambda>k. (fst k, k)) (keys_of cfg k)) ([], ?st1) = (samples, st2)"
      "core cfg (sys_jobs s) (\<lambda>j. refs (hs # ss) j - count_list (keys_of cfg k) j) st2" "take_frame ?st1 st2"
      "length samples = length (keys_of cfg k)"
      "\<forall>j<length (keys_of cfg k). fst (samples ! j) = cf_members cfg ! fst (keys_of cfg k ! j) \<and>
         taken_data ?st1 (keys_of cfg k ! j) (sm_data (snd (samples ! j))) \<and>
         sm_anchor (snd (samples ! j)) = snd (keys_of cfg k ! j) \<and>
         sm_changed (snd (samples ! j)) = (pf_prev_anchor ?st1 ! fst (keys_of cfg k ! j) \<noteq> Some (snd (keys_of cfg k ! j))) \<and>
         pf_prev_anchor st2 ! fst (keys_of cfg k ! j) = Some (snd (keys_of cfg k ! j))"
    using take_fold [OF core1 distinct_fst_keys cond, of "[]"] by auto
  let ?st3 = "st2\<lparr>pf_next := pf_next st2 + 1\<rparr>"
  have "pf_take cfg k ?st = Some (Inr \<lparr>es_epoch = k, es_samples = samples\<rparr>, admit cfg ?st3)"
    using active nx k hd hs nofail f(1)
    by (simp add: pf_take_def phase_refusal_def Let_def zip_keys)
  with t have es: "es = \<lparr>es_epoch = k, es_samples = samples\<rparr>" and st': "st' = admit cfg ?st3" by simp_all
  have r: "(\<lambda>j. refs (hs # ss) j - count_list (keys_of cfg k) j) = refs ss"
    using hs(4) by (auto simp: fun_eq_iff refs_Cons count_list_distinct keys_of_props(1))
  have core3: "core cfg (sys_jobs s) (refs (pf_slots ?st3)) ?st3"
    using f(2,3) unfolding r
    by (simp add: core_def counts_def genuine_def pending_def sized_def take_frame_def)
  have "\<forall>s\<in>set ss. sl_keys s = keys_of cfg (pf_order ?st ! sl_pos s)"
    using sh hs(1) by (simp add: shaped_def)
  then have sh3: "shaped cfg ?st3"
    using sh f(3) hs active by (auto simp: shaped_def take_frame_def)
  note ad = admit_inv [OF core3 sh3 depth]
  then have fr: "same_frame ?st3 st'" by (simp add: st')
  show "pf_inv cfg (s\<lparr>sys_state := st'\<rparr>)"
    using ad run f(3) by (simp add: pf_inv_def Let_def st' same_frame_def take_frame_def)
  show "k = pf_order ?st ! pf_next ?st" "pf_next ?st < length (pf_order ?st)" by (fact k nx)+
  show "es_epoch es = k" "length (es_samples es) = length (cf_members cfg)"
    using es f(4) by (simp_all add: keys_of_props(3))
  show "\<forall>i<length (cf_members cfg). sample_ok cfg ?st k i (es_samples es ! i) \<and>
      pf_prev_anchor st' ! i = Some (cf_anchors cfg ! i ! k)"
  proof (intro allI impI)
    fix i assume i: "i < length (cf_members cfg)"
    then have key: "keys_of cfg k ! i = (i, cf_anchors cfg ! i ! k)" by (rule keys_of_props(4))
    have e: "fst (samples ! i) = cf_members cfg ! i" "taken_data ?st1 (i, cf_anchors cfg ! i ! k) (sm_data (snd (samples ! i)))"
      "sm_anchor (snd (samples ! i)) = cf_anchors cfg ! i ! k"
      "sm_changed (snd (samples ! i)) = (pf_prev_anchor ?st ! i \<noteq> Some (cf_anchors cfg ! i ! k))"
      "pf_prev_anchor st2 ! i = Some (cf_anchors cfg ! i ! k)"
      using f(5) i key by (auto simp: keys_of_props(3))
    then obtain c b where "map_of (pf_cells ?st1) (i, cf_anchors cfg ! i ! k) = Some c"
        "cl_status c = CellReady (sm_data (snd (samples ! i))) b" by (auto simp: taken_data_def)
    with coreD(3) [OF core1] have "cf_produces cfg i (cf_anchors cfg ! i ! k) (Inr (sm_data (snd (samples ! i)), b))"
      by (fastforce simp: status_genuine_def)
    with e fr es show "sample_ok cfg ?st k i (es_samples es ! i) \<and>
        pf_prev_anchor st' ! i = Some (cf_anchors cfg ! i ! k)"
      by (auto simp: sample_ok_def same_frame_def)
  qed
  show "pf_phase st' = Active" "pf_order st' = pf_order ?st" "pf_next st' = Suc (pf_next ?st)"
    using fr f(3) active by (simp_all add: same_frame_def take_frame_def)
qed


text \<open>A take that does not succeed changes nothing, or ends the order with the failed member's error.\<close>

lemma take_err_cases:
  assumes "pf_take cfg k st = Some (Inl e, st')"
  obtains "st' = st"
  | key where "st' = end_order (PhFailed k) (st\<lparr>pf_slots := tl (pf_slots st)\<rparr>)" "pf_phase st = Active"
      "k = pf_order st ! pf_next st" "head_done st"
      "find (\<lambda>key. is_failed (status_of st key)) (sl_keys (hd (pf_slots st))) = Some key"
      "e = (case status_of st key of CellFailed (Some e) \<Rightarrow> e
            | _ \<Rightarrow> prefetch_err (''take('' @ show_nat k @ ''): a member decode failed''))"
  using assms
  by (auto simp: pf_take_def phase_refusal_def Let_def status_of_def
      split: phase.splits if_splits option.splits prod.splits)

lemma end_order_slots: "end_order ph (st\<lparr>pf_slots := ss\<rparr>) = end_order ph st"
  by (simp add: end_order_def)

lemma take_inv:
  assumes "pf_inv cfg s" "0 < cf_depth cfg" "pf_take cfg k (sys_state s) = Some (r, st')"
  shows "pf_inv cfg (s\<lparr>sys_state := st'\<rparr>)"
proof (cases r)
  case (Inr es)
  then show ?thesis using take_ok_inv(1) [OF assms(1,2)] assms(3) by blast
next
  case (Inl e)
  with assms(3) have "pf_take cfg k (sys_state s) = Some (Inl e, st')" by simp
  then show ?thesis
  proof (cases rule: take_err_cases)
    case 1
    then show ?thesis using assms(1) by (simp add: pf_inv_def)
  next
    case (2 key)
    then show ?thesis using end_order_inv [OF assms(1), of "PhFailed k"] by (simp add: end_order_slots)
  qed
qed

subsection \<open>The workers\<close>

lemma core_pop:
  assumes "core cfg jobs f st" "pf_queue st = (g, k) # q" "g \<noteq> pf_generation st \<or> map_of (pf_cells st) k = None"
  shows "core cfg jobs f (st\<lparr>pf_queue := q\<rparr>)"
proof -
  have "pending jobs (st\<lparr>pf_queue := q\<rparr>)"
    unfolding pending_def
  proof (intro allI impI conjI)
    fix k' c assume "map_of (pf_cells (st\<lparr>pf_queue := q\<rparr>)) k' = Some c"
    then have m: "map_of (pf_cells st) k' = Some c" by simp
    note p = coreD(4,5) [OF assms(1) m]
    assume "cl_status c = Queued"
    with p(1) assms(2,3) m
    show "(pf_generation (st\<lparr>pf_queue := q\<rparr>), k') \<in> set (pf_queue (st\<lparr>pf_queue := q\<rparr>))" by auto
  next
    fix k' c assume "map_of (pf_cells (st\<lparr>pf_queue := q\<rparr>)) k' = Some c" "cl_status c = Running"
    with coreD(5) [OF assms(1), of k' c]
    show "(pf_generation (st\<lparr>pf_queue := q\<rparr>), k') \<in> set jobs" by simp
  qed
  then show ?thesis using assms(1) by (simp add: core_def counts_def genuine_def sized_def)
qed

lemma core_claim:
  assumes "core cfg jobs f st" "pf_queue st = (g, k) # q" "g = pf_generation st" "map_of (pf_cells st) k = Some c"
  shows "core cfg (jobs @ [(g, k)]) f
    (st\<lparr>pf_queue := q, pf_cells := al_put k (c\<lparr>cl_status := Running\<rparr>) (pf_cells st), pf_running := n\<rparr>)"
proof -
  note p = coreD [OF assms(1,4)]
  define c' where "c' = c\<lparr>cl_status := Running\<rparr>"
  have c': "cl_slots c' = f k" "cl_status c' = Running" using p(1) by (simp_all add: c'_def)
  let ?st = "st\<lparr>pf_queue := q, pf_cells := al_put k c' (pf_cells st), pf_running := n\<rparr>"
  have m: "map_of (pf_cells ?st) = (map_of (pf_cells st))(k \<mapsto> c')" by simp
  have "counts ?st f" using assms(1) c' p(2) unfolding core_def counts_def m by auto
  moreover have "genuine cfg ?st"
    using assms(1) c' unfolding core_def genuine_def m by auto
  moreover have "pending (jobs @ [(g, k)]) ?st"
    using assms(1-3) c' unfolding core_def pending_def m by auto
  moreover have "sized cfg ?st" using assms(1) by (simp add: core_def sized_def)
  ultimately show ?thesis by (simp add: core_def c'_def)
qed

lemma core_store:
  assumes "core cfg jobs f st" "cf_produces cfg (fst k) (snd k) outcome"
  shows "core cfg jobs f (store_outcome k outcome st)"
    and "map_of (pf_cells (store_outcome k outcome st)) k = Some c \<Longrightarrow> cl_status c \<noteq> Running"
proof -
  have *: "core cfg jobs f (store_outcome k outcome st) \<and>
    (\<forall>c. map_of (pf_cells (store_outcome k outcome st)) k = Some c \<longrightarrow> cl_status c \<noteq> Running)"
  proof (cases "map_of (pf_cells st) k")
    case None
    with assms(1) show ?thesis by (simp add: store_outcome_def)
  next
    case (Some c)
    note p = coreD [OF assms(1) Some]
    have n: "core cfg jobs (f(k := f k)) (st\<lparr>pf_last_size := ls, pf_stats := stats, pf_cells := al_put k c' (pf_cells st)\<rparr>)"
      if "cl_slots c' = f k" "status_genuine cfg k (cl_status c')" "cl_status c' \<noteq> Queued" "cl_status c' \<noteq> Running"
        "length ls = length (pf_last_size st)" for c' ls stats
      by (rule core_put [OF assms(1), where cell = c']) (use that p in simp_all)
    show ?thesis
    proof (cases outcome)
      case (Inl e)
      define c' where "c' = c\<lparr>cl_status := CellFailed (Some e)\<rparr>"
      have c': "cl_slots c' = f k" "cl_status c' = CellFailed (Some e)" using p(1) by (simp_all add: c'_def)
      have "core cfg jobs (f(k := f k)) (st\<lparr>pf_last_size := pf_last_size st, pf_stats := pf_stats st, pf_cells := al_put k c' (pf_cells st)\<rparr>)"
        by (rule n) (use c' assms(2) Inl in \<open>simp_all add: status_genuine_def\<close>)
      with Some Inl c' show ?thesis by (simp add: store_outcome_def c'_def)
    next
      case (Inr db)
      obtain d b where db: "db = (d, b)" by force
      define c' where "c' = c\<lparr>cl_status := CellReady d b\<rparr>"
      have c': "cl_slots c' = f k" "cl_status c' = CellReady d b" using p(1) by (simp_all add: c'_def)
      have "core cfg jobs (f(k := f k)) (st\<lparr>pf_last_size := (pf_last_size st)[fst k := Some b],
          pf_stats := (pf_stats st)\<lparr>ps_samples_decoded := ps_samples_decoded (pf_stats st) + 1\<rparr>,
          pf_cells := al_put k c' (pf_cells st)\<rparr>)"
        by (rule n) (use c' assms(2) Inr db in \<open>simp_all add: status_genuine_def\<close>)
      with Some Inr db c' show ?thesis by (simp add: store_outcome_def c'_def)
    qed
  qed
  then show "core cfg jobs f (store_outcome k outcome st)"
    and "map_of (pf_cells (store_outcome k outcome st)) k = Some c \<Longrightarrow> cl_status c \<noteq> Running"
    by blast+
qed

lemma core_drop_job:
  assumes "core cfg jobs f st" "n < length jobs" "jobs ! n = (g, k)"
    and "g = pf_generation st \<Longrightarrow> map_of (pf_cells st) k = Some c \<Longrightarrow> cl_status c \<noteq> Running"
    and "\<And>c. g = pf_generation st \<Longrightarrow> map_of (pf_cells st) k = Some c \<Longrightarrow> cl_status c \<noteq> Running"
  shows "core cfg (take n jobs @ drop (Suc n) jobs) f st"
proof -
  have keep: "x \<in> set (take n jobs @ drop (Suc n) jobs)" if "x \<in> set jobs" "x \<noteq> (g, k)" for x
    using that assms(2,3) by (metis Un_iff id_take_nth_drop insert_iff list.simps(15) set_append)
  show ?thesis using assms(1,5) keep unfolding core_def pending_def by (metis prod.inject)
qed

lemma store_outcome_frame:
  "pf_phase (store_outcome k o' st) = pf_phase st" "pf_generation (store_outcome k o' st) = pf_generation st"
  "pf_order (store_outcome k o' st) = pf_order st" "pf_next (store_outcome k o' st) = pf_next st"
  "pf_admitted (store_outcome k o' st) = pf_admitted st" "pf_slots (store_outcome k o' st) = pf_slots st"
  "pf_running (store_outcome k o' st) = pf_running st"
  by (simp_all add: store_outcome_def split: option.splits sum.splits prod.splits)

lemma finish_inv:
  assumes inv: "pf_inv cfg s" and depth: "0 < cf_depth cfg" and n: "n < length (sys_jobs s)" "sys_jobs s ! n = (g, k)"
    and made: "cf_produces cfg (fst k) (snd k) outcome"
  shows "pf_inv cfg (s\<lparr>sys_state := worker_finish cfg (g, k) outcome (sys_state s),
      sys_jobs := take n (sys_jobs s) @ drop (Suc n) (sys_jobs s)\<rparr>)"
proof -
  let ?st = "sys_state s" and ?jobs = "take n (sys_jobs s) @ drop (Suc n) (sys_jobs s)"
  let ?st1 = "?st\<lparr>pf_running := pf_running ?st - 1\<rparr>"
  from inv have core: "core cfg (sys_jobs s) (refs (pf_slots ?st)) ?st1" and sh: "shaped cfg ?st1" "shaped cfg ?st"
    and run: "pf_running ?st1 = length ?jobs" and head: "head_admitted ?st"
    using n(1) by (simp_all add: pf_inv_def Let_def core_def counts_def genuine_def pending_def sized_def shaped_def)
  show ?thesis
  proof (cases "g = pf_generation ?st1 \<and> map_of (pf_cells ?st1) k \<noteq> None")
    case False
    have "core cfg ?jobs (refs (pf_slots ?st)) ?st1"
      by (rule core_drop_job [OF core n]) (use False in auto)
    with False sh head run show ?thesis
      by (auto simp: pf_inv_def worker_finish_def Let_def head_admitted_def)
  next
    case True
    let ?st2 = "store_outcome k outcome ?st1"
    let ?st3 = "settle cfg ?st2"
    note fr = store_outcome_frame [of k outcome ?st1]
    have "core cfg (sys_jobs s) (refs (pf_slots ?st)) ?st2" by (rule core_store(1) [OF core made])
    from core_drop_job [OF this n] core_store(2) [OF core made]
    have c2: "core cfg ?jobs (refs (pf_slots ?st)) ?st2" by blast
    have sh2: "shaped cfg ?st2" using sh fr by (simp add: shaped_def)
    have r: "refs (pf_slots ?st3) = refs (pf_slots ?st)"
      using refs_cong [OF settle_frame(6) [of cfg ?st2]] fr by (simp add: fun_eq_iff)
    have c3: "core cfg ?jobs (refs (pf_slots ?st3)) ?st3"
      unfolding r by (rule core_cong [OF c2 settle_frame(1,3,4)])
    have sh3: "shaped cfg ?st3" by (rule shaped_cong [OF sh2 settle_frame(1,2,5,6)])
    have run3: "pf_running ?st3 = length ?jobs" using settle_frame(1) [of ?st2 cfg] fr run by (simp add: same_frame_def)
    have e: "worker_finish cfg (g, k) outcome ?st = admit cfg ?st3"
      using True by (simp add: worker_finish_def Let_def)
    from admit_inv [OF c3 sh3 depth] run3 show ?thesis
      by (simp add: pf_inv_def Let_def e same_frame_def)
  qed
qed

lemma worker_step_inv:
  assumes inv: "pf_inv cfg s" and depth: "0 < cf_depth cfg" and step: "worker_step cfg s s'"
  shows "pf_inv cfg s'"
  using step
proof (cases rule: worker_step.cases)
  case (skip st)
  obtain g k q where q: "pf_queue (sys_state s) = (g, k) # q"
    using skip(3) by (metis list.exhaust surj_pair)
  with skip(2) have st: "st = (sys_state s)\<lparr>pf_queue := q\<rparr>"
      "g \<noteq> pf_generation (sys_state s) \<or> map_of (pf_cells (sys_state s)) k = None"
    by (auto simp: worker_pop_def Let_def split: if_splits option.splits)
  with inv core_pop [OF _ q] show ?thesis
    by (simp add: pf_inv_def Let_def skip(1) shaped_def head_admitted_def)
next
  case (pop job st)
  obtain g k q where q: "pf_queue (sys_state s) = (g, k) # q"
    using pop(2) by (cases "pf_queue (sys_state s)") (auto simp: worker_pop_def)
  with pop(2) obtain c where c: "map_of (pf_cells (sys_state s)) k = Some c" "g = pf_generation (sys_state s)"
      "job = (g, k)" "st = (sys_state s)\<lparr>pf_queue := q, pf_cells := al_put k (c\<lparr>cl_status := Running\<rparr>) (pf_cells (sys_state s)),
        pf_running := pf_running (sys_state s) + 1\<rparr>"
    by (auto simp: worker_pop_def Let_def split: if_splits option.splits)
  from inv core_claim [OF _ q c(2,1), of cfg "sys_jobs s" "refs (pf_slots (sys_state s))"]
  show ?thesis by (simp add: pf_inv_def Let_def pop(1) c(3,4) shaped_def head_admitted_def)
next
  case (finish n job outcome)
  obtain g k where "job = (g, k)" by (cases job) auto
  with finish finish_inv [OF inv depth, of n g k outcome] show ?thesis by simp
qed

lemma shut_inv: "pf_inv cfg s \<Longrightarrow> pf_inv cfg (s\<lparr>sys_state := pf_shut (sys_state s)\<rparr>)"
  unfolding pf_inv_def Let_def pf_shut_def core_def counts_def genuine_def pending_def sized_def
    shaped_def head_admitted_def by simp

lemma pf_step_inv:
  assumes inv: "pf_inv cfg s" and depth: "0 < cf_depth cfg" and step: "pf_step cfg s s'"
  shows "pf_inv cfg s'"
  using step
proof (cases rule: pf_step.cases)
  case (start ord frm r st)
  with start_inv [OF inv depth] show ?thesis by simp
next
  case (take_ok k r st)
  with take_inv [OF inv depth] show ?thesis by simp
next
  case cancel
  with inv end_order_inv [OF inv, of Cancelled] show ?thesis by (simp add: pf_cancel_def)
next
  case close
  with inv end_order_inv [OF inv, of Closed] show ?thesis by (simp add: pf_close_def)
next
  case shut
  with shut_inv [OF inv] show ?thesis by simp
next
  case dropped
  with shut_inv [OF end_order_inv [OF inv, of Closed]] shut_inv [OF inv] show ?thesis
    by (simp add: pf_drop_def pf_close_def)
next
  case (fetch r st)
  have "\<exists>q. st = (sys_state s)\<lparr>pf_fetch_queue := q\<rparr>"
    using fetch(2) by (cases "pf_fetch_queue (sys_state s)")
      (auto simp: fetcher_pop_def split: prod.splits if_splits intro: exI [of _ "[]"])
  then obtain q where "st = (sys_state s)\<lparr>pf_fetch_queue := q\<rparr>" by blast
  with inv fetch(1) show ?thesis
    by (simp add: pf_inv_def Let_def core_def counts_def genuine_def pending_def sized_def
        shaped_def head_admitted_def)
next
  case work
  with worker_step_inv [OF inv depth] show ?thesis by simp
qed

lemma pf_inv_initial: "pf_inv cfg (pf_initial cfg)"
  by (simp add: pf_inv_def Let_def pf_initial_def pf_new_def core_def counts_def genuine_def pending_def
      sized_def shaped_def head_admitted_def refs_def)

lemma reachable_inv: "pf_reachable cfg s \<Longrightarrow> 0 < cf_depth cfg \<Longrightarrow> pf_inv cfg s"
  by (induction rule: pf_reachable.induct) (auto intro: pf_inv_initial pf_step_inv)

subsection \<open>Closing is final\<close>

lemma admit_same_frame: "same_frame st (admit cfg st)"
proof -
  have a: "same_frame st (admit_slots n cfg st)" for n
  proof (induction n cfg st rule: admit_slots.induct)
    case (2 n cfg st)
    then show ?case using admit_slot_frame(1) [of st cfg] by (auto intro: same_frame_trans)
  qed simp
  have b: "same_frame x (fetch_ahead cfg (settle cfg x))" for x :: "'a pf_state"
    by (rule same_frame_trans [OF settle_frame(1) fetch_ahead_frame [THEN conjunct1]])
  show ?thesis
    by (simp add: admit_def same_frame_trans [OF a b])
qed

lemma store_outcome_frame':
  "pf_shutdown (store_outcome k o' st) = pf_shutdown st" "pf_prev_anchor (store_outcome k o' st) = pf_prev_anchor st"
  "pf_queue (store_outcome k o' st) = pf_queue st"
  by (simp_all add: store_outcome_def split: option.splits sum.splits prod.splits)

lemma fold_take_shutdown: "pf_shutdown (snd (fold (take_key cfg) iks acc)) = pf_shutdown (snd acc)"
proof (induction iks arbitrary: acc)
  case (Cons ik iks)
  have "pf_shutdown (snd (take_key cfg ik acc)) = pf_shutdown (snd acc)"
    by (auto simp: take_key_def split: prod.splits option.splits cell_status.splits)
  with Cons [of "take_key cfg ik acc"] show ?case by simp
qed simp

lemma take_ok_shape:
  assumes "pf_take cfg k st = Some (Inr es, st')"
  obtains iks samples st2 where "fold (take_key cfg) iks ([], st\<lparr>pf_slots := tl (pf_slots st)\<rparr>) = (samples, st2)"
    "st' = admit cfg (st2\<lparr>pf_next := pf_next st2 + 1\<rparr>)"
  using assms by (auto simp: pf_take_def Let_def split: option.splits if_splits prod.splits)

lemma pf_take_shutdown:
  assumes "pf_take cfg k st = Some (r, st')"
  shows "pf_shutdown st' = pf_shutdown st"
proof (cases r)
  case (Inl e)
  from assms [unfolded Inl] show ?thesis by (cases rule: take_err_cases) (simp_all add: end_order_def)
next
  case (Inr es)
  from assms [unfolded Inr] show ?thesis
  proof (rule take_ok_shape)
    fix iks samples st2
    assume f: "fold (take_key cfg) iks ([], st\<lparr>pf_slots := tl (pf_slots st)\<rparr>) = (samples, st2)"
      and st': "st' = admit cfg (st2\<lparr>pf_next := pf_next st2 + 1\<rparr>)"
    have "pf_shutdown st2 = pf_shutdown st"
      using fold_take_shutdown [of cfg iks "([], st\<lparr>pf_slots := tl (pf_slots st)\<rparr>)"] f by simp
    with admit_same_frame [of "st2\<lparr>pf_next := pf_next st2 + 1\<rparr>" cfg] show ?thesis
      by (simp add: st' same_frame_def)
  qed
qed

lemma worker_step_frame:
  "worker_step cfg s s' \<Longrightarrow>
     pf_phase (sys_state s') = pf_phase (sys_state s) \<and> pf_generation (sys_state s') = pf_generation (sys_state s) \<and>
     pf_order (sys_state s') = pf_order (sys_state s) \<and> pf_next (sys_state s') = pf_next (sys_state s) \<and>
     pf_shutdown (sys_state s') = pf_shutdown (sys_state s) \<and>
     pf_prev_anchor (sys_state s') = pf_prev_anchor (sys_state s)"
proof (induction rule: worker_step.induct)
  case (finish n s job outcome)
  let ?st1 = "(sys_state s)\<lparr>pf_running := pf_running (sys_state s) - 1\<rparr>"
  let ?st2 = "store_outcome (snd job) outcome ?st1"
  have "same_frame ?st2 (admit cfg (settle cfg ?st2))"
    using settle_frame(1) admit_same_frame same_frame_trans by blast
  then show ?case
    by (simp add: worker_finish_def Let_def same_frame_def store_outcome_frame store_outcome_frame')
qed (auto simp: worker_pop_def Let_def split: list.splits prod.splits if_splits option.splits)

lemma pf_step_shut: "pf_step cfg s s' \<Longrightarrow> shut_closed s \<Longrightarrow> shut_closed s'"
proof (induction rule: pf_step.induct)
  case (start ord frm s r st)
  then show ?case using admit_same_frame [where cfg = cfg]
    by (fastforce simp: shut_closed_def pf_start_def same_frame_def end_order_def split: sum.splits if_splits)
next
  case (take_ok k s r st)
  show ?case
  proof (cases "pf_phase (sys_state s) = Active")
    case True
    with take_ok(2) have "\<not> pf_shutdown (sys_state s)" by (simp add: shut_closed_def)
    moreover have "pf_shutdown st = pf_shutdown (sys_state s)" using take_ok(1) by (rule pf_take_shutdown)
    ultimately show ?thesis by (simp add: shut_closed_def)
  next
    case False
    with take_ok show ?thesis
      by (auto simp: shut_closed_def pf_take_def phase_refusal_def split: phase.splits)
  qed
next
  case (work s s')
  with worker_step_frame [OF work(1)] show ?case by (simp add: shut_closed_def)
qed (auto simp: shut_closed_def pf_cancel_def pf_close_def pf_drop_def pf_shut_def end_order_def fetcher_pop_def
      split: list.splits prod.splits if_splits)

lemma reachable_shut: "pf_reachable cfg s \<Longrightarrow> shut_closed s"
proof (induction rule: pf_reachable.induct)
  case initial
  show ?case by (simp add: shut_closed_def pf_initial_def pf_new_def)
qed (rule pf_step_shut)

end
