(* ===== verification/PrefetchProps.thy ===== *)
theory PrefetchProps
  imports PrefetchRuns
begin

text \<open>
  What the prefetch group promises its consumer: it serves what a sequential reader of the declared
  order would serve, a take never waits forever, the window of decoded epochs stays within the
  depth, and admission stays within the byte budget.
\<close>

section \<open>The sequential reader\<close>

text \<open>The abstract specification: no queue, no cells, no threads. A take of the next declared epoch
  produces every member's sample on the spot; the first member that fails ends the order.\<close>

record reader =
  rd_phase :: phase
  rd_order :: "nat list"
  rd_next :: nat
  rd_prev :: "int option list"

definition reader_of :: "'d pf_state \<Rightarrow> reader" where
  "reader_of st = \<lparr>rd_phase = pf_phase st, rd_order = pf_order st, rd_next = pf_next st, rd_prev = pf_prev_anchor st\<rparr>"

definition reader_ended :: "nat \<Rightarrow> reader \<Rightarrow> reader" where
  "reader_ended k rd = \<lparr>rd_phase = PhFailed k, rd_order = [], rd_next = 0, rd_prev = map (\<lambda>_. None) (rd_prev rd)\<rparr>"

inductive reader_take :: "'d config \<Rightarrow> nat \<Rightarrow> reader \<Rightarrow> 'd epoch_sample result \<Rightarrow> reader \<Rightarrow> bool" for cfg k rd where
  refused: "phase_refusal k (rd_phase rd) = Some e \<Longrightarrow> reader_take cfg k rd (Inl e) rd"
| exhausted: "rd_phase rd = Active \<Longrightarrow> rd_next rd = length (rd_order rd) \<Longrightarrow>
    reader_take cfg k rd (Inl (prefetch_err (''take('' @ show_nat k @ ''): the order is exhausted (all ''
      @ show_nat (length (rd_order rd)) @ '' entries taken); call start again''))) rd"
| not_next: "rd_phase rd = Active \<Longrightarrow> rd_next rd < length (rd_order rd) \<Longrightarrow> k \<noteq> rd_order rd ! rd_next rd \<Longrightarrow>
    reader_take cfg k rd (Inl (prefetch_err (''take('' @ show_nat k
      @ ''): the next epoch in the current order is '' @ show_nat (rd_order rd ! rd_next rd)))) rd"
| served: "rd_phase rd = Active \<Longrightarrow> rd_next rd < length (rd_order rd) \<Longrightarrow> k = rd_order rd ! rd_next rd \<Longrightarrow>
    es_epoch es = k \<Longrightarrow> length (es_samples es) = length (cf_members cfg) \<Longrightarrow>
    (\<forall>i<length (cf_members cfg).
       (let s = es_samples es ! i; anchor = cf_anchors cfg ! i ! k in
        fst s = cf_members cfg ! i \<and> sm_anchor (snd s) = anchor \<and>
        (\<exists>b. cf_produces cfg i anchor (Inr (sm_data (snd s), b))) \<and>
        (sm_changed (snd s) \<longleftrightarrow> rd_prev rd ! i \<noteq> Some anchor))) \<Longrightarrow>
    reader_take cfg k rd (Inr es)
      (rd\<lparr>rd_next := Suc (rd_next rd), rd_prev := map (\<lambda>i. Some (cf_anchors cfg ! i ! k)) [0..<length (cf_members cfg)]\<rparr>)"
| failed: "rd_phase rd = Active \<Longrightarrow> rd_next rd < length (rd_order rd) \<Longrightarrow> k = rd_order rd ! rd_next rd \<Longrightarrow>
    i < length (cf_members cfg) \<Longrightarrow> cf_produces cfg i (cf_anchors cfg ! i ! k) (Inl e) \<Longrightarrow>
    (\<forall>j<i. \<exists>d b. cf_produces cfg j (cf_anchors cfg ! j ! k) (Inr (d, b))) \<Longrightarrow>
    reader_take cfg k rd (Inl e) (reader_ended k rd)"

lemma failed_head:
  assumes core: "core cfg jobs (refs (pf_slots st)) st" and sh: "shaped cfg st" and hd: "head_done st"
    and k: "k = pf_order st ! pf_next st"
    and f: "find (\<lambda>key. is_failed (status_of st key)) (sl_keys (hd (pf_slots st))) = Some key"
  obtains i e where "key = (i, cf_anchors cfg ! i ! k)" "i < length (cf_members cfg)"
    "status_of st key = CellFailed (Some e)" "cf_produces cfg i (cf_anchors cfg ! i ! k) (Inl e)"
    "\<forall>j<i. \<exists>d b. cf_produces cfg j (cf_anchors cfg ! j ! k) (Inr (d, b))"
proof -
  obtain hs ss where hs: "pf_slots st = hs # ss" "sl_keys hs = keys_of cfg k"
    using head_slot [OF sh hd] k by metis
  from f hs obtain i where i: "i < length (cf_members cfg)" "key = keys_of cfg k ! i"
      "is_failed (status_of st key)" "\<forall>j<i. \<not> is_failed (status_of st (keys_of cfg k ! j))"
    by (auto simp: find_Some_iff keys_of_props(3))
  have cell: "\<exists>c. map_of (pf_cells st) (keys_of cfg k ! j) = Some c \<and> finished (cl_status c) \<and>
      status_genuine cfg (keys_of cfg k ! j) (cl_status c)" if "j < length (cf_members cfg)" for j
  proof -
    have mem: "keys_of cfg k ! j \<in> set (keys_of cfg k)" using that by (simp add: keys_of_props(3))
    then have "refs (pf_slots st) (keys_of cfg k ! j) > 0" using hs by (simp add: refs_Cons)
    then obtain c where c: "map_of (pf_cells st) (keys_of cfg k ! j) = Some c"
      using core by (cases "map_of (pf_cells st) (keys_of cfg k ! j)") (auto simp: core_def counts_def)
    moreover have "finished (cl_status c)"
      using hd hs mem c by (auto simp: head_done_def list_all_iff status_of_def)
    ultimately show ?thesis using coreD(3) [OF core c] by blast
  qed
  have good: "\<exists>d b. cf_produces cfg j (cf_anchors cfg ! j ! k) (Inr (d, b))" if "j < i" for j
  proof -
    from that i(1) have j: "j < length (cf_members cfg)" by simp
    from cell [OF j] obtain c where c: "map_of (pf_cells st) (keys_of cfg k ! j) = Some c"
        "finished (cl_status c)" "status_genuine cfg (keys_of cfg k ! j) (cl_status c)" by blast
    with i(4) that have "\<not> is_failed (cl_status c)" by (auto simp: status_of_def)
    with c(2,3) show ?thesis using j
      by (cases "cl_status c") (auto simp: finished_def is_failed_def status_genuine_def keys_of_props(4))
  qed
  from cell [OF i(1)] obtain c where c: "map_of (pf_cells st) key = Some c"
      "status_genuine cfg key (cl_status c)" using i(2) by blast
  with i(3) obtain e where "cl_status c = CellFailed (Some e)" "cf_produces cfg (fst key) (snd key) (Inl e)"
    by (cases "cl_status c") (auto simp: status_of_def is_failed_def status_genuine_def)
  with c i(1,2) good show ?thesis by (intro that [of i e]) (auto simp: status_of_def keys_of_props(4))
qed

lemma take_ok_reader:
  assumes inv: "pf_inv cfg s" and depth: "0 < cf_depth cfg"
    and t: "pf_take cfg k (sys_state s) = Some (Inr es, st')"
  shows "reader_take cfg k (reader_of (sys_state s)) (Inr es) (reader_of st')"
proof -
  note ok = take_ok_inv [OF inv depth t]
  have "length (pf_prev_anchor st') = length (cf_members cfg)"
    using ok(1) by (simp add: pf_inv_def Let_def core_def sized_def)
  then have prev: "pf_prev_anchor st' = map (\<lambda>i. Some (cf_anchors cfg ! i ! k)) [0..<length (cf_members cfg)]"
    using ok(6) by (intro nth_equalityI) simp_all
  have active: "pf_phase (sys_state s) = Active"
    using t by (auto simp: pf_take_def phase_refusal_def split: phase.splits)
  have "reader_of st' = (reader_of (sys_state s))\<lparr>rd_next := Suc (rd_next (reader_of (sys_state s))),
      rd_prev := map (\<lambda>i. Some (cf_anchors cfg ! i ! k)) [0..<length (cf_members cfg)]\<rparr>"
    using ok(7-9) prev active by (simp add: reader_of_def)
  moreover have "reader_take cfg k (reader_of (sys_state s)) (Inr es) \<dots>"
    by (rule reader_take.served) (use ok(2-6) active in \<open>simp_all add: reader_of_def sample_ok_def Let_def\<close>)
  ultimately show ?thesis by simp
qed

lemma take_err_reader:
  assumes inv: "pf_inv cfg s" and t: "pf_take cfg k (sys_state s) = Some (Inl e, st')"
  shows "reader_take cfg k (reader_of (sys_state s)) (Inl e) (reader_of st')"
proof -
  let ?st = "sys_state s"
  from inv have core: "core cfg (sys_jobs s) (refs (pf_slots ?st)) ?st" and sh: "shaped cfg ?st"
    by (simp_all add: pf_inv_def Let_def)
  show ?thesis
  proof (cases "pf_phase ?st = Active \<and> pf_next ?st < length (pf_order ?st) \<and> k = pf_order ?st ! pf_next ?st")
    case False
    show ?thesis
    proof (cases "phase_refusal k (pf_phase ?st)")
      case (Some x)
      with t show ?thesis by (simp add: pf_take_def reader_of_def reader_take.refused)
    next
      case None
      then have a: "pf_phase ?st = Active" by (simp add: phase_refusal_def split: phase.splits)
      show ?thesis
      proof (cases "pf_next ?st < length (pf_order ?st)")
        case True
        with False a t None reader_take.not_next [of "reader_of ?st" k cfg] show ?thesis
          by (auto simp: pf_take_def reader_of_def simp del: append_Cons)
      next
        case False
        with sh have "pf_next ?st = length (pf_order ?st)" by (simp add: shaped_def)
        with a t None reader_take.exhausted [of "reader_of ?st" cfg k] show ?thesis
          by (auto simp: pf_take_def reader_of_def simp del: append_Cons)
      qed
    qed
  next
    case True
    then have act: "pf_phase ?st = Active" "pf_next ?st < length (pf_order ?st)" "k = pf_order ?st ! pf_next ?st"
      by simp_all
    from t show ?thesis
    proof (cases rule: take_err_cases)
      case 1
      have "pf_phase st' = PhFailed k" using t act
        by (auto simp: pf_take_def phase_refusal_def Let_def end_order_def split: if_splits option.splits prod.splits)
      with 1 act(1) show ?thesis by simp
    next
      case (2 key)
      from failed_head [OF core sh 2(4) 2(3) 2(5)]
      obtain i x where i: "key = (i, cf_anchors cfg ! i ! k)" "i < length (cf_members cfg)"
        "status_of ?st key = CellFailed (Some x)" "cf_produces cfg i (cf_anchors cfg ! i ! k) (Inl x)"
        "\<forall>j<i. \<exists>d b. cf_produces cfg j (cf_anchors cfg ! j ! k) (Inr (d, b))" by metis
      have "reader_of st' = reader_ended k (reader_of ?st)"
        by (simp add: 2(1) end_order_def reader_of_def reader_ended_def)
      moreover have "e = x" using 2(6) i(3) by simp
      moreover have "reader_take cfg k (reader_of ?st) (Inl x) (reader_ended k (reader_of ?st))"
        by (rule reader_take.failed [where i = i]) (use act i in \<open>simp_all add: reader_of_def\<close>)
      ultimately show ?thesis by simp
    qed
  qed
qed

section \<open>Progress of the workers\<close>

definition worker_measure :: "'d pf_system \<Rightarrow> nat \<times> nat" where
  "worker_measure s =
     (length (pf_order (sys_state s)) - pf_admitted (sys_state s),
      2 * length (pf_queue (sys_state s)) + length (sys_jobs s))"

lemma admit_slots_progress:
  "admit_slots n cfg st = st \<or> 0 < n \<and> pf_admitted st < pf_admitted (admit_slots n cfg st)"
proof (cases n)
  case (Suc m)
  show ?thesis
  proof (cases "admit_slots n cfg st = st")
    case False
    with Suc have "admit_slots n cfg st = admit_slots m cfg (admit_slot cfg st)" by (auto split: if_splits)
    with admit_slots_mono [of "admit_slot cfg st" m cfg] admit_slot_frame(2) [of cfg st] Suc
    show ?thesis by simp
  qed simp
qed simp

lemma admit_progress:
  "pf_admitted (admit cfg st) = pf_admitted st \<and> pf_queue (admit cfg st) = pf_queue st \<or>
   pf_admitted st < length (pf_order st) \<and> pf_admitted st < pf_admitted (admit cfg st)"
proof (cases "pf_phase st = Active")
  case True
  let ?n = "length (pf_order st) - pf_admitted st"
  have "pf_admitted (admit cfg st) = pf_admitted (admit_slots ?n cfg st)"
       "pf_queue (admit cfg st) = pf_queue (admit_slots ?n cfg st)"
    using True fetch_ahead_frame settle_frame(2,4) by (metis admit_def)+
  with admit_slots_progress [of ?n cfg st] show ?thesis by auto
qed (simp add: admit_def)

lemma worker_step_measure:
  "worker_step cfg s s' \<Longrightarrow> (worker_measure s', worker_measure s) \<in> less_than <*lex*> less_than"
proof (induction rule: worker_step.induct)
  case (finish n s job outcome)
  let ?st1 = "(sys_state s)\<lparr>pf_running := pf_running (sys_state s) - 1\<rparr>"
  let ?st2 = "store_outcome (snd job) outcome ?st1"
  let ?st3 = "settle cfg ?st2"
  have fr: "pf_order ?st3 = pf_order (sys_state s)" "pf_admitted ?st3 = pf_admitted (sys_state s)"
      "pf_queue ?st3 = pf_queue (sys_state s)"
    using settle_frame(1,2,4) [where st = ?st2 and cfg = cfg]
    by (simp_all add: same_frame_def store_outcome_frame store_outcome_frame')
  have "pf_order (admit cfg ?st3) = pf_order (sys_state s)"
    using admit_same_frame [of ?st3 cfg] fr by (simp add: same_frame_def)
  with fr admit_progress [of cfg ?st3] finish(1) show ?case
    by (auto simp: worker_measure_def worker_finish_def Let_def)
qed (auto simp: worker_measure_def worker_pop_def Let_def
      split: list.splits prod.splits if_splits option.splits)

lemma workers_terminate: "\<not> (\<exists>f. f 0 = s \<and> (\<forall>n. worker_step cfg (f n) (f (Suc n))))"
proof
  assume "\<exists>f. f 0 = s \<and> (\<forall>n. worker_step cfg (f n) (f (Suc n)))"
  then obtain f where f: "\<And>n. worker_step cfg (f n) (f (Suc n))" by blast
  have "wf (less_than <*lex*> less_than)" by auto
  moreover have "(worker_measure (f (Suc n)), worker_measure (f n)) \<in> less_than <*lex*> less_than" for n
    using worker_step_measure [OF f] .
  ultimately show False
    by (auto simp: wf_iff_no_infinite_down_chain dest!: spec [of _ "\<lambda>n. worker_measure (f n)"])
qed

lemma quiet_queue:
  assumes quiet: "\<forall>s'. \<not> worker_step cfg s s'" and up: "\<not> pf_shutdown (sys_state s)"
    and total: "\<forall>i a. \<exists>outcome. cf_produces cfg i a outcome"
  shows "pf_queue (sys_state s) = []" and "sys_jobs s = []"
proof -
  obtain job st where p: "worker_pop (sys_state s) = (job, st)" by force
  show "pf_queue (sys_state s) = []"
    using quiet p worker_step.skip [of s st cfg] worker_step.pop [of s _ st cfg] up
    by (cases job) auto
  show "sys_jobs s = []"
  proof (rule ccontr)
    assume "sys_jobs s \<noteq> []"
    then have n: "0 < length (sys_jobs s)" by simp
    obtain outcome where "cf_produces cfg (fst (snd (sys_jobs s ! 0))) (snd (snd (sys_jobs s ! 0))) outcome"
      using total by blast
    from worker_step.finish [OF n refl this] quiet show False by blast
  qed
qed

lemma quiet_head_done:
  assumes inv: "pf_inv cfg s" and quiet: "\<forall>s'. \<not> worker_step cfg s s'" and up: "\<not> pf_shutdown (sys_state s)"
    and total: "\<forall>i a. \<exists>outcome. cf_produces cfg i a outcome"
    and act: "pf_phase (sys_state s) = Active" "pf_next (sys_state s) < length (pf_order (sys_state s))"
  shows "head_done (sys_state s)"
proof -
  let ?st = "sys_state s"
  from inv have core: "core cfg (sys_jobs s) (refs (pf_slots ?st)) ?st" and sh: "shaped cfg ?st"
    and head: "head_admitted ?st" by (simp_all add: pf_inv_def Let_def)
  note empty = quiet_queue [OF quiet up total]
  have "pf_next ?st < pf_admitted ?st" using head act by (simp add: head_admitted_def)
  with sh have "map sl_pos (pf_slots ?st) \<noteq> []" by (simp add: shaped_def)
  then obtain hs ss where hs: "pf_slots ?st = hs # ss" by (cases "pf_slots ?st") auto
  have "finished (status_of ?st key)" if key: "key \<in> set (sl_keys hs)" for key
  proof -
    have "refs (pf_slots ?st) key > 0" using key hs by (simp add: refs_Cons)
    then obtain c where c: "map_of (pf_cells ?st) key = Some c"
      using core by (cases "map_of (pf_cells ?st) key") (auto simp: core_def counts_def)
    with coreD(4,5) [OF core c] empty show ?thesis
      by (cases "cl_status c") (simp_all add: finished_def status_of_def)
  qed
  with hs show ?thesis by (simp add: head_done_def list_all_iff)
qed

lemma worker_run:
  assumes "(worker_step cfg)\<^sup>*\<^sup>* s s'"
  shows "pf_inv cfg s \<Longrightarrow> 0 < cf_depth cfg \<Longrightarrow> pf_inv cfg s'"
    and "reader_of (sys_state s') = reader_of (sys_state s)"
    and "pf_shutdown (sys_state s') = pf_shutdown (sys_state s)"
  using assms
proof (induction rule: rtranclp_induct)
  case (step y z)
  {
    case 1
    with step worker_step_inv show ?case by blast
  next
    case 2
    with step worker_step_frame [OF step(2)] show ?case by (simp add: reader_of_def)
  next
    case 3
    with step worker_step_frame [OF step(2)] show ?case by simp
  }
qed simp_all

section \<open>The byte budget\<close>

definition opt_add :: "nat option \<Rightarrow> nat option \<Rightarrow> nat option" where
  "opt_add a b = (case a of None \<Rightarrow> None | Some m \<Rightarrow> map_option ((+) m) b)"

lemma opt_add_simps [simp]:
  "opt_add None b = None" "opt_add a None = None" "opt_add (Some m) (Some n) = Some (m + n)"
  "opt_add (Some 0) b = b" "opt_add a (Some 0) = a"
  by (cases a; cases b; simp add: opt_add_def)+

lemma opt_add_assoc: "opt_add (opt_add a b) c = opt_add a (opt_add b c)"
  by (cases a; cases b; cases c) simp_all

lemma sum_opt_simps [simp]: "sum_opt [] = Some 0" "sum_opt (x # xs) = opt_add x (sum_opt xs)"
  by (simp_all add: sum_opt_def opt_add_def)

lemma sum_opt_snoc: "sum_opt (xs @ [x]) = opt_add (sum_opt xs) x"
  by (induction xs) (simp_all add: opt_add_assoc)

lemma al_put_new: "map_of m k = None \<Longrightarrow> al_put k v m = m @ [(k, v)]"
  by (induction k v m rule: al_put.induct) (auto split: if_splits)

lemma al_put_same_size:
  "map_of m k = Some c \<Longrightarrow> cell_bytes c' = cell_bytes c \<Longrightarrow>
     map (cell_bytes \<circ> snd) (al_put k c' m) = map (cell_bytes \<circ> snd) m"
  by (induction m) (auto split: if_splits)

lemma admit_key_bytes:
  "committed_bytes (admit_key k st) =
     (if map_of (pf_cells st) k = None then opt_add (committed_bytes st) (size_of st k) else committed_bytes st)"
proof (cases "map_of (pf_cells st) k")
  case (Some c)
  have "cell_bytes (c\<lparr>cl_slots := cl_slots c + 1\<rparr>) = cell_bytes c"
    by (simp add: cell_bytes_def split: cell_status.splits)
  with al_put_same_size [OF Some this] Some show ?thesis
    by (simp add: admit_key_def committed_bytes_def bump_reused_def)
next
  case None
  then show ?thesis
    by (simp add: admit_key_def committed_bytes_def bump_reused_def queue_cell_def size_of_def al_put_new
        sum_opt_snoc cell_bytes_def split: option.splits prod.splits)
qed

lemma admit_key_others:
  "size_of (admit_key k st) = size_of st"
  "map_of (pf_cells (admit_key k st)) j = None \<longleftrightarrow> j \<noteq> k \<and> map_of (pf_cells st) j = None"
  using admit_key_frame [of st k]
  by (auto simp: fun_eq_iff size_of_def same_frame_def admit_key_def bump_reused_def queue_cell_def
      split: option.splits prod.splits)

lemma fold_admit_bytes:
  "distinct keys \<Longrightarrow> committed_bytes (fold admit_key keys st) =
     opt_add (committed_bytes st) (sum_opt (map (size_of st) (filter (\<lambda>k. map_of (pf_cells st) k = None) keys)))"
proof (induction keys arbitrary: st)
  case (Cons k ks)
  have "filter (\<lambda>j. map_of (pf_cells (admit_key k st)) j = None) ks = filter (\<lambda>j. map_of (pf_cells st) j = None) ks"
    using Cons.prems by (auto simp: admit_key_others intro: filter_cong)
  with Cons.IH [of "admit_key k st"] Cons.prems show ?case
    by (simp add: admit_key_others(1) admit_key_bytes opt_add_assoc)
qed simp

lemma admit_slot_budget:
  assumes mx: "cf_max_bytes cfg = Some mx" and w: "within_budget cfg st (keys_of cfg (pf_order st ! pf_admitted st))"
    and late: "pf_next st < pf_admitted st"
  shows "\<exists>c. committed_bytes (admit_slot cfg st) = Some c \<and> c \<le> mx"
proof -
  let ?keys = "keys_of cfg (pf_order st ! pf_admitted st)"
  have "committed_bytes (admit_slot cfg st) = committed_bytes (fold admit_key ?keys st)"
    by (simp add: admit_slot_def Let_def committed_bytes_def)
  also have "\<dots> = opt_add (committed_bytes st)
      (sum_opt (map (size_of st) (filter (\<lambda>k. map_of (pf_cells st) k = None) ?keys)))"
    by (rule fold_admit_bytes) (rule keys_of_props(1))
  finally show ?thesis using mx w late
    by (auto simp: within_budget_def split: option.splits)
qed

lemma admit_slots_budget:
  assumes "cf_max_bytes cfg = Some mx" "pf_next st \<le> pf_admitted st"
  shows "admit_slots n cfg st = st \<or> pf_admitted (admit_slots n cfg st) = Suc (pf_next st) \<or>
    (\<exists>c. committed_bytes (admit_slots n cfg st) = Some c \<and> c \<le> mx)"
  using assms
proof (induction n cfg st rule: admit_slots.induct)
  case (2 n cfg st)
  let ?go = "pf_admitted st - pf_next st < cf_depth cfg \<and> \<not> any_failed st \<and>
      within_budget cfg st (keys_of cfg (pf_order st ! pf_admitted st))"
  show ?case
  proof (cases ?go)
    case False
    then have "admit_slots (Suc n) cfg st = st" by (simp only: admit_slots.simps if_False)
    then show ?thesis by simp
  next
    case True
    then have e: "admit_slots (Suc n) cfg st = admit_slots n cfg (admit_slot cfg st)" by simp
    note fr = admit_slot_frame [where st = st and cfg = cfg]
    from fr have nx: "pf_next (admit_slot cfg st) = pf_next st" by (simp add: same_frame_def)
    have "pf_admitted (admit_slot cfg st) = Suc (pf_next st) \<or>
        (\<exists>c. committed_bytes (admit_slot cfg st) = Some c \<and> c \<le> mx)"
      using admit_slot_budget [OF "2.prems"(1)] True fr(2) "2.prems"(2) by fastforce
    with "2.IH" [OF True "2.prems"(1)] nx fr(2) "2.prems"(2) e show ?thesis by auto
  qed
qed simp

section \<open>Properties\<close>

lemma reachable_take_reader:
  assumes "pf_reachable cfg s" "0 < cf_depth cfg" "pf_take cfg k (sys_state s) = Some (r, st')"
  shows "reader_take cfg k (reader_of (sys_state s)) r (reader_of st')"
  using assms take_ok_reader take_err_reader reachable_inv [OF assms(1,2)] by (cases r) blast+

text \<open>C1: Whatever the workers do and in whatever order, a take answers what a sequential reader of the
  declared order answers: the next declared epoch with one sample per member in key order, each
  produced at that member's anchor and marked changed exactly when the anchor moved since the
  previous take; a failed member's error is raised in its epoch's turn, the lowest key's first, and
  ends the order. Steps of the workers and of the fetch thread are invisible to that reader.\<close>

theorem group_refines_reader:
  assumes "pf_reachable cfg s" "0 < cf_depth cfg"
  shows "(\<forall>k r st'. pf_take cfg k (sys_state s) = Some (r, st') \<longrightarrow>
            reader_take cfg k (reader_of (sys_state s)) r (reader_of st')) \<and>
         (\<forall>s'. worker_step cfg s s' \<longrightarrow> reader_of (sys_state s') = reader_of (sys_state s)) \<and>
         reader_of (snd (fetcher_pop (sys_state s))) = reader_of (sys_state s)"
proof (intro conjI allI impI)
  show "reader_take cfg k (reader_of (sys_state s)) r (reader_of st')"
    if "pf_take cfg k (sys_state s) = Some (r, st')" for k r st'
    by (rule reachable_take_reader [OF assms that])
  show "reader_of (sys_state s') = reader_of (sys_state s)" if "worker_step cfg s s'" for s'
    using worker_step_frame [OF that] by (simp add: reader_of_def)
  show "reader_of (snd (fetcher_pop (sys_state s))) = reader_of (sys_state s)"
    by (simp add: fetcher_pop_def reader_of_def split: list.splits prod.splits)
qed

text \<open>C2: A take of a running order never waits forever: if every decode ends in some outcome, the
  workers cannot run on without end, and whenever none of them has anything left to do the take
  answers.\<close>

theorem take_never_waits_forever:
  assumes "pf_reachable cfg s" "0 < cf_depth cfg" "\<forall>i a. \<exists>outcome. cf_produces cfg i a outcome"
    and "pf_phase (sys_state s) = Active"
  shows "(\<nexists>f. f 0 = s \<and> (\<forall>n. worker_step cfg (f n) (f (Suc n)))) \<and>
         (\<forall>s' k. (worker_step cfg)\<^sup>*\<^sup>* s s' \<longrightarrow> (\<forall>s''. \<not> worker_step cfg s' s'') \<longrightarrow>
            pf_take cfg k (sys_state s') \<noteq> None)"
proof (intro conjI allI impI)
  show "\<nexists>f. f 0 = s \<and> (\<forall>n. worker_step cfg (f n) (f (Suc n)))" by (rule workers_terminate)
next
  fix s' k assume run: "(worker_step cfg)\<^sup>*\<^sup>* s s'" and quiet: "\<forall>s''. \<not> worker_step cfg s' s''"
  note inv = worker_run(1) [OF run reachable_inv [OF assms(1,2)] assms(2)]
  have same: "pf_phase (sys_state s') = Active" using worker_run(2) [OF run] assms(4) by (simp add: reader_of_def)
  have "\<not> pf_shutdown (sys_state s)" using reachable_shut [OF assms(1)] assms(4) by (auto simp: shut_closed_def)
  then have up: "\<not> pf_shutdown (sys_state s')" using worker_run(3) [OF run] by simp
  show "pf_take cfg k (sys_state s') \<noteq> None"
  proof (cases "pf_next (sys_state s') < length (pf_order (sys_state s'))")
    case True
    from quiet_head_done [OF inv quiet up assms(3) same True] same show ?thesis
      by (simp add: pf_take_def phase_refusal_def Let_def split: option.splits prod.splits)
  qed (use same in \<open>simp add: pf_take_def phase_refusal_def\<close>)
qed

text \<open>The window of epochs held ahead never exceeds the depth, the next epoch to take is always in
  it, and the cells held are exactly those of the window's epochs, one per member and anchor however
  many epochs share it.\<close>

theorem window_bounded:
  assumes "pf_reachable cfg s" "0 < cf_depth cfg"
  shows "(let st = sys_state s in
     pf_next st \<le> pf_admitted st \<and> pf_admitted st \<le> length (pf_order st) \<and>
     pf_admitted st - pf_next st \<le> cf_depth cfg \<and>
     (pf_phase st = Active \<and> pf_next st < length (pf_order st) \<longrightarrow> pf_next st < pf_admitted st) \<and>
     dom (map_of (pf_cells st)) =
       (\<Union>p\<in>{pf_next st..<pf_admitted st}. set (keys_of cfg (pf_order st ! p))))"
proof -
  let ?st = "sys_state s"
  note inv = reachable_inv [OF assms]
  then have core: "core cfg (sys_jobs s) (refs (pf_slots ?st)) ?st" and sh: "shaped cfg ?st"
    by (simp_all add: pf_inv_def Let_def)
  have pos: "sl_pos ` set (pf_slots ?st) = {pf_next ?st..<pf_admitted ?st}"
    using sh by (metis list.set_map set_upt shaped_def)
  have "key \<in> dom (map_of (pf_cells ?st)) \<longleftrightarrow> (\<exists>x\<in>set (pf_slots ?st). key \<in> set (sl_keys x))" for key
  proof -
    have "key \<in> dom (map_of (pf_cells ?st)) \<longleftrightarrow> 0 < refs (pf_slots ?st) key"
      using core by (cases "map_of (pf_cells ?st) key") (auto simp: core_def counts_def)
    then show ?thesis by (auto simp: refs_def filter_empty_conv)
  qed
  then have "dom (map_of (pf_cells ?st)) = (\<Union>x\<in>set (pf_slots ?st). set (sl_keys x))" by blast
  also have "\<dots> = (\<Union>x\<in>set (pf_slots ?st). set (keys_of cfg (pf_order ?st ! sl_pos x)))"
    using sh by (simp add: shaped_def)
  also have "\<dots> = (\<Union>p\<in>{pf_next ?st..<pf_admitted ?st}. set (keys_of cfg (pf_order ?st ! p)))"
    by (simp add: pos [symmetric])
  finally show ?thesis using inv by (simp add: pf_inv_def Let_def shaped_def head_admitted_def)
qed

text \<open>Under a byte budget an admission either changes nothing, or admits the head epoch alone, or
  leaves the bytes of the held cells (decoded, or estimated from the member's last decode) known and
  within the budget.\<close>

theorem admission_within_budget:
  assumes "cf_max_bytes cfg = Some mx" "pf_next st \<le> pf_admitted st"
  shows "pf_cells (admit cfg st) = pf_cells st \<and> pf_admitted (admit cfg st) = pf_admitted st \<or>
    pf_admitted (admit cfg st) = Suc (pf_next st) \<or>
    (\<exists>c. committed_bytes (admit cfg st) = Some c \<and> c \<le> mx)"
proof (cases "pf_phase st = Active")
  case True
  let ?n = "length (pf_order st) - pf_admitted st"
  have "pf_admitted (admit cfg st) = pf_admitted (admit_slots ?n cfg st)"
       "pf_cells (admit cfg st) = pf_cells (admit_slots ?n cfg st)"
    using True fetch_ahead_frame settle_frame(2,3) by (metis admit_def)+
  with admit_slots_budget [OF assms, of ?n] show ?thesis by (auto simp: committed_bytes_def)
qed (simp add: admit_def)

section \<open>A group of two members\<close>

text \<open>Two members, two epochs, room for one epoch; member 1's sample at anchor 20 fails.\<close>

definition sample_cfg :: "int config" where
  "sample_cfg =
     \<lparr>cf_members = [''a'', ''b''], cf_boundaries = [10, 20], cf_anchors = [[0, 0], [10, 20]], cf_depth = 1,
      cf_max_bytes = Some 100, cf_fetch_ahead = 1,
      cf_produces = (\<lambda>i a r. if i = 1 \<and> a = 20 then r = Inl (prefetch_err ''bad'') else r = Inr (a + int i, 8)),
      cf_warm = (\<lambda>i a. [''u''])\<rparr>"

definition sample_started :: "int pf_state" where
  "sample_started = snd (pf_start sample_cfg Forward None (pf_new 2))"

definition sample_popped :: "int pf_state" where
  "sample_popped = snd (worker_pop sample_started)"

definition sample_popped2 :: "int pf_state" where
  "sample_popped2 = snd (worker_pop (worker_finish sample_cfg (1, 0, 0) (Inr (0, 8)) sample_popped))"

definition sample_ready :: "int pf_state" where
  "sample_ready = worker_finish sample_cfg (1, 1, 10) (Inr (11, 8)) sample_popped2"

lemmas sample_defs = sample_ready_def sample_popped2_def sample_popped_def sample_started_def

lemma sample_evals:
  "worker_pop sample_started = (Some (1, 0, 0), sample_popped)"
  "worker_pop (worker_finish sample_cfg (1, 0, 0) (Inr (0, 8)) sample_popped) = (Some (1, 1, 10), sample_popped2)"
  "\<not> pf_shutdown sample_started"
  "\<not> pf_shutdown (worker_finish sample_cfg (1, 0, 0) (Inr (0, 8)) sample_popped)"
  unfolding sample_defs by code_simp+

lemma sample_reachable_start: "pf_reachable sample_cfg \<lparr>sys_state = sample_started, sys_jobs = []\<rparr>"
proof -
  have "pf_step sample_cfg (pf_initial sample_cfg) ((pf_initial sample_cfg)\<lparr>sys_state := sample_started\<rparr>)"
    by (rule pf_step.start [where ord = Forward and frm = None and r = "fst (pf_start sample_cfg Forward None (pf_new 2))"])
      (simp add: pf_initial_def sample_started_def sample_cfg_def numeral_2_eq_2)
  with pf_reachable.initial have "pf_reachable sample_cfg ((pf_initial sample_cfg)\<lparr>sys_state := sample_started\<rparr>)"
    by (rule pf_reachable.step)
  then show ?thesis by (simp add: pf_initial_def)
qed

lemma sample_reachable: "pf_reachable sample_cfg \<lparr>sys_state = sample_ready, sys_jobs = []\<rparr>"
proof -
  let ?done = "worker_finish sample_cfg (1, 0, 0) (Inr (0, 8)) sample_popped"
  have 1: "worker_step sample_cfg \<lparr>sys_state = sample_started, sys_jobs = []\<rparr>
      \<lparr>sys_state = sample_popped, sys_jobs = [(1, 0, 0)]\<rparr>"
    using worker_step.pop [of "\<lparr>sys_state = sample_started, sys_jobs = []\<rparr>" "(1, 0, 0)" sample_popped sample_cfg]
      sample_evals by simp
  have 2: "worker_step sample_cfg \<lparr>sys_state = sample_popped, sys_jobs = [(1, 0, 0)]\<rparr>
      \<lparr>sys_state = ?done, sys_jobs = []\<rparr>"
    using worker_step.finish [of 0 "\<lparr>sys_state = sample_popped, sys_jobs = [(1, 0, 0)]\<rparr>" "(1, 0, 0)" sample_cfg "Inr (0, 8)"]
    by (simp add: sample_cfg_def)
  have 3: "worker_step sample_cfg \<lparr>sys_state = ?done, sys_jobs = []\<rparr>
      \<lparr>sys_state = sample_popped2, sys_jobs = [(1, 1, 10)]\<rparr>"
    using worker_step.pop [of "\<lparr>sys_state = ?done, sys_jobs = []\<rparr>" "(1, 1, 10)" sample_popped2 sample_cfg]
      sample_evals by simp
  have 4: "worker_step sample_cfg \<lparr>sys_state = sample_popped2, sys_jobs = [(1, 1, 10)]\<rparr>
      \<lparr>sys_state = sample_ready, sys_jobs = []\<rparr>"
    using worker_step.finish [of 0 "\<lparr>sys_state = sample_popped2, sys_jobs = [(1, 1, 10)]\<rparr>" "(1, 1, 10)" sample_cfg "Inr (11, 8)"]
    by (simp add: sample_cfg_def sample_ready_def)
  note r1 = pf_reachable.step [OF sample_reachable_start pf_step.work [OF 1]]
  note r2 = pf_reachable.step [OF r1 pf_step.work [OF 2]]
  note r3 = pf_reachable.step [OF r2 pf_step.work [OF 3]]
  show ?thesis by (rule pf_reachable.step [OF r3 pf_step.work [OF 4]])
qed

lemma sample_total: "\<forall>i a. \<exists>outcome. cf_produces sample_cfg i a outcome"
proof (intro allI)
  show "\<exists>outcome. cf_produces sample_cfg i a outcome" for i a
    by (cases "i = 1 \<and> a = 20") (simp_all add: sample_cfg_def)
qed

lemma sample_depth: "0 < cf_depth sample_cfg"
  by (simp add: sample_cfg_def)

theorem group_refines_reader_witness:
  "(\<exists>st' :: int pf_state. reader_take sample_cfg 0 (reader_of sample_ready)
      (Inr \<lparr>es_epoch = 0, es_samples =
         [(''a'', \<lparr>sm_data = 0, sm_anchor = 0, sm_changed = True\<rparr>),
          (''b'', \<lparr>sm_data = 11, sm_anchor = 10, sm_changed = True\<rparr>)]\<rparr>) (reader_of st'))"
proof -
  have "map_option fst (pf_take sample_cfg 0 sample_ready) = Some
      (Inr \<lparr>es_epoch = 0, es_samples =
         [(''a'', \<lparr>sm_data = 0, sm_anchor = 0, sm_changed = True\<rparr>),
          (''b'', \<lparr>sm_data = 11, sm_anchor = 10, sm_changed = True\<rparr>)]\<rparr>)"
    unfolding sample_defs by code_simp
  then obtain st' where "pf_take sample_cfg 0 sample_ready = Some
      (Inr \<lparr>es_epoch = 0, es_samples =
         [(''a'', \<lparr>sm_data = 0, sm_anchor = 0, sm_changed = True\<rparr>),
          (''b'', \<lparr>sm_data = 11, sm_anchor = 10, sm_changed = True\<rparr>)]\<rparr>, st')" by auto
  then have "pf_take sample_cfg 0 (sys_state \<lparr>sys_state = sample_ready, sys_jobs = []\<rparr>) = Some
      (Inr \<lparr>es_epoch = 0, es_samples =
         [(''a'', \<lparr>sm_data = 0, sm_anchor = 0, sm_changed = True\<rparr>),
          (''b'', \<lparr>sm_data = 11, sm_anchor = 10, sm_changed = True\<rparr>)]\<rparr>, st')" by simp
  from group_refines_reader [OF sample_reachable sample_depth, THEN conjunct1, rule_format, OF this]
  show ?thesis unfolding pf_system.select_convs by (rule exI)
qed

theorem take_never_waits_forever_witness:
  "\<nexists>f. f 0 = \<lparr>sys_state = sample_ready, sys_jobs = []\<rparr> \<and> (\<forall>n. worker_step sample_cfg (f n) (f (Suc n)))"
proof -
  have "pf_phase sample_ready = Active" unfolding sample_defs by code_simp
  then show ?thesis
    using take_never_waits_forever [OF sample_reachable sample_depth sample_total] by simp
qed

theorem window_bounded_witness:
  "pf_admitted sample_ready - pf_next sample_ready \<le> 1 \<and> dom (map_of (pf_cells sample_ready)) = {(0, 0), (1, 10)}"
proof -
  have "pf_next sample_ready = 0" "pf_admitted sample_ready = 1" "pf_order sample_ready = [0, 1]"
    unfolding sample_defs by code_simp+
  moreover have "set (keys_of sample_cfg 0) = {(0, 0), (1, 10)}" by code_simp
  ultimately show ?thesis
    using window_bounded [OF sample_reachable sample_depth] by (simp add: Let_def)
qed

theorem admission_within_budget_witness:
  "pf_admitted (admit sample_cfg sample_ready) = Suc (pf_next sample_ready) \<or>
     (\<exists>c. committed_bytes (admit sample_cfg sample_ready) = Some c \<and> c \<le> 100)"
proof -
  have "cf_max_bytes sample_cfg = Some 100" by (simp add: sample_cfg_def)
  moreover have n: "pf_next sample_ready \<le> pf_admitted sample_ready" "pf_admitted sample_ready = Suc (pf_next sample_ready)"
    unfolding sample_defs by code_simp+
  ultimately show ?thesis using admission_within_budget [of sample_cfg 100 sample_ready] by auto
qed

end
