(* ===== verification/Esm.thy ===== *)
theory Esm
  imports Gregorian
begin

text \<open>
  esm URL templates (\<open>rust/src/esm.rs\<close>): the tokens of a template, the date directives, expansion
  and the check made when a source is built.

  Positions are byte offsets into the template, as in the code. \<open>BTreeMap\<close> substitutions are an
  association list; the year, month and day of an instant come from the calendar parameter.
\<close>

record template_error =
  te_code :: string
  te_template :: string
  te_detail :: string

definition template_error_text :: "template_error \<Rightarrow> string" where
  "template_error_text e =
     te_code e @ '': '' @ te_detail e @ '' in esm URL template '' @ dbg_str (te_template e)"

definition template_to_error :: "template_error \<Rightarrow> error" where
  "template_to_error e = BadUrl (te_template e) (template_error_text e)"

definition esm_err :: "string \<Rightarrow> string \<Rightarrow> string \<Rightarrow> template_error" where
  "esm_err code template detail = \<lparr>te_code = code, te_template = template, te_detail = detail\<rparr>"

section \<open>Tokens\<close>

record token =
  tk_start :: nat
  tk_end :: nat
  tk_name :: string
  tk_format :: "string option"

definition name_start :: "char \<Rightarrow> bool" where
  "name_start c \<longleftrightarrow> is_upper c \<or> is_lower c \<or> c = CHR ''_''"

definition name_char :: "char \<Rightarrow> bool" where
  "name_char c \<longleftrightarrow> is_alnum c \<or> c = CHR ''_''"

definition not_brace :: "char \<Rightarrow> bool" where
  "not_brace c \<longleftrightarrow> c \<noteq> CHR ''{'' \<and> c \<noteq> CHR ''}''"

text \<open>A scanning loop: the first position from \<open>j\<close> on whose byte fails the test, or the end.\<close>

definition scan :: "(char \<Rightarrow> bool) \<Rightarrow> string \<Rightarrow> nat \<Rightarrow> nat" where
  "scan P b j = j + length (takeWhile P (drop j b))"

definition sub_str :: "string \<Rightarrow> nat \<Rightarrow> nat \<Rightarrow> string" where
  "sub_str s i j = take (j - i) (drop i s)"

function tokens_from :: "string \<Rightarrow> nat \<Rightarrow> token list" where
  "tokens_from b i =
     (if i \<ge> length b then []
      else if b ! i \<noteq> CHR ''{'' then tokens_from b (i + 1)
      else if i + 1 < length b \<and> name_start (b ! (i + 1)) then
        (let j = scan name_char b (i + 2); name = sub_str b (i + 1) j in
         if j < length b \<and> b ! j = CHR ''}'' then
           \<lparr>tk_start = i, tk_end = j + 1, tk_name = name, tk_format = None\<rparr> # tokens_from b (j + 1)
         else if j < length b \<and> b ! j = CHR '':'' then
           (let k = scan not_brace b (j + 1) in
            if k < length b \<and> b ! k = CHR ''}'' then
              \<lparr>tk_start = i, tk_end = k + 1, tk_name = name, tk_format = Some (sub_str b (j + 1) k)\<rparr>
                # tokens_from b (k + 1)
            else tokens_from b (i + 1))
         else tokens_from b (i + 1))
      else tokens_from b (i + 1))"
  by pat_completeness auto

termination
  by (relation "measure (\<lambda>(b, i). length b - i)") (auto simp: scan_def)

declare tokens_from.simps [simp del]

definition tokens :: "string \<Rightarrow> token list" where
  "tokens template = tokens_from template 0"

section \<open>Dates\<close>

definition year_of_t :: "civil_api \<Rightarrow> instant \<Rightarrow> int" where
  "year_of_t api t = (let (y, m, d) = ymd_of api (t div ns_per_day) in y)"

definition month_of_t :: "civil_api \<Rightarrow> instant \<Rightarrow> int" where
  "month_of_t api t = (let (y, m, d) = ymd_of api (t div ns_per_day) in m)"

definition day_of_t :: "civil_api \<Rightarrow> instant \<Rightarrow> int" where
  "day_of_t api t = (let (y, m, d) = ymd_of api (t div ns_per_day) in d)"

text \<open>The day of the year: the days since 1 January, from 1.\<close>

definition ordinal_of_t :: "civil_api \<Rightarrow> instant \<Rightarrow> int" where
  "ordinal_of_t api t =
     (case day_of api (year_of_t api t) 1 1 of
        Some d0 \<Rightarrow> t div ns_per_day - d0 + 1 | None \<Rightarrow> 1)"

definition second_of_day :: "instant \<Rightarrow> int" where
  "second_of_day t = t mod ns_per_day div ns_per_s"

definition pad_num :: "nat \<Rightarrow> int \<Rightarrow> string" where
  "pad_num w n = (let s = show_nat (nat n) in replicate (w - length s) CHR ''0'' @ s)"

definition date_directive ::
    "civil_api \<Rightarrow> string \<Rightarrow> instant \<Rightarrow> string \<Rightarrow> template_error + string" where
  "date_directive api template t d =
     (if d = ''Y'' then
        (let y = year_of_t api t in
         if 0 \<le> y \<and> y \<le> 9999 then Inr (pad_num 4 y)
         else Inl (esm_err ''esm_template_year_range'' template
           (''%Y of year '' @ show_int y @ '' is outside 0 to 9999'')))
      else if d = ''y'' then Inr (pad_num 2 (year_of_t api t mod 100))
      else if d = ''m'' then Inr (pad_num 2 (month_of_t api t))
      else if d = ''d'' then Inr (pad_num 2 (day_of_t api t))
      else if d = ''j'' then Inr (pad_num 3 (ordinal_of_t api t))
      else if d = ''H'' then Inr (pad_num 2 (second_of_day t div 3600))
      else if d = ''M'' then Inr (pad_num 2 (second_of_day t div 60 mod 60))
      else if d = ''S'' then Inr (pad_num 2 (second_of_day t mod 60))
      else if d = ''%'' then Inr ''%''
      else Inl (esm_err ''esm_template_directive'' template
        (''unsupported date directive %'' @ d @ '' (supported: %Y %y %m %d %j %H %M %S %%)'')))"

function format_date_go ::
    "civil_api \<Rightarrow> string \<Rightarrow> string \<Rightarrow> instant \<Rightarrow> string \<Rightarrow> string \<Rightarrow> template_error + string" where
  "format_date_go api template fmt t rest out =
     (case rest of
        [] \<Rightarrow> Inr out
      | c # cs \<Rightarrow>
          if c \<noteq> CHR ''%'' then format_date_go api template fmt t cs (out @ [c])
          else if cs = [] then
            Inl (esm_err ''esm_template_directive'' template
              (''a '' @ sq ''%'' @ '' ends the date format '' @ dbg_str fmt))
          else
            (case date_directive api template t (utf8_head cs) of
               Inl e \<Rightarrow> Inl e
             | Inr s \<Rightarrow> format_date_go api template fmt t (drop (length (utf8_head cs)) cs) (out @ s)))"
  by pat_completeness auto

termination
  by (relation "measure (\<lambda>(api, template, fmt, t, rest, out). length rest)") auto

declare format_date_go.simps [simp del]

definition format_date :: "civil_api \<Rightarrow> string \<Rightarrow> string \<Rightarrow> instant \<Rightarrow> template_error + string" where
  "format_date api template fmt t = format_date_go api template fmt t fmt []"

section \<open>Expansion\<close>

definition reserved_err :: "string \<Rightarrow> template_error" where
  "reserved_err template =
     esm_err ''esm_template_reserved'' template
       (''the substitution name '' @ sq ''date'' @ '' is reserved for {date:<format>}'')"

definition formatted_err :: "string \<Rightarrow> string \<Rightarrow> string \<Rightarrow> template_error" where
  "formatted_err template name f =
     esm_err ''esm_template_directive'' template
       (''the substitution {'' @ name @ ''} takes no format (got {'' @ name @ '':'' @ f @ ''})'')"

definition unbound_err :: "string \<Rightarrow> string \<Rightarrow> template_error" where
  "unbound_err template name =
     esm_err ''esm_template_unbound'' template (''the substitution {'' @ name @ ''} is not bound'')"

text \<open>What a token is replaced by.\<close>

definition token_value ::
    "civil_api \<Rightarrow> string \<Rightarrow> instant option \<Rightarrow> (string \<times> string) list \<Rightarrow> string \<Rightarrow> string option
      \<Rightarrow> template_error + string" where
  "token_value api template at_t subs name fmt =
     (if name = ''date'' then
        (case fmt of
           None \<Rightarrow> Inl (esm_err ''esm_template_directive'' template ''{date} needs a format, e.g. {date:%Y%m%d}'')
         | Some f \<Rightarrow>
             if f = [] then
               Inl (esm_err ''esm_template_directive'' template ''{date} needs a format, e.g. {date:%Y%m%d}'')
             else
               (case at_t of
                  None \<Rightarrow> Inl (esm_err ''esm_template_no_anchor'' template
                    ''{date:...} needs a time and none was given'')
                | Some t \<Rightarrow> format_date api template f t))
      else
        (case fmt of
           Some f \<Rightarrow> Inl (formatted_err template name f)
         | None \<Rightarrow>
             (case map_of subs name of None \<Rightarrow> Inl (unbound_err template name) | Some v \<Rightarrow> Inr v)))"

fun expand_tokens ::
    "civil_api \<Rightarrow> string \<Rightarrow> instant option \<Rightarrow> (string \<times> string) list \<Rightarrow> token list \<Rightarrow> nat \<Rightarrow> string
      \<Rightarrow> template_error + string" where
  "expand_tokens api template at_t subs [] lst out = Inr (out @ drop lst template)"
| "expand_tokens api template at_t subs (tok # toks) lst out =
     (case token_value api template at_t subs (tk_name tok) (tk_format tok) of
        Inl e \<Rightarrow> Inl e
      | Inr v \<Rightarrow>
          expand_tokens api template at_t subs toks (tk_end tok)
            (out @ sub_str template lst (tk_start tok) @ v))"

definition expand_esm_template ::
    "civil_api \<Rightarrow> string \<Rightarrow> instant option \<Rightarrow> (string \<times> string) list \<Rightarrow> template_error + string" where
  "expand_esm_template api template at_t subs =
     (if map_of subs ''date'' \<noteq> None then Inl (reserved_err template)
      else expand_tokens api template at_t subs (tokens template) 0 [])"

definition add_name :: "token \<Rightarrow> string list \<Rightarrow> string list" where
  "add_name tok out = (if tk_name tok \<noteq> ''date'' \<and> tk_name tok \<notin> set out then out @ [tk_name tok] else out)"

definition esm_template_names :: "string \<Rightarrow> string list" where
  "esm_template_names template = fold add_name (tokens template) []"

fun check_tokens :: "string \<Rightarrow> (string \<times> string) list \<Rightarrow> token list \<Rightarrow> template_error + unit" where
  "check_tokens template subs [] = Inr ()"
| "check_tokens template subs (tok # toks) =
     (if tk_name tok = ''date'' then check_tokens template subs toks
      else
        (case tk_format tok of
           Some f \<Rightarrow> Inl (formatted_err template (tk_name tok) f)
         | None \<Rightarrow>
             if map_of subs (tk_name tok) = None then Inl (unbound_err template (tk_name tok))
             else check_tokens template subs toks))"

definition check_esm_template ::
    "civil_api \<Rightarrow> string \<Rightarrow> (string \<times> string) list \<Rightarrow> template_error + unit" where
  "check_esm_template api template subs =
     (if map_of subs ''date'' \<noteq> None
      then map_sum id (\<lambda>_. ()) (expand_esm_template api template None subs)
      else check_tokens template subs (tokens template))"

section \<open>Templates as lists of parts\<close>

text \<open>The specification: a template is a list of parts, and expansion replaces each part by its
  value, left to right, the first failing part deciding the error.\<close>

datatype part = Lit string | Sub string | DateFmt string

fun part_text :: "part \<Rightarrow> string" where
  "part_text (Lit s) = s"
| "part_text (Sub n) = ''{'' @ n @ ''}''"
| "part_text (DateFmt f) = ''{date:'' @ f @ ''}''"

definition valid_name :: "string \<Rightarrow> bool" where
  "valid_name n \<longleftrightarrow> n \<noteq> [] \<and> name_start (hd n) \<and> list_all name_char n"

fun part_ok :: "part \<Rightarrow> bool" where
  "part_ok (Lit s) = list_all not_brace s"
| "part_ok (Sub n) = valid_name n"
| "part_ok (DateFmt f) = list_all not_brace f"

fun part_value ::
    "civil_api \<Rightarrow> string \<Rightarrow> instant option \<Rightarrow> (string \<times> string) list \<Rightarrow> part \<Rightarrow> template_error + string" where
  "part_value api template at_t subs (Lit s) = Inr s"
| "part_value api template at_t subs (Sub n) = token_value api template at_t subs n None"
| "part_value api template at_t subs (DateFmt f) = token_value api template at_t subs ''date'' (Some f)"

fun part_values ::
    "civil_api \<Rightarrow> string \<Rightarrow> instant option \<Rightarrow> (string \<times> string) list \<Rightarrow> part list \<Rightarrow> template_error + string" where
  "part_values api template at_t subs [] = Inr []"
| "part_values api template at_t subs (p # ps) =
     (case part_value api template at_t subs p of
        Inl e \<Rightarrow> Inl e
      | Inr s \<Rightarrow> map_sum id (\<lambda>r. s @ r) (part_values api template at_t subs ps))"

definition template_of :: "part list \<Rightarrow> string" where
  "template_of ps = concat (map part_text ps)"

lemma scan_append:
  "list_all P m \<Longrightarrow> \<not> P c \<Longrightarrow> scan P (pre @ m @ c # s) (length pre) = length pre + length m"
  by (simp add: scan_def list_all_iff takeWhile_append2)

lemma tokens_lit: "list_all not_brace l \<Longrightarrow>
   tokens_from (pre @ l @ s) (length pre) = tokens_from (pre @ l @ s) (length pre + length l)"
proof (induction l arbitrary: pre)
  case (Cons c l)
  then have "tokens_from (pre @ (c # l) @ s) (length pre) = tokens_from ((pre @ [c]) @ l @ s) (length (pre @ [c]))"
    by (subst tokens_from.simps) (simp add: nth_append not_brace_def)
  also have "\<dots> = tokens_from ((pre @ [c]) @ l @ s) (length (pre @ [c]) + length l)"
    by (rule Cons.IH) (use Cons.prems in simp)
  finally show ?case by simp
qed simp

lemma name_scan:
  assumes "valid_name n" "\<not> name_char c"
  shows "scan name_char (pre @ ''{'' @ n @ c # s) (length pre + 2) = length pre + 1 + length n"
proof -
  obtain a m where n: "n = a # m" "list_all name_char m" using assms(1) by (cases n) (auto simp: valid_name_def)
  have "scan name_char ((pre @ [CHR ''{'', a]) @ m @ c # s) (length (pre @ [CHR ''{'', a])) =
      length (pre @ [CHR ''{'', a]) + length m"
    by (rule scan_append) (use n assms(2) in simp_all)
  then show ?thesis by (simp add: n(1))
qed

lemma not_name_chars: "\<not> name_char (CHR ''}'')" "\<not> name_char (CHR '':'')"
  by (simp_all add: name_char_def is_alnum_def is_digit_def is_upper_def is_lower_def)

lemma tokens_sub:
  assumes "valid_name n"
  shows "tokens_from (pre @ ''{'' @ n @ ''}'' @ s) (length pre) =
    \<lparr>tk_start = length pre, tk_end = length pre + length n + 2, tk_name = n, tk_format = None\<rparr>
      # tokens_from (pre @ ''{'' @ n @ ''}'' @ s) (length pre + length n + 2)"
proof -
  let ?b = "pre @ ''{'' @ n @ ''}'' @ s"
  have j: "scan name_char ?b (length pre + 2) = length pre + 1 + length n"
    using name_scan [OF assms not_name_chars(1), of pre s] by simp
  have n: "0 < length n" "name_start (n ! 0)" using assms by (auto simp: valid_name_def hd_conv_nth)
  have at: "?b ! length pre = CHR ''{''" "?b ! (length pre + 1) = n ! 0" "?b ! (length pre + 1 + length n) = CHR ''}''"
    using n(1) by (simp_all add: nth_append)
  show ?thesis
    by (subst tokens_from.simps) (use j n at in \<open>simp add: sub_str_def Let_def\<close>)
qed

lemma tokens_date:
  assumes "list_all not_brace f"
  shows "tokens_from (pre @ ''{date:'' @ f @ ''}'' @ s) (length pre) =
    \<lparr>tk_start = length pre, tk_end = length pre + length f + 7, tk_name = ''date'', tk_format = Some f\<rparr>
      # tokens_from (pre @ ''{date:'' @ f @ ''}'' @ s) (length pre + length f + 7)"
proof -
  let ?b = "pre @ ''{date:'' @ f @ ''}'' @ s"
  have v: "valid_name ''date''" by code_simp
  have j: "scan name_char ?b (length pre + 2) = length pre + 5"
    using name_scan [OF v not_name_chars(2), of pre "f @ ''}'' @ s"] by simp
  have k: "scan not_brace ?b (length pre + 6) = length pre + 6 + length f"
    using scan_append [OF assms, of "CHR ''}''" "pre @ ''{date:''" s] by (simp add: not_brace_def eval_nat_numeral)
  have at: "?b ! length pre = CHR ''{''" "?b ! (length pre + 1) = CHR ''d''" "?b ! (length pre + 5) = CHR '':''"
      "?b ! (length pre + 6 + length f) = CHR ''}''"
    by (simp_all add: nth_append)
  have d: "name_start (CHR ''d'')" by code_simp
  show ?thesis
    by (subst tokens_from.simps) (use j k d at in \<open>simp add: sub_str_def Let_def eval_nat_numeral\<close>)
qed

lemma expand_parts:
  assumes "list_all part_ok ps" "lst \<le> length pre" "T = pre @ template_of ps"
  shows "expand_tokens api T at_t subs (tokens_from T (length pre)) lst out =
    map_sum id (\<lambda>r. out @ drop lst pre @ r) (part_values api T at_t subs ps)"
  using assms
proof (induction ps arbitrary: pre lst out)
  case Nil
  then show ?case by (subst tokens_from.simps) (simp add: template_of_def)
next
  case (Cons p ps)
  let ?pre = "pre @ part_text p"
  have T: "T = ?pre @ template_of ps" using Cons.prems(3) by (simp add: template_of_def)
  have ok: "list_all part_ok ps" "part_ok p" using Cons.prems(1) by simp_all
  note IH = Cons.IH [OF ok(1) _ T]
  show ?case
  proof (cases p)
    case (Lit l)
    then have "tokens_from T (length pre) = tokens_from T (length ?pre)"
      using tokens_lit [of l pre "template_of ps"] ok(2) T by simp
    then show ?thesis using IH [of lst out] Cons.prems(2) Lit by (simp add: sum.map_comp comp_def)
  next
    case (Sub n)
    then have "tokens_from T (length pre) =
        \<lparr>tk_start = length pre, tk_end = length ?pre, tk_name = n, tk_format = None\<rparr> # tokens_from T (length ?pre)"
      using tokens_sub [of n pre "template_of ps"] ok(2) T by simp
    moreover have "sub_str T lst (length pre) = drop lst pre"
      using Cons.prems(2,3) by (simp add: sub_str_def)
    ultimately show ?thesis
      using IH [of "length ?pre"] Sub
      by (cases "part_values api T at_t subs ps") (auto split: sum.splits)
  next
    case (DateFmt f)
    then have "tokens_from T (length pre) =
        \<lparr>tk_start = length pre, tk_end = length ?pre, tk_name = ''date'', tk_format = Some f\<rparr>
          # tokens_from T (length ?pre)"
      using tokens_date [of f pre "template_of ps"] ok(2) T by (simp add: eval_nat_numeral)
    moreover have "sub_str T lst (length pre) = drop lst pre"
      using Cons.prems(2,3) by (simp add: sub_str_def)
    ultimately show ?thesis
      using IH [of "length ?pre"] DateFmt
      by (cases "part_values api T at_t subs ps") (auto split: sum.splits)
  qed
qed

section \<open>Properties\<close>

text \<open>
  Expanding a template replaces each of its parts by its value and nothing else: literal text is
  kept byte for byte, a substitution is inserted verbatim and never expanded again, a date is
  formatted at the anchor, and the first part that has no value decides the error.
\<close>

theorem expand_template_parts:
  assumes "list_all part_ok ps" "map_of subs ''date'' = None"
  shows "expand_esm_template api (template_of ps) at_t subs = part_values api (template_of ps) at_t subs ps"
proof -
  have "map_sum id (\<lambda>r. r) x = x" for x :: "template_error + string" by (cases x) simp_all
  with expand_parts [OF assms(1), of 0 "[]" "template_of ps" api at_t subs "[]"] assms(2) show ?thesis
    by (simp add: expand_esm_template_def tokens_def)
qed

theorem expand_template_parts_witness:
  "expand_esm_template greg_api (template_of [Lit ''s3://'', Sub ''sector'', Lit ''/x.nc'']) None [(''sector'', ''{egu}'')]
     = Inr ''s3://{egu}/x.nc''"
proof -
  have "list_all part_ok [Lit ''s3://'', Sub ''sector'', Lit ''/x.nc'']" by code_simp
  from expand_template_parts [OF this, of "[(''sector'', ''{egu}'')]" greg_api None] show ?thesis
    by (simp add: token_value_def)
qed

lemma check_tokens_iff:
  "check_tokens T subs toks = Inr () \<longleftrightarrow>
     (\<forall>tok\<in>set toks. tk_name tok \<noteq> ''date'' \<longrightarrow> tk_format tok = None \<and> map_of subs (tk_name tok) \<noteq> None)"
  by (induction toks) (auto split: option.splits)

lemma expand_tokens_ok:
  "(\<exists>u. expand_tokens api T at_t subs toks lst out = Inr u) \<longleftrightarrow>
     (\<forall>tok\<in>set toks. \<exists>v. token_value api T at_t subs (tk_name tok) (tk_format tok) = Inr v)"
proof (induction toks arbitrary: lst out)
  case (Cons tok toks)
  then show ?case by (cases "token_value api T at_t subs (tk_name tok) (tk_format tok)") auto
qed simp

lemma expands_iff_checked:
  "(\<exists>u. expand_esm_template api T (Some t) subs = Inr u) \<longleftrightarrow>
     check_esm_template api T subs = Inr () \<and>
     (\<forall>tok\<in>set (tokens T). tk_name tok = ''date'' \<longrightarrow>
        (\<exists>f s. tk_format tok = Some f \<and> f \<noteq> [] \<and> format_date api T f t = Inr s))"
proof (cases "map_of subs ''date''")
  case None
  have v: "(\<exists>v. token_value api T (Some t) subs (tk_name tok) (tk_format tok) = Inr v) \<longleftrightarrow>
      (tk_name tok \<noteq> ''date'' \<longrightarrow> tk_format tok = None \<and> map_of subs (tk_name tok) \<noteq> None) \<and>
      (tk_name tok = ''date'' \<longrightarrow> (\<exists>f s. tk_format tok = Some f \<and> f \<noteq> [] \<and> format_date api T f t = Inr s))"
    for tok
    by (auto simp: token_value_def split: option.splits)
  show ?thesis using None
    by (simp add: expand_esm_template_def check_esm_template_def expand_tokens_ok check_tokens_iff v) blast
next
  case (Some v)
  then show ?thesis by (simp add: expand_esm_template_def check_esm_template_def)
qed

text \<open>
  The check made when a source is built is exact: a template that passes it can only fail to
  expand because of a date token, and a template that ever expands passes it.
\<close>

theorem template_check_exact:
  "(\<exists>u. expand_esm_template api T (Some t) subs = Inr u) \<longleftrightarrow>
     check_esm_template api T subs = Inr () \<and>
     (\<forall>tok\<in>set (tokens T). tk_name tok = ''date'' \<longrightarrow>
        (\<exists>f s. tk_format tok = Some f \<and> f \<noteq> [] \<and> format_date api T f t = Inr s))"
  by (rule expands_iff_checked)

theorem template_check_exact_witness:
  "check_esm_template greg_api ''{sector}/{date:%Y%j}.nc'' [(''sector'', ''egu'')] = Inr () \<and>
   expand_esm_template greg_api ''{sector}/{date:%Y%j}.nc'' (Some 0) [(''sector'', ''egu'')] = Inr ''egu/1970001.nc''"
proof -
  have e: "expand_esm_template greg_api ''{sector}/{date:%Y%j}.nc'' (Some 0) [(''sector'', ''egu'')]
      = Inr ''egu/1970001.nc''" by code_simp
  with template_check_exact [of greg_api "''{sector}/{date:%Y%j}.nc''" 0 "[(''sector'', ''egu'')]"]
  show ?thesis by blast
qed

end
