(* ===== verification/Arrays.thy ===== *)
theory Arrays
  imports Errors
begin

text \<open>
  The native-grid data model (\<open>rust/src/format/mod.rs\<close>): typed row-major arrays, fields over named
  dimensions, datasets, and the selection vocabulary of a windowed read.

  An \<open>f64\<close> is an element of the type parameter: the code here only moves elements. A \<open>HashMap\<close>
  is an association list; a slice out of bounds is a panic of the code and \<open>None\<close> here.
\<close>

section \<open>Arrays and fields\<close>

datatype dtype = Float64 | Int64 | Int32 | Str | Bool

datatype 'f array_data =
  AF64 "'f list" | AI64 "int list" | AI32 "int list" | AStr "string list" | ABool "bool list"

fun array_len :: "'f array_data \<Rightarrow> nat" where
  "array_len (AF64 v) = length v"
| "array_len (AI64 v) = length v"
| "array_len (AI32 v) = length v"
| "array_len (AStr v) = length v"
| "array_len (ABool v) = length v"

fun array_dtype :: "'f array_data \<Rightarrow> dtype" where
  "array_dtype (AF64 v) = Float64"
| "array_dtype (AI64 v) = Int64"
| "array_dtype (AI32 v) = Int32"
| "array_dtype (AStr v) = Str"
| "array_dtype (ABool v) = Bool"

definition slice :: "nat \<Rightarrow> nat \<Rightarrow> 'a list \<Rightarrow> 'a list option" where
  "slice start len v = (if start + len \<le> length v then Some (take len (drop start v)) else None)"

fun block :: "nat \<Rightarrow> nat \<Rightarrow> 'f array_data \<Rightarrow> 'f array_data option" where
  "block start len (AF64 v) = map_option AF64 (slice start len v)"
| "block start len (AI64 v) = map_option AI64 (slice start len v)"
| "block start len (AI32 v) = map_option AI32 (slice start len v)"
| "block start len (AStr v) = map_option AStr (slice start len v)"
| "block start len (ABool v) = map_option ABool (slice start len v)"

section \<open>Gathering out of a row-major array\<close>

definition src_strides :: "nat list \<Rightarrow> nat list" where
  "src_strides shape =
     fold (\<lambda>i s. s[i := s ! (i + 1) * shape ! (i + 1)]) (rev [0..<length shape - 1])
       (replicate (length shape) 1)"

text \<open>The source offset of one output cell, and the odometer step over the output indices.\<close>

definition cell_offset :: "nat list list \<Rightarrow> nat list \<Rightarrow> nat list \<Rightarrow> nat option" where
  "cell_offset picks strides idx =
     fold (\<lambda>ax off. Option.bind off (\<lambda>o'.
         if ax < length strides then Some (o' + picks ! ax ! (idx ! ax) * strides ! ax) else None))
       [0..<length idx] (Some 0)"

fun bump :: "nat list \<Rightarrow> nat list \<Rightarrow> nat \<Rightarrow> nat list" where
  "bump out_shape idx 0 = idx"
| "bump out_shape idx (Suc ax) =
     (let idx' = idx[ax := idx ! ax + 1] in
      if idx' ! ax < out_shape ! ax then idx' else bump out_shape (idx'[ax := 0]) ax)"

fun gather_loop ::
    "nat \<Rightarrow> 'a list \<Rightarrow> nat list list \<Rightarrow> nat list \<Rightarrow> nat list \<Rightarrow> nat list \<Rightarrow> 'a list \<Rightarrow> 'a list option" where
  "gather_loop 0 flat picks out_shape strides idx acc = Some acc"
| "gather_loop (Suc n) flat picks out_shape strides idx acc =
     Option.bind (cell_offset picks strides idx) (\<lambda>off.
       if off < length flat
       then gather_loop n flat picks out_shape strides (bump out_shape idx (length idx)) (acc @ [flat ! off])
       else None)"

definition gather :: "'a list \<Rightarrow> nat list \<Rightarrow> nat list list \<Rightarrow> 'a list option" where
  "gather flat shape picks =
     (let out_shape = map length picks in
      gather_loop (prod_list out_shape) flat picks out_shape (src_strides shape)
        (replicate (length out_shape) 0) [])"

fun gathered :: "nat list \<Rightarrow> nat list list \<Rightarrow> 'f array_data \<Rightarrow> 'f array_data option" where
  "gathered shape picks (AF64 v) = map_option AF64 (gather v shape picks)"
| "gathered shape picks (AI64 v) = map_option AI64 (gather v shape picks)"
| "gathered shape picks (AI32 v) = map_option AI32 (gather v shape picks)"
| "gathered shape picks (AStr v) = map_option AStr (gather v shape picks)"
| "gathered shape picks (ABool v) = map_option ABool (gather v shape picks)"

fun array_budget :: "'f array_data \<Rightarrow> nat" where
  "array_budget (AF64 v) = 8 * length v"
| "array_budget (AI64 v) = 8 * length v"
| "array_budget (AI32 v) = 4 * length v"
| "array_budget (AStr v) = sum_list (map length v)"
| "array_budget (ABool v) = length v"

record 'f field =
  f_dtype :: dtype
  f_dims :: "string list"
  f_shape :: "nat list"
  f_data :: "'f array_data"
  f_fill :: "'f option"

definition format_err :: "string \<Rightarrow> string \<Rightarrow> error" where
  "format_err format detail = FormatError format detail"

text \<open>The record \<open>i\<close> of the leading dimension: \<open>None\<close> is a panic, an error is a result.\<close>

definition select_leading :: "nat \<Rightarrow> 'f field \<Rightarrow> 'f field result option" where
  "select_leading i f =
     (case f_shape f of
        [] \<Rightarrow> Some (Inl (format_err ''native'' ''cannot select a record from a scalar field''))
      | lead # rest \<Rightarrow>
          if i \<ge> lead then
            Some (Inl (format_err ''native'' (''record index '' @ show_nat i
              @ '' out of range (leading dim = '' @ show_nat lead @ '')'')))
          else if f_dims f = [] then None
          else
            (let n = prod_list rest in
             map_option (\<lambda>d. Inr \<lparr>f_dtype = f_dtype f, f_dims = tl (f_dims f), f_shape = rest,
                 f_data = d, f_fill = f_fill f\<rparr>)
               (block (i * n) n (f_data f))))"

definition picks_of :: "(string \<times> nat list) list \<Rightarrow> string list \<Rightarrow> nat list \<Rightarrow> nat list list" where
  "picks_of picks dims shape =
     map (\<lambda>(d, len). case map_of picks d of Some p \<Rightarrow> p | None \<Rightarrow> [0..<len]) (zip dims shape)"

definition field_take :: "(string \<times> nat list) list \<Rightarrow> 'f field \<Rightarrow> 'f field option" where
  "field_take picks f =
     (if \<not> list_ex (\<lambda>d. map_of picks d \<noteq> None) (f_dims f) then Some f
      else
        (let t = picks_of picks (f_dims f) (f_shape f) in
         map_option (\<lambda>d. \<lparr>f_dtype = f_dtype f, f_dims = f_dims f, f_shape = map length t,
             f_data = d, f_fill = f_fill f\<rparr>)
           (gathered (f_shape f) t (f_data f))))"

record 'f coord =
  co_field :: "'f field"
  co_units :: "string option"
  co_calendar :: "string option"

record 'f dataset =
  ds_vars :: "(string \<times> 'f field) list"
  ds_coords :: "(string \<times> 'f coord) list"

definition budget_bytes :: "'f dataset \<Rightarrow> nat" where
  "budget_bytes ds =
     sum_list (map (\<lambda>(k, f). array_budget (f_data f)) (ds_vars ds)) +
     sum_list (map (\<lambda>(k, c). array_budget (f_data (co_field c))) (ds_coords ds))"

text \<open>A fallible map over the entries of a map.\<close>

fun traverse :: "('a \<Rightarrow> 'b option) \<Rightarrow> (string \<times> 'a) list \<Rightarrow> (string \<times> 'b) list option" where
  "traverse f [] = Some []"
| "traverse f ((k, x) # xs) =
     Option.bind (f x) (\<lambda>y. Option.bind (traverse f xs) (\<lambda>ys. Some ((k, y) # ys)))"

definition coord_take :: "(string \<times> nat list) list \<Rightarrow> 'f coord \<Rightarrow> 'f coord option" where
  "coord_take picks c = map_option (\<lambda>f. c\<lparr>co_field := f\<rparr>) (field_take picks (co_field c))"

definition dataset_take :: "(string \<times> nat list) list \<Rightarrow> 'f dataset \<Rightarrow> 'f dataset option" where
  "dataset_take picks ds =
     Option.bind (traverse (field_take picks) (ds_vars ds)) (\<lambda>vs.
     Option.bind (traverse (coord_take picks) (ds_coords ds)) (\<lambda>cs.
       Some \<lparr>ds_vars = vs, ds_coords = cs\<rparr>))"

section \<open>Selections\<close>

datatype axis_select = AxAll | AxIndices "nat list" | AxRange nat nat nat

datatype selection = SelAll | SelOrthogonal "axis_select list" | SelNamed "(string \<times> axis_select) list"

text \<open>\<open>(start..stop).step_by(step)\<close> for \<open>step \<ge> 1\<close>.\<close>

definition step_range :: "nat \<Rightarrow> nat \<Rightarrow> nat \<Rightarrow> nat list" where
  "step_range start stop step = map (\<lambda>i. start + i * step) [0..<(stop - start + step - 1) div step]"

definition step_err :: "string \<Rightarrow> nat \<Rightarrow> error" where
  "step_err format step = format_err format (''slice step must be >= 1, got '' @ show_nat step)"

definition unbounded_indices :: "string \<Rightarrow> axis_select \<Rightarrow> nat list option result" where
  "unbounded_indices format ax =
     (case ax of
        AxAll \<Rightarrow> Inr None
      | AxIndices v \<Rightarrow> Inr (Some v)
      | AxRange start stop step \<Rightarrow>
          if step < 1 then Inl (step_err format step) else Inr (Some (step_range start stop step)))"

definition resolve_in :: "nat \<Rightarrow> string \<Rightarrow> axis_select \<Rightarrow> nat list result" where
  "resolve_in dim_len format ax =
     (case ax of
        AxAll \<Rightarrow> Inr [0..<dim_len]
      | AxIndices v \<Rightarrow>
          (case find (\<lambda>g. g \<ge> dim_len) v of
             Some g \<Rightarrow> Inl (format_err format (''index '' @ show_nat g
               @ '' out of range for dimension length '' @ show_nat dim_len))
           | None \<Rightarrow> Inr v)
      | AxRange start stop step \<Rightarrow>
          if step < 1 then Inl (step_err format step)
          else
            (let out = step_range start stop step in
             if out \<noteq> [] \<and> last out \<ge> dim_len then
               Inl (format_err format (''slice ['' @ show_nat start @ '', '' @ show_nat stop @ '') by ''
                 @ show_nat step @ '' reaches index '' @ show_nat (last out)
                 @ '', out of range for dimension length '' @ show_nat dim_len))
             else Inr out))"

definition resolve :: "nat \<Rightarrow> axis_select \<Rightarrow> nat list result" where
  "resolve dim_len ax = resolve_in dim_len ''zarr'' ax"

text \<open>The builder of a named window; naming a dimension twice keeps the last selector.\<close>

definition window_new :: "(string \<times> axis_select) list" where
  "window_new = []"

definition window_axis ::
    "string \<Rightarrow> axis_select \<Rightarrow> (string \<times> axis_select) list \<Rightarrow> (string \<times> axis_select) list" where
  "window_axis dim sel w = al_put dim sel w"

definition window_range ::
    "string \<Rightarrow> nat \<Rightarrow> nat \<Rightarrow> (string \<times> axis_select) list \<Rightarrow> (string \<times> axis_select) list" where
  "window_range dim start stop w = window_axis dim (AxRange start stop 1) w"

section \<open>The row-major index\<close>

text \<open>The position of an index tuple in a row-major array of a shape.\<close>

definition width :: "nat list \<Rightarrow> nat \<Rightarrow> nat" where
  "width shape i = prod_list (drop i shape)"

fun position_of :: "nat list \<Rightarrow> nat list \<Rightarrow> nat" where
  "position_of (n # ns) (k # ks) = k * prod_list ns + position_of ns ks"
| "position_of _ _ = 0"

definition in_shape :: "nat list \<Rightarrow> nat list \<Rightarrow> bool" where
  "in_shape shape idx \<longleftrightarrow> length idx = length shape \<and> (\<forall>i<length shape. idx ! i < shape ! i)"

definition picks_fit :: "nat list \<Rightarrow> nat list list \<Rightarrow> bool" where
  "picks_fit shape picks \<longleftrightarrow>
     length picks = length shape \<and> (\<forall>i<length shape. \<forall>k\<in>set (picks ! i). k < shape ! i)"

text \<open>The specification of a gather: the cells of the product of the picks, in row-major order.\<close>

definition gather_spec :: "'a list \<Rightarrow> nat list \<Rightarrow> nat list list \<Rightarrow> 'a list" where
  "gather_spec flat shape picks = map (\<lambda>c. flat ! position_of shape c) (product_lists picks)"

lemma in_shape_Cons [simp]: "in_shape (n # ns) (k # ks) \<longleftrightarrow> k < n \<and> in_shape ns ks"
  by (auto simp: in_shape_def nth_Cons split: nat.splits)

lemma in_shape_Nil [simp]: "in_shape [] ks \<longleftrightarrow> ks = []" "in_shape ns [] \<longleftrightarrow> ns = []"
  by (auto simp: in_shape_def)

lemma in_shape_induct [consumes 1, case_names Nil Cons]:
  assumes "in_shape ns ks" "P [] []"
    and "\<And>n ns k ks. k < n \<Longrightarrow> in_shape ns ks \<Longrightarrow> P ns ks \<Longrightarrow> P (n # ns) (k # ks)"
  shows "P ns ks"
  using assms(1)
proof (induction ns arbitrary: ks)
  case Nil
  then show ?case using assms(2) by simp
next
  case (Cons n ns)
  then obtain k ks' where "ks = k # ks'" by (cases ks) auto
  with Cons assms(3) show ?case by simp
qed

lemma position_bound: "in_shape ns ks \<Longrightarrow> position_of ns ks < prod_list ns"
proof (induction rule: in_shape_induct)
  case (Cons n ns k ks)
  then have "k * prod_list ns + position_of ns ks < Suc k * prod_list ns" by simp
  also have "\<dots> \<le> n * prod_list ns" using Cons(1) by (intro mult_le_mono1) simp
  finally show ?case by simp
qed simp

lemma length_product: "length (product_lists xss) = prod_list (map length xss)"
  by (induction xss) (simp_all add: length_concat comp_def sum_list_triv)

lemma nth_concat_block:
  assumes "\<forall>x\<in>set xs. length (f x) = m" "k < length xs" "j < m"
  shows "concat (map f xs) ! (k * m + j) = f (xs ! k) ! j"
  using assms
proof (induction xs arbitrary: k)
  case (Cons x xs)
  show ?case
  proof (cases k)
    case 0
    with Cons.prems show ?thesis by (simp add: nth_append)
  next
    case (Suc k')
    then have "concat (map f (x # xs)) ! (k * m + j) = concat (map f xs) ! (k' * m + j)"
      using Cons.prems(1) by (simp add: nth_append)
    with Cons Suc show ?thesis by simp
  qed
qed simp

text \<open>The cell of a product at the position of an index tuple.\<close>

lemma product_nth:
  "in_shape (map length xss) idx \<Longrightarrow> product_lists xss ! position_of (map length xss) idx = map2 (!) xss idx"
proof (induction xss arbitrary: idx)
  case (Cons xs xss)
  then obtain k ks where idx: "idx = k # ks" "k < length xs" "in_shape (map length xss) ks"
    by (cases idx) auto
  let ?m = "prod_list (map length xss)"
  have "position_of (map length xss) ks < ?m" using idx(3) by (rule position_bound)
  then have "product_lists (xs # xss) ! (k * ?m + position_of (map length xss) ks) =
      map ((#) (xs ! k)) (product_lists xss) ! position_of (map length xss) ks"
    using idx(2) by (simp add: nth_concat_block [where m = ?m] length_product)
  also have "\<dots> = map2 (!) (xs # xss) idx"
    using Cons.IH [OF idx(3)] position_bound [OF idx(3)] idx(1) by (simp add: length_product)
  finally show ?case using idx(1) by simp
qed simp

lemma positions_product: "map (position_of ns) (product_lists (map (\<lambda>n. [0..<n]) ns)) = [0..<prod_list ns]"
proof (induction ns)
  case (Cons n ns)
  have "concat (map (\<lambda>x. map (\<lambda>c. x * prod_list ns + position_of ns c)
      (product_lists (map (\<lambda>n. [0..<n]) ns))) [0..<n]) = [0..<n * prod_list ns]"
  proof (induction n)
    case (Suc n)
    have "map (\<lambda>c. n * prod_list ns + position_of ns c) (product_lists (map (\<lambda>n. [0..<n]) ns))
        = map ((+) (n * prod_list ns)) [0..<prod_list ns]"
      using Cons by (metis (no_types, lifting) comp_apply map_eq_conv map_map)
    also have "\<dots> = map (\<lambda>i. i + n * prod_list ns) [0..<prod_list ns]" by (simp add: add.commute)
    also have "\<dots> = [n * prod_list ns..<Suc n * prod_list ns]" by (simp only: map_add_upt) simp
    finally show ?case using Suc upt_add_eq_append [of 0 "n * prod_list ns" "prod_list ns"]
      by (simp add: add.commute)
  qed simp
  then show ?case by (simp add: map_concat comp_def)
qed simp

end
