(* ===== verification/Sources.thy ===== *)
theory Sources
  imports Esm Arrays Manifests
begin

text \<open>
  Data sources and their cadence (\<open>rust/src/provider.rs\<close>, first part): the temporal block of a source
  with its record and file anchors, the store access switch, and the builder of a source.

  An anchor computation that panics (an instant the calendar cannot represent) is \<open>None\<close>. The lemmas
  show that the record of an instant is a record of the file that holds the instant.
\<close>

section \<open>The temporal block\<close>

record source_temporal =
  st_start :: instant
  st_end :: "instant option"
  st_frequency :: calendar_period
  st_file_period :: calendar_period
  st_time_dim :: string
  st_records :: "nat option"

definition temporal_new :: "instant \<Rightarrow> calendar_period \<Rightarrow> calendar_period \<Rightarrow> source_temporal" where
  "temporal_new start frequency file_period =
     \<lparr>st_start = start, st_end = None, st_frequency = frequency, st_file_period = file_period,
      st_time_dim = ''time'', st_records = None\<rparr>"

definition with_end :: "instant \<Rightarrow> source_temporal \<Rightarrow> source_temporal" where
  "with_end e t = t\<lparr>st_end := Some e\<rparr>"

definition with_time_dim :: "string \<Rightarrow> source_temporal \<Rightarrow> source_temporal" where
  "with_time_dim dim t = t\<lparr>st_time_dim := dim\<rparr>"

definition with_records :: "nat \<Rightarrow> source_temporal \<Rightarrow> source_temporal" where
  "with_records n t = t\<lparr>st_records := Some n\<rparr>"

definition record_anchor :: "civil_api \<Rightarrow> source_temporal \<Rightarrow> instant \<Rightarrow> instant option" where
  "record_anchor api T t = period_floor api (st_frequency T) (st_start T) t"

text \<open>The anchor of the index after the one \<open>t\<close> snaps to; \<open>k + 1\<close> is an \<open>i64\<close> sum.\<close>

definition anchor_after :: "civil_api \<Rightarrow> calendar_period \<Rightarrow> instant \<Rightarrow> instant \<Rightarrow> instant option" where
  "anchor_after api p start t =
     Option.bind (floor_index api p start t) (\<lambda>k.
       if in_i64 (k + 1) then anchor api p start (k + 1) else None)"

definition next_record_anchor :: "civil_api \<Rightarrow> source_temporal \<Rightarrow> instant \<Rightarrow> instant option" where
  "next_record_anchor api T t = anchor_after api (st_frequency T) (st_start T) t"

definition first_record_anchor_from :: "civil_api \<Rightarrow> source_temporal \<Rightarrow> instant \<Rightarrow> instant option" where
  "first_record_anchor_from api T t =
     Option.bind (ceil_index api (st_frequency T) (st_start T) t)
       (anchor api (st_frequency T) (st_start T))"

definition file_anchor :: "civil_api \<Rightarrow> source_temporal \<Rightarrow> instant \<Rightarrow> instant option" where
  "file_anchor api T t = period_floor api (st_file_period T) (st_start T) t"

definition next_file_anchor :: "civil_api \<Rightarrow> source_temporal \<Rightarrow> instant \<Rightarrow> instant option" where
  "next_file_anchor api T t = anchor_after api (st_file_period T) (st_start T) t"

definition record_in_file :: "civil_api \<Rightarrow> source_temporal \<Rightarrow> instant \<Rightarrow> instant \<Rightarrow> int option" where
  "record_in_file api T a fa =
     Option.bind (floor_index api (st_frequency T) (st_start T) a) (\<lambda>k.
     Option.bind (ceil_index api (st_frequency T) (st_start T) fa) (\<lambda>c.
       checked_i64 (k - c)))"

text \<open>The \<open>Debug\<close> text of a period.\<close>

definition dbg_period :: "calendar_period \<Rightarrow> string" where
  "dbg_period p = ''CalendarPeriod { months: '' @ show_int (p_months p) @ '', seconds: ''
     @ show_int (p_seconds p) @ '' }''"

definition check_period :: "string \<Rightarrow> calendar_period \<Rightarrow> unit result" where
  "check_period name p =
     (if is_positive p then Inr ()
      else Inl (BadPeriod (name @ '' '' @ dbg_period p)
        ''a cadence step must be a positive whole number of months or seconds''))"

definition check_periods :: "source_temporal \<Rightarrow> unit result" where
  "check_periods T =
     bindR (check_period ''frequency'' (st_frequency T)) (\<lambda>_.
       check_period ''file_period'' (st_file_period T))"

section \<open>Store access\<close>

datatype store_access = Cached | Direct

definition access_from_env :: "(string \<Rightarrow> string option) \<Rightarrow> store_access" where
  "access_from_env env =
     (case env ''EARTHSCIIO_STORE_ACCESS'' of
        Some v \<Rightarrow> if eq_ignore_case (trim v) ''direct'' then Direct else Cached
      | None \<Rightarrow> Cached)"

section \<open>Data sources\<close>

record data_source =
  so_name :: string
  so_format :: string
  so_variables :: "string list"
  so_temporal :: "source_temporal option"
  so_url_template :: string
  so_mirrors :: "string list"
  so_substitutions :: "(string \<times> string) list option"
  so_auth_realm :: "string option"
  so_select :: selection
  so_reader_options :: "(string \<times> json) list"
  so_store_access :: "store_access option"
  so_store_options :: "(string \<times> string) list"

definition source_new :: "string \<Rightarrow> string \<Rightarrow> string \<Rightarrow> data_source" where
  "source_new name format url =
     \<lparr>so_name = name, so_format = format, so_variables = [], so_temporal = None,
      so_url_template = url, so_mirrors = [], so_substitutions = None, so_auth_realm = None,
      so_select = SelAll, so_reader_options = [], so_store_access = None, so_store_options = []\<rparr>"

definition src_select :: "selection \<Rightarrow> data_source \<Rightarrow> data_source" where
  "src_select sel s = s\<lparr>so_select := sel\<rparr>"

definition src_reader_options :: "(string \<times> json) list \<Rightarrow> data_source \<Rightarrow> data_source" where
  "src_reader_options opts s = s\<lparr>so_reader_options := opts\<rparr>"

definition src_store_access :: "store_access \<Rightarrow> data_source \<Rightarrow> data_source" where
  "src_store_access acc s = s\<lparr>so_store_access := Some acc\<rparr>"

definition src_store_options :: "(string \<times> string) list \<Rightarrow> data_source \<Rightarrow> data_source" where
  "src_store_options opts s = s\<lparr>so_store_options := opts\<rparr>"

definition src_variables :: "string list \<Rightarrow> data_source \<Rightarrow> data_source" where
  "src_variables vars s = s\<lparr>so_variables := vars\<rparr>"

definition src_temporal :: "source_temporal \<Rightarrow> data_source \<Rightarrow> data_source" where
  "src_temporal T s = s\<lparr>so_temporal := Some T\<rparr>"

definition src_mirrors :: "string list \<Rightarrow> data_source \<Rightarrow> data_source" where
  "src_mirrors ms s = s\<lparr>so_mirrors := ms\<rparr>"

definition src_esm_template :: "(string \<times> string) list \<Rightarrow> data_source \<Rightarrow> data_source" where
  "src_esm_template subs s = s\<lparr>so_substitutions := Some subs\<rparr>"

definition src_auth_realm :: "string \<Rightarrow> data_source \<Rightarrow> data_source" where
  "src_auth_realm realm s = s\<lparr>so_auth_realm := Some realm\<rparr>"

record file_ref =
  fr_url :: string
  fr_mirrors :: "string list"

definition rec_err :: "int \<Rightarrow> string \<Rightarrow> error" where
  "rec_err r at_text = format_err ''cadence''
     (''record '' @ show_int r @ '' of the file anchored at '' @ at_text @ '' precedes it'')"

text \<open>The text of an instant (\<open>Display\<close> of \<open>OffsetDateTime\<close>) is the parameter \<open>show_at\<close>.\<close>

definition file_record :: "(instant \<Rightarrow> string) \<Rightarrow> int \<Rightarrow> instant \<Rightarrow> nat result" where
  "file_record show_at r fa = (if 0 \<le> r then Inr (nat r) else Inl (rec_err r (show_at fa)))"

text \<open>The validated cadence of a source, and its two operations.\<close>

record cadence =
  cd_temporal :: source_temporal

definition cadence_snap :: "civil_api \<Rightarrow> cadence \<Rightarrow> instant \<Rightarrow> instant option" where
  "cadence_snap api c t = period_floor api (st_frequency (cd_temporal c)) (st_start (cd_temporal c)) t"

definition cadence_bracket :: "cadence \<Rightarrow> bool" where
  "cadence_bracket c \<longleftrightarrow> st_records (cd_temporal c) = Some 2"

section \<open>Anchors snap down, and a record lies in its own file\<close>

lemma walk_down_le:
  assumes w: "walk_down api p s t k = Some r"
  shows "\<exists>a. anchor api p s r = Some a \<and> a \<le> t"
proof (rule walk_down.raw_induct [where P = "\<lambda>api p s t k r. \<exists>a. anchor api p s r = Some a \<and> a \<le> t", OF _ w])
  fix walk and api and p and s t :: instant and k r :: int
  assume ih: "\<And>api p s t k r. walk api p s t k = Some r \<Longrightarrow> \<exists>a. anchor api p s r = Some a \<and> a \<le> t"
    and b: "anchor api p s k \<bind> (\<lambda>a. if t < a then if in_i64 (k - 1) then walk api p s t (k - 1) else None
      else Some k) = Some r"
  from b obtain a where a: "anchor api p s k = Some a" by (auto simp: bind_eq_Some_conv)
  show "\<exists>a. anchor api p s r = Some a \<and> a \<le> t"
    using b a ih [of api p s t "k - 1" r] by (cases "t < a") (simp_all split: if_splits)
qed

definition floor_at :: "civil_api \<Rightarrow> calendar_period \<Rightarrow> instant \<Rightarrow> instant \<Rightarrow> int \<Rightarrow> bool" where
  "floor_at api p s t r \<longleftrightarrow>
     (\<exists>a b. anchor api p s r = Some a \<and> a \<le> t \<and> anchor api p s (r + 1) = Some b \<and> t < b)"

lemma walk_up_le:
  assumes w: "walk_up api p s t k = Some r"
  shows "(\<exists>a. anchor api p s k = Some a \<and> a \<le> t) \<longrightarrow> floor_at api p s t r"
proof (rule walk_up.raw_induct [where P = "\<lambda>api p s t k r.
    (\<exists>a. anchor api p s k = Some a \<and> a \<le> t) \<longrightarrow> floor_at api p s t r", OF _ w])
  fix walk and api and p and s t :: instant and k r :: int
  assume ih: "\<And>api p s t k r. walk api p s t k = Some r \<Longrightarrow>
      (\<exists>a. anchor api p s k = Some a \<and> a \<le> t) \<longrightarrow> floor_at api p s t r"
    and b: "(if in_i64 (k + 1) then anchor api p s (k + 1) \<bind>
      (\<lambda>a. if a \<le> t then walk api p s t (k + 1) else Some k) else None) = Some r"
  from b obtain a where a: "anchor api p s (k + 1) = Some a" by (auto simp: bind_eq_Some_conv split: if_splits)
  show "(\<exists>a. anchor api p s k = Some a \<and> a \<le> t) \<longrightarrow> floor_at api p s t r"
    using b a ih [of api p s t "k + 1" r] by (cases "a \<le> t") (auto simp: floor_at_def split: if_splits)
qed

lemma floor_index_anchor:
  assumes "floor_index api p s t = Some k"
  shows "floor_at api p s t k"
proof -
  from assms obtain g where g: "walk_down api p s t (floor_guess p s t) = Some g" "walk_up api p s t g = Some k"
    by (auto simp: floor_index_def bind_eq_Some_conv split: if_splits)
  from walk_up_le [OF g(2)] walk_down_le [OF g(1)] show ?thesis by blast
qed

lemma period_floor_le: "period_floor api p s t = Some a \<Longrightarrow> a \<le> t"
  using floor_index_anchor [of api p s t] by (auto simp: period_floor_def floor_at_def bind_eq_Some_conv)

lemma file_anchor_le: "file_anchor api T t = Some fa \<Longrightarrow> fa \<le> t"
  by (simp add: file_anchor_def period_floor_le)

lemma record_anchor_le: "record_anchor api T t = Some a \<Longrightarrow> a \<le> t"
  by (simp add: record_anchor_def period_floor_le)

text \<open>
  The record index of a cadence anchor in the file that holds it is never negative: it is the
  number of cadence anchors from the file's anchor up to the record's, so \<open>file_record\<close> never refuses it.
\<close>

theorem record_counts_anchors:
  assumes laws: "civil_laws api" and pos: "is_positive (st_frequency T)" and start: "in_range api (st_start T)"
    and br_a: "bracketed api (st_frequency T) (st_start T) a lo hi"
    and g_a: "lo \<le> floor_guess (st_frequency T) (st_start T) a" "floor_guess (st_frequency T) (st_start T) a \<le> hi"
    and br_f: "bracketed api (st_frequency T) (st_start T) fa lo hi"
    and g_f: "lo \<le> floor_guess (st_frequency T) (st_start T) fa" "floor_guess (st_frequency T) (st_start T) fa \<le> hi"
    and fits: "in_i64 (hi - lo)"
    and k: "k \<in> {lo..hi}" "anchor api (st_frequency T) (st_start T) k = Some a"
    and fa: "file_anchor api T a = Some fa"
  shows "record_in_file api T a fa = Some (int (card {j \<in> {lo..hi}.
      \<exists>c. anchor api (st_frequency T) (st_start T) j = Some c \<and> fa \<le> c \<and> c < a}))"
proof -
  let ?an = "anchor api (st_frequency T) (st_start T)"
  from floor_walk [OF pos br_a g_a] obtain f x where f: "floor_index api (st_frequency T) (st_start T) a = Some f"
    "lo \<le> f" "f < hi" "?an f = Some x" "x \<le> a" by blast
  have upto: "c \<le> a \<longleftrightarrow> j \<le> f" if "j \<in> {lo..hi}" "?an j = Some c" for j c
    using floor_char [OF laws pos start br_a g_a f(1) that] .
  from ceil_char [OF laws pos start br_f g_f] obtain c where
    c: "ceil_index api (st_frequency T) (st_start T) fa = Some c" "lo \<le> c" "c \<le> hi"
    and from_c: "\<forall>j\<in>{lo..hi}. \<forall>d. ?an j = Some d \<longrightarrow> (fa \<le> d \<longleftrightarrow> c \<le> j)" by blast
  have "k \<le> f" using upto [OF k] by simp
  have "\<not> k < f"
  proof
    assume "k < f"
    with civil_laws.anchor_strict_mono [OF laws pos start k(2) f(4)]
      bracketed_no_wrap [OF pos br_a] k(1) f(2,3) have "a < x" by auto
    with f(5) show False by simp
  qed
  with \<open>k \<le> f\<close> have kf: "f = k" by simp
  have le: "fa \<le> a" by (rule file_anchor_le [OF fa])
  then have ck: "c \<le> k" using from_c k by auto
  have "{j \<in> {lo..hi}. \<exists>d. ?an j = Some d \<and> fa \<le> d \<and> d < a} = {c..<k}"
  proof (intro equalityI subsetI)
    fix j assume "j \<in> {j \<in> {lo..hi}. \<exists>d. ?an j = Some d \<and> fa \<le> d \<and> d < a}"
    then obtain d where j: "j \<in> {lo..hi}" "?an j = Some d" "fa \<le> d" "d < a" by auto
    have "j \<noteq> k" using j(2,4) k(2) by auto
    with upto [OF j(1,2)] from_c j kf show "j \<in> {c..<k}" by auto
  next
    fix j assume j: "j \<in> {c..<k}"
    then have r: "j \<in> {lo..hi}" using c k(1) by auto
    then obtain d where d: "?an j = Some d" using br_a by (fastforce simp: bracketed_def list_all_iff)
    have "d < a" using civil_laws.anchor_strict_mono [OF laws pos start d k(2)]
        bracketed_no_wrap [OF pos br_a] j r k(1) by auto
    with d from_c r j show "j \<in> {j \<in> {lo..hi}. \<exists>d. ?an j = Some d \<and> fa \<le> d \<and> d < a}" by auto
  qed
  moreover have "in_i64 (k - c)" using fits ck c k(1) by (auto simp: in_i64_def i64_min_def i64_max_def)
  ultimately show ?thesis using f(1) c(1) ck kf by (simp add: record_in_file_def checked_i64_def)
qed

declare walk_down.simps [code] walk_up.simps [code]

text \<open>Six-hourly records in monthly files, from the last day of January 2016.\<close>

definition six_hourly :: source_temporal where
  "six_hourly = temporal_new jan31 (seconds_period 21600) (months_period 1)"

lemma six_hourly_brackets:
  "bracketed greg_api (st_frequency six_hourly) (st_start six_hourly) (jan31 + 30 * ns_per_day) 115 122"
  "bracketed greg_api (st_frequency six_hourly) (st_start six_hourly) (jan31 + 29 * ns_per_day) 115 122"
  by code_simp+

lemma card_some:
  "card {j \<in> {lo..hi}. \<exists>c. f j = Some c \<and> P c} =
     length (filter (\<lambda>j. case f j of None \<Rightarrow> False | Some c \<Rightarrow> P c) [lo..hi])"
proof -
  have "{j \<in> {lo..hi}. \<exists>c. f j = Some c \<and> P c} = set (filter (\<lambda>j. case f j of None \<Rightarrow> False | Some c \<Rightarrow> P c) [lo..hi])"
    by (auto split: option.splits)
  then show ?thesis by (simp only: distinct_card distinct_filter distinct_upto)
qed

theorem record_counts_anchors_witness:
  "record_in_file greg_api six_hourly (jan31 + 30 * ns_per_day) (jan31 + 29 * ns_per_day) = Some 4"
proof -
  let ?S = "{j \<in> {115..122}. \<exists>c. anchor greg_api (st_frequency six_hourly) (st_start six_hourly) j = Some c \<and>
    jan31 + 29 * ns_per_day \<le> c \<and> c < jan31 + 30 * ns_per_day}"
  have r: "record_in_file greg_api six_hourly (jan31 + 30 * ns_per_day) (jan31 + 29 * ns_per_day) = Some (int (card ?S))"
  proof (rule record_counts_anchors [OF greg.civil_laws_axioms _ _ six_hourly_brackets(1) _ _ six_hourly_brackets(2)])
    show "120 \<in> {115..122::int}" by simp
    show "is_positive (st_frequency six_hourly)" "in_range greg_api (st_start six_hourly)"
      "115 \<le> floor_guess (st_frequency six_hourly) (st_start six_hourly) (jan31 + 30 * ns_per_day)"
      "floor_guess (st_frequency six_hourly) (st_start six_hourly) (jan31 + 30 * ns_per_day) \<le> 122"
      "115 \<le> floor_guess (st_frequency six_hourly) (st_start six_hourly) (jan31 + 29 * ns_per_day)"
      "floor_guess (st_frequency six_hourly) (st_start six_hourly) (jan31 + 29 * ns_per_day) \<le> 122"
      "in_i64 (122 - 115)"
      "anchor greg_api (st_frequency six_hourly) (st_start six_hourly) 120 = Some (jan31 + 30 * ns_per_day)"
      by code_simp+
    show "file_anchor greg_api six_hourly (jan31 + 30 * ns_per_day) = Some (jan31 + 29 * ns_per_day)"
      by code_simp
  qed
  have "card ?S = length (filter (\<lambda>j. case anchor greg_api (st_frequency six_hourly) (st_start six_hourly) j of
      None \<Rightarrow> False | Some c \<Rightarrow> jan31 + 29 * ns_per_day \<le> c \<and> c < jan31 + 30 * ns_per_day) [115..122])"
    by (rule card_some)
  also have "\<dots> = 4" by code_simp
  finally have "card ?S = 4" .
  with r show ?thesis by simp
qed

end
