(* ===== verification/TimeAxis.thy ===== *)
theory TimeAxis
  imports Sources
begin

text \<open>
  Finding a record by the file's own time axis (\<open>rust/src/time_axis.rs\<close>): the CF units and reference
  date, the two readings of a raw axis (pandas' and cftime's), the memo of decoded axes and the
  record index.

  An \<open>f64\<close> is an element of a type parameter with the operations \<open>float_api\<close> the code uses; the
  calendar of the \<open>time\<close> crate is \<open>civil_api\<close>. A decoded file is an allocation, an index of a heap of
  datasets: the memo is keyed by allocation, as the code's \<open>Weak\<close> pointers are, and which
  allocations are still alive when it is pruned is a parameter.
\<close>

record 'f float_api =
  fl_of_int :: "int \<Rightarrow> 'f"
  fl_mul :: "'f \<Rightarrow> 'f \<Rightarrow> 'f"
  fl_div :: "'f \<Rightarrow> 'f \<Rightarrow> 'f"
  fl_abs :: "'f \<Rightarrow> 'f"
  fl_ge :: "'f \<Rightarrow> 'f \<Rightarrow> bool"
  fl_eq :: "'f \<Rightarrow> 'f \<Rightarrow> bool"
  fl_finite :: "'f \<Rightarrow> bool"
  fl_trunc :: "'f \<Rightarrow> int"
  fl_round :: "'f \<Rightarrow> int"

section \<open>Units\<close>

definition pandas_unit :: "string \<Rightarrow> int option" where
  "pandas_unit u =
     map_of [(''nanoseconds'', 1), (''microseconds'', 1000), (''milliseconds'', 1000000),
             (''seconds'', 1000000000), (''minutes'', 60000000000), (''hours'', 3600000000000),
             (''days'', 86400000000000)] u"

definition cftime_unit :: "string \<Rightarrow> int option" where
  "cftime_unit u =
     (if u \<in> set [''microsecond'', ''microseconds''] then Some 1000
      else if u \<in> set [''millisecond'', ''milliseconds'', ''msec'', ''msecs'', ''ms''] then Some 1000000
      else if u \<in> set [''second'', ''seconds'', ''sec'', ''secs'', ''s''] then Some 1000000000
      else if u \<in> set [''minute'', ''minutes'', ''min'', ''mins''] then Some 60000000000
      else if u \<in> set [''hour'', ''hours'', ''hr'', ''hrs'', ''h''] then Some 3600000000000
      else if u \<in> set [''day'', ''days'', ''d''] then Some 86400000000000
      else None)"

section \<open>Calendars\<close>

definition unix_jd :: int where "unix_jd = 2440588"

text \<open>The parameter's day numbers count from 1970-01-01, as the code's do.\<close>

definition gregorian_days :: "civil_api \<Rightarrow> int \<Rightarrow> int \<Rightarrow> int \<Rightarrow> int option" where
  "gregorian_days api y m d = day_of api y m d"

definition julian_month_len :: "int \<Rightarrow> int \<Rightarrow> int option" where
  "julian_month_len y m =
     (if m = 2 then Some (if y mod 4 = 0 then 29 else 28)
      else if m = 4 \<or> m = 6 \<or> m = 9 \<or> m = 11 then Some 30
      else if 1 \<le> m \<and> m \<le> 12 then Some 31 else None)"

definition julian_days :: "int \<Rightarrow> int \<Rightarrow> int \<Rightarrow> int option" where
  "julian_days y m d =
     (case julian_month_len y m of
        None \<Rightarrow> None
      | Some len \<Rightarrow>
          if y < 1 \<or> d < 1 \<or> d > len then None
          else
            (let a = (14 - m) div 12; yy = y + 4800 - a; mm = m + 12 * a - 3 in
             Some (d + (153 * mm + 2) div 5 + 365 * yy + yy div 4 - 32083 - unix_jd)))"

definition year_ok :: "civil_api \<Rightarrow> int \<Rightarrow> bool" where
  "year_ok api ns =
     (let day = ns div (86400 * ns_per_s) in
      min_day api \<le> day \<and> day \<le> max_day api \<and>
      (let (y, m, d) = ymd_of api day in 1678 \<le> y \<and> y \<le> 2261))"

section \<open>Reference dates\<close>

text \<open>A cursor is the bytes left to read. \<open>read_digits\<close> reads at most \<open>max\<close> digits: value, count, rest.\<close>

definition eat :: "char \<Rightarrow> string \<Rightarrow> string option" where
  "eat c s = (case s of x # xs \<Rightarrow> if x = c then Some xs else None | [] \<Rightarrow> None)"

fun read_digits_go :: "nat \<Rightarrow> int \<Rightarrow> nat \<Rightarrow> string \<Rightarrow> int \<times> nat \<times> string" where
  "read_digits_go 0 v n s = (v, n, s)"
| "read_digits_go (Suc k) v n [] = (v, n, [])"
| "read_digits_go (Suc k) v n (c # cs) =
     (if is_digit c then read_digits_go k (v * 10 + int (digit_val c)) (n + 1) cs else (v, n, c # cs))"

definition read_digits :: "nat \<Rightarrow> string \<Rightarrow> int \<times> nat \<times> string" where
  "read_digits mx s = read_digits_go mx 0 0 s"

definition blank :: "char \<Rightarrow> bool" where
  "blank c \<longleftrightarrow> c = CHR '' '' \<or> c = CHR 0x09"

definition read_spaces :: "string \<Rightarrow> nat \<times> string" where
  "read_spaces s = (length (takeWhile blank s), dropWhile blank s)"

datatype clock = ClkNone | ClkHour | ClkMinutes

record reference =
  rf_year :: int
  rf_year_digits :: nat
  rf_month :: int
  rf_day :: int
  rf_hour :: int
  rf_minute :: int
  rf_second :: int
  rf_frac_ns :: int
  rf_clock :: clock
  rf_clock_gap :: nat
  rf_offset :: int
  rf_zone :: bool
  rf_zone_gap :: nat

text \<open>The fraction: every digit is read, the first nine count.\<close>

fun read_frac :: "int \<Rightarrow> nat \<Rightarrow> string \<Rightarrow> int \<times> nat \<times> string" where
  "read_frac f nd [] = (f, nd, [])"
| "read_frac f nd (c # cs) =
     (if is_digit c
      then read_frac (if nd < 9 then f * 10 + int (digit_val c) else f) (nd + 1) cs
      else (f, nd, c # cs))"

text \<open>After \<open>H:\<close>: minutes, seconds and fraction, with the rest.\<close>

definition read_minutes :: "string \<Rightarrow> (int \<times> int \<times> int \<times> string) option" where
  "read_minutes s =
     (case read_digits 2 s of (m, n, s1) \<Rightarrow>
        if n = 0 then None
        else
          (case eat (CHR '':'') s1 of
             None \<Rightarrow> Some (m, 0, 0, s1)
           | Some s2 \<Rightarrow>
               (case read_digits 2 s2 of (sec, n2, s3) \<Rightarrow>
                  if n2 = 0 then None
                  else
                    (case eat (CHR ''.'') s3 of
                       None \<Rightarrow> Some (m, sec, 0, s3)
                     | Some s4 \<Rightarrow>
                         (case read_frac 0 0 s4 of (f, nd, s5) \<Rightarrow>
                            if nd = 0 then None else Some (m, sec, f * 10 ^ (9 - nd), s5))))))"

text \<open>The time of day: hour, minute, second, fraction, how it was given, the gap before it, the rest.\<close>

definition read_clock ::
    "string \<Rightarrow> (int \<times> int \<times> int \<times> int \<times> clock \<times> nat \<times> string) option" where
  "read_clock s =
     (let (gap, s1) = (case eat (CHR ''T'') s of Some r \<Rightarrow> (1, r) | None \<Rightarrow> read_spaces s) in
      if s1 \<noteq> [] \<and> is_digit (hd s1) then
        (case read_digits 2 s1 of (h, n, s2) \<Rightarrow>
           (case eat (CHR '':'') s2 of
              Some s3 \<Rightarrow>
                map_option (\<lambda>(m, sec, f, r). (h, m, sec, f, ClkMinutes, gap, r)) (read_minutes s3)
            | None \<Rightarrow> if n \<noteq> 2 then None else Some (h, 0, 0, 0, ClkHour, gap, s2)))
      else Some (0, 0, 0, 0, ClkNone, 0, s))"

text \<open>The zone that ends the reference: its offset and whether it is spelled \<open>Z\<close> or signed.\<close>

definition read_offset :: "int \<Rightarrow> string \<Rightarrow> (int \<times> bool) option" where
  "read_offset sign s =
     (case read_digits 2 s of (oh, n, s1) \<Rightarrow>
        if n \<noteq> 2 then None
        else
          (case (if s1 = [] then Some 0
                 else
                   (case read_digits 2 (case eat (CHR '':'') s1 of Some r \<Rightarrow> r | None \<Rightarrow> s1) of
                      (m, n2, s2) \<Rightarrow> if n2 \<noteq> 2 \<or> s2 \<noteq> [] then None else Some m)) of
             None \<Rightarrow> None
           | Some om \<Rightarrow>
               if oh > 23 \<or> om > 59 then None else Some (sign * (oh * 3600 + om * 60), True)))"

definition read_zone :: "string \<Rightarrow> (int \<times> bool) option" where
  "read_zone rest =
     (let lower = ascii_lower rest in
      if rest = [] \<or> lower = ''utc'' \<or> lower = ''gmt'' then Some (0, False)
      else if lower = ''z'' then Some (0, True)
      else if starts_with ''+'' rest then read_offset 1 (tl rest)
      else if starts_with ''-'' rest then read_offset (- 1) (tl rest)
      else None)"

fun has_digit_run :: "string \<Rightarrow> bool" where
  "has_digit_run [] = False"
| "has_digit_run (c # cs) =
     ((length (c # cs) \<ge> 4 \<and> list_all is_digit (take 4 (c # cs))) \<or> has_digit_run cs)"

definition parse_reference :: "string \<Rightarrow> reference option" where
  "parse_reference s =
     (if \<not> list_all (\<lambda>c. (of_char c :: nat) < 128) s then None
      else
        (case read_digits 4 s of (year, yd, s1) \<Rightarrow>
          if yd = 0 then None
          else Option.bind (eat (CHR ''-'') s1) (\<lambda>s2.
            if yd < 4 \<and> has_digit_run s then None
            else
              (case read_digits 2 s2 of (month, mn, s3) \<Rightarrow>
                if mn = 0 then None
                else Option.bind (eat (CHR ''-'') s3) (\<lambda>s4.
                  (case read_digits 2 s4 of (day, dn, s5) \<Rightarrow>
                    if dn = 0 then None
                    else Option.bind (read_clock s5) (\<lambda>(hour, minute, second, frac, clk, gap, s6).
                      (case read_spaces s6 of (zgap, s7) \<Rightarrow>
                        Option.bind (read_zone s7) (\<lambda>(offset, zone).
                          if hour > 23 \<or> minute > 59 \<or> second > 59 then None
                          else Some \<lparr>rf_year = year, rf_year_digits = yd, rf_month = month, rf_day = day,
                            rf_hour = hour, rf_minute = minute, rf_second = second, rf_frac_ns = frac,
                            rf_clock = clk, rf_clock_gap = gap, rf_offset = offset, rf_zone = zone,
                            rf_zone_gap = zgap\<rparr>)))))))))"

definition pandas_ns :: "civil_api \<Rightarrow> reference \<Rightarrow> int option" where
  "pandas_ns api r =
     (if rf_year_digits r \<noteq> 4 then None
      else
        map_option (\<lambda>days.
            (days * 86400 + (rf_hour r * 3600 + rf_minute r * 60 + rf_second r - rf_offset r)) * ns_per_s
              + rf_frac_ns r)
          (gregorian_days api (rf_year r) (rf_month r) (rf_day r)))"

text \<open>The tuple comparison of the code is lexicographic.\<close>

definition date_le :: "int \<times> int \<times> int \<Rightarrow> int \<times> int \<times> int \<Rightarrow> bool" where
  "date_le a b = (case (a, b) of ((y, m, d), (y', m', d')) \<Rightarrow>
     y < y' \<or> (y = y' \<and> (m < m' \<or> (m = m' \<and> d \<le> d'))))"

definition cftime_days :: "civil_api \<Rightarrow> bool \<Rightarrow> int \<Rightarrow> int \<Rightarrow> int \<Rightarrow> int option" where
  "cftime_days api proleptic y m d =
     (if proleptic \<or> date_le (1582, 10, 15) (y, m, d) then gregorian_days api y m d
      else if \<not> date_le (y, m, d) (1582, 10, 4) then None
      else julian_days y m d)"

definition cftime_ns :: "civil_api \<Rightarrow> bool \<Rightarrow> reference \<Rightarrow> int option" where
  "cftime_ns api proleptic r =
     map_option (\<lambda>days.
        let clock = rf_clock r = ClkMinutes \<and> rf_clock_gap r = 1;
            zone = rf_zone r \<and> rf_zone_gap r \<le> 1 \<and> (clock \<or> rf_clock r = ClkNone);
            secs = (if clock then rf_hour r * 3600 + rf_minute r * 60 + rf_second r else 0);
            frac = (if clock then rf_frac_ns r div 1000 * 1000 else 0);
            off = (if zone then rf_offset r else 0)
        in (days * 86400 + (secs - off)) * ns_per_s + frac)
       (cftime_days api proleptic (rf_year r) (rf_month r) (rf_day r))"

section \<open>Splitting the units\<close>

text \<open>\<open>rfind\<close> in \<open>units[..end]\<close>: the last position before which the pattern ends.\<close>

definition rfind_upto :: "string \<Rightarrow> string \<Rightarrow> nat \<Rightarrow> nat option" where
  "rfind_upto pat s e =
     find (\<lambda>i. starts_with pat (drop i s) \<and> i + length pat \<le> e) (rev [0..<e])"

lemma rfind_upto_Some:
  "rfind_upto pat s e = Some i \<Longrightarrow> starts_with pat (drop i s) \<and> i + length pat \<le> e"
  by (auto simp: rfind_upto_def find_Some_iff)

definition since :: string where "since = '' since ''"

lemma length_since [simp]: "length since = 7"
  by (simp add: since_def)

function split_at_since :: "string \<Rightarrow> nat \<Rightarrow> (string \<times> string) option" where
  "split_at_since units e =
     (case rfind_upto since units e of
        None \<Rightarrow> None
      | Some i \<Rightarrow>
          if i > 0 \<and> i + length since < length units then
            Some (trim (take i units), trim (drop (i + length since) units))
          else if i = 0 then None
          else split_at_since units (i + length since - 1))"
  by pat_completeness auto

termination
  by (relation "measure snd") (auto dest: rfind_upto_Some)

declare split_at_since.simps [simp del]

definition split_units :: "string \<Rightarrow> (string \<times> string) option" where
  "split_units units =
     (if CHR 0x0A \<in> set units then None else split_at_since units (length units))"

definition floor_s :: "int \<Rightarrow> int" where
  "floor_s ns = as_i64 (ns div ns_per_s)"

text \<open>pandas keeps \<open>i64::MIN\<close> for "not a time".\<close>

definition in_ns64 :: "int \<Rightarrow> bool" where
  "in_ns64 x \<longleftrightarrow> i64_min + 1 \<le> x \<and> x \<le> i64_max"

section \<open>Decoding an axis\<close>

datatype 'f raw = RawInt int | RawFloat 'f

definition raw_f64 :: "'f float_api \<Rightarrow> 'f raw \<Rightarrow> 'f" where
  "raw_f64 F r = (case r of RawInt v \<Rightarrow> fl_of_int F v | RawFloat x \<Rightarrow> x)"

fun raw_values :: "'f array_data \<Rightarrow> 'f raw list option" where
  "raw_values (AI32 v) = Some (map RawInt v)"
| "raw_values (AI64 v) = Some (map RawInt v)"
| "raw_values (AF64 v) = Some (map RawFloat v)"
| "raw_values (AStr v) = None"
| "raw_values (ABool v) = None"

definition raw_ok :: "'f float_api \<Rightarrow> 'f option \<Rightarrow> 'f raw \<Rightarrow> bool" where
  "raw_ok F fill v \<longleftrightarrow>
     (case v of RawFloat x \<Rightarrow> fl_finite F x | RawInt x \<Rightarrow> True) \<and>
     (case fill of Some fv \<Rightarrow> \<not> fl_eq F (raw_f64 F v) fv | None \<Rightarrow> True)"

text \<open>One value read as pandas does, truncated to the nanosecond: \<open>None\<close> gives up on this reading.\<close>

definition pandas_value :: "'f float_api \<Rightarrow> int \<Rightarrow> int \<Rightarrow> 'f raw \<Rightarrow> int option" where
  "pandas_value F pf ref v =
     Option.bind
       (case v of
          RawInt x \<Rightarrow> Some (x * pf)
        | RawFloat x \<Rightarrow>
            (let p = fl_mul F x (fl_of_int F pf) in
             if fl_ge F (fl_abs F p) (fl_of_int F 9200000000000000000) then None else Some (fl_trunc F p)))
       (\<lambda>ns. if in_ns64 ns \<and> in_ns64 (ref + ns) then Some (floor_s (ref + ns)) else None)"

definition cftime_value :: "civil_api \<Rightarrow> 'f float_api \<Rightarrow> int \<Rightarrow> int \<Rightarrow> 'f raw \<Rightarrow> int option" where
  "cftime_value api F cf ref v =
     (let us = fl_mul F (raw_f64 F v) (fl_div F (fl_of_int F cf) (fl_of_int F 1000)) in
      if fl_ge F (fl_abs F us) (fl_of_int F (10 ^ 30)) then None
      else
        (let t = ref + fl_round F us * 1000 in
         if year_ok api t then Some (floor_s t) else None))"

fun all_some :: "('a \<Rightarrow> 'b option) \<Rightarrow> 'a list \<Rightarrow> 'b list option" where
  "all_some f [] = Some []"
| "all_some f (x # xs) = Option.bind (f x) (\<lambda>y. map_option ((#) y) (all_some f xs))"

definition plural :: "string \<Rightarrow> string" where
  "plural u = (if u \<noteq> [] \<and> last u = CHR ''s'' then u else u @ ''s'')"

definition pandas_axis ::
    "civil_api \<Rightarrow> 'f float_api \<Rightarrow> string \<Rightarrow> reference \<Rightarrow> 'f raw list \<Rightarrow> int list option" where
  "pandas_axis api F unit r vals =
     (case (pandas_unit (plural unit), pandas_ns api r) of
        (Some pf, Some ref) \<Rightarrow> if in_ns64 ref then all_some (pandas_value F pf ref) vals else None
      | _ \<Rightarrow> None)"

definition cftime_axis ::
    "civil_api \<Rightarrow> 'f float_api \<Rightarrow> bool \<Rightarrow> string \<Rightarrow> reference \<Rightarrow> 'f raw list \<Rightarrow> int list option" where
  "cftime_axis api F proleptic unit r vals =
     Option.bind (cftime_unit unit) (\<lambda>cf.
     Option.bind (cftime_ns api proleptic r) (\<lambda>ref. all_some (cftime_value api F cf ref) vals))"

definition decode_time_axis ::
    "civil_api \<Rightarrow> 'f float_api \<Rightarrow> 'f array_data \<Rightarrow> string option \<Rightarrow> string option \<Rightarrow> 'f option
      \<Rightarrow> int list option" where
  "decode_time_axis api F data units calendar fill =
     Option.bind units (\<lambda>u.
     Option.bind (split_units u) (\<lambda>(unit0, ref0).
       let unit = ascii_lower unit0;
           cal = (case calendar of None \<Rightarrow> ''standard'' | Some c \<Rightarrow> ascii_lower c) in
       if cal \<notin> set [''standard'', ''gregorian'', ''proleptic_gregorian''] then None
       else
         Option.bind (parse_reference ref0) (\<lambda>r.
         Option.bind (raw_values data) (\<lambda>vals.
           if \<not> list_all (raw_ok F fill) vals then None
           else
             (case pandas_axis api F unit r vals of
                Some out \<Rightarrow> Some out
              | None \<Rightarrow> cftime_axis api F (cal = ''proleptic_gregorian'') unit r vals)))))"

definition decode_coord_times :: "civil_api \<Rightarrow> 'f float_api \<Rightarrow> 'f coord \<Rightarrow> int list option" where
  "decode_coord_times api F c =
     decode_time_axis api F (f_data (co_field c)) (co_units c) (co_calendar c) (f_fill (co_field c))"

section \<open>The memo of decoded axes and the record index\<close>

type_synonym axis_memo = "(nat \<times> int list option) list"

definition axis_of :: "civil_api \<Rightarrow> 'f float_api \<Rightarrow> string \<Rightarrow> 'f dataset \<Rightarrow> int list option" where
  "axis_of api F dim ds =
     Option.bind (map_of (ds_coords ds) dim) (decode_coord_times api F)"

definition axis_times ::
    "civil_api \<Rightarrow> 'f float_api \<Rightarrow> (nat \<Rightarrow> bool) \<Rightarrow> nat \<Rightarrow> 'f dataset \<Rightarrow> string \<Rightarrow> axis_memo
      \<Rightarrow> int list option \<times> axis_memo" where
  "axis_times api F alive h ds dim memo =
     (case map_of memo h of
        Some t \<Rightarrow> (t, memo)
      | None \<Rightarrow>
          (let axis = axis_of api F dim ds in
           (axis, filter (\<lambda>(w, _). alive w) memo @ [(h, axis)])))"

text \<open>\<open>unix_timestamp\<close> of an instant.\<close>

definition unix_s :: "instant \<Rightarrow> int" where
  "unix_s t = t div ns_per_s"

fun best_record :: "int \<Rightarrow> int list \<Rightarrow> nat \<Rightarrow> int list \<Rightarrow> nat option \<Rightarrow> nat option" where
  "best_record a axis i [] best = best"
| "best_record a axis i (ti # ts) best =
     best_record a axis (i + 1) ts
       (if ti \<le> a \<and> (case best of None \<Rightarrow> True | Some b \<Rightarrow> ti > axis ! b) then Some i else best)"

definition record_by_axis :: "int \<Rightarrow> int list \<Rightarrow> nat option" where
  "record_by_axis a axis =
     (if axis \<noteq> [] \<and> Min (set axis) \<le> a \<and> a \<le> Max (set axis)
      then best_record a axis 0 axis None else None)"

definition record_index ::
    "civil_api \<Rightarrow> 'f float_api \<Rightarrow> (nat \<Rightarrow> bool) \<Rightarrow> nat \<Rightarrow> 'f dataset \<Rightarrow> source_temporal
      \<Rightarrow> instant \<Rightarrow> instant \<Rightarrow> axis_memo \<Rightarrow> int option \<times> axis_memo" where
  "record_index api F alive h ds T a fa memo =
     (case axis_times api F alive h ds (st_time_dim T) memo of
        (axis, memo') \<Rightarrow>
          ((case Option.bind axis (record_by_axis (unix_s a)) of
              Some b \<Rightarrow> Some (int b)
            | None \<Rightarrow> record_in_file api T a fa), memo'))"

section \<open>The record index finds the latest record\<close>

text \<open>\<open>best_upto a axis n best\<close>: of the first \<open>n\<close> records, \<open>best\<close> is the latest at or before \<open>a\<close>, the
  first of equal ones.\<close>

definition latest_among :: "int \<Rightarrow> int list \<Rightarrow> nat \<Rightarrow> nat \<Rightarrow> bool" where
  "latest_among a axis n b \<longleftrightarrow> b < n \<and> axis ! b \<le> a \<and>
     (\<forall>j<n. axis ! j \<le> a \<longrightarrow> axis ! j < axis ! b \<or> (axis ! j = axis ! b \<and> b \<le> j))"

definition best_upto :: "int \<Rightarrow> int list \<Rightarrow> nat \<Rightarrow> nat option \<Rightarrow> bool" where
  "best_upto a axis n best \<longleftrightarrow>
     (case best of None \<Rightarrow> \<forall>j<n. a < axis ! j | Some b \<Rightarrow> latest_among a axis n b)"

lemma best_upto_step:
  assumes "best_upto a axis n best"
  shows "best_upto a axis (Suc n)
    (if axis ! n \<le> a \<and> (case best of None \<Rightarrow> True | Some b \<Rightarrow> axis ! n > axis ! b) then Some n else best)"
  using assms
  by (cases best) (auto simp: best_upto_def latest_among_def less_Suc_eq not_le not_less)

lemma best_record_upto:
  "axis = pre @ ts \<Longrightarrow> best_upto a axis (length pre) best \<Longrightarrow>
     best_upto a axis (length axis) (best_record a axis (length pre) ts best)"
proof (induction ts arbitrary: pre best)
  case (Cons t ts)
  have t: "axis ! length pre = t" using Cons.prems(1) by simp
  have "best_upto a axis (length (pre @ [t])) (if t \<le> a \<and> (case best of None \<Rightarrow> True | Some b \<Rightarrow> t > axis ! b)
      then Some (length pre) else best)"
    using best_upto_step [OF Cons.prems(2), unfolded t] by simp
  then have "best_upto a axis (length axis) (best_record a axis (length (pre @ [t])) ts
      (if t \<le> a \<and> (case best of None \<Rightarrow> True | Some b \<Rightarrow> t > axis ! b) then Some (length pre) else best))"
    by (rule Cons.IH [rotated]) (simp add: Cons.prems(1))
  then show ?case by simp
qed simp

lemma best_record_all: "best_upto a axis (length axis) (best_record a axis 0 axis None)"
  using best_record_upto [of axis "[]" axis a None] by (simp add: best_upto_def)

definition in_span :: "int \<Rightarrow> int list \<Rightarrow> bool" where
  "in_span a axis \<longleftrightarrow> (\<exists>i<length axis. axis ! i \<le> a) \<and> (\<exists>i<length axis. a \<le> axis ! i)"

lemma record_by_axis_Some:
  assumes "in_span a axis"
  shows "\<exists>i. record_by_axis a axis = Some i \<and> latest_among a axis (length axis) i"
proof -
  from assms obtain i j where i: "i < length axis" "axis ! i \<le> a" and j: "j < length axis" "a \<le> axis ! j"
    by (auto simp: in_span_def)
  then have "Min (set axis) \<le> a" "a \<le> Max (set axis)"
    by (meson List.finite_set Min_le nth_mem order_trans Max_ge)+
  moreover have "axis \<noteq> []" using i by auto
  ultimately have r: "record_by_axis a axis = best_record a axis 0 axis None" by (simp add: record_by_axis_def)
  show ?thesis
  proof (cases "best_record a axis 0 axis None")
    case None
    with best_record_all [of a axis] i show ?thesis by (auto simp: best_upto_def)
  next
    case (Some b)
    with best_record_all [of a axis] r show ?thesis by (simp add: best_upto_def)
  qed
qed

lemma record_by_axis_None:
  assumes "\<not> in_span a axis"
  shows "record_by_axis a axis = None"
proof (rule ccontr)
  assume "record_by_axis a axis \<noteq> None"
  then have *: "axis \<noteq> []" "Min (set axis) \<le> a" "a \<le> Max (set axis)"
    by (auto simp: record_by_axis_def split: if_splits)
  then have "Min (set axis) \<in> set axis" "Max (set axis) \<in> set axis" by simp_all
  with * assms show False by (auto simp: in_span_def in_set_conv_nth)
qed

text \<open>The memo holds, for each allocation it knows, the axis of the dataset there.\<close>

definition memo_ok :: "civil_api \<Rightarrow> 'f float_api \<Rightarrow> string \<Rightarrow> 'f dataset list \<Rightarrow> axis_memo \<Rightarrow> bool" where
  "memo_ok api F dim heap memo \<longleftrightarrow>
     (\<forall>(h, t)\<in>set memo. h < length heap \<and> t = axis_of api F dim (heap ! h))"

lemma axis_times_ok:
  assumes "memo_ok api F dim heap memo" "h < length heap" "axis_times api F alive h (heap ! h) dim memo = (t, memo')"
  shows "t = axis_of api F dim (heap ! h) \<and> memo_ok api F dim heap memo'"
  using assms by (fastforce simp: axis_times_def memo_ok_def Let_def split: option.splits dest: map_of_SomeD)

text \<open>The index as a function of the dataset alone.\<close>

definition record_of ::
    "civil_api \<Rightarrow> 'f float_api \<Rightarrow> source_temporal \<Rightarrow> 'f dataset \<Rightarrow> instant \<Rightarrow> instant \<Rightarrow> int option" where
  "record_of api F T ds a fa =
     (case Option.bind (axis_of api F (st_time_dim T) ds) (record_by_axis (unix_s a)) of
        Some b \<Rightarrow> Some (int b) | None \<Rightarrow> record_in_file api T a fa)"

lemma record_index_ok:
  assumes "memo_ok api F (st_time_dim T) heap memo" "h < length heap"
    "record_index api F alive h (heap ! h) T a fa memo = (r, memo')"
  shows "r = record_of api F T (heap ! h) a fa \<and> memo_ok api F (st_time_dim T) heap memo'"
proof -
  obtain t m where at: "axis_times api F alive h (heap ! h) (st_time_dim T) memo = (t, m)"
    by (cases "axis_times api F alive h (heap ! h) (st_time_dim T) memo")
  from axis_times_ok [OF assms(1,2) at] assms(3) at show ?thesis
    by (auto simp: record_index_def record_of_def)
qed

text \<open>
  C15: whatever the memo of decoded axes holds, the record of an anchor inside the file's own time axis is
  the latest record at or before it, the first of equal ones in file order; without a decoded axis, or
  outside its span, it is the cadence offset.
\<close>

theorem record_index_latest:
  assumes "memo_ok api F (st_time_dim T) heap memo" and "h < length heap"
  shows "case axis_of api F (st_time_dim T) (heap ! h) of
      Some axis \<Rightarrow>
        if in_span (unix_s a) axis
        then \<exists>i. fst (record_index api F alive h (heap ! h) T a fa memo) = Some (int i) \<and>
               latest_among (unix_s a) axis (length axis) i
        else fst (record_index api F alive h (heap ! h) T a fa memo) = record_in_file api T a fa
    | None \<Rightarrow> fst (record_index api F alive h (heap ! h) T a fa memo) = record_in_file api T a fa"
proof -
  obtain r m where r: "record_index api F alive h (heap ! h) T a fa memo = (r, m)"
    by (cases "record_index api F alive h (heap ! h) T a fa memo")
  from record_index_ok [OF assms r] have "r = record_of api F T (heap ! h) a fa" by simp
  with r show ?thesis
    using record_by_axis_Some [of "unix_s a"] record_by_axis_None [of "unix_s a"]
    by (fastforce simp: record_of_def split: option.splits)
qed

section \<open>The mixed Julian/Gregorian calendar\<close>

definition julian_next :: "int \<times> int \<times> int \<Rightarrow> int \<times> int \<times> int" where
  "julian_next dt = (case dt of (y, m, d) \<Rightarrow>
     if julian_month_len y m \<noteq> Some d then (y, m, d + 1)
     else if m < 12 then (y, m + 1, 1) else (y + 1, 1, 1))"

lemma julian_month_valid: "julian_month_len y m = Some len \<Longrightarrow> 1 \<le> m \<and> m \<le> 12"
  by (auto simp: julian_month_len_def split: if_splits)

lemma julian_days_next:
  assumes "julian_days y m d = Some n" "julian_next (y, m, d) = (y', m', d')"
  shows "julian_days y' m' d' = Some (n + 1)"
proof -
  from assms(1) obtain len where len: "julian_month_len y m = Some len" "1 \<le> y" "1 \<le> d" "d \<le> len"
    by (auto simp: julian_days_def split: option.splits if_splits)
  have n: "n = d + (153 * (m + 12 * ((14 - m) div 12) - 3) + 2) div 5 + 365 * (y + 4800 - (14 - m) div 12)
      + (y + 4800 - (14 - m) div 12) div 4 - 32083 - unix_jd"
    using assms(1) len by (simp add: julian_days_def Let_def)
  show ?thesis
  proof (cases "d = len")
    case False
    with assms(2) len have "y' = y" "m' = m" "d' = d + 1" by (auto simp: julian_next_def)
    with False n len show ?thesis by (simp add: julian_days_def Let_def)
  next
    case True
    have leap: "(y + 4800) div 4 = (y + 4799) div 4 + (if y mod 4 = 0 then 1 else 0)" by presburger
    have "m = 1 \<or> m = 2 \<or> m = 3 \<or> m = 4 \<or> m = 5 \<or> m = 6 \<or> m = 7 \<or> m = 8 \<or> m = 9 \<or> m = 10 \<or> m = 11 \<or> m = 12"
      using julian_month_valid [OF len(1)] by (simp add: twelve_cases)
    then show ?thesis
      using True n len assms(2) leap
      by (elim disjE) (simp_all add: julian_days_def julian_next_def julian_month_len_def Let_def split: if_splits)
  qed
qed

lemma last_julian_day: "julian_days 1582 10 4 = Some (- 141428)"
  by code_simp

lemma first_gregorian_day: "gregorian_days greg_api 1582 10 15 = Some (- 141427)"
  by code_simp

lemma julian_first_day: "julian_days 1 1 1 = Some (- 719164)"
  by code_simp

lemma date_le_total: "\<not> date_le a b \<Longrightarrow> date_le b a"
  by (auto simp: date_le_def split: prod.splits)

lemma later_date_later_day:
  assumes "gregorian_days greg_api y m d = Some n" "gregorian_days greg_api y' m' d' = Some n'" "n \<le> n'"
  shows "date_le (y, m, d) (y', m', d')"
proof (rule ccontr)
  assume "\<not> date_le (y, m, d) (y', m', d')"
  then have c: "y' < y \<or> (y' = y \<and> (m' < m \<or> (m' = m \<and> d' < d)))" by (auto simp: date_le_def)
  have v: "1 \<le> m" "m \<le> 12" "1 \<le> m'" "m' \<le> 12"
    using greg.day_of_valid [of y m d] greg.day_of_valid [of y' m' d'] assms by (auto simp: gregorian_days_def)
  show False
  proof (cases "12 * y' + m' < 12 * y + m")
    case True
    with greg.day_of_mono [of y' m' d' n' y m d n] assms show False by (simp add: gregorian_days_def)
  next
    case False
    with c v have "y' = y" "m' = m" "d' < d" by auto
    with greg.day_of_succ [of y m d n d' n'] assms show False by (simp add: gregorian_days_def)
  qed
qed

lemma mixed_day_next:
  assumes "cftime_days greg_api False y m d = Some n" "n < max_day greg_api"
  shows "\<exists>y' m' d'. cftime_days greg_api False y' m' d' = Some (n + 1)"
proof (cases "date_le (1582, 10, 15) (y, m, d)")
  case True
  with assms(1) have g: "day_of greg_api y m d = Some n" by (simp add: cftime_days_def gregorian_days_def)
  obtain y' m' d' where ymd: "ymd_of greg_api (n + 1) = (y', m', d')" by (cases "ymd_of greg_api (n + 1)")
  from g have "min_day greg_api \<le> n" by (simp add: greg.day_of_iff)
  then have n: "gregorian_days greg_api y' m' d' = Some (n + 1)"
    using assms(2) ymd by (simp add: gregorian_days_def greg.day_of_iff)
  have "- 141427 \<le> n"
  proof (rule ccontr)
    assume "\<not> - 141427 \<le> n"
    with later_date_later_day [of y m d n, OF _ first_gregorian_day] g
    have "date_le (y, m, d) (1582, 10, 15)" by (simp add: gregorian_days_def)
    with True have "(y, m, d) = (1582, 10, 15)" by (auto simp: date_le_def)
    with g first_gregorian_day \<open>\<not> - 141427 \<le> n\<close> show False by (simp add: gregorian_days_def)
  qed
  then have "date_le (1582, 10, 15) (y', m', d')" using later_date_later_day [OF first_gregorian_day n] by simp
  with n show ?thesis by (auto simp: cftime_days_def)
next
  case False
  with assms(1) have le: "date_le (y, m, d) (1582, 10, 4)" and j: "julian_days y m d = Some n"
    by (auto simp: cftime_days_def split: if_splits)
  show ?thesis
  proof (cases "(y, m, d) = (1582, 10, 4)")
    case True
    with j last_julian_day have "n + 1 = - 141427" by simp
    then have "cftime_days greg_api False 1582 10 15 = Some (n + 1)"
      using first_gregorian_day by (simp add: cftime_days_def date_le_def)
    then show ?thesis by blast
  next
    case ne: False
    obtain y' m' d' where nxt: "julian_next (y, m, d) = (y', m', d')" by (cases "julian_next (y, m, d)")
    have len: "julian_month_len 1582 10 = Some 31" by (simp add: julian_month_len_def)
    have "date_le (y', m', d') (1582, 10, 4)"
      using le ne nxt len by (auto simp: julian_next_def date_le_def split: if_splits)
    moreover from this have "\<not> date_le (1582, 10, 15) (y', m', d')" by (auto simp: date_le_def)
    ultimately have "cftime_days greg_api False y' m' d' = Some (n + 1)"
      using julian_days_next [OF j nxt] by (simp add: cftime_days_def)
    then show ?thesis by blast
  qed
qed

text \<open>
  cftime's mixed calendar has no gap at the reform: every day from the first day of year 1 (Julian)
  to the last day of the calendar is the day of a date, although ten dates of October 1582 are refused.
\<close>

theorem mixed_calendar_has_no_gap:
  assumes "- 719164 \<le> n" and "n \<le> max_day greg_api"
  shows "\<exists>y m d. cftime_days greg_api False y m d = Some n"
  using assms
proof (induction n rule: int_ge_induct)
  case base
  have "cftime_days greg_api False 1 1 1 = Some (- 719164)"
    using julian_first_day by (simp add: cftime_days_def date_le_def)
  then show ?case by blast
next
  case (step n)
  then obtain y m d where "cftime_days greg_api False y m d = Some n" by auto
  from mixed_day_next [OF this] step show ?case by simp
qed

theorem mixed_calendar_has_no_gap_witness:
  "\<exists>y m d. cftime_days greg_api False y m d = Some (- 141427)"
  by (rule mixed_calendar_has_no_gap) code_simp+

end
