(* ===== verification/AxisDecode.thy ===== *)
theory AxisDecode
  imports TimeAxis
begin

text \<open>
  What the decode of a time axis (theory \<open>TimeAxis\<close>) computes: the reference date of an ISO 8601
  text reads back, the units split at the last \<open>since\<close>, and an integer axis in the usual form decodes to
  the exact times.
\<close>

section \<open>ISO reference texts read back\<close>

definition pad2 :: "nat \<Rightarrow> string" where
  "pad2 n = [digit_char (n div 10), digit_char (n mod 10)]"

definition pad4 :: "nat \<Rightarrow> string" where
  "pad4 n = pad2 (n div 100) @ pad2 (n mod 100)"

definition zone_text :: "bool \<Rightarrow> nat \<Rightarrow> nat \<Rightarrow> string" where
  "zone_text west oh om = (if west then ''-'' else ''+'') @ pad2 oh @ '':'' @ pad2 om"

definition ref_text ::
    "nat \<Rightarrow> nat \<Rightarrow> nat \<Rightarrow> nat \<Rightarrow> nat \<Rightarrow> nat \<Rightarrow> bool \<Rightarrow> nat \<Rightarrow> nat \<Rightarrow> string" where
  "ref_text y m d h mi s west oh om =
     pad4 y @ ''-'' @ pad2 m @ ''-'' @ pad2 d @ ''T'' @ pad2 h @ '':'' @ pad2 mi @ '':'' @ pad2 s
       @ zone_text west oh om"

definition clock_ok :: "nat \<Rightarrow> nat \<Rightarrow> nat \<Rightarrow> nat \<Rightarrow> nat \<Rightarrow> bool" where
  "clock_ok h mi s oh om \<longleftrightarrow> h < 24 \<and> mi < 60 \<and> s < 60 \<and> oh < 24 \<and> om < 60"

definition zone_secs :: "bool \<Rightarrow> nat \<Rightarrow> nat \<Rightarrow> int" where
  "zone_secs west oh om = (if west then - 1 else 1) * (int oh * 3600 + int om * 60)"

lemma read_digit [simp]:
  "d < 10 \<Longrightarrow> read_digits_go (Suc k) v n (digit_char d # cs) = read_digits_go k (v * 10 + int d) (n + 1) cs"
  by simp

lemma two_digits: "int (n div 10) * 10 + int (n mod 10) = int n"
  by presburger

lemma four_digits:
  fixes p :: int
  shows "p * 10 + q = u \<Longrightarrow> r * 10 + t = v \<Longrightarrow> u * 100 + v = w \<Longrightarrow> ((p * 10 + q) * 10 + r) * 10 + t = w"
  by auto

lemma of_nat_mod_div_100: "int (n div 100) * 100 + int (n mod 100) = int n"
  by presburger

lemma read_digits_pad2 [simp]:
  assumes "n < 100"
  shows "read_digits 2 (pad2 n @ s) = (int n, 2, s)"
proof -
  have "n div 10 < 10" "n mod 10 < 10" using assms by auto
  then show ?thesis
    by (simp add: read_digits_def pad2_def numeral_2_eq_2 two_digits del: read_digits_go.simps(3))
qed

lemma read_digits_pad4 [simp]:
  assumes "n < 10000"
  shows "read_digits 4 (pad4 n @ s) = (int n, 4, s)"
proof -
  have d: "n div 100 div 10 < 10" "n div 100 mod 10 < 10" "n mod 100 div 10 < 10" "n mod 100 mod 10 < 10"
    using assms by (auto simp: div_mult2_eq [symmetric])
  have four: "(4::nat) = Suc (Suc (Suc (Suc 0)))" by simp
  have "((int (n div 100 div 10) * 10 + int (n div 100 mod 10)) * 10 + int (n mod 100 div 10)) * 10
      + int (n mod 100 mod 10) = int n"
    by (rule four_digits [OF two_digits two_digits of_nat_mod_div_100])
  then show ?thesis
    using d unfolding read_digits_def pad4_def pad2_def four
    by (simp del: read_digits_go.simps(3) div_mult2_eq)
qed

lemma pad2_hd: "n < 100 \<Longrightarrow> pad2 n @ s = digit_char (n div 10) # digit_char (n mod 10) # s"
  by (simp add: pad2_def)

lemma eat_same [simp]: "eat c (c # s) = Some s"
  by (simp add: eat_def)

lemma eat_other [simp]: "c \<noteq> x \<Longrightarrow> eat c (x # s) = None"
  by (simp add: eat_def)

lemma read_minutes_pad:
  "mi < 60 \<Longrightarrow> s < 60 \<Longrightarrow> c \<noteq> CHR ''.'' \<Longrightarrow>
     read_minutes (pad2 mi @ CHR '':'' # pad2 s @ c # r) = Some (int mi, int s, 0, c # r)"
  by (simp add: read_minutes_def)

lemma read_clock_pad:
  assumes "h < 24" "mi < 60" "s < 60" "c \<noteq> CHR ''.''"
  shows "read_clock (CHR ''T'' # pad2 h @ CHR '':'' # pad2 mi @ CHR '':'' # pad2 s @ c # r) =
       Some (int h, int mi, int s, 0, ClkMinutes, 1, c # r)"
proof -
  have "pad2 h @ x \<noteq> [] \<and> is_digit (hd (pad2 h @ x))" for x using assms(1) by (simp add: pad2_def)
  then show ?thesis using assms by (simp add: read_clock_def read_minutes_pad)
qed

lemma read_offset_pad:
  "oh < 24 \<Longrightarrow> om < 60 \<Longrightarrow> read_offset sign (pad2 oh @ CHR '':'' # pad2 om) =
     Some (sign * (int oh * 3600 + int om * 60), True)"
  using read_digits_pad2 [of om "[]"] by (simp add: read_offset_def)

lemma read_zone_text:
  assumes "oh < 24" "om < 60"
  shows "read_zone (zone_text west oh om) = Some (zone_secs west oh om, True)"
  using assms
  by (cases west) (simp_all add: read_zone_def zone_text_def read_offset_pad zone_secs_def Let_def
      ascii_lower_def lower_char_def is_upper_def)

lemma ascii_pad2: "n < 100 \<Longrightarrow> c \<in> set (pad2 n) \<Longrightarrow> is_digit c"
  by (auto simp: pad2_def)

lemma digit_ascii: "is_digit c \<Longrightarrow> (of_char c :: nat) < 128"
  by (simp add: is_digit_def)

lemma ascii_pads: "n < 100 \<Longrightarrow> list_all (\<lambda>c. (of_char c :: nat) < 128) (pad2 n)"
  using ascii_pad2 digit_ascii by (fastforce simp: list_all_iff)

lemma ref_text_ascii:
  assumes "y < 10000" "m < 100" "d < 100" "clock_ok h mi s oh om"
  shows "list_all (\<lambda>c. (of_char c :: nat) < 128) (ref_text y m d h mi s west oh om)"
proof -
  have "y div 100 < 100" "y mod 100 < 100" using assms(1) by auto
  then show ?thesis using assms
    by (simp add: ref_text_def zone_text_def pad4_def clock_ok_def ascii_pads)
qed

lemma parse_ref_text:
  assumes "y < 10000" "m < 100" "d < 100" "clock_ok h mi s oh om"
  shows "parse_reference (ref_text y m d h mi s west oh om) = Some
    \<lparr>rf_year = int y, rf_year_digits = 4, rf_month = int m, rf_day = int d, rf_hour = int h, rf_minute = int mi,
      rf_second = int s, rf_frac_ns = 0, rf_clock = ClkMinutes, rf_clock_gap = 1,
      rf_offset = zone_secs west oh om, rf_zone = True, rf_zone_gap = 0\<rparr>"
proof -
  obtain c r where z: "zone_text west oh om = c # r" "c \<noteq> CHR ''.''" "\<not> blank c"
    by (cases west) (auto simp: zone_text_def blank_def)
  have sp: "read_spaces (c # r) = (0, c # r)"
    using z by (simp add: read_spaces_def)
  have zone: "read_zone (c # r) = Some (zone_secs west oh om, True)"
    using assms(4) read_zone_text [of oh om west] z(1) by (simp add: clock_ok_def)
  have t: "ref_text y m d h mi s west oh om = pad4 y @ CHR ''-'' # pad2 m @ CHR ''-'' # pad2 d @ CHR ''T'' # pad2 h
      @ CHR '':'' # pad2 mi @ CHR '':'' # pad2 s @ c # r"
    by (simp add: ref_text_def z(1))
  have ascii: "list_all (\<lambda>c. (of_char c :: nat) < 128) (ref_text y m d h mi s west oh om)"
    by (rule ref_text_ascii [OF assms])
  from assms(4) have clk: "h < 24" "mi < 60" "s < 60" "oh < 24" "om < 60" by (simp_all add: clock_ok_def)
  show ?thesis
    using ascii clk assms(1,2,3) sp zone z(2) unfolding t by (simp add: parse_reference_def read_clock_pad)
qed

definition ref_instant :: "int \<Rightarrow> nat \<Rightarrow> nat \<Rightarrow> nat \<Rightarrow> bool \<Rightarrow> nat \<Rightarrow> nat \<Rightarrow> int" where
  "ref_instant days h mi s west oh om =
     (days * 86400 + (int h * 3600 + int mi * 60 + int s - zone_secs west oh om)) * ns_per_s"

text \<open>
  A reference written as an ISO 8601 date and time with an offset reads back: both readings give the
  instant it denotes, on the day the calendar gives (the reform's mixed calendar for cftime).
\<close>

theorem reference_reads_back:
  assumes "y < 10000" and "m < 100" and "d < 100" and "clock_ok h mi s oh om"
  shows "Option.bind (parse_reference (ref_text y m d h mi s west oh om)) (pandas_ns api) =
      map_option (\<lambda>days. ref_instant days h mi s west oh om) (gregorian_days api (int y) (int m) (int d)) \<and>
    Option.bind (parse_reference (ref_text y m d h mi s west oh om)) (cftime_ns api p) =
      map_option (\<lambda>days. ref_instant days h mi s west oh om) (cftime_days api p (int y) (int m) (int d))"
  by (simp add: parse_ref_text [OF assms] pandas_ns_def cftime_ns_def ref_instant_def)

theorem reference_reads_back_witness:
  "Option.bind (parse_reference ''2016-05-01T06:30:00-05:45'') (pandas_ns greg_api) =
     Some (1462104900 * ns_per_s)"
proof -
  have "ref_text 2016 5 1 6 30 0 True 5 45 = ''2016-05-01T06:30:00-05:45''" by code_simp
  with reference_reads_back [of 2016 5 1 6 30 0 5 45 True greg_api False]
  have "Option.bind (parse_reference ''2016-05-01T06:30:00-05:45'') (pandas_ns greg_api) =
      map_option (\<lambda>days. ref_instant days 6 30 0 True 5 45) (gregorian_days greg_api 2016 5 1)"
    by (simp add: clock_ok_def)
  also have "\<dots> = Some (1462104900 * ns_per_s)" by code_simp
  finally show ?thesis .
qed

section \<open>Units split at the last \<open>since\<close>\<close>

lemma find_rev_last:
  assumes "P k" "k < n" "\<And>i. P i \<Longrightarrow> i < n \<Longrightarrow> i \<le> k"
  shows "find P (rev [0..<n]) = Some k"
  using assms
proof (induction n)
  case (Suc n)
  show ?case
  proof (cases "k = n")
    case True
    with Suc.prems show ?thesis by simp
  next
    case False
    then have "\<not> P n" using Suc.prems(2) Suc.prems(3) [of n] by auto
    with False Suc show ?thesis by simp
  qed
qed simp

lemma starts_with_nth: "starts_with p s \<Longrightarrow> i < length p \<Longrightarrow> i < length s \<and> s ! i = p ! i"
  by (auto simp: starts_with_iff nth_append)

lemma split_units_simple:
  assumes u: "u \<noteq> []" "trim u = u" "CHR 0x0A \<notin> set u"
    and r: "r \<noteq> []" "trim r = r" "CHR 0x0A \<notin> set r" "CHR '' '' \<notin> set r"
  shows "split_units (u @ since @ r) = Some (u, r)"
proof -
  let ?s = "u @ since @ r"
  have last_since: "i \<le> length u" if "starts_with since (drop i ?s)" for i
  proof (rule ccontr)
    assume i: "\<not> i \<le> length u"
    have n: "6 < length (drop i ?s) \<and> drop i ?s ! 6 = CHR '' ''"
      using starts_with_nth [OF that, where i = 6] by (simp add: since_def del: drop_append)
    have "drop i S ! 6 = S ! (i + 6)" if "6 < length (drop i S)" for S :: string
      using that by (simp add: add.commute)
    with n have l: "i + 6 < length ?s" and c: "?s ! (i + 6) = CHR '' ''"
      by (auto simp del: drop_append append_assoc length_append simp: less_diff_conv add.commute)
    from i l have "?s ! (i + 6) = r ! (i + 6 - (length u + 7))" "i + 6 - (length u + 7) < length r"
      by (auto simp: nth_append)
    with c r(4) show False by (metis nth_mem)
  qed
  have "rfind_upto since ?s (length ?s) = Some (length u)"
    unfolding rfind_upto_def
  proof (rule find_rev_last)
    show "starts_with since (drop (length u) ?s) \<and> length u + length since \<le> length ?s" by simp
    show "length u < length ?s" by simp
  qed (use last_since in blast)
  moreover have "CHR 0x0A \<notin> set ?s" using u r by (simp add: since_def)
  ultimately show ?thesis
    using u r by (simp add: split_units_def split_at_since.simps [of ?s])
qed

section \<open>An integer axis decodes exactly\<close>

lemma digit_not_space: "is_digit c \<Longrightarrow> \<not> is_space c"
  by (auto simp: is_digit_def is_space_def)

lemma trim_id:
  assumes "xs \<noteq> []" "\<not> is_space (hd xs)" "\<not> is_space (last xs)"
  shows "trim xs = xs"
proof -
  have "dropWhile is_space xs = xs" using assms(1,2) by (cases xs) simp_all
  moreover have "dropWhile is_space (rev xs) = rev xs"
    using assms(1,3) by (cases xs rule: rev_cases) simp_all
  ultimately show ?thesis by (simp add: trim_def)
qed

lemma ref_text_plain:
  assumes "y < 10000" "m < 100" "d < 100" "clock_ok h mi s oh om"
  shows "trim (ref_text y m d h mi s west oh om) = ref_text y m d h mi s west oh om"
    and "CHR 0x0A \<notin> set (ref_text y m d h mi s west oh om)"
    and "CHR '' '' \<notin> set (ref_text y m d h mi s west oh om)"
    and "ref_text y m d h mi s west oh om \<noteq> []"
proof -
  have dig: "set (pad4 y) \<union> set (pad2 m) \<union> set (pad2 d) \<union> set (pad2 h) \<union> set (pad2 mi) \<union> set (pad2 s)
      \<union> set (pad2 oh) \<union> set (pad2 om) \<subseteq> Collect is_digit"
    using assms ascii_pad2 [of "y div 100"] ascii_pad2 [of "y mod 100"] ascii_pad2 [of m] ascii_pad2 [of d]
      ascii_pad2 [of h] ascii_pad2 [of mi] ascii_pad2 [of s] ascii_pad2 [of oh] ascii_pad2 [of om]
    by (auto simp: clock_ok_def pad4_def)
  have sub: "set (ref_text y m d h mi s west oh om) \<subseteq>
      Collect is_digit \<union> {CHR ''-'', CHR ''T'', CHR '':'', CHR ''+''}"
    using dig by (auto simp: ref_text_def zone_text_def)
  have "\<not> is_digit (CHR 0x0A)" "\<not> is_digit (CHR '' '')" by (simp_all add: is_digit_def)
  with sub show "CHR 0x0A \<notin> set (ref_text y m d h mi s west oh om)"
    "CHR '' '' \<notin> set (ref_text y m d h mi s west oh om)" by auto
  show ne: "ref_text y m d h mi s west oh om \<noteq> []" by (simp add: ref_text_def pad4_def pad2_def)
  have nosp: "\<not> is_space c" if "c \<in> set (ref_text y m d h mi s west oh om)" for c
    using sub that digit_not_space by (auto simp: is_space_def)
  show "trim (ref_text y m d h mi s west oh om) = ref_text y m d h mi s west oh om"
    using ne nosp by (intro trim_id) auto
qed

lemma pandas_unit_word:
  assumes "pandas_unit u = Some pf"
  shows "u \<noteq> [] \<and> trim u = u \<and> CHR 0x0A \<notin> set u \<and> ascii_lower u = u \<and> plural u = u"
  using assms
  by (auto simp: pandas_unit_def trim_def is_space_def ascii_lower_def lower_char_def is_upper_def plural_def
      split: if_splits)

lemma all_some_map: "list_all (\<lambda>x. f x = Some (g x)) xs \<Longrightarrow> all_some f xs = Some (map g xs)"
  by (induction xs) auto

lemma floor_s_exact: "in_ns64 x \<Longrightarrow> floor_s x = x div ns_per_s"
proof -
  assume "in_ns64 x"
  then have "- 9223372037 \<le> x div ns_per_s" "x div ns_per_s \<le> 9223372036"
    by (auto simp: in_ns64_def ns_per_s_def i64_min_def i64_max_def)
  then show ?thesis by (simp add: floor_s_def as_i64_small in_i64_def i64_min_def i64_max_def)
qed

text \<open>
  An integer axis in a unit pandas knows, since an ISO 8601 reference, decodes to the exact times
  \<open>reference + value * unit\<close>, floored to the second, as long as they fit 64-bit nanoseconds: no float is
  involved, whatever the float operations do.
\<close>

theorem integer_axis_decodes:
  assumes "y < 10000" and "m < 100" and "d < 100" and "clock_ok h mi s oh om"
    and unit: "pandas_unit unit = Some pf" and cal: "cal \<in> {None, Some ''standard'', Some ''gregorian''}"
    and days: "gregorian_days api (int y) (int m) (int d) = Some days"
    and ref: "ref = ref_instant days h mi s west oh om" and "in_ns64 ref"
    and fits: "list_all (\<lambda>v. in_ns64 (v * pf) \<and> in_ns64 (ref + v * pf)) axis"
  shows "decode_time_axis api F (AI64 axis) (Some (unit @ '' since '' @ ref_text y m d h mi s west oh om)) cal None =
    Some (map (\<lambda>v. (ref + v * pf) div ns_per_s) axis)"
proof -
  note u = pandas_unit_word [OF unit] and t = ref_text_plain [OF assms(1-4)]
  have split: "split_units (unit @ '' since '' @ ref_text y m d h mi s west oh om) =
      Some (unit, ref_text y m d h mi s west oh om)"
    using split_units_simple [of unit "ref_text y m d h mi s west oh om"] u t by (simp add: since_def)
  have cals: "(case cal of None \<Rightarrow> ''standard'' | Some c \<Rightarrow> ascii_lower c) \<in> {''standard'', ''gregorian''}"
    using cal by (auto simp: ascii_lower_def lower_char_def is_upper_def)
  have "all_some (pandas_value F pf ref) (map RawInt axis) = Some (map (\<lambda>v. (ref + v * pf) div ns_per_s) axis)"
    using fits by (induction axis) (simp_all add: pandas_value_def floor_s_exact)
  then have "pandas_axis api F unit
      \<lparr>rf_year = int y, rf_year_digits = 4, rf_month = int m, rf_day = int d, rf_hour = int h, rf_minute = int mi,
      rf_second = int s, rf_frac_ns = 0, rf_clock = ClkMinutes, rf_clock_gap = 1,
      rf_offset = zone_secs west oh om, rf_zone = True, rf_zone_gap = 0\<rparr> (map RawInt axis) =
      Some (map (\<lambda>v. (ref + v * pf) div ns_per_s) axis)"
    using u unit days ref \<open>in_ns64 ref\<close> by (simp add: pandas_axis_def pandas_ns_def ref_instant_def)
  moreover have "list_all (raw_ok F None) (map RawInt axis)" by (simp add: list_all_iff raw_ok_def)
  ultimately show ?thesis
    using u split cals by (auto simp: decode_time_axis_def parse_ref_text [OF assms(1-4)] Let_def)
qed

definition whole_float :: "int float_api" where
  "whole_float = \<lparr>fl_of_int = id, fl_mul = (*), fl_div = (div), fl_abs = abs, fl_ge = (\<ge>), fl_eq = (=),
     fl_finite = (\<lambda>_. True), fl_trunc = id, fl_round = id\<rparr>"

theorem integer_axis_decodes_witness:
  "decode_time_axis greg_api whole_float (AI64 [0, 6, 12]) (Some ''hours since 2000-01-31T00:00:00+00:00'') None None =
     Some [949276800, 949298400, 949320000]"
proof -
  have t: "ref_text 2000 1 31 0 0 0 False 0 0 = ''2000-01-31T00:00:00+00:00''" by code_simp
  have "decode_time_axis greg_api whole_float (AI64 [0, 6, 12])
      (Some (''hours'' @ '' since '' @ ref_text 2000 1 31 0 0 0 False 0 0)) None None =
    Some (map (\<lambda>v. (949276800000000000 + v * 3600000000000) div ns_per_s) [0, 6, 12])"
  proof (rule integer_axis_decodes)
    show "gregorian_days greg_api (int 2000) (int 1) (int 31) = Some 10987" by code_simp
    show "949276800000000000 = ref_instant 10987 0 0 0 False 0 0" by code_simp
    show "pandas_unit ''hours'' = Some 3600000000000" by code_simp
    show "list_all (\<lambda>v. in_ns64 (v * 3600000000000) \<and> in_ns64 (949276800000000000 + v * 3600000000000)) [0, 6, 12]"
      by code_simp
    show "in_ns64 949276800000000000" by code_simp
  qed (simp_all add: clock_ok_def)
  then show ?thesis unfolding t by (simp add: ns_per_s_def)
qed

section \<open>A record found by the axis\<close>

definition sample_coord :: "int coord" where
  "sample_coord = \<lparr>co_field = \<lparr>f_dtype = Int64, f_dims = [''time''], f_shape = [3], f_data = AI64 [0, 6, 12],
     f_fill = None\<rparr>, co_units = Some ''hours since 2016-01-31T06:00:00+00:00'', co_calendar = None\<rparr>"

definition sample_file :: "int dataset" where
  "sample_file = \<lparr>ds_vars = [], ds_coords = [(''time'', sample_coord)]\<rparr>"

lemma sample_axis: "axis_of greg_api whole_float ''time'' sample_file = Some [1454220000, 1454241600, 1454263200]"
  by code_simp

theorem record_index_latest_witness:
  "\<exists>i. fst (record_index greg_api whole_float (\<lambda>_. True) 0 sample_file six_hourly
         (jan31 + 21600 * ns_per_s) jan31 []) = Some (int i) \<and>
     latest_among (unix_s (jan31 + 21600 * ns_per_s)) [1454220000, 1454241600, 1454263200] 3 i"
proof -
  have "in_span (unix_s (jan31 + 21600 * ns_per_s)) [1454220000, 1454241600, 1454263200]"
    by code_simp
  with record_index_latest [of greg_api whole_float six_hourly "[sample_file]" "[]" 0 "\<lambda>_. True"
      "jan31 + 21600 * ns_per_s" jan31]
  show ?thesis by (simp add: memo_ok_def sample_axis six_hourly_def temporal_new_def eval_nat_numeral)
qed

end
