(* ===== verification/Effects.thy ===== *)
theory Effects
  imports Errors
begin

text \<open>
  Operations that change a state and can fail or panic: a function of the state whose value is
  \<open>None\<close> for a panic, else a result (\<open>Inl\<close> for \<open>Err\<close>) and the new state. \<open>bindI\<close> is \<open>?\<close>: an error
  keeps the state it was raised in.
\<close>

type_synonym ('s, 'a) io = "'s \<Rightarrow> ('a result \<times> 's) option"

definition ret :: "'a \<Rightarrow> ('s, 'a) io" where
  "ret x s = Some (Inr x, s)"

definition fail :: "error \<Rightarrow> ('s, 'a) io" where
  "fail e s = Some (Inl e, s)"

definition of_result :: "'a result \<Rightarrow> ('s, 'a) io" where
  "of_result r s = Some (r, s)"

definition or_panic :: "'a option \<Rightarrow> ('s, 'a) io" where
  "or_panic x s = map_option (\<lambda>y. (Inr y, s)) x"

definition of_checked :: "'a result option \<Rightarrow> ('s, 'a) io" where
  "of_checked x s = map_option (\<lambda>r. (r, s)) x"

definition bindI :: "('s, 'a) io \<Rightarrow> ('a \<Rightarrow> ('s, 'b) io) \<Rightarrow> ('s, 'b) io" where
  "bindI m f s =
     (case m s of
        None \<Rightarrow> None
      | Some (r, s') \<Rightarrow> (case r of Inl e \<Rightarrow> Some (Inl e, s') | Inr x \<Rightarrow> f x s'))"

text \<open>The result as a value, for the callers that look at it instead of propagating it.\<close>

definition attempt :: "('s, 'a) io \<Rightarrow> ('s, 'a result) io" where
  "attempt m s = map_option (\<lambda>(r, s'). (Inr r, s')) (m s)"

definition asks :: "('s \<Rightarrow> 'a) \<Rightarrow> ('s, 'a) io" where
  "asks f s = Some (Inr (f s), s)"

fun each :: "('a \<Rightarrow> 'b result) \<Rightarrow> 'a list \<Rightarrow> 'b list result" where
  "each f [] = Inr []"
| "each f (x # xs) = bindR (f x) (\<lambda>y. bindR (each f xs) (\<lambda>ys. Inr (y # ys)))"

text \<open>A fallible step that can also panic, over the entries of a map.\<close>

fun each_entry ::
    "(string \<Rightarrow> 'a \<Rightarrow> 'b result option) \<Rightarrow> (string \<times> 'a) list \<Rightarrow> (string \<times> 'b) list result option" where
  "each_entry f [] = Some (Inr [])"
| "each_entry f ((k, x) # xs) =
     (case f k x of
        None \<Rightarrow> None
      | Some (Inl e) \<Rightarrow> Some (Inl e)
      | Some (Inr y) \<Rightarrow> map_option (\<lambda>r. bindR r (\<lambda>ys. Inr ((k, y) # ys))) (each_entry f xs))"

named_theorems io_simps \<open>how the effects propagate\<close>

lemma io_basic [io_simps, simp]:
  "ret x s = Some (Inr x, s)" "fail e s = Some (Inl e, s)" "of_result r s = Some (r, s)"
  "or_panic None s = None" "or_panic (Some y) s = Some (Inr y, s)"
  "of_checked None s = None" "of_checked (Some r) s = Some (r, s)" "asks f s = Some (Inr (f s), s)"
  by (simp_all add: ret_def fail_def of_result_def or_panic_def of_checked_def asks_def)

lemma bindI_None [simp]: "m s = None \<Longrightarrow> bindI m f s = None"
  by (simp add: bindI_def)

lemma bindI_Inl [simp]: "m s = Some (Inl e, s') \<Longrightarrow> bindI m f s = Some (Inl e, s')"
  by (simp add: bindI_def)

lemma bindI_Inr [simp]: "m s = Some (Inr x, s') \<Longrightarrow> bindI m f s = f x s'"
  by (simp add: bindI_def)

lemma bindI_split [io_simps]:
  "bindI m f s = Some (r, t) \<longleftrightarrow>
     (\<exists>e. m s = Some (Inl e, t) \<and> r = Inl e) \<or> (\<exists>x s'. m s = Some (Inr x, s') \<and> f x s' = Some (r, t))"
  by (auto simp: bindI_def split: option.splits sum.splits prod.splits)

lemma each_Inr: "each f xs = Inr ys \<longleftrightarrow> list_all2 (\<lambda>x y. f x = Inr y) xs ys"
proof (induction xs arbitrary: ys)
  case (Cons x xs)
  then show ?case by (cases ys) (auto simp: bindR_Inr)
qed auto

end
