(* ===== verification/Readers.thy ===== *)
theory Readers
  imports Sources Cache Effects "HOL-Library.List_Lexorder" "HOL-Library.Char_ord"
begin

text \<open>
  Format readers and their registry (\<open>rust/src/format/mod.rs\<close>): what a reader offers, the defaults a
  whole-file reader inherits, and the lookup of a reader by format name.

  A reader is a record of operations over the world and the memo of the cache it is given. Its
  configuration by a source's options gives another reader, so the registry keeps it beside the reader.
\<close>

type_synonym 'r io_world = "'r world \<times> revalidator"

record record_pushdown =
  rp_dim :: string
  rp_indices :: "nat list"

record ('r, 'f) reader =
  re_formats :: "string list"
  re_store_backed :: bool
  re_supports_selection :: bool
  re_supports_records :: bool
  re_supports_direct :: bool
  re_native :: "string \<Rightarrow> string list \<Rightarrow> selection \<Rightarrow> ('r io_world, 'f dataset) io"
  re_store :: "'r cache \<Rightarrow> string \<Rightarrow> string list \<Rightarrow> selection \<Rightarrow> ('r io_world, 'f dataset) io"
  re_direct ::
    "string \<Rightarrow> string list \<Rightarrow> selection \<Rightarrow> (string \<times> string) list \<Rightarrow> ('r io_world, 'f dataset) io"
  re_shape :: "'r cache \<Rightarrow> string \<Rightarrow> string \<Rightarrow> ('r io_world, nat list option) io"
  re_shape_direct ::
    "string \<Rightarrow> string \<Rightarrow> (string \<times> string) list \<Rightarrow> ('r io_world, nat list option) io"

definition reader_name :: "string list \<Rightarrow> string" where
  "reader_name formats = (case formats of [] \<Rightarrow> ''native'' | f # fs \<Rightarrow> f)"

text \<open>The defaults of the trait, for a reader that only decodes whole blobs.\<close>

definition whole_reader ::
    "string list \<Rightarrow> (string \<Rightarrow> string list \<Rightarrow> selection \<Rightarrow> ('r io_world, 'f dataset) io) \<Rightarrow> ('r, 'f) reader" where
  "whole_reader formats native =
     \<lparr>re_formats = formats, re_store_backed = False, re_supports_selection = False,
      re_supports_records = False, re_supports_direct = False, re_native = native,
      re_store = (\<lambda>C url vars sel. fail (format_err ''native'' ''reader is not store-backed'')),
      re_direct = (\<lambda>url vars sel opts. fail (format_err ''native''
        ''reader does not support direct (uncached) store reads'')),
      re_shape = (\<lambda>C url v. ret None), re_shape_direct = (\<lambda>url v opts. ret None)\<rparr>"

definition native_records ::
    "('r, 'f) reader \<Rightarrow> string \<Rightarrow> string list \<Rightarrow> selection \<Rightarrow> record_pushdown option
      \<Rightarrow> ('r io_world, 'f dataset) io" where
  "native_records R path vars sel records =
     (case records of
        None \<Rightarrow> re_native R path vars sel
      | Some r \<Rightarrow> fail (format_err (reader_name (re_formats R))
          (''reader does not honour a `records` pushdown, but one was asked for along dimension ''
            @ sq (rp_dim r) @ ''; read the whole record axis and slice on the caller'' @ [CHR 0x27]
            @ ''s side instead'')))"

text \<open>The default of \<open>configured\<close>; \<open>dbg_list\<close> prints a list of strings as \<open>{:?}\<close> does.\<close>

definition dbg_list :: "string list \<Rightarrow> string" where
  "dbg_list xs = ''['' @ (case xs of [] \<Rightarrow> [] | y # ys \<Rightarrow> dbg_str y @ concat (map (\<lambda>z. '', '' @ dbg_str z) ys)) @ '']''"

definition no_options :: "string list \<Rightarrow> (string \<times> json) list \<Rightarrow> 'a option result" where
  "no_options formats options =
     (if options = [] then Inr None
      else Inl (format_err (reader_name formats)
        (''reader takes no reader_options, but the loader declares '' @ dbg_list (sort (map fst options)))))"

record ('r, 'f) registered =
  rg_reader :: "('r, 'f) reader"
  rg_configured :: "(string \<times> json) list \<Rightarrow> ('r, 'f) reader option result"

type_synonym ('r, 'f) format_registry = "(string \<times> ('r, 'f) registered) list"

definition registry_new :: "('r, 'f) format_registry" where
  "registry_new = []"

definition register :: "('r, 'f) registered \<Rightarrow> ('r, 'f) format_registry \<Rightarrow> ('r, 'f) format_registry" where
  "register g reg = fold (\<lambda>name. al_put name g) (re_formats (rg_reader g)) reg"

definition registry_get :: "('r, 'f) format_registry \<Rightarrow> string \<Rightarrow> ('r, 'f) registered option" where
  "registry_get reg name = map_of reg name"

definition registered_names :: "('r, 'f) format_registry \<Rightarrow> string list" where
  "registered_names reg = map fst reg"

lemma register_fold: "map_of (fold (\<lambda>name. al_put name g) names reg) name =
    (if name \<in> set names then Some g else map_of reg name)"
  by (induction names arbitrary: reg) auto

lemma registry_get_register:
  "registry_get (register g reg) name =
     (if name \<in> set (re_formats (rg_reader g)) then Some g else registry_get reg name)"
  by (simp add: registry_get_def register_def register_fold)

end
