(* ===== verification/Provider.thy ===== *)
theory Provider
  imports Readers TimeAxis
begin

text \<open>
  The provider (\<open>rust/src/provider.rs\<close>, second part): a source bound to a cache, a run window and a
  reader, its decoded-file sources, the sampling path they share, and the operations of its buffer.

  A decoded file (an \<open>Arc\<close>) is an allocation: an index of the heap of datasets. The state of a run
  is the world with the cache's memo, the heap and the provider's memo of decoded axes (behind a
  \<open>Mutex\<close> in the code); a file source adds its own state in front. What comes from outside the
  repository is the record \<open>platform\<close>: the calendar, the float operations, the time crate's URL
  format descriptions and its text of an instant, and which allocations are alive when the axis memo is
  pruned.
\<close>

record 'f platform =
  pl_cal :: civil_api
  pl_float :: "'f float_api"
  pl_show :: "instant \<Rightarrow> string"
  pl_tf_parse :: "string \<Rightarrow> string option"
  pl_tf_format :: "string \<Rightarrow> instant \<Rightarrow> string + string"
  pl_alive :: "nat \<Rightarrow> nat \<Rightarrow> bool"
  pl_host :: host

record ('r, 'f) run =
  rn_io :: "'r io_world"
  rn_heap :: "'f dataset list"
  rn_memo :: axis_memo

type_synonym window = "instant \<times> instant"

record ('r, 'f) provider =
  pv_loader :: data_source
  pv_cache :: "'r cache"
  pv_window :: "window option"
  pv_reader :: "('r, 'f) reader"
  pv_buffers :: "(string \<times> 'f field) list"
  pv_coords :: "(string \<times> 'f coord) list"
  pv_current :: "instant option"
  pv_files :: "(instant \<times> nat) list"
  pv_access :: store_access

section \<open>Building a provider\<close>

definition checked_templates ::
    "'f platform \<Rightarrow> data_source \<Rightarrow> unit result" where
  "checked_templates P L =
     (case so_substitutions L of
        None \<Rightarrow> Inr ()
      | Some subs \<Rightarrow>
          bindR (each (\<lambda>t. map_sum template_to_error id (check_esm_template (pl_cal P) t subs))
            (so_url_template L # so_mirrors L)) (\<lambda>_. Inr ()))"

definition no_direct_err :: "data_source \<Rightarrow> error" where
  "no_direct_err L =
     format_err (so_format L)
       (''loader '' @ sq (so_name L) @ '' asked for uncached (direct) store reads, but the ''
         @ sq (so_format L) @ '' reader has no direct path in this build ''
         @ map char_of [226::nat, 128, 148]
         @ '' rebuild earthsciio with the `object-store` feature, or use StoreAccess::Cached'')"

definition with_formats ::
    "'f platform \<Rightarrow> data_source \<Rightarrow> 'r cache \<Rightarrow> window option \<Rightarrow> ('r, 'f) format_registry
      \<Rightarrow> ('r, 'f) provider result" where
  "with_formats P L C w formats =
     bindR (ok_or (UnknownFormat (so_format L)) (registry_get formats (so_format L))) (\<lambda>g.
     bindR (rg_configured g (so_reader_options L)) (\<lambda>cfg.
       let R = (case cfg of Some r \<Rightarrow> r | None \<Rightarrow> rg_reader g) in
       bindR (case so_temporal L of Some T \<Rightarrow> check_periods T | None \<Rightarrow> Inr ()) (\<lambda>_.
       bindR (checked_templates P L) (\<lambda>_.
         let acc = (case so_store_access L of Some a \<Rightarrow> a | None \<Rightarrow> access_from_env (h_env (pl_host P))) in
         if acc = Direct \<and> re_store_backed R \<and> \<not> re_supports_direct R then Inl (no_direct_err L)
         else Inr \<lparr>pv_loader = L, pv_cache = C, pv_window = w, pv_reader = R, pv_buffers = [], pv_coords = [],
                   pv_current = None, pv_files = [], pv_access = acc\<rparr>))))"

section \<open>Locating and reading a file\<close>

definition resolve_url :: "'f platform \<Rightarrow> data_source \<Rightarrow> instant \<Rightarrow> string result" where
  "resolve_url P L a =
     (case so_substitutions L of
        Some subs \<Rightarrow>
          map_sum template_to_error id (expand_esm_template (pl_cal P) (so_url_template L) (Some a) subs)
      | None \<Rightarrow>
          (let tmpl = so_url_template L in
           if CHR ''['' \<notin> set tmpl \<or> starts_with ''cds://'' tmpl then Inr tmpl
           else
             (case pl_tf_parse P tmpl of
                Some e \<Rightarrow> Inl (BadUrl tmpl (''invalid url_template: '' @ e))
              | None \<Rightarrow>
                  (case pl_tf_format P tmpl a of
                     Inl e \<Rightarrow> Inl (BadUrl tmpl (''formatting url_template at '' @ pl_show P a @ '': '' @ e))
                   | Inr url \<Rightarrow> Inr url))))"

definition resolve_file :: "'f platform \<Rightarrow> data_source \<Rightarrow> instant \<Rightarrow> file_ref result" where
  "resolve_file P L a =
     bindR (resolve_url P L a) (\<lambda>url.
     bindR (case so_substitutions L of
              Some subs \<Rightarrow>
                each (\<lambda>m. map_sum template_to_error id (expand_esm_template (pl_cal P) m (Some a) subs))
                  (so_mirrors L)
            | None \<Rightarrow> Inr (so_mirrors L)) (\<lambda>ms.
       Inr \<lparr>fr_url = url, fr_mirrors = ms\<rparr>))"

definition file_request :: "data_source \<Rightarrow> file_ref \<Rightarrow> fetch_request" where
  "file_request L file =
     (request (fr_url file))\<lparr>rq_loader := Some (so_name L), rq_mirrors := fr_mirrors file,
        rq_auth_realm := so_auth_realm L\<rparr>"

definition fetch_blob ::
    "'f platform \<Rightarrow> ('r, 'f) provider \<Rightarrow> file_ref \<Rightarrow> ('r io_world, cached_blob) io" where
  "fetch_blob P pv file st = Some (fetch (pl_host P) (pv_cache pv) (file_request (pv_loader pv) file) st)"

definition no_select_err :: "data_source \<Rightarrow> error" where
  "no_select_err L =
     format_err (so_format L)
       (''reader for format '' @ sq (so_format L) @ '' does not support select/pushdown'')"

definition read_file ::
    "'f platform \<Rightarrow> ('r, 'f) provider \<Rightarrow> file_ref \<Rightarrow> selection \<Rightarrow> ('r io_world, 'f dataset) io" where
  "read_file P pv file sel =
     (let L = pv_loader pv; R = pv_reader pv in
      if re_store_backed R then
        (case pv_access pv of
           Direct \<Rightarrow> re_direct R (fr_url file) (so_variables L) sel (so_store_options L)
         | Cached \<Rightarrow> re_store R (pv_cache pv) (fr_url file) (so_variables L) sel)
      else if sel \<noteq> SelAll \<and> \<not> re_supports_selection R then fail (no_select_err L)
      else bindI (fetch_blob P pv file) (\<lambda>blob. re_native R (cb_path blob) (so_variables L) sel))"

definition read_file_at ::
    "'f platform \<Rightarrow> ('r, 'f) provider \<Rightarrow> instant \<Rightarrow> selection \<Rightarrow> ('r io_world, 'f dataset) io" where
  "read_file_at P pv fa sel =
     bindI (of_result (resolve_file P (pv_loader pv) fa)) (\<lambda>file. read_file P pv file sel)"

definition array_shape ::
    "'f platform \<Rightarrow> ('r, 'f) provider \<Rightarrow> string \<Rightarrow> ('r io_world, nat list option) io" where
  "array_shape P pv v =
     (let L = pv_loader pv; R = pv_reader pv in
      if \<not> re_store_backed R then ret None
      else
        bindI (of_result (resolve_url P L (case so_temporal L of None \<Rightarrow> 0 | Some T \<Rightarrow> st_start T))) (\<lambda>url.
          case pv_access pv of
            Direct \<Rightarrow> re_shape_direct R url v (so_store_options L)
          | Cached \<Rightarrow> re_shape R (pv_cache pv) url v))"

section \<open>File sources\<close>

text \<open>An operation on the world, run inside a run of a file source with state \<open>'q\<close>.\<close>

definition on_io :: "('r io_world, 'a) io \<Rightarrow> ('q \<times> ('r, 'f) run, 'a) io" where
  "on_io m = (\<lambda>(q, rn). map_option (\<lambda>(r, w). (r, (q, rn\<lparr>rn_io := w\<rparr>))) (m (rn_io rn)))"

definition alloc :: "'f dataset \<Rightarrow> ('q \<times> ('r, 'f) run, nat) io" where
  "alloc ds = (\<lambda>(q, rn). Some (Inr (length (rn_heap rn)), (q, rn\<lparr>rn_heap := rn_heap rn @ [ds]\<rparr>)))"

definition deref :: "nat \<Rightarrow> ('q \<times> ('r, 'f) run, 'f dataset) io" where
  "deref h = asks (\<lambda>(q, rn). rn_heap rn ! h)"

type_synonym ('q, 'r, 'f) file_source =
  "('r, 'f) provider \<Rightarrow> instant \<Rightarrow> selection \<Rightarrow> ('q \<times> ('r, 'f) run, nat) io"

definition fresh_files :: "'f platform \<Rightarrow> ('q, 'r, 'f) file_source" where
  "fresh_files P pv fa sel = bindI (on_io (read_file_at P pv fa sel)) alloc"

definition evict :: "nat \<Rightarrow> 'a list \<Rightarrow> 'a list" where
  "evict cap xs = drop (length xs - cap) xs"

definition lru_files :: "'f platform \<Rightarrow> nat \<Rightarrow> ((instant \<times> nat) list, 'r, 'f) file_source" where
  "lru_files P cap pv fa sel =
     (\<lambda>(files, rn).
        case position (\<lambda>(a, h). a = fa) files of
          Some pos \<Rightarrow>
            (let entry = files ! pos in
             Some (Inr (snd entry), (take pos files @ drop (pos + 1) files @ [entry], rn)))
        | None \<Rightarrow>
            bindI (bindI (on_io (read_file_at P pv fa sel)) alloc)
              (\<lambda>h (q, rn'). Some (Inr h, (evict cap (q @ [(fa, h)]), rn'))) (files, rn))"

section \<open>Slicing a record\<close>

definition leads_with :: "string \<Rightarrow> 'f field \<Rightarrow> bool" where
  "leads_with dim f \<longleftrightarrow> f_dims f \<noteq> [] \<and> hd (f_dims f) = dim"

definition slice_record_buffers ::
    "'f dataset \<Rightarrow> string \<Rightarrow> nat \<Rightarrow> (string \<times> 'f field) list result option" where
  "slice_record_buffers ds dim r =
     each_entry (\<lambda>name f. if leads_with dim f then select_leading r f else Some (Inr f)) (ds_vars ds)"

definition dim_len :: "string \<Rightarrow> 'f field \<Rightarrow> nat option" where
  "dim_len dim f = map_option (\<lambda>i. f_shape f ! i) (position (\<lambda>d. d = dim) (f_dims f))"

fun find_map :: "('a \<Rightarrow> 'b option) \<Rightarrow> 'a list \<Rightarrow> 'b option" where
  "find_map f [] = None"
| "find_map f (x # xs) = (case f x of Some y \<Rightarrow> Some y | None \<Rightarrow> find_map f xs)"

definition time_len :: "'f dataset \<Rightarrow> string \<Rightarrow> nat" where
  "time_len ds dim =
     (case Option.bind (map_of (ds_coords ds) dim) (\<lambda>c. dim_len dim (co_field c)) of
        Some n \<Rightarrow> n
      | None \<Rightarrow>
          (case find_map (dim_len dim) (map snd (ds_vars ds)) of Some n \<Rightarrow> n | None \<Rightarrow> 0))"

fun concat_array :: "'f array_data \<Rightarrow> 'f array_data \<Rightarrow> 'f array_data result" where
  "concat_array (AF64 x) (AF64 y) = Inr (AF64 (x @ y))"
| "concat_array (AI64 x) (AI64 y) = Inr (AI64 (x @ y))"
| "concat_array (AI32 x) (AI32 y) = Inr (AI32 (x @ y))"
| "concat_array (AStr x) (AStr y) = Inr (AStr (x @ y))"
| "concat_array (ABool x) (ABool y) = Inr (ABool (x @ y))"
| "concat_array _ _ = Inl (format_err ''native'' ''cannot stack bracket records of differing dtypes'')"

definition stack_two_records :: "'f field \<Rightarrow> nat \<Rightarrow> 'f field \<Rightarrow> nat \<Rightarrow> 'f field result option" where
  "stack_two_records f0 r0 f1 r1 =
     (case select_leading r0 f0 of
        None \<Rightarrow> None
      | Some (Inl e) \<Rightarrow> Some (Inl e)
      | Some (Inr a) \<Rightarrow>
          map_option (\<lambda>rb. bindR rb (\<lambda>b. bindR (concat_array (f_data a) (f_data b)) (\<lambda>d.
             Inr \<lparr>f_dtype = f_dtype f0, f_dims = hd (f_dims f0) # f_dims a, f_shape = 2 # f_shape a,
                  f_data = d, f_fill = f_fill f0\<rparr>)))
            (select_leading r1 f1))"

section \<open>Sampling\<close>

definition valid_cadence :: "data_source \<Rightarrow> cadence option result" where
  "valid_cadence L =
     (case so_temporal L of
        None \<Rightarrow> Inr None
      | Some T \<Rightarrow>
          bindR (check_periods T) (\<lambda>_.
            if st_records T \<in> {None, Some 1, Some 2} then Inr (Some \<lparr>cd_temporal = T\<rparr>)
            else Inl (format_err (so_format L)
              (''records_per_sample must be 1 or 2, got '' @ show_nat (the (st_records T))))))"

text \<open>The record of anchor \<open>a\<close> in the file \<open>h\<close>, through the axis memo of the run.\<close>

definition record_at ::
    "'f platform \<Rightarrow> source_temporal \<Rightarrow> nat \<Rightarrow> instant \<Rightarrow> instant \<Rightarrow> ('q \<times> ('r, 'f) run, nat) io" where
  "record_at P T h a fa =
     (\<lambda>(q, rn).
        case record_index (pl_cal P) (pl_float P) (pl_alive P (length (rn_heap rn))) h (rn_heap rn ! h)
               T a fa (rn_memo rn) of
          (r, memo) \<Rightarrow>
            map_option (\<lambda>i. (file_record (pl_show P) i fa, (q, rn\<lparr>rn_memo := memo\<rparr>))) r)"

text \<open>The successor of a bracket: its file and record, if there is a reachable one.\<close>

definition successor ::
    "'f platform \<Rightarrow> ('r, 'f) provider \<Rightarrow> source_temporal \<Rightarrow> instant \<Rightarrow> instant \<Rightarrow> nat \<Rightarrow> selection
      \<Rightarrow> ('q, 'r, 'f) file_source \<Rightarrow> ('q \<times> ('r, 'f) run, (nat \<times> nat) option) io" where
  "successor P pv T nxt fa0 h0 sel files =
     (if (case st_end T of None \<Rightarrow> True | Some e \<Rightarrow> nxt < e) then
        bindI (or_panic (file_anchor (pl_cal P) T nxt)) (\<lambda>fa1.
        bindI (if fa1 = fa0 then ret (Inr h0) else attempt (files pv fa1 sel)) (\<lambda>got.
          case got of
            Inl e \<Rightarrow> ret None
          | Inr h1 \<Rightarrow>
              bindI (attempt (record_at P T h1 nxt fa1)) (\<lambda>rr.
                case rr of
                  Inl e \<Rightarrow> ret None
                | Inr r1 \<Rightarrow>
                    bindI (deref h1) (\<lambda>ds1.
                      ret (if r1 < time_len ds1 (st_time_dim T) then Some (h1, r1) else None)))))
      else ret None)"

definition stack_buffers ::
    "'f dataset \<Rightarrow> nat \<Rightarrow> 'f dataset \<Rightarrow> nat \<Rightarrow> string \<Rightarrow> (string \<times> 'f field) list result option" where
  "stack_buffers ds0 r0 ds1 r1 dim =
     each_entry
       (\<lambda>name f.
          if leads_with dim f
          then stack_two_records f r0 (case map_of (ds_vars ds1) name of Some g \<Rightarrow> g | None \<Rightarrow> f) r1
          else Some (Inr f))
       (ds_vars ds0)"

definition bracket_coord :: "'f platform \<Rightarrow> string \<Rightarrow> int \<Rightarrow> int \<Rightarrow> 'f coord" where
  "bracket_coord P dim t0 t1 =
     \<lparr>co_field = \<lparr>f_dtype = Float64, f_dims = [dim], f_shape = [2],
        f_data = AF64 [fl_of_int (pl_float P) t0, fl_of_int (pl_float P) t1], f_fill = None\<rparr>,
      co_units = Some ''seconds since 1970-01-01T00:00:00Z'', co_calendar = Some ''standard''\<rparr>"

definition sample_bracket ::
    "'f platform \<Rightarrow> ('r, 'f) provider \<Rightarrow> cadence \<Rightarrow> instant \<Rightarrow> selection \<Rightarrow> ('q, 'r, 'f) file_source
      \<Rightarrow> ('q \<times> ('r, 'f) run, 'f dataset) io" where
  "sample_bracket P pv c a sel files =
     (let T = cd_temporal c; dim = st_time_dim T in
      bindI (or_panic (file_anchor (pl_cal P) T a)) (\<lambda>fa0.
      bindI (files pv fa0 sel) (\<lambda>h0.
      bindI (record_at P T h0 a fa0) (\<lambda>r0.
      bindI (or_panic (next_record_anchor (pl_cal P) T a)) (\<lambda>nxt.
      bindI (successor P pv T nxt fa0 h0 sel files) (\<lambda>succ.
        let (h1, r1, t1) = (case succ of Some (h, r) \<Rightarrow> (h, r, nxt) | None \<Rightarrow> (h0, r0, a)) in
        bindI (deref h0) (\<lambda>ds0.
        bindI (deref h1) (\<lambda>ds1.
        bindI (of_checked (stack_buffers ds0 r0 ds1 r1 dim)) (\<lambda>vars.
          ret \<lparr>ds_vars = vars,
               ds_coords = al_put dim (bracket_coord P dim (unix_s a) (unix_s t1)) (ds_coords ds0)\<rparr>)))))))))"

definition sample_anchor ::
    "'f platform \<Rightarrow> ('r, 'f) provider \<Rightarrow> cadence \<Rightarrow> instant \<Rightarrow> selection \<Rightarrow> ('q, 'r, 'f) file_source
      \<Rightarrow> ('q \<times> ('r, 'f) run, 'f dataset) io" where
  "sample_anchor P pv c a sel files =
     (if cadence_bracket c then sample_bracket P pv c a sel files
      else
        (let T = cd_temporal c in
         bindI (or_panic (file_anchor (pl_cal P) T a)) (\<lambda>fa.
         bindI (files pv fa sel) (\<lambda>h.
         bindI (record_at P T h a fa) (\<lambda>r.
         bindI (deref h) (\<lambda>ds.
         bindI (of_checked (slice_record_buffers ds (st_time_dim T) r)) (\<lambda>vars.
           ret \<lparr>ds_vars = vars, ds_coords = ds_coords ds\<rparr>)))))))"

definition sample_from ::
    "'f platform \<Rightarrow> ('r, 'f) provider \<Rightarrow> instant \<Rightarrow> selection \<Rightarrow> ('q, 'r, 'f) file_source
      \<Rightarrow> ('q \<times> ('r, 'f) run, 'f dataset) io" where
  "sample_from P pv t sel files =
     bindI (of_result (valid_cadence (pv_loader pv))) (\<lambda>cad.
       case cad of
         None \<Rightarrow> bindI (files pv 0 sel) deref
       | Some c \<Rightarrow>
           bindI (or_panic (cadence_snap (pl_cal P) c t)) (\<lambda>a. sample_anchor P pv c a sel files))"

definition sample_at ::
    "'f platform \<Rightarrow> ('r, 'f) provider \<Rightarrow> instant \<Rightarrow> (unit \<times> ('r, 'f) run, 'f dataset) io" where
  "sample_at P pv t = sample_from P pv t (so_select (pv_loader pv)) (fresh_files P)"

section \<open>The buffer\<close>

text \<open>An operation of the provider that does not change it.\<close>

definition shared :: "(unit \<times> ('r, 'f) run, 'a) io \<Rightarrow> (('r, 'f) provider \<times> ('r, 'f) run, 'a) io" where
  "shared m = (\<lambda>(pv, rn). map_option (\<lambda>(r, (u, rn')). (r, (pv, rn'))) (m ((), rn)))"

definition refresh_anchor ::
    "'f platform \<Rightarrow> cadence \<Rightarrow> instant
      \<Rightarrow> (('r, 'f) provider \<times> ('r, 'f) run, (string \<times> 'f field) list option) io" where
  "refresh_anchor P c a =
     (\<lambda>(pv, rn).
        if pv_current pv = Some a then Some (Inr None, (pv, rn))
        else
          (case sample_anchor P (pv\<lparr>pv_files := []\<rparr>) c a (so_select (pv_loader pv))
                  (lru_files P (if cadence_bracket c then 2 else 1)) (pv_files pv, rn) of
             None \<Rightarrow> None
           | Some (r, (files, rn')) \<Rightarrow>
               (case r of
                  Inl e \<Rightarrow> Some (Inl e, (pv\<lparr>pv_files := files\<rparr>, rn'))
                | Inr ds \<Rightarrow>
                    Some (Inr (Some (ds_vars ds)),
                      (pv\<lparr>pv_files := files, pv_coords := ds_coords ds, pv_buffers := ds_vars ds,
                          pv_current := Some a\<rparr>, rn')))))"

definition refresh_with_select ::
    "'f platform \<Rightarrow> instant \<Rightarrow> selection option
      \<Rightarrow> (('r, 'f) provider \<times> ('r, 'f) run, (string \<times> 'f field) list option) io" where
  "refresh_with_select P t sel =
     (\<lambda>(pv, rn).
        let L = pv_loader pv in
        if sel \<noteq> None \<and> \<not> re_supports_selection (pv_reader pv) then fail (no_select_err L) (pv, rn)
        else
          bindI (of_result (valid_cadence L)) (\<lambda>cad.
            case cad of
              None \<Rightarrow> ret None
            | Some c \<Rightarrow>
                bindI (or_panic (cadence_snap (pl_cal P) c t)) (\<lambda>a.
                  case sel of
                    Some s \<Rightarrow>
                      bindI (shared (sample_anchor P pv c a s (fresh_files P))) (\<lambda>ds. ret (Some (ds_vars ds)))
                  | None \<Rightarrow> refresh_anchor P c a)) (pv, rn))"

definition refresh ::
    "'f platform \<Rightarrow> instant \<Rightarrow> (('r, 'f) provider \<times> ('r, 'f) run, (string \<times> 'f field) list option) io" where
  "refresh P t = refresh_with_select P t None"

definition lower_bound :: "window option \<Rightarrow> source_temporal \<Rightarrow> instant" where
  "lower_bound w T = (case w of Some (a, b) \<Rightarrow> if a > st_start T then a else st_start T | None \<Rightarrow> st_start T)"

definition materialize_with_select ::
    "'f platform \<Rightarrow> selection option
      \<Rightarrow> (('r, 'f) provider \<times> ('r, 'f) run, (string \<times> 'f field) list) io" where
  "materialize_with_select P sel =
     (\<lambda>(pv, rn).
        let L = pv_loader pv in
        if sel \<noteq> None \<and> \<not> re_supports_selection (pv_reader pv) then fail (no_select_err L) (pv, rn)
        else
          (case so_temporal L of
             None \<Rightarrow>
               bindI (bindI (of_result (resolve_file P L 0)) (\<lambda>file.
                   on_io (read_file P pv file (case sel of Some s \<Rightarrow> s | None \<Rightarrow> so_select L))))
                 (\<lambda>ds (pv, rn).
                    if sel = None
                    then Some (Inr (ds_vars ds), (pv\<lparr>pv_coords := ds_coords ds, pv_buffers := ds_vars ds\<rparr>, rn))
                    else Some (Inr (ds_vars ds), (pv, rn))) (pv, rn)
           | Some T \<Rightarrow>
               bindI (refresh_with_select P (lower_bound (pv_window pv) T) sel)
                 (\<lambda>got (pv, rn).
                    Some (Inr (case got of Some b \<Rightarrow> b | None \<Rightarrow> pv_buffers pv), (pv, rn))) (pv, rn)))"

definition materialize ::
    "'f platform \<Rightarrow> (('r, 'f) provider \<times> ('r, 'f) run, (string \<times> 'f field) list) io" where
  "materialize P = materialize_with_select P None"

end
