(* ===== verification/Gathering.thy ===== *)
theory Gathering
  imports Arrays
begin

text \<open>
  The odometer loop of \<open>gather\<close> computes its specification, gathers compose, and taking a record
  of the leading dimension is a gather: what makes a window sliced out of a union read the window's
  own read.
\<close>

section \<open>Strides and offsets\<close>

lemma prod_drop: "i < length shape \<Longrightarrow> prod_list (drop i shape) = shape ! i * prod_list (drop (Suc i) shape)"
  by (simp add: Cons_nth_drop_Suc [symmetric])

lemma length_src_strides: "length (fold (\<lambda>i s. s[i := s ! (i + 1) * shape ! (i + 1)]) is s) = length s"
  by (induction "is" arbitrary: s) simp_all

lemma src_strides_width:
  assumes "m < length shape"
  shows "let s = fold (\<lambda>i s. s[i := s ! (i + 1) * shape ! (i + 1)]) (rev [length shape - 1 - m..<length shape - 1])
      (replicate (length shape) 1)
    in length s = length shape \<and> (\<forall>i. length shape - 1 - m \<le> i \<longrightarrow> i < length shape \<longrightarrow> s ! i = width shape (Suc i))"
  using assms
proof (induction m)
  case 0
  then show ?case by (auto simp: width_def)
next
  case (Suc m)
  let ?j = "length shape - 1 - Suc m" and ?l = "length shape"
  let ?f = "\<lambda>i s. s[i := s ! (i + 1) * shape ! (i + 1)]"
  let ?s = "fold ?f (rev [?l - 1 - m..<?l - 1]) (replicate ?l 1)"
  have j: "?l - 1 - m = Suc ?j" "Suc ?j < ?l" using Suc.prems by auto
  then have "rev [?j..<?l - 1] = rev [Suc ?j..<?l - 1] @ [?j]" by (simp add: upt_conv_Cons)
  then have e: "fold ?f (rev [?j..<?l - 1]) (replicate ?l 1) = ?s[?j := ?s ! Suc ?j * shape ! Suc ?j]"
    using j(1) by simp
  from Suc have IH: "length ?s = ?l" "\<forall>i. Suc ?j \<le> i \<longrightarrow> i < ?l \<longrightarrow> ?s ! i = width shape (Suc i)"
    unfolding Let_def using j(1) by auto
  have "?s ! Suc ?j * shape ! Suc ?j = width shape (Suc ?j)"
    using IH(2) j(2) by (simp add: width_def prod_drop)
  with IH j show ?case
    unfolding Let_def e by (auto simp: nth_list_update)
qed

lemma length_strides [simp]: "length (src_strides shape) = length shape"
  unfolding src_strides_def length_src_strides by simp

lemma nth_strides: "i < length shape \<Longrightarrow> src_strides shape ! i = width shape (Suc i)"
  using src_strides_width [of "length shape - 1" shape] by (simp add: src_strides_def Let_def)

lemma position_sum:
  "in_shape shape idx \<Longrightarrow> position_of shape idx = (\<Sum>i<length idx. idx ! i * width shape (Suc i))"
proof (induction rule: in_shape_induct)
  case (Cons n ns k ks)
  then show ?case
    by (simp add: sum.lessThan_Suc_shift width_def del: sum.lessThan_Suc)
qed simp

lemma fold_offset:
  "m \<le> length strides \<Longrightarrow>
   fold (\<lambda>ax off. Option.bind off (\<lambda>o'.
       if ax < length strides then Some (o' + picks ! ax ! (idx ! ax) * strides ! ax) else None)) [0..<m] (Some 0)
   = Some (\<Sum>i<m. picks ! i ! (idx ! i) * strides ! i)"
  by (induction m) simp_all

text \<open>The cell of the picks an output index names.\<close>

definition picked :: "nat list list \<Rightarrow> nat list \<Rightarrow> nat list" where
  "picked picks idx = map2 (!) picks idx"

lemma picked_in_shape:
  "picks_fit shape picks \<Longrightarrow> in_shape (map length picks) idx \<Longrightarrow> in_shape shape (picked picks idx)"
  by (auto simp: picks_fit_def in_shape_def picked_def)

lemma cell_offset_position:
  assumes "picks_fit shape picks" "in_shape (map length picks) idx"
  shows "cell_offset picks (src_strides shape) idx = Some (position_of shape (picked picks idx))"
proof -
  have l: "length idx = length shape" "length picks = length shape"
    using assms by (auto simp: picks_fit_def in_shape_def)
  have "(\<Sum>i<length shape. picks ! i ! (idx ! i) * src_strides shape ! i) = position_of shape (picked picks idx)"
    unfolding position_sum [OF picked_in_shape [OF assms]]
    by (rule sum.cong) (simp_all add: l picked_def nth_strides)
  with fold_offset [of "length idx" "src_strides shape" picks idx] show ?thesis
    unfolding cell_offset_def by (simp add: l)
qed

section \<open>The odometer\<close>

lemma sum_update:
  "ax < length idx \<Longrightarrow> (\<Sum>i<length idx. idx[ax := v] ! i * (w i :: nat)) + idx ! ax * w ax =
     (\<Sum>i<length idx. idx ! i * w i) + v * w ax"
proof -
  assume ax: "ax < length idx"
  have "(\<Sum>i<length idx. idx[ax := v] ! i * w i) = v * w ax + (\<Sum>i\<in>{..<length idx} - {ax}. idx[ax := v] ! i * w i)"
    using ax by (subst sum.remove [of _ ax]) auto
  also have "(\<Sum>i\<in>{..<length idx} - {ax}. idx[ax := v] ! i * w i) = (\<Sum>i\<in>{..<length idx} - {ax}. idx ! i * w i)"
    by (rule sum.cong) (auto simp: nth_list_update)
  finally show ?thesis using ax by (subst (2) sum.remove [of _ ax]) auto
qed

lemma bump_next:
  assumes "in_shape shape idx" "ax \<le> length shape" "\<forall>i. ax \<le> i \<longrightarrow> i < length shape \<longrightarrow> idx ! i = 0"
    and "position_of shape idx + width shape ax < prod_list shape"
  shows "in_shape shape (bump shape idx ax) \<and>
    position_of shape (bump shape idx ax) = position_of shape idx + width shape ax"
  using assms
proof (induction ax arbitrary: idx)
  case 0
  then show ?case by (simp add: width_def)
next
  case (Suc ax)
  have l: "length idx = length shape" "ax < length shape" using Suc.prems by (auto simp: in_shape_def)
  let ?pos = "\<lambda>idx. \<Sum>i<length idx. idx ! i * width shape (Suc i)"
  have upd: "?pos (idx[ax := v]) + idx ! ax * width shape (Suc ax) = ?pos idx + v * width shape (Suc ax)" for v
    using sum_update [of ax idx v "\<lambda>i. width shape (Suc i)"] l by simp
  show ?case
  proof (cases "Suc (idx ! ax) < shape ! ax")
    case True
    have "in_shape shape (idx[ax := Suc (idx ! ax)])"
      using Suc.prems(1) True l by (auto simp: in_shape_def nth_list_update)
    moreover have "?pos (idx[ax := Suc (idx ! ax)]) = ?pos idx + width shape (Suc ax)"
      using upd [of "Suc (idx ! ax)"] by simp
    ultimately show ?thesis using True l Suc.prems(1) by (simp add: position_sum)
  next
    case False
    let ?idx = "idx[ax := 0]"
    have full: "Suc (idx ! ax) = shape ! ax" using False Suc.prems(1) l(2) by (metis Suc_lessI in_shape_def)
    have "0 < shape ! ax" using full by simp
    then have ok: "in_shape shape ?idx" using Suc.prems(1) l by (auto simp: in_shape_def nth_list_update)
    have pos: "position_of shape ?idx + width shape ax = position_of shape idx + width shape (Suc ax)"
      using upd [of 0] Suc.prems(1) ok l full
      by (simp add: position_sum width_def prod_drop [of ax shape] full [symmetric])
    have "bump shape idx (Suc ax) = bump shape ?idx ax" using False l by simp
    moreover have "\<forall>i. ax \<le> i \<longrightarrow> i < length shape \<longrightarrow> ?idx ! i = 0"
      using Suc.prems(3) l by (auto simp: nth_list_update not_less_eq_eq le_Suc_eq)
    ultimately show ?thesis using Suc.IH [OF ok] l pos Suc.prems(4) by simp
  qed
qed

lemma bump_step:
  assumes "in_shape shape idx" "Suc (position_of shape idx) < prod_list shape"
  shows "in_shape shape (bump shape idx (length idx))"
    and "position_of shape (bump shape idx (length idx)) = Suc (position_of shape idx)"
  using bump_next [of shape idx "length shape"] assms by (simp_all add: in_shape_def width_def)

lemma gather_loop_spec:
  assumes fit: "picks_fit shape picks" and flat: "length flat = prod_list shape"
    and idx: "in_shape (map length picks) idx" and n: "position_of (map length picks) idx + n = prod_list (map length picks)"
  shows "gather_loop n flat picks (map length picks) (src_strides shape) idx acc =
    Some (acc @ map (\<lambda>c. flat ! position_of shape c) (drop (position_of (map length picks) idx) (product_lists picks)))"
  using idx n
proof (induction n arbitrary: idx acc)
  case 0
  then show ?case by (simp add: length_product)
next
  case (Suc n)
  let ?p = "position_of (map length picks) idx"
  have p: "?p < prod_list (map length picks)" using Suc.prems(2) by simp
  have cell: "product_lists picks ! ?p = picked picks idx" using product_nth [OF Suc.prems(1)] by (simp add: picked_def)
  have off: "position_of shape (picked picks idx) < length flat"
    using position_bound [OF picked_in_shape [OF fit Suc.prems(1)]] flat by simp
  have step: "drop ?p (product_lists picks) = picked picks idx # drop (Suc ?p) (product_lists picks)"
    using p cell by (simp add: Cons_nth_drop_Suc [symmetric] length_product)
  show ?case
  proof (cases n)
    case 0
    then have "drop (Suc ?p) (product_lists picks) = []" using Suc.prems(2) by (simp add: length_product)
    with 0 show ?thesis
      using off by (simp add: cell_offset_position [OF fit Suc.prems(1)] step)
  next
    case (Suc m)
    with Suc.prems have b: "Suc ?p < prod_list (map length picks)" by simp
    note bs = bump_step [OF Suc.prems(1) b]
    show ?thesis
      using off Suc.IH [OF bs(1)] bs(2) Suc.prems(2)
      by (simp add: cell_offset_position [OF fit Suc.prems(1)] step)
  qed
qed

lemma zero_in_shape: "0 < prod_list ns \<Longrightarrow> in_shape ns (replicate (length ns) 0) \<and> position_of ns (replicate (length ns) 0) = 0"
  by (induction ns) auto

lemma gather_eq:
  assumes "picks_fit shape picks" "length flat = prod_list shape"
  shows "gather flat shape picks = Some (gather_spec flat shape picks)"
proof (cases "prod_list (map length picks) = 0")
  case True
  then have "product_lists picks = []" using length_product [of picks] by simp
  with True show ?thesis by (simp add: gather_def gather_spec_def)
next
  case False
  with zero_in_shape [of "map length picks"]
  have "in_shape (map length picks) (replicate (length picks) 0)"
    "position_of (map length picks) (replicate (length picks) 0) = 0" by simp_all
  with gather_loop_spec [OF assms, of "replicate (length picks) 0" "prod_list (map length picks)" "[]"]
  show ?thesis by (simp add: gather_def gather_spec_def)
qed

lemma gather_some: "picks_fit shape picks \<Longrightarrow> length flat = prod_list shape \<Longrightarrow>
    length (gather_spec flat shape picks) = prod_list (map length picks)"
  by (simp add: gather_spec_def length_product)

section \<open>Gathers compose\<close>

definition compose_picks :: "nat list list \<Rightarrow> nat list list \<Rightarrow> nat list list" where
  "compose_picks picks sub = map2 (\<lambda>p q. map ((!) p) q) picks sub"

lemma picks_fit_Cons: "picks_fit (n # ns) (p # ps) \<longleftrightarrow> (\<forall>k\<in>set p. k < n) \<and> picks_fit ns ps"
  by (simp add: picks_fit_def All_less_Suc2) blast

lemma product_in_shape: "c \<in> set (product_lists xss) \<Longrightarrow> picks_fit ns xss \<Longrightarrow> in_shape ns c"
proof (induction xss arbitrary: ns c)
  case (Cons xs xss)
  then obtain n ns' where ns: "ns = n # ns'" by (cases ns) (auto simp: picks_fit_def)
  with Cons.prems obtain k ks where c: "c = k # ks" "k \<in> set xs" "ks \<in> set (product_lists xss)" by auto
  have "picks_fit ns' xss" "k < n" using Cons.prems(2) c(2) ns
    by (simp_all add: picks_fit_Cons)
  with Cons.IH [OF c(3)] ns c(1) show ?case by simp
qed (auto simp: picks_fit_def)

lemma product_compose:
  "length picks = length sub \<Longrightarrow> product_lists (compose_picks picks sub) = map (picked picks) (product_lists sub)"
proof (induction picks sub rule: list_induct2)
  case (Cons p ps q qs)
  have e: "compose_picks (p # ps) (q # qs) = map ((!) p) q # compose_picks ps qs"
      "picked (p # ps) (k # ks) = p ! k # picked ps ks" for k ks
    by (simp_all add: compose_picks_def picked_def)
  show ?case by (simp add: e Cons.IH map_concat comp_def)
qed (simp add: compose_picks_def picked_def)

lemma gather_compose:
  assumes "picks_fit shape picks" "picks_fit (map length picks) sub"
  shows "gather_spec (gather_spec flat shape picks) (map length picks) sub =
    gather_spec flat shape (compose_picks picks sub)"
proof -
  have l: "length picks = length sub" using assms by (simp add: picks_fit_def)
  have "gather_spec flat shape picks ! position_of (map length picks) c = flat ! position_of shape (picked picks c)"
    if "c \<in> set (product_lists sub)" for c
  proof -
    have c: "in_shape (map length picks) c" by (rule product_in_shape [OF that assms(2)])
    show ?thesis using position_bound [OF c] product_nth [OF c]
      by (simp add: gather_spec_def length_product picked_def)
  qed
  then show ?thesis
    by (simp add: gather_spec_def [of _ "map length picks"] gather_spec_def [of flat shape "compose_picks picks sub"]
        product_compose [OF l])
qed

definition whole :: "nat list \<Rightarrow> nat list list" where
  "whole shape = map (\<lambda>n. [0..<n]) shape"

lemma gather_whole: "length flat = prod_list shape \<Longrightarrow> gather_spec flat shape (whole shape) = flat"
proof -
  assume l: "length flat = prod_list shape"
  have "gather_spec flat shape (whole shape) = map ((!) flat) (map (position_of shape) (product_lists (whole shape)))"
    by (simp add: gather_spec_def)
  also have "\<dots> = flat" by (simp add: whole_def positions_product l [symmetric] map_nth)
  finally show ?thesis .
qed

lemma picks_fit_whole [simp]: "picks_fit shape (whole shape)"
  by (simp add: picks_fit_def whole_def)

text \<open>The block of record \<open>i\<close> of a gather that keeps the leading dimension whole is the gather of the
  block.\<close>

lemma nth_block: "j < n \<Longrightarrow> a + n \<le> length v \<Longrightarrow> take n (drop a v) ! j = v ! (a + j)"
  by simp

lemma take_drop_concat:
  "\<forall>x\<in>set xs. length (f x) = m \<Longrightarrow> i < length xs \<Longrightarrow> take m (drop (i * m) (concat (map f xs))) = f (xs ! i)"
proof (induction xs arbitrary: i)
  case (Cons x xs)
  then show ?case by (cases i) simp_all
qed simp

lemma block_gather:
  assumes fit: "picks_fit rest picks" and i: "i < lead" and v: "length v = lead * prod_list rest"
  shows "take (prod_list (map length picks)) (drop (i * prod_list (map length picks))
      (gather_spec v (lead # rest) ([0..<lead] # picks)))
    = gather_spec (take (prod_list rest) (drop (i * prod_list rest) v)) rest picks"
proof -
  let ?n = "prod_list rest"
  have b: "i * ?n + ?n \<le> length v" using i v by (metis add.commute mult_Suc mult_le_mono1 Suc_leI)
  have "gather_spec v (lead # rest) ([0..<lead] # picks) =
      concat (map (\<lambda>x. map (\<lambda>c. v ! (x * ?n + position_of rest c)) (product_lists picks)) [0..<lead])"
    by (simp add: gather_spec_def map_concat comp_def)
  also have "take (prod_list (map length picks)) (drop (i * prod_list (map length picks)) \<dots>) =
      map (\<lambda>c. v ! (i * ?n + position_of rest c)) (product_lists picks)"
    using take_drop_concat [where xs = "[0..<lead]" and i = i and m = "prod_list (map length picks)" and
        f = "\<lambda>x. map (\<lambda>c. v ! (x * ?n + position_of rest c)) (product_lists picks)"] i
    by (simp add: length_product)
  also have "\<dots> = gather_spec (take ?n (drop (i * ?n) v)) rest picks"
    using product_in_shape [OF _ fit] b by (auto simp: gather_spec_def position_bound)
  finally show ?thesis .
qed

section \<open>Fields\<close>

definition wf_field :: "'f field \<Rightarrow> bool" where
  "wf_field f \<longleftrightarrow> length (f_dims f) = length (f_shape f) \<and> array_len (f_data f) = prod_list (f_shape f) \<and>
     array_dtype (f_data f) = f_dtype f"

fun data_gather :: "nat list \<Rightarrow> nat list list \<Rightarrow> 'f array_data \<Rightarrow> 'f array_data" where
  "data_gather shape picks (AF64 v) = AF64 (gather_spec v shape picks)"
| "data_gather shape picks (AI64 v) = AI64 (gather_spec v shape picks)"
| "data_gather shape picks (AI32 v) = AI32 (gather_spec v shape picks)"
| "data_gather shape picks (AStr v) = AStr (gather_spec v shape picks)"
| "data_gather shape picks (ABool v) = ABool (gather_spec v shape picks)"

fun data_block :: "nat \<Rightarrow> nat \<Rightarrow> 'f array_data \<Rightarrow> 'f array_data" where
  "data_block start len (AF64 v) = AF64 (take len (drop start v))"
| "data_block start len (AI64 v) = AI64 (take len (drop start v))"
| "data_block start len (AI32 v) = AI32 (take len (drop start v))"
| "data_block start len (AStr v) = AStr (take len (drop start v))"
| "data_block start len (ABool v) = ABool (take len (drop start v))"

lemma gathered_eq:
  "picks_fit shape picks \<Longrightarrow> array_len d = prod_list shape \<Longrightarrow> gathered shape picks d = Some (data_gather shape picks d)"
  by (cases d) (simp_all add: gather_eq)

lemma data_gather_facts:
  "array_dtype (data_gather shape picks d) = array_dtype d"
  "array_len (data_gather shape picks d) = prod_list (map length picks)"
  by (cases d; simp add: gather_spec_def length_product)+

lemma data_gather_whole: "array_len d = prod_list shape \<Longrightarrow> data_gather shape (whole shape) d = d"
  by (cases d) (simp_all add: gather_whole)

lemma data_gather_compose:
  "picks_fit shape picks \<Longrightarrow> picks_fit (map length picks) sub \<Longrightarrow>
     data_gather (map length picks) sub (data_gather shape picks d) = data_gather shape (compose_picks picks sub) d"
  by (cases d) (simp_all add: gather_compose)

lemma block_eq: "start + len \<le> array_len d \<Longrightarrow> block start len d = Some (data_block start len d)"
  by (cases d) (simp_all add: slice_def)

lemma data_block_gather:
  "picks_fit rest picks \<Longrightarrow> i < lead \<Longrightarrow> array_len d = lead * prod_list rest \<Longrightarrow>
     data_block (i * prod_list (map length picks)) (prod_list (map length picks))
       (data_gather (lead # rest) ([0..<lead] # picks) d) =
     data_gather rest picks (data_block (i * prod_list rest) (prod_list rest) d)"
  by (cases d) (simp_all add: block_gather)

lemma data_block_facts:
  "array_dtype (data_block start len d) = array_dtype d"
  "start + len \<le> array_len d \<Longrightarrow> array_len (data_block start len d) = len"
  by (cases d; simp)+

definition field_gather :: "nat list list \<Rightarrow> 'f field \<Rightarrow> 'f field" where
  "field_gather t f = f\<lparr>f_shape := map length t, f_data := data_gather (f_shape f) t (f_data f)\<rparr>"

lemma picks_of_whole:
  assumes "length dims = length shape" "\<not> list_ex (\<lambda>d. map_of picks d \<noteq> None) dims"
  shows "picks_of picks dims shape = whole shape"
  using assms
proof (induction dims shape rule: list_induct2)
  case (Cons d ds n ns)
  then show ?case by (auto simp: picks_of_def whole_def)
qed (simp add: picks_of_def whole_def)

lemma field_take_eq:
  assumes "wf_field f" "picks_fit (f_shape f) (picks_of picks (f_dims f) (f_shape f))"
  shows "field_take picks f = Some (field_gather (picks_of picks (f_dims f) (f_shape f)) f)"
proof (cases "list_ex (\<lambda>d. map_of picks d \<noteq> None) (f_dims f)")
  case True
  then show ?thesis using assms
    by (cases f) (simp add: field_take_def field_gather_def wf_field_def gathered_eq Let_def)
next
  case False
  then have t: "picks_of picks (f_dims f) (f_shape f) = whole (f_shape f)"
    using assms(1) by (simp add: picks_of_whole wf_field_def)
  have "map length (whole (f_shape f)) = f_shape f" by (simp add: whole_def comp_def)
  with assms(1) have "field_gather (whole (f_shape f)) f = f"
    by (cases f) (simp add: field_gather_def wf_field_def data_gather_whole)
  with False t show ?thesis by (simp only: field_take_def if_True simp_thms)
qed

lemma wf_field_gather: "wf_field f \<Longrightarrow> picks_fit (f_shape f) t \<Longrightarrow> wf_field (field_gather t f)"
  by (simp add: wf_field_def field_gather_def data_gather_facts picks_fit_def)

section \<open>The reference reading of a gather\<close>

text \<open>
  The odometer loop of \<open>gather\<close> returns the cells of the product of the picks in row-major order,
  for every list of picks inside the shape; an empty product is an empty result.
\<close>

theorem gather_reads_product:
  assumes "picks_fit shape picks" "length flat = prod_list shape"
  shows "gather flat shape picks = Some (map (\<lambda>c. flat ! position_of shape c) (product_lists picks))"
  using gather_eq [OF assms] by (simp add: gather_spec_def)

theorem gather_reads_product_witness:
  "gather [0, 1, 2, 10, 11, 12 :: nat] [2, 3] [[1, 0], [2, 2, 0]] = Some [12, 12, 10, 2, 2, 0]"
proof -
  have "picks_fit [2, 3] [[1, 0], [2, 2, 0]]" by (simp add: picks_fit_def All_less_Suc2)
  from gather_reads_product [OF this, of "[0, 1, 2, 10, 11, 12 :: nat]"] show ?thesis by simp
qed

end
