(* ===== verification/Windows.thy ===== *)
theory Windows
  imports Provider Gathering
begin

text \<open>
  Windows of a provider (\<open>rust/src/provider.rs\<close>, third part): a window bound at construction, several
  windows gathered out of one read of their union, and the schedule of a window of time.
\<close>

section \<open>A window bound at construction\<close>

definition refusal :: "data_source \<Rightarrow> string \<Rightarrow> error" where
  "refusal L detail = format_err (so_format L) detail"

text \<open>\<open>dbg_sel\<close> is the \<open>Debug\<close> text of a selection.\<close>

definition check_window ::
    "(selection \<Rightarrow> string) \<Rightarrow> ('r, 'f) provider \<Rightarrow> selection \<Rightarrow> unit result" where
  "check_window dbg_sel pv w =
     (let L = pv_loader pv in
      if so_select L \<noteq> SelAll then
        Inl (refusal L (''loader '' @ sq (so_name L) @ '' already bakes a select, and two windows do not compose; ''
          @ ''window the provider that has none''))
      else if \<not> re_supports_selection (pv_reader pv) then
        Inl (refusal L (''reader for format '' @ sq (so_format L)
          @ '' does not support select/pushdown, so a window cannot be bound to loader '' @ sq (so_name L)))
      else
        (case w of
           SelNamed named \<Rightarrow>
             (case so_temporal L of
                None \<Rightarrow> Inr ()
              | Some T \<Rightarrow>
                  if map_of named (st_time_dim T) \<noteq> None then
                    Inl (refusal L (''the window names '' @ sq (st_time_dim T) @ '', loader '' @ sq (so_name L)
                      @ [CHR 0x27] @ ''s time_dim: records are the Provider'' @ [CHR 0x27]
                      @ ''s (it owns the cadence), so a window never names the record axis''))
                  else Inr ())
         | _ \<Rightarrow>
             Inl (refusal L (''a window is a NAMED-dimension select (a DimWindow / '' @ [CHR 0x22] @ ''dims'' @ [CHR 0x22]
               @ ''), got '' @ dbg_sel w
               @ '': a positional select cannot be applied by name, nor checked against loader ''
               @ sq (so_name L) @ [CHR 0x27] @ ''s time_dim without opening the file''))))"

definition with_window ::
    "(selection \<Rightarrow> string) \<Rightarrow> selection \<Rightarrow> ('r, 'f) provider \<Rightarrow> ('r, 'f) provider result" where
  "with_window dbg_sel w pv =
     bindR (check_window dbg_sel pv w) (\<lambda>_.
       Inr (pv\<lparr>pv_loader := (pv_loader pv)\<lparr>so_select := w\<rparr>, pv_buffers := [], pv_coords := [],
               pv_current := None, pv_files := []\<rparr>))"

section \<open>The union of several windows\<close>

record window_plan =
  wp_windows :: "selection list"
  wp_union :: "(string \<times> axis_select) list"

definition named_of :: "selection \<Rightarrow> (string \<times> axis_select) list" where
  "named_of w = (case w of SelNamed m \<Rightarrow> m | _ \<Rightarrow> [])"

text \<open>The union along one dimension: \<open>None\<close> once a window leaves it whole.\<close>

definition narrowed :: "string \<Rightarrow> string \<Rightarrow> (string \<times> axis_select) list \<Rightarrow> nat list option result" where
  "narrowed format dim m =
     (case map_of m dim of Some ax \<Rightarrow> unbounded_indices format ax | None \<Rightarrow> Inr None)"

definition join_indices :: "nat list option \<Rightarrow> nat list option \<Rightarrow> nat list option" where
  "join_indices acc idx =
     (case (idx, acc) of (Some i, Some a) \<Rightarrow> Some (remdups (sort (a @ i))) | _ \<Rightarrow> None)"

fun union_along ::
    "string \<Rightarrow> string \<Rightarrow> (string \<times> axis_select) list list \<Rightarrow> nat list option \<Rightarrow> nat list option result" where
  "union_along format dim [] acc = Inr acc"
| "union_along format dim (m # ms) acc =
     bindR (narrowed format dim m) (\<lambda>idx. union_along format dim ms (join_indices acc idx))"

definition axis_of_union :: "nat list option \<Rightarrow> axis_select" where
  "axis_of_union acc = (case acc of Some v \<Rightarrow> AxIndices v | None \<Rightarrow> AxAll)"

definition window_dims :: "(string \<times> axis_select) list list \<Rightarrow> string list" where
  "window_dims ms = remdups (sort (concat (map (map fst) ms)))"

definition plan_windows ::
    "(selection \<Rightarrow> string) \<Rightarrow> ('r, 'f) provider \<Rightarrow> selection list \<Rightarrow> window_plan result" where
  "plan_windows dbg_sel pv ws =
     bindR (each (check_window dbg_sel pv) ws) (\<lambda>_.
       let ms = map named_of ws in
       bindR (each (\<lambda>dim. bindR (union_along (so_format (pv_loader pv)) dim ms (Some [])) (\<lambda>acc.
                Inr (dim, axis_of_union acc))) (window_dims ms)) (\<lambda>uni.
         Inr \<lparr>wp_windows = ws, wp_union = uni\<rparr>))"

section \<open>A window out of the union's dataset\<close>

fun words_go :: "string \<Rightarrow> string \<Rightarrow> string list" where
  "words_go acc [] = (if acc = [] then [] else [rev acc])"
| "words_go acc (c # cs) =
     (if is_space c then (if acc = [] then words_go [] cs else rev acc # words_go [] cs)
      else words_go (c # acc) cs)"

definition is_time_dim :: "'f dataset \<Rightarrow> string \<Rightarrow> bool" where
  "is_time_dim ds dim \<longleftrightarrow>
     (case Option.bind (map_of (ds_coords ds) dim) co_units of
        Some u \<Rightarrow> list_ex (\<lambda>w. eq_ignore_case w ''since'') (words_go [] u)
      | None \<Rightarrow> False)
     \<or> eq_ignore_case dim ''time''"

definition axis_len :: "'f dataset \<Rightarrow> string \<Rightarrow> nat option" where
  "axis_len ds dim =
     find_map (dim_len dim) (map snd (ds_vars ds) @ map (\<lambda>(k, c). co_field c) (ds_coords ds))"

definition time_subset_err :: "string \<Rightarrow> string \<Rightarrow> error" where
  "time_subset_err format dim =
     format_err format (''select asks for a subset of the time dimension '' @ sq dim
       @ ''; record selection is the Provider'' @ [CHR 0x27]
       @ ''s, not the reader'' @ [CHR 0x27] @ ''s '' @ map char_of [226::nat, 128, 148]
       @ '' a time dimension may only be '' @ [CHR 0x22] @ ''all'' @ [CHR 0x22])"

text \<open>The positions of one window's indices in the axis the union read; a miss in the union's list
  would be a panic.\<close>

fun positions_in :: "nat list \<Rightarrow> nat list \<Rightarrow> nat list option" where
  "positions_in held [] = Some []"
| "positions_in held (g # gs) =
     Option.bind (position (\<lambda>x. x = g) held) (\<lambda>i. map_option ((#) i) (positions_in held gs))"

definition axis_picks ::
    "'f dataset \<Rightarrow> string \<Rightarrow> (string \<times> axis_select) list \<Rightarrow> string \<Rightarrow> axis_select
      \<Rightarrow> nat list option result option" where
  "axis_picks ds format uni dim ax =
     (case unbounded_indices format ax of
        Inl e \<Rightarrow> Some (Inl e)
      | Inr None \<Rightarrow> Some (Inr None)
      | Inr (Some wanted) \<Rightarrow>
          (case map_of uni dim of
             Some (AxIndices held) \<Rightarrow> map_option (\<lambda>p. Inr (Some p)) (positions_in held wanted)
           | _ \<Rightarrow>
               (case axis_len ds dim of
                  None \<Rightarrow> Some (Inr None)
                | Some n \<Rightarrow>
                    if is_time_dim ds dim then Some (Inl (time_subset_err format dim))
                    else Some (map_sum id Some (resolve_in n format ax)))))"

fun window_picks ::
    "'f dataset \<Rightarrow> string \<Rightarrow> (string \<times> axis_select) list \<Rightarrow> (string \<times> axis_select) list
      \<Rightarrow> (string \<times> nat list) list result option" where
  "window_picks ds format uni [] = Some (Inr [])"
| "window_picks ds format uni ((dim, ax) # rest) =
     (case axis_picks ds format uni dim ax of
        None \<Rightarrow> None
      | Some (Inl e) \<Rightarrow> Some (Inl e)
      | Some (Inr p) \<Rightarrow>
          map_option (map_sum id (\<lambda>ps. case p of None \<Rightarrow> ps | Some v \<Rightarrow> (dim, v) # ps))
            (window_picks ds format uni rest))"

definition slice_window ::
    "'f dataset \<Rightarrow> selection \<Rightarrow> selection \<Rightarrow> string \<Rightarrow> 'f dataset result option" where
  "slice_window ds w uni format =
     (case (w, uni) of
        (SelNamed m, SelNamed u) \<Rightarrow>
          (case window_picks ds format u m of
             None \<Rightarrow> None
           | Some (Inl e) \<Rightarrow> Some (Inl e)
           | Some (Inr picks) \<Rightarrow> map_option Inr (dataset_take picks ds))
      | _ \<Rightarrow> Some (Inr ds))"

fun slice_windows ::
    "'f dataset \<Rightarrow> selection list \<Rightarrow> selection \<Rightarrow> string \<Rightarrow> 'f dataset list result option" where
  "slice_windows ds [] uni format = Some (Inr [])"
| "slice_windows ds (w # ws) uni format =
     (case slice_window ds w uni format of
        None \<Rightarrow> None
      | Some (Inl e) \<Rightarrow> Some (Inl e)
      | Some (Inr d) \<Rightarrow> map_option (map_sum id ((#) d)) (slice_windows ds ws uni format))"

definition sample_windows_from ::
    "'f platform \<Rightarrow> ('r, 'f) provider \<Rightarrow> instant \<Rightarrow> window_plan \<Rightarrow> ('q, 'r, 'f) file_source
      \<Rightarrow> ('q \<times> ('r, 'f) run, 'f dataset list) io" where
  "sample_windows_from P pv t plan files =
     (if wp_windows plan = [] then ret []
      else
        bindI (sample_from P pv t (SelNamed (wp_union plan)) files) (\<lambda>ds.
          of_checked (slice_windows ds (wp_windows plan) (SelNamed (wp_union plan)) (so_format (pv_loader pv)))))"

definition sample_windows_at ::
    "(selection \<Rightarrow> string) \<Rightarrow> 'f platform \<Rightarrow> ('r, 'f) provider \<Rightarrow> instant \<Rightarrow> selection list
      \<Rightarrow> (unit \<times> ('r, 'f) run, 'f dataset list) io" where
  "sample_windows_at dbg_sel P pv t ws =
     (if ws = [] then ret []
      else bindI (of_result (plan_windows dbg_sel pv ws)) (\<lambda>plan. sample_windows_from P pv t plan (fresh_files P)))"

section \<open>The schedule\<close>

partial_function (option) times_from ::
    "civil_api \<Rightarrow> calendar_period \<Rightarrow> instant \<Rightarrow> instant \<Rightarrow> int \<Rightarrow> int list \<Rightarrow> int list option" where
  "times_from api p start upper k out =
     Option.bind (anchor api p start k) (\<lambda>a.
       if upper \<le> a then Some out
       else if in_i64 (k + 1) then times_from api p start upper (k + 1) (out @ [unix_s a])
       else None)"

text \<open>The tstops are \<open>f64\<close>s of these Unix seconds.\<close>

definition refresh_seconds :: "'f platform \<Rightarrow> ('r, 'f) provider \<Rightarrow> int list option" where
  "refresh_seconds P pv =
     (case so_temporal (pv_loader pv) of
        None \<Rightarrow> Some []
      | Some T \<Rightarrow>
          if \<not> is_positive (st_frequency T) then Some []
          else
            (case (case pv_window pv of Some (a, b) \<Rightarrow> Some b | None \<Rightarrow> st_end T) of
               None \<Rightarrow> Some []
             | Some upper \<Rightarrow>
                 Option.bind (ceil_index (pl_cal P) (st_frequency T) (st_start T) (lower_bound (pv_window pv) T))
                   (\<lambda>k. times_from (pl_cal P) (st_frequency T) (st_start T) upper k [])))"

definition refresh_times :: "'f platform \<Rightarrow> ('r, 'f) provider \<Rightarrow> 'f list option" where
  "refresh_times P pv = map_option (map (fl_of_int (pl_float P))) (refresh_seconds P pv)"

partial_function (option) prefetch_from ::
    "'f platform \<Rightarrow> ('r, 'f) provider \<Rightarrow> source_temporal \<Rightarrow> instant \<Rightarrow> int \<Rightarrow> 'r io_world
      \<Rightarrow> (unit result \<times> 'r io_world) option" where
  "prefetch_from P pv T upper k st =
     Option.bind (anchor (pl_cal P) (st_file_period T) (st_start T) k) (\<lambda>fa.
       if upper \<le> fa then Some (Inr (), st)
       else
         (case resolve_file P (pv_loader pv) fa of
            Inl e \<Rightarrow> Some (Inl e, st)
          | Inr file \<Rightarrow>
              Option.bind (fetch_blob P pv file st) (\<lambda>(r, st').
                case r of
                  Inl e \<Rightarrow> Some (Inl e, st')
                | Inr b \<Rightarrow> if in_i64 (k + 1) then prefetch_from P pv T upper (k + 1) st' else None)))"

definition prefetch :: "'f platform \<Rightarrow> ('r, 'f) provider \<Rightarrow> window \<Rightarrow> ('r io_world, unit) io" where
  "prefetch P pv w =
     (case so_temporal (pv_loader pv) of
        None \<Rightarrow>
          bindI (of_result (resolve_file P (pv_loader pv) 0)) (\<lambda>file.
          bindI (fetch_blob P pv file) (\<lambda>b. ret ()))
      | Some T \<Rightarrow>
          bindI (of_result (check_periods T)) (\<lambda>_.
          bindI (or_panic (floor_index (pl_cal P) (st_file_period T) (st_start T)
              (if fst w > st_start T then fst w else st_start T))) (\<lambda>k.
            prefetch_from P pv T (snd w) k)))"

definition cadence_anchor :: "'f platform \<Rightarrow> ('r, 'f) provider \<Rightarrow> instant \<Rightarrow> instant option option" where
  "cadence_anchor P pv t =
     (case so_temporal (pv_loader pv) of
        None \<Rightarrow> Some None
      | Some T \<Rightarrow>
          if is_positive (st_frequency T)
          then map_option Some (period_floor (pl_cal P) (st_frequency T) (st_start T) t)
          else Some None)"

definition resolved :: "'f platform \<Rightarrow> ('r, 'f) provider \<Rightarrow> instant list \<Rightarrow> file_ref list" where
  "resolved P pv anchors =
     List.map_filter (\<lambda>a. case resolve_file P (pv_loader pv) a of Inr f \<Rightarrow> Some f | Inl e \<Rightarrow> None) anchors"

definition warm_files :: "'f platform \<Rightarrow> ('r, 'f) provider \<Rightarrow> instant \<Rightarrow> file_ref list option" where
  "warm_files P pv t =
     (if re_store_backed (pv_reader pv) then Some []
      else
        (case valid_cadence (pv_loader pv) of
           Inr (Some c) \<Rightarrow>
             (let T = cd_temporal c in
              Option.bind (cadence_snap (pl_cal P) c t) (\<lambda>a.
              Option.bind (file_anchor (pl_cal P) T a) (\<lambda>fa.
                if cadence_bracket c then
                  Option.bind (next_record_anchor (pl_cal P) T a) (\<lambda>nxt.
                  Option.bind (file_anchor (pl_cal P) T nxt) (\<lambda>fa1.
                    Some (resolved P pv
                      (if (case st_end T of None \<Rightarrow> True | Some e \<Rightarrow> nxt < e) \<and> fa1 \<noteq> fa then [fa, fa1] else [fa]))))
                else Some (resolved P pv [fa]))))
         | _ \<Rightarrow> Some (resolved P pv [0])))"

definition warm :: "'f platform \<Rightarrow> ('r, 'f) provider \<Rightarrow> file_ref \<Rightarrow> ('r io_world, unit) io" where
  "warm P pv file = bindI (fetch_blob P pv file) (\<lambda>b. ret ())"

end
