(* ===== verification/Sampling.thy ===== *)
theory Sampling
  imports Provider AxisDecode
begin

text \<open>
  What a sample is (theory \<open>Provider\<close>): an abstract specification of the sampling path as a function of
  the decoded files alone, the contract of a file source, and the proof that the sampler over any
  source that keeps the contract computes that value. Fresh files and the provider's LRU both keep it, so
  \<open>refresh\<close> and \<open>sample_at\<close> agree.
\<close>

section \<open>The specification\<close>

definition bindV :: "'a result option \<Rightarrow> ('a \<Rightarrow> 'b result option) \<Rightarrow> 'b result option" where
  "bindV v g = (case v of None \<Rightarrow> None | Some r \<Rightarrow> (case r of Inl e \<Rightarrow> Some (Inl e) | Inr x \<Rightarrow> g x))"

type_synonym 'f decoded = "instant \<Rightarrow> 'f dataset result option"

definition value_record ::
    "'f platform \<Rightarrow> source_temporal \<Rightarrow> 'f dataset \<Rightarrow> instant \<Rightarrow> instant \<Rightarrow> nat result option" where
  "value_record P T ds a fa =
     map_option (\<lambda>i. file_record (pl_show P) i fa) (record_of (pl_cal P) (pl_float P) T ds a fa)"

definition value_successor ::
    "'f platform \<Rightarrow> source_temporal \<Rightarrow> 'f decoded \<Rightarrow> instant \<Rightarrow> instant \<Rightarrow> 'f dataset
      \<Rightarrow> ('f dataset \<times> nat) option result option" where
  "value_successor P T R nxt fa0 ds0 =
     (if (case st_end T of None \<Rightarrow> True | Some e \<Rightarrow> nxt < e) then
        bindV (map_option Inr (file_anchor (pl_cal P) T nxt)) (\<lambda>fa1.
        bindV (if fa1 = fa0 then Some (Inr (Inr ds0)) else map_option Inr (R fa1)) (\<lambda>got.
          case got of
            Inl e \<Rightarrow> Some (Inr None)
          | Inr ds1 \<Rightarrow>
              bindV (map_option Inr (value_record P T ds1 nxt fa1)) (\<lambda>rr.
                case rr of
                  Inl e \<Rightarrow> Some (Inr None)
                | Inr r1 \<Rightarrow> Some (Inr (if r1 < time_len ds1 (st_time_dim T) then Some (ds1, r1) else None)))))
      else Some (Inr None))"

definition value_bracket ::
    "'f platform \<Rightarrow> source_temporal \<Rightarrow> 'f decoded \<Rightarrow> instant \<Rightarrow> 'f dataset result option" where
  "value_bracket P T R a =
     bindV (map_option Inr (file_anchor (pl_cal P) T a)) (\<lambda>fa0.
     bindV (R fa0) (\<lambda>ds0.
     bindV (value_record P T ds0 a fa0) (\<lambda>r0.
     bindV (map_option Inr (next_record_anchor (pl_cal P) T a)) (\<lambda>nxt.
     bindV (value_successor P T R nxt fa0 ds0) (\<lambda>succ.
       let (ds1, r1, t1) = (case succ of Some (ds, r) \<Rightarrow> (ds, r, nxt) | None \<Rightarrow> (ds0, r0, a)) in
       bindV (stack_buffers ds0 r0 ds1 r1 (st_time_dim T)) (\<lambda>vars.
         Some (Inr \<lparr>ds_vars = vars,
           ds_coords = al_put (st_time_dim T) (bracket_coord P (st_time_dim T) (unix_s a) (unix_s t1))
             (ds_coords ds0)\<rparr>)))))))"

definition value_sample ::
    "'f platform \<Rightarrow> cadence \<Rightarrow> 'f decoded \<Rightarrow> instant \<Rightarrow> 'f dataset result option" where
  "value_sample P c R a =
     (let T = cd_temporal c in
      if cadence_bracket c then value_bracket P T R a
      else
        bindV (map_option Inr (file_anchor (pl_cal P) T a)) (\<lambda>fa.
        bindV (R fa) (\<lambda>ds.
        bindV (value_record P T ds a fa) (\<lambda>r.
        bindV (slice_record_buffers ds (st_time_dim T) r) (\<lambda>vars.
          Some (Inr \<lparr>ds_vars = vars, ds_coords = ds_coords ds\<rparr>))))))"

section \<open>A computation that agrees with a value\<close>

text \<open>
  \<open>agrees good Q m rel v\<close>: from a good state whose heap satisfies \<open>Q\<close>, the computation \<open>m\<close> panics, fails or
  returns exactly when \<open>v\<close> does, with the same error and a related result, and leaves a good state
  whose heap extends the old one.
\<close>

definition extends :: "'q \<times> ('r, 'f) run \<Rightarrow> 'q \<times> ('r, 'f) run \<Rightarrow> bool" where
  "extends s s' \<longleftrightarrow> (\<exists>D. rn_heap (snd s') = rn_heap (snd s) @ D)"

fun outcome ::
    "('q \<times> ('r, 'f) run \<Rightarrow> bool) \<Rightarrow> ('f dataset list \<Rightarrow> 'a \<Rightarrow> 'b \<Rightarrow> bool) \<Rightarrow> 'b result option
      \<Rightarrow> 'q \<times> ('r, 'f) run \<Rightarrow> ('a result \<times> ('q \<times> ('r, 'f) run)) option \<Rightarrow> bool" where
  "outcome good rel v s None = (v = None)"
| "outcome good rel v s (Some (Inl e, s')) = (good s' \<and> extends s s' \<and> v = Some (Inl e))"
| "outcome good rel v s (Some (Inr x, s')) =
     (good s' \<and> extends s s' \<and> (\<exists>y. v = Some (Inr y) \<and> rel (rn_heap (snd s')) x y))"

definition agrees ::
    "('q \<times> ('r, 'f) run \<Rightarrow> bool) \<Rightarrow> ('f dataset list \<Rightarrow> bool) \<Rightarrow> ('q \<times> ('r, 'f) run, 'a) io
      \<Rightarrow> ('f dataset list \<Rightarrow> 'a \<Rightarrow> 'b \<Rightarrow> bool) \<Rightarrow> 'b result option \<Rightarrow> bool" where
  "agrees good Q m rel v \<longleftrightarrow> (\<forall>s. good s \<longrightarrow> Q (rn_heap (snd s)) \<longrightarrow> outcome good rel v s (m s))"

lemma agreesI: "(\<And>s. good s \<Longrightarrow> Q (rn_heap (snd s)) \<Longrightarrow> outcome good rel v s (m s)) \<Longrightarrow> agrees good Q m rel v"
  by (simp add: agrees_def)

lemma agreesD: "agrees good Q m rel v \<Longrightarrow> good s \<Longrightarrow> Q (rn_heap (snd s)) \<Longrightarrow> outcome good rel v s (m s)"
  unfolding agrees_def by blast

lemma io_cases [case_names panic err ok]:
  assumes "x = None \<Longrightarrow> thesis" "\<And>e s'. x = Some (Inl e, s') \<Longrightarrow> thesis" "\<And>y s'. x = Some (Inr y, s') \<Longrightarrow> thesis"
  shows thesis
proof (cases x)
  case (Some p)
  then show thesis using assms by (cases p; cases "fst p") simp_all
qed (fact assms(1))

lemma extends_refl [simp]: "extends s s"
  by (simp add: extends_def)

lemma extends_trans: "extends s s' \<Longrightarrow> extends s' s'' \<Longrightarrow> extends s s''"
  by (auto simp: extends_def)

definition stays :: "('f dataset list \<Rightarrow> bool) \<Rightarrow> bool" where
  "stays Q \<longleftrightarrow> (\<forall>H D. Q H \<longrightarrow> Q (H @ D))"

definition same :: "'f dataset list \<Rightarrow> 'a \<Rightarrow> 'a \<Rightarrow> bool" where
  "same H x y \<longleftrightarrow> x = y"

definition handle :: "'f dataset list \<Rightarrow> nat \<Rightarrow> 'f dataset \<Rightarrow> bool" where
  "handle H h ds \<longleftrightarrow> h < length H \<and> H ! h = ds"

lemma stays_simps [simp, intro]:
  "stays (\<lambda>H. True)" "stays (\<lambda>H. handle H h ds)" "stays (\<lambda>H. same H x y)"
  "stays Q \<Longrightarrow> stays Q' \<Longrightarrow> stays (\<lambda>H. Q H \<and> Q' H)"
  by (auto simp: stays_def handle_def same_def nth_append)

lemma stays_extends: "stays Q \<Longrightarrow> extends s s' \<Longrightarrow> Q (rn_heap (snd s)) \<Longrightarrow> Q (rn_heap (snd s'))"
  by (auto simp: stays_def extends_def)

lemma outcome_from: "outcome good rel v s' res \<Longrightarrow> extends s s' \<Longrightarrow> outcome good rel v s res"
  by (cases res rule: io_cases) (auto dest: extends_trans)

lemma bindV_simps [simp]:
  "bindV None g = None" "bindV (Some (Inl e)) g = Some (Inl e)" "bindV (Some (Inr x)) g = g x"
  by (simp_all add: bindV_def)

lemma agrees_bind:
  assumes m: "agrees good Q m rel v" and Q: "stays Q"
    and f: "\<And>x y. agrees good (\<lambda>H. Q H \<and> rel H x y) (f x) rel' (g y)"
  shows "agrees good Q (bindI m f) rel' (bindV v g)"
proof (rule agreesI)
  fix s assume s: "good s" "Q (rn_heap (snd s))"
  note o = agreesD [OF m s]
  show "outcome good rel' (bindV v g) s (bindI m f s)"
  proof (cases "m s" rule: io_cases)
    case (ok x s1)
    with o obtain y where y: "good s1" "extends s s1" "v = Some (Inr y)" "rel (rn_heap (snd s1)) x y" by auto
    have "outcome good rel' (g y) s1 (f x s1)"
      by (rule agreesD [OF f y(1)]) (use y stays_extends [OF Q y(2) s(2)] in simp)
    then show ?thesis using ok y(2,3) by (simp add: outcome_from)
  qed (use o in simp_all)
qed

lemma agrees_ret: "(\<And>H. Q H \<Longrightarrow> rel H x y) \<Longrightarrow> agrees good Q (ret x) rel (Some (Inr y))"
  by (simp add: agrees_def)

lemma agrees_of_checked: "agrees good Q (of_checked v) same v"
proof (rule agreesI)
  fix s assume "good s"
  then show "outcome good same v s (of_checked v s)"
    by (cases "of_checked v s" rule: io_cases) (auto simp: of_checked_def same_def)
qed

lemma agrees_or_panic: "agrees good Q (or_panic v) same (map_option Inr v)"
  by (cases v) (auto simp: agrees_def same_def)

lemma agrees_deref: "(\<And>H. Q H \<Longrightarrow> handle H h ds) \<Longrightarrow> agrees good Q (deref h) same (Some (Inr ds))"
  by (auto simp: agrees_def deref_def same_def handle_def)

definition either :: "('f dataset list \<Rightarrow> 'a \<Rightarrow> 'b \<Rightarrow> bool) \<Rightarrow> 'f dataset list \<Rightarrow> 'a result \<Rightarrow> 'b result \<Rightarrow> bool" where
  "either rel H a b = (case (a, b) of (Inl e, Inl e') \<Rightarrow> e = e' | (Inr x, Inr y) \<Rightarrow> rel H x y | _ \<Rightarrow> False)"

lemma agrees_attempt:
  assumes "agrees good Q m rel v"
  shows "agrees good Q (attempt m) (either rel) (map_option Inr v)"
proof (rule agreesI)
  fix s assume s: "good s" "Q (rn_heap (snd s))"
  note o = agreesD [OF assms s]
  show "outcome good (either rel) (map_option Inr v) s (attempt m s)"
    by (cases "m s" rule: io_cases) (use o in \<open>auto simp: attempt_def either_def\<close>)
qed

lemma agrees_bind_same:
  assumes "agrees good Q m same v" "stays Q" "\<And>x. agrees good Q (f x) rel (g x)"
  shows "agrees good Q (bindI m f) rel (bindV v g)"
proof (rule agrees_bind [OF assms(1,2)])
  fix x y show "agrees good (\<lambda>H. Q H \<and> same H x y) (f x) rel (g y)"
    using assms(3) [of x] by (auto simp: agrees_def same_def)
qed

lemma agrees_either:
  assumes "\<And>e. agrees good Q (f (Inl e)) rel (g (Inl e))"
    and "\<And>a b. agrees good (\<lambda>H. Q H \<and> rel0 H a b) (f (Inr a)) rel (g (Inr b))"
  shows "agrees good (\<lambda>H. Q H \<and> either rel0 H x y) (f x) rel (g y)"
proof (cases x; cases y)
  fix e e' assume "x = Inl e" "y = Inl e'"
  with assms(1) [of e] show ?thesis by (auto simp: agrees_def either_def)
next
  fix a b assume "x = Inr a" "y = Inr b"
  with assms(2) [of a b] show ?thesis by (auto simp: agrees_def either_def)
qed (simp_all add: agrees_def either_def)

lemma stays_either [simp, intro]: "(\<And>a b. stays (\<lambda>H. rel H a b)) \<Longrightarrow> stays (\<lambda>H. either rel H x y)"
  by (auto simp: stays_def either_def split: sum.splits)

lemma either_same: "either same = same"
  by (intro ext) (auto simp: either_def same_def split: sum.splits)

lemma agrees_deref_bind:
  "(\<And>H. Q H \<Longrightarrow> handle H h ds) \<Longrightarrow> agrees good Q (f ds) rel v \<Longrightarrow> agrees good Q (bindI (deref h) f) rel v"
  by (auto simp: agrees_def deref_def handle_def bindI_def)

lemma agrees_case:
  "(\<And>e. agrees good Q (f e) rel (f' e)) \<Longrightarrow> (\<And>x. agrees good Q (g x) rel (g' x)) \<Longrightarrow>
     agrees good Q (case r of Inl e \<Rightarrow> f e | Inr x \<Rightarrow> g x) rel (case r of Inl e \<Rightarrow> f' e | Inr x \<Rightarrow> g' x)"
  by (cases r) simp_all

section \<open>The contract of a file source\<close>

text \<open>
  \<open>R\<close> is what reading the file of an anchor gives; a source keeps the contract when, in its good states,
  asking for a file agrees with \<open>R\<close>, and good states hold a valid axis memo and do not depend on which.
\<close>

locale file_source =
  fixes P :: "'f platform" and pv :: "('r, 'f) provider" and sel :: selection and dim :: string
    and files :: "('q, 'r, 'f) file_source" and good :: "'q \<times> ('r, 'f) run \<Rightarrow> bool" and R :: "'f decoded"
  assumes file_agrees: "agrees good (\<lambda>H. True) (files pv fa sel) handle (R fa)"
    and good_memo: "good (q, rn) \<Longrightarrow> memo_ok (pl_cal P) (pl_float P) dim (rn_heap rn) (rn_memo rn)"
    and memo_good: "good (q, rn) \<Longrightarrow> memo_ok (pl_cal P) (pl_float P) dim (rn_heap rn) m \<Longrightarrow>
      good (q, rn\<lparr>rn_memo := m\<rparr>)"

lemma agrees_weaken: "agrees good (\<lambda>H. True) m rel v \<Longrightarrow> agrees good Q m rel v"
  by (simp add: agrees_def)

context file_source
begin

lemma record_at_agrees:
  assumes "st_time_dim T = dim" "\<And>H. Q H \<Longrightarrow> handle H h ds"
  shows "agrees good Q (record_at P T h a fa) same (value_record P T ds a fa)"
proof (rule agreesI)
  fix s :: "'q \<times> ('r, 'f) run"
  assume s: "good s" "Q (rn_heap (snd s))"
  obtain q rn where s': "s = (q, rn)" by (cases s)
  note hd = assms(2) [OF s(2)]
  obtain r m where ri: "record_index (pl_cal P) (pl_float P) (pl_alive P (length (rn_heap rn))) h (rn_heap rn ! h)
      T a fa (rn_memo rn) = (r, m)"
    by (cases "record_index (pl_cal P) (pl_float P) (pl_alive P (length (rn_heap rn))) h (rn_heap rn ! h)
      T a fa (rn_memo rn)")
  from record_index_ok [OF _ _ ri] good_memo [of q rn] s s' hd assms(1)
  have r: "r = record_of (pl_cal P) (pl_float P) T ds a fa"
    and m: "memo_ok (pl_cal P) (pl_float P) dim (rn_heap rn) m"
    by (auto simp: handle_def)
  have g: "good (q, rn\<lparr>rn_memo := m\<rparr>)" using memo_good [OF _ m] s s' by simp
  have v: "value_record P T ds a fa = map_option (\<lambda>i. file_record (pl_show P) i fa) r"
    by (simp add: value_record_def r)
  show "outcome good same (value_record P T ds a fa) s (record_at P T h a fa s)"
    unfolding v
  proof (cases r)
    case None
    with ri s' show "outcome good same (map_option (\<lambda>i. file_record (pl_show P) i fa) r) s (record_at P T h a fa s)"
      by (simp add: record_at_def)
  next
    case (Some i)
    with ri s' g show "outcome good same (map_option (\<lambda>i. file_record (pl_show P) i fa) r) s (record_at P T h a fa s)"
      by (cases "file_record (pl_show P) i fa") (simp_all add: record_at_def same_def extends_def)
  qed
qed

definition found :: "'f dataset list \<Rightarrow> (nat \<times> nat) option \<Rightarrow> ('f dataset \<times> nat) option \<Rightarrow> bool" where
  "found H x y = (case (x, y) of (None, None) \<Rightarrow> True
     | (Some (h, r), Some (ds, r')) \<Rightarrow> handle H h ds \<and> r = r' | _ \<Rightarrow> False)"

lemma successor_agrees:
  assumes dim: "st_time_dim T = dim" and Q: "stays Q" "\<And>H. Q H \<Longrightarrow> handle H h0 ds0"
  shows "agrees good Q (successor P pv T nxt fa0 h0 sel files) found (value_successor P T R nxt fa0 ds0)"
proof (cases "case st_end T of None \<Rightarrow> True | Some e \<Rightarrow> nxt < e")
  case False
  then show ?thesis
    unfolding successor_def value_successor_def if_not_P [OF False] by (intro agrees_ret) (simp add: found_def)
next
  case True
  have got: "agrees good Q (if fa1 = fa0 then ret (Inr h0) else attempt (files pv fa1 sel)) (either handle)
      (if fa1 = fa0 then Some (Inr (Inr ds0)) else map_option Inr (R fa1))" for fa1
    using Q(2) by (auto intro!: agrees_ret agrees_attempt agrees_weaken [OF file_agrees] simp: either_def)
  show ?thesis
    unfolding successor_def value_successor_def if_P [OF True]
  proof (rule agrees_bind_same [OF agrees_or_panic Q(1)], rule agrees_bind [OF got Q(1)], rule agrees_either, goal_cases)
    case (1 fa1 x y e)
    show ?case unfolding sum.case by (intro agrees_ret) (simp add: found_def)
  next
    case (2 fa1 x y h1 ds1)
    let ?Q = "\<lambda>H. Q H \<and> handle H h1 ds1"
    have st: "stays ?Q" using Q(1) by simp
    have rec: "agrees good ?Q (attempt (record_at P T h1 nxt fa1)) same (map_option Inr (value_record P T ds1 nxt fa1))"
      using agrees_attempt [OF record_at_agrees [OF dim, of ?Q h1 ds1]] by (simp add: either_same)
    show ?case
      unfolding sum.case
      by (rule agrees_bind_same [OF rec st], rule agrees_case)
        (auto intro!: agrees_ret agrees_deref_bind [where ds = ds1] simp: found_def)
  qed
qed

lemma stack_agrees:
  assumes "\<And>H. Q H \<Longrightarrow> handle H h0 ds0 \<and> handle H h1 ds1" "stays Q"
  shows "agrees good Q
    (bindI (deref h0) (\<lambda>ds0. bindI (deref h1) (\<lambda>ds1. bindI (of_checked (stack_buffers ds0 r0 ds1 r1 d)) (\<lambda>vars.
       ret \<lparr>ds_vars = vars, ds_coords = al_put d co (ds_coords ds0)\<rparr>)))) same
    (bindV (stack_buffers ds0 r0 ds1 r1 d) (\<lambda>vars. Some (Inr \<lparr>ds_vars = vars, ds_coords = al_put d co (ds_coords ds0)\<rparr>)))"
  using assms
  by (intro agrees_deref_bind [where ds = ds0] agrees_deref_bind [where ds = ds1]
      agrees_bind_same [OF agrees_of_checked]) (auto intro: agrees_ret simp: same_def)

lemma sample_bracket_agrees:
  assumes dim: "st_time_dim (cd_temporal c) = dim"
  shows "agrees good (\<lambda>H. True) (sample_bracket P pv c a sel files) same (value_bracket P (cd_temporal c) R a)"
  unfolding sample_bracket_def value_bracket_def Let_def
proof (rule agrees_bind_same [OF agrees_or_panic], simp, rule agrees_bind [OF file_agrees], simp, simp, goal_cases)
  case (1 fa0 h0 ds0)
  let ?Q = "\<lambda>H. handle H h0 ds0"
  let ?T = "cd_temporal c"
  show ?case
  proof (rule agrees_bind_same [OF record_at_agrees [OF dim]], simp, simp, rule agrees_bind_same [OF agrees_or_panic], simp,
      rule agrees_bind [OF successor_agrees [OF dim]], simp, simp, simp, goal_cases)
    case (1 r0 nxt succ succ')
    show ?case
    proof (cases succ; cases succ')
      assume "succ = None" "succ' = None"
      then show ?thesis using stack_agrees [of "\<lambda>H. ?Q H \<and> found H succ succ'" h0 ds0 h0 ds0]
        by (simp add: found_def)
    next
      fix x x' assume s: "succ = Some x" "succ' = Some x'"
      obtain h1 r1 ds1 r1' where x: "x = (h1, r1)" "x' = (ds1, r1')" by (cases x; cases x')
      have e: "found H succ succ' \<longleftrightarrow> handle H h1 ds1 \<and> r1 = r1'" for H by (simp add: s x found_def)
      show ?thesis
      proof (cases "r1 = r1'")
        case True
        have hd: "?Q H \<and> found H succ succ' \<Longrightarrow> handle H h0 ds0 \<and> handle H h1 ds1" for H by (simp add: e)
        have st: "stays (\<lambda>H. ?Q H \<and> found H succ succ')" by (simp add: e True)
        from stack_agrees [OF hd st] show ?thesis by (simp add: s x True)
      qed (simp add: e agrees_def)
    qed (simp_all add: found_def agrees_def)
  qed
qed

lemma sample_anchor_agrees:
  assumes dim: "st_time_dim (cd_temporal c) = dim"
  shows "agrees good (\<lambda>H. True) (sample_anchor P pv c a sel files) same (value_sample P c R a)"
proof (cases "cadence_bracket c")
  case True
  then show ?thesis using sample_bracket_agrees [OF dim] by (simp add: sample_anchor_def value_sample_def)
next
  case False
  have "agrees good (\<lambda>H. True) (sample_anchor P pv c a sel files) same
    (bindV (map_option Inr (file_anchor (pl_cal P) (cd_temporal c) a)) (\<lambda>fa.
        bindV (R fa) (\<lambda>ds.
        bindV (value_record P (cd_temporal c) ds a fa) (\<lambda>r.
        bindV (slice_record_buffers ds (st_time_dim (cd_temporal c)) r) (\<lambda>vars.
          Some (Inr \<lparr>ds_vars = vars, ds_coords = ds_coords ds\<rparr>))))))"
    unfolding sample_anchor_def Let_def if_not_P [OF False]
  proof (rule agrees_bind_same [OF agrees_or_panic], simp, rule agrees_bind [OF file_agrees], simp, simp, goal_cases)
    case (1 fa h ds)
    show ?case
      by (rule agrees_bind_same [OF record_at_agrees [OF dim]], simp, simp, rule agrees_deref_bind [where ds = ds], simp,
          rule agrees_bind_same [OF agrees_of_checked], simp) (simp add: agrees_ret same_def)
  qed
  with False show ?thesis by (simp add: value_sample_def Let_def)
qed

end

section \<open>Reads that do not change\<close>

text \<open>
  The worlds \<open>W\<close> are those a run of reads can reach, and a read of the file of an anchor under \<open>sel\<close>
  gives \<open>R\<close> in each of them: decoding a file is deterministic and nobody changes the files meanwhile.
\<close>

definition stable_reads ::
    "'f platform \<Rightarrow> ('r, 'f) provider \<Rightarrow> selection \<Rightarrow> 'r io_world set \<Rightarrow> 'f decoded \<Rightarrow> bool" where
  "stable_reads P pv sel W R \<longleftrightarrow>
     (\<forall>fa. \<forall>w\<in>W. case read_file_at P pv fa sel w of
        None \<Rightarrow> R fa = None | Some (r, w') \<Rightarrow> R fa = Some r \<and> w' \<in> W)"

definition run_ok ::
    "'f platform \<Rightarrow> string \<Rightarrow> 'r io_world set \<Rightarrow> ('r, 'f) run \<Rightarrow> bool" where
  "run_ok P dim W rn \<longleftrightarrow> rn_io rn \<in> W \<and> memo_ok (pl_cal P) (pl_float P) dim (rn_heap rn) (rn_memo rn)"

definition files_ok :: "'f decoded \<Rightarrow> 'f dataset list \<Rightarrow> (instant \<times> nat) list \<Rightarrow> bool" where
  "files_ok R H files \<longleftrightarrow> (\<forall>(a, h)\<in>set files. h < length H \<and> R a = Some (Inr (H ! h)))"

lemma memo_ok_append: "memo_ok api F dim H m \<Longrightarrow> memo_ok api F dim (H @ D) m"
  by (fastforce simp: memo_ok_def nth_append)

lemma files_ok_append: "files_ok R H files \<Longrightarrow> files_ok R (H @ D) files"
  by (fastforce simp: files_ok_def nth_append)

lemma files_ok_subset: "files_ok R H files \<Longrightarrow> set files' \<subseteq> set files \<Longrightarrow> files_ok R H files'"
  by (auto simp: files_ok_def)

locale stable_provider =
  fixes P :: "'f platform" and pv :: "('r, 'f) provider" and sel :: selection
    and W :: "'r io_world set" and R :: "'f decoded"
  assumes stable: "stable_reads P pv sel W R"
begin

lemma read_alloc:
  assumes "run_ok P dim W rn"
  shows "case bindI (on_io (read_file_at P pv fa sel)) alloc (q, rn) of
      None \<Rightarrow> R fa = None
    | Some (Inl e, (q', rn')) \<Rightarrow> R fa = Some (Inl e) \<and> q' = q \<and> run_ok P dim W rn' \<and> rn_heap rn' = rn_heap rn
    | Some (Inr h, (q', rn')) \<Rightarrow> q' = q \<and> run_ok P dim W rn' \<and> h = length (rn_heap rn) \<and>
        (\<exists>ds. R fa = Some (Inr ds) \<and> rn_heap rn' = rn_heap rn @ [ds])"
proof -
  from assms have w: "rn_io rn \<in> W" and m: "memo_ok (pl_cal P) (pl_float P) dim (rn_heap rn) (rn_memo rn)"
    by (simp_all add: run_ok_def)
  from stable w have "case read_file_at P pv fa sel (rn_io rn) of
      None \<Rightarrow> R fa = None | Some (r, w') \<Rightarrow> R fa = Some r \<and> w' \<in> W"
    unfolding stable_reads_def by blast
  then show ?thesis
    using m
    by (cases "read_file_at P pv fa sel (rn_io rn)" rule: io_cases)
      (auto simp: bindI_def on_io_def alloc_def run_ok_def memo_ok_append)
qed

end

sublocale stable_provider \<subseteq> fresh: file_source P pv sel dim "fresh_files P" "\<lambda>(q, rn). run_ok P dim W rn" R for dim
proof
  fix fa
  show "agrees (\<lambda>(q, rn). run_ok P dim W rn) (\<lambda>H. True) (fresh_files P pv fa sel) handle (R fa)"
  proof (rule agreesI)
    fix s :: "'q \<times> ('r, 'f) run"
    assume g: "case s of (q, rn) \<Rightarrow> run_ok P dim W rn"
    obtain q rn where s: "s = (q, rn)" by (cases s)
    from g s have "run_ok P dim W rn" by simp
    from read_alloc [OF this, of fa q]
    show "outcome (\<lambda>(q, rn). run_ok P dim W rn) handle (R fa) s (fresh_files P pv fa sel s)"
      unfolding s fresh_files_def
      by (cases "bindI (on_io (read_file_at P pv fa sel)) alloc (q, rn)" rule: io_cases)
        (auto simp: extends_def handle_def)
  qed
qed (auto simp: run_ok_def)

lemma evict_subset: "set (evict cap xs) \<subseteq> set xs"
  by (auto simp: evict_def dest: in_set_dropD)

sublocale stable_provider \<subseteq> lru: file_source P pv sel dim "lru_files P cap"
    "\<lambda>(files, rn). run_ok P dim W rn \<and> files_ok R (rn_heap rn) files" R for dim cap
proof
  fix fa
  let ?good = "\<lambda>(files, rn). run_ok P dim W rn \<and> files_ok R (rn_heap rn) files"
  show "agrees ?good (\<lambda>H. True) (lru_files P cap pv fa sel) handle (R fa)"
  proof (rule agreesI)
    fix s :: "(instant \<times> nat) list \<times> ('r, 'f) run"
    assume g: "?good s"
    obtain files rn where s: "s = (files, rn)" by (cases s)
    from g s have rn: "run_ok P dim W rn" and fl: "files_ok R (rn_heap rn) files" by simp_all
    show "outcome ?good handle (R fa) s (lru_files P cap pv fa sel s)"
    proof (cases "position (\<lambda>(a, h). a = fa) files")
      case (Some pos)
      then have p: "pos < length files" "fst (files ! pos) = fa" by (auto dest: position_Some split: prod.splits)
      then have e: "files ! pos \<in> set files" by simp
      have "files_ok R (rn_heap rn) (take pos files @ drop (Suc pos) files @ [files ! pos])"
        using fl e by (rule_tac files_ok_subset) (auto dest: in_set_takeD in_set_dropD)
      moreover have "snd (files ! pos) < length (rn_heap rn) \<and> R fa = Some (Inr (rn_heap rn ! snd (files ! pos)))"
        using bspec [OF fl [unfolded files_ok_def] e] p(2) by (cases "files ! pos") simp
      ultimately show ?thesis using Some rn by (simp add: s lru_files_def handle_def Let_def extends_def)
    next
      case None
      show ?thesis
      proof (cases "bindI (on_io (read_file_at P pv fa sel)) alloc (files, rn)" rule: io_cases)
        case panic
        with None read_alloc [OF rn, of fa files] show ?thesis by (simp add: s lru_files_def)
      next
        case (err e s')
        with None read_alloc [OF rn, of fa files] fl show ?thesis
          by (cases s') (simp add: s lru_files_def extends_def)
      next
        case (ok h s')
        obtain q' rn' where s': "s' = (q', rn')" by (cases s')
        from read_alloc [OF rn, of fa files] ok s' obtain ds where ds: "q' = files" "run_ok P dim W rn'"
          "h = length (rn_heap rn)" "R fa = Some (Inr ds)" "rn_heap rn' = rn_heap rn @ [ds]" by auto
        have "files_ok R (rn_heap rn') (files @ [(fa, h)])"
          using files_ok_append [OF fl, of "[ds]"] ds by (auto simp: files_ok_def)
        then have "files_ok R (rn_heap rn') (evict cap (files @ [(fa, h)]))"
          by (rule files_ok_subset [OF _ evict_subset])
        with None ok s' ds show ?thesis by (simp add: s lru_files_def extends_def handle_def)
      qed
    qed
  qed
qed (auto simp: run_ok_def)

section \<open>Refreshing is sampling\<close>

definition time_dim_of :: "('r, 'f) provider \<Rightarrow> string" where
  "time_dim_of pv = (case so_temporal (pv_loader pv) of Some T \<Rightarrow> st_time_dim T | None \<Rightarrow> ''time'')"

text \<open>The provider's state is consistent: its decoded files are what reading them gives, and the buffer
  holds the sample of the current anchor.\<close>

definition buffer_ok :: "'f platform \<Rightarrow> ('r, 'f) provider \<Rightarrow> 'f decoded \<Rightarrow> bool" where
  "buffer_ok P pv R \<longleftrightarrow>
     (\<forall>a T. pv_current pv = Some a \<longrightarrow> so_temporal (pv_loader pv) = Some T \<longrightarrow>
        value_sample P \<lparr>cd_temporal = T\<rparr> R a =
          Some (Inr \<lparr>ds_vars = pv_buffers pv, ds_coords = pv_coords pv\<rparr>))"

definition provider_ok ::
    "'f platform \<Rightarrow> 'r io_world set \<Rightarrow> 'f decoded \<Rightarrow> ('r, 'f) provider \<times> ('r, 'f) run \<Rightarrow> bool" where
  "provider_ok P W R s \<longleftrightarrow>
     (case s of (pv, rn) \<Rightarrow>
        run_ok P (time_dim_of pv) W rn \<and> files_ok R (rn_heap rn) (pv_files pv) \<and> buffer_ok P pv R)"

lemma valid_cadence_Some: "valid_cadence L = Inr (Some c) \<Longrightarrow> so_temporal L = Some (cd_temporal c)"
  by (auto simp: valid_cadence_def bindR_Inr split: option.splits if_splits)

lemma valid_cadence_None: "valid_cadence L = Inr None \<Longrightarrow> so_temporal L = None"
  by (auto simp: valid_cadence_def bindR_Inr split: option.splits if_splits)

lemma fetch_blob_pv:
  "pv_loader pv' = pv_loader pv \<Longrightarrow> pv_cache pv' = pv_cache pv \<Longrightarrow> fetch_blob P pv' = fetch_blob P pv"
  by (intro ext) (simp add: fetch_blob_def)

lemma read_file_pv:
  assumes "pv_loader pv' = pv_loader pv" "pv_cache pv' = pv_cache pv" "pv_reader pv' = pv_reader pv"
    "pv_access pv' = pv_access pv"
  shows "read_file P pv' = read_file P pv"
  unfolding read_file_def [abs_def] fetch_blob_pv [OF assms(1,2)] unfolding assms ..

lemma read_file_at_pv:
  "pv_loader pv' = pv_loader pv \<Longrightarrow> pv_cache pv' = pv_cache pv \<Longrightarrow> pv_reader pv' = pv_reader pv \<Longrightarrow>
     pv_access pv' = pv_access pv \<Longrightarrow> read_file_at P pv' = read_file_at P pv"
  by (intro ext) (simp add: read_file_at_def read_file_pv [of pv' pv])

lemma stable_reads_pv:
  "pv_loader pv' = pv_loader pv \<Longrightarrow> pv_cache pv' = pv_cache pv \<Longrightarrow> pv_reader pv' = pv_reader pv \<Longrightarrow>
     pv_access pv' = pv_access pv \<Longrightarrow> stable_reads P pv' = stable_reads P pv"
  by (intro ext) (simp add: stable_reads_def read_file_at_pv [of pv' pv])

text \<open>Sampling an anchor from fresh files, and from the LRU: both compute the value of the sample.\<close>

context stable_provider
begin

lemma sample_of_fresh:
  assumes "run_ok P (st_time_dim (cd_temporal c)) W rn"
  shows "outcome (\<lambda>(q, rn). run_ok P (st_time_dim (cd_temporal c)) W rn) same (value_sample P c R a) (q, rn)
    (sample_anchor P pv c a sel (fresh_files P) (q, rn))"
  using fresh.sample_anchor_agrees [of c, OF refl] assms by (intro agreesD) auto

lemma sample_lru:
  assumes "run_ok P (st_time_dim (cd_temporal c)) W rn" "files_ok R (rn_heap rn) files"
  shows "outcome (\<lambda>(files, rn). run_ok P (st_time_dim (cd_temporal c)) W rn \<and> files_ok R (rn_heap rn) files)
    same (value_sample P c R a) (files, rn)
    (sample_anchor P pv c a sel (lru_files P cap) (files, rn))"
  using lru.sample_anchor_agrees [of c, OF refl] assms by (intro agreesD) auto

end

lemma dataset_eta: "\<lparr>ds_vars = ds_vars ds, ds_coords = ds_coords ds\<rparr> = (ds :: 'f dataset)"
  by (cases ds) simp

lemma cadence_eta: "\<lparr>cd_temporal = cd_temporal c\<rparr> = (c :: cadence)"
  by (cases c) simp

lemma refresh_anchor_ok:
  assumes st: "stable_reads P pv (so_select (pv_loader pv)) W R" and ok: "provider_ok P W R (pv, rn)"
    and T: "so_temporal (pv_loader pv) = Some (cd_temporal c)"
  shows "case refresh_anchor P c a (pv, rn) of
      None \<Rightarrow> value_sample P c R a = None
    | Some (Inl e, s) \<Rightarrow> value_sample P c R a = Some (Inl e) \<and> provider_ok P W R s
    | Some (Inr None, s) \<Rightarrow> pv_current pv = Some a \<and> s = (pv, rn)
    | Some (Inr (Some b), (pv', rn')) \<Rightarrow> pv_current pv \<noteq> Some a \<and> pv_current pv' = Some a \<and> b = pv_buffers pv' \<and>
        value_sample P c R a = Some (Inr \<lparr>ds_vars = pv_buffers pv', ds_coords = pv_coords pv'\<rparr>) \<and>
        provider_ok P W R (pv', rn')"
proof (cases "pv_current pv = Some a")
  case True
  then show ?thesis by (simp add: refresh_anchor_def)
next
  case False
  let ?cap = "if cadence_bracket c then 2 else 1"
  let ?S = "sample_anchor P (pv\<lparr>pv_files := []\<rparr>) c a (so_select (pv_loader pv)) (lru_files P ?cap) (pv_files pv, rn)"
  have dim: "time_dim_of pv = st_time_dim (cd_temporal c)" using T by (simp add: time_dim_of_def)
  have "stable_reads P (pv\<lparr>pv_files := []\<rparr>) (so_select (pv_loader pv)) W R"
    using st by (simp add: stable_reads_pv [of "pv\<lparr>pv_files := []\<rparr>" pv])
  moreover have "run_ok P (st_time_dim (cd_temporal c)) W rn" "files_ok R (rn_heap rn) (pv_files pv)"
    using ok dim by (simp_all add: provider_ok_def)
  ultimately have o: "outcome (\<lambda>(files, rn). run_ok P (st_time_dim (cd_temporal c)) W rn \<and> files_ok R (rn_heap rn) files)
    same (value_sample P c R a) (pv_files pv, rn) ?S"
    by (intro stable_provider.sample_lru) (auto simp: stable_provider_def)
  show ?thesis
  proof (cases "?S" rule: io_cases)
    case panic
    with o False show ?thesis by (simp add: refresh_anchor_def)
  next
    case (err e s')
    with o False ok dim show ?thesis
      by (cases s') (auto simp: refresh_anchor_def provider_ok_def buffer_ok_def time_dim_of_def)
  next
    case (ok ds s')
    with o False dim T show ?thesis
      by (cases s') (auto simp: refresh_anchor_def provider_ok_def buffer_ok_def time_dim_of_def same_def
          dataset_eta cadence_eta)
  qed
qed

lemma sample_at_discrete:
  assumes "valid_cadence (pv_loader pv) = Inr (Some c)" "cadence_snap (pl_cal P) c t = Some a"
  shows "sample_at P pv t s = sample_anchor P pv c a (so_select (pv_loader pv)) (fresh_files P) s"
  by (simp add: sample_at_def sample_from_def assms)

lemma sample_at_value:
  assumes st: "stable_reads P pv (so_select (pv_loader pv)) W R" and ok: "provider_ok P W R (pv, rn)"
    and c: "valid_cadence (pv_loader pv) = Inr (Some c)" "cadence_snap (pl_cal P) c t = Some a"
  shows "map_option fst (sample_at P pv t ((), rn)) = value_sample P c R a"
proof -
  have dim: "time_dim_of pv = st_time_dim (cd_temporal c)"
    using valid_cadence_Some [OF c(1)] by (simp add: time_dim_of_def)
  then have "run_ok P (st_time_dim (cd_temporal c)) W rn" using ok by (simp add: provider_ok_def)
  from stable_provider.sample_of_fresh [OF stable_provider.intro [OF st] this, where a = a and q = "()"]
  show ?thesis
    unfolding sample_at_discrete [OF c]
    by (cases "sample_anchor P pv c a (so_select (pv_loader pv)) (fresh_files P) ((), rn)" rule: io_cases)
      (auto simp: same_def)
qed

text \<open>
  C13: \<open>refresh\<close> is \<open>sample_at\<close> through the LRU of decoded files: over files that do not change, a refresh
  panics or fails exactly as \<open>sample_at\<close> does; otherwise the buffer and coordinates it leaves are what
  \<open>sample_at\<close> returns, whether it read anything or kept the buffer of the same anchor.
\<close>

theorem refresh_is_sample_at:
  assumes "stable_reads P pv (so_select (pv_loader pv)) W R" and "provider_ok P W R (pv, rn)"
    and "so_temporal (pv_loader pv) \<noteq> None"
  shows "map_option (\<lambda>(r, (pv', rn')). map_sum id (\<lambda>b. \<lparr>ds_vars = pv_buffers pv', ds_coords = pv_coords pv'\<rparr>) r)
      (refresh P t (pv, rn)) = map_option fst (sample_at P pv t ((), rn))"
proof (cases "valid_cadence (pv_loader pv)")
  case (Inl e)
  then show ?thesis by (simp add: refresh_def refresh_with_select_def sample_at_def sample_from_def)
next
  case (Inr cad)
  with assms(3) obtain c where c: "valid_cadence (pv_loader pv) = Inr (Some c)"
    using valid_cadence_None by (cases cad) auto
  show ?thesis
  proof (cases "cadence_snap (pl_cal P) c t")
    case None
    with c show ?thesis by (simp add: refresh_def refresh_with_select_def sample_at_def sample_from_def)
  next
    case (Some a)
    note T = valid_cadence_Some [OF c]
    have r: "refresh P t (pv, rn) = refresh_anchor P c a (pv, rn)"
      using c Some by (simp add: refresh_def refresh_with_select_def)
    have kept: "pv_current pv = Some a \<Longrightarrow>
        value_sample P c R a = Some (Inr \<lparr>ds_vars = pv_buffers pv, ds_coords = pv_coords pv\<rparr>)"
      using assms(2) T by (simp add: provider_ok_def buffer_ok_def cadence_eta)
    show ?thesis
      unfolding sample_at_value [OF assms(1,2) c Some] r
      using refresh_anchor_ok [OF assms(1,2) T, of a] kept
      by (cases "refresh_anchor P c a (pv, rn)" rule: io_cases) (auto split: option.splits prod.splits)
  qed
qed

text \<open>
  Every refresh, whatever its per-call selection and outcome, keeps the provider consistent: the
  LRU holds what reading its files gives and the buffer is the sample of the current anchor. A refresh
  that reports no change changed nothing; a projected one leaves the buffer and the LRU alone.
\<close>

theorem refresh_keeps_provider_ok:
  assumes "stable_reads P pv (so_select (pv_loader pv)) W R" and "provider_ok P W R (pv, rn)"
    and "\<forall>s. sel = Some s \<longrightarrow> (\<exists>R'. stable_reads P pv s W R')"
    and "refresh_with_select P t sel (pv, rn) = Some (r, (pv', rn'))"
  shows "provider_ok P W R (pv', rn') \<and> (r = Inr None \<longrightarrow> pv' = pv) \<and> (sel \<noteq> None \<longrightarrow> pv' = pv)"
proof (cases "sel \<noteq> None \<and> \<not> re_supports_selection (pv_reader pv) \<or> valid_cadence (pv_loader pv) = Inr None \<or>
    (\<exists>e. valid_cadence (pv_loader pv) = Inl e)")
  case True
  with assms(2,4) show ?thesis by (auto simp: refresh_with_select_def Let_def split: if_splits)
next
  case False
  then obtain c where c: "valid_cadence (pv_loader pv) = Inr (Some c)"
    and sup: "\<not> (sel \<noteq> None \<and> \<not> re_supports_selection (pv_reader pv))"
    by (cases "valid_cadence (pv_loader pv)") auto
  note T = valid_cadence_Some [OF c]
  from assms(4) c sup obtain a where a: "cadence_snap (pl_cal P) c t = Some a"
    by (cases "cadence_snap (pl_cal P) c t") (auto simp: refresh_with_select_def Let_def split: if_splits)
  show ?thesis
  proof (cases sel)
    case None
    with assms(4) c a have "refresh_anchor P c a (pv, rn) = Some (r, (pv', rn'))"
      by (simp add: refresh_with_select_def Let_def)
    with refresh_anchor_ok [OF assms(1,2) T, of a] None assms(2) show ?thesis
      by (auto split: sum.splits option.splits)
  next
    case (Some s)
    with assms(3) obtain R' where R': "stable_reads P pv s W R'" by blast
    have dim: "time_dim_of pv = st_time_dim (cd_temporal c)" using T by (simp add: time_dim_of_def)
    then have run: "run_ok P (st_time_dim (cd_temporal c)) W rn" using assms(2) by (simp add: provider_ok_def)
    note o = stable_provider.sample_of_fresh [OF stable_provider.intro [OF R'] run, where a = a and q = "()"]
    have m: "bindI (shared (sample_anchor P pv c a s (fresh_files P))) (\<lambda>ds. ret (Some (ds_vars ds))) (pv, rn) =
        Some (r, (pv', rn'))"
      using assms(4) c a sup Some by (simp add: refresh_with_select_def Let_def)
    show ?thesis
      using o m assms(2) Some dim
      by (cases "sample_anchor P pv c a s (fresh_files P) ((), rn)" rule: io_cases)
        (auto simp: shared_def bindI_def provider_ok_def extends_def files_ok_append)
  qed
qed

section \<open>An instance\<close>

text \<open>A store-backed reader of one three-record file, read through six-hourly records.\<close>

definition example_host :: host where
  "example_host = \<lparr>h_digest = (\<lambda>s. s), h_stamp = (\<lambda>t. None), h_parse = (\<lambda>s. None), h_env = (\<lambda>s. None), h_dir_len = 0\<rparr>"

definition example_platform :: "int platform" where
  "example_platform = \<lparr>pl_cal = greg_api, pl_float = whole_float, pl_show = (\<lambda>t. show_int t),
     pl_tf_parse = (\<lambda>s. None), pl_tf_format = (\<lambda>s t. Inr s), pl_alive = (\<lambda>n h. True), pl_host = example_host\<rparr>"

definition example_file :: "int dataset" where
  "example_file = sample_file\<lparr>ds_vars := [(''t'', \<lparr>f_dtype = Int64, f_dims = [''time''], f_shape = [3],
     f_data = AI64 [10, 20, 30], f_fill = None\<rparr>)]\<rparr>"

definition example_reader :: "(unit, int) reader" where
  "example_reader = (whole_reader [''zarr''] (\<lambda>p vars sel. ret example_file))
     \<lparr>re_store_backed := True, re_store := (\<lambda>C url vars sel. ret example_file)\<rparr>"

definition example_source :: data_source where
  "example_source = src_temporal six_hourly (source_new ''s'' ''zarr'' ''mem://s'')"

definition example_provider :: "unit cache \<Rightarrow> (unit, int) provider" where
  "example_provider C = \<lparr>pv_loader = example_source, pv_cache = C, pv_window = None, pv_reader = example_reader,
     pv_buffers = [], pv_coords = [], pv_current = None, pv_files = [], pv_access = Cached\<rparr>"

definition example_run :: "unit io_world \<Rightarrow> (unit, int) run" where
  "example_run w = \<lparr>rn_io = w, rn_heap = [], rn_memo = []\<rparr>"

lemma example_stable:
  "stable_reads example_platform (example_provider C) sel UNIV (\<lambda>fa. Some (Inr example_file))"
  by (simp add: stable_reads_def read_file_at_def resolve_file_def resolve_url_def read_file_def example_provider_def
      example_source_def source_new_def src_temporal_def example_reader_def whole_reader_def bindI_def)

interpretation example: stable_provider example_platform "example_provider C" sel UNIV "\<lambda>fa. Some (Inr example_file)"
  for C sel
  by unfold_locales (rule example_stable)

lemma example_ok:
  "provider_ok example_platform UNIV (\<lambda>fa. Some (Inr example_file)) (example_provider C, example_run w)"
  by (simp add: provider_ok_def run_ok_def memo_ok_def files_ok_def buffer_ok_def example_run_def example_provider_def)

lemma example_discrete: "so_temporal (pv_loader (example_provider C)) = Some six_hourly"
  by (simp add: example_provider_def example_source_def src_temporal_def)

theorem refresh_is_sample_at_witness:
  "\<forall>C w. map_option (\<lambda>(r, (pv', rn')). map_sum id (\<lambda>b. \<lparr>ds_vars = pv_buffers pv', ds_coords = pv_coords pv'\<rparr>) r)
      (refresh example_platform (jan31 + 30000 * ns_per_s) (example_provider C, example_run w)) =
    map_option fst (sample_at example_platform (example_provider C) (jan31 + 30000 * ns_per_s) ((), example_run w))"
  using refresh_is_sample_at [OF example_stable example_ok] by (simp add: example_discrete)

lemma example_cadence: "valid_cadence (pv_loader (example_provider C)) = Inr (Some \<lparr>cd_temporal = six_hourly\<rparr>)"
proof -
  have "pv_loader (example_provider C) = example_source" by (simp add: example_provider_def)
  moreover have "valid_cadence example_source = Inr (Some \<lparr>cd_temporal = six_hourly\<rparr>)" by code_simp
  ultimately show ?thesis by simp
qed

lemma example_snap: "cadence_snap greg_api \<lparr>cd_temporal = six_hourly\<rparr> (jan31 + 30000 * ns_per_s) = Some (jan31 + 21600 * ns_per_s)"
  by code_simp

lemma example_value:
  "value_sample example_platform \<lparr>cd_temporal = six_hourly\<rparr> (\<lambda>fa. Some (Inr example_file)) (jan31 + 21600 * ns_per_s) =
     Some (Inr \<lparr>ds_vars = [(''t'', \<lparr>f_dtype = Int64, f_dims = [], f_shape = [], f_data = AI64 [20], f_fill = None\<rparr>)],
       ds_coords = [(''time'', sample_coord)]\<rparr>)"
  by code_simp

lemma example_refresh:
  "refresh_with_select example_platform (jan31 + 30000 * ns_per_s) None (example_provider C, example_run w) \<noteq> None"
proof -
  have T: "so_temporal (pv_loader (example_provider C)) = Some (cd_temporal \<lparr>cd_temporal = six_hourly\<rparr>)"
    by (simp add: example_discrete)
  have "refresh_anchor example_platform \<lparr>cd_temporal = six_hourly\<rparr> (jan31 + 21600 * ns_per_s)
      (example_provider C, example_run w) \<noteq> None"
  proof
    assume "refresh_anchor example_platform \<lparr>cd_temporal = six_hourly\<rparr> (jan31 + 21600 * ns_per_s)
      (example_provider C, example_run w) = None"
    with refresh_anchor_ok [OF example_stable example_ok [of C w] T, of "jan31 + 21600 * ns_per_s"] example_value
    show False by simp
  qed
  then show ?thesis
    by (simp add: refresh_with_select_def Let_def example_cadence example_snap example_platform_def)
qed

theorem refresh_keeps_provider_ok_witness:
  "\<forall>C w. \<exists>r s. refresh_with_select example_platform (jan31 + 30000 * ns_per_s) None
       (example_provider C, example_run w) = Some (r, s) \<and>
     provider_ok example_platform UNIV (\<lambda>fa. Some (Inr example_file)) s"
proof (intro allI)
  fix C and w :: "unit io_world"
  obtain r pv' rn' where r: "refresh_with_select example_platform (jan31 + 30000 * ns_per_s) None
      (example_provider C, example_run w) = Some (r, (pv', rn'))"
    using example_refresh [of C w] by (metis option.exhaust prod.exhaust)
  from refresh_keeps_provider_ok [OF example_stable example_ok _ this] r
  show "\<exists>r s. refresh_with_select example_platform (jan31 + 30000 * ns_per_s) None
       (example_provider C, example_run w) = Some (r, s) \<and>
     provider_ok example_platform UNIV (\<lambda>fa. Some (Inr example_file)) s" by simp
qed

end
