(* ===== verification/Schedule.thy ===== *)
theory Schedule
  imports Windows Sampling
begin

text \<open>
  The schedule of a provider (theory \<open>Windows\<close>): \<open>refresh_times\<close> returns, and lists the Unix seconds of
  exactly the cadence anchors in the run window, in order.
\<close>

definition at_index :: "civil_api \<Rightarrow> calendar_period \<Rightarrow> instant \<Rightarrow> int \<Rightarrow> instant" where
  "at_index api p start j = the (anchor api p start j)"

text \<open>The anchors with an index from \<open>lo\<close> to \<open>hi\<close> that lie in a half-open window.\<close>

definition anchors_within ::
    "civil_api \<Rightarrow> calendar_period \<Rightarrow> instant \<Rightarrow> int \<Rightarrow> int \<Rightarrow> instant \<Rightarrow> instant \<Rightarrow> instant list" where
  "anchors_within api p start lo hi a b =
     filter (\<lambda>t. a \<le> t \<and> t < b) (map (at_index api p start) [lo..hi])"

lemma times_from_lists:
  assumes "\<forall>j\<in>{k..hi}. anchor api p start j = Some (at_index api p start j)"
    and "\<forall>i\<in>{k..hi}. \<forall>j\<in>{k..hi}. i < j \<longrightarrow> at_index api p start i < at_index api p start j"
    and "k \<le> hi" "in_i64 k" "in_i64 hi" "upper \<le> at_index api p start hi"
  shows "times_from api p start upper k out =
    Some (out @ map unix_s (filter (\<lambda>t. t < upper) (map (at_index api p start) [k..hi])))"
  using assms
proof (induction "nat (hi - k)" arbitrary: k out)
  case 0
  then have "k = hi" by simp
  with 0 show ?case by (subst times_from.simps) simp
next
  case (Suc n)
  have k: "anchor api p start k = Some (at_index api p start k)" using Suc.prems(1,3) by auto
  have split: "[k..hi] = k # [k + 1..hi]" using Suc.prems(3) by (simp add: upto_rec1)
  show ?case
  proof (cases "upper \<le> at_index api p start k")
    case True
    have "upper \<le> at_index api p start j" if "j \<in> {k..hi}" for j
    proof (cases "j = k")
      case False
      then have "k < j" using that by simp
      then have "at_index api p start k < at_index api p start j" using Suc.prems(2,3) that by simp
      with True show ?thesis by simp
    qed (use True in simp)
    then have "filter (\<lambda>t. t < upper) (map (at_index api p start) [k..hi]) = []"
      by (auto simp: filter_empty_conv not_less)
    with True k show ?thesis by (subst times_from.simps) simp
  next
    case False
    then have "k < hi" using Suc.prems(3,6) by (cases "k = hi") auto
    then have i: "in_i64 (k + 1)" using Suc.prems(4,5) by (auto simp: in_i64_def)
    have "times_from api p start upper (k + 1) (out @ [unix_s (at_index api p start k)]) =
        Some ((out @ [unix_s (at_index api p start k)]) @
          map unix_s (filter (\<lambda>t. t < upper) (map (at_index api p start) [k + 1..hi])))"
      using Suc.hyps(2) Suc.prems \<open>k < hi\<close> i by (intro Suc.hyps(1)) auto
    with False k i split show ?thesis by (subst times_from.simps) simp
  qed
qed

text \<open>
  C14: over a bounded run window \<open>refresh_times\<close> returns, and lists the Unix seconds of exactly the cadence
  anchors in the window (from the later of its start and the source's, up to but not including its end),
  in increasing order and without a gap.
\<close>

theorem refresh_times_schedule:
  assumes laws: "civil_laws (pl_cal P)" and T: "so_temporal (pv_loader pv) = Some T"
    and pos: "is_positive (st_frequency T)" and start: "in_range (pl_cal P) (st_start T)"
    and upper: "(case pv_window pv of Some (a, b) \<Rightarrow> Some b | None \<Rightarrow> st_end T) = Some upper"
    and br: "bracketed (pl_cal P) (st_frequency T) (st_start T) (lower_bound (pv_window pv) T) lo hi"
    and g: "lo \<le> floor_guess (st_frequency T) (st_start T) (lower_bound (pv_window pv) T)"
      "floor_guess (st_frequency T) (st_start T) (lower_bound (pv_window pv) T) \<le> hi"
    and reach: "upper \<le> at_index (pl_cal P) (st_frequency T) (st_start T) hi"
  shows "refresh_seconds P pv = Some (map unix_s
      (anchors_within (pl_cal P) (st_frequency T) (st_start T) lo hi (lower_bound (pv_window pv) T) upper))"
proof -
  let ?an = "anchor (pl_cal P) (st_frequency T) (st_start T)"
  let ?at = "at_index (pl_cal P) (st_frequency T) (st_start T)"
  let ?low = "lower_bound (pv_window pv) T"
  from ceil_char [OF laws pos start br g] obtain k c where
    k: "ceil_index (pl_cal P) (st_frequency T) (st_start T) ?low = Some k" "lo \<le> k" "k \<le> hi"
    and from_k: "\<forall>j\<in>{lo..hi}. \<forall>c. ?an j = Some c \<longrightarrow> (?low \<le> c \<longleftrightarrow> k \<le> j)" by blast
  have at: "?an j = Some (?at j)" if "j \<in> {lo..hi}" for j
    using br that by (auto simp: bracketed_def list_all_iff at_index_def)
  have mono: "?at i < ?at j" if "i \<in> {lo..hi}" "j \<in> {lo..hi}" "i < j" for i j
    using civil_laws.anchor_strict_mono [OF laws pos start at [OF that(1)] at [OF that(2)] that(3)]
      bracketed_no_wrap [OF pos br] that(1,2) by auto
  have i: "in_i64 k" "in_i64 hi" using br k by (auto simp: bracketed_def in_i64_def)
  have "times_from (pl_cal P) (st_frequency T) (st_start T) upper k [] =
      Some ([] @ map unix_s (filter (\<lambda>t. t < upper) (map ?at [k..hi])))"
    using at mono k(2) by (intro times_from_lists) (use k i reach in auto)
  moreover have "anchors_within (pl_cal P) (st_frequency T) (st_start T) lo hi ?low upper =
      filter (\<lambda>t. t < upper) (map ?at [k..hi])"
  proof -
    have s: "[lo..hi] = [lo..k - 1] @ [k..hi]" using k(2,3) by (simp add: upto_split1)
    have low: "\<not> ?low \<le> ?at j" if "j \<in> {lo..k - 1}" for j
      using bspec [OF from_k, of j] at [of j] that k(3) by simp
    have high: "?low \<le> ?at j" if "j \<in> {k..hi}" for j
      using bspec [OF from_k, of j] at [of j] that k(2) by simp
    have "filter (\<lambda>t. ?low \<le> t \<and> t < upper) (map ?at [lo..k - 1]) = []"
      using low by (auto simp: filter_empty_conv)
    moreover have "filter (\<lambda>t. ?low \<le> t \<and> t < upper) (map ?at [k..hi]) = filter (\<lambda>t. t < upper) (map ?at [k..hi])"
      using high by (intro filter_cong) auto
    ultimately show ?thesis unfolding anchors_within_def s map_append filter_append by simp
  qed
  ultimately show ?thesis using T pos upper k(1) by (simp add: refresh_seconds_def)
qed

definition example_windowed :: "unit cache \<Rightarrow> (unit, int) provider" where
  "example_windowed C = (example_provider C)\<lparr>pv_window := Some (jan31 + ns_per_s, jan31 + ns_per_day)\<rparr>"

theorem refresh_times_schedule_witness:
  "\<forall>C. refresh_seconds example_platform (example_windowed C) = Some [1454241600, 1454263200, 1454284800]"
proof
  fix C
  have T: "so_temporal (pv_loader (example_windowed C)) = Some six_hourly"
    by (simp add: example_windowed_def example_discrete)
  have w: "pv_window (example_windowed C) = Some (jan31 + ns_per_s, jan31 + ns_per_day)"
    by (simp add: example_windowed_def)
  have P: "pl_cal example_platform = greg_api" by (simp add: example_platform_def)
  have lb: "lower_bound (Some (jan31 + ns_per_s, jan31 + ns_per_day)) six_hourly = jan31 + ns_per_s" by code_simp
  have "refresh_seconds example_platform (example_windowed C) = Some (map unix_s
      (anchors_within (pl_cal example_platform) (st_frequency six_hourly) (st_start six_hourly) 0 5
        (lower_bound (pv_window (example_windowed C)) six_hourly) (jan31 + ns_per_day)))"
  proof (rule refresh_times_schedule [OF _ T], unfold P w lb)
    show "civil_laws greg_api" by (rule greg.civil_laws_axioms)
    show "bracketed greg_api (st_frequency six_hourly) (st_start six_hourly) (jan31 + ns_per_s) 0 5"
      "is_positive (st_frequency six_hourly)" "in_range greg_api (st_start six_hourly)"
      "0 \<le> floor_guess (st_frequency six_hourly) (st_start six_hourly) (jan31 + ns_per_s)"
      "floor_guess (st_frequency six_hourly) (st_start six_hourly) (jan31 + ns_per_s) \<le> 5"
      "jan31 + ns_per_day \<le> at_index greg_api (st_frequency six_hourly) (st_start six_hourly) 5" by code_simp+
  qed simp
  also have "\<dots> = Some [1454241600, 1454263200, 1454284800]"
    unfolding P w lb by code_simp
  finally show "refresh_seconds example_platform (example_windowed C) = Some [1454241600, 1454263200, 1454284800]" .
qed

end
