(* ===== verification/WindowProps.thy ===== *)
theory WindowProps
  imports Windows Sampling
begin

text \<open>
  Windows out of one read (theory \<open>Windows\<close>): a window gathered out of the union of several windows is
  what the window's own read gives, and slicing a record commutes with a window that does not name the
  record dimension.
\<close>

section \<open>Two takes of a field\<close>

text \<open>\<open>q\<close> picks out of what \<open>pu\<close> kept exactly what \<open>pw\<close> picks, along dimension \<open>d\<close> of length \<open>n\<close>.\<close>

definition recovers ::
    "(string \<Rightarrow> nat list option) \<Rightarrow> (string \<Rightarrow> nat list option) \<Rightarrow> (string \<Rightarrow> nat list option)
      \<Rightarrow> string \<Rightarrow> nat \<Rightarrow> bool" where
  "recovers pu q pw d n \<longleftrightarrow>
     (case pu d of
        Some held \<Rightarrow>
          (\<forall>k\<in>set held. k < n) \<and>
          (case q d of
             None \<Rightarrow> False
           | Some p \<Rightarrow> (\<forall>k\<in>set p. k < length held) \<and> pw d = Some (map ((!) held) p))
      | None \<Rightarrow> q d = pw d \<and> (\<forall>v. pw d = Some v \<longrightarrow> (\<forall>k\<in>set v. k < n)))"

definition recovers_field ::
    "(string \<Rightarrow> nat list option) \<Rightarrow> (string \<Rightarrow> nat list option) \<Rightarrow> (string \<Rightarrow> nat list option)
      \<Rightarrow> 'f field \<Rightarrow> bool" where
  "recovers_field pu q pw f \<longleftrightarrow>
     (\<forall>i<length (f_dims f). recovers pu q pw (f_dims f ! i) (f_shape f ! i))"

lemma picks_of_nth:
  "length dims = length shape \<Longrightarrow> i < length dims \<Longrightarrow>
     picks_of p dims shape ! i = (case map_of p (dims ! i) of Some v \<Rightarrow> v | None \<Rightarrow> [0..<shape ! i])"
  by (simp add: picks_of_def)

lemma length_picks_of [simp]: "length dims = length shape \<Longrightarrow> length (picks_of p dims shape) = length shape"
  by (simp add: picks_of_def)

lemma map_nth_upt: "\<forall>k\<in>set v. k < n \<Longrightarrow> map ((!) [0..<n]) v = v"
  by (induction v) auto

lemma wf_field_lengths: "wf_field f \<Longrightarrow> length (f_dims f) = length (f_shape f)"
  by (simp add: wf_field_def)

lemma recovers_fit:
  assumes wf: "wf_field f" and rec: "recovers_field (map_of pu) (map_of q) (map_of pw) f"
  defines "tu \<equiv> picks_of pu (f_dims f) (f_shape f)"
  shows "picks_fit (f_shape f) tu"
    and "picks_fit (f_shape f) (picks_of pw (f_dims f) (f_shape f))"
    and "picks_fit (map length tu) (picks_of q (f_dims f) (map length tu))"
    and "compose_picks tu (picks_of q (f_dims f) (map length tu)) = picks_of pw (f_dims f) (f_shape f)"
proof -
  note l = wf_field_lengths [OF wf]
  have r: "recovers (map_of pu) (map_of q) (map_of pw) (f_dims f ! i) (f_shape f ! i)" if "i < length (f_shape f)" for i
    using rec that l by (simp add: recovers_field_def)
  have u: "tu ! i = (case map_of pu (f_dims f ! i) of Some v \<Rightarrow> v | None \<Rightarrow> [0..<f_shape f ! i])"
    if "i < length (f_shape f)" for i
    using that l by (simp add: tu_def picks_of_nth)
  have lu: "length tu = length (f_shape f)" using l by (simp add: tu_def)
  show "picks_fit (f_shape f) tu"
    using r u lu by (fastforce simp: picks_fit_def recovers_def split: option.splits)
  show "picks_fit (f_shape f) (picks_of pw (f_dims f) (f_shape f))"
    unfolding picks_fit_def
  proof (intro conjI allI impI ballI)
    fix i k assume i: "i < length (f_shape f)" and k: "k \<in> set (picks_of pw (f_dims f) (f_shape f) ! i)"
    show "k < f_shape f ! i"
      using r [OF i] k l i by (fastforce simp: picks_of_nth recovers_def split: option.splits)
  qed (simp add: l)
  have qi: "picks_of q (f_dims f) (map length tu) ! i =
      (case map_of q (f_dims f ! i) of Some v \<Rightarrow> v | None \<Rightarrow> [0..<length (tu ! i)])" if "i < length (f_shape f)" for i
    using that l lu by (cases "map_of q (f_dims f ! i)") (simp_all add: picks_of_nth)
  show "picks_fit (map length tu) (picks_of q (f_dims f) (map length tu))"
    unfolding picks_fit_def
  proof (intro conjI allI impI ballI)
    fix i k assume i: "i < length (map length tu)"
      and k: "k \<in> set (picks_of q (f_dims f) (map length tu) ! i)"
    then show "k < map length tu ! i"
      using r [of i] u [of i] qi [of i] lu by (fastforce simp: recovers_def split: option.splits)
  qed (simp add: l lu)
  show "compose_picks tu (picks_of q (f_dims f) (map length tu)) = picks_of pw (f_dims f) (f_shape f)"
  proof (rule nth_equalityI)
    show "length (compose_picks tu (picks_of q (f_dims f) (map length tu))) = length (picks_of pw (f_dims f) (f_shape f))"
      using l lu by (simp add: compose_picks_def)
    fix i assume "i < length (compose_picks tu (picks_of q (f_dims f) (map length tu)))"
    then have i: "i < length (f_shape f)" using l lu by (simp add: compose_picks_def)
    then have "compose_picks tu (picks_of q (f_dims f) (map length tu)) ! i =
        map ((!) (tu ! i)) (picks_of q (f_dims f) (map length tu) ! i)"
      using l lu by (simp add: compose_picks_def)
    also have "\<dots> = picks_of pw (f_dims f) (f_shape f) ! i"
      using r [OF i] u [OF i] qi [OF i] l i
      by (auto simp: picks_of_nth recovers_def map_nth_upt split: option.splits)
    finally show "compose_picks tu (picks_of q (f_dims f) (map length tu)) ! i = picks_of pw (f_dims f) (f_shape f) ! i" .
  qed
qed

lemma field_take_take:
  assumes wf: "wf_field f" and rec: "recovers_field (map_of pu) (map_of q) (map_of pw) f"
  shows "Option.bind (field_take pu f) (field_take q) = field_take pw f" and "field_take pw f \<noteq> None"
proof -
  let ?tu = "picks_of pu (f_dims f) (f_shape f)"
  let ?tw = "picks_of pw (f_dims f) (f_shape f)"
  let ?g = "field_gather ?tu f"
  note fits = recovers_fit [OF assms]
  have g: "f_dims ?g = f_dims f" "f_shape ?g = map length ?tu" by (simp_all add: field_gather_def)
  have wg: "wf_field ?g" by (rule wf_field_gather [OF wf fits(1)])
  have lens: "map length (picks_of q (f_dims f) (map length ?tu)) = map length ?tw"
    unfolding fits(4) [symmetric] using wf_field_lengths [OF wf]
    by (intro nth_equalityI) (simp_all add: compose_picks_def)
  have "field_take q ?g = Some (field_gather (picks_of q (f_dims f) (map length ?tu)) ?g)"
    using field_take_eq [OF wg, of q] fits(3) by (simp add: g)
  also have "field_gather (picks_of q (f_dims f) (map length ?tu)) ?g = field_gather ?tw f"
    using data_gather_compose [OF fits(1,3), of "f_data f"] lens
    unfolding fits(4) field_gather_def by simp
  also have "Some \<dots> = field_take pw f" using field_take_eq [OF wf fits(2)] by simp
  finally show "Option.bind (field_take pu f) (field_take q) = field_take pw f"
    by (simp add: field_take_eq [OF wf fits(1)])
  show "field_take pw f \<noteq> None" using field_take_eq [OF wf fits(2)] by simp
qed

section \<open>Two takes of a dataset\<close>

definition fields_of :: "'f dataset \<Rightarrow> 'f field list" where
  "fields_of ds = map snd (ds_vars ds) @ map (\<lambda>(k, c). co_field c) (ds_coords ds)"

lemma traverse_bind:
  "\<forall>(k, x)\<in>set xs. Option.bind (f x) g = h x \<and> h x \<noteq> None \<Longrightarrow>
     Option.bind (traverse f xs) (traverse g) = traverse h xs \<and> traverse h xs \<noteq> None"
proof (induction xs)
  case (Cons kx xs)
  obtain k x where kx: "kx = (k, x)" by (cases kx)
  from Cons.prems kx have "Option.bind (f x) g = h x" "h x \<noteq> None" by auto
  then obtain y z where x: "f x = Some y" "g y = Some z" "h x = Some z" by (cases "f x") auto
  from Cons have "Option.bind (traverse f xs) (traverse g) = traverse h xs" "traverse h xs \<noteq> None" by auto
  then obtain ys zs where "traverse f xs = Some ys" "traverse g ys = Some zs" "traverse h xs = Some zs"
    by (cases "traverse f xs") auto
  with x kx show ?case by simp
qed simp

lemma coord_take_take:
  assumes "wf_field (co_field c)" "recovers_field (map_of pu) (map_of q) (map_of pw) (co_field c)"
  shows "Option.bind (coord_take pu c) (coord_take q) = coord_take pw c \<and> coord_take pw c \<noteq> None"
proof -
  note t = field_take_take [OF assms]
  from t obtain g h where "field_take pu (co_field c) = Some g" "field_take q g = Some h" "field_take pw (co_field c) = Some h"
    by (cases "field_take pu (co_field c)") auto
  then show ?thesis by (simp add: coord_take_def)
qed

lemma dataset_take_take:
  assumes "\<forall>f\<in>set (fields_of ds). wf_field f \<and> recovers_field (map_of pu) (map_of q) (map_of pw) f"
  shows "Option.bind (dataset_take pu ds) (dataset_take q) = dataset_take pw ds \<and> dataset_take pw ds \<noteq> None"
proof -
  have "Option.bind (field_take pu f) (field_take q) = field_take pw f \<and> field_take pw f \<noteq> None"
    if "(k, f) \<in> set (ds_vars ds)" for k f
    using assms that by (intro conjI field_take_take) (force simp: fields_of_def)+
  then have v: "Option.bind (traverse (field_take pu) (ds_vars ds)) (traverse (field_take q)) = traverse (field_take pw) (ds_vars ds)
      \<and> traverse (field_take pw) (ds_vars ds) \<noteq> None"
    by (intro traverse_bind) blast
  have "Option.bind (coord_take pu c) (coord_take q) = coord_take pw c \<and> coord_take pw c \<noteq> None"
    if "(k, c) \<in> set (ds_coords ds)" for k c
    using assms that by (intro coord_take_take) (force simp: fields_of_def)+
  then have c: "Option.bind (traverse (coord_take pu) (ds_coords ds)) (traverse (coord_take q)) = traverse (coord_take pw) (ds_coords ds)
      \<and> traverse (coord_take pw) (ds_coords ds) \<noteq> None"
    by (intro traverse_bind) blast
  from v obtain v1 v2 where "traverse (field_take pu) (ds_vars ds) = Some v1" "traverse (field_take q) v1 = Some v2"
    "traverse (field_take pw) (ds_vars ds) = Some v2" by (cases "traverse (field_take pu) (ds_vars ds)") auto
  moreover from c obtain c1 c2 where "traverse (coord_take pu) (ds_coords ds) = Some c1" "traverse (coord_take q) c1 = Some c2"
    "traverse (coord_take pw) (ds_coords ds) = Some c2" by (cases "traverse (coord_take pu) (ds_coords ds)") auto
  ultimately show ?thesis by (simp add: dataset_take_def)
qed

section \<open>What a named window keeps\<close>

text \<open>The picks a named window stands for: what a reader that pushes the window down reads.\<close>

definition narrows :: "(string \<times> axis_select) list \<Rightarrow> string \<Rightarrow> nat list option" where
  "narrows m dim = (case narrowed '''' dim m of Inr v \<Rightarrow> v | Inl e \<Rightarrow> None)"

definition picks_for :: "(string \<times> axis_select) list \<Rightarrow> (string \<times> nat list) list" where
  "picks_for m = List.map_filter (\<lambda>dim. map_option (Pair dim) (narrows m dim)) (map fst m)"

text \<open>Every index the window names is inside its dimension, in every array of the dataset.\<close>

definition window_fits :: "'f dataset \<Rightarrow> (string \<times> axis_select) list \<Rightarrow> bool" where
  "window_fits ds m \<longleftrightarrow>
     (\<forall>f\<in>set (fields_of ds). wf_field f \<and>
        (\<forall>i<length (f_dims f). \<forall>v. narrows m (f_dims f ! i) = Some v \<longrightarrow> (\<forall>k\<in>set v. k < f_shape f ! i)))"

lemma map_of_filter_map:
  "map_of (List.map_filter (\<lambda>d. map_option (Pair d) (g d)) ds) d = (if d \<in> set ds then g d else None)"
  by (induction ds) (auto simp: List.map_filter_def split: option.splits)

lemma narrows_outside: "d \<notin> fst ` set m \<Longrightarrow> narrows m d = None"
proof -
  assume "d \<notin> fst ` set m"
  then have "map_of m d = None" by (simp add: map_of_eq_None_iff)
  then show ?thesis by (simp add: narrows_def narrowed_def)
qed

lemma map_of_picks_for [simp]: "map_of (picks_for m) = narrows m"
proof
  fix d
  show "map_of (picks_for m) d = narrows m d"
    using narrows_outside [of d m] unfolding picks_for_def map_of_filter_map by (auto split: if_splits)
qed

lemma unbounded_format: "unbounded_indices f ax = Inr v \<longleftrightarrow> unbounded_indices g ax = Inr v"
  by (cases ax) (auto simp: unbounded_indices_def)

lemma narrowed_narrows: "narrowed f dim m = Inr v \<Longrightarrow> narrows m dim = v"
proof -
  assume n: "narrowed f dim m = Inr v"
  then have "narrowed '''' dim m = Inr v"
    using unbounded_format by (cases "map_of m dim") (auto simp: narrowed_def)
  then show ?thesis by (simp add: narrows_def)
qed

section \<open>The union\<close>

lemma union_along_ok:
  "union_along f dim ms acc0 = Inr acc \<Longrightarrow> m \<in> set ms \<Longrightarrow> narrowed f dim m = Inr (narrows m dim)"
  by (induction ms arbitrary: acc0) (auto simp: bindR_Inr dest: narrowed_narrows)

lemma union_along_None: "union_along f dim ms None = Inr acc \<Longrightarrow> acc = None"
  by (induction ms) (auto simp: bindR_Inr join_indices_def split: option.splits)

text \<open>A union that stays a list of indices holds those of every window, and no other.\<close>

lemma union_along_holds:
  assumes "union_along f dim ms (Some a) = Inr (Some held)"
  shows "set held = set a \<union> (\<Union>m\<in>set ms. \<Union>v\<in>set_option (narrows m dim). set v)"
    and "m \<in> set ms \<Longrightarrow> narrows m dim \<noteq> None"
proof -
  have "set held = set a \<union> (\<Union>m\<in>set ms. \<Union>v\<in>set_option (narrows m dim). set v) \<and>
      (\<forall>m\<in>set ms. narrows m dim \<noteq> None)"
    using assms
  proof (induction ms arbitrary: a)
    case (Cons m ms)
    then obtain idx where n: "narrowed f dim m = Inr idx"
        "union_along f dim ms (join_indices (Some a) idx) = Inr (Some held)"
      by (auto simp: bindR_Inr)
    from n(2) union_along_None obtain i where "idx = Some i" by (cases idx) (auto simp: join_indices_def)
    with Cons.IH [of "remdups (sort (a @ i))"] n narrowed_narrows [OF n(1)] show ?case
      by (auto simp: join_indices_def)
  qed simp
  then show "set held = set a \<union> (\<Union>m\<in>set ms. \<Union>v\<in>set_option (narrows m dim). set v)"
    "m \<in> set ms \<Longrightarrow> narrows m dim \<noteq> None" by simp_all
qed

text \<open>The union of a plan, dimension by dimension.\<close>

definition union_of :: "string \<Rightarrow> (string \<times> axis_select) list list \<Rightarrow> (string \<times> axis_select) list \<Rightarrow> bool" where
  "union_of fmt ms uni \<longleftrightarrow>
     list_all2 (\<lambda>dim (d, ax). d = dim \<and> (\<exists>acc. union_along fmt dim ms (Some []) = Inr acc \<and> ax = axis_of_union acc))
       (window_dims ms) uni"

lemma plan_windows_union:
  assumes "plan_windows dbg pv ws = Inr plan"
  shows "wp_windows plan = ws" "union_of (so_format (pv_loader pv)) (map named_of ws) (wp_union plan)"
    "w \<in> set ws \<Longrightarrow> w = SelNamed (named_of w)"
proof -
  from assms obtain us uni where e: "each (check_window dbg pv) ws = Inr us"
    and u: "each (\<lambda>dim. bindR (union_along (so_format (pv_loader pv)) dim (map named_of ws) (Some [])) (\<lambda>acc.
        Inr (dim, axis_of_union acc))) (window_dims (map named_of ws)) = Inr uni"
    and p: "plan = \<lparr>wp_windows = ws, wp_union = uni\<rparr>"
    by (auto simp: plan_windows_def bindR_Inr Let_def)
  from p show "wp_windows plan = ws" by simp
  from u p show "union_of (so_format (pv_loader pv)) (map named_of ws) (wp_union plan)"
    by (auto simp: union_of_def each_Inr bindR_Inr elim!: list_all2_mono)
  assume "w \<in> set ws"
  with e obtain x where "check_window dbg pv w = Inr x" by (auto simp: each_Inr list_all2_conv_all_nth in_set_conv_nth)
  then show "w = SelNamed (named_of w)"
    by (auto simp: check_window_def Let_def named_of_def split: selection.splits if_splits)
qed

lemma map_of_union:
  assumes "union_of fmt ms uni"
  shows "map_of uni dim = (if dim \<in> set (window_dims ms)
      then (case union_along fmt dim ms (Some []) of Inr acc \<Rightarrow> Some (axis_of_union acc) | Inl e \<Rightarrow> None) else None)"
    and "dim \<in> set (window_dims ms) \<Longrightarrow> \<exists>acc. union_along fmt dim ms (Some []) = Inr acc"
proof -
  let ?P = "\<lambda>dim (d, ax). d = dim \<and> (\<exists>acc. union_along fmt dim ms (Some []) = Inr acc \<and> ax = axis_of_union acc)"
  have "list_all2 ?P ds u \<Longrightarrow>
      map_of u dim = (if dim \<in> set ds
      then (case union_along fmt dim ms (Some []) of Inr acc \<Rightarrow> Some (axis_of_union acc) | Inl e \<Rightarrow> None) else None) \<and>
      (dim \<in> set ds \<longrightarrow> (\<exists>acc. union_along fmt dim ms (Some []) = Inr acc))" for ds u
    by (induction rule: list_all2_induct) (auto split: if_splits)
  with assms show "map_of uni dim = (if dim \<in> set (window_dims ms)
      then (case union_along fmt dim ms (Some []) of Inr acc \<Rightarrow> Some (axis_of_union acc) | Inl e \<Rightarrow> None) else None)"
    "dim \<in> set (window_dims ms) \<Longrightarrow> \<exists>acc. union_along fmt dim ms (Some []) = Inr acc"
    unfolding union_of_def by blast+
qed

lemma in_window_dims: "m \<in> set ms \<Longrightarrow> (d, ax) \<in> set m \<Longrightarrow> d \<in> set (window_dims ms)"
  by (force simp: window_dims_def)

lemma union_narrows:
  assumes "union_of fmt ms uni"
  shows "narrows uni dim = (if dim \<in> set (window_dims ms)
      then (case union_along fmt dim ms (Some []) of Inr acc \<Rightarrow> acc | Inl e \<Rightarrow> None) else None)"
  using map_of_union [OF assms, of dim]
  by (auto simp: narrows_def narrowed_def axis_of_union_def unbounded_indices_def split: option.splits)

section \<open>The window out of the union's read\<close>

lemma positions_in_holds:
  "set wanted \<subseteq> set held \<Longrightarrow>
     \<exists>p. positions_in held wanted = Some p \<and> map ((!) held) p = wanted \<and> (\<forall>k\<in>set p. k < length held)"
proof (induction wanted)
  case (Cons g gs)
  from Cons.prems obtain i where i: "position (\<lambda>x. x = g) held = Some i"
    using position_None [of "\<lambda>x. x = g" held] by (cases "position (\<lambda>x. x = g) held") auto
  from Cons obtain p where "positions_in held gs = Some p" "map ((!) held) p = gs" "\<forall>k\<in>set p. k < length held" by auto
  with i position_Some [OF i] show ?case by simp
qed simp

lemma resolve_in_fits:
  "unbounded_indices f ax = Inr (Some v) \<Longrightarrow> \<forall>k\<in>set v. k < n \<Longrightarrow> resolve_in n f ax = Inr v"
proof -
  assume u: "unbounded_indices f ax = Inr (Some v)" and v: "\<forall>k\<in>set v. k < n"
  have none: "find (\<lambda>g. n \<le> g) v = None" using v by (auto simp: find_None_iff)
  have "v \<noteq> [] \<Longrightarrow> last v < n" using v by simp
  with u none show ?thesis
    by (cases ax) (auto simp: unbounded_indices_def resolve_in_def Let_def split: if_splits)
qed

text \<open>The picks \<open>slice_window\<close> makes for a dimension.\<close>

definition axis_found :: "'f dataset \<Rightarrow> (string \<times> axis_select) list \<Rightarrow> string \<Rightarrow> nat list \<Rightarrow> nat list option" where
  "axis_found uds uni dim v =
     (case narrows uni dim of
        Some held \<Rightarrow> positions_in held v
      | None \<Rightarrow> (if axis_len uds dim = None then None else Some v))"

definition pick_of ::
    "'f dataset \<Rightarrow> (string \<times> axis_select) list \<Rightarrow> (string \<times> axis_select) list \<Rightarrow> string \<Rightarrow> nat list option" where
  "pick_of uds uni m dim = Option.bind (narrows m dim) (axis_found uds uni dim)"

lemma axis_picks_found:
  assumes u: "unbounded_indices fmt ax = Inr idx"
    and uni: "map_of uni dim = Some (axis_of_union (narrows uni dim))"
    and held: "\<And>v h. idx = Some v \<Longrightarrow> narrows uni dim = Some h \<Longrightarrow> set v \<subseteq> set h"
    and fits: "\<And>v n. idx = Some v \<Longrightarrow> narrows uni dim = None \<Longrightarrow> axis_len uds dim = Some n \<Longrightarrow>
        \<not> is_time_dim uds dim \<and> (\<forall>k\<in>set v. k < n)"
  shows "axis_picks uds fmt uni dim ax = Some (Inr (Option.bind idx (axis_found uds uni dim)))"
proof (cases idx)
  case None
  with u show ?thesis by (simp add: axis_picks_def)
next
  case (Some v)
  show ?thesis
  proof (cases "narrows uni dim")
    case (Some h)
    with held [OF \<open>idx = Some v\<close>] positions_in_holds [of v h] obtain p where "positions_in h v = Some p" by blast
    with Some u \<open>idx = Some v\<close> uni show ?thesis by (simp add: axis_picks_def axis_found_def axis_of_union_def)
  next
    case None
    with fits [OF \<open>idx = Some v\<close>] resolve_in_fits [of fmt ax v] u \<open>idx = Some v\<close> uni show ?thesis
      by (auto simp: axis_picks_def axis_found_def axis_of_union_def split: option.splits)
  qed
qed

lemma window_picks_found:
  assumes "\<And>dim ax. (dim, ax) \<in> set m \<Longrightarrow> axis_picks uds fmt uni dim ax = Some (Inr (g dim))"
  shows "window_picks uds fmt uni m = Some (Inr (List.map_filter (\<lambda>d. map_option (Pair d) (g d)) (map fst m)))"
  using assms
proof (induction m)
  case (Cons da m)
  obtain d a where "da = (d, a)" by (cases da)
  moreover have "axis_picks uds fmt uni d a = Some (Inr (g d))" using Cons.prems calculation by simp
  moreover have "window_picks uds fmt uni m = Some (Inr (List.map_filter (\<lambda>d. map_option (Pair d) (g d)) (map fst m)))"
    using Cons by simp
  ultimately show ?case by (simp add: List.map_filter_def split: option.splits)
qed (simp add: List.map_filter_def)

lemma traverse_Some: "traverse f xs = Some ys \<Longrightarrow> list_all2 (\<lambda>(k, x) (k', y). k' = k \<and> f x = Some y) xs ys"
proof (induction xs arbitrary: ys)
  case (Cons kx xs)
  then show ?case by (cases kx) (auto simp: bind_eq_Some_conv)
qed simp

lemma taken_fields:
  assumes "dataset_take pu ds = Some uds"
  shows "list_all2 (\<lambda>f g. field_take pu f = Some g) (fields_of ds) (fields_of uds)"
    and "map_option co_units (map_of (ds_coords uds) d) = map_option co_units (map_of (ds_coords ds) d)"
proof -
  from assms have v: "traverse (field_take pu) (ds_vars ds) = Some (ds_vars uds)"
    and c: "traverse (coord_take pu) (ds_coords ds) = Some (ds_coords uds)"
    by (auto simp: dataset_take_def bind_eq_Some_conv)
  have "list_all2 (\<lambda>f g. field_take pu f = Some g) (map snd xs) (map snd ys)"
    if "list_all2 (\<lambda>(k, x) (k', y). k' = k \<and> field_take pu x = Some y) xs ys" for xs ys
    using that by (induction rule: list_all2_induct) auto
  moreover have "list_all2 (\<lambda>f g. field_take pu f = Some g) (map (\<lambda>(k, c). co_field c) xs) (map (\<lambda>(k, c). co_field c) ys)
      \<and> map_option co_units (map_of ys d) = map_option co_units (map_of xs d)"
    if "list_all2 (\<lambda>(k, x) (k', y). k' = k \<and> coord_take pu x = Some y) xs ys" for xs ys
    using that by (induction rule: list_all2_induct) (auto simp: coord_take_def)
  ultimately show "list_all2 (\<lambda>f g. field_take pu f = Some g) (fields_of ds) (fields_of uds)"
    "map_option co_units (map_of (ds_coords uds) d) = map_option co_units (map_of (ds_coords ds) d)"
    using traverse_Some [OF v] traverse_Some [OF c] by (auto simp: fields_of_def intro!: list_all2_appendI)
qed

lemma is_time_dim_taken: "dataset_take pu ds = Some uds \<Longrightarrow> is_time_dim uds d = is_time_dim ds d"
proof -
  assume "dataset_take pu ds = Some uds"
  note u = taken_fields(2) [OF this, of d]
  have "Option.bind (map_of (ds_coords uds) d) co_units = Option.bind (map_of (ds_coords ds) d) co_units"
    using u by (cases "map_of (ds_coords uds) d"; cases "map_of (ds_coords ds) d") auto
  then show ?thesis by (simp add: is_time_dim_def)
qed

text \<open>A dimension the union leaves whole has its length in the union's read.\<close>

lemma axis_len_taken:
  assumes u: "dataset_take pu ds = Some uds" and d: "map_of pu d = None"
    and wf: "\<forall>f\<in>set (fields_of ds). wf_field f \<and> picks_fit (f_shape f) (picks_of pu (f_dims f) (f_shape f))"
  shows "axis_len uds d = find_map (dim_len d) (fields_of ds)"
proof -
  have "dim_len d g = dim_len d f" if "field_take pu f = Some g" "f \<in> set (fields_of ds)" for f g
  proof -
    have g: "g = field_gather (picks_of pu (f_dims f) (f_shape f)) f"
      using field_take_eq [of f pu] wf that by simp
    have "f_shape g ! i = f_shape f ! i" if i: "position (\<lambda>x. x = d) (f_dims f) = Some i" for i
    proof -
      have "length (f_dims f) = length (f_shape f)" using wf \<open>f \<in> set (fields_of ds)\<close> wf_field_lengths by blast
      then show ?thesis using position_Some [OF i] d by (simp add: g field_gather_def picks_of_nth)
    qed
    then show ?thesis by (cases "position (\<lambda>x. x = d) (f_dims f)") (simp_all add: dim_len_def, simp_all add: g field_gather_def)
  qed
  then have "list_all2 (\<lambda>f g. dim_len d g = dim_len d f) (fields_of ds) (fields_of uds)"
    using taken_fields(1) [OF u] by (auto simp: list_all2_conv_all_nth)
  moreover have "list_all2 (\<lambda>f g. dim_len d g = dim_len d f) fs gs \<Longrightarrow> find_map (dim_len d) gs = find_map (dim_len d) fs" for fs gs
    by (induction rule: list_all2_induct) (auto split: option.splits)
  ultimately show ?thesis by (simp add: axis_len_def fields_of_def)
qed

lemma find_map_dim:
  "find_map (dim_len d) fs = Some n \<Longrightarrow> \<exists>f\<in>set fs. \<exists>i<length (f_dims f). f_dims f ! i = d \<and> f_shape f ! i = n"
  by (induction fs) (auto simp: dim_len_def split: option.splits dest: position_Some)

lemma find_map_None: "find_map (dim_len d) fs = None \<Longrightarrow> f \<in> set fs \<Longrightarrow> i < length (f_dims f) \<Longrightarrow> f_dims f ! i \<noteq> d"
  by (induction fs) (auto simp: dim_len_def position_None split: option.splits)

lemma fitting_picks:
  assumes "window_fits ds m" "f \<in> set (fields_of ds)"
  shows "picks_fit (f_shape f) (picks_of (picks_for m) (f_dims f) (f_shape f))"
  unfolding picks_fit_def
proof (intro conjI allI impI ballI)
  have l: "length (f_dims f) = length (f_shape f)" using assms by (auto simp: window_fits_def wf_field_lengths)
  then show "length (picks_of (picks_for m) (f_dims f) (f_shape f)) = length (f_shape f)" by simp
  fix i k assume i: "i < length (f_shape f)" and k: "k \<in> set (picks_of (picks_for m) (f_dims f) (f_shape f) ! i)"
  with assms l show "k < f_shape f ! i"
    by (cases "narrows m (f_dims f ! i)") (auto simp: picks_of_nth window_fits_def)
qed

text \<open>A union of windows that fit fits.\<close>

lemma union_fits:
  assumes u: "union_of fmt ms uni" and fits: "\<forall>m\<in>set ms. window_fits ds m" and ne: "ms \<noteq> []"
  shows "window_fits ds uni"
  unfolding window_fits_def
proof (intro ballI conjI allI impI)
  fix f assume f: "f \<in> set (fields_of ds)"
  with fits ne show "wf_field f" by (cases ms) (auto simp: window_fits_def)
  fix i v k assume i: "i < length (f_dims f)" and v: "narrows uni (f_dims f ! i) = Some v" and k: "k \<in> set v"
  from v union_narrows [OF u] map_of_union(2) [OF u]
  have "union_along fmt (f_dims f ! i) ms (Some []) = Inr (Some v)" by (fastforce split: if_splits)
  from union_along_holds(1) [OF this] k
  obtain m w where "m \<in> set ms" "narrows m (f_dims f ! i) = Some w" "k \<in> set w" by auto
  with fits f i show "k < f_shape f ! i" by (auto simp: window_fits_def)
qed

lemma union_covers:
  assumes u: "union_of fmt ms uni" and m: "m \<in> set ms" and h: "narrows uni d = Some held"
  shows "\<exists>v. narrows m d = Some v \<and> set v \<subseteq> set held"
proof -
  from h union_narrows [OF u] map_of_union(2) [OF u]
  have along: "union_along fmt d ms (Some []) = Inr (Some held)" by (fastforce split: if_splits)
  from union_along_holds(2) [OF this m] obtain v where "narrows m d = Some v" by blast
  with union_along_holds(1) [OF along] m show ?thesis by force
qed

lemma dataset_take_fits:
  assumes "window_fits ds m"
  shows "\<exists>uds. dataset_take (picks_for m) ds = Some uds"
proof -
  have f: "field_take (picks_for m) f \<noteq> None" if "f \<in> set (fields_of ds)" for f
    using that assms field_take_eq [of f "picks_for m"] fitting_picks [OF assms that]
    by (simp add: window_fits_def)
  have v: "\<exists>y. traverse (field_take (picks_for m)) xs = Some y" if "\<forall>(k, g)\<in>set xs. field_take (picks_for m) g \<noteq> None" for xs
    using that by (induction xs) auto
  have c: "\<exists>y. traverse (coord_take (picks_for m)) xs = Some y" if "\<forall>(k, c)\<in>set xs. field_take (picks_for m) (co_field c) \<noteq> None" for xs
    using that by (induction xs) (auto simp: coord_take_def)
  have "\<forall>(k, g)\<in>set (ds_vars ds). field_take (picks_for m) g \<noteq> None"
    "\<forall>(k, c)\<in>set (ds_coords ds). field_take (picks_for m) (co_field c) \<noteq> None"
    using f by (force simp: fields_of_def)+
  with v c obtain vs cs where "traverse (field_take (picks_for m)) (ds_vars ds) = Some vs"
    "traverse (coord_take (picks_for m)) (ds_coords ds) = Some cs" by blast
  then show ?thesis by (simp add: dataset_take_def)
qed

lemma slice_of_union:
  assumes u: "union_of fmt ms uni" and m: "m \<in> set ms" "distinct (map fst m)"
    and fits: "\<forall>m\<in>set ms. window_fits ds m"
    and time: "\<forall>d. narrows m d \<noteq> None \<longrightarrow> \<not> is_time_dim ds d"
  shows "\<exists>uds. dataset_take (picks_for uni) ds = Some uds \<and>
    slice_window uds (SelNamed m) (SelNamed uni) fmt = map_option Inr (dataset_take (picks_for m) ds)"
proof -
  have ne: "ms \<noteq> []" using m by auto
  note ufits = union_fits [OF u fits ne]
  let ?fs = "fields_of ds"
  from dataset_take_fits [OF ufits] obtain uds where uds: "dataset_take (picks_for uni) ds = Some uds" by blast
  have wf: "\<forall>f\<in>set ?fs. wf_field f \<and> picks_fit (f_shape f) (picks_of (picks_for uni) (f_dims f) (f_shape f))"
    using ufits fitting_picks [OF ufits] by (auto simp: window_fits_def)
  let ?q = "List.map_filter (\<lambda>d. map_option (Pair d) (pick_of uds uni m d)) (map fst m)"
  have len: "axis_len uds d = find_map (dim_len d) ?fs" if "narrows uni d = None" for d
    using axis_len_taken [OF uds _ wf] that by simp
  have small: "k < n" if "narrows m d = Some v" "k \<in> set v" "find_map (dim_len d) ?fs = Some n" for d v k n
    using find_map_dim [OF that(3)] that(1,2) fits m(1) by (auto simp: window_fits_def)
  have pick: "axis_picks uds fmt uni d ax = Some (Inr (pick_of uds uni m d))" if da: "(d, ax) \<in> set m" for d ax
  proof -
    from in_window_dims [OF m(1) da] have d: "d \<in> set (window_dims ms)" .
    from map_of_union [OF u, of d] union_narrows [OF u, of d] d
    have uni: "map_of uni d = Some (axis_of_union (narrows uni d))" by auto
    from map_of_union(2) [OF u d] union_along_ok [OF _ m(1)] have "narrowed fmt d m = Inr (narrows m d)" by blast
    moreover have "map_of m d = Some ax" using da m(2) by simp
    ultimately have idx: "unbounded_indices fmt ax = Inr (narrows m d)" by (simp add: narrowed_def)
    show ?thesis
      unfolding pick_of_def
    proof (rule axis_picks_found [OF idx uni])
      fix v h assume "narrows m d = Some v" "narrows uni d = Some h"
      with union_covers [OF u m(1)] show "set v \<subseteq> set h" by fastforce
    next
      fix v n assume "narrows m d = Some v" "narrows uni d = None" "axis_len uds d = Some n"
      with time is_time_dim_taken [OF uds, of d] small len [of d] show "\<not> is_time_dim uds d \<and> (\<forall>k\<in>set v. k < n)" by auto
    qed
  qed
  have q: "map_of ?q d = pick_of uds uni m d" for d
    using narrows_outside [of d m] by (auto simp: map_of_filter_map pick_of_def)
  have "recovers_field (map_of (picks_for uni)) (map_of ?q) (map_of (picks_for m)) f" if f: "f \<in> set ?fs" for f
    unfolding recovers_field_def
  proof (intro allI impI)
    fix i assume i: "i < length (f_dims f)"
    let ?d = "f_dims f ! i"
    show "recovers (map_of (picks_for uni)) (map_of ?q) (map_of (picks_for m)) ?d (f_shape f ! i)"
    proof (cases "narrows uni ?d")
      case (Some h)
      from union_covers [OF u m(1) Some] obtain v where v: "narrows m ?d = Some v" "set v \<subseteq> set h" by blast
      from positions_in_holds [OF v(2)] obtain p where "positions_in h v = Some p" "map ((!) h) p = v" "\<forall>k\<in>set p. k < length h"
        by blast
      moreover have "\<forall>k\<in>set h. k < f_shape f ! i" using ufits f i Some by (auto simp: window_fits_def)
      moreover have "pick_of uds uni m ?d = positions_in h v" using Some v(1) by (simp add: pick_of_def axis_found_def)
      ultimately show ?thesis using Some v(1) by (simp add: recovers_def q)
    next
      case None
      have "axis_len uds ?d \<noteq> None" using len [OF None] find_map_None [of ?d ?fs f i] f i by auto
      then have "pick_of uds uni m ?d = narrows m ?d"
        using None by (cases "narrows m ?d") (simp_all add: pick_of_def axis_found_def)
      moreover have "\<forall>v. narrows m ?d = Some v \<longrightarrow> (\<forall>k\<in>set v. k < f_shape f ! i)"
        using fits m(1) f i by (auto simp: window_fits_def)
      ultimately show ?thesis using None by (simp add: recovers_def q)
    qed
  qed
  with wf have "\<forall>f\<in>set ?fs. wf_field f \<and>
      recovers_field (map_of (picks_for uni)) (map_of ?q) (map_of (picks_for m)) f" by blast
  from dataset_take_take [OF this] uds have "dataset_take ?q uds = dataset_take (picks_for m) ds" by simp
  with window_picks_found [OF pick] uds show ?thesis by (simp add: slice_window_def)
qed

text \<open>
  C16: out of one read of the union of several windows, the slice of each window is what a read of that
  window alone gives, for every window whose indices are inside its dimensions and which narrows no time
  dimension.
\<close>

theorem slice_window_recovers:
  assumes "plan_windows dbg pv ws = Inr plan" "w \<in> set ws"
    and "\<forall>w\<in>set ws. window_fits ds (named_of w)" "distinct (map fst (named_of w))"
    and "\<forall>d. narrows (named_of w) d \<noteq> None \<longrightarrow> \<not> is_time_dim ds d"
  shows "\<exists>uds. dataset_take (picks_for (wp_union plan)) ds = Some uds \<and>
    slice_window uds w (SelNamed (wp_union plan)) (so_format (pv_loader pv)) =
      map_option Inr (dataset_take (picks_for (named_of w)) ds)"
proof -
  note p = plan_windows_union [OF assms(1)]
  from slice_of_union [OF p(2), of "named_of w" ds] assms(2-5) p(3) [OF assms(2)]
  show ?thesis by auto
qed

section \<open>An instance\<close>

definition example_grid :: "int dataset" where
  "example_grid = \<lparr>ds_vars = [(''z'', \<lparr>f_dtype = Int64, f_dims = [''lat'', ''lon''], f_shape = [3, 4],
     f_data = AI64 [0, 1, 2, 3, 10, 11, 12, 13, 20, 21, 22, 23], f_fill = None\<rparr>)], ds_coords = []\<rparr>"

definition example_window :: selection where
  "example_window = SelNamed [(''lat'', AxIndices [2, 1]), (''lon'', AxRange 0 4 3)]"

definition other_window :: selection where
  "other_window = SelNamed [(''lat'', AxIndices [0, 2]), (''lon'', AxIndices [1])]"

definition windowed_provider :: "unit cache \<Rightarrow> (unit, int) provider" where
  "windowed_provider C = (example_provider C)\<lparr>pv_reader := example_reader\<lparr>re_supports_selection := True\<rparr>\<rparr>"

lemma example_plan:
  "plan_windows (\<lambda>_. '''') (windowed_provider C) [other_window, example_window] =
     Inr \<lparr>wp_windows = [other_window, example_window],
          wp_union = [(''lat'', AxIndices [0, 1, 2]), (''lon'', AxIndices [0, 1, 3])]\<rparr>"
proof -
  have "pv_loader (windowed_provider C) = example_source" "re_supports_selection (pv_reader (windowed_provider C))"
    by (simp_all add: windowed_provider_def example_provider_def)
  moreover have "so_select example_source = SelAll" "so_temporal example_source = Some six_hourly"
    "st_time_dim six_hourly = ''time''" by code_simp+
  ultimately have ok: "check_window (\<lambda>_. '''') (windowed_provider C) other_window = Inr ()"
    "check_window (\<lambda>_. '''') (windowed_provider C) example_window = Inr ()"
    by (simp_all add: check_window_def Let_def other_window_def example_window_def)
  have n: "named_of other_window = [(''lat'', AxIndices [0, 2]), (''lon'', AxIndices [1])]"
    "named_of example_window = [(''lat'', AxIndices [2, 1]), (''lon'', AxRange 0 4 3)]"
    by (simp_all add: named_of_def other_window_def example_window_def)
  have dims: "window_dims [[(''lat'', AxIndices [0, 2]), (''lon'', AxIndices [1])],
      [(''lat'', AxIndices [2, 1]), (''lon'', AxRange 0 4 3)]] = [''lat'', ''lon'']" by code_simp
  have un: "union_along ''zarr'' ''lat'' [[(''lat'', AxIndices [0, 2]), (''lon'', AxIndices [1])],
      [(''lat'', AxIndices [2, 1]), (''lon'', AxRange 0 4 3)]] (Some []) = Inr (Some [0, 1, 2])"
    "union_along ''zarr'' ''lon'' [[(''lat'', AxIndices [0, 2]), (''lon'', AxIndices [1])],
      [(''lat'', AxIndices [2, 1]), (''lon'', AxRange 0 4 3)]] (Some []) = Inr (Some [0, 1, 3])"
    by code_simp+
  have f: "so_format (pv_loader (windowed_provider C)) = ''zarr''"
    by (simp add: windowed_provider_def example_provider_def example_source_def src_temporal_def source_new_def)
  show ?thesis
    unfolding plan_windows_def list.map n f Let_def dims
    by (simp only: each.simps ok bindR_simps un axis_of_union_def option.case)
qed

lemma grid_fits: "window_fits example_grid (named_of other_window)" "window_fits example_grid (named_of example_window)"
proof -
  have f: "fields_of example_grid = [\<lparr>f_dtype = Int64, f_dims = [''lat'', ''lon''], f_shape = [3, 4],
     f_data = AI64 [0, 1, 2, 3, 10, 11, 12, 13, 20, 21, 22, 23], f_fill = None\<rparr>]"
    by (simp add: fields_of_def example_grid_def)
  have n: "narrows (named_of other_window) ''lat'' = Some [0, 2]" "narrows (named_of other_window) ''lon'' = Some [1]"
    "narrows (named_of example_window) ''lat'' = Some [2, 1]" "narrows (named_of example_window) ''lon'' = Some [0, 3]"
    by code_simp+
  have two: "(\<forall>i<Suc (Suc 0). Q i) \<longleftrightarrow> Q 0 \<and> Q (Suc 0)" for Q by (auto simp: All_less_Suc2)
  show "window_fits example_grid (named_of other_window)" "window_fits example_grid (named_of example_window)"
    unfolding window_fits_def f by (simp_all add: wf_field_def two n)
qed

theorem slice_window_recovers_witness:
  "\<forall>C. \<exists>uds. dataset_take [(''lat'', [0, 1, 2]), (''lon'', [0, 1, 3])] example_grid = Some uds \<and>
     slice_window uds example_window (SelNamed [(''lat'', AxIndices [0, 1, 2]), (''lon'', AxIndices [0, 1, 3])])
       (so_format (pv_loader (windowed_provider C))) =
     Some (Inr \<lparr>ds_vars = [(''z'', \<lparr>f_dtype = Int64, f_dims = [''lat'', ''lon''], f_shape = [2, 2],
       f_data = AI64 [20, 23, 10, 13], f_fill = None\<rparr>)], ds_coords = []\<rparr>)"
proof
  fix C
  have fit: "\<forall>w\<in>set [other_window, example_window]. window_fits example_grid (named_of w)"
    by (simp add: grid_fits)
  have time: "\<forall>d. narrows (named_of example_window) d \<noteq> None \<longrightarrow> \<not> is_time_dim example_grid d"
  proof (intro allI impI)
    fix d assume "narrows (named_of example_window) d \<noteq> None"
    then have "d \<in> fst ` set (named_of example_window)" by (metis narrows_outside)
    then have "d = ''lat'' \<or> d = ''lon''" by (simp add: named_of_def example_window_def)
    moreover have "\<not> is_time_dim example_grid ''lat''" "\<not> is_time_dim example_grid ''lon''" by code_simp+
    ultimately show "\<not> is_time_dim example_grid d" by blast
  qed
  have w: "example_window \<in> set [other_window, example_window]" "distinct (map fst (named_of example_window))"
    by (simp_all add: named_of_def example_window_def)
  have p: "picks_for [(''lat'', AxIndices [0, 1, 2]), (''lon'', AxIndices [0, 1, 3])] = [(''lat'', [0, 1, 2]), (''lon'', [0, 1, 3])]"
    by code_simp
  have t: "dataset_take (picks_for (named_of example_window)) example_grid =
     Some \<lparr>ds_vars = [(''z'', \<lparr>f_dtype = Int64, f_dims = [''lat'', ''lon''], f_shape = [2, 2],
       f_data = AI64 [20, 23, 10, 13], f_fill = None\<rparr>)], ds_coords = []\<rparr>" by code_simp
  show "\<exists>uds. dataset_take [(''lat'', [0, 1, 2]), (''lon'', [0, 1, 3])] example_grid = Some uds \<and>
     slice_window uds example_window (SelNamed [(''lat'', AxIndices [0, 1, 2]), (''lon'', AxIndices [0, 1, 3])])
       (so_format (pv_loader (windowed_provider C))) =
     Some (Inr \<lparr>ds_vars = [(''z'', \<lparr>f_dtype = Int64, f_dims = [''lat'', ''lon''], f_shape = [2, 2],
       f_data = AI64 [20, 23, 10, 13], f_fill = None\<rparr>)], ds_coords = []\<rparr>)"
    using slice_window_recovers [OF example_plan [of C] w(1) fit w(2) time]
    by (simp only: window_plan.simps p t option.map)
qed

end
