(* ===== verification/Selecting.thy ===== *)
theory Selecting
  imports Arrays Manifests Effects
begin

text \<open>
  The wire form of a selection (\<open>rust/src/format/mod.rs\<close>): \<open>AxisSelect::from_json\<close>,
  \<open>Selection::from_json\<close> and the rest of the \<open>DimWindow\<close> builder. \<open>show\<close> is the text of a JSON value;
  an index is 64 bits wide. The objects of a document are association lists without repeated keys.
\<close>

section \<open>Reading a selector\<close>

definition select_err :: "string \<Rightarrow> error" where
  "select_err detail = FormatError ''select'' detail"

definition read_index :: "(json \<Rightarrow> string) \<Rightarrow> json \<Rightarrow> nat result" where
  "read_index show x =
     (let bad = Inl (select_err (''selector index '' @ show x @ '' is not a non-negative integer; the vocabulary is ''
        @ ''0-based and an out-of-range or negative index is an error, never a wrap'')) in
      case x of
        JInt n \<Rightarrow> if 0 \<le> n \<and> n \<le> u64_max then Inr (nat n) else bad
      | _ \<Rightarrow> bad)"

definition unrecognised :: "(json \<Rightarrow> string) \<Rightarrow> json \<Rightarrow> error" where
  "unrecognised show v =
     select_err (''unrecognised selector '' @ show v @ ''; expected '' @ dbg_str ''all'' @ '', {'' @ dbg_str ''indices''
       @ '': [...]} or {'' @ dbg_str ''slice'' @ '': [start, stop, step?]}'')"

definition read_slice :: "(json \<Rightarrow> string) \<Rightarrow> json \<Rightarrow> json list \<Rightarrow> axis_select result" where
  "read_slice show v s =
     (if \<not> (2 \<le> length s \<and> length s \<le> 3) then
        Inl (select_err (''slice must be [start, stop, step?], got '' @ show v))
      else
        bindR (if length s = 3 then read_index show (s ! 2) else Inr 1) (\<lambda>step.
        bindR (read_index show (s ! 0)) (\<lambda>start.
        bindR (read_index show (s ! 1)) (\<lambda>stop. Inr (AxRange start stop step)))))"

definition axis_from_json :: "(json \<Rightarrow> string) \<Rightarrow> json \<Rightarrow> axis_select result" where
  "axis_from_json show v =
     (if v = JStr ''all'' then Inr AxAll
      else
        (case v of
           JObj [kv] \<Rightarrow>
             (case map_of [kv] ''indices'' of
                Some (JArr idx) \<Rightarrow> bindR (each (read_index show) idx) (\<lambda>is. Inr (AxIndices is))
              | _ \<Rightarrow>
                  (case map_of [kv] ''slice'' of
                     Some (JArr s) \<Rightarrow> read_slice show v s
                   | _ \<Rightarrow> Inl (unrecognised show v)))
         | _ \<Rightarrow> Inl (unrecognised show v)))"

section \<open>Reading a selection\<close>

definition select_keys :: "string list" where
  "select_keys = [''axes'', ''dims'', ''all_records'', ''all_rows'', ''all_cells'']"

definition unknown_key :: "string \<Rightarrow> error" where
  "unknown_key k =
     select_err (''unknown select key '' @ dbg_str k @ ''; a select is {'' @ dbg_str ''axes'' @ '': [...]} or {''
       @ dbg_str ''dims'' @ '': {...}}'')"

definition read_dims :: "(json \<Rightarrow> string) \<Rightarrow> (string \<times> json) list \<Rightarrow> (string \<times> axis_select) list result" where
  "read_dims show dims =
     bindR (each (\<lambda>(name, axis). bindR (axis_from_json show axis) (\<lambda>a. Inr (name, a))) dims)
       (\<lambda>named. Inr (fold (\<lambda>(name, a) out. al_put name a out) named []))"

definition selection_from_json :: "(json \<Rightarrow> string) \<Rightarrow> json \<Rightarrow> selection result" where
  "selection_from_json show v =
     (case v of
        JObj obj \<Rightarrow>
          (case find (\<lambda>(k, x). k \<notin> set select_keys) obj of
             Some (k, x) \<Rightarrow> Inl (unknown_key k)
           | None \<Rightarrow>
               (case (map_of obj ''axes'', map_of obj ''dims'') of
                  (Some _, Some _) \<Rightarrow>
                    Inl (select_err (''a select carries both `axes` and `dims`; it must name its axes one way, ''
                      @ ''positionally or by dimension name, not both''))
                | (Some axes, None) \<Rightarrow>
                    (case axes of
                       JArr a \<Rightarrow> bindR (each (axis_from_json show) a) (\<lambda>s. Inr (SelOrthogonal s))
                     | _ \<Rightarrow> Inl (select_err (''select.axes must be an array, got '' @ show axes)))
                | (None, Some dims) \<Rightarrow>
                    (case dims of
                       JObj d \<Rightarrow> bindR (read_dims show d) (\<lambda>m. Inr (SelNamed m))
                     | _ \<Rightarrow> Inl (select_err (''select.dims must be an object, got '' @ show dims)))
                | (None, None) \<Rightarrow> Inr SelAll))
      | _ \<Rightarrow> Inl (select_err (''a select must be a JSON object, got '' @ show v)))"

section \<open>The builder\<close>

definition window_step_range ::
    "string \<Rightarrow> nat \<Rightarrow> nat \<Rightarrow> nat \<Rightarrow> (string \<times> axis_select) list \<Rightarrow> (string \<times> axis_select) list" where
  "window_step_range dim start stop step w = window_axis dim (AxRange start stop step) w"

definition window_indices :: "string \<Rightarrow> nat list \<Rightarrow> (string \<times> axis_select) list \<Rightarrow> (string \<times> axis_select) list" where
  "window_indices dim idx w = window_axis dim (AxIndices idx) w"

definition window_all :: "string \<Rightarrow> (string \<times> axis_select) list \<Rightarrow> (string \<times> axis_select) list" where
  "window_all dim w = window_axis dim AxAll w"

definition window_selection :: "(string \<times> axis_select) list \<Rightarrow> selection" where
  "window_selection w = SelNamed w"

section \<open>What the wire carries\<close>

text \<open>The documents of a selector, one per selector except that a step of 1 may be left out.\<close>

definition index_json :: "nat \<Rightarrow> json" where
  "index_json i = JInt (int i)"

definition wire_index :: "nat \<Rightarrow> bool" where
  "wire_index i \<longleftrightarrow> int i \<le> u64_max"

inductive wire_axis :: "json \<Rightarrow> axis_select \<Rightarrow> bool" where
  all: "wire_axis (JStr ''all'') AxAll"
| indices: "list_all wire_index idx \<Longrightarrow> wire_axis (JObj [(''indices'', JArr (map index_json idx))]) (AxIndices idx)"
| slice2: "list_all wire_index [start, stop] \<Longrightarrow>
    wire_axis (JObj [(''slice'', JArr [index_json start, index_json stop])]) (AxRange start stop 1)"
| slice3: "list_all wire_index [start, stop, step] \<Longrightarrow>
    wire_axis (JObj [(''slice'', JArr [index_json start, index_json stop, index_json step])]) (AxRange start stop step)"

lemma read_index_Inr: "read_index show x = Inr i \<longleftrightarrow> x = index_json i \<and> wire_index i"
  by (cases x) (auto simp: read_index_def index_json_def wire_index_def Let_def)

lemma read_index_json [simp]: "wire_index i \<Longrightarrow> read_index show (index_json i) = Inr i"
  by (simp add: read_index_Inr)

lemma each_read_index: "each (read_index show) xs = Inr idx \<longleftrightarrow> xs = map index_json idx \<and> list_all wire_index idx"
proof (induction xs arbitrary: idx)
  case (Cons x xs)
  then show ?case by (cases idx) (auto simp: bindR_Inr read_index_Inr)
qed auto

lemma read_slice_Inr:
  "read_slice show v s = Inr ax \<longleftrightarrow>
     (\<exists>start stop. s = [index_json start, index_json stop] \<and> list_all wire_index [start, stop] \<and> ax = AxRange start stop 1)
   \<or> (\<exists>start stop step. s = [index_json start, index_json stop, index_json step] \<and>
        list_all wire_index [start, stop, step] \<and> ax = AxRange start stop step)"
proof -
  consider "length s = 2" | "length s = 3" | "length s \<noteq> 2 \<and> length s \<noteq> 3" by blast
  then show ?thesis
  proof cases
    case 1
    then obtain a b where "s = [a, b]" by (auto simp: numeral_2_eq_2 length_Suc_conv)
    then show ?thesis by (auto simp: read_slice_def bindR_Inr read_index_Inr)
  next
    case 2
    then obtain a b c where "s = [a, b, c]" by (auto simp: numeral_3_eq_3 length_Suc_conv)
    then show ?thesis by (auto simp: read_slice_def bindR_Inr read_index_Inr)
  next
    case 3
    then show ?thesis by (auto simp: read_slice_def)
  qed
qed

text \<open>A selector is read exactly from its wire forms; every other document is an error.\<close>

lemma axis_from_json_exact: "axis_from_json show v = Inr ax \<longleftrightarrow> wire_axis v ax"
proof
  assume r: "axis_from_json show v = Inr ax"
  show "wire_axis v ax"
  proof (cases "v = JStr ''all''")
    case True
    with r show ?thesis by (simp add: axis_from_json_def wire_axis.all)
  next
    case False
    with r obtain k x where v: "v = JObj [(k, x)]"
      by (auto simp: axis_from_json_def split: json.splits list.splits)
    have "(k = ''indices'' \<and> (\<exists>xs. x = JArr xs \<and> bindR (each (read_index show) xs) (\<lambda>is. Inr (AxIndices is)) = Inr ax)) \<or>
        (k = ''slice'' \<and> (\<exists>s. x = JArr s \<and> read_slice show v s = Inr ax))"
      using r v by (cases x) (auto simp: axis_from_json_def split: if_splits)
    then show ?thesis
      using v by (auto simp: bindR_Inr each_read_index read_slice_Inr intro: wire_axis.intros wire_axis.slice2 [simplified])
  qed
next
  assume "wire_axis v ax"
  then show "axis_from_json show v = Inr ax"
    by cases (auto simp: axis_from_json_def read_slice_def each_read_index bindR_Inr)
qed

inductive_simps wire_axis_named: "wire_axis (JObj [(k, x)]) ax"

section \<open>A selection is read exactly from its wire forms\<close>

text \<open>The markers of a selection of everything.\<close>

definition marker :: "string \<Rightarrow> bool" where
  "marker k \<longleftrightarrow> k = ''all_records'' \<or> k = ''all_rows'' \<or> k = ''all_cells''"

definition markers :: "(string \<times> json) list \<Rightarrow> bool" where
  "markers obj \<longleftrightarrow> (\<forall>k\<in>fst ` set obj. marker k)"

text \<open>\<open>axes\<close> or \<open>dims\<close>, possibly beside markers.\<close>

definition only_with :: "string \<Rightarrow> json \<Rightarrow> (string \<times> json) list \<Rightarrow> bool" where
  "only_with n x obj \<longleftrightarrow> map_of obj n = Some x \<and> (\<forall>k\<in>fst ` set obj. k = n \<or> marker k)"

inductive wire_selection :: "json \<Rightarrow> selection \<Rightarrow> bool" where
  whole: "markers obj \<Longrightarrow> wire_selection (JObj obj) SelAll"
| axes: "only_with ''axes'' (JArr a) obj \<Longrightarrow> list_all2 wire_axis a s \<Longrightarrow> wire_selection (JObj obj) (SelOrthogonal s)"
| dims: "only_with ''dims'' (JObj d) obj \<Longrightarrow> list_all2 (\<lambda>(k, x) (n, ax). n = k \<and> wire_axis x ax) d m \<Longrightarrow>
    wire_selection (JObj obj) (SelNamed m)"

text \<open>No object of the document repeats a key: what a parsed document satisfies.\<close>

fun no_repeats :: "json \<Rightarrow> bool" where
  "no_repeats (JObj obj) = (distinct (map fst obj) \<and> (\<forall>(k, x)\<in>set obj. no_repeats x))"
| "no_repeats (JArr xs) = (\<forall>x\<in>set xs. no_repeats x)"
| "no_repeats _ = True"

lemma fold_al_put_distinct:
  "distinct (map fst (out @ m)) \<Longrightarrow> fold (\<lambda>(k, x) out. al_put k x out) m out = out @ m"
proof (induction m arbitrary: out)
  case (Cons kx m)
  obtain k x where kx: "kx = (k, x)" by (cases kx)
  have "al_put k x out = out @ [(k, x)]" if "k \<notin> fst ` set out" for out
    using that by (induction out) auto
  with Cons kx show ?case by simp
qed simp

lemma each_axis: "each (axis_from_json show) a = Inr s \<longleftrightarrow> list_all2 wire_axis a s"
  by (simp add: each_Inr axis_from_json_exact)

lemma read_dims_exact:
  assumes "distinct (map fst d)"
  shows "read_dims show d = Inr m \<longleftrightarrow> list_all2 (\<lambda>(k, x) (n, ax). n = k \<and> wire_axis x ax) d m"
proof -
  let ?R = "\<lambda>(k, x) (n, ax). n = k \<and> wire_axis x ax"
  have e: "each (\<lambda>(name, axis). bindR (axis_from_json show axis) (\<lambda>a. Inr (name, a))) d = Inr ys \<longleftrightarrow> list_all2 ?R d ys" for ys
    unfolding each_Inr
    by (rule arg_cong [where f = "\<lambda>R. list_all2 R d ys"]) (auto simp: fun_eq_iff bindR_Inr axis_from_json_exact)
  have "map fst ys = map fst d" if "list_all2 ?R d ys" for ys
    using that by (induction rule: list_all2_induct) auto
  then have "fold (\<lambda>(name, a) out. al_put name a out) ys [] = ys" if "list_all2 ?R d ys" for ys
    using that fold_al_put_distinct [of "[]" ys] assms by simp
  with e show ?thesis by (auto simp: read_dims_def bindR_Inr)
qed

lemma select_keys_cases: "k \<in> set select_keys \<longleftrightarrow> k = ''axes'' \<or> k = ''dims'' \<or> marker k"
  by (simp add: select_keys_def marker_def)

lemma not_marker: "\<not> marker ''axes''" "\<not> marker ''dims''" "''axes'' \<noteq> ''dims''"
  by (simp_all add: marker_def)

definition known :: "(string \<times> json) list \<Rightarrow> bool" where
  "known obj \<longleftrightarrow> (\<forall>k\<in>fst ` set obj. k \<in> set select_keys)"

lemma keys_known: "find (\<lambda>(k, x). k \<notin> set select_keys) obj = None \<longleftrightarrow> known obj"
  by (auto simp: find_None_iff known_def)

lemma known_whole: "known obj \<and> map_of obj ''axes'' = None \<and> map_of obj ''dims'' = None \<longleftrightarrow> markers obj"
  using not_marker unfolding known_def markers_def map_of_eq_None_iff select_keys_cases by metis

lemma in_keys: "map_of obj k = Some x \<Longrightarrow> k \<in> fst ` set obj"
  by (metis map_of_eq_None_iff option.distinct(1))

lemma known_with:
  "only_with ''axes'' x obj \<longleftrightarrow> known obj \<and> map_of obj ''axes'' = Some x \<and> map_of obj ''dims'' = None"
  "only_with ''dims'' x obj \<longleftrightarrow> known obj \<and> map_of obj ''axes'' = None \<and> map_of obj ''dims'' = Some x"
  using not_marker unfolding known_def only_with_def map_of_eq_None_iff select_keys_cases by metis+

lemma selection_known:
  "selection_from_json show (JObj obj) = Inr s \<longleftrightarrow>
     known obj \<and>
     (case (map_of obj ''axes'', map_of obj ''dims'') of
        (None, None) \<Rightarrow> s = SelAll
      | (Some x, None) \<Rightarrow> \<exists>a t. x = JArr a \<and> list_all2 wire_axis a t \<and> s = SelOrthogonal t
      | (None, Some x) \<Rightarrow> \<exists>d m. x = JObj d \<and> read_dims show d = Inr m \<and> s = SelNamed m
      | _ \<Rightarrow> False)"
proof (cases "find (\<lambda>(k, x). k \<notin> set select_keys) obj")
  case None
  with keys_known have k: "known obj" by blast
  have u: "selection_from_json show (JObj obj) =
      (case (map_of obj ''axes'', map_of obj ''dims'') of
                  (Some _, Some _) \<Rightarrow>
                    Inl (select_err (''a select carries both `axes` and `dims`; it must name its axes one way, ''
                      @ ''positionally or by dimension name, not both''))
                | (Some axes, None) \<Rightarrow>
                    (case axes of
                       JArr a \<Rightarrow> bindR (each (axis_from_json show) a) (\<lambda>s. Inr (SelOrthogonal s))
                     | _ \<Rightarrow> Inl (select_err (''select.axes must be an array, got '' @ show axes)))
                | (None, Some dims) \<Rightarrow>
                    (case dims of
                       JObj d \<Rightarrow> bindR (read_dims show d) (\<lambda>m. Inr (SelNamed m))
                     | _ \<Rightarrow> Inl (select_err (''select.dims must be an object, got '' @ show dims)))
                | (None, None) \<Rightarrow> Inr SelAll)"
    unfolding selection_from_json_def json.case None option.case ..
  show ?thesis
    unfolding u using k by (auto simp: bindR_Inr each_axis split: option.splits json.splits)
next
  case (Some kx)
  then have "\<not> known obj" using keys_known [of obj] by auto
  with Some show ?thesis by (cases kx) (simp add: selection_from_json_def)
qed

text \<open>
  A document reads as a selection exactly when it is a wire form of it: a selection of everything,
  one selector per axis, or one selector per named dimension, with selectors whose indices are
  non-negative and fit 64 bits. Every other document, one naming both axes and dimensions or carrying
  another key included, is an error.
\<close>

theorem selection_reads_wire_forms:
  assumes "no_repeats v"
  shows "selection_from_json show v = Inr s \<longleftrightarrow> wire_selection v s"
proof (cases v)
  case (JObj obj)
  have d: "read_dims show d = Inr m \<longleftrightarrow> list_all2 (\<lambda>(k, x) (n, ax). n = k \<and> wire_axis x ax) d m"
    if "map_of obj k = Some (JObj d)" for d m k
    using assms JObj map_of_SomeD [OF that] by (intro read_dims_exact) auto
  show ?thesis
    unfolding JObj selection_known
  proof (intro iffI)
    assume "known obj \<and> (case (map_of obj ''axes'', map_of obj ''dims'') of
        (None, None) \<Rightarrow> s = SelAll
      | (Some x, None) \<Rightarrow> \<exists>a t. x = JArr a \<and> list_all2 wire_axis a t \<and> s = SelOrthogonal t
      | (None, Some x) \<Rightarrow> \<exists>d m. x = JObj d \<and> read_dims show d = Inr m \<and> s = SelNamed m
      | _ \<Rightarrow> False)"
    then show "wire_selection (JObj obj) s"
      using d [of "''dims''"]
      by (cases "map_of obj ''axes''"; cases "map_of obj ''dims''")
        (auto intro: wire_selection.intros simp: known_whole [symmetric] known_with)
  next
    assume "wire_selection (JObj obj) s"
    then show "known obj \<and> (case (map_of obj ''axes'', map_of obj ''dims'') of
        (None, None) \<Rightarrow> s = SelAll
      | (Some x, None) \<Rightarrow> \<exists>a t. x = JArr a \<and> list_all2 wire_axis a t \<and> s = SelOrthogonal t
      | (None, Some x) \<Rightarrow> \<exists>d m. x = JObj d \<and> read_dims show d = Inr m \<and> s = SelNamed m
      | _ \<Rightarrow> False)"
      using d [of "''dims''"] by cases (simp_all add: known_whole [symmetric] known_with)
  qed
qed (auto simp: selection_from_json_def elim: wire_selection.cases)

theorem selection_reads_wire_forms_witness:
  "selection_from_json (\<lambda>_. []) (JObj [(''dims'', JObj [(''lat'', JObj [(''slice'', JArr [JInt 120, JInt 218])]),
     (''lon'', JObj [(''indices'', JArr [JInt 1151, JInt 0])])])]) =
   Inr (SelNamed [(''lat'', AxRange 120 218 1), (''lon'', AxIndices [1151, 0])])"
proof -
  have "wire_axis (JObj [(''slice'', JArr [JInt 120, JInt 218])]) (AxRange 120 218 1)"
    using wire_axis.slice2 [of 120 218] by (simp add: index_json_def wire_index_def u64_max_def)
  moreover have "wire_axis (JObj [(''indices'', JArr [JInt 1151, JInt 0])]) (AxIndices [1151, 0])"
    using wire_axis.indices [of "[1151, 0]"] by (simp add: index_json_def wire_index_def u64_max_def)
  ultimately have "wire_selection (JObj [(''dims'', JObj [(''lat'', JObj [(''slice'', JArr [JInt 120, JInt 218])]),
     (''lon'', JObj [(''indices'', JArr [JInt 1151, JInt 0])])])]) (SelNamed [(''lat'', AxRange 120 218 1), (''lon'', AxIndices [1151, 0])])"
    by (intro wire_selection.dims) (auto simp: only_with_def)
  then show ?thesis using selection_reads_wire_forms [of _ "\<lambda>_. []"] by simp
qed

end
