(* ===== verification/EsmSource.thy ===== *)
theory EsmSource
  imports Sampling
begin

text \<open>
  Building a data source from an esm \<open>data_sources\<close> entry (\<open>rust/src/esm_source.rs\<close>). The entry is a JSON
  value, \<open>show\<close> its text; \<open>tp d s\<close> is what the time crate reads from \<open>s\<close> under the format description \<open>d\<close>,
  as an instant. \<open>None\<close> is a panic of the calendar arithmetic, as in \<open>Sources\<close>.
\<close>

record source_options =
  op_variables :: "string list"
  op_substitutions :: "(string \<times> string) list"
  op_url_override :: "string option"
  op_records :: "nat option"

definition source_err :: "string \<Rightarrow> string \<Rightarrow> string \<Rightarrow> error" where
  "source_err code source detail = EsmSource code source detail"

definition template_refusal :: "string \<Rightarrow> template_error \<Rightarrow> error" where
  "template_refusal source e =
     source_err (te_code e) source (te_detail e @ '' in esm URL template '' @ dbg_str (te_template e))"

definition absent :: "json option \<Rightarrow> bool" where
  "absent v = (case v of None \<Rightarrow> True | Some x \<Rightarrow> x = JNull \<or> x = JStr [])"

definition j_get :: "json \<Rightarrow> string \<Rightarrow> json option" where
  "j_get v k = (case v of JObj obj \<Rightarrow> map_of obj k | _ \<Rightarrow> None)"

definition j_str :: "json \<Rightarrow> string option" where
  "j_str v = (case v of JStr s \<Rightarrow> Some s | _ \<Rightarrow> None)"

section \<open>Locations\<close>

definition scheme_char :: "char \<Rightarrow> bool" where
  "scheme_char c \<longleftrightarrow> is_alnum c \<or> c = CHR ''+'' \<or> c = CHR ''.'' \<or> c = CHR ''-''"

definition has_scheme :: "string \<Rightarrow> bool" where
  "has_scheme t =
     (case split_once ''://'' t of
        None \<Rightarrow> False
      | Some (scheme, rest) \<Rightarrow>
          (case scheme of
             [] \<Rightarrow> False
           | c # cs \<Rightarrow> (is_upper c \<or> is_lower c) \<and> list_all scheme_char cs))"

definition check_url :: "string \<Rightarrow> string \<Rightarrow> unit result" where
  "check_url name template =
     (if contains_str ''${'' template then
        Inl (source_err ''esm_source_url'' name
          (dbg_str template @ '' names an environment variable, which esm-spec '' @ map char_of [194::nat, 167]
            @ ''8.2.1 refuses''))
      else if \<not> (has_scheme template \<or> starts_with ''{'' template) then
        Inl (source_err ''esm_source_url'' name
          (dbg_str template @ '' is not a URL; load the document with EarthSciAST, which ''
            @ ''resolves a relative location against the file that declared it ''
            @ ''(esm-spec '' @ map char_of [194::nat, 167] @ ''8.2.1), or pass url_override''))
      else Inr ())"

section \<open>Instants and periods\<close>

definition offset_forms :: "string list" where
  "offset_forms =
     [''[year]-[month]-[day]T[hour]:[minute]:[second].[subsecond][offset_hour sign:mandatory]:[offset_minute]'',
      ''[year]-[month]-[day]T[hour]:[minute]:[second][offset_hour sign:mandatory]:[offset_minute]'',
      ''[year]-[month]-[day]T[hour]:[minute][offset_hour sign:mandatory]:[offset_minute]'']"

definition plain_forms :: "string list" where
  "plain_forms =
     [''[year]-[month]-[day]T[hour]:[minute]:[second].[subsecond]'',
      ''[year]-[month]-[day]T[hour]:[minute]:[second]'',
      ''[year]-[month]-[day]T[hour]:[minute]'',
      ''[year]-[month]-[day]'']"

text \<open>One spelling: a \<open>T\<close> separator, and \<open>+00:00\<close> for \<open>Z\<close>.\<close>

definition with_separator :: "string \<Rightarrow> string" where
  "with_separator s =
     (if 10 < length s \<and> (s ! 10 = CHR '' '' \<or> s ! 10 = CHR ''t'') then s[10 := CHR ''T''] else s)"

definition with_offset :: "string \<Rightarrow> string" where
  "with_offset s =
     (if s \<noteq> [] \<and> (last s = CHR ''Z'' \<or> last s = CHR ''z'') then butlast s @ ''+00:00'' else s)"

text \<open>The conversion of an instant with an offset to UTC panics outside the calendar's years.\<close>

definition iso_instant ::
    "civil_api \<Rightarrow> (string \<Rightarrow> string \<Rightarrow> instant option) \<Rightarrow> string \<Rightarrow> string \<Rightarrow> json \<Rightarrow> instant result option" where
  "iso_instant api tp name field value =
     (case value of
        JStr text \<Rightarrow>
          (let s = with_offset (with_separator (trim text)) in
           case find_map (\<lambda>d. tp d s) offset_forms of
             Some t \<Rightarrow> if in_range api t then Some (Inr t) else None
           | None \<Rightarrow>
               (case find_map (\<lambda>d. tp d s) plain_forms of
                  Some t \<Rightarrow> Some (Inr t)
                | None \<Rightarrow>
                    Some (Inl (source_err ''esm_source_temporal'' name
                      (''temporal.'' @ field @ '' '' @ dbg_str text @ '' is not an ISO 8601 instant'')))))
      | _ \<Rightarrow> Some (Inl (source_err ''esm_source_temporal'' name (''temporal.'' @ field @ '' must be a string''))))"

definition esm_period :: "string \<Rightarrow> string \<Rightarrow> string \<Rightarrow> calendar_period result" where
  "esm_period name field value =
     (case parse_period value of
        Inl e \<Rightarrow> Inl (source_err ''esm_period_invalid'' name (''temporal.'' @ field @ '': '' @ error_text e))
      | Inr p \<Rightarrow> Inr p)"

section \<open>The temporal block\<close>

definition temporal_text :: "string \<Rightarrow> (string \<times> json) list \<Rightarrow> string \<Rightarrow> string \<Rightarrow> string option result" where
  "temporal_text name obj k code =
     (let v = map_of obj k in
      if absent v then Inr None
      else
        (case Option.bind v j_str of
           Some s \<Rightarrow> Inr (Some s)
         | None \<Rightarrow> Inl (source_err code name (''temporal.'' @ k @ '' must be a string''))))"

definition present :: "json option \<Rightarrow> json option" where
  "present v = (if absent v then None else v)"

definition j_i64 :: "json \<Rightarrow> int option" where
  "j_i64 v = (case v of JInt n \<Rightarrow> checked_i64 n | _ \<Rightarrow> None)"

text \<open>The records of the first file, against the declared number.\<close>

definition first_file_records :: "civil_api \<Rightarrow> source_temporal \<Rightarrow> int option" where
  "first_file_records api T =
     Option.bind (next_file_anchor api T (st_start T)) (\<lambda>nf.
     Option.bind (ceil_index api (st_frequency T) (st_start T) nf) (\<lambda>b.
     Option.bind (ceil_index api (st_frequency T) (st_start T) (st_start T)) (\<lambda>a.
       checked_i64 (b - a))))"

definition check_records ::
    "(json \<Rightarrow> string) \<Rightarrow> civil_api \<Rightarrow> string \<Rightarrow> source_temporal \<Rightarrow> json option \<Rightarrow> unit result option" where
  "check_records show api name T rpf =
     (case rpf of
        None \<Rightarrow> Some (Inr ())
      | Some v \<Rightarrow>
          if v = JNull \<or> v = JStr ''auto'' then Some (Inr ())
          else
            map_option (\<lambda>n.
              if j_i64 v \<noteq> Some n then
                Inl (source_err ''esm_source_records_per_file'' name
                  (''temporal.records_per_file is '' @ show v @ '' but file_period / frequency gives ''
                    @ show_int n @ '' records per file''))
              else Inr ())
              (first_file_records api T))"

definition anchored ::
    "(json \<Rightarrow> string) \<Rightarrow> civil_api \<Rightarrow> (string \<Rightarrow> string \<Rightarrow> instant option) \<Rightarrow> string \<Rightarrow> (string \<times> json) list
      \<Rightarrow> nat option \<Rightarrow> string option \<Rightarrow> json \<Rightarrow> calendar_period \<Rightarrow> calendar_period
      \<Rightarrow> source_temporal option result option" where
  "anchored show api tp name obj records tv start_v f p =
     (case iso_instant api tp name ''start'' start_v of
        None \<Rightarrow> None
      | Some (Inl e) \<Rightarrow> Some (Inl e)
      | Some (Inr start) \<Rightarrow>
          (let t0 = with_time_dim (case tv of None \<Rightarrow> ''time'' | Some d \<Rightarrow> d) (temporal_new start f p) in
           case (case present (map_of obj ''end'') of
                   None \<Rightarrow> Some (Inr t0)
                 | Some v \<Rightarrow> map_option (map_sum id (\<lambda>e. with_end e t0)) (iso_instant api tp name ''end'' v)) of
             None \<Rightarrow> None
           | Some (Inl e) \<Rightarrow> Some (Inl e)
           | Some (Inr t1) \<Rightarrow>
               (let t2 = (case records of None \<Rightarrow> t1 | Some n \<Rightarrow> with_records n t1) in
                map_option (map_sum id (\<lambda>_. Some t2))
                  (check_records show api name t2 (map_of obj ''records_per_file'')))))"

definition esm_temporal ::
    "(json \<Rightarrow> string) \<Rightarrow> civil_api \<Rightarrow> (string \<Rightarrow> string \<Rightarrow> instant option) \<Rightarrow> string \<Rightarrow> json option \<Rightarrow> nat option
      \<Rightarrow> source_temporal option result option" where
  "esm_temporal show api tp name node records =
     (case node of
        None \<Rightarrow> Some (Inr None)
      | Some JNull \<Rightarrow> Some (Inr None)
      | Some (JObj obj) \<Rightarrow>
          (case temporal_text name obj ''frequency'' ''esm_period_invalid'' of
             Inl e \<Rightarrow> Some (Inl e)
           | Inr freq \<Rightarrow>
          (case temporal_text name obj ''file_period'' ''esm_period_invalid'' of
             Inl e \<Rightarrow> Some (Inl e)
           | Inr fp \<Rightarrow>
          (case temporal_text name obj ''time_variable'' ''esm_source_temporal'' of
             Inl e \<Rightarrow> Some (Inl e)
           | Inr tv \<Rightarrow>
          (case present (map_of obj ''start'') of
             None \<Rightarrow>
               if freq \<noteq> None \<or> fp \<noteq> None then
                 Some (Inl (source_err ''esm_source_temporal'' name
                   ''temporal declares a frequency or file_period but no start to anchor it''))
               else Some (Inr None)
           | Some start_v \<Rightarrow>
               (case (if freq = None then fp else freq, if fp = None then freq else fp) of
                  (Some f, Some p) \<Rightarrow>
                    (case esm_period name ''frequency'' f of
                       Inl e \<Rightarrow> Some (Inl e)
                     | Inr f \<Rightarrow>
                    (case esm_period name ''file_period'' p of
                       Inl e \<Rightarrow> Some (Inl e)
                     | Inr p \<Rightarrow> anchored show api tp name obj records tv start_v f p))
                | _ \<Rightarrow>
                    Some (Inl (source_err ''esm_source_temporal'' name
                      (''temporal anchors at '' @ show start_v
                        @ '' but declares neither frequency nor file_period''))))))))
      | Some _ \<Rightarrow> Some (Inl (source_err ''esm_source_temporal'' name ''temporal must be an object'')))"

section \<open>The entry\<close>

definition esio_format :: "string \<Rightarrow> (string \<times> json) list \<Rightarrow> string result" where
  "esio_format name obj =
     ok_or (source_err ''esm_source_no_format'' name ''declares no metadata.esio_format, so the reader is unknown'')
       (case Option.bind (Option.bind (map_of obj ''metadata'') (\<lambda>m. j_get m ''esio_format'')) j_str of
          Some s \<Rightarrow> (if s \<noteq> [] then Some s else None)
        | None \<Rightarrow> None)"

definition entry_template :: "string \<Rightarrow> (string \<times> json) list \<Rightarrow> source_options \<Rightarrow> string result" where
  "entry_template name obj opts =
     (case op_url_override opts of
        Some u \<Rightarrow> Inr u
      | None \<Rightarrow>
          ok_or (source_err ''esm_source_url'' name ''has no source.url_template'')
            (Option.bind (Option.bind (map_of obj ''source'') (\<lambda>s. j_get s ''url_template'')) j_str))"

definition entry_mirrors :: "string \<Rightarrow> (string \<times> json) list \<Rightarrow> source_options \<Rightarrow> string list result" where
  "entry_mirrors name obj opts =
     (if op_url_override opts \<noteq> None then Inr []
      else
        (case Option.bind (map_of obj ''source'') (\<lambda>s. j_get s ''mirrors'') of
           None \<Rightarrow> Inr []
         | Some JNull \<Rightarrow> Inr []
         | Some (JArr a) \<Rightarrow>
             each (\<lambda>m. ok_or (source_err ''esm_source_url'' name ''every mirror must be a string'') (j_str m)) a
         | Some _ \<Rightarrow> Inl (source_err ''esm_source_url'' name ''source.mirrors must be an array'')))"

definition bound_subs :: "string list \<Rightarrow> source_options \<Rightarrow> (string \<times> string) list" where
  "bound_subs templates opts =
     (let subs = op_substitutions opts in
      if list_ex (\<lambda>t. ''var'' \<in> set (esm_template_names t)) templates \<and> map_of subs ''var'' = None
         \<and> length (op_variables opts) = 1
      then al_put ''var'' (op_variables opts ! 0) subs else subs)"

definition entry_options :: "string \<Rightarrow> (string \<times> json) list \<Rightarrow> (string \<times> json) list result" where
  "entry_options name obj =
     (case map_of obj ''reader_options'' of
        None \<Rightarrow> Inr []
      | Some JNull \<Rightarrow> Inr []
      | Some (JObj m) \<Rightarrow> Inr m
      | Some _ \<Rightarrow> Inl (source_err ''esm_source_invalid'' name ''reader_options must be an object''))"

definition expand_all ::
    "civil_api \<Rightarrow> string \<Rightarrow> (string \<times> string) list \<Rightarrow> string list \<Rightarrow> unit result" where
  "expand_all api name subs templates =
     map_sum id (\<lambda>_. ())
       (each (\<lambda>t. map_sum (template_refusal name) id (expand_esm_template api t None subs)) templates)"

text \<open>The source without its cadence, and the substitutions its templates are checked under.\<close>

definition entry_source ::
    "civil_api \<Rightarrow> string \<Rightarrow> (string \<times> json) list \<Rightarrow> source_options
      \<Rightarrow> (data_source \<times> (string \<times> string) list) result" where
  "entry_source api name obj opts =
     bindR (esio_format name obj) (\<lambda>fmt.
     bindR (entry_template name obj opts) (\<lambda>template.
     bindR (entry_mirrors name obj opts) (\<lambda>mirrors.
     bindR (check_url name template) (\<lambda>_.
     bindR (each (check_url name) mirrors) (\<lambda>_.
     let subs = bound_subs (template # mirrors) opts in
     bindR (each (\<lambda>t. map_sum (template_refusal name) id (check_esm_template api t subs))
       (template # mirrors)) (\<lambda>_.
     bindR (entry_options name obj) (\<lambda>ro.
       Inr (src_esm_template subs (src_reader_options ro (src_mirrors mirrors
         (src_variables (op_variables opts) (source_new name fmt template)))), subs))))))))"

definition from_esm ::
    "(json \<Rightarrow> string) \<Rightarrow> civil_api \<Rightarrow> (string \<Rightarrow> string \<Rightarrow> instant option) \<Rightarrow> string \<Rightarrow> json \<Rightarrow> source_options
      \<Rightarrow> data_source result option" where
  "from_esm show api tp name entry opts =
     (case entry of
        JObj obj \<Rightarrow>
          (case entry_source api name obj opts of
             Inl e \<Rightarrow> Some (Inl e)
           | Inr (out, subs) \<Rightarrow>
               (case esm_temporal show api tp name (map_of obj ''temporal'') (op_records opts) of
                  None \<Rightarrow> None
                | Some (Inl e) \<Rightarrow> Some (Inl e)
                | Some (Inr (Some T)) \<Rightarrow> Some (Inr (src_temporal T out))
                | Some (Inr None) \<Rightarrow>
                    Some (map_sum id (\<lambda>_. out) (expand_all api name subs (so_url_template out # so_mirrors out)))))
      | _ \<Rightarrow> Some (Inl (source_err ''esm_source_invalid'' name ''the entry must be an object'')))"

section \<open>A built source resolves\<close>

lemma each_unit: "each f xs = Inr ys \<Longrightarrow> x \<in> set xs \<Longrightarrow> \<exists>y. f x = Inr y"
  by (auto simp: each_Inr list_all2_conv_all_nth in_set_conv_nth)

lemma map_sum_Inr: "map_sum f g x = Inr y \<longleftrightarrow> (\<exists>z. x = Inr z \<and> y = g z)"
  by (cases x) auto

text \<open>What a built source carries: locations that pass the checks, and for a source without an anchor
  templates that expand.\<close>

lemma entry_source_checked:
  assumes "entry_source api name obj opts = Inr (out, subs)"
  shows "so_substitutions out = Some subs" and "so_temporal out = None"
    and "\<forall>t\<in>set (so_url_template out # so_mirrors out). check_url name t = Inr () \<and> check_esm_template api t subs = Inr ()"
proof -
  from assms obtain fmt template mirrors u cs ro where
    url: "check_url name template = Inr ()" and
    mir: "each (check_url name) mirrors = Inr u" and
    chk: "each (\<lambda>t. map_sum (template_refusal name) id (check_esm_template api t subs)) (template # mirrors) = Inr cs" and
    out: "out = src_esm_template subs (src_reader_options ro (src_mirrors mirrors
            (src_variables (op_variables opts) (source_new name fmt template))))"
    by (auto simp: entry_source_def Let_def bindR_Inr simp del: each.simps)
  note builders = src_esm_template_def src_reader_options_def src_mirrors_def src_variables_def source_new_def
  show "so_substitutions out = Some subs" "so_temporal out = None" by (simp_all add: out builders)
  have "check_url name t = Inr () \<and> check_esm_template api t subs = Inr ()" if "t \<in> set (template # mirrors)" for t
    using that url each_unit [OF mir] each_unit [OF chk that] by (auto simp: map_sum_Inr)
  then show "\<forall>t\<in>set (so_url_template out # so_mirrors out). check_url name t = Inr () \<and> check_esm_template api t subs = Inr ()"
    by (simp add: out builders)
qed

lemma from_esm_Inr:
  assumes "from_esm show api tp name entry opts = Some (Inr L)"
  shows "\<exists>obj out subs tm. entry = JObj obj \<and> entry_source api name obj opts = Inr (out, subs) \<and>
    esm_temporal show api tp name (map_of obj ''temporal'') (op_records opts) = Some (Inr tm) \<and>
    (case tm of
       Some T \<Rightarrow> L = src_temporal T out
     | None \<Rightarrow> L = out \<and> (\<exists>u. expand_all api name subs (so_url_template out # so_mirrors out) = Inr u))"
proof -
  from assms obtain obj where obj: "entry = JObj obj" by (cases entry) (auto simp: from_esm_def)
  with assms obtain out subs where o: "entry_source api name obj opts = Inr (out, subs)"
    by (auto simp: from_esm_def split: sum.splits)
  with assms obj obtain tm where tm: "esm_temporal show api tp name (map_of obj ''temporal'') (op_records opts) = Some (Inr tm)"
    by (auto simp: from_esm_def split: option.splits sum.splits)
  with assms obj o have "case tm of
       Some T \<Rightarrow> L = src_temporal T out
     | None \<Rightarrow> L = out \<and> (\<exists>u. expand_all api name subs (so_url_template out # so_mirrors out) = Inr u)"
    by (cases tm) (auto simp: from_esm_def map_sum_Inr)
  with obj o tm show ?thesis by blast
qed

lemma from_esm_checked:
  assumes "from_esm show api tp name entry opts = Some (Inr L)"
  shows "\<exists>subs. so_substitutions L = Some subs \<and>
    (\<forall>t\<in>set (so_url_template L # so_mirrors L). check_url name t = Inr () \<and> check_esm_template api t subs = Inr () \<and>
       (so_temporal L = None \<longrightarrow> (\<exists>u. expand_esm_template api t None subs = Inr u)))"
proof -
  from from_esm_Inr [OF assms] obtain obj out subs tm where o: "entry_source api name obj opts = Inr (out, subs)"
    and L: "case tm of Some T \<Rightarrow> L = src_temporal T out
      | None \<Rightarrow> L = out \<and> (\<exists>u. expand_all api name subs (so_url_template out # so_mirrors out) = Inr u)" by blast
  note c = entry_source_checked [OF o]
  show ?thesis
  proof (cases tm)
    case (Some T)
    with L c show ?thesis by (simp add: src_temporal_def)
  next
    case None
    with L obtain ys where "L = out" and "each (\<lambda>t. map_sum (template_refusal name) id
        (expand_esm_template api t None subs)) (so_url_template out # so_mirrors out) = Inr ys"
      by (auto simp: expand_all_def map_sum_Inr simp del: each.simps)
    with c each_unit show ?thesis by (fastforce simp: map_sum_Inr simp del: each.simps)
  qed
qed

text \<open>A template that expands with no instant expands with any.\<close>

lemma expands_without_instant:
  assumes "expand_esm_template api T None subs = Inr u"
  shows "\<exists>v. expand_esm_template api T (Some a) subs = Inr v"
proof -
  have v: "token_value api T None subs n f = Inr v \<Longrightarrow> token_value api T (Some a) subs n f = Inr v" for n f v
    by (auto simp: token_value_def split: if_splits option.splits)
  from assms have "map_of subs ''date'' = None" "\<exists>u. expand_tokens api T None subs (tokens T) 0 [] = Inr u"
    by (auto simp: expand_esm_template_def split: if_splits)
  moreover from this(2) have "\<exists>v. expand_tokens api T (Some a) subs (tokens T) 0 [] = Inr v"
    unfolding expand_tokens_ok using v by blast
  ultimately show ?thesis by (auto simp: expand_esm_template_def)
qed

text \<open>
  C19: the locations of a source built from an entry resolve: for a source without an anchor always, and
  for one with a cadence unless a date token of a template cannot be formatted at the anchor.
\<close>

theorem from_esm_resolves:
  assumes "from_esm show (pl_cal P) tp name entry opts = Some (Inr L)"
    and "so_temporal L \<noteq> None \<Longrightarrow>
      \<forall>t\<in>set (so_url_template L # so_mirrors L). \<forall>tok\<in>set (tokens t). tk_name tok = ''date'' \<longrightarrow>
        (\<exists>f s. tk_format tok = Some f \<and> f \<noteq> [] \<and> format_date (pl_cal P) t f a = Inr s)"
  shows "\<exists>file. resolve_file P L a = Inr file \<and> length (fr_mirrors file) = length (so_mirrors L)"
proof -
  from from_esm_checked [OF assms(1)] obtain subs where s: "so_substitutions L = Some subs"
    and t: "\<forall>t\<in>set (so_url_template L # so_mirrors L). check_esm_template (pl_cal P) t subs = Inr () \<and>
       (so_temporal L = None \<longrightarrow> (\<exists>u. expand_esm_template (pl_cal P) t None subs = Inr u))" by blast
  have e: "\<exists>u. expand_esm_template (pl_cal P) t (Some a) subs = Inr u" if "t \<in> set (so_url_template L # so_mirrors L)" for t
  proof (cases "so_temporal L")
    case None
    with t that expands_without_instant show ?thesis by blast
  next
    case (Some T)
    with assms(2) t that show ?thesis unfolding expands_iff_checked by blast
  qed
  have "\<exists>ms. each (\<lambda>m. map_sum template_to_error id (expand_esm_template (pl_cal P) m (Some a) subs)) xs = Inr ms \<and>
      length ms = length xs"
    if "set xs \<subseteq> set (so_mirrors L)" for xs
    using that
  proof (induction xs)
    case (Cons x xs)
    with e [of x] obtain u where "expand_esm_template (pl_cal P) x (Some a) subs = Inr u" by auto
    moreover from Cons obtain ms where "each (\<lambda>m. map_sum template_to_error id (expand_esm_template (pl_cal P) m (Some a) subs)) xs = Inr ms"
      "length ms = length xs" by (meson set_subset_Cons subset_trans)
    ultimately show ?case by (simp add: id_def)
  qed simp
  from this [OF order_refl] e [of "so_url_template L"] s show ?thesis
    by (auto simp: resolve_file_def resolve_url_def bindR_Inr)
qed

section \<open>The declared number of records\<close>

lemma anchored_Inr:
  assumes "anchored show api tp name obj records tv start_v f p = Some (Inr r)"
  shows "\<exists>T. r = Some T \<and> check_records show api name T (map_of obj ''records_per_file'') = Some (Inr ())"
proof -
  have "\<exists>T. map_option (map_sum id (\<lambda>_. Some T)) (check_records show api name T (map_of obj ''records_per_file'')) = Some (Inr r)"
    using assms by (auto simp: anchored_def Let_def split: option.splits sum.splits)
  then show ?thesis by (auto simp: map_sum_Inr)
qed

lemma esm_temporal_anchored:
  assumes "esm_temporal show api tp name (Some (JObj obj)) records = Some (Inr (Some T))"
  shows "\<exists>tv start_v f p. anchored show api tp name obj records tv start_v f p = Some (Inr (Some T))"
proof -
  have "\<exists>freq fp tv. temporal_text name obj ''frequency'' ''esm_period_invalid'' = Inr freq \<and>
      temporal_text name obj ''file_period'' ''esm_period_invalid'' = Inr fp \<and>
      temporal_text name obj ''time_variable'' ''esm_source_temporal'' = Inr tv"
    using assms by (auto simp: esm_temporal_def split: sum.splits)
  then obtain freq fp tv where t: "temporal_text name obj ''frequency'' ''esm_period_invalid'' = Inr freq"
    "temporal_text name obj ''file_period'' ''esm_period_invalid'' = Inr fp"
    "temporal_text name obj ''time_variable'' ''esm_source_temporal'' = Inr tv" by blast
  from assms obtain start_v where s: "present (map_of obj ''start'') = Some start_v"
    by (cases "present (map_of obj ''start'')") (auto simp: esm_temporal_def t split: if_splits)
  from assms show ?thesis
    by (auto simp: esm_temporal_def t s split: option.splits sum.splits if_splits)
qed

text \<open>
  A source built from an entry that declares a number of records per file has exactly that many
  cadence anchors from its start to the next file's anchor.
\<close>

theorem declared_records_are_anchors:
  assumes built: "from_esm show api tp name (JObj obj) opts = Some (Inr L)" and T: "so_temporal L = Some T"
    and tmp: "map_of obj ''temporal'' = Some (JObj tmp)" and n: "map_of tmp ''records_per_file'' = Some (JInt n)"
    and laws: "civil_laws api" and pos: "is_positive (st_frequency T)" and start: "in_range api (st_start T)"
    and nf: "next_file_anchor api T (st_start T) = Some nf" "st_start T \<le> nf"
    and br: "bracketed api (st_frequency T) (st_start T) (st_start T) lo hi"
      "bracketed api (st_frequency T) (st_start T) nf lo hi"
    and g: "lo \<le> floor_guess (st_frequency T) (st_start T) (st_start T)" "floor_guess (st_frequency T) (st_start T) (st_start T) \<le> hi"
      "lo \<le> floor_guess (st_frequency T) (st_start T) nf" "floor_guess (st_frequency T) (st_start T) nf \<le> hi"
  shows "n = int (card {j \<in> {lo..hi}. \<exists>c. anchor api (st_frequency T) (st_start T) j = Some c \<and> st_start T \<le> c \<and> c < nf})"
proof -
  let ?an = "anchor api (st_frequency T) (st_start T)"
  from from_esm_Inr [OF built] obtain out subs tm where o: "entry_source api name obj opts = Inr (out, subs)"
    and e: "esm_temporal show api tp name (Some (JObj tmp)) (op_records opts) = Some (Inr tm)"
    and L: "case tm of Some T \<Rightarrow> L = src_temporal T out
      | None \<Rightarrow> L = out \<and> (\<exists>u. expand_all api name subs (so_url_template out # so_mirrors out) = Inr u)"
    using tmp by auto
  from L T entry_source_checked(2) [OF o] have "tm = Some T" by (auto simp: src_temporal_def split: option.splits)
  with esm_temporal_anchored anchored_Inr e have "check_records show api name T (Some (JInt n)) = Some (Inr ())"
    using n by fastforce
  then have rec: "first_file_records api T = Some n"
    by (auto simp: check_records_def j_i64_def checked_i64_def split: if_splits)
  from ceil_char [OF laws pos start br(1) g(1,2)] obtain a where a: "ceil_index api (st_frequency T) (st_start T) (st_start T) = Some a"
    "lo \<le> a" "a \<le> hi" "\<forall>j\<in>{lo..hi}. \<forall>c. ?an j = Some c \<longrightarrow> (st_start T \<le> c \<longleftrightarrow> a \<le> j)" by blast
  from ceil_char [OF laws pos start br(2) g(3,4)] obtain b c where b: "ceil_index api (st_frequency T) (st_start T) nf = Some b"
    "?an b = Some c" "nf \<le> c" "lo \<le> b" "b \<le> hi" "\<forall>j\<in>{lo..hi}. \<forall>c. ?an j = Some c \<longrightarrow> (nf \<le> c \<longleftrightarrow> b \<le> j)" by blast
  have ab: "a \<le> b" using a(4) b(2-5) nf(2) by fastforce
  have at: "\<exists>d. ?an j = Some d" if "j \<in> {lo..hi}" for j using br(1) that by (fastforce simp: bracketed_def list_all_iff)
  have "{j \<in> {lo..hi}. \<exists>c. ?an j = Some c \<and> st_start T \<le> c \<and> c < nf} = {a..<b}"
  proof (intro equalityI subsetI)
    fix j assume "j \<in> {j \<in> {lo..hi}. \<exists>c. ?an j = Some c \<and> st_start T \<le> c \<and> c < nf}"
    then obtain d where j: "j \<in> {lo..hi}" "?an j = Some d" "st_start T \<le> d" "d < nf" by auto
    with a(4) b(6) show "j \<in> {a..<b}" by force
  next
    fix j assume j: "j \<in> {a..<b}"
    then have r: "j \<in> {lo..hi}" using a(2) b(5) by auto
    from at [OF r] obtain d where "?an j = Some d" by blast
    with a(4) b(6) r j show "j \<in> {j \<in> {lo..hi}. \<exists>c. ?an j = Some c \<and> st_start T \<le> c \<and> c < nf}" by force
  qed
  moreover have "n = b - a" using rec nf(1) a(1) b(1) by (simp add: first_file_records_def checked_i64_def split: if_splits)
  ultimately show ?thesis using ab by simp
qed

section \<open>An instance\<close>

definition start_text :: "string \<Rightarrow> string \<Rightarrow> instant option" where
  "start_text d s = (if d = offset_forms ! 1 \<and> s = ''2016-01-31T00:00:00+00:00'' then Some jan31 else None)"

definition example_entry :: json where
  "example_entry = JObj [(''metadata'', JObj [(''esio_format'', JStr ''netcdf'')]),
     (''source'', JObj [(''url_template'', JStr ''s3://bucket/{sector}/{date:%Y%m%d}.nc'')]),
     (''temporal'', JObj [(''start'', JStr ''2016-01-31 00:00:00Z''), (''frequency'', JStr ''PT6H''),
       (''file_period'', JStr ''P1D''), (''records_per_file'', JInt 4)])]"

definition example_options :: source_options where
  "example_options = \<lparr>op_variables = [''t''], op_substitutions = [(''sector'', ''egu'')], op_url_override = None,
     op_records = None\<rparr>"

definition example_built :: data_source where
  "example_built = src_temporal (temporal_new jan31 (seconds_period 21600) (seconds_period 86400))
     (src_esm_template [(''sector'', ''egu'')] (src_reader_options [] (src_mirrors []
       (src_variables [''t''] (source_new ''nei'' ''netcdf'' ''s3://bucket/{sector}/{date:%Y%m%d}.nc'')))))"

lemma example_builds: "from_esm (\<lambda>_. []) greg_api start_text ''nei'' example_entry example_options = Some (Inr example_built)"
  by code_simp

theorem from_esm_resolves_witness:
  "resolve_file example_platform example_built jan31 =
     Inr \<lparr>fr_url = ''s3://bucket/egu/20160131.nc'', fr_mirrors = []\<rparr>"
proof -
  have cal: "pl_cal example_platform = greg_api" by (simp add: example_platform_def)
  have url: "so_url_template example_built = ''s3://bucket/{sector}/{date:%Y%m%d}.nc''" "so_mirrors example_built = []"
    by code_simp+
  have dates: "list_all (\<lambda>tok. tk_name tok = ''date'' \<longrightarrow>
      (case tk_format tok of Some f \<Rightarrow> f \<noteq> [] \<and> format_date greg_api ''s3://bucket/{sector}/{date:%Y%m%d}.nc'' f jan31 = Inr ''20160131''
       | None \<Rightarrow> False)) (tokens ''s3://bucket/{sector}/{date:%Y%m%d}.nc'')" by code_simp
  have "\<exists>file. resolve_file example_platform example_built jan31 = Inr file \<and> length (fr_mirrors file) = length (so_mirrors example_built)"
  proof (rule from_esm_resolves [where P = example_platform, unfolded cal, OF example_builds], unfold url)
    show "\<forall>t\<in>set [''s3://bucket/{sector}/{date:%Y%m%d}.nc'']. \<forall>tok\<in>set (tokens t). tk_name tok = ''date'' \<longrightarrow>
        (\<exists>f s. tk_format tok = Some f \<and> f \<noteq> [] \<and> format_date greg_api t f jan31 = Inr s)"
      using dates by (auto simp: list_all_iff split: option.splits)
  qed
  moreover have "resolve_file example_platform example_built jan31 =
     Inr \<lparr>fr_url = ''s3://bucket/egu/20160131.nc'', fr_mirrors = []\<rparr>" by code_simp
  ultimately show ?thesis by simp
qed

theorem declared_records_are_anchors_witness:
  "(4::int) = int (card {j \<in> {-1..6}. \<exists>c. anchor greg_api (seconds_period 21600) jan31 j = Some c \<and>
     jan31 \<le> c \<and> c < jan31 + ns_per_day})"
proof -
  let ?T = "temporal_new jan31 (seconds_period 21600) (seconds_period 86400)"
  have T: "so_temporal example_built = Some ?T" by (simp add: example_built_def src_temporal_def)
  have f: "st_frequency ?T = seconds_period 21600" "st_start ?T = jan31" by (simp_all add: temporal_new_def)
  obtain obj where obj: "example_entry = JObj obj" "map_of obj ''temporal'' = Some (JObj
      [(''start'', JStr ''2016-01-31 00:00:00Z''), (''frequency'', JStr ''PT6H''),
       (''file_period'', JStr ''P1D''), (''records_per_file'', JInt 4)])"
    by (simp add: example_entry_def)
  have "4 = int (card {j \<in> {-1..6}. \<exists>c. anchor greg_api (st_frequency ?T) (st_start ?T) j = Some c \<and>
      st_start ?T \<le> c \<and> c < jan31 + ns_per_day})"
  proof (rule declared_records_are_anchors [OF example_builds [unfolded obj(1)] T obj(2) _ greg.civil_laws_axioms])
    show "is_positive (st_frequency ?T)" "in_range greg_api (st_start ?T)"
      "next_file_anchor greg_api ?T (st_start ?T) = Some (jan31 + ns_per_day)"
      "st_start ?T \<le> jan31 + ns_per_day"
      "bracketed greg_api (st_frequency ?T) (st_start ?T) (st_start ?T) (-1) 6"
      "bracketed greg_api (st_frequency ?T) (st_start ?T) (jan31 + ns_per_day) (-1) 6"
      "-1 \<le> floor_guess (st_frequency ?T) (st_start ?T) (st_start ?T)"
      "floor_guess (st_frequency ?T) (st_start ?T) (st_start ?T) \<le> 6"
      "-1 \<le> floor_guess (st_frequency ?T) (st_start ?T) (jan31 + ns_per_day)"
      "floor_guess (st_frequency ?T) (st_start ?T) (jan31 + ns_per_day) \<le> 6"
      by code_simp+
  qed simp
  then show ?thesis unfolding f .
qed

end
