(* ===== verification/Chunks.thy ===== *)
theory Chunks
  imports Gathering
begin

text \<open>
  The chunk arithmetic of the zarr reader (\<open>rust/src/format/zarr.rs\<close>): which chunks a selection touches,
  which cells of the output each chunk owns, and the scatter of one decoded chunk into the output.
  Scattering the needed chunks, in any order, gives what gathering out of the whole array would.

  Chunk lengths are positive (\<open>zarrs\<close> holds them as non-zero integers).
\<close>

section \<open>The chunks a selection touches\<close>

definition chunk_ids :: "nat list \<Rightarrow> nat \<Rightarrow> nat list" where
  "chunk_ids idxs cl = remdups (sort (map (\<lambda>g. g div cl) idxs))"

definition extend_ids :: "nat list \<Rightarrow> nat list list \<Rightarrow> nat list list" where
  "extend_ids dim out = concat (map (\<lambda>prefix. map (\<lambda>c. prefix @ [c]) dim) out)"

definition needed_chunks :: "nat list list \<Rightarrow> nat list \<Rightarrow> nat list list" where
  "needed_chunks sel_idx chunks = fold extend_ids (map2 chunk_ids sel_idx chunks) [[]]"

section \<open>The cells a chunk owns\<close>

definition c_strides :: "nat list \<Rightarrow> nat list" where
  "c_strides shape =
     fold (\<lambda>d st. st[d := st ! (d + 1) * shape ! (d + 1)]) (rev [0..<length shape - 1])
       (replicate (length shape) 1)"

type_synonym owned = "(nat \<times> nat) list"

definition own_cell :: "nat \<Rightarrow> nat \<times> nat \<Rightarrow> (nat \<times> owned) list \<Rightarrow> (nat \<times> owned) list" where
  "own_cell c x m = al_put c ((case map_of m c of Some v \<Rightarrow> v | None \<Rightarrow> []) @ [x]) m"

definition axis_owners :: "nat list \<Rightarrow> nat \<Rightarrow> nat \<Rightarrow> (nat \<times> owned) list" where
  "axis_owners idxs cl os =
     fold (\<lambda>(pos, g) m. own_cell (g div cl) (pos * os, g mod cl) m) (enumerate 0 idxs) []"

definition chunk_owners :: "nat list list \<Rightarrow> nat list \<Rightarrow> nat list \<Rightarrow> (nat \<times> owned) list list" where
  "chunk_owners sel_idx chunk_shape out_stride =
     map (\<lambda>(idxs, cl, os). axis_owners idxs cl os) (zip sel_idx (zip chunk_shape out_stride))"

section \<open>The scatter of one chunk\<close>

text \<open>The owned cells along every dimension, with the chunk's strides applied; \<open>None\<close> when the chunk owns
  nothing along one.\<close>

definition scaled_owned :: "nat \<Rightarrow> owned \<Rightarrow> owned" where
  "scaled_owned cs own = (if cs = 1 then own else map (\<lambda>(lin, local). (lin, local * cs)) own)"

fun chunk_cells :: "(nat \<times> owned) list list \<Rightarrow> nat list \<Rightarrow> nat list \<Rightarrow> owned list option" where
  "chunk_cells (ow # ows) (c # cid) (cs # css) =
     (case map_of ow c of
        None \<Rightarrow> None
      | Some own \<Rightarrow> map_option ((#) (scaled_owned cs own)) (chunk_cells ows cid css))"
| "chunk_cells _ _ _ = Some []"

text \<open>The cell a counter names: its offsets in the output and in the chunk. \<open>None\<close> is an index out of
  range.\<close>

fun cell_of :: "owned list \<Rightarrow> nat list \<Rightarrow> (nat \<times> nat) option" where
  "cell_of (dim # dims) (c # cs) =
     (if c < length dim then
        map_option (\<lambda>(lin, off). (fst (dim ! c) + lin, snd (dim ! c) + off)) (cell_of dims cs)
      else None)"
| "cell_of _ _ = Some (0, 0)"

text \<open>One step of the odometer; \<open>None\<close> when every digit has wrapped.\<close>

fun tick :: "nat list \<Rightarrow> nat list \<Rightarrow> nat \<Rightarrow> nat list option" where
  "tick lens counter 0 = None"
| "tick lens counter (Suc d) =
     (let counter' = counter[d := counter ! d + 1] in
      if counter' ! d < lens ! d then Some counter' else tick lens (counter'[d := 0]) d)"

partial_function (option) scatter_loop ::
    "('e \<Rightarrow> 'f) \<Rightarrow> 'e list \<Rightarrow> owned list \<Rightarrow> nat list \<Rightarrow> 'f list \<Rightarrow> 'f list option" where
  "scatter_loop widen elems per_dim counter out =
     Option.bind (cell_of per_dim counter) (\<lambda>(lin, off).
       if lin < length out \<and> off < length elems then
         (let out' = out[lin := widen (elems ! off)] in
          case tick (map length per_dim) counter (length counter) of
            None \<Rightarrow> Some out'
          | Some counter' \<Rightarrow> scatter_loop widen elems per_dim counter' out')
       else None)"

definition scatter_chunk ::
    "('e \<Rightarrow> 'f) \<Rightarrow> 'f list \<Rightarrow> 'e list \<Rightarrow> nat list \<Rightarrow> nat list \<Rightarrow> (nat \<times> owned) list list \<Rightarrow> 'f list option" where
  "scatter_chunk widen out elems cid cshape owners =
     (case chunk_cells owners cid (c_strides cshape) of
        None \<Rightarrow> Some out
      | Some per_dim \<Rightarrow> scatter_loop widen elems per_dim (replicate (length cid) 0) out)"

section \<open>The odometer visits the product\<close>

lemma c_strides_eq: "c_strides shape = src_strides shape"
  by (simp add: c_strides_def src_strides_def)

lemma tick_bump:
  assumes "in_shape lens c" "d \<le> length lens" "\<forall>i. d \<le> i \<longrightarrow> i < length lens \<longrightarrow> c ! i = 0"
  shows "tick lens c d =
    (if position_of lens c + width lens d < prod_list lens then Some (bump lens c d) else None)"
  using assms
proof (induction d arbitrary: c)
  case 0
  then show ?case using position_bound [of lens c] by (simp add: width_def)
next
  case (Suc d)
  have l: "length c = length lens" "d < length lens" using Suc.prems by (auto simp: in_shape_def)
  let ?pos = "\<lambda>c. \<Sum>i<length c. c ! i * width lens (Suc i)"
  have upd: "?pos (c[d := v]) + c ! d * width lens (Suc d) = ?pos c + v * width lens (Suc d)" for v
    using sum_update [of d c v "\<lambda>i. width lens (Suc i)"] l by simp
  show ?case
  proof (cases "Suc (c ! d) < lens ! d")
    case True
    have ok: "in_shape lens (c[d := Suc (c ! d)])"
      using Suc.prems(1) True l by (auto simp: in_shape_def nth_list_update)
    have "position_of lens (c[d := Suc (c ! d)]) = position_of lens c + width lens (Suc d)"
      using upd [of "Suc (c ! d)"] by (simp add: position_sum ok Suc.prems(1))
    then have "position_of lens c + width lens (Suc d) < prod_list lens" using position_bound [OF ok] by simp
    with True l show ?thesis by simp
  next
    case False
    let ?c = "c[d := 0]"
    have full: "Suc (c ! d) = lens ! d" using False Suc.prems(1) l(2) by (metis Suc_lessI in_shape_def)
    then have "0 < lens ! d" by simp
    then have ok: "in_shape lens ?c" using Suc.prems(1) l by (auto simp: in_shape_def nth_list_update)
    have pos: "position_of lens ?c + width lens d = position_of lens c + width lens (Suc d)"
      using upd [of 0] Suc.prems(1) ok l full
      by (simp add: position_sum width_def prod_drop [of d lens] full [symmetric])
    have "\<forall>i. d \<le> i \<longrightarrow> i < length lens \<longrightarrow> ?c ! i = 0"
      using Suc.prems(3) l by (auto simp: nth_list_update not_less_eq_eq le_Suc_eq)
    with Suc.IH [OF ok] l False pos show ?thesis by simp
  qed
qed

lemma tick_next:
  assumes "in_shape lens c"
  shows "tick lens c (length c) =
    (if Suc (position_of lens c) < prod_list lens then Some (bump lens c (length c)) else None)"
  using tick_bump [OF assms, of "length lens"] assms by (simp add: in_shape_def width_def)

text \<open>One write, and the writes of a list of cells.\<close>

definition write_cell :: "('e \<Rightarrow> 'f) \<Rightarrow> 'e list \<Rightarrow> (nat \<times> nat) list \<Rightarrow> 'f list \<Rightarrow> 'f list" where
  "write_cell widen elems cell out = out[sum_list (map fst cell) := widen (elems ! sum_list (map snd cell))]"

lemma cell_of_product:
  "in_shape (map length dims) c \<Longrightarrow>
     cell_of dims c = Some (sum_list (map fst (map2 (!) dims c)), sum_list (map snd (map2 (!) dims c)))"
proof (induction dims arbitrary: c)
  case (Cons dim dims)
  then show ?case by (cases c) auto
qed simp

lemma scatter_loop_writes:
  assumes c: "in_shape (map length dims) c"
    and ok: "\<forall>cell\<in>set (product_lists dims). sum_list (map fst cell) < length out \<and> sum_list (map snd cell) < length elems"
  shows "scatter_loop widen elems dims c out =
    Some (fold (write_cell widen elems) (drop (position_of (map length dims) c) (product_lists dims)) out)"
  using assms
proof (induction "prod_list (map length dims) - position_of (map length dims) c" arbitrary: c out rule: less_induct)
  case less
  let ?lens = "map length dims" let ?p = "position_of ?lens c"
  have p: "?p < length (product_lists dims)" using position_bound [OF less.prems(1)] by (simp add: length_product)
  obtain cell where at: "cell = map2 (!) dims c" by blast
  have cell: "product_lists dims ! ?p = cell" unfolding at by (rule product_nth [OF less.prems(1)])
  then have "cell \<in> set (product_lists dims)" using p by (metis nth_mem)
  with less.prems(2) have b: "sum_list (map fst cell) < length out" "sum_list (map snd cell) < length elems" by auto
  let ?out = "write_cell widen elems cell out"
  have step: "drop ?p (product_lists dims) = cell # drop (Suc ?p) (product_lists dims)"
    using p cell by (simp add: Cons_nth_drop_Suc [symmetric])
  have unf: "scatter_loop widen elems dims c out =
      (case tick ?lens c (length c) of None \<Rightarrow> Some ?out | Some c' \<Rightarrow> scatter_loop widen elems dims c' ?out)"
    unfolding write_cell_def
    by (subst scatter_loop.simps) (simp add: cell_of_product [OF less.prems(1), folded at] b Let_def)
  show ?case
  proof (cases "Suc ?p < prod_list ?lens")
    case True
    note b = bump_step [OF less.prems(1) True]
    have "scatter_loop widen elems dims (bump ?lens c (length c)) ?out =
        Some (fold (write_cell widen elems) (drop (Suc ?p) (product_lists dims)) ?out)"
      using less.hyps [OF _ b(1), of ?out] b(2) less.prems(2) True by (simp add: write_cell_def)
    then show ?thesis using True by (simp add: unf step tick_next [OF less.prems(1)])
  next
    case False
    then have "drop (Suc ?p) (product_lists dims) = []" by (simp add: length_product)
    with False show ?thesis by (simp add: unf step tick_next [OF less.prems(1)])
  qed
qed

section \<open>What a chunk owns\<close>

definition positions :: "nat list \<Rightarrow> nat \<Rightarrow> nat \<Rightarrow> nat list" where
  "positions idxs cl c = filter (\<lambda>pos. idxs ! pos div cl = c) [0..<length idxs]"

definition own_of :: "nat list \<Rightarrow> nat \<Rightarrow> nat \<Rightarrow> nat \<Rightarrow> owned" where
  "own_of idxs cl os c = map (\<lambda>pos. (pos * os, idxs ! pos mod cl)) (positions idxs cl c)"

lemma positions_snoc:
  "positions (idxs @ [g]) cl c = positions idxs cl c @ (if g div cl = c then [length idxs] else [])"
proof -
  have "filter (\<lambda>pos. (idxs @ [g]) ! pos div cl = c) [0..<length idxs] = filter (\<lambda>pos. idxs ! pos div cl = c) [0..<length idxs]"
    by (intro filter_cong) (auto simp: nth_append)
  then show ?thesis by (simp add: positions_def nth_append)
qed

lemma own_of_snoc:
  "own_of (idxs @ [g]) cl os c = own_of idxs cl os c @ (if g div cl = c then [(length idxs * os, g mod cl)] else [])"
proof -
  have "map (\<lambda>pos. (pos * os, (idxs @ [g]) ! pos mod cl)) (positions idxs cl c) =
      map (\<lambda>pos. (pos * os, idxs ! pos mod cl)) (positions idxs cl c)"
    by (auto simp: positions_def nth_append)
  then show ?thesis by (simp add: own_of_def positions_snoc)
qed

lemma axis_owners_own:
  "map_of (axis_owners idxs cl os) c = (if own_of idxs cl os c = [] then None else Some (own_of idxs cl os c))"
proof (induction idxs arbitrary: c rule: rev_induct)
  case Nil
  then show ?case by (simp add: axis_owners_def own_of_def positions_def)
next
  case (snoc g idxs)
  have "axis_owners (idxs @ [g]) cl os =
      own_cell (g div cl) (length idxs * os, g mod cl) (axis_owners idxs cl os)"
    by (simp add: axis_owners_def enumerate_append_eq)
  then show ?case by (simp add: own_cell_def own_of_snoc snoc.IH)
qed

lemma length_chunk_owners [simp]:
  "length ch = length sel \<Longrightarrow> length os = length sel \<Longrightarrow> length (chunk_owners sel ch os) = length sel"
  by (simp add: chunk_owners_def)

lemma nth_chunk_owners:
  "length ch = length sel \<Longrightarrow> length os = length sel \<Longrightarrow> d < length sel \<Longrightarrow>
     chunk_owners sel ch os ! d = axis_owners (sel ! d) (ch ! d) (os ! d)"
  by (simp add: chunk_owners_def)

lemma chunk_cells_Some:
  "length cid = length ows \<Longrightarrow> length css = length ows \<Longrightarrow>
     \<forall>d<length ows. map_of (ows ! d) (cid ! d) = Some (own d) \<Longrightarrow>
     chunk_cells ows cid css = Some (map (\<lambda>d. scaled_owned (css ! d) (own d)) [0..<length ows])"
proof (induction ows arbitrary: cid css own)
  case (Cons ow ows)
  then obtain c cid' cs css' where e: "cid = c # cid'" "css = cs # css'" by (cases cid; cases css) auto
  have "chunk_cells ows cid' css' = Some (map (\<lambda>d. scaled_owned (css' ! d) (own (Suc d))) [0..<length ows])"
    using Cons.prems e by (intro Cons.IH) auto
  moreover have "map_of ow c = Some (own 0)" using Cons.prems e by auto
  ultimately show ?case using e by (simp add: upt_conv_Cons map_Suc_upt [symmetric] comp_def del: upt_Suc map_Suc_upt)
qed simp

lemma chunk_cells_None:
  "length cid = length ows \<Longrightarrow> length css = length ows \<Longrightarrow> d < length ows \<Longrightarrow> map_of (ows ! d) (cid ! d) = None \<Longrightarrow>
     chunk_cells ows cid css = None"
proof (induction ows arbitrary: cid css d)
  case (Cons ow ows)
  then obtain c cid' cs css' where e: "cid = c # cid'" "css = cs # css'" by (cases cid; cases css) auto
  with Cons show ?case by (cases d) (auto split: option.splits)
qed simp

lemma product_map:
  "length fs = length xss \<Longrightarrow> product_lists (map2 map fs xss) = map (map2 (\<lambda>f x. f x) fs) (product_lists xss)"
  by (induction fs xss rule: list_induct2) (simp_all add: map_concat comp_def)

section \<open>Writes that do not collide\<close>

lemma position_inj: "inj_on (position_of ns) {p. in_shape ns p}"
proof -
  have "{p. in_shape ns p} = set (product_lists (map (\<lambda>n. [0..<n]) ns))"
    by (auto simp: product_lists_set list_all2_conv_all_nth in_shape_def)
  moreover have "distinct (map (position_of ns) (product_lists (map (\<lambda>n. [0..<n]) ns)))"
    by (simp add: positions_product)
  ultimately show ?thesis by (simp add: distinct_map)
qed

lemma fold_writes:
  assumes "inj_on pos I" "set ps \<subseteq> I" "\<forall>p\<in>I. pos p < length out"
  shows "length (fold (\<lambda>p out. out[pos p := v p]) ps out) = length out"
    and "q \<in> I \<Longrightarrow> fold (\<lambda>p out. out[pos p := v p]) ps out ! pos q = (if q \<in> set ps then v q else out ! pos q)"
  using assms
proof (induction ps arbitrary: out)
  case (Cons p ps)
  { case 1 then show ?case using Cons.IH(1) [of "out[pos p := v p]"] by simp
  next
    case 2
    then have "out[pos p := v p] ! pos q = (if q = p then v p else out ! pos q)"
      by (auto simp: inj_on_def nth_list_update)
    with 2 show ?case using Cons.IH(2) [of "out[pos p := v p]"] by auto }
qed simp_all

section \<open>The scatter of one chunk writes the cells it owns\<close>

text \<open>The chunk that holds an output cell, and the clipped block of an array a chunk is.\<close>

definition chunk_of :: "nat list list \<Rightarrow> nat list \<Rightarrow> nat list \<Rightarrow> nat list" where
  "chunk_of sel ch p = map (\<lambda>d. sel ! d ! (p ! d) div ch ! d) [0..<length sel]"

definition chunk_shape_of :: "nat list \<Rightarrow> nat list \<Rightarrow> nat list \<Rightarrow> nat list" where
  "chunk_shape_of shape ch cid = map (\<lambda>d. min (ch ! d) (shape ! d - cid ! d * ch ! d)) [0..<length shape]"

definition chunk_cell :: "nat list \<Rightarrow> nat list \<Rightarrow> nat list \<Rightarrow> nat list" where
  "chunk_cell ch cid loc = map (\<lambda>d. cid ! d * ch ! d + loc ! d) [0..<length cid]"

definition is_chunk :: "'e list \<Rightarrow> nat list \<Rightarrow> nat list \<Rightarrow> nat list \<Rightarrow> 'e list \<Rightarrow> bool" where
  "is_chunk A shape ch cid elems \<longleftrightarrow>
     length elems = prod_list (chunk_shape_of shape ch cid) \<and>
     (\<forall>loc. in_shape (chunk_shape_of shape ch cid) loc \<longrightarrow>
        elems ! position_of (chunk_shape_of shape ch cid) loc = A ! position_of shape (chunk_cell ch cid loc))"

definition chunk_lengths :: "nat list \<Rightarrow> nat list \<Rightarrow> bool" where
  "chunk_lengths shape ch \<longleftrightarrow> length ch = length shape \<and> (\<forall>d<length shape. 0 < ch ! d)"

lemma in_chunk_product:
  assumes cid: "length cid = length sel"
  shows "p \<in> set (product_lists (map (\<lambda>d. positions (sel ! d) (ch ! d) (cid ! d)) [0..<length sel])) \<longleftrightarrow>
    in_shape (map length sel) p \<and> chunk_of sel ch p = cid"
proof -
  have c: "chunk_of sel ch p = cid \<longleftrightarrow> (\<forall>d<length sel. sel ! d ! (p ! d) div ch ! d = cid ! d)"
    unfolding chunk_of_def list_eq_iff_nth_eq using cid by simp
  have "p \<in> set (product_lists (map (\<lambda>d. positions (sel ! d) (ch ! d) (cid ! d)) [0..<length sel])) \<longleftrightarrow>
      length p = length sel \<and> (\<forall>d<length sel. p ! d \<in> set (positions (sel ! d) (ch ! d) (cid ! d)))"
    by (auto simp: product_lists_set list_all2_conv_all_nth)
  also have "\<dots> \<longleftrightarrow> in_shape (map length sel) p \<and> chunk_of sel ch p = cid"
    unfolding c in_shape_def positions_def by (simp add: all_conj_distrib imp_conjR)
  finally show ?thesis .
qed

text \<open>The offset of a cell inside its chunk names the cell of the whole array.\<close>

lemma chunk_local:
  assumes fit: "picks_fit shape sel" and ch: "chunk_lengths shape ch"
    and p: "in_shape (map length sel) p" and cid: "chunk_of sel ch p = cid"
  defines "loc \<equiv> map (\<lambda>d. sel ! d ! (p ! d) mod ch ! d) [0..<length sel]"
  shows "in_shape (chunk_shape_of shape ch cid) loc" and "chunk_cell ch cid loc = picked sel p"
proof -
  have l: "length sel = length shape" "length ch = length shape" "length p = length shape" "length cid = length shape"
    using fit ch p cid by (auto simp: picks_fit_def chunk_lengths_def in_shape_def chunk_of_def)
  have eq: "cid ! d * ch ! d + loc ! d = sel ! d ! (p ! d)" if "d < length shape" for d
    using that l cid div_mult_mod_eq [of "sel ! d ! (p ! d)" "ch ! d"] by (auto simp: loc_def chunk_of_def)
  show "in_shape (chunk_shape_of shape ch cid) loc"
    unfolding in_shape_def
  proof (intro conjI allI impI)
    show "length loc = length (chunk_shape_of shape ch cid)" using l by (simp add: loc_def chunk_shape_of_def)
    fix d assume "d < length (chunk_shape_of shape ch cid)"
    then have d: "d < length shape" by (simp add: chunk_shape_of_def)
    have "sel ! d ! (p ! d) < shape ! d" using fit p d l by (auto simp: picks_fit_def in_shape_def)
    moreover have "loc ! d < ch ! d" using ch d l by (simp add: loc_def chunk_lengths_def)
    ultimately show "loc ! d < chunk_shape_of shape ch cid ! d"
      using eq [OF d] d by (simp add: chunk_shape_of_def)
  qed
  show "chunk_cell ch cid loc = picked sel p"
    using eq l by (intro nth_equalityI) (simp_all add: chunk_cell_def picked_def)
qed

lemma scatter_chunk_spec:
  assumes fit: "picks_fit shape sel" and ch: "chunk_lengths shape ch"
    and cid: "length cid = length sel" and len: "length out = prod_list (map length sel)"
    and blk: "cid \<in> chunk_of sel ch ` {p. in_shape (map length sel) p} \<Longrightarrow> is_chunk V shape ch cid (map widen elems)"
  shows "\<exists>out'. scatter_chunk widen out elems cid (chunk_shape_of shape ch cid)
      (chunk_owners sel ch (c_strides (map length sel))) = Some out' \<and> length out' = length out \<and>
    (\<forall>p. in_shape (map length sel) p \<longrightarrow> out' ! position_of (map length sel) p =
       (if chunk_of sel ch p = cid then V ! position_of shape (picked sel p)
        else out ! position_of (map length sel) p))"
proof -
  let ?n = "length sel" let ?os = "c_strides (map length sel)" let ?cs = "chunk_shape_of shape ch cid"
  let ?ows = "chunk_owners sel ch ?os"
  let ?P = "map (\<lambda>d. positions (sel ! d) (ch ! d) (cid ! d)) [0..<?n]"
  have l: "length shape = ?n" "length ch = ?n" "length ?os = ?n" "length ?cs = ?n" "length (c_strides ?cs) = ?n"
    using fit ch by (simp_all add: picks_fit_def chunk_lengths_def c_strides_eq chunk_shape_of_def)
  have ow: "map_of (?ows ! d) (cid ! d) =
      (if ?P ! d = [] then None else Some (own_of (sel ! d) (ch ! d) (?os ! d) (cid ! d)))" if "d < ?n" for d
    using that l by (simp add: nth_chunk_owners axis_owners_own own_of_def)
  show ?thesis
  proof (cases "\<exists>d<?n. ?P ! d = []")
    case True
    then obtain d where d: "d < ?n" "?P ! d = []" by blast
    then have "chunk_cells ?ows cid (c_strides ?cs) = None"
      using ow [OF d(1)] l cid by (intro chunk_cells_None [where d = d]) simp_all
    moreover have "chunk_of sel ch p \<noteq> cid" if "in_shape (map length sel) p" for p
    proof
      assume "chunk_of sel ch p = cid"
      with that in_chunk_product [OF cid] have "p \<in> set (product_lists ?P)" by blast
      with d show False by (auto simp: product_lists_set list_all2_conv_all_nth)
    qed
    ultimately show ?thesis by (simp add: scatter_chunk_def)
  next
    case False
    let ?f = "\<lambda>d pos. (pos * ?os ! d, sel ! d ! pos mod ch ! d * c_strides ?cs ! d)"
    let ?fs = "map ?f [0..<?n]"
    have "chunk_cells ?ows cid (c_strides ?cs) =
        Some (map (\<lambda>d. scaled_owned (c_strides ?cs ! d) (own_of (sel ! d) (ch ! d) (?os ! d) (cid ! d))) [0..<length ?ows])"
      using False ow l cid by (intro chunk_cells_Some) auto
    also have "map (\<lambda>d. scaled_owned (c_strides ?cs ! d) (own_of (sel ! d) (ch ! d) (?os ! d) (cid ! d))) [0..<length ?ows] =
        map2 map ?fs ?P"
      using l by (intro nth_equalityI) (auto simp: scaled_owned_def own_of_def)
    finally have cells: "chunk_cells ?ows cid (c_strides ?cs) = Some (map2 map ?fs ?P)" .
    have prod: "product_lists (map2 map ?fs ?P) = map (map2 (\<lambda>f x. f x) ?fs) (product_lists ?P)"
      by (rule product_map) simp
    have mem: "in_shape (map length sel) p \<and> chunk_of sel ch p = cid" if "p \<in> set (product_lists ?P)" for p
      using that in_chunk_product [OF cid] by blast
    have blk': "is_chunk V shape ch cid (map widen elems)" if "p \<in> set (product_lists ?P)" for p
      using blk mem [OF that] by blast
    have sums: "sum_list (map fst (map2 (\<lambda>f x. f x) ?fs p)) = position_of (map length sel) p"
      "sum_list (map snd (map2 (\<lambda>f x. f x) ?fs p)) =
         position_of ?cs (map (\<lambda>d. sel ! d ! (p ! d) mod ch ! d) [0..<?n])" if p: "p \<in> set (product_lists ?P)" for p
    proof -
      have pl: "length p = ?n" "in_shape (map length sel) p" using mem [OF p] by (auto simp: in_shape_def)
      have loc: "in_shape ?cs (map (\<lambda>d. sel ! d ! (p ! d) mod ch ! d) [0..<?n])"
        using chunk_local(1) [OF fit ch pl(2)] mem [OF p] by blast
      show "sum_list (map fst (map2 (\<lambda>f x. f x) ?fs p)) = position_of (map length sel) p"
        unfolding position_sum [OF pl(2)] using pl(1)
        by (simp add: sum_list_sum_nth atLeast0LessThan c_strides_eq nth_strides)
      show "sum_list (map snd (map2 (\<lambda>f x. f x) ?fs p)) =
          position_of ?cs (map (\<lambda>d. sel ! d ! (p ! d) mod ch ! d) [0..<?n])"
        unfolding position_sum [OF loc] using pl(1) l
        by (simp add: sum_list_sum_nth atLeast0LessThan c_strides_eq nth_strides)
    qed
    have off: "sum_list (map snd (map2 (\<lambda>f x. f x) ?fs p)) < length elems"
      and val: "widen (elems ! sum_list (map snd (map2 (\<lambda>f x. f x) ?fs p))) = V ! position_of shape (picked sel p)"
      if p: "p \<in> set (product_lists ?P)" for p
    proof -
      note c = chunk_local [OF fit ch, of p cid] mem [OF p] blk' [OF p]
      show o: "sum_list (map snd (map2 (\<lambda>f x. f x) ?fs p)) < length elems"
        unfolding sums(2) [OF p] using c position_bound by (simp add: is_chunk_def)
      then have "widen (elems ! sum_list (map snd (map2 (\<lambda>f x. f x) ?fs p))) =
          map widen elems ! sum_list (map snd (map2 (\<lambda>f x. f x) ?fs p))" by simp
      also have "\<dots> = V ! position_of shape (picked sel p)"
        unfolding sums(2) [OF p] using c by (simp only: is_chunk_def)
      finally show "widen (elems ! sum_list (map snd (map2 (\<lambda>f x. f x) ?fs p))) = V ! position_of shape (picked sel p)" .
    qed
    have in_out: "sum_list (map fst (map2 (\<lambda>f x. f x) ?fs p)) < length out" if p: "p \<in> set (product_lists ?P)" for p
      unfolding sums(1) [OF p] len using mem [OF p] position_bound by blast
    let ?pos = "position_of (map length sel)" let ?v = "\<lambda>p. V ! position_of shape (picked sel p)"
    have pos: "0 < prod_list (map length (map2 map ?fs ?P))"
    proof -
      have "map length (map2 map ?fs ?P) = map length ?P" by (intro nth_equalityI) simp_all
      moreover have "0 < prod_list (map length xss)" if "\<forall>xs\<in>set xss. xs \<noteq> []" for xss :: "nat list list"
        using that by (induction xss) auto
      moreover have "\<forall>xs\<in>set ?P. xs \<noteq> []" using False by auto
      ultimately show ?thesis by (simp only:)
    qed
    note zero = zero_in_shape [OF pos]
    have "scatter_loop widen elems (map2 map ?fs ?P) (replicate (length cid) 0) out =
        Some (fold (write_cell widen elems) (product_lists (map2 map ?fs ?P)) out)"
    proof -
      have "\<forall>cell\<in>set (product_lists (map2 map ?fs ?P)).
          sum_list (map fst cell) < length out \<and> sum_list (map snd cell) < length elems"
        unfolding prod set_map ball_simps using in_out off by blast
      from scatter_loop_writes [OF conjunct1 [OF zero] this] conjunct2 [OF zero] cid show ?thesis by simp
    qed
    also have "fold (write_cell widen elems) (product_lists (map2 map ?fs ?P)) out =
        fold (\<lambda>p out. out[?pos p := ?v p]) (product_lists ?P) out"
      unfolding prod fold_map
    proof (rule fold_cong [OF refl refl])
      fix p assume p: "p \<in> set (product_lists ?P)"
      show "(write_cell widen elems \<circ> map2 (\<lambda>f x. f x) ?fs) p = (\<lambda>out. out[?pos p := ?v p])"
        by (rule ext) (simp only: comp_apply write_cell_def sums(1) [OF p] val [OF p])
    qed
    finally have r: "scatter_chunk widen out elems cid ?cs ?ows = Some (fold (\<lambda>p out. out[?pos p := ?v p]) (product_lists ?P) out)"
      by (simp only: scatter_chunk_def cells option.case)
    have bound: "\<forall>p\<in>{p. in_shape (map length sel) p}. ?pos p < length out" using len position_bound by auto
    have sub: "set (product_lists ?P) \<subseteq> {p. in_shape (map length sel) p}" using mem by blast
    note w = fold_writes [OF position_inj sub bound, where v = ?v]
    have "fold (\<lambda>p out. out[?pos p := ?v p]) (product_lists ?P) out ! ?pos p =
        (if chunk_of sel ch p = cid then ?v p else out ! ?pos p)" if "in_shape (map length sel) p" for p
      using w(2) [of p] that in_chunk_product [OF cid, of p ch] by auto
    with r w(1) show ?thesis by blast
  qed
qed

section \<open>The needed chunks\<close>

lemma extend_ids_product:
  "concat (map (\<lambda>p. map ((@) p) xss) (extend_ids dim out)) =
     concat (map (\<lambda>p. map ((@) p) (concat (map (\<lambda>x. map (Cons x) xss) dim))) out)"
proof -
  have "(@) (p @ [c]) = (\<lambda>xs. p @ c # xs)" for p and c :: nat by (rule ext) simp
  then show ?thesis by (induction out) (simp_all add: extend_ids_def map_concat comp_def)
qed

lemma fold_extend_ids: "fold extend_ids dims out = concat (map (\<lambda>p. map ((@) p) (product_lists dims)) out)"
proof (induction dims arbitrary: out)
  case (Cons dim dims)
  show ?case by (simp only: fold.simps comp_apply Cons.IH extend_ids_product product_lists.simps)
qed simp

lemma needed_chunks_product: "needed_chunks sel ch = product_lists (map2 chunk_ids sel ch)"
proof -
  have "map ((@) []) xss = xss" for xss :: "nat list list" by (simp add: map_idI)
  then show ?thesis by (simp add: needed_chunks_def fold_extend_ids)
qed

lemma set_chunk_ids: "set (chunk_ids idxs cl) = (\<lambda>p. idxs ! p div cl) ` {..<length idxs}"
proof -
  have "set idxs = (!) idxs ` {..<length idxs}" by (auto simp: set_conv_nth)
  then show ?thesis by (simp add: chunk_ids_def image_image)
qed

text \<open>The chunks read are those that hold a selected cell, each once.\<close>

lemma needed_chunks_exact:
  assumes "length ch = length sel"
  shows "set (needed_chunks sel ch) = chunk_of sel ch ` {p. in_shape (map length sel) p}"
    and "distinct (needed_chunks sel ch)"
proof -
  show "distinct (needed_chunks sel ch)"
    unfolding needed_chunks_product
  proof (rule distinct_product_lists)
    show "\<forall>xs\<in>set (map2 chunk_ids sel ch). distinct xs" by (force simp: chunk_ids_def)
  qed
  have mem: "cid \<in> set (needed_chunks sel ch) \<longleftrightarrow>
      length cid = length sel \<and> (\<forall>d<length sel. \<exists>p<length (sel ! d). cid ! d = sel ! d ! p div ch ! d)" for cid
  proof -
    have "cid \<in> set (needed_chunks sel ch) \<longleftrightarrow>
        length cid = length sel \<and> (\<forall>d<length sel. cid ! d \<in> set (chunk_ids (sel ! d) (ch ! d)))"
      unfolding needed_chunks_product product_lists_set list_all2_conv_all_nth using assms by auto
    then show ?thesis unfolding set_chunk_ids image_iff by auto
  qed
  show "set (needed_chunks sel ch) = chunk_of sel ch ` {p. in_shape (map length sel) p}"
  proof (intro equalityI subsetI)
    fix cid assume "cid \<in> set (needed_chunks sel ch)"
    with mem have l: "length cid = length sel" and e: "\<forall>d<length sel. \<exists>p<length (sel ! d). cid ! d = sel ! d ! p div ch ! d"
      by blast+
    from e obtain f where f: "\<forall>d<length sel. f d < length (sel ! d) \<and> cid ! d = sel ! d ! f d div ch ! d" by metis
    let ?p = "map f [0..<length sel]"
    have "in_shape (map length sel) ?p" using f by (simp add: in_shape_def)
    moreover have "chunk_of sel ch ?p = cid" using f l by (intro nth_equalityI) (simp_all add: chunk_of_def)
    ultimately show "cid \<in> chunk_of sel ch ` {p. in_shape (map length sel) p}" by blast
  next
    fix cid assume "cid \<in> chunk_of sel ch ` {p. in_shape (map length sel) p}"
    then obtain p where "in_shape (map length sel) p" "cid = chunk_of sel ch p" by blast
    then show "cid \<in> set (needed_chunks sel ch)" unfolding mem by (auto simp: in_shape_def chunk_of_def)
  qed
qed

section \<open>Any order of scatters gathers\<close>

text \<open>The output is right on the cells of the chunks scattered so far.\<close>

definition right_on ::
    "'f list \<Rightarrow> nat list \<Rightarrow> nat list list \<Rightarrow> nat list \<Rightarrow> nat list set \<Rightarrow> 'f list \<Rightarrow> bool" where
  "right_on V shape sel ch done_ids out \<longleftrightarrow>
     length out = prod_list (map length sel) \<and>
     (\<forall>p. in_shape (map length sel) p \<longrightarrow> chunk_of sel ch p \<in> done_ids \<longrightarrow>
        out ! position_of (map length sel) p = V ! position_of shape (picked sel p))"

lemma right_on_scatter:
  assumes "right_on V shape sel ch D out" "picks_fit shape sel" "chunk_lengths shape ch"
    and "cid \<in> set (needed_chunks sel ch)" "is_chunk V shape ch cid (map widen elems)"
  shows "\<exists>out'. scatter_chunk widen out elems cid (chunk_shape_of shape ch cid)
      (chunk_owners sel ch (c_strides (map length sel))) = Some out' \<and>
    right_on V shape sel ch (insert cid D) out'"
proof -
  have "length ch = length sel" using assms(2,3) by (simp add: picks_fit_def chunk_lengths_def)
  with needed_chunks_exact(1) assms(4) have "length cid = length sel" by (fastforce simp: chunk_of_def)
  from scatter_chunk_spec [OF assms(2,3) this _ assms(5), of out] assms(1) obtain out' where
    "scatter_chunk widen out elems cid (chunk_shape_of shape ch cid)
      (chunk_owners sel ch (c_strides (map length sel))) = Some out'" "length out' = length out"
    "\<forall>p. in_shape (map length sel) p \<longrightarrow> out' ! position_of (map length sel) p =
       (if chunk_of sel ch p = cid then V ! position_of shape (picked sel p)
        else out ! position_of (map length sel) p)"
    unfolding right_on_def by blast
  with assms(1) show ?thesis by (auto simp: right_on_def)
qed

lemma right_on_all:
  assumes "right_on V shape sel ch (set (needed_chunks sel ch)) out" "length ch = length sel"
  shows "out = gather_spec V shape sel"
proof (rule nth_equalityI)
  have l: "length out = prod_list (map length sel)" using assms(1) by (simp add: right_on_def)
  then show "length out = length (gather_spec V shape sel)" by (simp add: gather_spec_def length_product)
  fix i assume "i < length out"
  with l have "i \<in> set (map (position_of (map length sel)) (product_lists (map (\<lambda>n. [0..<n]) (map length sel))))"
    by (simp only: positions_product) simp
  then obtain p where p: "in_shape (map length sel) p" "i = position_of (map length sel) p"
    by (auto simp: product_lists_set list_all2_conv_all_nth in_shape_def)
  have "chunk_of sel ch p \<in> set (needed_chunks sel ch)" using needed_chunks_exact(1) [OF assms(2)] p(1) by blast
  with assms(1) p have "out ! i = V ! position_of shape (picked sel p)" by (simp add: right_on_def)
  moreover have "gather_spec V shape sel ! i = V ! position_of shape (picked sel p)"
    using product_nth [OF p(1)] position_bound [OF p(1)] p(2)
    by (simp add: gather_spec_def length_product picked_def)
  moreover have "i < length (gather_spec V shape sel)" using position_bound [OF p(1)] p(2)
    by (simp add: gather_spec_def length_product)
  ultimately show "out ! i = gather_spec V shape sel ! i" by simp
qed

lemma right_on_start: "right_on V shape sel ch {} (replicate (prod_list (map length sel)) z)"
  by (simp add: right_on_def)

end
