(* ===== verification/ZarrStore.thy ===== *)
theory ZarrStore
  imports Readers
begin

text \<open>
  The storage a zarr store is read through (\<open>rust/src/format/zarr_store.rs\<close>): one object per key, each
  fetched whole through the cache and sliced in memory, and the rewriting of a v2 array's metadata.

  A storage operation answers \<open>Inl text\<close> for a \<open>StorageError\<close>. A byte range of \<open>zarrs\<close> is a function of
  the size of the object to its start and length. \<open>print\<close> is the compact JSON writer.
\<close>

type_synonym ('s, 'a) storage_op = "'s \<Rightarrow> (string + 'a) \<times> 's"
type_synonym byte_range = "nat \<Rightarrow> nat \<times> nat"

record 's zarr_storage =
  zs_get :: "string \<Rightarrow> byte_range list \<Rightarrow> ('s, (string + string) list option) storage_op"
  zs_size :: "string \<Rightarrow> ('s, nat option) storage_op"
  zs_partial :: bool

section \<open>The null separator\<close>

definition sanitize_v2_array_meta :: "serde_api \<Rightarrow> (json \<Rightarrow> string) \<Rightarrow> string \<Rightarrow> string" where
  "sanitize_v2_array_meta api print data =
     (case sj_parse api data of
        Inr (JObj m) \<Rightarrow>
          if map_of m ''dimension_separator'' \<noteq> Some JNull then data
          else print (JObj (al_del ''dimension_separator'' m))
      | _ \<Rightarrow> data)"

definition is_v2_array_meta :: "string \<Rightarrow> bool" where
  "is_v2_array_meta key \<longleftrightarrow> starts_with (rev ''.zarray'') (rev key)"

section \<open>Slicing a whole object\<close>

definition out_of_bounds :: "nat \<Rightarrow> nat \<Rightarrow> nat \<Rightarrow> string" where
  "out_of_bounds start stop n =
     ''zarr byte range '' @ show_nat start @ ''..'' @ show_nat stop @ '' out of bounds for object of ''
       @ show_nat n @ '' bytes''"

definition slice_range :: "string \<Rightarrow> byte_range \<Rightarrow> string + string" where
  "slice_range whole br =
     (let (start, len) = br (length whole); stop = start + len in
      if stop > length whole then Inl (out_of_bounds start stop (length whole))
      else Inr (take len (drop start whole)))"

section \<open>The cache as a storage\<close>

definition trim_end_slash :: "string \<Rightarrow> string" where
  "trim_end_slash s = rev (dropWhile (\<lambda>c. c = CHR ''/'') (rev s))"

record 'r cache_storage =
  cs_cache :: "'r cache"
  cs_base :: string

definition cache_storage_new :: "'r cache \<Rightarrow> string \<Rightarrow> 'r cache_storage" where
  "cache_storage_new C url = \<lparr>cs_cache = C, cs_base = trim_end_slash url\<rparr>"

definition fetch_whole ::
    "host \<Rightarrow> serde_api \<Rightarrow> (json \<Rightarrow> string) \<Rightarrow> 'r cache_storage \<Rightarrow> string
      \<Rightarrow> ('r io_world, string option) storage_op" where
  "fetch_whole H api print S key st =
     (let url = cs_base S @ ''/'' @ key in
      case fetch H (cs_cache S) (request url) st of
        (Inr blob, st') \<Rightarrow>
          (case fs_read (cb_path blob) (fst st') of
             Inl e \<Rightarrow> (Inl (''reading cached zarr object '' @ cb_path blob @ '': '' @ io_text e), st')
           | Inr data \<Rightarrow>
               (Inr (Some (if is_v2_array_meta key then sanitize_v2_array_meta api print data else data)), st'))
      | (Inl e, st') \<Rightarrow>
          if is_cache_miss e \<or> is_not_found e then (Inr None, st')
          else (Inl (''cache fetch of zarr object '' @ url @ '': '' @ error_text e), st'))"

definition cache_storage ::
    "host \<Rightarrow> serde_api \<Rightarrow> (json \<Rightarrow> string) \<Rightarrow> 'r cache_storage \<Rightarrow> 'r io_world zarr_storage" where
  "cache_storage H api print S =
     \<lparr>zs_get = (\<lambda>key ranges st.
        case fetch_whole H api print S key st of
          (Inl e, st') \<Rightarrow> (Inl e, st')
        | (Inr None, st') \<Rightarrow> (Inr None, st')
        | (Inr (Some whole), st') \<Rightarrow> (Inr (Some (map (slice_range whole) ranges)), st')),
      zs_size = (\<lambda>key st.
        case fetch_whole H api print S key st of
          (Inl e, st') \<Rightarrow> (Inl e, st')
        | (Inr whole, st') \<Rightarrow> (Inr (map_option length whole), st')),
      zs_partial = False\<rparr>"

section \<open>Any storage with the metadata rewritten\<close>

text \<open>The whole object, as \<open>zarrs\<close> asks a storage for it: one range from the start to the end.\<close>

definition whole_range :: byte_range where
  "whole_range n = (0, n)"

definition sanitized_whole ::
    "serde_api \<Rightarrow> (json \<Rightarrow> string) \<Rightarrow> 's zarr_storage \<Rightarrow> string \<Rightarrow> ('s, string option) storage_op" where
  "sanitized_whole api print S key st =
     (case zs_get S key [whole_range] st of
        (Inl e, st') \<Rightarrow> (Inl e, st')
      | (Inr None, st') \<Rightarrow> (Inr None, st')
      | (Inr (Some parts), st') \<Rightarrow>
          (case parts of
             [Inr raw] \<Rightarrow> (Inr (Some (sanitize_v2_array_meta api print raw)), st')
           | [Inl e] \<Rightarrow> (Inl e, st')
           | _ \<Rightarrow> (Inr None, st')))"

definition sanitized_v2 :: "serde_api \<Rightarrow> (json \<Rightarrow> string) \<Rightarrow> 's zarr_storage \<Rightarrow> 's zarr_storage" where
  "sanitized_v2 api print S =
     \<lparr>zs_get = (\<lambda>key ranges st.
        if \<not> is_v2_array_meta key then zs_get S key ranges st
        else
          (case sanitized_whole api print S key st of
             (Inl e, st') \<Rightarrow> (Inl e, st')
           | (Inr None, st') \<Rightarrow> (Inr None, st')
           | (Inr (Some whole), st') \<Rightarrow> (Inr (Some (map (slice_range whole) ranges)), st'))),
      zs_size = (\<lambda>key st.
        if \<not> is_v2_array_meta key then zs_size S key st
        else
          (case sanitized_whole api print S key st of
             (Inl e, st') \<Rightarrow> (Inl e, st')
           | (Inr whole, st') \<Rightarrow> (Inr (map_option length whole), st'))),
      zs_partial = zs_partial S\<rparr>"

end
