(* ===== verification/ZarrReader.thy ===== *)
theory ZarrReader
  imports Chunks ZarrStore
begin

text \<open>
  The zarr reader (\<open>rust/src/format/zarr.rs\<close>) over the \<open>zarrs\<close> library, a parameter: a record of what an
  opened array \<open>'h\<close> of a storage answers. Elements on disk are \<open>'e\<close> (\<open>float32\<close>, widened) or \<open>'f\<close>. \<open>subset\<close> is
  the start and the shape of a block.

  The metadata of every array is read and its selection resolved before any chunk is fetched. The chunks
  of an array are then fetched by a pool of workers; the serial loop is \<open>fetch_serial\<close>, the pool is
  \<open>pool_step\<close>, one step of one worker, run by a schedule of worker numbers.
\<close>

type_synonym subset = "nat list \<times> nat list"

record ('s, 'h, 'e, 'f) zarrs =
  za_open :: "'s zarr_storage \<Rightarrow> string \<Rightarrow> ('s, 'h) storage_op"
  za_shape :: "'h \<Rightarrow> nat list"
  za_chunk_shape :: "'h \<Rightarrow> nat list \<Rightarrow> string + nat list"
  za_dim_names :: "'h \<Rightarrow> string option list option"
  za_attributes :: "'h \<Rightarrow> (string \<times> json) list"
  za_type_name :: "'h \<Rightarrow> string option"
  za_chunk_subset :: "'h \<Rightarrow> nat list \<Rightarrow> string + subset"
  za_f32 :: "'h \<Rightarrow> subset \<Rightarrow> ('s, 'e list) storage_op"
  za_f64 :: "'h \<Rightarrow> subset \<Rightarrow> ('s, 'f list) storage_op"
  za_widen :: "'e \<Rightarrow> 'f"
  za_zero :: 'f

definition zarr_err :: "string \<Rightarrow> error" where
  "zarr_err detail = FormatError ''zarr'' detail"

definition fetch_concurrency :: "(string \<Rightarrow> string option) \<Rightarrow> nat" where
  "fetch_concurrency env =
     (case Option.bind (env ''EARTHSCIIO_FETCH_CONCURRENCY'') parse_u64 of
        Some n \<Rightarrow> max 1 (min n 64)
      | None \<Rightarrow> 16)"

section \<open>The metadata of an array\<close>

definition open_array :: "('s, 'h, 'e, 'f) zarrs \<Rightarrow> 's zarr_storage \<Rightarrow> string \<Rightarrow> ('s, 'h) io" where
  "open_array Z S name st =
     (let path = ''/'' @ dropWhile (\<lambda>c. c = CHR ''/'') name in
      case za_open Z S path st of
        (Inl e, st') \<Rightarrow> Some (Inl (zarr_err (''open zarr array '' @ sq name @ '': '' @ e)), st')
      | (Inr h, st') \<Rightarrow> Some (Inr h, st'))"

definition synthesized_dims :: "nat \<Rightarrow> string list" where
  "synthesized_dims ndim = map (\<lambda>i. ''dim_'' @ show_nat i) [0..<ndim]"

definition attribute_dims :: "(string \<times> json) list \<Rightarrow> string list option" where
  "attribute_dims attrs =
     (case map_of attrs ''_ARRAY_DIMENSIONS'' of
        Some (JArr a) \<Rightarrow> Some (List.map_filter (\<lambda>x. case x of JStr s \<Rightarrow> Some s | _ \<Rightarrow> None) a)
      | _ \<Rightarrow> None)"

definition of_rank :: "nat \<Rightarrow> string list option \<Rightarrow> string list option" where
  "of_rank ndim names = Option.bind names (\<lambda>v. if length v = ndim then Some v else None)"

definition dim_names :: "('s, 'h, 'e, 'f) zarrs \<Rightarrow> 'h \<Rightarrow> nat \<Rightarrow> string list" where
  "dim_names Z h ndim =
     (case of_rank ndim (map_option (List.map_filter id) (za_dim_names Z h)) of
        Some names \<Rightarrow> names
      | None \<Rightarrow>
          (case of_rank ndim (attribute_dims (za_attributes Z h)) of
             Some names \<Rightarrow> names
           | None \<Rightarrow> synthesized_dims ndim))"

definition float_dtype :: "('s, 'h, 'e, 'f) zarrs \<Rightarrow> 'h \<Rightarrow> string \<Rightarrow> (dtype \<times> bool) result" where
  "float_dtype Z h name =
     (let n = (case za_type_name Z h of Some s \<Rightarrow> s | None \<Rightarrow> []) in
      if n = ''float64'' then Inr (Float64, False)
      else if n = ''float32'' then Inr (Float64, True)
      else Inl (zarr_err (''the Rust zarr reader currently supports float dtypes (float32/float64); array ''
        @ sq name @ '' has data type '' @ sq n)))"

record 'h array_plan =
  ap_name :: string
  ap_array :: 'h
  ap_shape :: "nat list"
  ap_chunk :: "nat list"
  ap_dims :: "string list"
  ap_dtype :: dtype
  ap_f32 :: bool

definition plan_array :: "('s, 'h, 'e, 'f) zarrs \<Rightarrow> 's zarr_storage \<Rightarrow> string \<Rightarrow> ('s, 'h array_plan) io" where
  "plan_array Z S name =
     bindI (open_array Z S name) (\<lambda>h.
       let shape = za_shape Z h; ndim = length shape in
       bindI (of_result (case za_chunk_shape Z h (replicate ndim 0) of
           Inl e \<Rightarrow> Inl (zarr_err (''chunk shape of '' @ sq name @ '': '' @ e)) | Inr c \<Rightarrow> Inr c)) (\<lambda>chunk.
       let dims = dim_names Z h ndim in
       bindI (of_result (float_dtype Z h name)) (\<lambda>(dt, f32).
         ret \<lparr>ap_name = name, ap_array = h, ap_shape = shape, ap_chunk = chunk, ap_dims = dims,
              ap_dtype = dt, ap_f32 = f32\<rparr>)))"

fun plan_arrays :: "('s, 'h, 'e, 'f) zarrs \<Rightarrow> 's zarr_storage \<Rightarrow> string list \<Rightarrow> ('s, 'h array_plan list) io" where
  "plan_arrays Z S [] = ret []"
| "plan_arrays Z S (v # vs) = bindI (plan_array Z S v) (\<lambda>p. bindI (plan_arrays Z S vs) (\<lambda>ps. ret (p # ps)))"

section \<open>The selection of an array\<close>

definition time_axis_err :: "string \<Rightarrow> error" where
  "time_axis_err d =
     zarr_err (''select asks for a subset of the time dimension '' @ sq d @ ''; record selection is the Provider''
       @ [CHR 0x27] @ ''s, not the reader'' @ [CHR 0x27] @ ''s '' @ map char_of [226::nat, 128, 148]
       @ '' the time axis of a `select` must be '' @ [CHR 0x22] @ ''all'' @ [CHR 0x22])"

definition named_axis :: "(string \<times> axis_select) list \<Rightarrow> string \<Rightarrow> nat \<Rightarrow> nat list result" where
  "named_axis named d len =
     (case map_of named d of
        None \<Rightarrow> Inr [0..<len]
      | Some ax \<Rightarrow>
          if ax = AxAll then Inr [0..<len]
          else if eq_ignore_case d ''time'' then Inl (time_axis_err d)
          else resolve len ax)"

definition array_selection :: "selection \<Rightarrow> string list \<Rightarrow> nat list \<Rightarrow> nat list list result" where
  "array_selection select dims shape =
     (case select of
        SelOrthogonal a \<Rightarrow>
          if length a = length shape then each (\<lambda>(ax, len). resolve len ax) (zip a shape)
          else Inr (map (\<lambda>len. [0..<len]) shape)
      | SelNamed named \<Rightarrow> each (\<lambda>(d, len). named_axis named d len) (zip dims shape)
      | SelAll \<Rightarrow> Inr (map (\<lambda>len. [0..<len]) shape))"

text \<open>The \<open>Debug\<close> text of a set of strings.\<close>

definition dbg_set :: "string list \<Rightarrow> string" where
  "dbg_set xs = ''{'' @ (case xs of [] \<Rightarrow> [] | y # ys \<Rightarrow> dbg_str y @ concat (map (\<lambda>z. '', '' @ dbg_str z) ys)) @ ''}''"

definition check_named :: "selection \<Rightarrow> 'h array_plan list \<Rightarrow> unit result" where
  "check_named select plans =
     (case select of
        SelNamed named \<Rightarrow>
          (let carried = remdups (sort (concat (map ap_dims plans)));
               unknown = filter (\<lambda>d. d \<notin> set carried) (map fst named) in
           if unknown \<noteq> [] then
             Inl (zarr_err (''select names dimension(s) '' @ dbg_list unknown
               @ '', which no array of this read carries; present: '' @ dbg_set carried))
           else Inr ())
      | _ \<Rightarrow> Inr ())"

section \<open>Reading the chunks\<close>

definition dbg_nats :: "nat list \<Rightarrow> string" where
  "dbg_nats xs = ''['' @ (case xs of [] \<Rightarrow> [] | y # ys \<Rightarrow> show_nat y @ concat (map (\<lambda>z. '', '' @ show_nat z) ys)) @ '']''"

text \<open>The elements of a chunk, with the shape of its clipped subset.\<close>

definition fetch_chunk ::
    "('s, 'h, 'e, 'f) zarrs \<Rightarrow> 'h array_plan \<Rightarrow> nat list \<Rightarrow> ('s, ('e list + 'f list) \<times> nat list) io" where
  "fetch_chunk Z p cid st =
     (case za_chunk_subset Z (ap_array p) cid of
        Inl e \<Rightarrow> Some (Inl (zarr_err (''chunk subset '' @ dbg_nats cid @ '' of '' @ sq (ap_name p) @ '': '' @ e)), st)
      | Inr sub \<Rightarrow>
          (let bad = (\<lambda>e. zarr_err (''decode chunk '' @ dbg_nats cid @ '' of '' @ sq (ap_name p) @ '': '' @ e)) in
           if ap_f32 p then
             (case za_f32 Z (ap_array p) sub st of
                (Inl e, st') \<Rightarrow> Some (Inl (bad e), st')
              | (Inr v, st') \<Rightarrow> Some (Inr (Inl v, snd sub), st'))
           else
             (case za_f64 Z (ap_array p) sub st of
                (Inl e, st') \<Rightarrow> Some (Inl (bad e), st')
              | (Inr v, st') \<Rightarrow> Some (Inr (Inr v, snd sub), st'))))"

type_synonym ('e, 'f) chunk_data = "('e list + 'f list) \<times> nat list"

definition scatter_data ::
    "('s, 'h, 'e, 'f) zarrs \<Rightarrow> (nat \<times> owned) list list \<Rightarrow> nat list \<Rightarrow> ('e, 'f) chunk_data \<Rightarrow> 'f list \<Rightarrow> 'f list option" where
  "scatter_data Z owners cid d out =
     (case d of
        (Inl elems, cshape) \<Rightarrow> scatter_chunk (za_widen Z) out elems cid cshape owners
      | (Inr elems, cshape) \<Rightarrow> scatter_chunk id out elems cid cshape owners)"

text \<open>One worker or none: the chunks in the order of their ids.\<close>

fun fetch_serial ::
    "('s, 'h, 'e, 'f) zarrs \<Rightarrow> 'h array_plan \<Rightarrow> (nat \<times> owned) list list \<Rightarrow> nat list list \<Rightarrow> 'f list
      \<Rightarrow> ('s, 'f list) io" where
  "fetch_serial Z p owners [] out = ret out"
| "fetch_serial Z p owners (cid # cids) out =
     bindI (fetch_chunk Z p cid) (\<lambda>d.
     bindI (or_panic (scatter_data Z owners cid d out)) (\<lambda>out'.
       fetch_serial Z p owners cids out'))"

section \<open>The pool of workers\<close>

text \<open>A worker between its steps: about to claim a chunk, holding the index of one, with its elements
  decoded, with its error recorded, or out of the loop.\<close>

datatype ('e, 'f) worker =
    Claiming
  | Holding nat
  | Scattering nat "('e, 'f) chunk_data"
  | Failed
  | Finished

record ('s, 'e, 'f) pool =
  po_next :: nat
  po_fail :: "error option"
  po_out :: "'f list"
  po_workers :: "('e, 'f) worker list"
  po_world :: 's

text \<open>One step of worker \<open>w\<close>. \<open>None\<close>: the worker has finished (or a scatter panics).\<close>

definition pool_step ::
    "('s, 'h, 'e, 'f) zarrs \<Rightarrow> 'h array_plan \<Rightarrow> (nat \<times> owned) list list \<Rightarrow> nat list list \<Rightarrow> nat
      \<Rightarrow> ('s, 'e, 'f) pool \<Rightarrow> ('s, 'e, 'f) pool option" where
  "pool_step Z p owners cids w po =
     (let become = (\<lambda>x po. po\<lparr>po_workers := (po_workers po)[w := x]\<rparr>) in
      if w \<ge> length (po_workers po) then None
      else
        (case po_workers po ! w of
           Claiming \<Rightarrow>
             (let i = po_next po; po' = po\<lparr>po_next := i + 1\<rparr> in
              if i \<ge> length cids then Some (become Finished po') else Some (become (Holding i) po'))
         | Holding i \<Rightarrow>
             (case fetch_chunk Z p (cids ! i) (po_world po) of
                None \<Rightarrow> None
              | Some (Inl e, s') \<Rightarrow> Some (become Failed (po\<lparr>po_fail := Some e, po_world := s'\<rparr>))
              | Some (Inr d, s') \<Rightarrow> Some (become (Scattering i d) (po\<lparr>po_world := s'\<rparr>)))
         | Scattering i d \<Rightarrow>
             map_option (\<lambda>out'. become Claiming (po\<lparr>po_out := out'\<rparr>)) (scatter_data Z owners (cids ! i) d (po_out po))
         | Failed \<Rightarrow> Some (become Finished (po\<lparr>po_next := length cids\<rparr>))
         | Finished \<Rightarrow> None))"

definition pool_start :: "nat \<Rightarrow> 'f list \<Rightarrow> 's \<Rightarrow> ('s, 'e, 'f) pool" where
  "pool_start workers out s =
     \<lparr>po_next = 0, po_fail = None, po_out = out, po_workers = replicate workers Claiming, po_world = s\<rparr>"

fun pool_run ::
    "('s, 'h, 'e, 'f) zarrs \<Rightarrow> 'h array_plan \<Rightarrow> (nat \<times> owned) list list \<Rightarrow> nat list list \<Rightarrow> nat list
      \<Rightarrow> ('s, 'e, 'f) pool \<Rightarrow> ('s, 'e, 'f) pool option" where
  "pool_run Z p owners cids [] po = Some po"
| "pool_run Z p owners cids (w # sched) po =
     Option.bind (pool_step Z p owners cids w po) (pool_run Z p owners cids sched)"

definition pool_done :: "('s, 'e, 'f) pool \<Rightarrow> bool" where
  "pool_done po \<longleftrightarrow> list_all (\<lambda>w. w = Finished) (po_workers po)"

text \<open>The pool under the schedule \<open>sched\<close> of its threads, joined when every worker has finished.\<close>

definition fetch_pool ::
    "('s, 'h, 'e, 'f) zarrs \<Rightarrow> nat \<Rightarrow> nat list \<Rightarrow> 'h array_plan \<Rightarrow> (nat \<times> owned) list list \<Rightarrow> nat list list \<Rightarrow> 'f list
      \<Rightarrow> ('s, 'f list) io" where
  "fetch_pool Z workers sched p owners cids out st =
     (case pool_run Z p owners cids sched (pool_start workers out st) of
        None \<Rightarrow> None
      | Some po \<Rightarrow>
          if \<not> pool_done po then None
          else
            (case po_fail po of
               Some e \<Rightarrow> Some (Inl e, po_world po)
             | None \<Rightarrow> Some (Inr (po_out po), po_world po)))"

section \<open>Reading arrays\<close>

text \<open>\<open>conc\<close> is the fetch concurrency; \<open>sched name cids\<close> the schedule of the pool that reads array \<open>name\<close>.\<close>

definition read_plan ::
    "('s, 'h, 'e, 'f) zarrs \<Rightarrow> nat \<Rightarrow> (string \<Rightarrow> nat list list \<Rightarrow> nat list) \<Rightarrow> 'h array_plan \<Rightarrow> nat list list
      \<Rightarrow> ('s, 'f field) io" where
  "read_plan Z conc sched p sel_idx =
     (let out_shape = map length sel_idx;
          data = replicate (prod_list out_shape) (za_zero Z);
          owners = chunk_owners sel_idx (ap_chunk p) (c_strides out_shape);
          cids = needed_chunks sel_idx (ap_chunk p);
          workers = min conc (length cids) in
      bindI (if workers \<le> 1 then fetch_serial Z p owners cids data
             else fetch_pool Z workers (sched (ap_name p) cids) p owners cids data) (\<lambda>out.
        ret \<lparr>f_dtype = ap_dtype p, f_dims = ap_dims p, f_shape = out_shape, f_data = AF64 out, f_fill = None\<rparr>))"

fun read_plans ::
    "('s, 'h, 'e, 'f) zarrs \<Rightarrow> nat \<Rightarrow> (string \<Rightarrow> nat list list \<Rightarrow> nat list) \<Rightarrow> ('h array_plan \<times> nat list list) list
      \<Rightarrow> (string \<times> 'f field) list \<Rightarrow> ('s, (string \<times> 'f field) list) io" where
  "read_plans Z conc sched [] vars = ret vars"
| "read_plans Z conc sched ((p, sel_idx) # rest) vars =
     bindI (read_plan Z conc sched p sel_idx) (\<lambda>f. read_plans Z conc sched rest (al_put (ap_name p) f vars))"

definition read_arrays ::
    "('s, 'h, 'e, 'f) zarrs \<Rightarrow> nat \<Rightarrow> (string \<Rightarrow> nat list list \<Rightarrow> nat list) \<Rightarrow> 's zarr_storage \<Rightarrow> string list
      \<Rightarrow> selection \<Rightarrow> ('s, 'f dataset) io" where
  "read_arrays Z conc sched S variables select =
     bindI (plan_arrays Z S variables) (\<lambda>plans.
     bindI (of_result (check_named select plans)) (\<lambda>_.
     bindI (of_result (each (\<lambda>p. bindR (array_selection select (ap_dims p) (ap_shape p)) (\<lambda>s. Inr (p, s))) plans)) (\<lambda>resolved.
     bindI (read_plans Z conc sched resolved []) (\<lambda>vars.
       ret \<lparr>ds_vars = vars, ds_coords = []\<rparr>))))"

section \<open>The reader\<close>

definition no_variables_err :: error where
  "no_variables_err =
     zarr_err (''the zarr reader requires an explicit list of variables (arrays); ''
       @ ''the store cannot be enumerated without a consolidated metadata index'')"

text \<open>The reader of a build without the \<open>object-store\<close> feature: no direct reads.\<close>

definition zarr_reader ::
    "('r io_world, 'h, 'e, 'f) zarrs \<Rightarrow> host \<Rightarrow> serde_api \<Rightarrow> (json \<Rightarrow> string) \<Rightarrow> (string \<Rightarrow> nat list list \<Rightarrow> nat list)
      \<Rightarrow> ('r, 'f) reader" where
  "zarr_reader Z H api print sched =
     (whole_reader [''zarr''] (\<lambda>path vars sel. fail (zarr_err ''zarr is store-backed; the Provider calls read_store'')))
       \<lparr>re_store_backed := True, re_supports_selection := True,
        re_store := (\<lambda>C url vars sel.
          if vars = [] then fail no_variables_err
          else read_arrays Z (fetch_concurrency (h_env H)) sched
                 (cache_storage H api print (cache_storage_new C url)) vars sel),
        re_shape := (\<lambda>C url v.
          bindI (open_array Z (cache_storage H api print (cache_storage_new C url)) v) (\<lambda>h.
            ret (Some (za_shape Z h))))\<rparr>"

end
