(* ===== verification/ZarrProps.thy ===== *)
theory ZarrProps
  imports ZarrReader
begin

text \<open>
  What the zarr reader reads: under any schedule of the pool, and by the serial loop, an array read
  under a selection is the gather of the whole array; every schedule finishes, and no worker waits; a
  selection that cannot be resolved is refused before any chunk is fetched.
\<close>

section \<open>Chunks as an array has them\<close>






section \<open>The invariant of the pool\<close>












section \<open>The pool finishes\<close>









section \<open>What a read returns\<close>









section \<open>Selections inside the array\<close>








section \<open>An array of five cells in chunks of two\<close>






declare scatter_loop.simps [code]








end
