(* ===== verification/StreamTypes.thy ===== *)
theory StreamTypes
  imports ZarrStore "HOL-Library.Word" "HOL-Library.Product_Lexorder"
begin

text \<open>
  The values of the streaming zarr writer (\<open>rust/src/format/zarr_stream.rs\<close>, the codecs of
  \<open>rust/src/format/zarr_write.rs\<close>): element types and typed arrays with their bytes, roles, regions, blob
  scopes, the stream schema and the commit token.

  A typed array holds bit patterns; \<open>f64\<close> is 64 bits, compared as IEEE 754 orders them. A \<open>BTreeMap\<close> is an
  association list sorted by key, a \<open>BTreeSet\<close> a sorted list without duplicates. Native byte order is taken
  to be little-endian.
\<close>

section \<open>Ordered maps and sets\<close>

fun bt_put :: "'k::linorder \<Rightarrow> 'v \<Rightarrow> ('k \<times> 'v) list \<Rightarrow> ('k \<times> 'v) list" where
  "bt_put k v [] = [(k, v)]"
| "bt_put k v ((a, b) # m) =
     (if k < a then (k, v) # (a, b) # m else if k = a then (k, v) # m else (a, b) # bt_put k v m)"

definition bt_of_list :: "('k::linorder \<times> 'v) list \<Rightarrow> ('k \<times> 'v) list" where
  "bt_of_list kvs = fold (\<lambda>(k, v). bt_put k v) kvs []"

definition has_key :: "'k \<Rightarrow> ('k \<times> 'v) list \<Rightarrow> bool" where
  "has_key k m \<longleftrightarrow> k \<in> set (map fst m)"

abbreviation bs_put :: "'k::linorder \<Rightarrow> 'k list \<Rightarrow> 'k list" where
  "bs_put x xs \<equiv> insort_insert x xs"

definition bs_extend :: "'k::linorder list \<Rightarrow> 'k list \<Rightarrow> 'k list" where
  "bs_extend ys xs = fold bs_put ys xs"

abbreviation bt_sorted :: "('k::linorder \<times> 'v) list \<Rightarrow> bool" where
  "bt_sorted m \<equiv> sorted_wrt (<) (map fst m)"

lemma map_of_bt_put [simp]: "map_of (bt_put k v m) = (map_of m)(k \<mapsto> v)"
  by (induction k v m rule: bt_put.induct) (auto simp: fun_eq_iff)

lemma keys_bt_put [simp]: "fst ` set (bt_put k v m) = insert k (fst ` set m)"
  by (induction k v m rule: bt_put.induct) auto

lemma bt_sorted_put: "bt_sorted m \<Longrightarrow> bt_sorted (bt_put k v m)"
  by (induction k v m rule: bt_put.induct) (auto simp: less_trans)

lemma set_bs_extend [simp]: "set (bs_extend ys xs) = set ys \<union> set xs"
  by (induction ys arbitrary: xs) (auto simp: bs_extend_def set_insort_insert)

lemma has_key_map_of: "has_key k m \<longleftrightarrow> map_of m k \<noteq> None"
  by (auto simp: has_key_def map_of_eq_None_iff)

section \<open>Binary64\<close>

type_synonym f64 = "64 word"

definition f64_nan :: "f64 \<Rightarrow> bool" where
  "f64_nan b \<longleftrightarrow> 0x7FF0000000000000 < uint (take_bit 63 b)"

definition f64_finite :: "f64 \<Rightarrow> bool" where
  "f64_finite b \<longleftrightarrow> uint (take_bit 63 b) < 0x7FF0000000000000"

definition f64_rank :: "f64 \<Rightarrow> int" where
  "f64_rank b = (if bit b 63 then - uint (take_bit 63 b) else uint (take_bit 63 b))"

definition f64_lt :: "f64 \<Rightarrow> f64 \<Rightarrow> bool" where
  "f64_lt a b \<longleftrightarrow> \<not> f64_nan a \<and> \<not> f64_nan b \<and> f64_rank a < f64_rank b"

definition f64_le :: "f64 \<Rightarrow> f64 \<Rightarrow> bool" where
  "f64_le a b \<longleftrightarrow> \<not> f64_nan a \<and> \<not> f64_nan b \<and> f64_rank a \<le> f64_rank b"

text \<open>\<open>f64::min\<close> and \<open>f64::max\<close>: a NaN gives way to the other argument.\<close>

definition f64_min :: "f64 \<Rightarrow> f64 \<Rightarrow> f64" where
  "f64_min a b = (if f64_nan a then b else if f64_nan b then a else if f64_rank b < f64_rank a then b else a)"

definition f64_max :: "f64 \<Rightarrow> f64 \<Rightarrow> f64" where
  "f64_max a b = (if f64_nan a then b else if f64_nan b then a else if f64_rank a < f64_rank b then b else a)"

text \<open>The texts of numbers, which the standard library and \<open>serde_json\<close> write and read.\<close>

record f64_text =
  ft_json :: "f64 \<Rightarrow> string"
  ft_display :: "f64 \<Rightarrow> string"
  ft_debug :: "f64 \<Rightarrow> string"
  ft_read :: "string \<Rightarrow> f64"
  ft_int :: "int \<Rightarrow> f64"

definition json_f64 :: "f64_text \<Rightarrow> f64 \<Rightarrow> json" where
  "json_f64 T t = (if f64_finite t then JNum (ft_json T t) else JNull)"

definition as_f64 :: "f64_text \<Rightarrow> json \<Rightarrow> f64 option" where
  "as_f64 T v = (case v of JInt i \<Rightarrow> Some (ft_int T i) | JNum s \<Rightarrow> Some (ft_read T s) | _ \<Rightarrow> None)"

section \<open>Reading JSON values\<close>

definition as_str :: "json \<Rightarrow> string option" where
  "as_str v = (case v of JStr s \<Rightarrow> Some s | _ \<Rightarrow> None)"

definition as_u64 :: "json \<Rightarrow> nat option" where
  "as_u64 v = (case v of JInt n \<Rightarrow> if 0 \<le> n \<and> n \<le> u64_max then Some (nat n) else None | _ \<Rightarrow> None)"

definition as_bool :: "json \<Rightarrow> bool option" where
  "as_bool v = (case v of JBool b \<Rightarrow> Some b | _ \<Rightarrow> None)"

definition as_array :: "json \<Rightarrow> json list option" where
  "as_array v = (case v of JArr a \<Rightarrow> Some a | _ \<Rightarrow> None)"

definition as_object :: "json \<Rightarrow> (string \<times> json) list option" where
  "as_object v = (case v of JObj m \<Rightarrow> Some m | _ \<Rightarrow> None)"

text \<open>\<open>v[k]\<close> and \<open>v[i]\<close> of a value: null when there is no such member or element.\<close>

definition member_of :: "json \<Rightarrow> string \<Rightarrow> json" where
  "member_of v k = (case v of JObj m \<Rightarrow> (case map_of m k of Some x \<Rightarrow> x | None \<Rightarrow> JNull) | _ \<Rightarrow> JNull)"

definition element_of :: "json \<Rightarrow> nat \<Rightarrow> json" where
  "element_of v i = (case v of JArr a \<Rightarrow> if i < length a then a ! i else JNull | _ \<Rightarrow> JNull)"

text \<open>\<open>v[k] = x\<close> on an object keeps the order of its members.\<close>

definition set_member :: "string \<Rightarrow> json \<Rightarrow> json \<Rightarrow> json" where
  "set_member k x v = (case v of JObj m \<Rightarrow> JObj (al_put k x m) | _ \<Rightarrow> v)"

definition json_nat :: "nat \<Rightarrow> json" where
  "json_nat n = JInt (int n)"

definition json_nats :: "nat list \<Rightarrow> json" where
  "json_nats ns = JArr (map json_nat ns)"

definition json_strs :: "string list \<Rightarrow> json" where
  "json_strs xs = JArr (map JStr xs)"

definition json_map :: "(string \<times> nat) list \<Rightarrow> json" where
  "json_map m = JObj (map (\<lambda>(k, v). (k, json_nat v)) m)"

section \<open>Element types\<close>

definition zerr :: "string \<Rightarrow> error" where
  "zerr detail = FormatError ''zarr'' detail"

datatype stream_dtype = DF64 | DF32 | DI32 | DI64 | DU8

fun dtype_name :: "stream_dtype \<Rightarrow> string" where
  "dtype_name DF64 = ''float64''"
| "dtype_name DF32 = ''float32''"
| "dtype_name DI32 = ''int32''"
| "dtype_name DI64 = ''int64''"
| "dtype_name DU8 = ''uint8''"

definition dtype_parse :: "string \<Rightarrow> stream_dtype result" where
  "dtype_parse s =
     (if s = ''float64'' then Inr DF64
      else if s = ''float32'' then Inr DF32
      else if s = ''int32'' then Inr DI32
      else if s = ''int64'' then Inr DI64
      else if s = ''uint8'' then Inr DU8
      else Inl (zerr (''unsupported stream dtype '' @ sq s)))"

fun dtype_size :: "stream_dtype \<Rightarrow> nat" where
  "dtype_size DF64 = 8"
| "dtype_size DI64 = 8"
| "dtype_size DF32 = 4"
| "dtype_size DI32 = 4"
| "dtype_size DU8 = 1"

definition dtype_is_float :: "stream_dtype \<Rightarrow> bool" where
  "dtype_is_float d \<longleftrightarrow> d = DF64 \<or> d = DF32"

datatype typed_array =
    TF64 "64 word list"
  | TF32 "32 word list"
  | TI32 "32 word list"
  | TI64 "64 word list"
  | TU8 "8 word list"

fun typed_dtype :: "typed_array \<Rightarrow> stream_dtype" where
  "typed_dtype (TF64 s) = DF64"
| "typed_dtype (TF32 s) = DF32"
| "typed_dtype (TI32 s) = DI32"
| "typed_dtype (TI64 s) = DI64"
| "typed_dtype (TU8 s) = DU8"

fun typed_len :: "typed_array \<Rightarrow> nat" where
  "typed_len (TF64 s) = length s"
| "typed_len (TF32 s) = length s"
| "typed_len (TI32 s) = length s"
| "typed_len (TI64 s) = length s"
| "typed_len (TU8 s) = length s"

text \<open>The bytes of an element, and the element of \<open>n\<close> bytes.\<close>

definition le_bytes :: "nat \<Rightarrow> 'a::len word \<Rightarrow> 8 word list" where
  "le_bytes n w = map (\<lambda>i. ucast (drop_bit (8 * i) w)) [0..<n]"

definition from_le :: "8 word list \<Rightarrow> 'a::len word" where
  "from_le bs = foldr (\<lambda>b w. or (ucast b) (push_bit 8 w)) bs 0"

definition ne_bytes :: "nat \<Rightarrow> 'a::len word list \<Rightarrow> 8 word list" where
  "ne_bytes n s = concat (map (le_bytes n) s)"

fun chunks_exact :: "nat \<Rightarrow> 'a list \<Rightarrow> 'a list list" where
  "chunks_exact n xs = (if n = 0 \<or> length xs < n then [] else take n xs # chunks_exact n (drop n xs))"

declare chunks_exact.simps [simp del]

definition from_ne :: "nat \<Rightarrow> 8 word list \<Rightarrow> 'a::len word list" where
  "from_ne n b = map from_le (chunks_exact n b)"

fun to_ne_bytes :: "typed_array \<Rightarrow> 8 word list" where
  "to_ne_bytes (TF64 s) = ne_bytes 8 s"
| "to_ne_bytes (TF32 s) = ne_bytes 4 s"
| "to_ne_bytes (TI32 s) = ne_bytes 4 s"
| "to_ne_bytes (TI64 s) = ne_bytes 8 s"
| "to_ne_bytes (TU8 s) = s"

fun from_ne_bytes :: "stream_dtype \<Rightarrow> 8 word list \<Rightarrow> typed_array" where
  "from_ne_bytes DF64 b = TF64 (from_ne 8 b)"
| "from_ne_bytes DF32 b = TF32 (from_ne 4 b)"
| "from_ne_bytes DI32 b = TI32 (from_ne 4 b)"
| "from_ne_bytes DI64 b = TI64 (from_ne 8 b)"
| "from_ne_bytes DU8 b = TU8 b"

lemma length_le_bytes [simp]: "length (le_bytes n w) = n"
  by (simp add: le_bytes_def)

lemma bit_from_le:
  "bit (from_le bs :: 'a::len word) k \<longleftrightarrow> k < LENGTH('a) \<and> k div 8 < length bs \<and> bit (bs ! (k div 8)) (k mod 8)"
proof (induction bs arbitrary: k)
  case Nil
  then show ?case by (simp add: from_le_def)
next
  case (Cons b bs)
  have "(from_le (b # bs) :: 'a word) = or (ucast b) (push_bit 8 (from_le bs))" by (simp add: from_le_def)
  then have e: "bit (from_le (b # bs) :: 'a word) k \<longleftrightarrow>
      k < LENGTH('a) \<and> (bit b k \<or> (8 \<le> k \<and> bit (from_le bs :: 'a word) (k - 8)))"
    by (auto simp: bit_simps)
  show ?case
  proof (cases "k < 8")
    case True
    then show ?thesis using e by auto
  next
    case False
    then have "k div 8 = Suc ((k - 8) div 8)" "k mod 8 = (k - 8) mod 8"
      by (simp_all add: le_div_geq mod_if)
    moreover have "\<not> bit b k" using False bit_imp_le_length [of b k] by auto
    ultimately show ?thesis using e Cons.IH [of "k - 8"] False by auto
  qed
qed

lemma from_le_bytes [simp]:
  assumes "LENGTH('a) = 8 * n" shows "from_le (le_bytes n w) = (w :: 'a::len word)"
proof (rule bit_eqI)
  fix k assume "possible_bit TYPE('a word) k"
  then have k: "k < 8 * n" using assms by (simp add: possible_bit_word)
  then have "k div 8 < n" by (simp add: div_less_iff_less_mult mult.commute)
  then have "bit (le_bytes n w ! (k div 8)) (k mod 8) = bit w k"
    by (simp add: le_bytes_def bit_simps)
  with k assms \<open>k div 8 < n\<close> show "bit (from_le (le_bytes n w) :: 'a word) k = bit w k"
    by (simp add: bit_from_le)
qed

lemma chunks_exact_ne_bytes: "0 < n \<Longrightarrow> chunks_exact n (ne_bytes n s) = map (le_bytes n) s"
proof (induction s)
  case Nil
  then show ?case by (simp add: ne_bytes_def chunks_exact.simps)
next
  case (Cons x s)
  moreover have "ne_bytes n (x # s) = le_bytes n x @ ne_bytes n s" by (simp add: ne_bytes_def)
  ultimately show ?case by (subst chunks_exact.simps) simp
qed

lemma from_ne_bytes_roundtrip [simp]: "from_ne_bytes (typed_dtype a) (to_ne_bytes a) = a"
  by (cases a) (simp_all add: from_ne_def chunks_exact_ne_bytes comp_def)

lemma length_ne_bytes [simp]: "length (ne_bytes n s) = length s * n"
  by (induction s) (simp_all add: ne_bytes_def)

lemma length_to_ne_bytes: "length (to_ne_bytes a) = typed_len a * dtype_size (typed_dtype a)"
  by (cases a) simp_all

end
