(* ===== verification/StreamSchema.thy ===== *)
theory StreamSchema
  imports StreamTypes
begin

text \<open>
  The stream schema of the streaming writer and what is derived from it: roles, regions, blob scopes, the
  codecs and the metadata of an array, the checks of a schema and of a region, the canonical JSON and the
  fingerprint, the geometry (\<open>rust/src/format/zarr_stream.rs\<close>, \<open>rust/src/format/zarr_write.rs\<close>).

  A region is a map from dimension to its half-open range. \<open>None\<close> is an index into a map that has no such
  key, which panics. SHA-256 is the parameter \<open>digest\<close>.
\<close>

section \<open>Roles, regions, scopes\<close>

datatype time_mode = Append | Indexed nat "f64 list"

datatype role = Single | Owner nat | Contributor nat

fun role_id :: "role \<Rightarrow> nat" where
  "role_id Single = 0"
| "role_id (Owner n) = 0"
| "role_id (Contributor i) = i"

definition check_role :: "role \<Rightarrow> unit result" where
  "check_role r =
     (case r of
        Owner n \<Rightarrow> if n = 0 then Inl (zerr ''Owner { n_writers } must be >= 1'') else Inr ()
      | Contributor i \<Rightarrow>
          if i = 0 then Inl (zerr ''writer id 0 is the owner; a contributor id is >= 1'') else Inr ()
      | Single \<Rightarrow> Inr ())"

type_synonym region = "(string \<times> nat \<times> nat) list"

fun region_insert :: "region \<Rightarrow> region \<Rightarrow> region result" where
  "region_insert [] m = Inr m"
| "region_insert ((d, r) # rs) m =
     (if has_key d m then Inl (zerr (''region names dim '' @ sq d @ '' twice''))
      else region_insert rs (bt_put d r m))"

definition region_to_map :: "region \<Rightarrow> region result" where
  "region_to_map rs = region_insert rs []"

datatype blob_scope = BlobStatic | BlobRecord nat

instantiation blob_scope :: linorder
begin

fun scope_code :: "blob_scope \<Rightarrow> nat" where
  "scope_code BlobStatic = 0"
| "scope_code (BlobRecord i) = Suc i"

definition less_eq_blob_scope :: "blob_scope \<Rightarrow> blob_scope \<Rightarrow> bool" where
  "a \<le> b \<longleftrightarrow> scope_code a \<le> scope_code b"

definition less_blob_scope :: "blob_scope \<Rightarrow> blob_scope \<Rightarrow> bool" where
  "a < b \<longleftrightarrow> scope_code a < scope_code b"

instance
proof
  fix a b :: blob_scope
  show "a \<le> b \<Longrightarrow> b \<le> a \<Longrightarrow> a = b"
    by (cases a; cases b) (simp_all add: less_eq_blob_scope_def)
qed (auto simp: less_eq_blob_scope_def less_blob_scope_def)

end

fun scope_wire :: "blob_scope \<Rightarrow> string \<times> nat option" where
  "scope_wire BlobStatic = (''static'', None)"
| "scope_wire (BlobRecord i) = (''record'', Some i)"

definition dbg_nat_opt :: "nat option \<Rightarrow> string" where
  "dbg_nat_opt x = (case x of None \<Rightarrow> ''None'' | Some n \<Rightarrow> ''Some('' @ show_nat n @ '')'')"

definition scope_from_wire :: "string \<Rightarrow> nat option \<Rightarrow> blob_scope result" where
  "scope_from_wire scope record =
     (case record of
        None \<Rightarrow> if scope = ''static'' then Inr BlobStatic
                else Inl (zerr (''bad blob scope '' @ sq scope @ '' / record '' @ dbg_nat_opt record))
      | Some i \<Rightarrow> if scope = ''record'' then Inr (BlobRecord i)
                else Inl (zerr (''bad blob scope '' @ sq scope @ '' / record '' @ dbg_nat_opt record)))"

fun scope_key :: "blob_scope \<Rightarrow> nat \<Rightarrow> string \<Rightarrow> string" where
  "scope_key BlobStatic writer key = ''blobs/static/'' @ show_nat writer @ ''/'' @ key"
| "scope_key (BlobRecord i) writer key =
     ''blobs/record/'' @ show_nat i @ ''/'' @ show_nat writer @ ''/'' @ key"

section \<open>The schema\<close>

record stream_var =
  sv_name :: string
  sv_dims :: "string list"
  sv_dtype :: stream_dtype
  sv_attrs :: "(string \<times> json) list"

record write_coord =
  wc_name :: string
  wc_values :: "f64 list"
  wc_attrs :: "(string \<times> json) list"

record stream_schema =
  ss_dims :: "(string \<times> nat) list"
  ss_time_dim :: string
  ss_chunk :: "(string \<times> nat) list"
  ss_shard :: "(string \<times> nat) list"
  ss_coords :: "write_coord list"
  ss_vars :: "stream_var list"
  ss_statics :: "stream_var list"
  ss_time_mode :: time_mode
  ss_group_attrs :: "(string \<times> json) list"
  ss_profile :: string

section \<open>Codecs\<close>

datatype codec_profile =
    Blosc (cname: string) (clevel: nat) (shuffle: bool)
  | Zstd (zlevel: int) (zchecksum: bool)

definition codec_of_profile :: "string \<Rightarrow> codec_profile result" where
  "codec_of_profile name =
     (if name = ''diagnostic'' then Inr (Blosc ''zstd'' 5 True)
      else if name = ''checkpoint'' then Inr (Blosc ''zstd'' 7 True)
      else if name = ''wasm'' then Inr (Zstd 5 False)
      else Inl (zerr (''unknown codec profile '' @ sq name
        @ '' (expected '' @ sq ''diagnostic'' @ '', '' @ sq ''checkpoint'' @ '', or '' @ sq ''wasm'' @ '')'')))"

definition shuffle_text :: "bool \<Rightarrow> string" where
  "shuffle_text s = (if s then ''shuffle'' else ''noshuffle'')"

definition inner_compressor :: "codec_profile \<Rightarrow> nat \<Rightarrow> json" where
  "inner_compressor codec typesize =
     (case codec of
        Blosc cn cl sh \<Rightarrow>
          JObj [(''name'', JStr ''blosc''),
                (''configuration'', JObj [(''cname'', JStr cn), (''clevel'', json_nat cl), (''shuffle'', JStr (shuffle_text sh)),
                   (''typesize'', json_nat typesize), (''blocksize'', JInt 0)])]
      | Zstd l c \<Rightarrow>
          JObj [(''name'', JStr ''zstd''), (''configuration'', JObj [(''level'', JInt l), (''checksum'', JBool c)])])"

definition endian_codec :: json where
  "endian_codec = JObj [(''name'', JStr ''bytes''), (''configuration'', JObj [(''endian'', JStr ''little'')])]"

definition sharding_codec :: "nat list \<Rightarrow> codec_profile \<Rightarrow> nat \<Rightarrow> json" where
  "sharding_codec lens codec typesize =
     JObj [(''name'', JStr ''sharding_indexed''),
       (''configuration'', JObj [
          (''chunk_shape'', json_nats lens),
          (''codecs'', JArr [endian_codec, inner_compressor codec typesize]),
          (''index_codecs'', JArr [endian_codec, JObj [(''name'', JStr ''crc32c'')]]),
          (''index_location'', JStr ''end'')])]"

definition codec_meta :: "codec_profile \<Rightarrow> json" where
  "codec_meta codec =
     (case codec of
        Blosc cn cl sh \<Rightarrow>
          JObj [(''id'', JStr ''blosc''), (''cname'', JStr cn), (''clevel'', json_nat cl), (''shuffle'', JStr (shuffle_text sh))]
      | Zstd l c \<Rightarrow> JObj [(''id'', JStr ''zstd''), (''level'', JInt l), (''checksum'', JBool c)])"

section \<open>The metadata of an array\<close>

definition pick_dims :: "string list \<Rightarrow> (string \<times> nat) list \<Rightarrow> string \<Rightarrow> nat list result" where
  "pick_dims dims m what =
     each (\<lambda>d. ok_or (zerr (''dim '' @ sq d @ '' missing from '' @ what)) (map_of m d)) dims"

definition array_meta ::
    "string list \<Rightarrow> nat list \<Rightarrow> (string \<times> nat) list \<Rightarrow> (string \<times> nat) list \<Rightarrow> stream_dtype \<Rightarrow> codec_profile
      \<Rightarrow> (string \<times> json) list \<Rightarrow> json result" where
  "array_meta dims shape chunk shard dt codec attrs =
     bindR (pick_dims dims chunk ''chunk_shape'') (\<lambda>lens.
     bindR (pick_dims dims shard ''shard_shape'') (\<lambda>outer.
       Inr (JObj [
         (''zarr_format'', JInt 3),
         (''node_type'', JStr ''array''),
         (''shape'', json_nats shape),
         (''data_type'', JStr (dtype_name dt)),
         (''chunk_grid'', JObj [(''name'', JStr ''regular''), (''configuration'', JObj [(''chunk_shape'', json_nats outer)])]),
         (''chunk_key_encoding'', JObj [(''name'', JStr ''default''), (''configuration'', JObj [(''separator'', JStr ''/'')])]),
         (''fill_value'', if dtype_is_float dt then JNum ''0.0'' else JInt 0),
         (''codecs'', JArr [sharding_codec lens codec (dtype_size dt)]),
         (''attributes'', JObj (al_put ''_ARRAY_DIMENSIONS'' (json_strs dims) attrs)),
         (''dimension_names'', json_strs dims)])))"

section \<open>Checks\<close>

fun check_dims :: "stream_schema \<Rightarrow> (string \<times> nat) list \<Rightarrow> unit result" where
  "check_dims s [] = Inr ()"
| "check_dims s ((d, l) # dims) =
     bindR (ok_or (zerr (''dim '' @ sq d @ '' missing from chunk_shape'')) (map_of (ss_chunk s) d)) (\<lambda>c.
     bindR (ok_or (zerr (''dim '' @ sq d @ '' missing from shard_shape'')) (map_of (ss_shard s) d)) (\<lambda>sh.
       if c = 0 \<or> sh = 0 \<or> sh mod c \<noteq> 0 then
         Inl (zerr (''shard_shape['' @ d @ '']='' @ show_nat sh @ '' must be a nonzero multiple of chunk_shape['' @ d
           @ '']='' @ show_nat c))
       else check_dims s dims))"

fun check_names :: "string \<Rightarrow> string list \<Rightarrow> string list \<Rightarrow> stream_var list \<Rightarrow> unit result" where
  "check_names td known names [] = Inr ()"
| "check_names td known names (v # vs) =
     (if sv_name v \<in> set names \<or> sv_name v = td then Inl (zerr (''duplicate variable name '' @ sq (sv_name v)))
      else
        (case find (\<lambda>d. d \<notin> set known) (sv_dims v) of
           Some d \<Rightarrow> Inl (zerr (''var '' @ sq (sv_name v) @ '' dim '' @ sq d @ '' not in schema dims''))
         | None \<Rightarrow> check_names td known (sv_name v # names) vs))"

definition check_streaming :: "string \<Rightarrow> stream_var list \<Rightarrow> unit result" where
  "check_streaming td vars =
     (case find (\<lambda>v. length (filter ((=) td) (sv_dims v)) \<noteq> 1) vars of
        Some v \<Rightarrow> Inl (zerr (''streaming var '' @ sq (sv_name v) @ '' must include the time dim '' @ sq td))
      | None \<Rightarrow> Inr ())"

definition check_statics :: "string \<Rightarrow> stream_var list \<Rightarrow> unit result" where
  "check_statics td statics =
     (case find (\<lambda>v. td \<in> set (sv_dims v)) statics of
        Some v \<Rightarrow> Inl (zerr (''static '' @ sq (sv_name v) @ '' must not include the time dim '' @ sq td))
      | None \<Rightarrow> Inr ())"

definition with_time_len :: "string \<Rightarrow> time_mode \<Rightarrow> (string \<times> nat) list \<Rightarrow> (string \<times> nat) list" where
  "with_time_len td mode dims =
     (case mode of Append \<Rightarrow> dims | Indexed n ts \<Rightarrow> map (\<lambda>(d, l). (d, if d = td then n else l)) dims)"

definition check_times :: "time_mode \<Rightarrow> unit result" where
  "check_times mode =
     (case mode of
        Append \<Rightarrow> Inr ()
      | Indexed n ts \<Rightarrow>
          if length ts \<noteq> n then
            Inl (zerr (''indexed: '' @ show_nat (length ts) @ '' times for n_records = '' @ show_nat n))
          else Inr ())"

definition validate_schema :: "stream_schema \<Rightarrow> stream_schema result" where
  "validate_schema schema =
     bindR (codec_of_profile (ss_profile schema)) (\<lambda>_.
       let td = ss_time_dim schema in
       if td \<notin> set (map fst (ss_dims schema)) then Inl (zerr (''time dim '' @ sq td @ '' is not in dims''))
       else
         bindR (check_times (ss_time_mode schema)) (\<lambda>_.
           let s = schema\<lparr>ss_dims := with_time_len td (ss_time_mode schema) (ss_dims schema)\<rparr> in
           bindR (check_dims s (ss_dims s)) (\<lambda>_.
           bindR (check_names td (map fst (ss_dims s)) [] (ss_vars s @ ss_statics s)) (\<lambda>_.
           bindR (check_streaming td (ss_vars s)) (\<lambda>_.
           bindR (check_statics td (ss_statics s)) (\<lambda>_. Inr s))))))"

text \<open>\<open>dims\<close> collected into a map: of two entries for one dimension the later counts.\<close>

definition dim_lens :: "stream_schema \<Rightarrow> (string \<times> nat) list" where
  "dim_lens s = bt_of_list (ss_dims s)"

definition check_range :: "stream_schema \<Rightarrow> string \<Rightarrow> nat \<times> nat \<Rightarrow> unit result option" where
  "check_range s d r =
     (let (a, b) = r; bad = (\<lambda>detail. Some (Inl (RegionNotShardAligned detail))) in
      if d = ss_time_dim s then bad (''a region may not name the time dim '' @ sq d)
      else
        (case map_of (dim_lens s) d of
           None \<Rightarrow> bad (''region dim '' @ sq d @ '' is not a schema dim'')
         | Some n \<Rightarrow>
             (case map_of (ss_shard s) d of
                None \<Rightarrow> None
              | Some sh \<Rightarrow>
                  if b \<le> a \<or> n < b then
                    bad (d @ '': ['' @ show_nat a @ '', '' @ show_nat b @ '') is not within [0, '' @ show_nat n @ '')'')
                  else if sh = 0 then None
                  else if a mod sh \<noteq> 0 then
                    bad (d @ '': start '' @ show_nat a @ '' is not a multiple of the shard length '' @ show_nat sh)
                  else if b mod sh \<noteq> 0 \<and> b \<noteq> n then
                    bad (d @ '': stop '' @ show_nat b @ '' is neither a multiple of the shard length '' @ show_nat sh
                      @ '' nor the dim length '' @ show_nat n)
                  else Some (Inr ()))))"

fun validate_region :: "stream_schema \<Rightarrow> region \<Rightarrow> unit result option" where
  "validate_region s [] = Some (Inr ())"
| "validate_region s ((d, r) # rest) =
     (case check_range s d r of
        Some (Inr _) \<Rightarrow> validate_region s rest
      | x \<Rightarrow> x)"

section \<open>Canonical JSON and the fingerprint\<close>

text \<open>The code points of UTF-8 bytes, and the UTF-16 units of a code point.\<close>

definition utf8_tail :: "nat \<Rightarrow> nat" where
  "utf8_tail x = (if x < 0xE0 then 1 else if x < 0xF0 then 2 else 3)"

definition utf8_first :: "nat \<Rightarrow> nat" where
  "utf8_first x = (if x < 0xE0 then x mod 32 else if x < 0xF0 then x mod 16 else x mod 8)"

fun utf8_chars :: "string \<Rightarrow> nat list" where
  "utf8_chars [] = []"
| "utf8_chars (c # cs) =
     (let x = of_char c in
      if x < 0x80 then x # utf8_chars cs
      else
        foldl (\<lambda>acc b. 64 * acc + of_char b mod 64) (utf8_first x) (take (utf8_tail x) cs)
          # utf8_chars (drop (utf8_tail x) cs))"

definition utf16_units :: "nat \<Rightarrow> nat list" where
  "utf16_units c =
     (if c < 0x10000 then [c] else [0xD800 + (c - 0x10000) div 0x400, 0xDC00 + (c - 0x10000) mod 0x400])"

definition hex4 :: "nat \<Rightarrow> string" where
  "hex4 u = map hex_digit [u div 4096 mod 16, u div 256 mod 16, u div 16 mod 16, u mod 16]"

definition canonical_char :: "nat \<Rightarrow> string" where
  "canonical_char c =
     (if c = 0x22 then [CHR 0x5C, CHR 0x22]
      else if c = 0x5C then [CHR 0x5C, CHR 0x5C]
      else if c = 0x0A then [CHR 0x5C, CHR ''n'']
      else if c = 0x0D then [CHR 0x5C, CHR ''r'']
      else if c = 0x09 then [CHR 0x5C, CHR ''t'']
      else if c = 0x08 then [CHR 0x5C, CHR ''b'']
      else if c = 0x0C then [CHR 0x5C, CHR ''f'']
      else if c < 0x20 \<or> 0x7E < c \<and> c \<noteq> 0x7F then concat (map (\<lambda>u. CHR 0x5C # CHR ''u'' # hex4 u) (utf16_units c))
      else [char_of c])"

definition canonical_str :: "string \<Rightarrow> string" where
  "canonical_str s = CHR 0x22 # concat (map canonical_char (utf8_chars s)) @ [CHR 0x22]"

fun join_with :: "string \<Rightarrow> string list \<Rightarrow> string" where
  "join_with sep [] = []"
| "join_with sep [x] = x"
| "join_with sep (x # y # zs) = x @ sep @ join_with sep (y # zs)"

definition canonical_member :: "string \<times> string \<Rightarrow> string" where
  "canonical_member kv = canonical_str (fst kv) @ '':'' @ snd kv"

fun canonical_json :: "json \<Rightarrow> string" where
  "canonical_json JNull = ''null''"
| "canonical_json (JBool b) = (if b then ''true'' else ''false'')"
| "canonical_json (JInt n) = show_int n"
| "canonical_json (JNum s) = s"
| "canonical_json (JStr s) = canonical_str s"
| "canonical_json (JArr a) = ''['' @ join_with '','' (map canonical_json a) @ '']''"
| "canonical_json (JObj m) =
     ''{'' @ join_with '','' (map canonical_member (sort_key fst (map (\<lambda>kv. (fst kv, canonical_json (snd kv))) m))) @ ''}''"

definition var_triples :: "stream_var list \<Rightarrow> json" where
  "var_triples vs = JArr (map (\<lambda>v. JArr [JStr (sv_name v), json_strs (sv_dims v), JStr (dtype_name (sv_dtype v))]) vs)"

definition mode_text :: "time_mode \<Rightarrow> string" where
  "mode_text m = (case m of Append \<Rightarrow> ''append'' | Indexed n ts \<Rightarrow> ''indexed'')"

definition mode_len :: "time_mode \<Rightarrow> nat" where
  "mode_len m = (case m of Append \<Rightarrow> 0 | Indexed n ts \<Rightarrow> n)"

definition fingerprint_doc :: "stream_schema \<Rightarrow> json" where
  "fingerprint_doc s =
     JObj [(''chunk_shape'', json_map (ss_chunk s)),
       (''dims'', JArr (map (\<lambda>(d, l).
          JArr [JStr d, json_nat (if d = ss_time_dim s then mode_len (ss_time_mode s) else l)]) (ss_dims s))),
       (''profile'', JStr (ss_profile s)),
       (''shard_shape'', json_map (ss_shard s)),
       (''statics'', var_triples (ss_statics s)),
       (''time_dim'', JStr (ss_time_dim s)),
       (''time_mode'', JStr (mode_text (ss_time_mode s))),
       (''vars'', var_triples (ss_vars s))]"

definition schema_fingerprint :: "(string \<Rightarrow> string) \<Rightarrow> stream_schema \<Rightarrow> string" where
  "schema_fingerprint digest s = ''sha256:'' @ sha256_hex digest (canonical_json (fingerprint_doc s))"

section \<open>Geometry\<close>

record geometry =
  g_schema :: stream_schema
  g_codec :: codec_profile
  g_region :: region
  g_dim_len :: "(string \<times> nat) list"
  g_st :: nat

definition n_indexed :: "geometry \<Rightarrow> nat option" where
  "n_indexed g = (case ss_time_mode (g_schema g) of Append \<Rightarrow> None | Indexed n ts \<Rightarrow> Some n)"

definition is_time :: "geometry \<Rightarrow> string \<Rightarrow> bool" where
  "is_time g d \<longleftrightarrow> d = ss_time_dim (g_schema g)"

definition partitioned :: "geometry \<Rightarrow> string list \<Rightarrow> bool" where
  "partitioned g dims \<longleftrightarrow> list_ex (\<lambda>d. has_key d (g_region g)) dims"

definition owns :: "geometry \<Rightarrow> string list \<Rightarrow> bool" where
  "owns g dims \<longleftrightarrow> list_all (\<lambda>(d, r). d \<in> set dims \<or> fst r = 0) (g_region g)"

definition local_range :: "geometry \<Rightarrow> string \<Rightarrow> (nat \<times> nat) option" where
  "local_range g d =
     (case map_of (g_region g) d of
        Some r \<Rightarrow> Some r
      | None \<Rightarrow> map_option (\<lambda>n. (0, n)) (map_of (g_dim_len g) d))"

fun var_box :: "geometry \<Rightarrow> string list \<Rightarrow> nat \<Rightarrow> nat \<Rightarrow> (nat list \<times> nat list) option" where
  "var_box g [] t0 tn = Some ([], [])"
| "var_box g (d # dims) t0 tn =
     (if is_time g d then map_option (\<lambda>(os, ss). (t0 # os, tn # ss)) (var_box g dims t0 tn)
      else
        (case local_range g d of
           None \<Rightarrow> None
         | Some (a, b) \<Rightarrow> map_option (\<lambda>(os, ss). (a # os, (b - a) # ss)) (var_box g dims t0 tn)))"

fun local_len :: "geometry \<Rightarrow> string list \<Rightarrow> nat option" where
  "local_len g [] = Some 1"
| "local_len g (d # dims) =
     (if is_time g d then local_len g dims
      else
        (case local_range g d of
           None \<Rightarrow> None
         | Some (a, b) \<Rightarrow> map_option ((*) (b - a)) (local_len g dims)))"

end
