(* ===== verification/StreamBoxes.thy ===== *)
theory StreamBoxes
  imports Chunks StreamSchema
begin

text \<open>
  The boxes of bytes of the streaming writer (\<open>rust/src/format/zarr_stream.rs\<close>, \<open>NdBuf\<close>): a dense row-major
  block of a larger array, and the copy of the intersection of two boxes. The copy writes exactly the cells
  the boxes share.
\<close>

section \<open>Boxes\<close>

record nd_buf =
  nb_origin :: "nat list"
  nb_shape :: "nat list"
  nb_esize :: nat
  nb_data :: "8 word list"

definition nd_zeros :: "nat list \<Rightarrow> nat list \<Rightarrow> nat \<Rightarrow> nd_buf" where
  "nd_zeros origin shape esize =
     \<lparr>nb_origin = origin, nb_shape = shape, nb_esize = esize, nb_data = replicate (prod_list shape * esize) 0\<rparr>"

definition box_strides :: "nat list \<Rightarrow> nat list" where
  "box_strides shape =
     fold (\<lambda>d s. s[d := s ! (d + 1) * shape ! (d + 1)]) (rev [0..<length shape - 1]) (replicate (length shape) 1)"

text \<open>\<open>dst[i..i + n].copy_from_slice(&src[k..k + n])\<close>; \<open>None\<close> is a slice out of range.\<close>

definition copy_slice :: "8 word list \<Rightarrow> nat \<Rightarrow> 8 word list \<Rightarrow> nat \<Rightarrow> nat \<Rightarrow> 8 word list option" where
  "copy_slice dst i src k n =
     (if i + n \<le> length dst \<and> k + n \<le> length src
      then Some (take i dst @ take n (drop k src) @ drop (i + n) dst) else None)"

definition box_offset :: "nat \<Rightarrow> nat list \<Rightarrow> nat list \<Rightarrow> nat list \<Rightarrow> nat" where
  "box_offset n cur origin st = (\<Sum>d\<leftarrow>[0..<n]. (cur ! d - origin ! d) * st ! d)"

text \<open>The odometer over the leading dimensions; \<open>None\<close> when all have wrapped.\<close>

fun box_tick :: "nat list \<Rightarrow> nat list \<Rightarrow> nat list \<Rightarrow> nat \<Rightarrow> nat list option" where
  "box_tick lo hi cur 0 = None"
| "box_tick lo hi cur (Suc d) =
     (let cur' = cur[d := cur ! d + 1] in
      if cur' ! d < hi ! d then Some cur' else box_tick lo hi (cur'[d := lo ! d]) d)"

partial_function (option) copy_loop ::
    "nat \<Rightarrow> nat list \<Rightarrow> nat list \<Rightarrow> nd_buf \<Rightarrow> nat list \<Rightarrow> nat list \<Rightarrow> nat \<Rightarrow> nat list \<Rightarrow> nd_buf \<Rightarrow> nd_buf option" where
  "copy_loop n lo hi src ss ds run cur dst =
     Option.bind
       (copy_slice (nb_data dst) (box_offset n cur (nb_origin dst) ds * nb_esize src)
          (nb_data src) (box_offset n cur (nb_origin src) ss * nb_esize src) run)
       (\<lambda>data.
          let dst' = dst\<lparr>nb_data := data\<rparr> in
          case box_tick lo hi cur (n - 1) of
            None \<Rightarrow> Some dst'
          | Some cur' \<Rightarrow> copy_loop n lo hi src ss ds run cur' dst')"

definition overlap_lo :: "nat \<Rightarrow> nd_buf \<Rightarrow> nd_buf \<Rightarrow> nat list" where
  "overlap_lo n src dst = map (\<lambda>d. max (nb_origin src ! d) (nb_origin dst ! d)) [0..<n]"

definition overlap_hi :: "nat \<Rightarrow> nd_buf \<Rightarrow> nd_buf \<Rightarrow> nat list" where
  "overlap_hi n src dst =
     map (\<lambda>d. min (nb_origin src ! d + nb_shape src ! d) (nb_origin dst ! d + nb_shape dst ! d)) [0..<n]"

definition copy_overlap :: "nd_buf \<Rightarrow> nd_buf \<Rightarrow> nd_buf option" where
  "copy_overlap src dst =
     (let n = length (nb_shape src) in
      if n = 0 then
        (if length (nb_data src) = length (nb_data dst) then Some (dst\<lparr>nb_data := nb_data src\<rparr>) else None)
      else if length (nb_origin src) < n \<or> length (nb_origin dst) < n \<or> length (nb_shape dst) < n then None
      else
        (let lo = overlap_lo n src dst; hi = overlap_hi n src dst in
         if list_ex (\<lambda>d. hi ! d \<le> lo ! d) [0..<n] then Some dst
         else copy_loop n lo hi src (box_strides (nb_shape src)) (box_strides (nb_shape dst))
                ((hi ! (n - 1) - lo ! (n - 1)) * nb_esize src) lo dst))"

text \<open>Every index tuple of a product of ranges, in row-major order.\<close>

definition extend_tuples :: "nat \<times> nat \<Rightarrow> nat list list \<Rightarrow> nat list list" where
  "extend_tuples r out = concat (map (\<lambda>p. map (\<lambda>i. p @ [i]) [fst r..<snd r]) out)"

definition range_product :: "(nat \<times> nat) list \<Rightarrow> nat list list" where
  "range_product ranges = fold extend_tuples ranges [[]]"

section \<open>Cells of a box\<close>

definition box_ok :: "nd_buf \<Rightarrow> bool" where
  "box_ok b \<longleftrightarrow> length (nb_origin b) = length (nb_shape b) \<and> length (nb_data b) = prod_list (nb_shape b) * nb_esize b"

definition in_box :: "nd_buf \<Rightarrow> nat list \<Rightarrow> bool" where
  "in_box b g \<longleftrightarrow> length g = length (nb_shape b) \<and>
     (\<forall>d<length g. nb_origin b ! d \<le> g ! d \<and> g ! d < nb_origin b ! d + nb_shape b ! d)"

definition elt :: "nat \<Rightarrow> 'a list \<Rightarrow> nat \<Rightarrow> 'a list" where
  "elt es data i = take es (drop (i * es) data)"

definition box_cell :: "nd_buf \<Rightarrow> nat list \<Rightarrow> 8 word list" where
  "box_cell b g = elt (nb_esize b) (nb_data b) (position_of (nb_shape b) (map2 (-) g (nb_origin b)))"

lemma box_strides_eq: "box_strides shape = src_strides shape"
  by (simp add: box_strides_def src_strides_def)

lemma box_ok_zeros: "length origin = length shape \<Longrightarrow> box_ok (nd_zeros origin shape es)"
  by (simp add: box_ok_def nd_zeros_def)

lemma in_box_shape: "in_box b g \<Longrightarrow> box_ok b \<Longrightarrow> in_shape (nb_shape b) (map2 (-) g (nb_origin b))"
  by (auto simp: in_box_def box_ok_def in_shape_def less_diff_conv2)

lemma box_offset_position:
  assumes "in_box b g" "box_ok b" "length g = n"
  shows "box_offset n g (nb_origin b) (box_strides (nb_shape b)) = position_of (nb_shape b) (map2 (-) g (nb_origin b))"
proof -
  have l: "length (nb_origin b) = n" "length (nb_shape b) = n" using assms by (simp_all add: in_box_def box_ok_def)
  have "box_offset n g (nb_origin b) (box_strides (nb_shape b)) =
      (\<Sum>d<n. (g ! d - nb_origin b ! d) * box_strides (nb_shape b) ! d)"
    by (simp add: box_offset_def interv_sum_list_conv_sum_set_nat atLeast0LessThan)
  also have "\<dots> = (\<Sum>d<n. map2 (-) g (nb_origin b) ! d * width (nb_shape b) (Suc d))"
    using l assms(3) by (intro sum.cong) (simp_all add: box_strides_eq nth_strides)
  finally show ?thesis using position_sum [OF in_box_shape [OF assms(1,2)]] l assms(3) by simp
qed

lemma elt_nth: "i * es + es \<le> length data \<Longrightarrow> j < es \<Longrightarrow> elt es data i ! j = data ! (i * es + j)"
  by (simp add: elt_def)

lemma copy_slice_elt:
  assumes c: "copy_slice dst (a * es) src (b * es) (L * es) = Some dst'" and i: "i * es + es \<le> length dst"
  shows "length dst' = length dst"
    and "elt es dst' i = (if a \<le> i \<and> i < a + L then elt es src (b + (i - a)) else elt es dst i)"
proof -
  from c have b1: "a * es + L * es \<le> length dst" and b2: "b * es + L * es \<le> length src"
    and d: "dst' = take (a * es) dst @ take (L * es) (drop (b * es) src) @ drop (a * es + L * es) dst"
    by (auto simp: copy_slice_def split: if_splits)
  show len: "length dst' = length dst" using b1 b2 by (simp add: d)
  have nth: "dst' ! k = (if a * es \<le> k \<and> k < a * es + L * es then src ! (b * es + (k - a * es)) else dst ! k)"
    if "k < length dst" for k
    using that b1 b2 by (auto simp: d nth_append)
  show "elt es dst' i = (if a \<le> i \<and> i < a + L then elt es src (b + (i - a)) else elt es dst i)"
  proof (cases "a \<le> i \<and> i < a + L")
    case True
    then have "b + (i - a) + 1 \<le> b + L" by linarith
    then have "(b + (i - a) + 1) * es \<le> (b + L) * es" by (rule mult_le_mono1)
    then have fit: "(b + (i - a)) * es + es \<le> length src" using b2 by (simp add: distrib_right)
    have "elt es dst' i = elt es src (b + (i - a))"
    proof (rule nth_equalityI)
      show "length (elt es dst' i) = length (elt es src (b + (i - a)))" using fit i len by (simp add: elt_def)
      fix j assume "j < length (elt es dst' i)"
      then have j: "j < es" by (simp add: elt_def)
      have "Suc i * es \<le> (a + L) * es" using True by (intro mult_le_mono1) simp
      then have "i * es + j < a * es + L * es" using j by (simp add: distrib_right)
      moreover have "a * es \<le> i * es + j" using True by (simp add: trans_le_add1)
      moreover have "a * es \<le> i * es" using True by simp
      then have "(b + (i - a)) * es + j = b * es + (i * es + j - a * es)"
        by (simp only: distrib_right diff_mult_distrib)
      ultimately show "elt es dst' i ! j = elt es src (b + (i - a)) ! j"
        using nth [of "i * es + j"] i j fit len by (simp add: elt_nth)
    qed
    with True show ?thesis by simp
  next
    case False
    have "elt es dst' i = elt es dst i"
    proof (rule nth_equalityI)
      show "length (elt es dst' i) = length (elt es dst i)" using len by (simp add: elt_def)
      fix j assume "j < length (elt es dst' i)"
      then have j: "j < es" by (simp add: elt_def)
      have "\<not> (a * es \<le> i * es + j \<and> i * es + j < a * es + L * es)"
      proof (cases "i < a")
        case True
        then have "Suc i * es \<le> a * es" by (intro mult_le_mono1) simp
        with j show ?thesis by simp
      next
        case f: False
        with False have "(a + L) * es \<le> i * es" by (intro mult_le_mono1) simp
        then show ?thesis by (simp add: distrib_right)
      qed
      then have "dst' ! (i * es + j) = dst ! (i * es + j)"
        using nth [of "i * es + j"] i j by (simp only: if_False)
      then show "elt es dst' i ! j = elt es dst i ! j" using i j len by (simp add: elt_nth)
    qed
    with False show ?thesis by auto
  qed
qed

section \<open>The copy writes the cells the boxes share\<close>

lemma box_tick_tick:
  assumes "in_shape (map2 (-) hi lo) c" "length lo = length hi" "d \<le> length lo"
  shows "box_tick lo hi (map2 (+) lo c) d = map_option (map2 (+) lo) (Chunks.tick (map2 (-) hi lo) c d)"
  using assms
proof (induction d arbitrary: c)
  case (Suc d)
  let ?lens = "map2 (-) hi lo"
  have l: "length c = length lo" "d < length lo" using Suc.prems by (auto simp: in_shape_def)
  have upd: "(map2 (+) lo c)[d := lo ! d + v] = map2 (+) lo (c[d := v])" for v
    using l by (intro nth_equalityI) (auto simp: nth_list_update)
  have up1: "(map2 (+) lo c)[d := Suc (lo ! d + c ! d)] = map2 (+) lo (c[d := Suc (c ! d)])"
    using upd [of "Suc (c ! d)"] by simp
  have up0: "(map2 (+) lo c)[d := lo ! d] = map2 (+) lo (c[d := 0])"
    using upd [of 0] by simp
  have lt: "Suc (lo ! d + c ! d) < hi ! d \<longleftrightarrow> Suc (c ! d) < ?lens ! d" using l Suc.prems(2) by auto
  show ?case
  proof (cases "Suc (c ! d) < ?lens ! d")
    case True
    then show ?thesis using l lt up1 by simp
  next
    case False
    have "0 < ?lens ! d" using Suc.prems(1) l Suc.prems(2) unfolding in_shape_def by fastforce
    then have "in_shape ?lens (c[d := 0])" using Suc.prems(1) l by (auto simp: in_shape_def nth_list_update)
    from Suc.IH [OF this Suc.prems(2)] False l lt up0 show ?thesis by simp
  qed
qed simp

lemma bump_above: "d \<le> i \<Longrightarrow> bump lens c d ! i = c ! i"
  by (induction d arbitrary: c) (simp_all add: Let_def)

lemma position_last:
  assumes "in_shape shape (r[n := r ! n + j])" "Suc n = length shape"
  shows "position_of shape (r[n := r ! n + j]) = position_of shape r + j"
proof -
  have l: "length r = Suc n" using assms by (simp add: in_shape_def)
  have upd: "r[n := r ! n + j] ! i < shape ! i" if "i < length shape" for i
    using assms(1) that by (simp add: in_shape_def)
  have "r ! i < shape ! i" if "i < length shape" for i
    using upd [OF that] l by (cases "i = n") simp_all
  then have "in_shape shape r" using l assms(2) by (simp add: in_shape_def)
  moreover have "(\<Sum>i<length r. r[n := r ! n + j] ! i * width shape (Suc i)) + r ! n * width shape (Suc n) =
      (\<Sum>i<length r. r ! i * width shape (Suc i)) + (r ! n + j) * width shape (Suc n)"
    using sum_update [of n r "r ! n + j" "\<lambda>i. width shape (Suc i)"] l by simp
  moreover have "width shape (Suc n) = 1" using assms(2) by (simp add: width_def)
  ultimately show ?thesis using position_sum [OF assms(1)] position_sum [of shape r] by simp
qed

text \<open>Two boxes of rank \<open>Suc n\<close> that meet; the cells they share, and where such a cell lies in the
  intersection.\<close>

definition boxes_meet :: "nat \<Rightarrow> nd_buf \<Rightarrow> nd_buf \<Rightarrow> bool" where
  "boxes_meet n src dst \<longleftrightarrow> box_ok src \<and> box_ok dst \<and> length (nb_shape src) = Suc n \<and> length (nb_shape dst) = Suc n \<and>
     nb_esize src = nb_esize dst \<and> (\<forall>d\<le>n. overlap_lo (Suc n) src dst ! d < overlap_hi (Suc n) src dst ! d)"

definition shared :: "nd_buf \<Rightarrow> nd_buf \<Rightarrow> nat list \<Rightarrow> bool" where
  "shared src dst g \<longleftrightarrow> in_box src g \<and> in_box dst g"

abbreviation lens_of :: "nat \<Rightarrow> nd_buf \<Rightarrow> nd_buf \<Rightarrow> nat list" where
  "lens_of n src dst \<equiv> map2 (-) (overlap_hi (Suc n) src dst) (overlap_lo (Suc n) src dst)"

definition rel :: "nat \<Rightarrow> nd_buf \<Rightarrow> nd_buf \<Rightarrow> nat list \<Rightarrow> nat list" where
  "rel n src dst g = map2 (-) g (overlap_lo (Suc n) src dst)"

lemma overlap_length [simp]: "length (overlap_lo m src dst) = m" "length (overlap_hi m src dst) = m"
  by (simp_all add: overlap_lo_def overlap_hi_def)

lemma meet_lengths:
  "boxes_meet n src dst \<Longrightarrow> length (nb_origin src) = Suc n \<and> length (nb_origin dst) = Suc n \<and>
     length (nb_shape src) = Suc n \<and> length (nb_shape dst) = Suc n"
  by (auto simp: boxes_meet_def box_ok_def)

lemma shared_iff:
  assumes "boxes_meet n src dst"
  shows "shared src dst g \<longleftrightarrow> length g = Suc n \<and>
    (\<forall>d\<le>n. overlap_lo (Suc n) src dst ! d \<le> g ! d \<and> g ! d < overlap_hi (Suc n) src dst ! d)"
proof -
  have "shared src dst g \<longleftrightarrow> length g = Suc n \<and>
      (\<forall>d\<le>n. (nb_origin src ! d \<le> g ! d \<and> g ! d < nb_origin src ! d + nb_shape src ! d) \<and>
             (nb_origin dst ! d \<le> g ! d \<and> g ! d < nb_origin dst ! d + nb_shape dst ! d))"
    using meet_lengths [OF assms] by (auto simp: shared_def in_box_def less_Suc_eq_le)
  then show ?thesis by (auto simp: overlap_lo_def overlap_hi_def nth_map_upt less_Suc_eq_le simp del: upt_Suc)
qed

lemma shared_rel:
  assumes "boxes_meet n src dst"
  shows "shared src dst g \<longleftrightarrow> length g = Suc n \<and> (\<forall>d\<le>n. overlap_lo (Suc n) src dst ! d \<le> g ! d) \<and>
    in_shape (lens_of n src dst) (rel n src dst g)"
proof (cases "length g = Suc n")
  case True
  have "(a::nat) \<le> x \<Longrightarrow> x - a < b - a \<longleftrightarrow> x < b" for a x b by arith
  with True show ?thesis by (auto simp: shared_iff [OF assms] in_shape_def rel_def less_Suc_eq_le)
qed (simp add: shared_iff [OF assms])

lemma add_rel:
  "boxes_meet n src dst \<Longrightarrow> shared src dst g \<Longrightarrow> map2 (+) (overlap_lo (Suc n) src dst) (rel n src dst g) = g"
  by (rule nth_equalityI) (auto simp: shared_iff rel_def less_Suc_eq_le)

lemma rel_add: "length c = Suc n \<Longrightarrow> rel n src dst (map2 (+) (overlap_lo (Suc n) src dst) c) = c"
  by (rule nth_equalityI) (auto simp: rel_def)

lemma shared_add:
  "boxes_meet n src dst \<Longrightarrow> in_shape (lens_of n src dst) c \<Longrightarrow> shared src dst (map2 (+) (overlap_lo (Suc n) src dst) c)"
  by (auto simp: shared_rel rel_add in_shape_def less_Suc_eq_le)

lemma position_shift:
  assumes "box_ok b" "in_box b g" "in_box b (g[n := g ! n + j])" "length (nb_shape b) = Suc n"
  shows "position_of (nb_shape b) (map2 (-) (g[n := g ! n + j]) (nb_origin b)) =
    position_of (nb_shape b) (map2 (-) g (nb_origin b)) + j"
proof -
  let ?r = "map2 (-) g (nb_origin b)"
  have l: "length g = Suc n" "length (nb_origin b) = Suc n" "nb_origin b ! n \<le> g ! n"
    using assms by (auto simp: in_box_def box_ok_def)
  then have e: "map2 (-) (g[n := g ! n + j]) (nb_origin b) = ?r[n := ?r ! n + j]"
    by (intro nth_equalityI) (auto simp: nth_list_update)
  with in_box_shape [OF assms(3,1)] have "in_shape (nb_shape b) (?r[n := ?r ! n + j])" by simp
  from position_last [OF this] e assms(4) show ?thesis by simp
qed

text \<open>One run: the cells whose leading indices are those of \<open>cur\<close>.\<close>

definition run_len :: "nat \<Rightarrow> nd_buf \<Rightarrow> nd_buf \<Rightarrow> nat" where
  "run_len n src dst = overlap_hi (Suc n) src dst ! n - overlap_lo (Suc n) src dst ! n"

lemma run_cell:
  assumes c: "in_shape (lens_of n src dst) c" "c ! n = 0" and j: "j < run_len n src dst"
  shows "in_shape (lens_of n src dst) (c[n := j])"
    and "position_of (lens_of n src dst) (c[n := j]) = position_of (lens_of n src dst) c + j"
    and "(map2 (+) (overlap_lo (Suc n) src dst) c)[n := map2 (+) (overlap_lo (Suc n) src dst) c ! n + j] =
      map2 (+) (overlap_lo (Suc n) src dst) (c[n := j])"
proof -
  have lc: "length c = Suc n" using c by (simp add: in_shape_def)
  show cj: "in_shape (lens_of n src dst) (c[n := j])"
    using c j lc by (auto simp: in_shape_def nth_list_update run_len_def)
  show "position_of (lens_of n src dst) (c[n := j]) = position_of (lens_of n src dst) c + j"
    using position_last [of "lens_of n src dst" c n j] cj c(2) by simp
  show "(map2 (+) (overlap_lo (Suc n) src dst) c)[n := map2 (+) (overlap_lo (Suc n) src dst) c ! n + j] =
      map2 (+) (overlap_lo (Suc n) src dst) (c[n := j])"
    using lc c(2) by (intro nth_equalityI) (auto simp: nth_list_update)
qed

lemma run_cells:
  assumes m: "boxes_meet n src dst" and c: "in_shape (lens_of n src dst) c" "c ! n = 0" and g: "shared src dst g"
    and p: "position_of (lens_of n src dst) c \<le> position_of (lens_of n src dst) (rel n src dst g)"
      "position_of (lens_of n src dst) (rel n src dst g) < position_of (lens_of n src dst) c + run_len n src dst"
  obtains j where "j < run_len n src dst" "g = map2 (+) (overlap_lo (Suc n) src dst) (c[n := j])"
proof -
  obtain j where j: "position_of (lens_of n src dst) (rel n src dst g) = position_of (lens_of n src dst) c + j"
      "j < run_len n src dst"
    using p by (metis add_less_cancel_left le_iff_add)
  moreover have "in_shape (lens_of n src dst) (rel n src dst g)" using g by (simp add: shared_rel [OF m])
  ultimately have "rel n src dst g = c[n := j]"
    using inj_onD [OF position_inj [of "lens_of n src dst"]] run_cell(1,2) [OF c j(2)] by (metis mem_Collect_eq)
  then have "g = map2 (+) (overlap_lo (Suc n) src dst) (c[n := j])" using add_rel [OF m g] by metis
  with j(2) that show ?thesis by blast
qed

lemma copy_run:
  assumes m: "boxes_meet n src dst" and len: "length data = length (nb_data dst)"
    and c: "in_shape (lens_of n src dst) c" "c ! n = 0"
  shows "\<exists>data'. copy_slice data
      (box_offset (Suc n) (map2 (+) (overlap_lo (Suc n) src dst) c) (nb_origin dst) (box_strides (nb_shape dst)) * nb_esize src)
      (nb_data src)
      (box_offset (Suc n) (map2 (+) (overlap_lo (Suc n) src dst) c) (nb_origin src) (box_strides (nb_shape src)) * nb_esize src)
      (run_len n src dst * nb_esize src) = Some data' \<and>
    length data' = length data \<and>
    (\<forall>g. in_box dst g \<longrightarrow> box_cell (dst\<lparr>nb_data := data'\<rparr>) g =
      (if shared src dst g \<and> position_of (lens_of n src dst) c \<le> position_of (lens_of n src dst) (rel n src dst g) \<and>
          position_of (lens_of n src dst) (rel n src dst g) < position_of (lens_of n src dst) c + run_len n src dst
       then box_cell src g else box_cell (dst\<lparr>nb_data := data\<rparr>) g))"
proof -
  let ?lo = "overlap_lo (Suc n) src dst" let ?cur = "map2 (+) ?lo c" let ?L = "run_len n src dst"
  let ?lens = "lens_of n src dst" let ?es = "nb_esize src"
  let ?at = "\<lambda>b g. position_of (nb_shape b) (map2 (-) g (nb_origin b))"
  note l = meet_lengths [OF m]
  have es: "nb_esize dst = ?es" and ok: "box_ok src" "box_ok dst" using m by (simp_all add: boxes_meet_def)
  have lc: "length c = Suc n" using c by (simp add: in_shape_def)
  have L: "0 < ?L" using m by (simp add: boxes_meet_def run_len_def)
  have cell: "shared src dst (map2 (+) ?lo (c[n := j]))" if "j < ?L" for j
    by (rule shared_add [OF m run_cell(1) [OF c that]])
  have zero: "c[n := 0] = c" using c(2) by (metis list_update_id)
  then have cur: "in_box src ?cur" "in_box dst ?cur" using cell [OF L] by (simp_all add: shared_def)
  have shift: "?at b (map2 (+) ?lo (c[n := j])) = ?at b ?cur + j" if "j < ?L" "b = src \<or> b = dst" for j b
  proof -
    have "in_box b (?cur[n := ?cur ! n + j])" "in_box b ?cur" "box_ok b" "length (nb_shape b) = Suc n"
      using cell [OF that(1)] run_cell(3) [OF c that(1)] that(2) cur ok l by (auto simp: shared_def)
    from position_shift [OF this(3,2,1,4)] run_cell(3) [OF c that(1)] show ?thesis by simp
  qed
  have off: "box_offset (Suc n) ?cur (nb_origin b) (box_strides (nb_shape b)) = ?at b ?cur" if "b = src \<or> b = dst" for b
    using box_offset_position [of b ?cur "Suc n"] cur ok lc that by auto
  have fits: "(?at b ?cur + ?L) * ?es \<le> length (nb_data b)" if "b = src \<or> b = dst" for b
  proof -
    have "in_box b (map2 (+) ?lo (c[n := ?L - 1]))" "box_ok b" "nb_esize b = ?es"
      using cell [of "?L - 1"] L that ok es by (auto simp: shared_def)
    then have "?at b (map2 (+) ?lo (c[n := ?L - 1])) < prod_list (nb_shape b)"
      by (intro position_bound in_box_shape)
    then have "?at b ?cur + ?L \<le> prod_list (nb_shape b)" using shift [of "?L - 1" b] L that by simp
    then have "(?at b ?cur + ?L) * ?es \<le> prod_list (nb_shape b) * ?es" by (rule mult_le_mono1)
    with \<open>box_ok b\<close> \<open>nb_esize b = ?es\<close> show ?thesis by (simp add: box_ok_def)
  qed
  then have "\<exists>data'. copy_slice data (?at dst ?cur * ?es) (nb_data src) (?at src ?cur * ?es) (?L * ?es) = Some data'"
    using fits [of src] fits [of dst] len by (simp add: copy_slice_def distrib_right)
  then obtain data' where d: "copy_slice data (?at dst ?cur * ?es) (nb_data src) (?at src ?cur * ?es) (?L * ?es) = Some data'" ..
  have elt: "length data' = length data"
    "elt ?es data' (?at dst g) = (if ?at dst ?cur \<le> ?at dst g \<and> ?at dst g < ?at dst ?cur + ?L
       then elt ?es (nb_data src) (?at src ?cur + (?at dst g - ?at dst ?cur)) else elt ?es data (?at dst g))"
    if g: "in_box dst g" for g
  proof -
    have "Suc (?at dst g) * ?es \<le> prod_list (nb_shape dst) * ?es"
      using position_bound [OF in_box_shape [OF g ok(2)]] by (intro mult_le_mono1) simp
    then have "?at dst g * ?es + ?es \<le> length data" using ok(2) es len by (simp add: box_ok_def)
    from copy_slice_elt [OF d this] show "length data' = length data"
      "elt ?es data' (?at dst g) = (if ?at dst ?cur \<le> ?at dst g \<and> ?at dst g < ?at dst ?cur + ?L
       then elt ?es (nb_data src) (?at src ?cur + (?at dst g - ?at dst ?cur)) else elt ?es data (?at dst g))" by simp_all
  qed
  have bc: "box_cell (dst\<lparr>nb_data := D\<rparr>) g = elt ?es D (?at dst g)" "box_cell src g = elt ?es (nb_data src) (?at src g)" for D g
    by (simp_all add: box_cell_def es)
  have "box_cell (dst\<lparr>nb_data := data'\<rparr>) g =
      (if shared src dst g \<and> position_of ?lens c \<le> position_of ?lens (rel n src dst g) \<and>
          position_of ?lens (rel n src dst g) < position_of ?lens c + ?L
       then box_cell src g else box_cell (dst\<lparr>nb_data := data\<rparr>) g)" if g: "in_box dst g" for g
  proof (cases "?at dst ?cur \<le> ?at dst g \<and> ?at dst g < ?at dst ?cur + ?L")
    case True
    then obtain j where j: "?at dst g = ?at dst ?cur + j" "j < ?L" by (metis add_less_cancel_left le_iff_add)
    let ?q = "map2 (+) ?lo (c[n := j])"
    have q: "in_box dst ?q" using cell [OF j(2)] by (simp add: shared_def)
    have "?at dst ?q = ?at dst g" using shift [OF j(2), of dst] j(1) by simp
    then have "map2 (-) ?q (nb_origin dst) = map2 (-) g (nb_origin dst)"
      using inj_onD [OF position_inj [of "nb_shape dst"]] in_box_shape [OF q ok(2)] in_box_shape [OF g ok(2)] by auto
    then have "?q = g"
    proof (intro nth_equalityI)
      fix i assume e: "map2 (-) ?q (nb_origin dst) = map2 (-) g (nb_origin dst)" and i: "i < length ?q"
      have "?q ! i - nb_origin dst ! i = g ! i - nb_origin dst ! i"
        using arg_cong [OF e, of "\<lambda>v. v ! i"] q g i l by (simp add: in_box_def)
      moreover have "nb_origin dst ! i \<le> ?q ! i" "nb_origin dst ! i \<le> g ! i" using q g i l by (auto simp: in_box_def)
      ultimately show "?q ! i = g ! i" by linarith
    qed (use q g in \<open>simp add: in_box_def\<close>)
    then have "position_of ?lens (rel n src dst g) = position_of ?lens c + j" "shared src dst g"
      using run_cell(2) [OF c j(2)] cell [OF j(2)] rel_add [of "c[n := j]" n src dst] lc by auto
    then have "shared src dst g \<and> position_of ?lens c \<le> position_of ?lens (rel n src dst g) \<and>
        position_of ?lens (rel n src dst g) < position_of ?lens c + ?L" using j(2) by simp
    moreover have "elt ?es data' (?at dst g) = elt ?es (nb_data src) (?at src g)"
      using elt(2) [OF g] True j(1) shift [OF j(2), of src] \<open>?q = g\<close> by simp
    ultimately show ?thesis by (simp only: bc if_True simp_thms)
  next
    case False
    have "\<not> (shared src dst g \<and> position_of ?lens c \<le> position_of ?lens (rel n src dst g) \<and>
        position_of ?lens (rel n src dst g) < position_of ?lens c + ?L)"
    proof
      assume "shared src dst g \<and> position_of ?lens c \<le> position_of ?lens (rel n src dst g) \<and>
        position_of ?lens (rel n src dst g) < position_of ?lens c + ?L"
      then obtain j where "j < ?L" "g = map2 (+) ?lo (c[n := j])" using run_cells [OF m c, of g] by blast
      with shift [of j dst] False show False by simp
    qed
    with elt(2) [OF g] False show ?thesis by (simp only: bc if_False)
  qed
  moreover have "length data' = length data" using elt(1) [OF cur(2)] .
  ultimately show ?thesis using d off [of src] off [of dst] by auto
qed

lemma copy_loop_spec:
  assumes m: "boxes_meet n src dst" and len: "length data = length (nb_data dst)"
    and c: "in_shape (lens_of n src dst) c" "c ! n = 0"
  shows "\<exists>data'. copy_loop (Suc n) (overlap_lo (Suc n) src dst) (overlap_hi (Suc n) src dst) src
      (box_strides (nb_shape src)) (box_strides (nb_shape dst)) (run_len n src dst * nb_esize src)
      (map2 (+) (overlap_lo (Suc n) src dst) c) (dst\<lparr>nb_data := data\<rparr>) = Some (dst\<lparr>nb_data := data'\<rparr>) \<and>
    length data' = length data \<and>
    (\<forall>g. in_box dst g \<longrightarrow> box_cell (dst\<lparr>nb_data := data'\<rparr>) g =
      (if shared src dst g \<and> position_of (lens_of n src dst) c \<le> position_of (lens_of n src dst) (rel n src dst g)
       then box_cell src g else box_cell (dst\<lparr>nb_data := data\<rparr>) g))"
  using len c
proof (induction "prod_list (lens_of n src dst) - position_of (lens_of n src dst) c" arbitrary: c data rule: less_induct)
  case less
  let ?lo = "overlap_lo (Suc n) src dst" let ?hi = "overlap_hi (Suc n) src dst" let ?lens = "lens_of n src dst"
  let ?L = "run_len n src dst" let ?p = "\<lambda>g. position_of ?lens (rel n src dst g)"
  let ?loop = "copy_loop (Suc n) ?lo ?hi src (box_strides (nb_shape src)) (box_strides (nb_shape dst)) (?L * nb_esize src)"
  from copy_run [OF m less.prems] obtain data1 where
    d1: "copy_slice data
      (box_offset (Suc n) (map2 (+) ?lo c) (nb_origin dst) (box_strides (nb_shape dst)) * nb_esize src)
      (nb_data src) (box_offset (Suc n) (map2 (+) ?lo c) (nb_origin src) (box_strides (nb_shape src)) * nb_esize src)
      (?L * nb_esize src) = Some data1" and l1: "length data1 = length data"
    and s1: "\<forall>g. in_box dst g \<longrightarrow> box_cell (dst\<lparr>nb_data := data1\<rparr>) g =
      (if shared src dst g \<and> position_of ?lens c \<le> ?p g \<and> ?p g < position_of ?lens c + ?L
       then box_cell src g else box_cell (dst\<lparr>nb_data := data\<rparr>) g)" by blast
  have lens: "length ?lens = Suc n" "width ?lens n = ?L" and L: "0 < ?L"
    using m by (simp_all add: width_def Cons_nth_drop_Suc [symmetric] drop_zip boxes_meet_def run_len_def)
  have "box_tick ?lo ?hi (map2 (+) ?lo c) n = map_option (map2 (+) ?lo) (Chunks.tick ?lens c n)"
    by (rule box_tick_tick [OF less.prems(2)]) simp_all
  moreover have zero: "\<forall>i. n \<le> i \<longrightarrow> i < length ?lens \<longrightarrow> c ! i = 0"
    using less.prems(3) lens(1) by (metis le_antisym less_Suc_eq_le)
  ultimately have tick: "box_tick ?lo ?hi (map2 (+) ?lo c) n =
      (if position_of ?lens c + ?L < prod_list ?lens then Some (map2 (+) ?lo (bump ?lens c n)) else None)"
    using tick_bump [OF less.prems(2) _ zero] lens by simp
  have unf: "?loop (map2 (+) ?lo c) (dst\<lparr>nb_data := data\<rparr>) =
      (case box_tick ?lo ?hi (map2 (+) ?lo c) n of None \<Rightarrow> Some (dst\<lparr>nb_data := data1\<rparr>)
       | Some cur' \<Rightarrow> ?loop cur' (dst\<lparr>nb_data := data1\<rparr>))"
    by (subst copy_loop.simps) (simp add: d1 Let_def split: option.split)
  show ?case
  proof (cases "position_of ?lens c + ?L < prod_list ?lens")
    case True
    have b: "in_shape ?lens (bump ?lens c n)" "position_of ?lens (bump ?lens c n) = position_of ?lens c + ?L"
      using bump_next [OF less.prems(2) _ zero] lens True by auto
    have bn: "bump ?lens c n ! n = 0" using bump_above [of n n ?lens c] less.prems(3) by simp
    have smaller: "prod_list ?lens - position_of ?lens (bump ?lens c n) < prod_list ?lens - position_of ?lens c"
      using b(2) L True by linarith
    have l1': "length data1 = length (nb_data dst)" using l1 less.prems(1) by simp
    from less.hyps [OF smaller l1' b(1) bn] b(2) obtain data2 where
      d2: "?loop (map2 (+) ?lo (bump ?lens c n)) (dst\<lparr>nb_data := data1\<rparr>) = Some (dst\<lparr>nb_data := data2\<rparr>)"
      and l2: "length data2 = length data1"
      and s2: "\<forall>g. in_box dst g \<longrightarrow> box_cell (dst\<lparr>nb_data := data2\<rparr>) g =
        (if shared src dst g \<and> position_of ?lens c + ?L \<le> ?p g then box_cell src g else box_cell (dst\<lparr>nb_data := data1\<rparr>) g)"
      by auto
    have "\<forall>g. in_box dst g \<longrightarrow> box_cell (dst\<lparr>nb_data := data2\<rparr>) g =
        (if shared src dst g \<and> position_of ?lens c \<le> ?p g then box_cell src g else box_cell (dst\<lparr>nb_data := data\<rparr>) g)"
      using s1 s2 L by (auto simp: not_le)
    with unf tick True d2 l1 l2 show ?thesis by auto
  next
    case False
    have "\<not> (shared src dst g \<and> position_of ?lens c + ?L \<le> ?p g)" for g
      using False position_bound [of ?lens "rel n src dst g"] by (auto simp: shared_rel [OF m])
    then have "\<forall>g. in_box dst g \<longrightarrow> box_cell (dst\<lparr>nb_data := data1\<rparr>) g =
        (if shared src dst g \<and> position_of ?lens c \<le> ?p g then box_cell src g else box_cell (dst\<lparr>nb_data := data\<rparr>) g)"
      using s1 by (auto simp: not_le)
    with unf tick False l1 show ?thesis by auto
  qed
qed

lemma in_box_rank0: "length (nb_shape b) = 0 \<Longrightarrow> in_box b g \<longleftrightarrow> g = []"
  by (auto simp: in_box_def)

lemma copy_overlap_cells:
  assumes "box_ok src" "box_ok dst" "length (nb_shape src) = length (nb_shape dst)" "nb_esize src = nb_esize dst"
  shows "\<exists>data. copy_overlap src dst = Some (dst\<lparr>nb_data := data\<rparr>) \<and> length data = length (nb_data dst) \<and>
    (\<forall>g. in_box dst g \<longrightarrow>
      box_cell (dst\<lparr>nb_data := data\<rparr>) g = (if in_box src g then box_cell src g else box_cell dst g))"
proof (cases "length (nb_shape src)")
  case 0
  with assms show ?thesis
    by (intro exI [of _ "nb_data src"]) (auto simp: copy_overlap_def box_ok_def in_box_rank0 box_cell_def)
next
  case (Suc n)
  let ?lo = "overlap_lo (Suc n) src dst" let ?hi = "overlap_hi (Suc n) src dst"
  have l: "length (nb_shape dst) = Suc n" "length (nb_origin src) = Suc n" "length (nb_origin dst) = Suc n"
    using assms Suc by (simp_all add: box_ok_def)
  have co: "copy_overlap src dst = (if list_ex (\<lambda>d. ?hi ! d \<le> ?lo ! d) [0..<Suc n] then Some dst
      else copy_loop (Suc n) ?lo ?hi src (box_strides (nb_shape src)) (box_strides (nb_shape dst))
        (run_len n src dst * nb_esize src) ?lo dst)"
    by (simp add: copy_overlap_def Let_def Suc l run_len_def del: upt_Suc)
  show ?thesis
  proof (cases "\<exists>d\<le>n. ?hi ! d \<le> ?lo ! d")
    case True
    then have "list_ex (\<lambda>d. ?hi ! d \<le> ?lo ! d) [0..<Suc n]" by (auto simp: list_ex_iff less_Suc_eq_le simp del: upt_Suc)
    moreover have "\<not> in_box src g" if "in_box dst g" for g
    proof
      assume "in_box src g"
      with that Suc assms(3) have "?lo ! d \<le> g ! d" "g ! d < ?hi ! d" if "d \<le> n" for d
        using that by (auto simp: in_box_def overlap_lo_def overlap_hi_def nth_map_upt less_Suc_eq_le simp del: upt_Suc)
      with True show False by (meson le_less_trans less_le_trans less_irrefl)
    qed
    ultimately show ?thesis by (intro exI [of _ "nb_data dst"]) (simp add: co)
  next
    case False
    then have m: "boxes_meet n src dst" using assms Suc l(1) unfolding boxes_meet_def by (meson not_le)
    have no: "\<not> list_ex (\<lambda>d. ?hi ! d \<le> ?lo ! d) [0..<Suc n]"
      using False by (auto simp: list_ex_iff less_Suc_eq_le simp del: upt_Suc)
    have pos: "\<forall>d<Suc n. 0 < lens_of n src dst ! d" using m by (simp add: boxes_meet_def less_Suc_eq_le)
    let ?c = "replicate (Suc n) 0"
    have c: "in_shape (lens_of n src dst) ?c" "?c ! n = 0" using pos by (auto simp: in_shape_def nth_replicate simp del: replicate_Suc)
    have c0: "position_of (lens_of n src dst) ?c = 0"
      using zero_in_shape [of "lens_of n src dst"] c(1) position_bound [OF c(1)] by simp
    have start: "map2 (+) ?lo ?c = ?lo" by (rule nth_equalityI) (simp_all del: replicate_Suc)
    from copy_loop_spec [OF m _ c, of "nb_data dst"] no co c0 start show ?thesis
      by (auto simp: shared_def)
  qed
qed

end
