(* ===== verification/StreamCommit.thy ===== *)
theory StreamCommit
  imports StreamSchema "HOL-Library.Option_ord"
begin

text \<open>
  The committed state of a streamed store and the commit token (\<open>rust/src/format/zarr_stream.rs\<close>,
  \<open>CommitState\<close>, \<open>CommitToken\<close>, \<open>ZarrStreamWriter::verify\<close>): time shards, ranges of committed records, the
  wire form of a token, and what the owner checks before it commits.

  A refusal of \<open>verify\<close> is its text; \<open>None\<close> is a panic (an index out of range).
\<close>

section \<open>The committed state\<close>

record time_shard =
  sh_index :: nat
  sh_start :: f64
  sh_end :: f64
  sh_n :: nat

record entry =
  en_t :: f64
  en_committed :: bool
  en_generation :: nat

type_synonym blob_rec = "blob_scope \<times> nat \<times> string"

record commit_state =
  cm_seq :: nat
  cm_count :: nat
  cm_shards :: "time_shard list"
  cm_last_t :: "f64 option"
  cm_entries :: "entry list"
  cm_statics :: "(string \<times> bool \<times> nat) list"
  cm_blobs :: "blob_rec list"
  cm_writers :: "(nat \<times> region) list"

definition empty_state :: commit_state where
  "empty_state = \<lparr>cm_seq = 0, cm_count = 0, cm_shards = [], cm_last_t = None, cm_entries = [],
     cm_statics = [], cm_blobs = [], cm_writers = []\<rparr>"

definition push_append :: "nat \<Rightarrow> f64 \<Rightarrow> nat \<Rightarrow> commit_state \<Rightarrow> commit_state" where
  "push_append index t st cs =
     (let s = index div st; shards = cm_shards cs in
      cs\<lparr>cm_shards :=
           (if shards \<noteq> [] \<and> sh_index (last shards) = s
            then butlast shards @ [(last shards)\<lparr>sh_end := t, sh_n := sh_n (last shards) + 1\<rparr>]
            else shards @ [\<lparr>sh_index = s, sh_start = t, sh_end = t, sh_n = 1\<rparr>]),
         cm_last_t := Some t\<rparr>)"

definition rebuild_append_shards :: "f64 list \<Rightarrow> nat \<Rightarrow> commit_state \<Rightarrow> commit_state" where
  "rebuild_append_shards ts st cs =
     (fold (\<lambda>(i, t). push_append i t st) (enumerate 0 ts) (cs\<lparr>cm_shards := []\<rparr>))
       \<lparr>cm_count := length ts, cm_last_t := (if ts = [] then None else Some (last ts))\<rparr>"

definition push_indexed :: "nat \<Rightarrow> entry \<Rightarrow> nat \<Rightarrow> commit_state \<Rightarrow> commit_state" where
  "push_indexed i e st cs =
     (if \<not> en_committed e then cs
      else
        (let s = i div st; shards = cm_shards cs; t = en_t e in
         cs\<lparr>cm_shards :=
              (if shards \<noteq> [] \<and> sh_index (last shards) = s
               then butlast shards @ [(last shards)\<lparr>sh_start := f64_min (sh_start (last shards)) t,
                      sh_end := f64_max (sh_end (last shards)) t, sh_n := sh_n (last shards) + 1\<rparr>]
               else shards @ [\<lparr>sh_index = s, sh_start = t, sh_end = t, sh_n = 1\<rparr>]),
            cm_last_t := Some (case cm_last_t cs of None \<Rightarrow> t | Some m \<Rightarrow> f64_max m t)\<rparr>))"

definition rebuild_indexed_shards :: "nat \<Rightarrow> commit_state \<Rightarrow> commit_state" where
  "rebuild_indexed_shards st cs =
     fold (\<lambda>(i, e). push_indexed i e st) (enumerate 0 (cm_entries cs)) (cs\<lparr>cm_shards := [], cm_last_t := None\<rparr>)"

definition push_range :: "nat \<Rightarrow> (nat \<times> nat) list \<Rightarrow> (nat \<times> nat) list" where
  "push_range i out =
     (if out \<noteq> [] \<and> snd (last out) = i then butlast out @ [(fst (last out), i + 1)] else out @ [(i, i + 1)])"

definition committed_ranges :: "commit_state \<Rightarrow> bool \<Rightarrow> (nat \<times> nat) list" where
  "committed_ranges cs indexed =
     (if \<not> indexed then (if 0 < cm_count cs then [(0, cm_count cs)] else [])
      else fold (\<lambda>(i, e) out. if en_committed e then push_range i out else out) (enumerate 0 (cm_entries cs)) [])"

section \<open>The commit token\<close>

definition token_schema :: string where
  "token_schema = ''earthsciio/commit-token/v1''"

type_synonym token_blob = "string \<times> nat option \<times> string"

record commit_token =
  ct_schema :: string
  ct_writer :: nat
  ct_region :: region
  ct_fingerprint :: string
  ct_records :: "(nat \<times> f64) list"
  ct_statics :: "string list"
  ct_blobs :: "token_blob list"
  ct_objects :: "string list"

definition token_is_empty :: "commit_token \<Rightarrow> bool" where
  "token_is_empty t \<longleftrightarrow> ct_records t = [] \<and> ct_statics t = [] \<and> ct_blobs t = []"

definition json_region :: "region \<Rightarrow> json" where
  "json_region m = JObj (map (\<lambda>(d, a, b). (d, json_nats [a, b])) m)"

definition json_nat_opt :: "nat option \<Rightarrow> json" where
  "json_nat_opt x = (case x of None \<Rightarrow> JNull | Some n \<Rightarrow> json_nat n)"

definition token_json :: "f64_text \<Rightarrow> commit_token \<Rightarrow> json" where
  "token_json T t =
     JObj [(''schema'', JStr (ct_schema t)), (''writer'', json_nat (ct_writer t)),
       (''region'', json_region (ct_region t)), (''fingerprint'', JStr (ct_fingerprint t)),
       (''records'', JArr (map (\<lambda>(i, x). JObj [(''index'', json_nat i), (''t'', json_f64 T x)]) (ct_records t))),
       (''statics'', json_strs (ct_statics t)),
       (''blobs'', JArr (map (\<lambda>(s, r, k). JObj [(''scope'', JStr s), (''record'', json_nat_opt r), (''key'', JStr k)]) (ct_blobs t))),
       (''objects'', json_strs (ct_objects t))]"

text \<open>The derived reader: a member twice, missing (but for an option) or of another type is refused; other
  members are ignored.\<close>

fun all_some :: "('a \<Rightarrow> 'b option) \<Rightarrow> 'a list \<Rightarrow> 'b list option" where
  "all_some f [] = Some []"
| "all_some f (x # xs) = Option.bind (f x) (\<lambda>y. map_option ((#) y) (all_some f xs))"

definition only_once :: "string list \<Rightarrow> (string \<times> json) list \<Rightarrow> bool" where
  "only_once names m \<longleftrightarrow> distinct (filter (\<lambda>k. k \<in> set names) (map fst m))"

definition read_record_wire :: "f64_text \<Rightarrow> json \<Rightarrow> (nat \<times> f64) option" where
  "read_record_wire T v =
     (case v of
        JObj m \<Rightarrow>
          if only_once [''index'', ''t''] m then
            Option.bind (Option.bind (map_of m ''index'') as_u64) (\<lambda>i.
            Option.bind (Option.bind (map_of m ''t'') (as_f64 T)) (\<lambda>t. Some (i, t)))
          else None
      | _ \<Rightarrow> None)"

definition read_opt_u64 :: "json option \<Rightarrow> nat option option" where
  "read_opt_u64 v =
     (case v of None \<Rightarrow> Some None | Some JNull \<Rightarrow> Some None | Some x \<Rightarrow> map_option Some (as_u64 x))"

definition read_blob_wire :: "json \<Rightarrow> token_blob option" where
  "read_blob_wire v =
     (case v of
        JObj m \<Rightarrow>
          if only_once [''scope'', ''record'', ''key''] m then
            Option.bind (Option.bind (map_of m ''scope'') as_str) (\<lambda>s.
            Option.bind (read_opt_u64 (map_of m ''record'')) (\<lambda>r.
            Option.bind (Option.bind (map_of m ''key'') as_str) (\<lambda>k. Some (s, r, k))))
          else None
      | _ \<Rightarrow> None)"

definition read_pair :: "string \<times> json \<Rightarrow> (string \<times> nat \<times> nat) option" where
  "read_pair kv =
     (case snd kv of
        JArr [x, y] \<Rightarrow> Option.bind (as_u64 x) (\<lambda>a. Option.bind (as_u64 y) (\<lambda>b. Some (fst kv, a, b)))
      | _ \<Rightarrow> None)"

definition read_region_wire :: "json \<Rightarrow> region option" where
  "read_region_wire v = Option.bind (as_object v) (\<lambda>m. map_option bt_of_list (all_some read_pair m))"

definition read_list :: "(json \<Rightarrow> 'a option) \<Rightarrow> json \<Rightarrow> 'a list option" where
  "read_list f v = Option.bind (as_array v) (all_some f)"

definition token_names :: "string list" where
  "token_names = [''schema'', ''writer'', ''region'', ''fingerprint'', ''records'', ''statics'', ''blobs'', ''objects'']"

definition token_of_json :: "f64_text \<Rightarrow> json \<Rightarrow> commit_token option" where
  "token_of_json T v =
     (case v of
        JObj m \<Rightarrow>
          if only_once token_names m then
            Option.bind (Option.bind (map_of m ''schema'') as_str) (\<lambda>sc.
            Option.bind (Option.bind (map_of m ''writer'') as_u64) (\<lambda>w.
            Option.bind (Option.bind (map_of m ''region'') read_region_wire) (\<lambda>r.
            Option.bind (Option.bind (map_of m ''fingerprint'') as_str) (\<lambda>f.
            Option.bind (Option.bind (map_of m ''records'') (read_list (read_record_wire T))) (\<lambda>rs.
            Option.bind (Option.bind (map_of m ''statics'') (read_list as_str)) (\<lambda>ss.
            Option.bind (Option.bind (map_of m ''blobs'') (read_list read_blob_wire)) (\<lambda>bs.
            Option.bind (Option.bind (map_of m ''objects'') (read_list as_str)) (\<lambda>os.
              Some \<lparr>ct_schema = sc, ct_writer = w, ct_region = r, ct_fingerprint = f, ct_records = rs,
                ct_statics = ss, ct_blobs = bs, ct_objects = os\<rparr>))))))))
          else None
      | _ \<Rightarrow> None)"

definition token_to_text :: "(json \<Rightarrow> string) \<Rightarrow> f64_text \<Rightarrow> commit_token \<Rightarrow> string" where
  "token_to_text print T t = print (token_json T t)"

definition token_from_text :: "serde_api \<Rightarrow> f64_text \<Rightarrow> string \<Rightarrow> commit_token result" where
  "token_from_text api T s =
     (case sj_parse api s of
        Inl e \<Rightarrow> Inl (zerr (''bad commit token: '' @ e))
      | Inr v \<Rightarrow>
          (case token_of_json T v of
             None \<Rightarrow> Inl (zerr (''bad commit token: '' @ sj_refusal api v))
           | Some t \<Rightarrow>
               if ct_schema t \<noteq> token_schema then
                 Inl (zerr (''commit token schema '' @ sq (ct_schema t) @ '' != '' @ sq token_schema))
               else Inr t))"

section \<open>What the owner verifies\<close>

type_synonym verdict = "(string + unit) option"

definition refuse :: "string \<Rightarrow> verdict" where
  "refuse detail = Some (Inl detail)"

text \<open>The first verdict that is not acceptance.\<close>

fun first_bad :: "('a \<Rightarrow> verdict) \<Rightarrow> 'a list \<Rightarrow> verdict" where
  "first_bad f [] = Some (Inr ())"
| "first_bad f (x # xs) = (case f x of Some (Inr _) \<Rightarrow> first_bad f xs | v \<Rightarrow> v)"

definition also_check :: "verdict \<Rightarrow> verdict \<Rightarrow> verdict" where
  "also_check v w = (case v of Some (Inr _) \<Rightarrow> w | _ \<Rightarrow> v)"

definition writer_count :: "role \<Rightarrow> nat" where
  "writer_count r = (case r of Owner n \<Rightarrow> n | _ \<Rightarrow> 1)"

fun by_writer :: "nat \<Rightarrow> commit_token list \<Rightarrow> (nat \<times> commit_token) list \<Rightarrow> string + (nat \<times> commit_token) list" where
  "by_writer n [] m = Inr m"
| "by_writer n (t # ts) m =
     (if n \<le> ct_writer t then
        Inl (''token from writer '' @ show_nat (ct_writer t) @ '' but n_writers = '' @ show_nat n)
      else if has_key (ct_writer t) m then Inl (''two tokens from writer '' @ show_nat (ct_writer t))
      else by_writer n ts (bt_put (ct_writer t) t m))"

definition dbg_join :: "string \<Rightarrow> string \<Rightarrow> string list \<Rightarrow> string" where
  "dbg_join l r xs = l @ join_with '', '' xs @ r"

definition dbg_region :: "region \<Rightarrow> string" where
  "dbg_region m = dbg_join ''{'' ''}'' (map (\<lambda>(d, a, b). dbg_str d @ '': ['' @ show_nat a @ '', '' @ show_nat b @ '']'') m)"

definition dbg_records :: "f64_text \<Rightarrow> (nat \<times> f64) list \<Rightarrow> string" where
  "dbg_records T rs = dbg_join ''['' '']'' (map (\<lambda>(i, t). ''('' @ show_nat i @ '', '' @ ft_debug T t @ '')'') rs)"

definition check_print :: "string \<Rightarrow> commit_token \<Rightarrow> verdict" where
  "check_print own t =
     (if ct_fingerprint t \<noteq> own then
        refuse (''writer '' @ show_nat (ct_writer t) @ '' has schema fingerprint '' @ ct_fingerprint t
          @ '' != the owner'' @ [CHR 0x27] @ ''s '' @ own)
      else Some (Inr ()))"

definition region_dims :: "commit_token \<Rightarrow> string list" where
  "region_dims t = map fst (ct_region t)"

definition check_token_region :: "stream_schema \<Rightarrow> commit_token \<Rightarrow> commit_token \<Rightarrow> verdict" where
  "check_token_region s t0 t =
     (if region_dims t \<noteq> region_dims t0 then
        refuse (''writer '' @ show_nat (ct_writer t) @ '' names region dims '' @ dbg_list (region_dims t)
          @ '', writer '' @ show_nat (ct_writer t0) @ '' names '' @ dbg_list (region_dims t0))
      else
        (case validate_region s (ct_region t) of
           None \<Rightarrow> None
         | Some (Inl e) \<Rightarrow> refuse (''writer '' @ show_nat (ct_writer t) @ '': '' @ error_text e)
         | Some (Inr u) \<Rightarrow> Some (Inr ())))"

text \<open>The range of a region on a dimension it names.\<close>

definition range_of :: "commit_token \<Rightarrow> string \<Rightarrow> nat \<times> nat" where
  "range_of t d = the (map_of (ct_region t) d)"

definition regions_meet :: "string list \<Rightarrow> commit_token \<Rightarrow> commit_token \<Rightarrow> bool" where
  "regions_meet rdims a b \<longleftrightarrow>
     list_all (\<lambda>d. max (fst (range_of a d)) (fst (range_of b d)) < min (snd (range_of a d)) (snd (range_of b d))) rdims"

fun check_disjoint :: "string list \<Rightarrow> commit_token list \<Rightarrow> verdict" where
  "check_disjoint rdims [] = Some (Inr ())"
| "check_disjoint rdims (a # ts) =
     (case find (regions_meet rdims a) ts of
        Some b \<Rightarrow>
          refuse (''regions overlap: writer '' @ show_nat (ct_writer a) @ '' '' @ dbg_region (ct_region a)
            @ '' and writer '' @ show_nat (ct_writer b) @ '' '' @ dbg_region (ct_region b))
      | None \<Rightarrow> check_disjoint rdims ts)"

definition volume :: "string list \<Rightarrow> commit_token \<Rightarrow> nat" where
  "volume rdims t = prod_list (map (\<lambda>d. snd (range_of t d) - fst (range_of t d)) rdims)"

definition check_cover :: "(string \<times> nat) list \<Rightarrow> string list \<Rightarrow> commit_token list \<Rightarrow> verdict" where
  "check_cover dim_len rdims ts =
     (case all_some (map_of dim_len) rdims of
        None \<Rightarrow> None
      | Some lens \<Rightarrow>
          (let covered = sum_list (map (volume rdims) ts); whole = prod_list lens in
           if covered \<noteq> whole then
             refuse (''regions leave a gap: they cover '' @ show_nat covered @ '' of '' @ show_nat whole @ '' cells over ''
               @ dbg_list rdims @ '' ('' @ join_with '', '' (map (\<lambda>t. ''writer '' @ show_nat (ct_writer t) @ '' '' @ dbg_region (ct_region t)) ts)
               @ '')'')
           else Some (Inr ())))"

definition check_same_records :: "f64_text \<Rightarrow> commit_token \<Rightarrow> commit_token \<Rightarrow> verdict" where
  "check_same_records T t0 t =
     (if ct_records t \<noteq> ct_records t0 then
        refuse (''writer '' @ show_nat (ct_writer t) @ '' carries records '' @ dbg_records T (ct_records t)
          @ '', writer '' @ show_nat (ct_writer t0) @ '' carries '' @ dbg_records T (ct_records t0))
      else Some (Inr ()))"

definition check_prefix :: "nat \<Rightarrow> nat \<times> nat \<times> f64 \<Rightarrow> verdict" where
  "check_prefix count x =
     (case x of (k, i, t) \<Rightarrow>
        if i \<noteq> count + k then
          refuse (''append records must continue the committed prefix: got index '' @ show_nat i @ '', expected ''
            @ show_nat (count + k))
        else Some (Inr ()))"

definition check_indexed :: "f64_text \<Rightarrow> nat \<Rightarrow> entry list \<Rightarrow> nat \<times> f64 \<Rightarrow> verdict" where
  "check_indexed T n entries x =
     (case x of (i, t) \<Rightarrow>
        if n \<le> i then refuse (''record index '' @ show_nat i @ '' out of range (n_records = '' @ show_nat n @ '')'')
        else if length entries \<le> i then None
        else if en_t (entries ! i) \<noteq> t then
          refuse (''record '' @ show_nat i @ '': t = '' @ ft_display T t @ '' != times['' @ show_nat i @ ''] = ''
            @ ft_display T (en_t (entries ! i)))
        else if en_committed (entries ! i) then
          refuse (''record '' @ show_nat i @ '' is already committed (invalidate it first)'')
        else Some (Inr ()))"

definition check_static_token :: "string \<Rightarrow> bool \<Rightarrow> commit_token \<Rightarrow> verdict" where
  "check_static_token name part t =
     (let has = name \<in> set (ct_statics t) in
      if part \<and> \<not> has then
        refuse (''static '' @ sq name @ '' is partitioned but writer '' @ show_nat (ct_writer t) @ '' did not write it'')
      else if \<not> part \<and> has \<and> ct_writer t \<noteq> 0 then
        refuse (''static '' @ sq name @ '' is replicated but writer '' @ show_nat (ct_writer t) @ '' wrote it'')
      else Some (Inr ()))"

definition static_committed_in :: "commit_state \<Rightarrow> string \<Rightarrow> bool" where
  "static_committed_in cs name = (case map_of (cm_statics cs) name of Some (c, g) \<Rightarrow> c | None \<Rightarrow> False)"

definition check_static :: "stream_schema \<Rightarrow> commit_state \<Rightarrow> string list \<Rightarrow> commit_token list \<Rightarrow> string \<Rightarrow> verdict" where
  "check_static s cs rdims ts name =
     (case find (\<lambda>v. sv_name v = name) (ss_statics s) of
        None \<Rightarrow> refuse (''unknown static '' @ sq name)
      | Some v \<Rightarrow>
          if static_committed_in cs name then refuse (''static '' @ sq name @ '' is already committed (invalidate it first)'')
          else first_bad (check_static_token name (list_ex (\<lambda>d. d \<in> set rdims) (sv_dims v))) ts)"

definition check_blob :: "nat \<Rightarrow> token_blob \<Rightarrow> verdict" where
  "check_blob writer b =
     (case b of (sc, r, k) \<Rightarrow>
        (case scope_from_wire sc r of
           Inl e \<Rightarrow> refuse (''writer '' @ show_nat writer @ '': '' @ error_text e)
         | Inr x \<Rightarrow> Some (Inr ())))"

definition check_records :: "f64_text \<Rightarrow> geometry \<Rightarrow> commit_state \<Rightarrow> (nat \<times> f64) list \<Rightarrow> verdict" where
  "check_records T g cs recs =
     (case n_indexed g of
        None \<Rightarrow> first_bad (check_prefix (cm_count cs)) (enumerate 0 recs)
      | Some n \<Rightarrow> first_bad (check_indexed T n (cm_entries cs)) recs)"

definition verify_tokens :: "f64_text \<Rightarrow> geometry \<Rightarrow> string \<Rightarrow> commit_state \<Rightarrow> commit_token list \<Rightarrow> verdict" where
  "verify_tokens T g own cs ts =
     (case ts of
        [] \<Rightarrow> None
      | t0 # rest \<Rightarrow>
          (let s = g_schema g; rdims = region_dims t0 in
           also_check (first_bad (check_print own) ts)
          (also_check (first_bad (check_token_region s t0) ts)
          (also_check (check_disjoint rdims ts)
          (also_check (check_cover (g_dim_len g) rdims ts)
          (also_check (first_bad (check_same_records T t0) rest)
          (also_check (check_records T g cs (ct_records t0))
          (also_check (first_bad (check_static s cs rdims ts) (bs_extend (concat (map ct_statics ts)) []))
             (first_bad (\<lambda>t. first_bad (check_blob (ct_writer t)) (ct_blobs t)) ts)))))))))"

definition verify :: "f64_text \<Rightarrow> geometry \<Rightarrow> role \<Rightarrow> string \<Rightarrow> commit_state \<Rightarrow> commit_token list \<Rightarrow> verdict" where
  "verify T g r own cs toks =
     (let n = writer_count r in
      case by_writer n toks [] of
        Inl e \<Rightarrow> refuse e
      | Inr m \<Rightarrow>
          (case find (\<lambda>i. \<not> has_key i m) [0..<n] of
             Some i \<Rightarrow> refuse (''no token from writer '' @ show_nat i)
           | None \<Rightarrow> verify_tokens T g own cs (map snd m)))"

end
