(* ===== verification/StreamStore.thy ===== *)
theory StreamStore
  imports StreamBoxes StreamCommit Effects
begin

text \<open>
  The store under the streaming writer (\<open>rust/src/format/zarr_stream.rs\<close>): JSON documents, array handles that
  exist only in memory, the write of a box as whole shards and its reload, and the read-back of committed data.

  The store and the \<open>zarrs\<close> library are the record \<open>stream_env\<close>: keys, objects, array metadata \<open>'m\<close>, opened
  arrays \<open>'h\<close>, shards and subsets of them, with the text of what each refuses. Every write may fail.
\<close>

section \<open>The store and the array library\<close>

record ('s, 'm, 'h) stream_env =
  se_key :: "string \<Rightarrow> string + unit"
  se_get :: "string \<Rightarrow> ('s, string option) storage_op"
  se_set :: "string \<Rightarrow> string \<Rightarrow> ('s, unit) storage_op"
  se_metadata :: "json \<Rightarrow> string + 'm"
  se_new :: "string \<Rightarrow> 'm \<Rightarrow> string + 'h"
  se_open :: "string \<Rightarrow> ('s, 'h) storage_op"
  se_store_metadata :: "'h \<Rightarrow> ('s, unit) storage_op"
  se_store_all :: "'h \<Rightarrow> f64 list \<Rightarrow> ('s, unit) storage_op"
  se_store_chunk :: "'h \<Rightarrow> nat list \<Rightarrow> typed_array \<Rightarrow> ('s, unit) storage_op"
  se_retrieve :: "'h \<Rightarrow> (nat \<times> nat) list \<Rightarrow> stream_dtype \<Rightarrow> ('s, typed_array) storage_op"
  se_api :: serde_api
  se_text :: f64_text
  se_digest :: "string \<Rightarrow> string"
  se_now :: "'s \<Rightarrow> string"
  se_subset :: "(nat \<times> nat) list \<Rightarrow> string"

definition lift_op :: "(string \<Rightarrow> error) \<Rightarrow> ('s, 'a) storage_op \<Rightarrow> ('s, 'a) io" where
  "lift_op f op s = (case op s of (Inl e, s') \<Rightarrow> Some (Inl (f e), s') | (Inr x, s') \<Rightarrow> Some (Inr x, s'))"

definition lift_sum :: "(string \<Rightarrow> error) \<Rightarrow> string + 'a \<Rightarrow> ('s, 'a) io" where
  "lift_sum f r = of_result (case r of Inl e \<Rightarrow> Inl (f e) | Inr x \<Rightarrow> Inr x)"

definition set_json :: "('s, 'm, 'h) stream_env \<Rightarrow> string \<Rightarrow> json \<Rightarrow> ('s, unit) io" where
  "set_json E key v =
     bindI (lift_sum (\<lambda>e. zerr (''invalid store key '' @ sq key @ '': '' @ e)) (se_key E key)) (\<lambda>_.
       lift_op (\<lambda>e. zerr (''write '' @ key @ '': '' @ e)) (se_set E key (sj_pretty (se_api E) v)))"

definition get_json :: "('s, 'm, 'h) stream_env \<Rightarrow> string \<Rightarrow> ('s, json option) io" where
  "get_json E key =
     bindI (lift_sum (\<lambda>e. zerr (''invalid store key '' @ sq key @ '': '' @ e)) (se_key E key)) (\<lambda>_.
     bindI (lift_op (\<lambda>e. zerr (''read '' @ key @ '': '' @ e)) (se_get E key)) (\<lambda>b.
       case b of
         None \<Rightarrow> ret None
       | Some text \<Rightarrow>
           bindI (lift_sum (\<lambda>e. zerr (''parse '' @ key @ '': '' @ e)) (sj_parse (se_api E) text)) (\<lambda>v. ret (Some v))))"

definition array_from_meta :: "('s, 'm, 'h) stream_env \<Rightarrow> string \<Rightarrow> json \<Rightarrow> 'h result" where
  "array_from_meta E name meta =
     (case se_metadata E meta of
        Inl e \<Rightarrow> Inl (zerr (''array '' @ sq name @ '' metadata is not valid v3: '' @ e))
      | Inr md \<Rightarrow>
          (case se_new E (''/'' @ name) md of
             Inl e \<Rightarrow> Inl (zerr (''build zarr array '' @ sq name @ '': '' @ e))
           | Inr h \<Rightarrow> Inr h))"

definition dbg_index :: "nat list \<Rightarrow> string" where
  "dbg_index idx = dbg_join ''['' '']'' (map show_nat idx)"

definition store_chunk_bytes ::
    "('s, 'm, 'h) stream_env \<Rightarrow> 'h \<Rightarrow> nat list \<Rightarrow> stream_dtype \<Rightarrow> 8 word list \<Rightarrow> ('s, unit) io" where
  "store_chunk_bytes E h idx dt b =
     lift_op (\<lambda>e. zerr (''write shard '' @ dbg_index idx @ '': '' @ e)) (se_store_chunk E h idx (from_ne_bytes dt b))"

definition retrieve :: "('s, 'm, 'h) stream_env \<Rightarrow> 'h \<Rightarrow> (nat \<times> nat) list \<Rightarrow> stream_dtype \<Rightarrow> ('s, typed_array) io" where
  "retrieve E h ranges dt =
     lift_op (\<lambda>e. zerr (''read '' @ se_subset E ranges @ '': '' @ e)) (se_retrieve E h ranges dt)"

section \<open>Boxes in the store\<close>

text \<open>The shape of an array whose time extent is \<open>ext\<close>; \<open>None\<close>: a dimension the schema has not.\<close>

definition array_shape_of :: "geometry \<Rightarrow> string list \<Rightarrow> nat \<Rightarrow> nat list option" where
  "array_shape_of g dims ext = all_some (\<lambda>d. if is_time g d then Some ext else map_of (g_dim_len g) d) dims"

definition array_handle ::
    "('s, 'm, 'h) stream_env \<Rightarrow> geometry \<Rightarrow> string \<Rightarrow> string list \<Rightarrow> stream_dtype \<Rightarrow> nat \<Rightarrow> 'h result option" where
  "array_handle E g name dims dt ext =
     map_option (\<lambda>shape.
       bindR (array_meta dims shape (ss_chunk (g_schema g)) (ss_shard (g_schema g)) dt (g_codec g) []) (array_from_meta E name))
       (array_shape_of g dims ext)"

definition shard_key :: "string \<Rightarrow> nat list \<Rightarrow> string" where
  "shard_key name idx = (if idx = [] then name @ ''/c'' else name @ ''/c/'' @ join_with ''/'' (map show_nat idx))"

definition div_ceil :: "nat \<Rightarrow> nat \<Rightarrow> nat" where
  "div_ceil a b = (a + b - 1) div b"

definition shard_ranges :: "nat list \<Rightarrow> nd_buf \<Rightarrow> (nat \<times> nat) list" where
  "shard_ranges sz buf =
     map (\<lambda>(s, o', n). (o' div s, div_ceil (o' + n) s)) (zip sz (zip (nb_origin buf) (nb_shape buf)))"

definition shard_of_box :: "nat list \<Rightarrow> stream_dtype \<Rightarrow> nd_buf \<Rightarrow> nat list \<Rightarrow> nd_buf option" where
  "shard_of_box sz dt buf idx = copy_overlap buf (nd_zeros (map2 (*) idx sz) sz (dtype_size dt))"

fun write_shards ::
    "('s, 'm, 'h) stream_env \<Rightarrow> 'h \<Rightarrow> string \<Rightarrow> nat list \<Rightarrow> stream_dtype \<Rightarrow> nd_buf \<Rightarrow> nat list list \<Rightarrow> ('s, string list) io" where
  "write_shards E h name sz dt buf [] = ret []"
| "write_shards E h name sz dt buf (idx # rest) =
     bindI (or_panic (shard_of_box sz dt buf idx)) (\<lambda>chunk.
     bindI (store_chunk_bytes E h idx dt (nb_data chunk)) (\<lambda>_.
     bindI (write_shards E h name sz dt buf rest) (\<lambda>keys. ret (shard_key name idx # keys))))"

definition write_box ::
    "('s, 'm, 'h) stream_env \<Rightarrow> geometry \<Rightarrow> string \<Rightarrow> string list \<Rightarrow> stream_dtype \<Rightarrow> nd_buf \<Rightarrow> nat \<Rightarrow> ('s, string list) io" where
  "write_box E g name dims dt buf ext =
     bindI (of_checked (array_handle E g name dims dt ext)) (\<lambda>h.
     bindI (or_panic (all_some (map_of (ss_shard (g_schema g))) dims)) (\<lambda>sz.
       if 0 \<in> set sz then (\<lambda>s. None)
       else write_shards E h name sz dt buf (range_product (shard_ranges sz buf))))"

definition reload_ranges :: "geometry \<Rightarrow> string list \<Rightarrow> nd_buf \<Rightarrow> nat \<Rightarrow> (nat \<times> nat) list" where
  "reload_ranges g dims buf limit =
     map (\<lambda>(d, o', n). (o', if is_time g d then max (min (o' + n) limit) o' else o' + n))
       (zip dims (zip (nb_origin buf) (nb_shape buf)))"

definition reload_box ::
    "('s, 'm, 'h) stream_env \<Rightarrow> geometry \<Rightarrow> string \<Rightarrow> string list \<Rightarrow> stream_dtype \<Rightarrow> nd_buf \<Rightarrow> nat \<Rightarrow> ('s, nd_buf) io" where
  "reload_box E g name dims dt buf limit =
     (let ranges = reload_ranges g dims buf limit in
      if list_ex (\<lambda>(a, b). b \<le> a) ranges then ret buf
      else
        bindI (of_checked (array_handle E g name dims dt limit)) (\<lambda>h.
        bindI (retrieve E h ranges dt) (\<lambda>got.
          or_panic (copy_overlap
            \<lparr>nb_origin = map fst ranges, nb_shape = map (\<lambda>(a, b). b - a) ranges, nb_esize = dtype_size dt,
             nb_data = to_ne_bytes got\<rparr> buf))))"

section \<open>Reading back committed data\<close>

definition manifest_key :: string where
  "manifest_key = ''output_manifest.json''"

definition output_manifest_v1 :: string where
  "output_manifest_v1 = ''earthsciio/output-manifest/v1''"

definition output_manifest_v2 :: string where
  "output_manifest_v2 = ''earthsciio/output-manifest/v2''"

definition read_output_manifest :: "('s, 'm, 'h) stream_env \<Rightarrow> ('s, json) io" where
  "read_output_manifest E =
     bindI (get_json E manifest_key) (\<lambda>m. of_result (ok_or (zerr ''the store has no output_manifest.json'') m))"

definition in_wire_range :: "nat \<Rightarrow> json \<Rightarrow> bool" where
  "in_wire_range i r =
     ((case as_u64 (element_of r 0) of Some a \<Rightarrow> a \<le> i | None \<Rightarrow> False) \<and>
      (case as_u64 (element_of r 1) of Some b \<Rightarrow> i < b | None \<Rightarrow> False))"

definition record_is_committed :: "json \<Rightarrow> nat \<Rightarrow> bool" where
  "record_is_committed m i =
     (if member_of m ''schema'' = JStr output_manifest_v1 then
        (case (case as_u64 (member_of m ''n_records'') of Some n \<Rightarrow> Some n | None \<Rightarrow> as_u64 (member_of m ''total_records'')) of
           Some n \<Rightarrow> i < n | None \<Rightarrow> False)
      else
        (case as_array (member_of (member_of m ''records'') ''committed'') of
           Some rs \<Rightarrow> list_ex (in_wire_range i) rs
         | None \<Rightarrow> False))"

definition read_strings :: "json \<Rightarrow> string list option" where
  "read_strings v = read_list as_str v"

definition box_range :: "(string \<times> nat) option \<Rightarrow> region \<Rightarrow> string \<times> nat \<Rightarrow> (nat \<times> nat) result" where
  "box_range time reg x =
     (case x of (d, len) \<Rightarrow>
        if map_option fst time = Some d then Inr (snd (the time), snd (the time) + 1)
        else
          (case map_of reg d of
             None \<Rightarrow> Inr (0, len)
           | Some (a, b) \<Rightarrow>
               if a < b \<and> b \<le> len then Inr (a, b)
               else Inl (zerr (''region '' @ d @ '' ['' @ show_nat a @ '', '' @ show_nat b @ '') is outside [0, '' @ show_nat len @ '')''))))"

definition read_box ::
    "('s, 'm, 'h) stream_env \<Rightarrow> string \<Rightarrow> (string \<times> nat) option \<Rightarrow> region \<Rightarrow> ('s, typed_array) io" where
  "read_box E name time region =
     bindI (get_json E (name @ ''/zarr.json'')) (\<lambda>doc.
     bindI (of_result (ok_or (zerr (''no array '' @ sq name @ '' in the store'')) doc)) (\<lambda>meta.
     bindI (of_result (ok_or (zerr (''array '' @ sq name @ '' has no dimension_names'')) (read_strings (member_of meta ''dimension_names'')))) (\<lambda>dims.
     bindI (of_result (ok_or (zerr (''array '' @ sq name @ '' has no shape'')) (read_list as_u64 (member_of meta ''shape'')))) (\<lambda>shape.
     bindI (of_result (dtype_parse (case as_str (member_of meta ''data_type'') of Some s \<Rightarrow> s | None \<Rightarrow> []))) (\<lambda>dt.
     bindI (of_result (region_to_map region)) (\<lambda>reg.
     bindI (of_result (each (box_range time reg) (zip dims shape))) (\<lambda>ranges.
     bindI (lift_op (\<lambda>e. zerr (''open array '' @ sq name @ '': '' @ e)) (se_open E (''/'' @ name))) (\<lambda>h.
       retrieve E h ranges dt))))))))"

definition stream_read_record ::
    "('s, 'm, 'h) stream_env \<Rightarrow> string \<Rightarrow> nat \<Rightarrow> region \<Rightarrow> ('s, typed_array) io" where
  "stream_read_record E var i region =
     bindI (read_output_manifest E) (\<lambda>m.
       if \<not> record_is_committed m i then fail (zerr (''record '' @ show_nat i @ '' is not committed''))
       else
         (let td = (case as_str (member_of m ''time_dim'') of Some s \<Rightarrow> s | None \<Rightarrow> []) in
          read_box E var (Some (td, i)) region))"

definition stream_read_static :: "('s, 'm, 'h) stream_env \<Rightarrow> string \<Rightarrow> region \<Rightarrow> ('s, typed_array) io" where
  "stream_read_static E name region =
     bindI (read_output_manifest E) (\<lambda>m.
       let committed =
         (case as_array (member_of m ''statics'') of
            Some a \<Rightarrow> list_ex (\<lambda>s. member_of s ''name'' = JStr name \<and> member_of s ''committed'' = JBool True) a
          | None \<Rightarrow> False) in
       if \<not> committed then fail (zerr (''static '' @ sq name @ '' is not committed''))
       else read_box E name None region)"

definition stream_read_blob :: "('s, 'm, 'h) stream_env \<Rightarrow> blob_scope \<Rightarrow> nat \<Rightarrow> string \<Rightarrow> ('s, string) io" where
  "stream_read_blob E scope writer key =
     bindI (read_output_manifest E) (\<lambda>m.
       let (sc, rec) = scope_wire scope;
           committed =
             (case as_array (member_of m ''blobs'') of
                Some a \<Rightarrow> list_ex (\<lambda>b. member_of b ''scope'' = JStr sc \<and> as_u64 (member_of b ''record'') = rec \<and>
                   as_u64 (member_of b ''writer'') = Some writer \<and> member_of b ''key'' = JStr key) a
              | None \<Rightarrow> False) in
       if \<not> committed then
         fail (zerr (''blob '' @ sc @ ''/'' @ dbg_nat_opt rec @ ''/'' @ show_nat writer @ ''/'' @ key @ '' is not committed''))
       else
         (let path = scope_key scope writer key in
          bindI (lift_sum (\<lambda>e. zerr (''invalid blob key '' @ sq path @ '': '' @ e)) (se_key E path)) (\<lambda>_.
          bindI (lift_op (\<lambda>e. zerr (''read '' @ path @ '': '' @ e)) (se_get E path)) (\<lambda>b.
            of_result (ok_or (zerr (''committed blob '' @ path @ '' is missing from the store'')) b)))))"

end
