(* ===== verification/StreamManifest.thy ===== *)
theory StreamManifest
  imports StreamStore
begin

text \<open>
  The output manifest of a streamed store (\<open>rust/src/format/zarr_stream.rs\<close>, \<open>manifest_json\<close> and
  \<open>from_manifest\<close>): the document the owner writes last, and the schema, the version and the committed state that a
  writer rebuilds from it.
\<close>

section \<open>The document\<close>

datatype version = V1 | V2

definition var_entry :: "stream_var \<Rightarrow> (string \<times> json) list" where
  "var_entry v =
     [(''name'', JStr (sv_name v)), (''dims'', json_strs (sv_dims v)), (''dtype'', JStr (dtype_name (sv_dtype v)))]
       @ (if sv_attrs v = [] then [] else [(''attrs'', JObj (sv_attrs v))])"

definition shard_json :: "f64_text \<Rightarrow> time_shard \<Rightarrow> json" where
  "shard_json T t =
     JObj [(''index'', json_nat (sh_index t)), (''t_start'', json_f64 T (sh_start t)), (''t_end'', json_f64 T (sh_end t)),
       (''n'', json_nat (sh_n t))]"

definition entry_json :: "f64_text \<Rightarrow> nat \<times> entry \<Rightarrow> json" where
  "entry_json T x =
     (case x of (i, e) \<Rightarrow>
        JObj [(''index'', json_nat i), (''t'', json_f64 T (en_t e)), (''committed'', JBool (en_committed e)),
          (''generation'', json_nat (en_generation e))])"

definition records_json :: "f64_text \<Rightarrow> commit_state \<Rightarrow> bool \<Rightarrow> json" where
  "records_json T cs indexed =
     JObj ((''committed'', JArr (map (\<lambda>(a, b). json_nats [a, b]) (committed_ranges cs indexed))) #
       (if indexed then [(''entries'', JArr (map (entry_json T) (enumerate 0 (cm_entries cs))))] else []))"

definition static_json :: "commit_state \<Rightarrow> stream_var \<Rightarrow> json" where
  "static_json cs v =
     (let (c, g) = (case map_of (cm_statics cs) (sv_name v) of Some x \<Rightarrow> x | None \<Rightarrow> (False, 0)) in
      JObj (var_entry v @ [(''committed'', JBool c), (''generation'', json_nat g)]))"

definition blob_order :: "blob_rec \<Rightarrow> (string \<times> nat option) \<times> nat \<times> string" where
  "blob_order b = (case b of (s, w, k) \<Rightarrow> (scope_wire s, w, k))"

definition blob_json :: "blob_rec \<Rightarrow> json" where
  "blob_json b =
     (case b of (s, w, k) \<Rightarrow>
        JObj [(''scope'', JStr (fst (scope_wire s))), (''record'', json_nat_opt (snd (scope_wire s))),
          (''writer'', json_nat w), (''key'', JStr k)])"

definition manifest_doc ::
    "f64_text \<Rightarrow> geometry \<Rightarrow> string \<Rightarrow> version \<Rightarrow> string \<Rightarrow> commit_state \<Rightarrow> string \<Rightarrow> json" where
  "manifest_doc T g base v fingerprint cs created =
     (let s = g_schema g; indexed = n_indexed g;
          n = (case indexed of Some k \<Rightarrow> k | None \<Rightarrow> cm_count cs) in
      JObj (
        [(''schema'', JStr (if v = V1 then output_manifest_v1 else output_manifest_v2)),
         (''base_url'', JStr base), (''format'', JStr ''zarr''), (''zarr_format'', JInt 3),
         (''profile'', JStr (ss_profile s)), (''codec'', codec_meta (g_codec g)), (''time_dim'', JStr (ss_time_dim s)),
         (''dims'', JArr (map (\<lambda>(k, l). JObj [(''name'', JStr k), (''length'', json_nat (if k = ss_time_dim s then n else l))]) (ss_dims s))),
         (''vars'', JArr (map (\<lambda>x. JObj (var_entry x)) (ss_vars s))),
         (''chunk_shape'', json_map (ss_chunk s)), (''shard_shape'', json_map (ss_shard s)),
         (''time_shards'', JArr (map (shard_json T) (cm_shards cs))),
         (''last_t'', (case cm_last_t cs of None \<Rightarrow> JNull | Some t \<Rightarrow> json_f64 T t)),
         (''n_records'', json_nat n), (''created_at'', JStr created)] @
        (if v = V1 then [] else
          [(''schema_fingerprint'', JStr fingerprint),
           (''time_mode'', (case indexed of
              None \<Rightarrow> JObj [(''kind'', JStr ''append'')]
            | Some k \<Rightarrow> JObj [(''kind'', JStr ''indexed''), (''n_records'', json_nat k)])),
           (''writers'', JArr (map (\<lambda>(i, r). JObj [(''id'', json_nat i), (''region'', json_region r)]) (cm_writers cs))),
           (''records'', records_json T cs (indexed \<noteq> None)),
           (''statics'', JArr (map (static_json cs) (ss_statics s))),
           (''blobs'', JArr (map blob_json (sort_key blob_order (cm_blobs cs)))),
           (''commit_seq'', json_nat (cm_seq cs))])))"

section \<open>Reading it\<close>

definition bad_field :: "string \<Rightarrow> error" where
  "bad_field w = zerr (''output manifest: bad or missing '' @ sq w)"

definition need_str :: "json \<Rightarrow> string \<Rightarrow> string result" where
  "need_str v w = ok_or (bad_field w) (as_str v)"

definition need_u64 :: "json \<Rightarrow> string \<Rightarrow> nat result" where
  "need_u64 v w = ok_or (bad_field w) (as_u64 v)"

definition need_array :: "json \<Rightarrow> string \<Rightarrow> json list result" where
  "need_array v w = ok_or (bad_field w) (as_array v)"

definition array_or_empty :: "json \<Rightarrow> json list" where
  "array_or_empty v = (case as_array v of Some a \<Rightarrow> a | None \<Rightarrow> [])"

definition read_version :: "json \<Rightarrow> version result" where
  "read_version m =
     (case as_str (member_of m ''schema'') of
        Some s \<Rightarrow>
          if s = output_manifest_v1 then Inr V1
          else if s = output_manifest_v2 then Inr V2
          else Inl (zerr (''unknown output manifest schema Some('' @ dbg_str s @ '')''))
      | None \<Rightarrow> Inl (zerr ''unknown output manifest schema None''))"

definition read_dim :: "json \<Rightarrow> (string \<times> nat) result" where
  "read_dim d =
     (case d of
        JArr [a, b] \<Rightarrow> bindR (need_str a ''dims.name'') (\<lambda>n. bindR (need_u64 b ''dims.length'') (\<lambda>l. Inr (n, l)))
      | _ \<Rightarrow> bindR (need_str (member_of d ''name'') ''dims.name'') (\<lambda>n.
             bindR (need_u64 (member_of d ''length'') ''dims.length'') (\<lambda>l. Inr (n, l))))"

definition read_umap :: "json \<Rightarrow> string \<Rightarrow> (string \<times> nat) list result" where
  "read_umap v w =
     bindR (ok_or (bad_field w) (as_object v)) (\<lambda>m.
     bindR (each (\<lambda>(k, x). bindR (ok_or (bad_field w) (as_u64 x)) (\<lambda>n. Inr (k, n))) m) (\<lambda>kvs. Inr (bt_of_list kvs)))"

definition read_var :: "string \<Rightarrow> json \<Rightarrow> stream_var result" where
  "read_var w e =
     bindR (need_str (member_of e ''name'') w) (\<lambda>name.
     bindR (need_array (member_of e ''dims'') w) (\<lambda>ds.
     bindR (each (\<lambda>d. need_str d w) ds) (\<lambda>dims.
     bindR (need_str (member_of e ''dtype'') w) (\<lambda>dt.
     bindR (dtype_parse dt) (\<lambda>dtype.
       Inr \<lparr>sv_name = name, sv_dims = dims, sv_dtype = dtype,
         sv_attrs = (case as_object (member_of e ''attrs'') of Some a \<Rightarrow> a | None \<Rightarrow> [])\<rparr>)))))"

definition read_vars :: "json \<Rightarrow> string \<Rightarrow> stream_var list result" where
  "read_vars v w = each (read_var w) (array_or_empty v)"

definition read_entry :: "f64_text \<Rightarrow> json \<Rightarrow> entry result" where
  "read_entry T e =
     bindR (ok_or (bad_field ''entries.t'') (as_f64 T (member_of e ''t''))) (\<lambda>t.
     bindR (ok_or (bad_field ''entries.committed'') (as_bool (member_of e ''committed''))) (\<lambda>c.
     bindR (need_u64 (member_of e ''generation'') ''entries.generation'') (\<lambda>g.
       Inr \<lparr>en_t = t, en_committed = c, en_generation = g\<rparr>)))"

definition read_time_mode :: "f64_text \<Rightarrow> json \<Rightarrow> (time_mode \<times> entry list) result" where
  "read_time_mode T m =
     (if member_of (member_of m ''time_mode'') ''kind'' = JStr ''indexed'' then
        bindR (need_array (member_of (member_of m ''records'') ''entries'') ''records.entries'') (\<lambda>es.
        bindR (each (read_entry T) es) (\<lambda>entries. Inr (Indexed (length es) (map en_t entries), entries)))
      else Inr (Append, []))"

definition read_static_state :: "json \<Rightarrow> (string \<times> bool \<times> nat) result" where
  "read_static_state e =
     bindR (need_str (member_of e ''name'') ''statics.name'') (\<lambda>n.
       Inr (n, (case as_bool (member_of e ''committed'') of Some c \<Rightarrow> c | None \<Rightarrow> False),
            (case as_u64 (member_of e ''generation'') of Some g \<Rightarrow> g | None \<Rightarrow> 0)))"

definition read_blob_rec :: "json \<Rightarrow> blob_rec result" where
  "read_blob_rec b =
     bindR (need_str (member_of b ''scope'') ''blobs.scope'') (\<lambda>sc.
     bindR (scope_from_wire sc (as_u64 (member_of b ''record''))) (\<lambda>s.
     bindR (need_u64 (member_of b ''writer'') ''blobs.writer'') (\<lambda>w.
     bindR (need_str (member_of b ''key'') ''blobs.key'') (\<lambda>k. Inr (s, w, k)))))"

definition read_writer :: "json \<Rightarrow> (nat \<times> region) result" where
  "read_writer w =
     bindR (ok_or (bad_field ''writers.region'') (read_region_wire (member_of w ''region''))) (\<lambda>r.
     bindR (need_u64 (member_of w ''id'') ''writers.id'') (\<lambda>i. Inr (i, r)))"

definition read_v2_state :: "f64_text \<Rightarrow> json \<Rightarrow> (time_mode \<times> commit_state) result" where
  "read_v2_state T m =
     bindR (need_u64 (member_of m ''commit_seq'') ''commit_seq'') (\<lambda>q.
     bindR (read_time_mode T m) (\<lambda>(mode, entries).
     bindR (each read_static_state (array_or_empty (member_of m ''statics''))) (\<lambda>statics.
     bindR (each read_blob_rec (array_or_empty (member_of m ''blobs''))) (\<lambda>blobs.
     bindR (each read_writer (array_or_empty (member_of m ''writers''))) (\<lambda>writers.
       Inr (mode, empty_state\<lparr>cm_seq := q, cm_entries := entries, cm_statics := bt_of_list statics,
         cm_blobs := bs_extend blobs [], cm_writers := writers\<rparr>))))))"

definition read_time_shard :: "f64_text \<Rightarrow> json \<Rightarrow> time_shard result" where
  "read_time_shard T t =
     bindR (need_u64 (member_of t ''index'') ''time_shards.index'') (\<lambda>i.
     bindR (ok_or (bad_field ''time_shards.t_start'') (as_f64 T (member_of t ''t_start''))) (\<lambda>a.
     bindR (ok_or (bad_field ''time_shards.t_end'') (as_f64 T (member_of t ''t_end''))) (\<lambda>b.
     bindR (if member_of t ''n'' = JNull then need_u64 (member_of t ''n_records'') ''time_shards.n''
            else need_u64 (member_of t ''n'') ''time_shards.n'') (\<lambda>n.
       Inr \<lparr>sh_index = i, sh_start = a, sh_end = b, sh_n = n\<rparr>))))"

definition from_manifest :: "f64_text \<Rightarrow> json \<Rightarrow> (stream_schema \<times> version \<times> commit_state) result" where
  "from_manifest T m =
     bindR (read_version m) (\<lambda>v.
     bindR (need_str (member_of m ''time_dim'') ''time_dim'') (\<lambda>td.
     bindR (need_array (member_of m ''dims'') ''dims'') (\<lambda>ds.
     bindR (each read_dim ds) (\<lambda>dims.
     bindR (if member_of m ''n_records'' = JNull then need_u64 (member_of m ''total_records'') ''n_records''
            else need_u64 (member_of m ''n_records'') ''n_records'') (\<lambda>n.
     bindR (if v = V2 then read_v2_state T m else Inr (Append, empty_state)) (\<lambda>(mode, cs).
     bindR (need_array (member_of m ''time_shards'') ''time_shards'') (\<lambda>ts.
     bindR (each (read_time_shard T) ts) (\<lambda>shards.
     bindR (read_umap (member_of m ''chunk_shape'') ''chunk_shape'') (\<lambda>chunk.
     bindR (read_umap (member_of m ''shard_shape'') ''shard_shape'') (\<lambda>shard.
     bindR (read_vars (member_of m ''vars'') ''vars'') (\<lambda>vars.
     bindR (read_vars (member_of m ''statics'') ''statics'') (\<lambda>statics.
     bindR (need_str (member_of m ''profile'') ''profile'') (\<lambda>profile.
       Inr (\<lparr>ss_dims = dims, ss_time_dim = td, ss_chunk = chunk, ss_shard = shard, ss_coords = [],
              ss_vars = vars, ss_statics = statics, ss_time_mode = mode, ss_group_attrs = [], ss_profile = profile\<rparr>,
            v,
            cs\<lparr>cm_count := (if mode = Append then n else 0), cm_shards := shards,
              cm_last_t := as_f64 T (member_of m ''last_t'')\<rparr>))))))))))))))"

end
