(* ===== verification/StreamWriter.thy ===== *)
theory StreamWriter
  imports StreamManifest
begin

text \<open>
  The streaming writer handle (\<open>rust/src/format/zarr_stream.rs\<close>, \<open>ZarrStreamWriter\<close>): opening (\<open>create\<close>,
  \<open>join\<close>, \<open>resume\<close>), writing records, statics and blobs, flushing into a token, committing, invalidating and
  closing. An operation takes the handle and the store and leaves both, also when it fails.
\<close>

section \<open>The handle\<close>

record pending =
  pe_records :: "(nat \<times> f64) list"
  pe_statics :: "string list"
  pe_blobs :: "(blob_scope \<times> string) list"
  pe_objects :: "string list"

definition no_pending :: pending where
  "no_pending = \<lparr>pe_records = [], pe_statics = [], pe_blobs = [], pe_objects = []\<rparr>"

definition has_content :: "pending \<Rightarrow> bool" where
  "has_content p \<longleftrightarrow> \<not> (pe_records p = [] \<and> pe_statics p = [] \<and> pe_blobs p = [])"

record shard_buf =
  sb_bufs :: "(string \<times> nd_buf) list"
  sb_written :: "bool list"

record writer =
  wr_base :: string
  wr_geo :: geometry
  wr_role :: role
  wr_print :: string
  wr_version :: version
  wr_time_coord :: bool
  wr_state :: commit_state
  wr_next :: nat
  wr_last_t :: "f64 option"
  wr_open :: "(nat \<times> shard_buf) list"
  wr_dirty :: "nat list"
  wr_flushed :: "nat list"
  wr_on_disk :: bool
  wr_pending :: pending
  wr_tok_records :: "nat list"
  wr_tok_statics :: "string list"
  wr_meta :: "(string \<times> json) list"

type_synonym ('s, 'a) wio = "(writer \<times> 's, 'a) io"

definition in_store :: "('s, 'a) io \<Rightarrow> ('s, 'a) wio" where
  "in_store m x = (case x of (w, s) \<Rightarrow> map_option (\<lambda>(r, s'). (r, (w, s'))) (m s))"

definition update_handle :: "(writer \<Rightarrow> writer) \<Rightarrow> ('s, unit) wio" where
  "update_handle f x = (case x of (w, s) \<Rightarrow> Some (Inr (), (f w, s)))"

definition handle :: "('s, writer) wio" where
  "handle = asks fst"

text \<open>A loop over a list, left at the first failure.\<close>

fun for_each :: "('a \<Rightarrow> ('s, unit) io) \<Rightarrow> 'a list \<Rightarrow> ('s, unit) io" where
  "for_each f [] = ret ()"
| "for_each f (x # xs) = bindI (f x) (\<lambda>_. for_each f xs)"

definition assemble ::
    "('s, 'm, 'h) stream_env \<Rightarrow> string \<Rightarrow> stream_schema \<Rightarrow> role \<Rightarrow> region \<Rightarrow> version \<Rightarrow> commit_state \<Rightarrow> writer result option" where
  "assemble E base schema role region v cs =
     (case codec_of_profile (ss_profile schema) of
        Inl e \<Rightarrow> Some (Inl e)
      | Inr codec \<Rightarrow>
          map_option (\<lambda>st.
            Inr \<lparr>wr_base = base,
              wr_geo = \<lparr>g_schema = schema, g_codec = codec, g_region = region, g_dim_len = dim_lens schema, g_st = st\<rparr>,
              wr_role = role, wr_print = schema_fingerprint (se_digest E) schema, wr_version = v,
              wr_time_coord = list_ex (\<lambda>c. wc_name c = ss_time_dim schema) (ss_coords schema),
              wr_state = cs, wr_next = cm_count cs, wr_last_t = cm_last_t cs, wr_open = [], wr_dirty = [],
              wr_flushed = [], wr_on_disk = True, wr_pending = no_pending, wr_tok_records = [], wr_tok_statics = [],
              wr_meta = []\<rparr>)
            (map_of (ss_shard schema) (ss_time_dim schema)))"

section \<open>Metadata and the manifest\<close>

definition is_contributor :: "writer \<Rightarrow> bool" where
  "is_contributor w = (case wr_role w of Contributor i \<Rightarrow> True | _ \<Rightarrow> False)"

definition manifest_json_of :: "('s, 'm, 'h) stream_env \<Rightarrow> writer \<Rightarrow> 's \<Rightarrow> json" where
  "manifest_json_of E w s =
     manifest_doc (se_text E) (wr_geo w) (wr_base w) (wr_version w) (wr_print w) (wr_state w) (se_now E s)"

definition write_manifest :: "('s, 'm, 'h) stream_env \<Rightarrow> ('s, unit) wio" where
  "write_manifest E =
     bindI handle (\<lambda>w.
       if is_contributor w then fail (zerr ''a contributor never writes the manifest'')
       else in_store (\<lambda>s. set_json E manifest_key (manifest_json_of E w s) s))"

definition store_meta :: "('s, 'm, 'h) stream_env \<Rightarrow> string \<Rightarrow> json \<Rightarrow> ('s, unit) wio" where
  "store_meta E name meta =
     bindI (of_result (array_from_meta E name meta)) (\<lambda>h.
     bindI (in_store (lift_op (\<lambda>e. zerr (''write metadata for '' @ sq name @ '': '' @ e)) (se_store_metadata E h))) (\<lambda>_.
       update_handle (\<lambda>w. w\<lparr>wr_meta := bt_put name meta (wr_meta w)\<rparr>)))"

definition put_meta ::
    "('s, 'm, 'h) stream_env \<Rightarrow> string \<Rightarrow> string list \<Rightarrow> nat list \<Rightarrow> stream_dtype \<Rightarrow> (string \<times> json) list \<Rightarrow> ('s, unit) wio" where
  "put_meta E name dims shape dt attrs =
     bindI handle (\<lambda>w.
     let s = g_schema (wr_geo w) in
     bindI (of_result (array_meta dims shape (ss_chunk s) (ss_shard s) dt (g_codec (wr_geo w)) attrs)) (\<lambda>meta.
       store_meta E name meta))"

text \<open>A coordinate that is not the time coordinate: its metadata and its values.\<close>

definition write_coord_array :: "('s, 'm, 'h) stream_env \<Rightarrow> geometry \<Rightarrow> write_coord \<Rightarrow> ('s, unit) io" where
  "write_coord_array E g co =
     (let s = g_schema g; name = wc_name co in
      bindI (of_result (array_meta [name] [length (wc_values co)] (ss_chunk s) (ss_shard s) DF64 (g_codec g) (wc_attrs co))) (\<lambda>meta.
      bindI (of_result (array_from_meta E name meta)) (\<lambda>h.
      bindI (lift_op (\<lambda>e. zerr (''write metadata for '' @ sq name @ '': '' @ e)) (se_store_metadata E h)) (\<lambda>_.
        lift_op (\<lambda>e. zerr (''write data for '' @ sq name @ '': '' @ e)) (se_store_all E h (wc_values co))))))"

definition time_attrs :: "stream_schema \<Rightarrow> (string \<times> json) list" where
  "time_attrs s =
     (case filter (\<lambda>c. wc_name c = ss_time_dim s) (ss_coords s) of [] \<Rightarrow> [] | cs \<Rightarrow> wc_attrs (last cs))"

definition time_buf :: "f64 list \<Rightarrow> nd_buf" where
  "time_buf ts = \<lparr>nb_origin = [0], nb_shape = [length ts], nb_esize = 8, nb_data = to_ne_bytes (TF64 ts)\<rparr>"

definition write_layout :: "('s, 'm, 'h) stream_env \<Rightarrow> ('s, unit) wio" where
  "write_layout E =
     bindI handle (\<lambda>w.
     let g = wr_geo w; s = g_schema g; td = ss_time_dim s; n_time = (case n_indexed g of Some n \<Rightarrow> n | None \<Rightarrow> 0) in
     bindI (in_store (set_json E ''zarr.json''
       (JObj [(''zarr_format'', JInt 3), (''node_type'', JStr ''group''), (''attributes'', JObj (ss_group_attrs s))]))) (\<lambda>_.
     bindI (for_each (\<lambda>co. in_store (write_coord_array E g co)) (filter (\<lambda>c. wc_name c \<noteq> td) (ss_coords s))) (\<lambda>_.
     bindI (if wr_time_coord w then
              bindI (put_meta E td [td] [n_time] DF64 (time_attrs s)) (\<lambda>_.
                case ss_time_mode s of
                  Append \<Rightarrow> ret ()
                | Indexed n ts \<Rightarrow> bindI (in_store (write_box E g td [td] DF64 (time_buf ts) n_time)) (\<lambda>_. ret ()))
            else ret ()) (\<lambda>_.
     bindI (for_each (\<lambda>v.
         bindI (or_panic (all_some (\<lambda>d. if d = td then Some n_time else map_of (g_dim_len g) d) (sv_dims v))) (\<lambda>shape.
           put_meta E (sv_name v) (sv_dims v) shape (sv_dtype v) (sv_attrs v))) (ss_vars s)) (\<lambda>_.
       for_each (\<lambda>v.
         bindI (or_panic (all_some (map_of (g_dim_len g)) (sv_dims v))) (\<lambda>shape.
           put_meta E (sv_name v) (sv_dims v) shape (sv_dtype v) (sv_attrs v))) (ss_statics s))))))"

text \<open>\<open>meta["shape"][i] = n\<close>; \<open>None\<close> when there is no such element.\<close>

definition set_shape :: "json \<Rightarrow> nat \<Rightarrow> nat \<Rightarrow> json option" where
  "set_shape meta i n =
     (case member_of meta ''shape'' of
        JArr a \<Rightarrow> if i < length a then Some (set_member ''shape'' (JArr (a[i := json_nat n])) meta) else None
      | _ \<Rightarrow> None)"

definition grow_array :: "('s, 'm, 'h) stream_env \<Rightarrow> nat \<Rightarrow> string \<Rightarrow> ('s, unit) wio" where
  "grow_array E n name =
     bindI handle (\<lambda>w.
     bindI (case map_of (wr_meta w) name of
              Some m \<Rightarrow> ret m
            | None \<Rightarrow> bindI (in_store (get_json E (name @ ''/zarr.json''))) (\<lambda>m.
                of_result (ok_or (zerr (''array '' @ sq name @ '' has no zarr.json'')) m))) (\<lambda>meta.
     bindI (of_result (ok_or (zerr (''array '' @ sq name @ '' has no dimension_names'')) (read_strings (member_of meta ''dimension_names'')))) (\<lambda>dims.
     bindI (of_result (ok_or (zerr (''array '' @ sq name @ '' has no time dim''))
       (position ((=) (ss_time_dim (g_schema (wr_geo w)))) dims))) (\<lambda>ti.
     bindI (or_panic (set_shape meta ti n)) (\<lambda>meta'. store_meta E name meta')))))"

definition write_shapes :: "('s, 'm, 'h) stream_env \<Rightarrow> nat \<Rightarrow> ('s, unit) wio" where
  "write_shapes E n =
     bindI handle (\<lambda>w.
     let s = g_schema (wr_geo w) in
     for_each (grow_array E n)
       ((if wr_time_coord w then [ss_time_dim s] else []) @ map sv_name (ss_vars s)))"

section \<open>The buffers of a time shard\<close>

definition writes_array :: "writer \<Rightarrow> string list \<Rightarrow> bool" where
  "writes_array w dims =
     (if partitioned (wr_geo w) dims then owns (wr_geo w) dims else \<not> is_contributor w)"

definition writes_time_coord :: "writer \<Rightarrow> bool" where
  "writes_time_coord w \<longleftrightarrow> wr_time_coord w \<and> \<not> is_contributor w \<and> n_indexed (wr_geo w) = None"

definition my_vars :: "writer \<Rightarrow> stream_var list" where
  "my_vars w = filter (\<lambda>v. \<not> is_contributor w \<or> partitioned (wr_geo w) (sv_dims v)) (ss_vars (g_schema (wr_geo w)))"

definition array_spec :: "geometry \<Rightarrow> string \<Rightarrow> string list \<times> stream_dtype" where
  "array_spec g name =
     (case find (\<lambda>v. sv_name v = name) (ss_vars (g_schema g)) of
        Some v \<Rightarrow> (sv_dims v, sv_dtype v)
      | None \<Rightarrow> ([ss_time_dim (g_schema g)], DF64))"

fun var_bufs :: "geometry \<Rightarrow> nat \<Rightarrow> nat \<Rightarrow> stream_var list \<Rightarrow> (string \<times> nd_buf) list \<Rightarrow> (string \<times> nd_buf) list option" where
  "var_bufs g t0 st [] bufs = Some bufs"
| "var_bufs g t0 st (v # vs) bufs =
     Option.bind (var_box g (sv_dims v) t0 st) (\<lambda>(os, ns).
       var_bufs g t0 st vs (bt_put (sv_name v) (nd_zeros os ns (dtype_size (sv_dtype v))) bufs))"

definition new_shard_buf :: "writer \<Rightarrow> nat \<Rightarrow> shard_buf option" where
  "new_shard_buf w ts =
     (let g = wr_geo w; st = g_st g; t0 = ts * st in
      map_option (\<lambda>bufs.
        \<lparr>sb_bufs = (if writes_time_coord w then bt_put (ss_time_dim (g_schema g)) (nd_zeros [t0] [st] 8) bufs else bufs),
         sb_written = replicate st False\<rparr>)
        (var_bufs g t0 st (my_vars w) []))"

fun reload_bufs ::
    "('s, 'm, 'h) stream_env \<Rightarrow> geometry \<Rightarrow> nat \<Rightarrow> (string \<times> nd_buf) list \<Rightarrow> ('s, (string \<times> nd_buf) list) io" where
  "reload_bufs E g limit [] = ret []"
| "reload_bufs E g limit ((name, buf) # rest) =
     (let (dims, dt) = array_spec g name in
      bindI (reload_box E g name dims dt buf limit) (\<lambda>buf'.
      bindI (reload_bufs E g limit rest) (\<lambda>rest'. ret ((name, buf') # rest'))))"

definition reload_open_append :: "('s, 'm, 'h) stream_env \<Rightarrow> nat \<Rightarrow> ('s, unit) wio" where
  "reload_open_append E n =
     bindI handle (\<lambda>w.
     let g = wr_geo w; st = g_st g in
     if n_indexed g \<noteq> None then ret ()
     else if st = 0 then (\<lambda>x. None)
     else if n mod st = 0 then ret ()
     else
       (let ts = n div st in
        bindI (or_panic (new_shard_buf w ts)) (\<lambda>sb.
        bindI (in_store (reload_bufs E g n (sb_bufs sb))) (\<lambda>bufs.
          let k = n - ts * st;
              sb' = \<lparr>sb_bufs = bufs, sb_written = replicate k True @ drop k (sb_written sb)\<rparr> in
          update_handle (\<lambda>w. w\<lparr>wr_open := bt_put ts sb' (wr_open w)\<rparr>)))))"

definition ensure_open :: "('s, 'm, 'h) stream_env \<Rightarrow> nat \<Rightarrow> ('s, unit) wio" where
  "ensure_open E ts =
     bindI handle (\<lambda>w.
     if has_key ts (wr_open w) then ret ()
     else
       bindI (or_panic (new_shard_buf w ts)) (\<lambda>sb.
       bindI (case n_indexed (wr_geo w) of
                Some n \<Rightarrow>
                  if wr_on_disk w \<or> ts \<in> set (wr_flushed w) then in_store (reload_bufs E (wr_geo w) n (sb_bufs sb))
                  else ret (sb_bufs sb)
              | None \<Rightarrow> ret (sb_bufs sb)) (\<lambda>bufs.
         update_handle (\<lambda>w. w\<lparr>wr_open := bt_put ts (sb\<lparr>sb_bufs := bufs\<rparr>) (wr_open w)\<rparr>))))"

definition time_extent :: "geometry \<Rightarrow> nat \<Rightarrow> nat" where
  "time_extent g ts = (case n_indexed g of Some n \<Rightarrow> n | None \<Rightarrow> (ts + 1) * g_st g)"

fun write_bufs ::
    "('s, 'm, 'h) stream_env \<Rightarrow> writer \<Rightarrow> nat \<Rightarrow> (string \<times> nd_buf) list \<Rightarrow> ('s, string list) io" where
  "write_bufs E w ext [] = ret []"
| "write_bufs E w ext ((name, buf) # rest) =
     (let (dims, dt) = array_spec (wr_geo w) name in
      if \<not> writes_array w dims then write_bufs E w ext rest
      else
        bindI (write_box E (wr_geo w) name dims dt buf ext) (\<lambda>keys.
        bindI (write_bufs E w ext rest) (\<lambda>more_keys. ret (keys @ more_keys))))"

definition add_objects :: "string list \<Rightarrow> writer \<Rightarrow> writer" where
  "add_objects keys w = w\<lparr>wr_pending := (wr_pending w)\<lparr>pe_objects := bs_extend keys (pe_objects (wr_pending w))\<rparr>\<rparr>"

definition write_shard :: "('s, 'm, 'h) stream_env \<Rightarrow> nat \<Rightarrow> ('s, unit) wio" where
  "write_shard E ts =
     bindI handle (\<lambda>w.
     case map_of (wr_open w) ts of
       None \<Rightarrow> ret ()
     | Some sb \<Rightarrow>
         bindI (in_store (write_bufs E w (time_extent (wr_geo w) ts) (sb_bufs sb))) (\<lambda>keys.
           update_handle (\<lambda>w. (add_objects keys w)\<lparr>wr_flushed := bs_put ts (wr_flushed w)\<rparr>)))"

section \<open>Writing records\<close>

type_synonym record_arrays = "(string \<times> typed_array) list"

definition known_arrays :: "writer \<Rightarrow> record_arrays \<Rightarrow> unit result" where
  "known_arrays w arrays =
     bindR (each (\<lambda>(name, a).
         case find (\<lambda>v. sv_name v = name) (ss_vars (g_schema (wr_geo w))) of
           None \<Rightarrow> Inl (zerr (''record has an array for unknown variable '' @ sq name))
         | Some v \<Rightarrow>
             if is_contributor w \<and> \<not> partitioned (wr_geo w) (sv_dims v) then
               Inl (zerr (''variable '' @ sq name @ '' is replicated (no region dim): only the owner writes it''))
             else Inr ()) arrays) (\<lambda>_. Inr ())"

definition record_source :: "writer \<Rightarrow> nat \<Rightarrow> record_arrays \<Rightarrow> stream_var \<Rightarrow> (string \<times> nd_buf) result option" where
  "record_source w index arrays v =
     (case map_of arrays (sv_name v) of
        None \<Rightarrow> Some (Inl (zerr (''record is missing the array for '' @ sq (sv_name v))))
      | Some a \<Rightarrow>
          if typed_dtype a \<noteq> sv_dtype v then
            Some (Inl (zerr (sq (sv_name v) @ '': got '' @ dtype_name (typed_dtype a) @ '' values for a ''
              @ dtype_name (sv_dtype v) @ '' variable'')))
          else
            (case local_len (wr_geo w) (sv_dims v) of
               None \<Rightarrow> None
             | Some want \<Rightarrow>
                 if typed_len a \<noteq> want then
                   Some (Inl (zerr (sq (sv_name v) @ '': '' @ show_nat (typed_len a) @ '' values != region size '' @ show_nat want)))
                 else
                   map_option (\<lambda>(os, ns).
                     Inr (sv_name v, \<lparr>nb_origin = os, nb_shape = ns, nb_esize = dtype_size (sv_dtype v), nb_data = to_ne_bytes a\<rparr>))
                     (var_box (wr_geo w) (sv_dims v) index 1)))"

fun record_sources :: "writer \<Rightarrow> nat \<Rightarrow> record_arrays \<Rightarrow> stream_var list \<Rightarrow> (string \<times> nd_buf) list result option" where
  "record_sources w index arrays [] = Some (Inr [])"
| "record_sources w index arrays (v # vs) =
     (case record_source w index arrays v of
        Some (Inr x) \<Rightarrow> map_option (\<lambda>r. bindR r (\<lambda>xs. Inr (x # xs))) (record_sources w index arrays vs)
      | Some (Inl e) \<Rightarrow> Some (Inl e)
      | None \<Rightarrow> None)"

definition time_source :: "writer \<Rightarrow> nat \<Rightarrow> f64 \<Rightarrow> (string \<times> nd_buf) list" where
  "time_source w index t =
     (if writes_time_coord w then
        [(ss_time_dim (g_schema (wr_geo w)), \<lparr>nb_origin = [index], nb_shape = [1], nb_esize = 8, nb_data = to_ne_bytes (TF64 [t])\<rparr>)]
      else [])"

fun place_sources :: "(string \<times> nd_buf) list \<Rightarrow> (string \<times> nd_buf) list \<Rightarrow> (string \<times> nd_buf) list option" where
  "place_sources [] bufs = Some bufs"
| "place_sources ((name, src) # srcs) bufs =
     Option.bind (map_of bufs name) (\<lambda>buf.
     Option.bind (copy_overlap src buf) (\<lambda>buf'. place_sources srcs (bt_put name buf' bufs)))"

definition shard_slots :: "geometry \<Rightarrow> nat \<Rightarrow> nat" where
  "shard_slots g ts = (case n_indexed g of Some n \<Rightarrow> min (n - ts * g_st g) (g_st g) | None \<Rightarrow> g_st g)"

definition add_record :: "nat \<Rightarrow> f64 \<Rightarrow> writer \<Rightarrow> writer" where
  "add_record index t w = w\<lparr>wr_pending := (wr_pending w)\<lparr>pe_records := bt_put index t (pe_records (wr_pending w))\<rparr>\<rparr>"

definition place_record :: "('s, 'm, 'h) stream_env \<Rightarrow> nat \<Rightarrow> f64 \<Rightarrow> record_arrays \<Rightarrow> ('s, unit) wio" where
  "place_record E index t arrays =
     bindI handle (\<lambda>w.
     bindI (of_result (known_arrays w arrays)) (\<lambda>_.
     bindI (of_checked (record_sources w index arrays (my_vars w))) (\<lambda>var_srcs.
     let g = wr_geo w; st = g_st g; ts = index div st in
     if st = 0 then (\<lambda>x. None)
     else
       bindI (ensure_open E ts) (\<lambda>_.
       bindI handle (\<lambda>w1.
       bindI (or_panic (map_of (wr_open w1) ts)) (\<lambda>sb.
       bindI (or_panic (place_sources (var_srcs @ time_source w index t) (sb_bufs sb))) (\<lambda>bufs.
         let sb' = \<lparr>sb_bufs = bufs, sb_written = (sb_written sb)[index mod st := True]\<rparr>;
             complete = list_all id (take (shard_slots g ts) (sb_written sb')) in
         bindI (update_handle (\<lambda>w. add_record index t (w\<lparr>wr_open := bt_put ts sb' (wr_open w)\<rparr>))) (\<lambda>_.
         if complete then
           bindI (write_shard E ts) (\<lambda>_.
             update_handle (\<lambda>w. w\<lparr>wr_open := al_del ts (wr_open w), wr_dirty := remove1 ts (wr_dirty w)\<rparr>))
         else update_handle (\<lambda>w. w\<lparr>wr_dirty := bs_put ts (wr_dirty w)\<rparr>)))))))))"

definition write_record :: "('s, 'm, 'h) stream_env \<Rightarrow> f64 \<Rightarrow> record_arrays \<Rightarrow> ('s, nat) wio" where
  "write_record E t arrays =
     bindI handle (\<lambda>w.
     if n_indexed (wr_geo w) \<noteq> None then fail (zerr ''write_record is append-mode only; use write_record_at'')
     else if (case wr_last_t w of Some prev \<Rightarrow> \<not> f64_lt prev t | None \<Rightarrow> False) then
       fail (zerr (''append t = '' @ ft_display (se_text E) t @ '' is not after the previous t = ''
         @ ft_display (se_text E) (the (wr_last_t w))))
     else
       bindI (place_record E (wr_next w) t arrays) (\<lambda>_.
       bindI (update_handle (\<lambda>x. x\<lparr>wr_next := wr_next x + 1, wr_last_t := Some t\<rparr>)) (\<lambda>_. ret (wr_next w))))"

section \<open>What is committed\<close>

definition refresh_view :: "('s, 'm, 'h) stream_env \<Rightarrow> ('s, unit) wio" where
  "refresh_view E =
     bindI (in_store (read_output_manifest E)) (\<lambda>m.
     bindI (of_result (from_manifest (se_text E) m)) (\<lambda>(sch, v, cs).
       update_handle (\<lambda>w. w\<lparr>wr_state := cs, wr_tok_records := [], wr_tok_statics := []\<rparr>)))"

definition entry_committed :: "writer \<Rightarrow> nat \<Rightarrow> bool option" where
  "entry_committed w i =
     (if i < length (cm_entries (wr_state w)) then Some (en_committed (cm_entries (wr_state w) ! i)) else None)"

definition record_committed :: "('s, 'm, 'h) stream_env \<Rightarrow> nat \<Rightarrow> ('s, bool) wio" where
  "record_committed E i =
     bindI handle (\<lambda>w.
     bindI (or_panic (entry_committed w i)) (\<lambda>c.
       if \<not> is_contributor w then ret c
       else if c \<or> i \<in> set (wr_tok_records w) then
         bindI (refresh_view E) (\<lambda>_. bindI handle (\<lambda>w'. or_panic (entry_committed w' i)))
       else ret False))"

definition static_committed :: "('s, 'm, 'h) stream_env \<Rightarrow> string \<Rightarrow> ('s, bool) wio" where
  "static_committed E name =
     bindI handle (\<lambda>w.
       if \<not> is_contributor w then ret (static_committed_in (wr_state w) name)
       else if static_committed_in (wr_state w) name \<or> name \<in> set (wr_tok_statics w) then
         bindI (refresh_view E) (\<lambda>_. bindI handle (\<lambda>w'. ret (static_committed_in (wr_state w') name)))
       else ret False)"

definition write_record_at :: "('s, 'm, 'h) stream_env \<Rightarrow> nat \<Rightarrow> f64 \<Rightarrow> record_arrays \<Rightarrow> ('s, unit) wio" where
  "write_record_at E index t arrays =
     bindI handle (\<lambda>w.
     case n_indexed (wr_geo w) of
       None \<Rightarrow> fail (zerr ''write_record_at is indexed-mode only; use write_record'')
     | Some n \<Rightarrow>
         if n \<le> index then
           fail (zerr (''record index '' @ show_nat index @ '' out of range (n_records = '' @ show_nat n @ '')''))
         else if length (cm_entries (wr_state w)) \<le> index then (\<lambda>x. None)
         else
           (let want = en_t (cm_entries (wr_state w) ! index) in
            if want \<noteq> t then
              fail (zerr (''record '' @ show_nat index @ '': t = '' @ ft_display (se_text E) t @ '' != times['' @ show_nat index
                @ ''] = '' @ ft_display (se_text E) want))
            else
              bindI (record_committed E index) (\<lambda>c.
                if c then
                  fail (zerr (''record '' @ show_nat index @ '' is committed; the owner must invalidate it before it is rewritten''))
                else place_record E index t arrays)))"

section \<open>Statics and blobs\<close>

definition write_static :: "('s, 'm, 'h) stream_env \<Rightarrow> string \<Rightarrow> typed_array \<Rightarrow> ('s, unit) wio" where
  "write_static E name a =
     bindI handle (\<lambda>w.
     let g = wr_geo w in
     bindI (of_result (ok_or (zerr (''unknown static '' @ sq name)) (find (\<lambda>v. sv_name v = name) (ss_statics (g_schema g))))) (\<lambda>v.
     if is_contributor w \<and> \<not> partitioned g (sv_dims v) then
       fail (zerr (''static '' @ sq name @ '' is replicated (no region dim): only the owner writes it''))
     else if typed_dtype a \<noteq> sv_dtype v then
       fail (zerr (''static '' @ sq name @ '': got '' @ dtype_name (typed_dtype a) @ '' values for a ''
         @ dtype_name (sv_dtype v) @ '' static''))
     else
       bindI (or_panic (local_len g (sv_dims v))) (\<lambda>want.
       if typed_len a \<noteq> want then
         fail (zerr (''static '' @ sq name @ '': '' @ show_nat (typed_len a) @ '' values != region size '' @ show_nat want))
       else
         bindI (static_committed E name) (\<lambda>c.
         if c then
           fail (zerr (''static '' @ sq name @ '' is committed; the owner must invalidate it before it is rewritten''))
         else
           bindI (or_panic (var_box g (sv_dims v) 0 0)) (\<lambda>(os, ns).
           let buf = \<lparr>nb_origin = os, nb_shape = ns, nb_esize = dtype_size (sv_dtype v), nb_data = to_ne_bytes a\<rparr> in
           bindI (if writes_array w (sv_dims v) then
                    bindI (in_store (write_box E g name (sv_dims v) (sv_dtype v) buf 0)) (\<lambda>keys. update_handle (add_objects keys))
                  else ret ()) (\<lambda>_.
             update_handle (\<lambda>w. w\<lparr>wr_pending := (wr_pending w)\<lparr>pe_statics := bs_put name (pe_statics (wr_pending w))\<rparr>\<rparr>)))))))"

definition blob_key_char :: "char \<Rightarrow> bool" where
  "blob_key_char c \<longleftrightarrow> is_alnum c \<or> c \<in> set ''._-''"

definition blob_key_ok :: "string \<Rightarrow> bool" where
  "blob_key_ok key \<longleftrightarrow> key \<noteq> [] \<and> key \<noteq> ''.'' \<and> key \<noteq> ''..'' \<and> list_all blob_key_char key"

definition blob_out_of_range :: "geometry \<Rightarrow> blob_scope \<Rightarrow> string option" where
  "blob_out_of_range g scope =
     (case (scope, n_indexed g) of
        (BlobRecord i, Some n) \<Rightarrow>
          if n \<le> i then Some (''blob record '' @ show_nat i @ '' out of range (n_records = '' @ show_nat n @ '')'') else None
      | _ \<Rightarrow> None)"

definition write_blob :: "('s, 'm, 'h) stream_env \<Rightarrow> blob_scope \<Rightarrow> string \<Rightarrow> string \<Rightarrow> ('s, unit) wio" where
  "write_blob E scope key bytes =
     bindI handle (\<lambda>w.
     if wr_version w = V1 then fail (zerr ''blobs need a v2 store: open a single writer as Owner { n_writers: 1 }'')
     else if \<not> blob_key_ok key then
       fail (zerr (''blob key '' @ sq key @ '' must match [A-Za-z0-9._-]+ and not be '' @ sq ''.'' @ '' or '' @ sq ''..''))
     else
       (case blob_out_of_range (wr_geo w) scope of
          Some e \<Rightarrow> fail (zerr e)
        | None \<Rightarrow>
            (let path = scope_key scope (role_id (wr_role w)) key in
             bindI (in_store (lift_sum (\<lambda>e. zerr (''invalid blob key '' @ sq path @ '': '' @ e)) (se_key E path))) (\<lambda>_.
             bindI (in_store (lift_op (\<lambda>e. zerr (''write '' @ path @ '': '' @ e)) (se_set E path bytes))) (\<lambda>_.
               update_handle (\<lambda>w. add_objects [path]
                 (w\<lparr>wr_pending := (wr_pending w)\<lparr>pe_blobs := bs_put (scope, key) (pe_blobs (wr_pending w))\<rparr>\<rparr>)))))))"

section \<open>Tokens and commits\<close>

definition token_blob_of :: "blob_scope \<times> string \<Rightarrow> token_blob" where
  "token_blob_of b = (case b of (s, key) \<Rightarrow> (fst (scope_wire s), snd (scope_wire s), key))"

definition token_of_pending :: "writer \<Rightarrow> commit_token" where
  "token_of_pending w =
     (let p = wr_pending w in
      \<lparr>ct_schema = token_schema, ct_writer = role_id (wr_role w), ct_region = g_region (wr_geo w), ct_fingerprint = wr_print w,
       ct_records = pe_records p, ct_statics = pe_statics p, ct_blobs = sort (map token_blob_of (pe_blobs p)),
       ct_objects = pe_objects p\<rparr>)"

definition clear_pending :: "writer \<Rightarrow> writer" where
  "clear_pending w =
     w\<lparr>wr_pending := no_pending,
       wr_tok_records := bs_extend (map fst (pe_records (wr_pending w))) (wr_tok_records w),
       wr_tok_statics := bs_extend (pe_statics (wr_pending w)) (wr_tok_statics w)\<rparr>"

definition take_token :: "('s, commit_token) wio" where
  "take_token = bindI handle (\<lambda>w. bindI (update_handle clear_pending) (\<lambda>_. ret (token_of_pending w)))"

record commit_receipt =
  cr_seq :: nat
  cr_records :: "nat list"
  cr_statics :: "string list"
  cr_count :: nat

text \<open>A change of the committed state that ends in store writes: undone in memory when it fails.\<close>

definition transact :: "('s, 'a) wio \<Rightarrow> ('s, 'a) wio" where
  "transact f x =
     map_option (\<lambda>(r, w, s).
       (r, (case r of Inl e \<Rightarrow> w\<lparr>wr_state := wr_state (fst x)\<rparr> | Inr y \<Rightarrow> w), s)) (f x)"

definition update_state :: "(commit_state \<Rightarrow> commit_state) \<Rightarrow> ('s, unit) wio" where
  "update_state f = update_handle (\<lambda>w. w\<lparr>wr_state := f (wr_state w)\<rparr>)"

definition commit_entry :: "nat \<Rightarrow> commit_state \<Rightarrow> commit_state option" where
  "commit_entry i cs =
     (if i < length (cm_entries cs) then
        Some (cs\<lparr>cm_entries := (cm_entries cs)[i := (cm_entries cs ! i)
          \<lparr>en_committed := True, en_generation := en_generation (cm_entries cs ! i) + 1\<rparr>]\<rparr>)
      else None)"

fun commit_entries :: "nat list \<Rightarrow> commit_state \<Rightarrow> commit_state option" where
  "commit_entries [] cs = Some cs"
| "commit_entries (i # is) cs = Option.bind (commit_entry i cs) (commit_entries is)"

definition commit_records :: "('s, 'm, 'h) stream_env \<Rightarrow> (nat \<times> f64) list \<Rightarrow> ('s, unit) wio" where
  "commit_records E recs =
     bindI handle (\<lambda>w.
     let st = g_st (wr_geo w) in
     case n_indexed (wr_geo w) of
       None \<Rightarrow>
         if recs = [] then ret ()
         else
           bindI (update_state (\<lambda>cs.
             (fold (\<lambda>(i, t). push_append i t st) recs cs)\<lparr>cm_count := cm_count cs + length recs\<rparr>)) (\<lambda>_.
             write_shapes E (cm_count (wr_state w) + length recs))
     | Some n \<Rightarrow>
         bindI (or_panic (commit_entries (map fst recs) (wr_state w))) (\<lambda>cs.
           update_state (\<lambda>_. rebuild_indexed_shards st cs)))"

fun commit_blobs :: "(nat \<times> token_blob) list \<Rightarrow> commit_state \<Rightarrow> commit_state result" where
  "commit_blobs [] cs = Inr cs"
| "commit_blobs ((writer, sc, r, key) # bs) cs =
     bindR (scope_from_wire sc r) (\<lambda>s. commit_blobs bs (cs\<lparr>cm_blobs := bs_put (s, writer, key) (cm_blobs cs)\<rparr>))"

definition commit_static :: "string \<Rightarrow> commit_state \<Rightarrow> commit_state" where
  "commit_static name cs =
     (let g = (case map_of (cm_statics cs) name of Some (c, k) \<Rightarrow> k | None \<Rightarrow> 0) in
      cs\<lparr>cm_statics := bt_put name (True, g + 1) (cm_statics cs)\<rparr>)"

definition sorted_tokens :: "commit_token list \<Rightarrow> commit_token list" where
  "sorted_tokens toks = sort_key ct_writer toks"

definition apply_commit :: "('s, 'm, 'h) stream_env \<Rightarrow> commit_token list \<Rightarrow> ('s, commit_receipt) wio" where
  "apply_commit E given =
     (let toks = sorted_tokens given in
      case toks of
        [] \<Rightarrow> (\<lambda>x. None)
      | t0 # rest \<Rightarrow>
          (let statics = bs_extend (concat (map ct_statics toks)) [] in
           bindI (commit_records E (ct_records t0)) (\<lambda>_.
           bindI handle (\<lambda>w.
           bindI (of_result (commit_blobs (concat (map (\<lambda>t. map (Pair (ct_writer t)) (ct_blobs t)) toks)) (wr_state w))) (\<lambda>cs.
           bindI (update_state (\<lambda>_. (fold commit_static statics cs)
               \<lparr>cm_writers := map (\<lambda>t. (ct_writer t, ct_region t)) toks, cm_seq := cm_seq cs + 1\<rparr>)) (\<lambda>_.
           bindI (write_manifest E) (\<lambda>_.
           bindI handle (\<lambda>w'.
             ret \<lparr>cr_seq = cm_seq (wr_state w'), cr_records = map fst (ct_records t0), cr_statics = statics,
               cr_count = cm_count (wr_state w')\<rparr>))))))))"

definition commit :: "('s, 'm, 'h) stream_env \<Rightarrow> commit_token list \<Rightarrow> ('s, commit_receipt) wio" where
  "commit E given =
     bindI handle (\<lambda>w.
     if is_contributor w then fail (zerr ''only the owner commits'')
     else
       (case verify (se_text E) (wr_geo w) (wr_role w) (wr_print w) (wr_state w) given of
          None \<Rightarrow> (\<lambda>x. None)
        | Some (Inl detail) \<Rightarrow> fail (CommitRefused detail)
        | Some (Inr _) \<Rightarrow> transact (apply_commit E given)))"

definition restore_pending :: "writer \<Rightarrow> writer \<Rightarrow> writer" where
  "restore_pending saved w =
     w\<lparr>wr_pending := wr_pending saved, wr_tok_records := wr_tok_records saved, wr_tok_statics := wr_tok_statics saved\<rparr>"

definition flush :: "('s, 'm, 'h) stream_env \<Rightarrow> ('s, commit_token) wio" where
  "flush E =
     bindI handle (\<lambda>w0.
     bindI (update_handle (\<lambda>w. w\<lparr>wr_dirty := []\<rparr>)) (\<lambda>_.
     bindI (for_each (write_shard E) (wr_dirty w0)) (\<lambda>_.
     if wr_role w0 \<noteq> Single then take_token
     else
       bindI handle (\<lambda>saved.
       bindI take_token (\<lambda>token.
         if token_is_empty token then ret token
         else
           bindI (attempt (commit E [token])) (\<lambda>r.
             case r of
               Inl e \<Rightarrow> bindI (update_handle (restore_pending saved)) (\<lambda>_. fail e)
             | Inr receipt \<Rightarrow> ret token))))))"

section \<open>Invalidating\<close>

definition uncommit_entry :: "nat \<Rightarrow> commit_state \<Rightarrow> commit_state option" where
  "uncommit_entry i cs =
     (if i < length (cm_entries cs) then
        Some (cs\<lparr>cm_entries := (cm_entries cs)[i := (cm_entries cs ! i)\<lparr>en_committed := False\<rparr>]\<rparr>)
      else None)"

fun uncommit_entries :: "nat list \<Rightarrow> commit_state \<Rightarrow> commit_state option" where
  "uncommit_entries [] cs = Some cs"
| "uncommit_entries (i # is) cs = Option.bind (uncommit_entry i cs) (uncommit_entries is)"

definition keep_blob :: "nat list \<Rightarrow> blob_rec \<Rightarrow> bool" where
  "keep_blob gone b = (case fst b of BlobRecord i \<Rightarrow> i \<notin> set gone | BlobStatic \<Rightarrow> True)"

definition drop_blobs :: "nat list \<Rightarrow> commit_state \<Rightarrow> commit_state" where
  "drop_blobs gone cs = cs\<lparr>cm_blobs := filter (keep_blob gone) (cm_blobs cs)\<rparr>"

definition bump_seq :: "commit_state \<Rightarrow> commit_state" where
  "bump_seq cs = cs\<lparr>cm_seq := cm_seq cs + 1\<rparr>"

definition invalidate :: "('s, 'm, 'h) stream_env \<Rightarrow> nat list \<Rightarrow> ('s, unit) wio" where
  "invalidate E indices =
     bindI handle (\<lambda>w.
     if is_contributor w then fail (zerr ''only the owner invalidates'')
     else
       (case n_indexed (wr_geo w) of
          None \<Rightarrow> fail (zerr ''invalidate is indexed-mode only (append mode truncates with resume)'')
        | Some n \<Rightarrow>
            (case find (\<lambda>i. n \<le> i) indices of
               Some i \<Rightarrow> fail (zerr (''record index '' @ show_nat i @ '' out of range (n_records = '' @ show_nat n @ '')''))
             | None \<Rightarrow>
                 transact
                   (bindI (or_panic (uncommit_entries indices (wr_state w))) (\<lambda>cs.
                    bindI (update_state (\<lambda>_. bump_seq (rebuild_indexed_shards (g_st (wr_geo w)) (drop_blobs indices cs)))) (\<lambda>_.
                      write_manifest E))))))"

definition uncommit_static :: "string \<Rightarrow> commit_state \<Rightarrow> commit_state" where
  "uncommit_static name cs =
     (case map_of (cm_statics cs) name of
        Some (c, g) \<Rightarrow> cs\<lparr>cm_statics := bt_put name (False, g) (cm_statics cs)\<rparr>
      | None \<Rightarrow> cs)"

definition invalidate_statics :: "('s, 'm, 'h) stream_env \<Rightarrow> string list \<Rightarrow> ('s, unit) wio" where
  "invalidate_statics E names =
     bindI handle (\<lambda>w.
     if is_contributor w then fail (zerr ''only the owner invalidates'')
     else
       (case find (\<lambda>n. \<not> has_key n (cm_statics (wr_state w))) names of
          Some n \<Rightarrow> fail (zerr (''unknown static '' @ sq n))
        | None \<Rightarrow>
            transact
              (bindI (update_state (\<lambda>cs. bump_seq (fold uncommit_static names cs))) (\<lambda>_. write_manifest E))))"

section \<open>Opening and closing\<close>

definition close :: "('s, 'm, 'h) stream_env \<Rightarrow> commit_token list \<Rightarrow> ('s, json option) wio" where
  "close E given =
     bindI handle (\<lambda>w.
     case wr_role w of
       Contributor i \<Rightarrow>
         if given \<noteq> [] then fail (zerr (''a contributor'' @ [CHR 0x27] @ ''s close takes no tokens''))
         else if has_content (wr_pending w) \<or> wr_dirty w \<noteq> [] then
           fail (zerr ''contributor closed with unflushed writes: flush and deliver the token first'')
         else ret None
     | Single \<Rightarrow>
         if given \<noteq> [] then fail (zerr (''a single writer'' @ [CHR 0x27] @ ''s close takes no tokens''))
         else
           bindI (flush E) (\<lambda>_.
           bindI (write_manifest E) (\<lambda>_. asks (\<lambda>(w, s). Some (manifest_json_of E w s))))
     | Owner n \<Rightarrow>
         bindI (flush E) (\<lambda>own.
         bindI (commit E (own # given)) (\<lambda>_. asks (\<lambda>(w, s). Some (manifest_json_of E w s)))))"

text \<open>Opening starts from the store alone: the handle it makes runs its own operations on it.\<close>

definition with_handle :: "writer \<Rightarrow> ('s, unit) wio \<Rightarrow> ('s, writer) io" where
  "with_handle w m s = map_option (\<lambda>(r, w', s'). (case r of Inl e \<Rightarrow> Inl e | Inr u \<Rightarrow> Inr w', s')) (m (w, s))"

definition initial_state :: "stream_schema \<Rightarrow> region \<Rightarrow> commit_state" where
  "initial_state s region =
     empty_state\<lparr>
       cm_entries := (case ss_time_mode s of Append \<Rightarrow> []
         | Indexed n ts \<Rightarrow> map (\<lambda>t. \<lparr>en_t = t, en_committed = False, en_generation = 0\<rparr>) ts),
       cm_statics := bt_of_list (map (\<lambda>v. (sv_name v, False, 0)) (ss_statics s)),
       cm_writers := [(0, region)]\<rparr>"

definition created_version :: "role \<Rightarrow> stream_schema \<Rightarrow> version" where
  "created_version role s =
     (if role = Single \<and> ss_time_mode s = Append \<and> ss_statics s = [] then V1 else V2)"

definition create_role :: "role \<Rightarrow> region \<Rightarrow> unit result" where
  "create_role role region =
     (case role of
        Contributor i \<Rightarrow> Inl (zerr ''a contributor opens a store with join, not create'')
      | Single \<Rightarrow>
          if region \<noteq> [] then
            Inl (zerr ''a Single writer writes the whole array; use Owner { n_writers: 1 } for a region'')
          else Inr ()
      | Owner n \<Rightarrow> Inr ())"

definition create_writer ::
    "('s, 'm, 'h) stream_env \<Rightarrow> string \<Rightarrow> stream_schema \<Rightarrow> role \<Rightarrow> region \<Rightarrow> ('s, writer) io" where
  "create_writer E base schema0 role region0 =
     bindI (of_result (check_role role)) (\<lambda>_.
     bindI (of_result (validate_schema schema0)) (\<lambda>schema.
     bindI (of_result (region_to_map region0)) (\<lambda>region.
     bindI (of_checked (validate_region schema region)) (\<lambda>_.
     bindI (of_result (create_role role region)) (\<lambda>_.
     bindI (of_checked (assemble E base schema role region (created_version role schema) (initial_state schema region))) (\<lambda>w0.
     let w = w0\<lparr>wr_on_disk := False\<rparr> in
       with_handle w
         (bindI (write_layout E) (\<lambda>_. if wr_version w = V2 then write_manifest E else ret ()))))))))"

definition open_manifest :: "('s, 'm, 'h) stream_env \<Rightarrow> (json \<Rightarrow> string) \<Rightarrow> ('s, stream_schema \<times> version \<times> commit_state) io" where
  "open_manifest E show =
     bindI (read_output_manifest E) (\<lambda>m.
     bindI (of_result (from_manifest (se_text E) m)) (\<lambda>(schema, v, cs).
       let fp = schema_fingerprint (se_digest E) schema in
       if v = V2 \<and> as_str (member_of m ''schema_fingerprint'') \<noteq> Some fp then
         fail (zerr (''schema fingerprint mismatch: manifest '' @ show (member_of m ''schema_fingerprint'')
           @ '' vs rebuilt '' @ fp))
       else ret (schema, v, cs)))"

definition has_array :: "('s, 'm, 'h) stream_env \<Rightarrow> string \<Rightarrow> ('s, bool) io" where
  "has_array E name = bindI (get_json E (name @ ''/zarr.json'')) (\<lambda>m. ret (m \<noteq> None))"

definition join_writer ::
    "('s, 'm, 'h) stream_env \<Rightarrow> (json \<Rightarrow> string) \<Rightarrow> string \<Rightarrow> role \<Rightarrow> region \<Rightarrow> ('s, writer) io" where
  "join_writer E show base role region0 =
     bindI (of_result (check_role role)) (\<lambda>_.
     bindI (of_result (case role of Contributor i \<Rightarrow> Inr ()
       | _ \<Rightarrow> Inl (zerr ''join is for contributors; the owner opens with create or resume''))) (\<lambda>_.
     bindI (of_result (region_to_map region0)) (\<lambda>region.
     bindI (open_manifest E show) (\<lambda>(schema, v, cs).
     if v \<noteq> V2 then fail (zerr ''join needs a v2 store (created by an Owner)'')
     else
       bindI (of_checked (validate_region schema region)) (\<lambda>_.
       bindI (of_checked (assemble E base schema role region v cs)) (\<lambda>w.
       bindI (has_array E (ss_time_dim schema)) (\<lambda>tc.
         with_handle (w\<lparr>wr_time_coord := tc\<rparr>) (reload_open_append E (cm_count cs)))))))))"

definition read_time_values :: "('s, 'm, 'h) stream_env \<Rightarrow> geometry \<Rightarrow> nat \<Rightarrow> ('s, f64 list) io" where
  "read_time_values E g n =
     (if n = 0 then ret []
      else
        (let td = ss_time_dim (g_schema g) in
         bindI (of_checked (array_handle E g td [td] DF64 n)) (\<lambda>h.
         bindI (retrieve E h [(0, n)] DF64) (\<lambda>got.
           case got of TF64 v \<Rightarrow> ret v | _ \<Rightarrow> (\<lambda>s. None)))))"

definition truncate_at :: "('s, 'm, 'h) stream_env \<Rightarrow> f64 list \<Rightarrow> nat \<Rightarrow> nat \<Rightarrow> ('s, unit) wio" where
  "truncate_at E tv n n2 =
     (if n \<le> n2 then ret ()
      else
        bindI handle (\<lambda>w.
        bindI (update_state (rebuild_append_shards (take n2 tv) (g_st (wr_geo w)))) (\<lambda>_.
        if is_contributor w then ret ()
        else
          bindI (write_shapes E n2) (\<lambda>_.
          bindI (if wr_version w = V2 then update_state bump_seq else ret ()) (\<lambda>_. write_manifest E)))))"

definition resumed_count :: "f64 \<Rightarrow> f64 list \<Rightarrow> nat" where
  "resumed_count at tv = length (takeWhile (\<lambda>t. f64_le t at) tv)"

definition resume_append :: "('s, 'm, 'h) stream_env \<Rightarrow> f64 option \<Rightarrow> ('s, unit) wio" where
  "resume_append E at =
     bindI handle (\<lambda>w.
     let g = wr_geo w; td = ss_time_dim (g_schema g); n = cm_count (wr_state w) in
     bindI (case at of
              None \<Rightarrow> ret n
            | Some x \<Rightarrow>
                if \<not> wr_time_coord w then
                  fail (zerr (''resume at t = '' @ ft_display (se_text E) x @ '' needs the time coordinate '' @ sq td))
                else
                  bindI (in_store (read_time_values E g n)) (\<lambda>tv.
                  bindI (truncate_at E tv n (resumed_count x tv)) (\<lambda>_. ret (resumed_count x tv)))) (\<lambda>n2.
     bindI (update_handle (\<lambda>w. w\<lparr>wr_next := n2, wr_last_t := cm_last_t (wr_state w)\<rparr>)) (\<lambda>_.
       reload_open_append E n2)))"

definition resume_writer ::
    "('s, 'm, 'h) stream_env \<Rightarrow> (json \<Rightarrow> string) \<Rightarrow> string \<Rightarrow> role \<Rightarrow> region \<Rightarrow> f64 option \<Rightarrow> ('s, writer) io" where
  "resume_writer E show base role region0 at =
     bindI (of_result (check_role role)) (\<lambda>_.
     bindI (of_result (region_to_map region0)) (\<lambda>region.
     bindI (open_manifest E show) (\<lambda>(schema, v, cs).
     if v = V1 \<and> role \<noteq> Single then fail (zerr ''a v1 store has a single writer; resume it with Role::Single'')
     else if role = Single \<and> region \<noteq> [] then fail (zerr ''a Single writer writes the whole array'')
     else
       bindI (of_checked (validate_region schema region)) (\<lambda>_.
       bindI (of_checked (assemble E base schema role region v cs)) (\<lambda>w.
       bindI (has_array E (ss_time_dim schema)) (\<lambda>tc.
       let w' = w\<lparr>wr_time_coord := tc\<rparr> in
       if n_indexed (wr_geo w') \<noteq> None then
         (if at \<noteq> None then fail (zerr ''resume `at` applies to append mode only'') else ret w')
       else with_handle w' (resume_append E at)))))))"

end
