(* ===== verification/StreamTiling.thy ===== *)
theory StreamTiling
  imports StreamCommit
begin

text \<open>
  What an accepted set of commit tokens says: one token of each writer, and regions that tile the extent of
  the region dimensions, so that every cell, and with it the shard it lies in, belongs to exactly one writer.
\<close>

section \<open>Verdicts\<close>

abbreviation accepted :: "verdict \<Rightarrow> bool" where
  "accepted v \<equiv> v = Some (Inr ())"

lemma first_bad_accepted [simp]: "accepted (first_bad f xs) \<longleftrightarrow> (\<forall>x\<in>set xs. accepted (f x))"
proof (induction xs)
  case (Cons x xs)
  then show ?case by (cases "f x") (auto split: sum.splits)
qed simp

lemma also_check_accepted [simp]: "accepted (also_check v w) \<longleftrightarrow> accepted v \<and> accepted w"
  by (cases v) (auto simp: also_check_def split: sum.splits)

lemma refuse_rejected [simp]: "refuse e \<noteq> Some (Inr u)"
  by (simp add: refuse_def)

lemma all_some_Some: "all_some f xs = Some ys \<longleftrightarrow> list_all2 (\<lambda>x y. f x = Some y) xs ys"
  by (induction xs arbitrary: ys) (auto simp: bind_eq_Some_conv list_all2_Cons1)

section \<open>One token of each writer\<close>

lemma by_writer_map:
  "by_writer n ts m = Inr m' \<Longrightarrow> \<forall>(w, t)\<in>set m. ct_writer t = w \<and> w < n \<Longrightarrow> distinct (map fst m) \<Longrightarrow>
     snd ` set m' = set ts \<union> snd ` set m \<and> (\<forall>(w, t)\<in>set m'. ct_writer t = w \<and> w < n) \<and> distinct (map fst m')"
proof (induction ts arbitrary: m)
  case (Cons t ts)
  let ?m = "bt_put (ct_writer t) t m"
  from Cons.prems(1) have t: "ct_writer t < n" "\<not> has_key (ct_writer t) m" "by_writer n ts ?m = Inr m'"
    by (auto split: if_splits)
  have put: "k \<notin> fst ` set m \<Longrightarrow> set (bt_put k v m) = insert (k, v) (set m) \<and> (distinct (map fst m) \<longrightarrow> distinct (map fst (bt_put k v m)))"
    for k :: nat and v :: commit_token and m
  proof (induction k v m rule: bt_put.induct)
    case (2 k v a b m)
    then show ?case using keys_bt_put [of k v m] by auto
  qed simp
  have "ct_writer t \<notin> fst ` set m" using t(2) by (simp add: has_key_def)
  from put [OF this, of t] Cons.prems(2,3) t(1)
  have "\<forall>(w, t)\<in>set ?m. ct_writer t = w \<and> w < n" "distinct (map fst ?m)" "set ?m = insert (ct_writer t, t) (set m)" by auto
  from Cons.IH [OF t(3) this(1,2)] this(3) show ?case by auto
qed simp

lemma by_writer_tokens:
  assumes "by_writer n ts [] = Inr m"
  shows "set (map snd m) = set ts" and "distinct (map snd m)" and "\<forall>t\<in>set ts. ct_writer t < n"
    and "inj_on ct_writer (set ts)"
proof -
  from by_writer_map [OF assms] have e: "snd ` set m = set ts" "\<forall>(w, t)\<in>set m. ct_writer t = w \<and> w < n" "distinct (map fst m)"
    by auto
  show "set (map snd m) = set ts" using e(1) by simp
  have fst: "map fst m = map ct_writer (map snd m)" using e(2) by auto
  then show "distinct (map snd m)" using e(3) by (metis distinct_map)
  show "\<forall>t\<in>set ts. ct_writer t < n" using e(1,2) by fastforce
  show "inj_on ct_writer (set ts)" using e(1,3) fst by (metis distinct_map list.set_map)
qed

section \<open>Regions\<close>

lemma check_range_ok:
  assumes "check_range s d (a, b) = Some (Inr u)"
  obtains n sh where "map_of (dim_lens s) d = Some n" "map_of (ss_shard s) d = Some sh" "0 < sh" "a < b" "b \<le> n"
    "a mod sh = 0" "b mod sh = 0 \<or> b = n"
  using assms that by (auto simp: check_range_def Let_def split: if_splits option.splits)

lemma validate_region_ok: "validate_region s m = Some (Inr u) \<Longrightarrow> (d, r) \<in> set m \<Longrightarrow> \<exists>u. check_range s d r = Some (Inr u)"
proof (induction m)
  case (Cons x m)
  then show ?case by (cases x) (auto split: option.splits sum.splits)
qed simp

definition token_holds :: "commit_token \<Rightarrow> (string \<Rightarrow> nat) \<Rightarrow> bool" where
  "token_holds t cell \<longleftrightarrow> (\<forall>d\<in>set (region_dims t). fst (range_of t d) \<le> cell d \<and> cell d < snd (range_of t d))"

text \<open>A cell of the extent in the same shard as another, along some dimensions.\<close>

definition same_shard :: "stream_schema \<Rightarrow> string list \<Rightarrow> (string \<Rightarrow> nat) \<Rightarrow> (string \<Rightarrow> nat) \<Rightarrow> bool" where
  "same_shard s dims x y \<longleftrightarrow> (\<forall>d\<in>set dims. \<forall>sh n. map_of (ss_shard s) d = Some sh \<longrightarrow> map_of (dim_lens s) d = Some n \<longrightarrow>
     y d < n \<and> y d div sh = x d div sh)"

definition region_cells :: "string list \<Rightarrow> commit_token \<Rightarrow> nat list set" where
  "region_cells rdims t = set (product_lists (map (\<lambda>d. [fst (range_of t d)..<snd (range_of t d)]) rdims))"

lemma card_product: "\<forall>xs\<in>set xss. distinct xs \<Longrightarrow> card (set (product_lists xss)) = prod_list (map length xss)"
  by (simp add: distinct_card distinct_product_lists length_product)

lemma card_region_cells: "card (region_cells rdims t) = volume rdims t"
  by (simp add: region_cells_def card_product volume_def comp_def)

lemma finite_region_cells: "finite (region_cells rdims t)"
  by (simp add: region_cells_def)

lemma region_cells_iff:
  "map cell rdims \<in> region_cells rdims t \<longleftrightarrow> (\<forall>d\<in>set rdims. fst (range_of t d) \<le> cell d \<and> cell d < snd (range_of t d))"
  by (auto simp: region_cells_def product_lists_set list_all2_map1 list_all2_map2 list.rel_map list_all2_same)

lemma region_cells_disjoint:
  assumes "\<not> regions_meet rdims a b"
  shows "region_cells rdims a \<inter> region_cells rdims b = {}"
proof -
  from assms obtain d where d: "d \<in> set rdims"
    "min (snd (range_of a d)) (snd (range_of b d)) \<le> max (fst (range_of a d)) (fst (range_of b d))"
    by (auto simp: regions_meet_def list_all_iff not_less)
  then obtain i where i: "i < length rdims" "rdims ! i = d" by (auto simp: in_set_conv_nth)
  have "False" if "v \<in> region_cells rdims a" "v \<in> region_cells rdims b" for v
  proof -
    from that have "v ! i \<in> set [fst (range_of a d)..<snd (range_of a d)]" "v ! i \<in> set [fst (range_of b d)..<snd (range_of b d)]"
      using i by (auto simp: region_cells_def product_lists_set list_all2_conv_all_nth)
    with d(2) show False by auto
  qed
  then show ?thesis by blast
qed

lemma check_disjoint_ok:
  "accepted (check_disjoint rdims ts) \<Longrightarrow> i < j \<Longrightarrow> j < length ts \<Longrightarrow> \<not> regions_meet rdims (ts ! i) (ts ! j)"
proof (induction ts arbitrary: i j)
  case (Cons a ts)
  from Cons.prems(1) have a: "\<forall>b\<in>set ts. \<not> regions_meet rdims a b" "accepted (check_disjoint rdims ts)"
    by (auto simp: find_None_iff split: option.splits)
  show ?case
  proof (cases i)
    case 0
    with Cons.prems a(1) show ?thesis by (cases j) auto
  next
    case (Suc i')
    with Cons.prems Cons.IH [OF a(2), of i' "j - 1"] show ?thesis by (cases j) auto
  qed
qed simp

text \<open>Disjoint boxes whose volumes add up to the whole extent fill it.\<close>

lemma disjoint_cover:
  assumes "finite W" "\<forall>t\<in>set ts. C t \<subseteq> W" "\<forall>i<length ts. \<forall>j<length ts. i \<noteq> j \<longrightarrow> C (ts ! i) \<inter> C (ts ! j) = {}"
    and "sum_list (map (\<lambda>t. card (C t)) ts) = card W"
  shows "(\<Union>t\<in>set ts. C t) = W"
proof -
  have fin: "finite (C t)" if "t \<in> set ts" for t using assms(1,2) that by (meson finite_subset)
  have "card (\<Union>t\<in>set ts. C t) = card (\<Union>i\<in>{..<length ts}. C (ts ! i))"
    by (metis (no_types, lifting) SUP_cong image_image lessThan_atLeast0 list.set_map map_nth set_upt)
  also have "\<dots> = (\<Sum>i<length ts. card (C (ts ! i)))"
    by (rule card_UN_disjoint) (use fin assms(3) in auto)
  also have "\<dots> = sum_list (map (\<lambda>t. card (C t)) ts)"
    by (simp add: sum_list_sum_nth atLeast0LessThan)
  finally have "card (\<Union>t\<in>set ts. C t) = card W" using assms(4) by simp
  moreover have "(\<Union>t\<in>set ts. C t) \<subseteq> W" using assms(2) by blast
  ultimately show ?thesis using assms(1) by (intro card_subset_eq)
qed

section \<open>What acceptance gives\<close>

lemma verify_accepted:
  assumes "verify T g r own cs toks = Some (Inr ())"
  obtains t0 ts where "set ts = set toks" "distinct ts" "t0 \<in> set ts" "verify_tokens T g own cs ts = Some (Inr ())"
    "hd ts = t0" "ct_writer ` set toks = {..<writer_count r}" "inj_on ct_writer (set toks)"
proof -
  let ?n = "writer_count r"
  from assms obtain m where m: "by_writer ?n toks [] = Inr m" and none: "find (\<lambda>i. \<not> has_key i m) [0..<?n] = None"
    and v: "verify_tokens T g own cs (map snd m) = Some (Inr ())"
    by (auto simp: verify_def Let_def split: sum.splits option.splits)
  note bw = by_writer_tokens [OF m]
  have keys: "\<forall>(w, t)\<in>set m. ct_writer t = w" using by_writer_map [OF m] by auto
  have "ct_writer ` set toks = {..<?n}"
  proof
    show "ct_writer ` set toks \<subseteq> {..<?n}" using bw(3) by auto
    show "{..<?n} \<subseteq> ct_writer ` set toks"
    proof
      fix i assume "i \<in> {..<?n}"
      then have "i \<in> fst ` set m" using none by (auto simp: find_None_iff has_key_def)
      then obtain t where "(i, t) \<in> set m" by auto
      with keys bw(1) show "i \<in> ct_writer ` set toks" by force
    qed
  qed
  moreover obtain t0 rest where "map snd m = t0 # rest" using v by (cases "map snd m") (auto simp: verify_tokens_def)
  ultimately show ?thesis using that [of "map snd m" t0] bw v by auto
qed

lemma verify_tokens_regions:
  assumes "verify_tokens T g own cs ts = Some (Inr ())" "t \<in> set ts"
  shows "region_dims t = region_dims (hd ts)" and "validate_region (g_schema g) (ct_region t) = Some (Inr ())"
    and "accepted (check_disjoint (region_dims (hd ts)) ts)" "accepted (check_cover (g_dim_len g) (region_dims (hd ts)) ts)"
proof -
  from assms obtain t0 rest where ts: "ts = t0 # rest" by (cases ts) auto
  with assms have c: "accepted (check_token_region (g_schema g) t0 t)"
    and "accepted (check_disjoint (region_dims t0) ts)" "accepted (check_cover (g_dim_len g) (region_dims t0) ts)"
    by (auto simp: verify_tokens_def Let_def simp del: first_bad.simps check_disjoint.simps)
  then show "accepted (check_disjoint (region_dims (hd ts)) ts)" "accepted (check_cover (g_dim_len g) (region_dims (hd ts)) ts)"
    by (simp_all add: ts)
  from c show "region_dims t = region_dims (hd ts)" "validate_region (g_schema g) (ct_region t) = Some (Inr ())"
    by (auto simp: check_token_region_def ts split: if_splits option.splits sum.splits)
qed

lemma range_of_ok:
  assumes "validate_region s (ct_region t) = Some (Inr ())" "d \<in> set (region_dims t)"
  obtains n sh where "map_of (dim_lens s) d = Some n" "map_of (ss_shard s) d = Some sh" "0 < sh"
    "fst (range_of t d) < snd (range_of t d)" "snd (range_of t d) \<le> n"
    "fst (range_of t d) mod sh = 0" "snd (range_of t d) mod sh = 0 \<or> snd (range_of t d) = n"
proof -
  obtain r where r: "map_of (ct_region t) d = Some r" using assms(2) unfolding region_dims_def
    by (metis list.set_map map_of_eq_None_iff not_None_eq)
  obtain a b where ab: "r = (a, b)" by (cases r)
  obtain u where "check_range s d (a, b) = Some (Inr u)"
    using validate_region_ok [OF assms(1) map_of_SomeD [OF r]] ab by auto
  from check_range_ok [OF this] that r ab show ?thesis by (auto simp: range_of_def)
qed

lemma same_shard_range:
  fixes x y a b sh n :: nat
  assumes "0 < sh" "a \<le> x" "x < b" "a mod sh = 0" "b mod sh = 0 \<or> b = n" "y < n" "y div sh = x div sh"
  shows "a \<le> y \<and> y < b"
proof
  have "a = a div sh * sh" using assms(4) by (metis add.right_neutral div_mult_mod_eq)
  moreover have "a div sh \<le> y div sh" using assms(2,7) by (simp add: div_le_mono)
  then have "a div sh * sh \<le> y" by (metis div_times_less_eq_dividend le_trans mult_le_mono1)
  ultimately show "a \<le> y" by simp
  show "y < b"
  proof (cases "b = n")
    case False
    then have b: "b = b div sh * sh" using assms(5) by (metis add.right_neutral div_mult_mod_eq)
    then have "x div sh < b div sh" using assms(1,3) by (metis less_mult_imp_div_less)
    then show ?thesis using assms(1,7) b by (metis div_less_iff_less_mult)
  qed (use assms in simp)
qed

text \<open>The regions of accepted tokens cover the extent of their dimensions, and no two share a cell of it.\<close>

lemma regions_tile:
  assumes v: "verify_tokens T g own cs ts = Some (Inr ())" and len: "g_dim_len g = dim_lens (g_schema g)" and ts: "t0 \<in> set ts" "hd ts = t0"
  obtains lens where "list_all2 (\<lambda>d n. map_of (dim_lens (g_schema g)) d = Some n) (region_dims t0) lens"
    "(\<Union>t\<in>set ts. region_cells (region_dims t0) t) = set (product_lists (map (\<lambda>n. [0..<n]) lens))"
    "\<forall>i<length ts. \<forall>j<length ts. i \<noteq> j \<longrightarrow> region_cells (region_dims t0) (ts ! i) \<inter> region_cells (region_dims t0) (ts ! j) = {}"
proof -
  let ?rd = "region_dims t0" let ?C = "region_cells ?rd"
  note v = verify_tokens_regions [OF v]
  have dims: "region_dims t = ?rd" if "t \<in> set ts" for t using v(1) [OF that] ts(2) by simp
  obtain lens where lens: "all_some (map_of (g_dim_len g)) ?rd = Some lens"
    and vol: "sum_list (map (volume ?rd) ts) = prod_list lens"
    using v(4) [OF ts(1)] ts(2) by (auto simp: check_cover_def Let_def split: option.splits if_splits)
  let ?W = "set (product_lists (map (\<lambda>n. [0..<n]) lens))"
  have l2: "list_all2 (\<lambda>d n. map_of (dim_lens (g_schema g)) d = Some n) ?rd lens"
    using lens len by (simp add: all_some_Some)
  have sub: "?C t \<subseteq> ?W" if t: "t \<in> set ts" for t
  proof
    fix c assume "c \<in> ?C t"
    then have c: "length c = length ?rd" "\<And>i. i < length ?rd \<Longrightarrow> c ! i < snd (range_of t (?rd ! i))"
      by (auto simp: region_cells_def product_lists_set list_all2_conv_all_nth)
    have "c ! i < lens ! i" if i: "i < length ?rd" for i
    proof -
      have "?rd ! i \<in> set (region_dims t)" using i dims [OF t] by simp
      with v(2) [OF t] obtain n where "map_of (dim_lens (g_schema g)) (?rd ! i) = Some n" "snd (range_of t (?rd ! i)) \<le> n"
        by (rule range_of_ok) blast
      with c(2) [OF i] list_all2_nthD [OF l2 i] show ?thesis by simp
    qed
    with c(1) l2 show "c \<in> ?W" by (auto simp: product_lists_set list_all2_conv_all_nth)
  qed
  have disj: "?C (ts ! i) \<inter> ?C (ts ! j) = {}" if "i < length ts" "j < length ts" "i \<noteq> j" for i j
  proof -
    have "i < j \<Longrightarrow> ?C (ts ! i) \<inter> ?C (ts ! j) = {}" "j < i \<Longrightarrow> ?C (ts ! j) \<inter> ?C (ts ! i) = {}"
      using check_disjoint_ok v(3) [OF ts(1)] ts(2) that region_cells_disjoint by blast+
    with that(3) show ?thesis by (metis Int_commute linorder_neqE_nat)
  qed
  have "card ?W = prod_list lens" by (simp add: card_product comp_def)
  then have "(\<Union>t\<in>set ts. ?C t) = ?W"
    using disj sub vol by (intro disjoint_cover) (auto simp: card_region_cells)
  with l2 disj that show ?thesis by blast
qed

definition in_region_extent :: "stream_schema \<Rightarrow> string list \<Rightarrow> (string \<Rightarrow> nat) \<Rightarrow> bool" where
  "in_region_extent s rdims cell \<longleftrightarrow> (\<forall>d\<in>set rdims. \<forall>n. map_of (dim_lens s) d = Some n \<longrightarrow> cell d < n)"

lemma tokens_hold_once:
  assumes ok: "verify T g r own cs toks = Some (Inr ())" and len: "g_dim_len g = dim_lens (g_schema g)"
    and cell: "\<forall>t\<in>set toks. in_region_extent (g_schema g) (region_dims t) cell"
  shows "ct_writer ` set toks = {..<writer_count r} \<and> inj_on ct_writer (set toks) \<and>
    (\<exists>t\<in>set toks. \<forall>t'\<in>set toks. token_holds t' cell \<longleftrightarrow> t' = t)"
proof -
  obtain t0 ts where ts: "set ts = set toks" "distinct ts" "t0 \<in> set ts" "verify_tokens T g own cs ts = Some (Inr ())"
    "hd ts = t0" and w: "ct_writer ` set toks = {..<writer_count r}" "inj_on ct_writer (set toks)"
    by (rule verify_accepted [OF ok]) (rule that)
  let ?rd = "region_dims t0" let ?C = "region_cells ?rd"
  obtain lens where l2: "list_all2 (\<lambda>d n. map_of (dim_lens (g_schema g)) d = Some n) ?rd lens"
    and cover: "(\<Union>t\<in>set ts. ?C t) = set (product_lists (map (\<lambda>n. [0..<n]) lens))"
    and disj: "\<forall>i<length ts. \<forall>j<length ts. i \<noteq> j \<longrightarrow> ?C (ts ! i) \<inter> ?C (ts ! j) = {}"
    by (rule regions_tile [OF ts(4) len ts(3,5)]) (rule that)
  have "map cell ?rd \<in> set (product_lists (map (\<lambda>n. [0..<n]) lens))"
    using l2 cell ts(1,3) by (auto simp: in_region_extent_def product_lists_set list_all2_conv_all_nth)
  with cover obtain t where t: "t \<in> set ts" "map cell ?rd \<in> ?C t" by blast
  have holds: "token_holds t' cell \<longleftrightarrow> map cell ?rd \<in> ?C t'" if "t' \<in> set ts" for t'
    using verify_tokens_regions(1) [OF ts(4) that] ts(5) by (simp add: token_holds_def region_cells_iff)
  have "t' = t" if t': "t' \<in> set ts" "token_holds t' cell" for t'
  proof (rule ccontr)
    assume "t' \<noteq> t"
    with t'(1) t(1) obtain i j where "i < length ts" "j < length ts" "ts ! i = t" "ts ! j = t'" "i \<noteq> j"
      by (metis in_set_conv_nth)
    with disj t(2) holds [OF t'(1)] t'(2) show False by blast
  qed
  with t holds ts(1) w show ?thesis by blast
qed

lemma token_region_ok:
  assumes "verify T g r own cs toks = Some (Inr ())" "t \<in> set toks"
  shows "validate_region (g_schema g) (ct_region t) = Some (Inr ())" and "t' \<in> set toks \<Longrightarrow> region_dims t' = region_dims t"
proof -
  obtain t0 ts where ts: "set ts = set toks" "verify_tokens T g own cs ts = Some (Inr ())"
    by (rule verify_accepted [OF assms(1)]) (rule that)
  with verify_tokens_regions [OF ts(2)] assms(2)
  show "validate_region (g_schema g) (ct_region t) = Some (Inr ())" "t' \<in> set toks \<Longrightarrow> region_dims t' = region_dims t" by metis+
qed

lemma token_holds_shard:
  assumes ok: "validate_region s (ct_region t) = Some (Inr ())" and x: "token_holds t x" and y: "same_shard s (region_dims t) x y"
  shows "token_holds t y"
  unfolding token_holds_def
proof
  fix d assume d: "d \<in> set (region_dims t)"
  with ok obtain n sh where
    r: "map_of (dim_lens s) d = Some n" "map_of (ss_shard s) d = Some sh" "0 < sh"
      "fst (range_of t d) < snd (range_of t d)" "snd (range_of t d) \<le> n"
      "fst (range_of t d) mod sh = 0" "snd (range_of t d) mod sh = 0 \<or> snd (range_of t d) = n"
    by (rule range_of_ok) (rule that)
  have "fst (range_of t d) \<le> x d" "x d < snd (range_of t d)" using x d by (auto simp: token_holds_def)
  from same_shard_range [OF r(3) this r(6,7)] y d r(1,2)
  show "fst (range_of t d) \<le> y d \<and> y d < snd (range_of t d)" by (simp add: same_shard_def)
qed

text \<open>
  C20: a set of commit tokens that the owner accepts has exactly one token of each writer, and their
  regions tile the extent of the region dimensions: every cell of the extent lies in the region of exactly
  one writer, together with every cell of its shard, so every shard object has exactly one writer.
\<close>

theorem accepted_tokens_tile:
  assumes ok: "verify T g r own cs toks = Some (Inr ())" and len: "g_dim_len g = dim_lens (g_schema g)"
    and cell: "\<forall>t\<in>set toks. in_region_extent (g_schema g) (region_dims t) cell"
  shows "ct_writer ` set toks = {..<writer_count r} \<and>
    (\<exists>t\<in>set toks. (\<forall>t'\<in>set toks. token_holds t' cell \<longleftrightarrow> t' = t) \<and>
       (\<forall>y. same_shard (g_schema g) (region_dims t) cell y \<longrightarrow> token_holds t y))"
  using tokens_hold_once [OF assms] token_region_ok(1) [OF ok] token_holds_shard by metis

section \<open>Two writers\<close>

definition plain_text :: f64_text where
  "plain_text = \<lparr>ft_json = (\<lambda>t. show_nat (unat t)), ft_display = (\<lambda>t. show_nat (unat t)), ft_debug = (\<lambda>t. show_nat (unat t)),
     ft_read = (\<lambda>s. of_nat (dec_value s)), ft_int = (\<lambda>n. of_int n)\<rparr>"

definition two_schema :: stream_schema where
  "two_schema = \<lparr>ss_dims = [(''t'', 0), (''x'', 3)], ss_time_dim = ''t'', ss_chunk = [(''t'', 1), (''x'', 1)],
     ss_shard = [(''t'', 2), (''x'', 2)], ss_coords = [],
     ss_vars = [\<lparr>sv_name = ''v'', sv_dims = [''t'', ''x''], sv_dtype = DU8, sv_attrs = []\<rparr>],
     ss_statics = [], ss_time_mode = Append, ss_group_attrs = [], ss_profile = ''wasm''\<rparr>"

definition two_geometry :: geometry where
  "two_geometry = \<lparr>g_schema = two_schema, g_codec = Zstd 5 False, g_region = [(''x'', 0, 2)],
     g_dim_len = [(''t'', 0), (''x'', 3)], g_st = 2\<rparr>"

definition token_on :: "nat \<Rightarrow> nat \<times> nat \<Rightarrow> commit_token" where
  "token_on w r = \<lparr>ct_schema = token_schema, ct_writer = w, ct_region = [(''x'', r)], ct_fingerprint = ''f'',
     ct_records = [(0, 7)], ct_statics = [], ct_blobs = [], ct_objects = []\<rparr>"

theorem accepted_tokens_tile_witness:
  "\<exists>t\<in>{token_on 0 (0, 2), token_on 1 (2, 3)}. \<forall>t'\<in>{token_on 0 (0, 2), token_on 1 (2, 3)}.
     token_holds t' (\<lambda>d. 2) \<longleftrightarrow> t' = t"
proof -
  have v: "verify plain_text two_geometry (Owner 2) ''f'' empty_state [token_on 1 (2, 3), token_on 0 (0, 2)] = Some (Inr ())"
    by code_simp
  have l: "g_dim_len two_geometry = dim_lens (g_schema two_geometry)" by code_simp
  have lens: "dim_lens (g_schema two_geometry) = [(''t'', 0), (''x'', 3)]" by code_simp
  have c: "\<forall>t\<in>set [token_on 1 (2, 3), token_on 0 (0, 2)]. in_region_extent (g_schema two_geometry) (region_dims t) (\<lambda>d. 2)"
    unfolding in_region_extent_def lens by (simp add: token_on_def region_dims_def)
  from accepted_tokens_tile [OF v l c] show ?thesis by (auto simp: insert_commute)
qed

end
