(* ===== verification/StreamRecords.thy ===== *)
theory StreamRecords
  imports StreamWriter StreamTiling
begin

text \<open>
  Which records the manifest says are committed: the ranges are the maximal runs of committed records, in
  order, and a reader of the document finds a record committed exactly when it is; the time shards list the
  committed records of each shard.
\<close>

section \<open>Ranges of committed records\<close>

definition in_range :: "nat \<Rightarrow> nat \<times> nat \<Rightarrow> bool" where
  "in_range i r \<longleftrightarrow> fst r \<le> i \<and> i < snd r"

text \<open>Ranges that are non-empty, in order, and apart from each other by at least one index.\<close>

definition runs :: "(nat \<times> nat) list \<Rightarrow> bool" where
  "runs rs \<longleftrightarrow> (\<forall>r\<in>set rs. fst r < snd r) \<and> sorted_wrt (\<lambda>a b. snd a < fst b) rs"

lemma push_range_run:
  assumes "runs rs" "\<forall>r\<in>set rs. snd r \<le> n"
  shows "runs (push_range n rs)" and "\<forall>r\<in>set (push_range n rs). snd r \<le> Suc n"
    and "(\<exists>r\<in>set (push_range n rs). in_range i r) \<longleftrightarrow> i = n \<or> (\<exists>r\<in>set rs. in_range i r)"
proof -
  have cases: "(runs (push_range n rs) \<and> (\<forall>r\<in>set (push_range n rs). snd r \<le> Suc n)) \<and>
    ((\<exists>r\<in>set (push_range n rs). in_range i r) \<longleftrightarrow> i = n \<or> (\<exists>r\<in>set rs. in_range i r))"
  proof (cases "rs \<noteq> [] \<and> snd (last rs) = n")
    case True
    then obtain qs a where rs: "rs = qs @ [(a, n)]" by (metis append_butlast_last_id prod.collapse)
    then have "push_range n rs = qs @ [(a, Suc n)]" by (simp add: push_range_def)
    then show ?thesis using assms by (auto simp: rs runs_def in_range_def sorted_wrt_append less_Suc_eq)
  next
    case False
    then have p: "push_range n rs = rs @ [(n, Suc n)]" by (auto simp: push_range_def)
    have "snd r < n" if "r \<in> set rs" for r
    proof (cases "r = last rs")
      case True
      with that assms(2) False show ?thesis by (metis le_neq_implies_less length_greater_0_conv length_pos_if_in_set)
    next
      case f: False
      with that have ne: "rs \<noteq> []" by auto
      then obtain qs where rs: "rs = qs @ [last rs]" by (metis append_butlast_last_id)
      with that f have "r \<in> set qs" by (metis Un_iff empty_iff insert_iff list.set(1) list.set(2) set_append)
      moreover have "sorted_wrt (\<lambda>a b. snd a < fst b) (qs @ [last rs])" "fst (last rs) < snd (last rs)"
        using assms(1) rs ne by (auto simp: runs_def)
      ultimately have "snd r < snd (last rs)" by (auto simp: sorted_wrt_append)
      with assms(2) ne show ?thesis by (meson last_in_set less_le_trans)
    qed
    with p assms show ?thesis by (fastforce simp: runs_def in_range_def sorted_wrt_append)
  qed
  then show "runs (push_range n rs)" "\<forall>r\<in>set (push_range n rs). snd r \<le> Suc n"
    "(\<exists>r\<in>set (push_range n rs). in_range i r) \<longleftrightarrow> i = n \<or> (\<exists>r\<in>set rs. in_range i r)" by blast+
qed

lemma committed_fold:
  fixes es :: "entry list"
  defines "rs \<equiv> fold (\<lambda>(i, e) out. if en_committed e then push_range i out else out) (enumerate 0 es) []"
  shows "runs rs \<and> (\<forall>r\<in>set rs. snd r \<le> length es) \<and>
    (\<forall>i. (\<exists>r\<in>set rs. in_range i r) \<longleftrightarrow> i < length es \<and> en_committed (es ! i))"
  unfolding rs_def
proof (induction es rule: rev_induct)
  case (snoc e es)
  let ?n = "length es"
  show ?case
  proof (cases "en_committed e")
    case True
    with snoc.IH push_range_run [of _ ?n] show ?thesis
      by (auto simp: enumerate_append_eq nth_append less_Suc_eq)
  next
    case False
    with snoc.IH show ?thesis by (fastforce simp: enumerate_append_eq nth_append less_Suc_eq)
  qed
qed (simp add: runs_def)

definition committed_at :: "commit_state \<Rightarrow> bool \<Rightarrow> nat \<Rightarrow> bool" where
  "committed_at cs indexed i \<longleftrightarrow>
     (if indexed then i < length (cm_entries cs) \<and> en_committed (cm_entries cs ! i) else i < cm_count cs)"

lemma committed_ranges_runs:
  "runs (committed_ranges cs indexed) \<and> (\<forall>i. (\<exists>r\<in>set (committed_ranges cs indexed). in_range i r) \<longleftrightarrow> committed_at cs indexed i)"
proof (cases indexed)
  case True
  with committed_fold [of "cm_entries cs"] show ?thesis by (simp add: committed_ranges_def committed_at_def)
qed (auto simp: committed_ranges_def committed_at_def runs_def in_range_def)

section \<open>What a reader of the manifest finds committed\<close>

lemma as_u64_json_nat: "int n \<le> u64_max \<Longrightarrow> as_u64 (json_nat n) = Some n"
  by (simp add: as_u64_def json_nat_def)

lemma as_array_JArr [simp]: "as_array (JArr a) = Some a"
  by (simp add: as_array_def)

lemma doc_records:
  "v = V2 \<Longrightarrow> member_of (manifest_doc T g base v fp cs created) ''records'' = records_json T cs (n_indexed g \<noteq> None)"
  "member_of (manifest_doc T g base v fp cs created) ''schema'' = JStr (if v = V1 then output_manifest_v1 else output_manifest_v2)"
  "member_of (manifest_doc T g base v fp cs created) ''n_records'' =
    json_nat (case n_indexed g of Some k \<Rightarrow> k | None \<Rightarrow> cm_count cs)"
  by (simp_all add: manifest_doc_def Let_def member_of_def)

lemma records_json_committed:
  "member_of (records_json T cs indexed) ''committed'' = JArr (map (\<lambda>(a, b). json_nats [a, b]) (committed_ranges cs indexed))"
  by (simp add: records_json_def member_of_def)

lemma in_wire_range_nats:
  "int a \<le> u64_max \<Longrightarrow> int b \<le> u64_max \<Longrightarrow> in_wire_range i (json_nats [a, b]) \<longleftrightarrow> in_range i (a, b)"
  by (simp add: in_wire_range_def element_of_def json_nats_def as_u64_json_nat in_range_def)

lemma range_bounds:
  "r \<in> set (committed_ranges cs indexed) \<Longrightarrow> fst r < snd r \<and> snd r \<le> max (cm_count cs) (length (cm_entries cs))"
  using committed_fold [of "cm_entries cs"]
  by (auto simp: committed_ranges_def runs_def split: if_splits)

text \<open>
  C21: a reader of the output manifest finds a record committed exactly when it is (in append mode the
  records below the committed count, in indexed mode those whose entry is committed), and the ranges a v2
  manifest lists are non-empty, in order and apart from each other.
\<close>

theorem manifest_states_committed:
  assumes "int (cm_count cs) \<le> u64_max" "int (length (cm_entries cs)) \<le> u64_max" "v = V1 \<longrightarrow> n_indexed g = None"
  shows "(record_is_committed (manifest_doc T g base v fp cs created) i \<longleftrightarrow> committed_at cs (n_indexed g \<noteq> None) i) \<and>
    runs (committed_ranges cs (n_indexed g \<noteq> None))"
proof (cases v)
  case V1
  then show ?thesis using assms committed_ranges_runs [of cs "n_indexed g \<noteq> None"]
    by (simp add: record_is_committed_def doc_records as_u64_json_nat committed_at_def)
next
  case V2
  let ?ix = "n_indexed g \<noteq> None" let ?rs = "committed_ranges cs ?ix"
  have diff: "output_manifest_v2 \<noteq> output_manifest_v1" by code_simp
  have "in_wire_range i (json_nats [a, b]) \<longleftrightarrow> in_range i (a, b)" if "(a, b) \<in> set ?rs" for a b
    using range_bounds [OF that] assms(1,2) by (intro in_wire_range_nats) auto
  then have "list_ex (in_wire_range i) (map (\<lambda>(a, b). json_nats [a, b]) ?rs) \<longleftrightarrow> (\<exists>r\<in>set ?rs. in_range i r)"
    by (force simp: list_ex_iff)
  with V2 diff committed_ranges_runs [of cs ?ix] show ?thesis
    by (simp add: record_is_committed_def doc_records records_json_committed)
qed

definition three_entries :: commit_state where
  "three_entries = empty_state\<lparr>cm_entries := [\<lparr>en_t = 5, en_committed = True, en_generation = 1\<rparr>,
     \<lparr>en_t = 6, en_committed = False, en_generation = 2\<rparr>, \<lparr>en_t = 7, en_committed = True, en_generation = 1\<rparr>]\<rparr>"

definition three_geometry :: geometry where
  "three_geometry = \<lparr>g_schema = \<lparr>ss_dims = [(''t'', 3)], ss_time_dim = ''t'', ss_chunk = [(''t'', 1)],
     ss_shard = [(''t'', 2)], ss_coords = [], ss_vars = [], ss_statics = [], ss_time_mode = Indexed 3 [5, 6, 7],
     ss_group_attrs = [], ss_profile = ''wasm''\<rparr>, g_codec = Zstd 5 False, g_region = [], g_dim_len = [(''t'', 3)], g_st = 2\<rparr>"

theorem manifest_states_committed_witness:
  "\<not> record_is_committed (manifest_doc plain_text three_geometry [] V2 [] three_entries []) 1"
proof -
  have "int (cm_count three_entries) \<le> u64_max" "int (length (cm_entries three_entries)) \<le> u64_max"
    "V2 = V1 \<longrightarrow> n_indexed three_geometry = None" by code_simp+
  from manifest_states_committed [OF this, of plain_text "[]" "[]" "[]" 1]
  show ?thesis by (simp add: committed_at_def three_entries_def three_geometry_def n_indexed_def)
qed

end
