(* ===== verification/StreamData.thy ===== *)
theory StreamData
  imports StreamStore
begin

text \<open>
  What a box leaves in the store: an aligned box written as whole shards changes exactly its own cells, and
  reading a box back gives the cells of the array. What the \<open>zarrs\<close> library promises of a stored shard and of a
  retrieved subset is the locale \<open>shard_store\<close>, interpreted on a store that keeps the cells.
\<close>

section \<open>Bytes of elements\<close>

lemma le_bytes_from_le:
  assumes "LENGTH('a) = 8 * n" "length bs = n"
  shows "le_bytes n (from_le bs :: 'a::len word) = bs"
proof (rule nth_equalityI)
  fix i assume "i < length (le_bytes n (from_le bs :: 'a word))"
  then have i: "i < n" by simp
  show "le_bytes n (from_le bs :: 'a word) ! i = bs ! i"
  proof (rule bit_eqI)
    fix k assume "possible_bit TYPE(8 word) k"
    then have k: "k < 8" by (simp add: possible_bit_word)
    have "8 * i + k < LENGTH('a)" using i k assms(1) by linarith
    moreover have "(8 * i + k) div 8 = i" "(8 * i + k) mod 8 = k" using k by simp_all
    ultimately show "bit (le_bytes n (from_le bs :: 'a word) ! i) k \<longleftrightarrow> bit (bs ! i) k"
      using i k assms(2) by (simp add: le_bytes_def bit_simps bit_from_le)
  qed
qed (use assms in simp)

lemma ne_bytes_from_ne:
  assumes "LENGTH('a) = 8 * n" "0 < n"
  shows "length b = m * n \<Longrightarrow> ne_bytes n (from_ne n b :: 'a::len word list) = b"
proof (induction m arbitrary: b)
  case 0
  with assms(2) show ?case by (simp add: ne_bytes_def from_ne_def chunks_exact.simps)
next
  case (Suc m)
  then have l: "n \<le> length b" "length (drop n b) = m * n" by simp_all
  then have "(from_ne n b :: 'a word list) = from_le (take n b) # from_ne n (drop n b)"
    using assms(2) by (subst from_ne_def, subst chunks_exact.simps) (simp add: from_ne_def)
  with Suc.IH [OF l(2)] le_bytes_from_le [OF assms(1), of "take n b"] l(1) show ?case
    by (simp add: ne_bytes_def)
qed

lemma to_from_ne_bytes:
  "length b = m * dtype_size dt \<Longrightarrow> to_ne_bytes (from_ne_bytes dt b) = b"
  by (cases dt) (simp_all add: ne_bytes_from_ne [where m = m])

lemma dtype_from_ne_bytes [simp]: "typed_dtype (from_ne_bytes dt b) = dt"
  by (cases dt) simp_all

lemma dtype_size_pos [simp]: "0 < dtype_size dt" "dtype_size dt \<noteq> 0"
  by (cases dt; simp)+

lemma len_from_ne_bytes:
  assumes "length b = m * dtype_size dt"
  shows "typed_len (from_ne_bytes dt b) = m"
proof -
  have "typed_len (from_ne_bytes dt b) * dtype_size dt = m * dtype_size dt"
    using length_to_ne_bytes [of "from_ne_bytes dt b"] assms by (simp add: to_from_ne_bytes [OF assms])
  then show ?thesis by simp
qed

section \<open>Products of ranges\<close>

lemma extend_all: "fold extend_tuples rs out = concat (map (\<lambda>p. map ((@) p) (product_lists (map (\<lambda>(a, b). [a..<b]) rs))) out)"
proof (induction rs arbitrary: out)
  case (Cons r rs)
  have e: "concat (map F (concat xss)) = concat (map (\<lambda>xs. concat (map F xs)) xss)" for F :: "nat list \<Rightarrow> nat list list" and xss
    by (induction xss) simp_all
  have app: "(@) (p @ [x]) = (\<lambda>ys. p @ x # ys)" for p :: "nat list" and x
    by (rule ext) simp
  have "fold extend_tuples (r # rs) out = fold extend_tuples rs (extend_tuples r out)" by simp
  also have "\<dots> = concat (map (\<lambda>p. map ((@) p) (product_lists (map (\<lambda>(a, b). [a..<b]) rs))) (extend_tuples r out))"
    by (rule Cons.IH)
  also have "\<dots> = concat (map (\<lambda>p. map ((@) p) (product_lists (map (\<lambda>(a, b). [a..<b]) (r # rs)))) out)"
    by (cases r; induction out) (simp_all add: extend_tuples_def map_concat comp_def e app)
  finally show ?case .
qed simp

lemma range_product_lists: "range_product rs = product_lists (map (\<lambda>(a, b). [a..<b]) rs)"
  by (simp add: range_product_def extend_all map_idI)

lemma in_range_product:
  "idx \<in> set (range_product rs) \<longleftrightarrow> length idx = length rs \<and> (\<forall>k<length rs. fst (rs ! k) \<le> idx ! k \<and> idx ! k < snd (rs ! k))"
  by (auto simp: range_product_lists product_lists_set list_all2_conv_all_nth case_prod_unfold)

section \<open>The laws of the array library\<close>

type_synonym array_info = "string \<times> nat list \<times> nat list \<times> stream_dtype"

text \<open>\<open>cell s name g\<close> are the bytes of element \<open>g\<close> of array \<open>name\<close>; \<open>arr h\<close> is the name, the shape, the shard
  shape and the element type of a handle.\<close>

locale shard_store =
  fixes E :: "('s, 'm, 'h) stream_env" and cell :: "'s \<Rightarrow> string \<Rightarrow> nat list \<Rightarrow> 8 word list" and arr :: "'h \<Rightarrow> array_info"
  assumes handle_arr:
    "array_meta dims shape chunk shard dt codec [] = Inr meta \<Longrightarrow> array_from_meta E nm meta = Inr h \<Longrightarrow>
       pick_dims dims shard ''shard_shape'' = Inr sz \<Longrightarrow> arr h = (nm, shape, sz, dt)"
    and store_cells:
    "arr h = (nm, shape, sz, dt) \<Longrightarrow> typed_dtype a = dt \<Longrightarrow> typed_len a = prod_list sz \<Longrightarrow> length idx = length sz \<Longrightarrow>
       0 \<notin> set sz \<Longrightarrow> se_store_chunk E h idx a s = (Inr u, s') \<Longrightarrow>
       cell s' nm' g = (if nm' = nm \<and> length g = length sz \<and> map2 (div) g sz = idx
         then elt (dtype_size dt) (to_ne_bytes a) (position_of sz (map2 (mod) g sz)) else cell s nm' g)"
    and retrieve_cells:
    "arr h = (nm, shape, sz, dt) \<Longrightarrow> length ranges = length shape \<Longrightarrow> \<forall>k<length shape. snd (ranges ! k) \<le> shape ! k \<Longrightarrow>
       se_retrieve E h ranges dt s = (Inr a, s') \<Longrightarrow>
       to_ne_bytes a = concat (map (cell s nm) (range_product ranges)) \<and> s' = s \<and>
       (\<forall>g\<in>set (range_product ranges). length (cell s nm g) = dtype_size dt)"

section \<open>Aligned boxes\<close>

definition aligned :: "nat list \<Rightarrow> nat list \<Rightarrow> nd_buf \<Rightarrow> bool" where
  "aligned sz extent buf \<longleftrightarrow> length sz = length (nb_shape buf) \<and> length extent = length (nb_shape buf) \<and>
     (\<forall>k<length sz. 0 < sz ! k \<and> nb_origin buf ! k mod sz ! k = 0 \<and>
        ((nb_origin buf ! k + nb_shape buf ! k) mod sz ! k = 0 \<or> nb_origin buf ! k + nb_shape buf ! k = extent ! k))"

lemma shard_ranges_nth:
  assumes "length sz = length (nb_shape buf)" "length (nb_origin buf) = length (nb_shape buf)" "k < length sz"
  shows "shard_ranges sz buf ! k = (nb_origin buf ! k div sz ! k, div_ceil (nb_origin buf ! k + nb_shape buf ! k) (sz ! k))"
  using assms by (simp add: shard_ranges_def)

lemma less_div_ceil: "0 < s \<Longrightarrow> q < div_ceil n s \<longleftrightarrow> q * s < n"
proof -
  assume s: "0 < s"
  have "q < div_ceil n s \<longleftrightarrow> Suc q * s \<le> n + s - 1"
    using less_eq_div_iff_mult_less_eq [OF s, of "Suc q" "n + s - 1"] by (simp add: div_ceil_def less_eq_Suc_le)
  also have "\<dots> \<longleftrightarrow> q * s < n" using s by auto
  finally show ?thesis .
qed

text \<open>A cell of the extent lies in a shard that an aligned box touches exactly when it is in the box.\<close>

lemma aligned_shard:
  assumes al: "aligned sz extent buf" and ok: "box_ok buf" and g: "in_shape extent g"
  shows "map2 (div) g sz \<in> set (range_product (shard_ranges sz buf)) \<longleftrightarrow> in_box buf g"
proof -
  have l: "length sz = length (nb_shape buf)" "length extent = length sz" "length (nb_origin buf) = length sz" "length g = length sz"
    using al ok g by (auto simp: aligned_def box_ok_def in_shape_def)
  have len: "length (shard_ranges sz buf) = length sz" using l by (simp add: shard_ranges_def)
  have one: "(nb_origin buf ! k div sz ! k \<le> g ! k div sz ! k \<and>
      g ! k div sz ! k < div_ceil (nb_origin buf ! k + nb_shape buf ! k) (sz ! k)) \<longleftrightarrow>
    (nb_origin buf ! k \<le> g ! k \<and> g ! k < nb_origin buf ! k + nb_shape buf ! k)" if k: "k < length sz" for k
  proof -
    let ?s = "sz ! k" and ?o = "nb_origin buf ! k" and ?e = "nb_origin buf ! k + nb_shape buf ! k" and ?x = "g ! k"
    have a: "0 < ?s" "?o mod ?s = 0" "?e mod ?s = 0 \<or> ?e = extent ! k" "?x < extent ! k"
      using al g k l by (auto simp: aligned_def in_shape_def)
    have o': "?o = ?o div ?s * ?s" using a(2) by (metis add.right_neutral div_mult_mod_eq)
    have "?o div ?s \<le> ?x div ?s \<longleftrightarrow> ?o \<le> ?x"
      using less_eq_div_iff_mult_less_eq [OF a(1), of "?o div ?s" ?x] o' by simp
    moreover have "?x div ?s * ?s < ?e \<longleftrightarrow> ?x < ?e"
    proof
      assume h: "?x div ?s * ?s < ?e"
      show "?x < ?e"
      proof (cases "?e mod ?s = 0")
        case True
        then have e: "?e = ?e div ?s * ?s" by (metis add.right_neutral div_mult_mod_eq)
        then have "?x div ?s < ?e div ?s" using h a(1) by (metis mult_less_cancel2)
        then show ?thesis using a(1) e by (metis div_less_iff_less_mult)
      qed (use a in simp)
    next
      assume "?x < ?e"
      then show "?x div ?s * ?s < ?e" by (meson div_times_less_eq_dividend le_less_trans)
    qed
    ultimately show ?thesis using less_div_ceil [OF a(1)] by simp
  qed
  have "map2 (div) g sz \<in> set (range_product (shard_ranges sz buf)) \<longleftrightarrow>
      (\<forall>k<length sz. nb_origin buf ! k div sz ! k \<le> g ! k div sz ! k \<and>
        g ! k div sz ! k < div_ceil (nb_origin buf ! k + nb_shape buf ! k) (sz ! k))"
    using l len by (simp add: in_range_product shard_ranges_nth)
  also have "\<dots> \<longleftrightarrow> in_box buf g" using one l by (auto simp: in_box_def)
  finally show ?thesis .
qed


section \<open>Shards of a box\<close>

definition shard_value :: "nat list \<Rightarrow> stream_dtype \<Rightarrow> nd_buf \<Rightarrow> nat list \<Rightarrow> 8 word list" where
  "shard_value sz dt buf g =
     (if in_box buf g then box_cell buf g
      else box_cell (nd_zeros (map2 (*) (map2 (div) g sz) sz) sz (dtype_size dt)) g)"

lemma in_own_shard: "0 < s \<Longrightarrow> a < a div s * s + s" for a s :: nat
  using dividend_less_div_times [of s a] by simp

lemma shard_of_box_cells:
  assumes buf: "box_ok buf" "nb_esize buf = dtype_size dt" "length sz = length (nb_shape buf)"
    and sz: "0 \<notin> set sz" "length idx = length sz"
  shows "\<exists>data. shard_of_box sz dt buf idx = Some ((nd_zeros (map2 (*) idx sz) sz (dtype_size dt))\<lparr>nb_data := data\<rparr>) \<and>
    length data = prod_list sz * dtype_size dt \<and>
    (\<forall>g. length g = length sz \<and> map2 (div) g sz = idx \<longrightarrow>
       elt (dtype_size dt) data (position_of sz (map2 (mod) g sz)) = shard_value sz dt buf g)"
proof -
  let ?z = "nd_zeros (map2 (*) idx sz) sz (dtype_size dt)"
  have z: "nb_origin ?z = map2 (*) idx sz" "nb_shape ?z = sz" "nb_esize ?z = dtype_size dt"
    "length (nb_data ?z) = prod_list sz * dtype_size dt" by (simp_all add: nd_zeros_def)
  have "box_ok ?z" by (rule box_ok_zeros) (simp add: sz)
  from copy_overlap_cells [OF buf(1) this] buf z obtain data where
    d: "copy_overlap buf ?z = Some (?z\<lparr>nb_data := data\<rparr>)" "length data = prod_list sz * dtype_size dt"
      "\<And>g. in_box ?z g \<Longrightarrow> box_cell (?z\<lparr>nb_data := data\<rparr>) g = (if in_box buf g then box_cell buf g else box_cell ?z g)"
    by auto
  have "elt (dtype_size dt) data (position_of sz (map2 (mod) g sz)) = shard_value sz dt buf g"
    if g: "length g = length sz" "map2 (div) g sz = idx" for g
  proof -
    have k: "idx ! k = g ! k div sz ! k" "0 < sz ! k" if "k < length sz" for k
      using that g sz by (auto simp: in_set_conv_nth)
    have "in_box ?z g"
      using g k in_own_shard by (auto simp: in_box_def z sz)
    moreover have "map2 (-) g (map2 (*) idx sz) = map2 (mod) g sz"
      by (rule nth_equalityI) (use g k sz in \<open>simp_all add: minus_div_mult_eq_mod\<close>)
    ultimately show ?thesis using d(3) [of g] g(2) by (simp add: shard_value_def box_cell_def z)
  qed
  then show ?thesis using d(1,2) by (auto simp: shard_of_box_def)
qed

context shard_store
begin

lemma stored_shard:
  assumes h: "arr h = (name, shape, sz, dt)" and sz: "0 \<notin> set sz" "length idx = length sz"
    and b: "length b = prod_list sz * dtype_size dt" and w: "store_chunk_bytes E h idx dt b s = Some (Inr u, s')"
  shows "cell s' nm g = (if nm = name \<and> length g = length sz \<and> map2 (div) g sz = idx
    then elt (dtype_size dt) b (position_of sz (map2 (mod) g sz)) else cell s nm g)"
proof -
  from w have "se_store_chunk E h idx (from_ne_bytes dt b) s = (Inr u, s')"
    by (auto simp: store_chunk_bytes_def lift_op_def split: prod.splits sum.splits)
  from store_cells [OF h dtype_from_ne_bytes len_from_ne_bytes [OF b] sz(2,1) this] show ?thesis
    by (simp add: to_from_ne_bytes [OF b])
qed

lemma written_shards:
  assumes h: "arr h = (name, shape, sz, dt)" and sz: "0 \<notin> set sz"
    and buf: "box_ok buf" "nb_esize buf = dtype_size dt" "length sz = length (nb_shape buf)"
  shows "\<forall>idx\<in>set idxs. length idx = length sz \<Longrightarrow> write_shards E h name sz dt buf idxs s = Some (Inr keys, s') \<Longrightarrow>
    cell s' nm g = (if nm = name \<and> length g = length sz \<and> map2 (div) g sz \<in> set idxs
      then shard_value sz dt buf g else cell s nm g)"
proof (induction idxs arbitrary: s keys)
  case (Cons idx rest)
  from Cons.prems(1) have l: "length idx = length sz" "\<forall>i\<in>set rest. length i = length sz" by auto
  from shard_of_box_cells [OF buf sz l(1)] obtain data where
    d: "shard_of_box sz dt buf idx = Some ((nd_zeros (map2 (*) idx sz) sz (dtype_size dt))\<lparr>nb_data := data\<rparr>)"
      "length data = prod_list sz * dtype_size dt"
      "\<And>g. length g = length sz \<Longrightarrow> map2 (div) g sz = idx \<Longrightarrow>
         elt (dtype_size dt) data (position_of sz (map2 (mod) g sz)) = shard_value sz dt buf g" by blast
  from Cons.prems(2) obtain u s1 keys' where
    w: "store_chunk_bytes E h idx dt data s = Some (Inr u, s1)" "write_shards E h name sz dt buf rest s1 = Some (Inr keys', s')"
    by (auto simp: d(1) io_simps)
  from Cons.IH [OF l(2) w(2)] stored_shard [OF h sz l(1) d(2) w(1)] d(3) [of g] show ?case
    by auto
qed simp

end

section \<open>Writing and reloading a box\<close>

lemma all_some_all2: "all_some f xs = Some ys \<longleftrightarrow> list_all2 (\<lambda>x y. f x = Some y) xs ys"
proof (induction xs arbitrary: ys)
  case (Cons x xs)
  then show ?case by (cases ys; cases "f x") (auto simp: Cons.IH)
qed auto

lemma pick_dims_all_some: "pick_dims dims m what = Inr xs \<longleftrightarrow> all_some (map_of m) dims = Some xs"
  by (simp add: pick_dims_def each_Inr all_some_all2 ok_or_Inr)

lemma length_all_some: "all_some f xs = Some ys \<Longrightarrow> length ys = length xs"
  by (simp add: all_some_all2 list_all2_lengthD)

lemma all_some_nth: "all_some f xs = Some ys \<Longrightarrow> k < length xs \<Longrightarrow> f (xs ! k) = Some (ys ! k)"
  by (auto simp: all_some_all2 dest: list_all2_nthD)

lemma shard_rank: "length sz = length (nb_shape buf) \<Longrightarrow> box_ok buf \<Longrightarrow> length (shard_ranges sz buf) = length sz"
  by (simp add: shard_ranges_def box_ok_def)

context shard_store
begin

lemma handle_of:
  assumes "array_handle E g name dims dt ext = Some (Inr h)" "array_shape_of g dims ext = Some shape"
    "all_some (map_of (ss_shard (g_schema g))) dims = Some sz"
  shows "arr h = (name, shape, sz, dt)"
proof -
  let ?p = "pick_dims dims (ss_shard (g_schema g)) ''shard_shape''"
  from assms obtain meta where
    m: "array_meta dims shape (ss_chunk (g_schema g)) (ss_shard (g_schema g)) dt (g_codec g) [] = Inr meta"
      "array_from_meta E name meta = Inr h"
    by (auto simp: array_handle_def bindR_def split: sum.splits)
  from assms(3) have "?p = Inr sz" by (simp add: pick_dims_all_some)
  from handle_arr [OF m this] show ?thesis .
qed

lemma written_box:
  assumes w: "write_box E g name dims dt buf ext s = Some (Inr keys, s')"
    and shape: "array_shape_of g dims ext = Some shape" and sz: "all_some (map_of (ss_shard (g_schema g))) dims = Some sz"
    and buf: "box_ok buf" "nb_esize buf = dtype_size dt" and al: "aligned sz shape buf"
    and c: "nm = name \<Longrightarrow> in_shape shape c"
  shows "cell s' nm c = (if nm = name \<and> in_box buf c then box_cell buf c else cell s nm c)"
proof -
  have l: "length sz = length (nb_shape buf)" using al by (simp add: aligned_def)
  from w sz obtain h where h: "array_handle E g name dims dt ext = Some (Inr h)" and z: "0 \<notin> set sz"
    and ws: "write_shards E h name sz dt buf (range_product (shard_ranges sz buf)) s = Some (Inr keys, s')"
    by (cases "array_handle E g name dims dt ext") (auto simp: write_box_def io_simps split: if_splits)
  have "\<forall>idx\<in>set (range_product (shard_ranges sz buf)). length idx = length sz"
    by (simp add: in_range_product shard_rank [OF l buf(1)])
  from written_shards [OF handle_of [OF h shape sz] z buf l this ws, of nm c]
  show ?thesis
    using aligned_shard [OF al buf(1), of c] c al by (auto simp: shard_value_def in_shape_def aligned_def)
qed

end

lemma elt_concat:
  "\<forall>x\<in>set xs. length (f x) = es \<Longrightarrow> i < length xs \<Longrightarrow> elt es (concat (map f xs)) i = f (xs ! i)"
proof (induction xs arbitrary: i)
  case (Cons x xs)
  then show ?case by (cases i) (auto simp: elt_def)
qed simp

lemma length_concat_const: "\<forall>x\<in>set xs. length (f x) = n \<Longrightarrow> length (concat (map f xs)) = length xs * n"
  by (induction xs) simp_all

lemma range_lengths: "map length (map (\<lambda>(a, b). [a..<b]) rs) = map (\<lambda>(a, b). b - a) rs"
  by (induction rs) auto

lemma length_range_product: "length (range_product rs) = prod_list (map (\<lambda>(a, b). b - a) rs)"
  by (simp only: range_product_lists length_product range_lengths)

lemma range_cell:
  assumes c: "length c = length rs" "\<forall>k<length rs. fst (rs ! k) \<le> c ! k \<and> c ! k < snd (rs ! k)"
  shows "in_shape (map (\<lambda>(a, b). b - a) rs) (map2 (-) c (map fst rs))"
    and "range_product rs ! position_of (map (\<lambda>(a, b). b - a) rs) (map2 (-) c (map fst rs)) = c"
proof -
  show i: "in_shape (map (\<lambda>(a, b). b - a) rs) (map2 (-) c (map fst rs))"
    using c by (auto simp: in_shape_def case_prod_unfold diff_less_mono)
  have "map2 (!) (map (\<lambda>(a, b). [a..<b]) rs) (map2 (-) c (map fst rs)) = c"
    by (rule nth_equalityI) (use c in \<open>auto simp: case_prod_unfold diff_less_mono\<close>)
  then show "range_product rs ! position_of (map (\<lambda>(a, b). b - a) rs) (map2 (-) c (map fst rs)) = c"
    using product_nth [of "map (\<lambda>(a, b). [a..<b]) rs" "map2 (-) c (map fst rs)"] i
    by (simp only: range_product_lists range_lengths)
qed

lemma reload_ranges_nth:
  assumes "length dims = length (nb_shape buf)" "box_ok buf" "k < length dims"
  shows "reload_ranges g dims buf limit ! k = (nb_origin buf ! k,
    if is_time g (dims ! k) then max (min (nb_origin buf ! k + nb_shape buf ! k) limit) (nb_origin buf ! k)
    else nb_origin buf ! k + nb_shape buf ! k)"
  using assms by (simp add: reload_ranges_def box_ok_def)

text \<open>The cells of a box that the store has: those whose time is below the committed count.\<close>

definition below_limit :: "geometry \<Rightarrow> string list \<Rightarrow> nat \<Rightarrow> nat list \<Rightarrow> bool" where
  "below_limit g dims limit c \<longleftrightarrow> (\<forall>k<length dims. is_time g (dims ! k) \<longrightarrow> c ! k < limit)"

lemma reload_cells_iff:
  assumes l: "length dims = length (nb_shape buf)" "box_ok buf" and c: "in_box buf c"
  shows "below_limit g dims limit c \<longleftrightarrow>
    (\<forall>k<length dims. fst (reload_ranges g dims buf limit ! k) \<le> c ! k \<and> c ! k < snd (reload_ranges g dims buf limit ! k))"
proof -
  have "(is_time g (dims ! k) \<longrightarrow> c ! k < limit) \<longleftrightarrow>
      fst (reload_ranges g dims buf limit ! k) \<le> c ! k \<and> c ! k < snd (reload_ranges g dims buf limit ! k)"
    if k: "k < length dims" for k
    using c l k by (auto simp: reload_ranges_nth [OF l k] in_box_def)
  then show ?thesis by (auto simp: below_limit_def)
qed

context shard_store
begin

lemma reloaded_box:
  assumes r: "reload_box E g name dims dt buf limit s = Some (Inr buf', s')"
    and shape: "array_shape_of g dims limit = Some shape" and sz: "all_some (map_of (ss_shard (g_schema g))) dims = Some sz"
    and buf: "box_ok buf" "nb_esize buf = dtype_size dt" "length dims = length (nb_shape buf)"
    and within: "\<forall>k<length dims. \<not> is_time g (dims ! k) \<longrightarrow> nb_origin buf ! k + nb_shape buf ! k \<le> shape ! k"
  shows "s' = s \<and> (\<exists>data. buf' = buf\<lparr>nb_data := data\<rparr>) \<and>
    (\<forall>c. in_box buf c \<longrightarrow> box_cell buf' c = (if below_limit g dims limit c then cell s name c else box_cell buf c))"
proof -
  define rs where "rs = reload_ranges g dims buf limit"
  have nth: "rs ! k = (nb_origin buf ! k,
      if is_time g (dims ! k) then max (min (nb_origin buf ! k + nb_shape buf ! k) limit) (nb_origin buf ! k)
      else nb_origin buf ! k + nb_shape buf ! k)" if "k < length dims" for k
    unfolding rs_def by (rule reload_ranges_nth [OF buf(3,1) that])
  have len: "length rs = length dims" using buf by (simp add: rs_def reload_ranges_def box_ok_def)
  have iff: "below_limit g dims limit c \<longleftrightarrow> (\<forall>k<length rs. fst (rs ! k) \<le> c ! k \<and> c ! k < snd (rs ! k))" if "in_box buf c" for c
    unfolding len unfolding rs_def by (rule reload_cells_iff [OF buf(3,1) that])
  show ?thesis
  proof (cases "list_ex (\<lambda>(a, b). b \<le> a) rs")
    case True
    then have "\<not> below_limit g dims limit c" if "in_box buf c" for c
      unfolding iff [OF that] by (auto simp: list_ex_length)
    with r True show ?thesis by (simp add: reload_box_def rs_def [symmetric]) (metis nd_buf.surjective nd_buf.update_convs(4))
  next
    case False
    let ?src = "\<lambda>got. \<lparr>nb_origin = map fst rs, nb_shape = map (\<lambda>(a, b). b - a) rs, nb_esize = dtype_size dt,
      nb_data = to_ne_bytes got\<rparr>"
    from r False obtain h got s1 where h: "array_handle E g name dims dt limit = Some (Inr h)"
      and got: "retrieve E h rs dt s = Some (Inr got, s1)" and "or_panic (copy_overlap (?src got) buf) s1 = Some (Inr buf', s')"
      by (cases "array_handle E g name dims dt limit")
        (auto simp only: reload_box_def Let_def rs_def [symmetric] if_False bindI_split io_basic option.inject prod.inject sum.inject sum.distinct option.distinct)
    then have cp: "copy_overlap (?src got) buf = Some buf'" and s1: "s1 = s'"
      by (auto simp: or_panic_def)
    note got = got [unfolded s1]
    have ls: "length shape = length dims" using length_all_some [OF shape [unfolded array_shape_of_def]] .
    have time: "shape ! k = limit" if "k < length dims" "is_time g (dims ! k)" for k
      using all_some_nth [OF shape [unfolded array_shape_of_def] that(1)] that(2) by simp
    have "\<forall>k<length shape. snd (rs ! k) \<le> shape ! k"
    proof (intro allI impI)
      fix k assume k: "k < length shape"
      have "fst (rs ! k) < snd (rs ! k)" using False k ls len by (auto simp: list_ex_length not_le)
      then show "snd (rs ! k) \<le> shape ! k" using k ls within time [of k] by (auto simp: nth split: if_splits)
    qed
    moreover from got have "se_retrieve E h rs dt s = (Inr got, s')"
      by (auto simp: retrieve_def lift_op_def split: prod.splits sum.splits)
    ultimately have d: "to_ne_bytes got = concat (map (cell s name) (range_product rs))" "s' = s"
      "\<forall>c\<in>set (range_product rs). length (cell s name c) = dtype_size dt"
      using retrieve_cells [OF handle_of [OF h shape sz], of rs] len ls by auto
    have "length (to_ne_bytes got) = length (range_product rs) * dtype_size dt"
      unfolding d(1) by (rule length_concat_const [OF d(3)])
    then have ok: "box_ok (?src got)" by (simp add: box_ok_def length_range_product)
    have cells: "in_box (?src got) c \<longleftrightarrow> below_limit g dims limit c" if "in_box buf c" for c
      unfolding iff [OF that] using that False len buf by (auto simp: in_box_def case_prod_unfold list_ex_length not_le)
    have "box_cell (?src got) c = cell s name c" if c: "in_box buf c" "below_limit g dims limit c" for c
    proof -
      have lc: "length c = length rs" using c(1) buf len by (simp add: in_box_def)
      note q = range_cell [OF lc iff [OF c(1), THEN iffD1, OF c(2)]]
      from position_bound [OF q(1)] have "position_of (map (\<lambda>(a, b). b - a) rs) (map2 (-) c (map fst rs)) < length (range_product rs)"
        by (simp add: length_range_product)
      from elt_concat [OF d(3) this] q(2) show ?thesis by (simp add: box_cell_def d(1))
    qed
    with copy_overlap_cells [OF ok buf(1)] cp d(2) cells buf len show ?thesis by auto
  qed
qed

end

end
