(* ===== verification/StreamOutcomes.thy ===== *)
theory StreamOutcomes
  imports StreamWriter
begin

text \<open>
  Reasoning about the operations of the writer: \<open>outcome m x Q\<close> says that \<open>Q\<close> holds of the result and the new
  state whenever \<open>m\<close> returns from \<open>x\<close>, with an equation for each way operations are composed, and the rules
  for what an operation leaves alone.
\<close>

section \<open>Outcomes\<close>

definition outcome :: "('s, 'a) io \<Rightarrow> 's \<Rightarrow> ('a result \<Rightarrow> 's \<Rightarrow> bool) \<Rightarrow> bool" where
  "outcome m x Q \<longleftrightarrow> (\<forall>r y. m x = Some (r, y) \<longrightarrow> Q r y)"

named_theorems outcome_simps \<open>the outcomes of composed operations\<close>

lemma outcome_basic [outcome_simps]:
  "outcome (ret a) x Q \<longleftrightarrow> Q (Inr a) x" "outcome (fail e) x Q \<longleftrightarrow> Q (Inl e) x" "outcome (of_result r) x Q \<longleftrightarrow> Q r x"
  "outcome (or_panic v) x Q \<longleftrightarrow> (\<forall>b. v = Some b \<longrightarrow> Q (Inr b) x)"
  "outcome (of_checked c) x Q \<longleftrightarrow> (\<forall>r. c = Some r \<longrightarrow> Q r x)"
  "outcome (asks f) x Q \<longleftrightarrow> Q (Inr (f x)) x" "outcome (\<lambda>x. None) x Q"
  by (auto simp: outcome_def or_panic_def of_checked_def)

lemma outcome_bind [outcome_simps]:
  "outcome (bindI m f) x Q \<longleftrightarrow> outcome m x (\<lambda>r y. case r of Inl e \<Rightarrow> Q (Inl e) y | Inr a \<Rightarrow> outcome (f a) y Q)"
  by (auto simp: outcome_def bindI_split split: sum.splits)

lemma outcome_attempt [outcome_simps]: "outcome (attempt m) x Q \<longleftrightarrow> outcome m x (\<lambda>r. Q (Inr r))"
  by (auto simp: outcome_def attempt_def)

lemma outcome_in_store [outcome_simps]: "outcome (in_store m) (w, s) Q \<longleftrightarrow> outcome m s (\<lambda>r s'. Q r (w, s'))"
  by (auto simp: outcome_def in_store_def)

lemma outcome_handle [outcome_simps]:
  "outcome handle (w, s) Q \<longleftrightarrow> Q (Inr w) (w, s)" "outcome (update_handle f) (w, s) R \<longleftrightarrow> R (Inr ()) (f w, s)"
  "outcome (update_state g) (w, s) R \<longleftrightarrow> R (Inr ()) (w\<lparr>wr_state := g (wr_state w)\<rparr>, s)"
  by (auto simp: outcome_def handle_def update_handle_def update_state_def)

lemma outcome_transact [outcome_simps]:
  "outcome (transact m) (w, s) Q \<longleftrightarrow>
     outcome m (w, s) (\<lambda>r (w', s'). case r of Inl e \<Rightarrow> Q r (w'\<lparr>wr_state := wr_state w\<rparr>, s') | Inr a \<Rightarrow> Q r (w', s'))"
  by (cases "m (w, s)") (auto simp: outcome_def transact_def split: sum.splits)

lemma outcome_mono: "outcome m x Q \<Longrightarrow> (\<And>r y. Q r y \<Longrightarrow> R r y) \<Longrightarrow> outcome m x R"
  by (auto simp: outcome_def)

lemma outcome_any: "(\<And>r y. Q r y) \<Longrightarrow> outcome m x Q"
  by (auto simp: outcome_def)

lemma outcomeD: "outcome m x Q \<Longrightarrow> m x = Some (r, y) \<Longrightarrow> Q r y"
  by (auto simp: outcome_def)

section \<open>What an operation keeps\<close>

definition keeps :: "('s \<Rightarrow> bool) \<Rightarrow> ('s, 'a) io \<Rightarrow> bool" where
  "keeps P m \<longleftrightarrow> (\<forall>x. P x \<longrightarrow> outcome m x (\<lambda>r. P))"

named_theorems keeps_intros \<open>how keeping an invariant composes\<close>

lemma keepsI: "(\<And>x. P x \<Longrightarrow> outcome m x (\<lambda>r. P)) \<Longrightarrow> keeps P m"
  by (simp add: keeps_def)

lemma keepsD: "keeps P m \<Longrightarrow> P x \<Longrightarrow> m x = Some (r, y) \<Longrightarrow> P y"
  by (auto simp: keeps_def outcome_def)

lemma keeps_outcome: "keeps P m \<Longrightarrow> P x \<Longrightarrow> outcome m x (\<lambda>r. P)"
  by (simp add: keeps_def)

lemma keeps_basic [keeps_intros]:
  "keeps P (ret a)" "keeps P (fail e)" "keeps P (of_result r)" "keeps P (or_panic v)" "keeps P (of_checked c)"
  "keeps P (asks f)" "keeps P (\<lambda>x. None)"
  by (auto simp: keeps_def outcome_simps)

lemma keeps_handle [keeps_intros]: "keeps P handle"
  by (auto simp: keeps_def outcome_simps)

lemma keeps_bind [keeps_intros]: "keeps P m \<Longrightarrow> (\<And>a. keeps P (f a)) \<Longrightarrow> keeps P (bindI m f)"
  by (rule keepsI, subst outcome_bind, erule (1) outcome_mono [OF keeps_outcome])
    (simp add: keeps_outcome split: sum.splits)

lemma keeps_if [keeps_intros]: "(b \<Longrightarrow> keeps P m) \<Longrightarrow> (\<not> b \<Longrightarrow> keeps P m') \<Longrightarrow> keeps P (if b then m else m')"
  by simp

lemma keeps_case_option [keeps_intros]:
  "(v = None \<Longrightarrow> keeps P m) \<Longrightarrow> (\<And>b. v = Some b \<Longrightarrow> keeps P (f b)) \<Longrightarrow> keeps P (case v of None \<Rightarrow> m | Some b \<Rightarrow> f b)"
  by (cases v) simp_all

lemma keeps_case_sum [keeps_intros]:
  "(\<And>e. v = Inl e \<Longrightarrow> keeps P (f e)) \<Longrightarrow> (\<And>b. v = Inr b \<Longrightarrow> keeps P (g b)) \<Longrightarrow> keeps P (case v of Inl e \<Rightarrow> f e | Inr b \<Rightarrow> g b)"
  by (cases v) simp_all

lemma keeps_case_prod [keeps_intros]: "(\<And>a b. v = (a, b) \<Longrightarrow> keeps P (f a b)) \<Longrightarrow> keeps P (case v of (a, b) \<Rightarrow> f a b)"
  by (cases v) simp

lemma keeps_case_list [keeps_intros]:
  "keeps P m \<Longrightarrow> (\<And>a b. keeps P (f a b)) \<Longrightarrow> keeps P (case v of [] \<Rightarrow> m | a # b \<Rightarrow> f a b)"
  by (cases v) simp_all

lemma keeps_let [keeps_intros]: "(\<And>v. v = a \<Longrightarrow> keeps P (f v)) \<Longrightarrow> keeps P (let v = a in f v)"
  by (simp add: Let_def)

lemma keeps_attempt [keeps_intros]: "keeps P m \<Longrightarrow> keeps P (attempt m)"
  by (simp add: keeps_def outcome_simps)

lemma keeps_for_each [keeps_intros]: "(\<And>a. keeps P (f a)) \<Longrightarrow> keeps P (for_each f xs)"
  by (induction xs) (simp_all add: keeps_basic keeps_bind)

lemma keeps_in_store [keeps_intros]: "(\<And>w s s'. P (w, s) \<Longrightarrow> P (w, s')) \<Longrightarrow> keeps P (in_store m)"
  by (auto simp: keeps_def outcome_simps intro: outcome_any)

lemma keeps_update_handle [keeps_intros]: "(\<And>w s. P (w, s) \<Longrightarrow> P (f w, s)) \<Longrightarrow> keeps P (update_handle f)"
  by (auto simp: keeps_def outcome_simps)

lemma keeps_update_state [keeps_intros]:
  "(\<And>w s. P (w, s) \<Longrightarrow> P (w\<lparr>wr_state := f (wr_state w)\<rparr>, s)) \<Longrightarrow> keeps P (update_state f)"
  by (auto simp: keeps_def outcome_simps)

lemma keeps_transact [keeps_intros]:
  assumes "keeps P m" "\<And>w s cs. P (w, s) \<Longrightarrow> P (w\<lparr>wr_state := cs\<rparr>, s)"
  shows "keeps P (transact m)"
proof (rule keepsI)
  fix x assume "P x"
  then show "outcome (transact m) x (\<lambda>r. P)"
    using assms(2)
    by (cases x, simp only: outcome_transact)
      (rule outcome_mono [OF keeps_outcome [OF assms(1)]], assumption, auto split: sum.splits)
qed

end
