(* ===== verification/StreamOwners.thy ===== *)
theory StreamOwners
  imports StreamData StreamOutcomes StreamTiling
begin

text \<open>
  Which cells a writer writes: the boxes of its buffers are aligned with the shards, so that writing a time
  shard changes exactly the cells of the writer's region; and of the writers whose tokens a commit accepts,
  exactly one writes each cell.
\<close>

section \<open>Boxes of a geometry\<close>

text \<open>What opening a writer checks of its geometry (\<open>validate_schema\<close>, \<open>validate_region\<close>, \<open>assemble\<close>).\<close>

definition geo_ok :: "geometry \<Rightarrow> bool" where
  "geo_ok g \<longleftrightarrow> validate_region (g_schema g) (g_region g) = Some (Inr ()) \<and> g_dim_len g = dim_lens (g_schema g) \<and>
     map_of (ss_shard (g_schema g)) (ss_time_dim (g_schema g)) = Some (g_st g) \<and> 0 < g_st g \<and>
     (\<forall>d\<in>fst ` set (g_dim_len g). \<exists>sh. map_of (ss_shard (g_schema g)) d = Some sh \<and> 0 < sh) \<and>
     (\<forall>v\<in>set (ss_vars (g_schema g)). set (sv_dims v) \<subseteq> fst ` set (g_dim_len g)) \<and>
     distinct (map sv_name (ss_vars (g_schema g))) \<and> ss_time_dim (g_schema g) \<notin> sv_name ` set (ss_vars (g_schema g))"

lemma var_box_nth:
  assumes "var_box g dims t0 tn = Some (os, ns)"
  shows "length os = length dims \<and> length ns = length dims \<and> (\<forall>k<length dims.
    if is_time g (dims ! k) then os ! k = t0 \<and> ns ! k = tn
    else (\<exists>a b. local_range g (dims ! k) = Some (a, b) \<and> os ! k = a \<and> ns ! k = b - a))"
  using assms
proof (induction dims arbitrary: os ns)
  case (Cons d dims)
  from Cons.prems obtain o1 n1 os' ns' where r: "var_box g dims t0 tn = Some (os', ns')" "os = o1 # os'" "ns = n1 # ns'"
    and d: "if is_time g d then o1 = t0 \<and> n1 = tn else (\<exists>a b. local_range g d = Some (a, b) \<and> o1 = a \<and> n1 = b - a)"
    by (auto split: if_splits option.splits)
  from Cons.IH [OF r(1)] d show ?case by (auto simp: r(2,3) nth_Cons split: nat.splits)
qed simp

lemma local_range_ok:
  assumes g: "geo_ok g" and r: "local_range g d = Some (a, b)" and n: "map_of (g_dim_len g) d = Some n"
    and s: "map_of (ss_shard (g_schema g)) d = Some sh"
  shows "a \<le> b \<and> b \<le> n \<and> a mod sh = 0 \<and> (b mod sh = 0 \<or> b = n)"
proof (cases "map_of (g_region g) d")
  case None
  with r n show ?thesis by (simp add: local_range_def)
next
  case (Some x)
  with r have x: "x = (a, b)" by (simp add: local_range_def)
  from g have v: "validate_region (g_schema g) (g_region g) = Some (Inr ())" "g_dim_len g = dim_lens (g_schema g)"
    by (auto simp: geo_ok_def)
  from validate_region_ok [OF v(1) map_of_SomeD [OF Some]] obtain u where "check_range (g_schema g) d (a, b) = Some (Inr u)"
    by (auto simp: x)
  from check_range_ok [OF this] n s v(2) show ?thesis by (metis less_imp_le option.inject)
qed

lemma geo_aligned:
  assumes g: "geo_ok g" and b: "var_box g dims t0 tn = Some (nb_origin buf, nb_shape buf)"
    and shape: "array_shape_of g dims ext = Some shape" and sz: "all_some (map_of (ss_shard (g_schema g))) dims = Some sz"
    and time: "t0 mod g_st g = 0" "(t0 + tn) mod g_st g = 0 \<or> t0 + tn = ext"
  shows "aligned sz shape buf"
  unfolding aligned_def
proof (intro conjI allI impI)
  note box = var_box_nth [OF b] and len = length_all_some [OF sz] length_all_some [OF shape [unfolded array_shape_of_def]]
  show "length sz = length (nb_shape buf)" "length shape = length (nb_shape buf)" using box len by simp_all
  fix k assume "k < length sz"
  then have k: "k < length dims" using len by simp
  have s: "map_of (ss_shard (g_schema g)) (dims ! k) = Some (sz ! k)" by (rule all_some_nth [OF sz k])
  have sh: "(if is_time g (dims ! k) then Some ext else map_of (g_dim_len g) (dims ! k)) = Some (shape ! k)"
    using all_some_nth [OF shape [unfolded array_shape_of_def] k] .
  show "0 < sz ! k"
  proof (cases "is_time g (dims ! k)")
    case False
    then have "dims ! k \<in> fst ` set (g_dim_len g)" using sh by (auto dest: map_of_SomeD intro: rev_image_eqI)
    then show ?thesis using g s by (force simp: geo_ok_def)
  qed (use g s in \<open>simp add: geo_ok_def is_time_def\<close>)
  have "nb_origin buf ! k mod sz ! k = 0 \<and> ((nb_origin buf ! k + nb_shape buf ! k) mod sz ! k = 0 \<or>
      nb_origin buf ! k + nb_shape buf ! k = shape ! k)"
  proof (cases "is_time g (dims ! k)")
    case True
    then have "sz ! k = g_st g" using g s by (simp add: geo_ok_def is_time_def)
    then show ?thesis using True box k sh time by auto
  next
    case False
    then obtain a b where ab: "local_range g (dims ! k) = Some (a, b)" "nb_origin buf ! k = a" "nb_shape buf ! k = b - a"
      using box [THEN conjunct2, THEN conjunct2, rule_format, OF k] by auto
    from local_range_ok [OF g ab(1) _ s] sh False have "a \<le> b \<and> b \<le> shape ! k \<and> a mod sz ! k = 0 \<and> (b mod sz ! k = 0 \<or> b = shape ! k)"
      by simp
    then show ?thesis by (auto simp: ab)
  qed
  then show "nb_origin buf ! k mod sz ! k = 0" "(nb_origin buf ! k + nb_shape buf ! k) mod sz ! k = 0 \<or>
      nb_origin buf ! k + nb_shape buf ! k = shape ! k" by blast+
qed

section \<open>The buffers of a writer\<close>

text \<open>A buffer is the box of its array in the time shard \<open>ts\<close>, with the bytes of every cell.\<close>

definition buf_ok :: "geometry \<Rightarrow> nat \<Rightarrow> string \<Rightarrow> nd_buf \<Rightarrow> bool" where
  "buf_ok g ts name buf \<longleftrightarrow> box_ok buf \<and> nb_esize buf = dtype_size (snd (array_spec g name)) \<and>
     var_box g (fst (array_spec g name)) (ts * g_st g) (g_st g) = Some (nb_origin buf, nb_shape buf)"

definition bufs_ok :: "geometry \<Rightarrow> nat \<Rightarrow> (string \<times> nd_buf) list \<Rightarrow> bool" where
  "bufs_ok g ts bufs \<longleftrightarrow> bt_sorted bufs \<and> (\<forall>(name, buf)\<in>set bufs. buf_ok g ts name buf)"

definition writer_ok :: "writer \<Rightarrow> bool" where
  "writer_ok w \<longleftrightarrow> geo_ok (wr_geo w) \<and> (\<forall>(ts, sb)\<in>set (wr_open w). bufs_ok (wr_geo w) ts (sb_bufs sb))"

lemma bufs_ok_Cons: "bufs_ok g ts ((name, buf) # rest) \<Longrightarrow> buf_ok g ts name buf \<and> name \<notin> fst ` set rest \<and> bufs_ok g ts rest"
  by (auto simp: bufs_ok_def)

text \<open>The cells of the array \<open>nm\<close> after the buffers \<open>bufs\<close> are written.\<close>

definition after_bufs ::
    "writer \<Rightarrow> (string \<times> nd_buf) list \<Rightarrow> string \<Rightarrow> nat list \<Rightarrow> 8 word list \<Rightarrow> 8 word list" where
  "after_bufs w bufs nm c old =
     (case map_of bufs nm of
        Some buf \<Rightarrow> if writes_array w (fst (array_spec (wr_geo w) nm)) \<and> in_box buf c then box_cell buf c else old
      | None \<Rightarrow> old)"

definition in_extent :: "geometry \<Rightarrow> string \<Rightarrow> nat \<Rightarrow> nat list \<Rightarrow> bool" where
  "in_extent g nm ext c \<longleftrightarrow> (\<exists>shape. array_shape_of g (fst (array_spec g nm)) ext = Some shape \<and> in_shape shape c)"

context shard_store
begin

lemma written_buf:
  assumes g: "geo_ok g" and buf: "buf_ok g ts name buf" and spec: "array_spec g name = (dims, dt)"
    and w: "write_box E g name dims dt buf (time_extent g ts) s = Some (Inr keys, s')"
    and c: "nm = name \<Longrightarrow> in_extent g name (time_extent g ts) c"
  shows "cell s' nm c = (if nm = name \<and> in_box buf c then box_cell buf c else cell s nm c)"
proof -
  from w obtain shape sz where shape: "array_shape_of g dims (time_extent g ts) = Some shape"
    and sz: "all_some (map_of (ss_shard (g_schema g))) dims = Some sz"
    by (cases "array_shape_of g dims (time_extent g ts)"; cases "all_some (map_of (ss_shard (g_schema g))) dims")
      (auto simp: write_box_def array_handle_def io_simps)
  from buf have b: "box_ok buf" "nb_esize buf = dtype_size dt" "var_box g dims (ts * g_st g) (g_st g) = Some (nb_origin buf, nb_shape buf)"
    by (auto simp: buf_ok_def spec)
  have "(ts * g_st g + g_st g) mod g_st g = 0" by simp
  then have "aligned sz shape buf" using geo_aligned [OF g b(3) shape sz] by simp
  from written_box [OF w shape sz b(1,2) this] c show ?thesis by (auto simp: in_extent_def spec shape)
qed

lemma written_bufs:
  assumes g: "geo_ok (wr_geo w)" and c: "in_extent (wr_geo w) nm (time_extent (wr_geo w) ts) c"
  shows "bufs_ok (wr_geo w) ts bufs \<Longrightarrow> write_bufs E w (time_extent (wr_geo w) ts) bufs s = Some (Inr keys, s') \<Longrightarrow>
    cell s' nm c = after_bufs w bufs nm c (cell s nm c)"
proof (induction bufs arbitrary: s keys)
  case (Cons x rest)
  obtain name buf where x: "x = (name, buf)" by (cases x)
  obtain dims dt where spec: "array_spec (wr_geo w) name = (dims, dt)" by fastforce
  from Cons.prems(1) have b: "buf_ok (wr_geo w) ts name buf" "name \<notin> fst ` set rest" "bufs_ok (wr_geo w) ts rest"
    using bufs_ok_Cons by (auto simp: x)
  have none: "map_of rest name = None" using b(2) by (simp add: map_of_eq_None_iff)
  show ?case
  proof (cases "writes_array w dims")
    case True
    with Cons.prems(2) obtain keys1 s1 keys2 where
      w: "write_box E (wr_geo w) name dims dt buf (time_extent (wr_geo w) ts) s = Some (Inr keys1, s1)"
        "write_bufs E w (time_extent (wr_geo w) ts) rest s1 = Some (Inr keys2, s')"
      by (auto simp: x spec io_simps)
    have "cell s1 nm c = (if nm = name \<and> in_box buf c then box_cell buf c else cell s nm c)"
      by (rule written_buf [OF g b(1) spec w(1)]) (use c in simp)
    with Cons.IH [OF b(3) w(2)] none True show ?thesis by (auto simp: after_bufs_def x spec split: option.splits)
  next
    case False
    with Cons.prems(2) have "write_bufs E w (time_extent (wr_geo w) ts) rest s = Some (Inr keys, s')" by (simp add: x spec)
    with Cons.IH [OF b(3) this] none False show ?thesis by (auto simp: after_bufs_def x spec)
  qed
qed (simp add: after_bufs_def)

lemma written_time_shard:
  assumes w: "writer_ok w" and open_sb: "map_of (wr_open w) ts = Some sb" and run: "write_shard E ts (w, s) = Some (Inr u, (w', s'))"
    and c: "in_extent (wr_geo w) nm (time_extent (wr_geo w) ts) c"
  shows "cell s' nm c = after_bufs w (sb_bufs sb) nm c (cell s nm c)"
proof -
  from run open_sb obtain keys where "write_bufs E w (time_extent (wr_geo w) ts) (sb_bufs sb) s = Some (Inr keys, s')"
    by (auto simp: write_shard_def handle_def in_store_def update_handle_def io_simps)
  moreover have "bufs_ok (wr_geo w) ts (sb_bufs sb)" "geo_ok (wr_geo w)"
    using w map_of_SomeD [OF open_sb] by (auto simp: writer_ok_def)
  ultimately show ?thesis using written_bufs [OF _ c] by blast
qed

end

section \<open>The buffers stay boxes\<close>

lemma copy_slice_length: "copy_slice dst i src k n = Some out \<Longrightarrow> length out = length dst"
  by (auto simp: copy_slice_def split: if_splits)

lemma copy_loop_box:
  assumes "copy_loop n lo hi src ss ds run cur dst = Some dst'"
  shows "\<exists>data. dst' = dst\<lparr>nb_data := data\<rparr> \<and> length data = length (nb_data dst)"
proof (rule copy_loop.raw_induct [where P = "\<lambda>n lo hi src ss ds run cur dst dst'.
    \<exists>data. dst' = dst\<lparr>nb_data := data\<rparr> \<and> length data = length (nb_data dst)", OF _ assms])
  fix loop n lo hi src ss ds run cur and dst dst' :: nd_buf
  assume IH: "\<And>n lo hi src ss ds run cur dst dst'. loop n lo hi src ss ds run cur dst = Some dst' \<Longrightarrow>
      \<exists>data. dst' = dst\<lparr>nb_data := data\<rparr> \<and> length data = length (nb_data dst)"
    and step: "Option.bind (copy_slice (nb_data dst) (box_offset n cur (nb_origin dst) ds * nb_esize src)
          (nb_data src) (box_offset n cur (nb_origin src) ss * nb_esize src) run)
       (\<lambda>data. let dst' = dst\<lparr>nb_data := data\<rparr> in
          case box_tick lo hi cur (n - 1) of None \<Rightarrow> Some dst' | Some cur' \<Rightarrow> loop n lo hi src ss ds run cur' dst') = Some dst'"
  then obtain data where d: "length data = length (nb_data dst)"
    and c: "(case box_tick lo hi cur (n - 1) of None \<Rightarrow> Some (dst\<lparr>nb_data := data\<rparr>)
      | Some cur' \<Rightarrow> loop n lo hi src ss ds run cur' (dst\<lparr>nb_data := data\<rparr>)) = Some dst'"
    by (auto simp: bind_eq_Some_conv Let_def dest: copy_slice_length)
  show "\<exists>data. dst' = dst\<lparr>nb_data := data\<rparr> \<and> length data = length (nb_data dst)"
  proof (cases "box_tick lo hi cur (n - 1)")
    case (Some cur')
    with c IH [of n lo hi src ss ds run cur' "dst\<lparr>nb_data := data\<rparr>" dst'] d show ?thesis by auto
  qed (use c d in auto)
qed

lemma copy_overlap_box:
  assumes "copy_overlap src dst = Some dst'"
  shows "\<exists>data. dst' = dst\<lparr>nb_data := data\<rparr> \<and> length data = length (nb_data dst)"
proof -
  have same: "\<exists>data. d = d\<lparr>nb_data := data\<rparr> \<and> length data = length (nb_data d)" for d :: nd_buf
    by (rule exI [where x = "nb_data d"]) simp
  from assms show ?thesis
    by (auto simp: copy_overlap_def Let_def same split: if_splits dest: copy_loop_box)
qed

lemma buf_ok_copy: "copy_overlap src buf = Some buf' \<Longrightarrow> buf_ok g ts name buf \<Longrightarrow> buf_ok g ts name buf'"
  by (auto simp: buf_ok_def box_ok_def dest!: copy_overlap_box)

lemma set_bt_put: "set (bt_put k v m) \<subseteq> insert (k, v) (set m)"
  by (induction k v m rule: bt_put.induct) auto

lemma bufs_ok_put: "bufs_ok g ts bufs \<Longrightarrow> buf_ok g ts name buf \<Longrightarrow> bufs_ok g ts (bt_put name buf bufs)"
  using set_bt_put [of name buf bufs] by (fastforce simp: bufs_ok_def bt_sorted_put)

lemma bufs_ok_of: "bufs_ok g ts bufs \<Longrightarrow> map_of bufs name = Some buf \<Longrightarrow> buf_ok g ts name buf"
  by (auto simp: bufs_ok_def dest: map_of_SomeD)

lemma array_spec_var:
  assumes "geo_ok g" "v \<in> set (ss_vars (g_schema g))"
  shows "array_spec g (sv_name v) = (sv_dims v, sv_dtype v)"
proof -
  have "find (\<lambda>u. sv_name u = sv_name v) vs = Some v" if "distinct (map sv_name vs)" "v \<in> set vs" for vs
    using that by (induction vs) (auto simp: rev_image_eqI)
  then show ?thesis using assms by (auto simp: array_spec_def geo_ok_def)
qed

lemma array_spec_time:
  assumes "geo_ok g"
  shows "array_spec g (ss_time_dim (g_schema g)) = ([ss_time_dim (g_schema g)], DF64)"
proof -
  have "find (\<lambda>u. sv_name u = ss_time_dim (g_schema g)) (ss_vars (g_schema g)) = None"
    using assms unfolding geo_ok_def find_None_iff by (metis imageI)
  then show ?thesis by (simp add: array_spec_def)
qed

lemma buf_ok_zeros:
  assumes "array_spec g name = (dims, dt)" "var_box g dims (ts * g_st g) (g_st g) = Some (os, ns)"
  shows "buf_ok g ts name (nd_zeros os ns (dtype_size dt))"
  using assms var_box_nth [OF assms(2)] by (auto simp: buf_ok_def nd_zeros_def box_ok_def)

lemma var_bufs_ok:
  assumes "geo_ok g"
  shows "bufs_ok g ts bufs \<Longrightarrow> set vs \<subseteq> set (ss_vars (g_schema g)) \<Longrightarrow>
    var_bufs g (ts * g_st g) (g_st g) vs bufs = Some bufs' \<Longrightarrow> bufs_ok g ts bufs'"
proof (induction vs arbitrary: bufs)
  case (Cons v vs)
  then obtain os ns where b: "var_box g (sv_dims v) (ts * g_st g) (g_st g) = Some (os, ns)"
    "var_bufs g (ts * g_st g) (g_st g) vs (bt_put (sv_name v) (nd_zeros os ns (dtype_size (sv_dtype v))) bufs) = Some bufs'"
    by (auto simp: bind_eq_Some_conv)
  from Cons.prems(2) array_spec_var [OF assms, of v] buf_ok_zeros [OF _ b(1)]
  have "buf_ok g ts (sv_name v) (nd_zeros os ns (dtype_size (sv_dtype v)))" by simp
  from Cons.IH [OF bufs_ok_put [OF Cons.prems(1) this] _ b(2)] Cons.prems(2) show ?case by simp
qed simp

lemma new_shard_buf_ok:
  assumes g: "geo_ok (wr_geo w)" and n: "new_shard_buf w ts = Some sb"
  shows "bufs_ok (wr_geo w) ts (sb_bufs sb)"
proof -
  let ?g = "wr_geo w"
  from n obtain bufs where b: "var_bufs ?g (ts * g_st ?g) (g_st ?g) (my_vars w) [] = Some bufs"
    and sb: "sb_bufs sb = (if writes_time_coord w
      then bt_put (ss_time_dim (g_schema ?g)) (nd_zeros [ts * g_st ?g] [g_st ?g] 8) bufs else bufs)"
    by (auto simp: new_shard_buf_def Let_def)
  have "set (my_vars w) \<subseteq> set (ss_vars (g_schema ?g))" by (auto simp: my_vars_def)
  from var_bufs_ok [OF g _ this b] have "bufs_ok ?g ts bufs" by (simp add: bufs_ok_def)
  moreover have "buf_ok ?g ts (ss_time_dim (g_schema ?g)) (nd_zeros [ts * g_st ?g] [g_st ?g] 8)"
    using buf_ok_zeros [OF array_spec_time [OF g], of ts "[ts * g_st ?g]" "[g_st ?g]"] by (simp add: is_time_def)
  ultimately show ?thesis by (simp add: sb bufs_ok_put)
qed

lemma place_sources_ok: "bufs_ok g ts bufs \<Longrightarrow> place_sources srcs bufs = Some bufs' \<Longrightarrow> bufs_ok g ts bufs'"
proof (induction srcs arbitrary: bufs)
  case (Cons x srcs)
  obtain name src where x: "x = (name, src)" by (cases x)
  from Cons.prems(2) obtain buf buf1 where b: "map_of bufs name = Some buf" "copy_overlap src buf = Some buf1"
    "place_sources srcs (bt_put name buf1 bufs) = Some bufs'" by (auto simp: x bind_eq_Some_conv)
  from buf_ok_copy [OF b(2) bufs_ok_of [OF Cons.prems(1) b(1)]] show ?case
    by (rule Cons.IH [OF bufs_ok_put [OF Cons.prems(1)] b(3)])
qed simp

lemma reload_box_ok:
  "reload_box E g name dims dt buf limit s = Some (Inr buf', s') \<Longrightarrow> buf_ok g ts nm buf \<Longrightarrow> buf_ok g ts nm buf'"
  by (auto simp: reload_box_def Let_def io_simps or_panic_def intro: buf_ok_copy split: if_splits)

lemma reload_bufs_ok:
  "bufs_ok g ts bufs \<Longrightarrow> reload_bufs E g limit bufs s = Some (Inr bufs', s') \<Longrightarrow>
     bufs_ok g ts bufs' \<and> map fst bufs' = map fst bufs"
proof (induction bufs arbitrary: s bufs')
  case (Cons x rest)
  obtain name buf where x: "x = (name, buf)" by (cases x)
  obtain dims dt where spec: "array_spec g name = (dims, dt)" by fastforce
  from Cons.prems(2) obtain buf1 s1 rest' where
    r: "reload_box E g name dims dt buf limit s = Some (Inr buf1, s1)" "reload_bufs E g limit rest s1 = Some (Inr rest', s')"
      "bufs' = (name, buf1) # rest'"
    by (auto simp: x spec io_simps)
  from Cons.prems(1) have ok: "buf_ok g ts name buf" "bufs_ok g ts rest" "\<forall>a\<in>set (map fst rest). name < a"
    by (auto simp: x bufs_ok_def)
  from Cons.IH [OF ok(2) r(2)] reload_box_ok [OF r(1) ok(1)] ok(3) show ?case by (auto simp: r(3) x bufs_ok_def)
qed simp

section \<open>What writing a time shard changes\<close>

text \<open>The cells of an array that lie in the writer's region, and those that lie in a time shard.\<close>

definition in_region :: "geometry \<Rightarrow> string list \<Rightarrow> nat list \<Rightarrow> bool" where
  "in_region g dims c \<longleftrightarrow> (\<forall>k<length dims. \<not> is_time g (dims ! k) \<longrightarrow>
     (case map_of (g_region g) (dims ! k) of None \<Rightarrow> True | Some (a, b) \<Rightarrow> a \<le> c ! k \<and> c ! k < b))"

definition in_time_shard :: "geometry \<Rightarrow> nat \<Rightarrow> string list \<Rightarrow> nat list \<Rightarrow> bool" where
  "in_time_shard g ts dims c \<longleftrightarrow> (\<forall>k<length dims. is_time g (dims ! k) \<longrightarrow> c ! k div g_st g = ts)"

lemma div_eq_range: "0 < n \<Longrightarrow> x div n = q \<longleftrightarrow> q * n \<le> x \<and> x < q * n + n" for x n q :: nat
  using div_nat_eqI [of n q x] dividend_less_div_times [of n x] by (auto simp: algebra_simps div_times_less_eq_dividend)

lemma in_box_region:
  assumes g: "geo_ok g" and buf: "buf_ok g ts name buf" and c: "in_extent g name ext c"
  shows "in_box buf c \<longleftrightarrow> in_region g (fst (array_spec g name)) c \<and> in_time_shard g ts (fst (array_spec g name)) c"
proof -
  define dims where "dims = fst (array_spec g name)"
  from c obtain shape where shape: "array_shape_of g dims ext = Some shape" "in_shape shape c"
    by (auto simp: in_extent_def dims_def)
  from buf have "var_box g dims (ts * g_st g) (g_st g) = Some (nb_origin buf, nb_shape buf)" by (simp add: buf_ok_def dims_def)
  note box = var_box_nth [OF this]
  have len: "length c = length dims" using shape length_all_some [OF shape(1) [unfolded array_shape_of_def]] by (simp add: in_shape_def)
  have "nb_origin buf ! k \<le> c ! k \<and> c ! k < nb_origin buf ! k + nb_shape buf ! k \<longleftrightarrow>
      (if is_time g (dims ! k) then c ! k div g_st g = ts
       else (case map_of (g_region g) (dims ! k) of None \<Rightarrow> True | Some (a, b) \<Rightarrow> a \<le> c ! k \<and> c ! k < b))"
    if k: "k < length dims" for k
  proof (cases "is_time g (dims ! k)")
    case True
    with box k g show ?thesis by (auto simp: geo_ok_def div_eq_range)
  next
    case False
    then obtain a b where ab: "local_range g (dims ! k) = Some (a, b)" "nb_origin buf ! k = a" "nb_shape buf ! k = b - a"
      using box [THEN conjunct2, THEN conjunct2, rule_format, OF k] by auto
    have "c ! k < shape ! k" "map_of (g_dim_len g) (dims ! k) = Some (shape ! k)"
      using shape k len False all_some_nth [OF shape(1) [unfolded array_shape_of_def] k] by (auto simp: in_shape_def)
    with ab False show ?thesis by (cases "map_of (g_region g) (dims ! k)") (auto simp: local_range_def)
  qed
  then show ?thesis using box len
    by (auto simp: in_box_def in_region_def in_time_shard_def dims_def [symmetric])
qed

text \<open>
  C23: writing an open time shard changes, in the arrays that this writer writes, exactly the cells of its
  region and of that time shard, to what the buffers hold; every other cell of the store, with it the
  region of every other writer, is left alone.
\<close>

theorem shard_write_exact:
  assumes "shard_store E cell arr" "writer_ok w" "write_shard E ts (w, s) = Some (Inr u, (w', s'))"
    and "map_of (wr_open w) ts = Some sb" "in_extent (wr_geo w) nm (time_extent (wr_geo w) ts) c"
  shows "cell s' nm c =
    (case map_of (sb_bufs sb) nm of
       None \<Rightarrow> cell s nm c
     | Some buf \<Rightarrow>
         (let dims = fst (array_spec (wr_geo w) nm) in
          if writes_array w dims \<and> in_region (wr_geo w) dims c \<and> in_time_shard (wr_geo w) ts dims c
          then box_cell buf c else cell s nm c))"
proof (cases "map_of (sb_bufs sb) nm")
  case None
  with shard_store.written_time_shard [OF assms(1,2,4,3,5)] show ?thesis by (simp add: after_bufs_def)
next
  case (Some buf)
  have "geo_ok (wr_geo w)" "buf_ok (wr_geo w) ts nm buf"
    using assms(2) map_of_SomeD [OF assms(4)] Some by (auto simp: writer_ok_def intro: bufs_ok_of)
  from in_box_region [OF this assms(5)] shard_store.written_time_shard [OF assms(1,2,4,3,5)] Some show ?thesis
    by (auto simp: after_bufs_def Let_def)
qed

end
