(* ===== verification/StreamMemory.thy ===== *)
theory StreamMemory
  imports StreamOwners
begin

text \<open>
  A store in memory behind the streaming writer: named objects, and for every array the bytes of each cell. It
  keeps the laws \<open>shard_store\<close> asks of the array library, and the data theorems hold of it.
\<close>

section \<open>The store\<close>

record mem_store =
  ms_objects :: "(string \<times> string) list"
  ms_cells :: "string \<Rightarrow> nat list \<Rightarrow> 8 word list"

type_synonym mem_handle = "json \<times> array_info"

definition shard_of_meta :: "json \<Rightarrow> json" where
  "shard_of_meta meta = member_of (member_of (member_of meta ''chunk_grid'') ''configuration'') ''chunk_shape''"

definition mem_new :: "string \<Rightarrow> json \<Rightarrow> string + mem_handle" where
  "mem_new path meta =
     (case (read_list as_u64 (member_of meta ''shape''), read_list as_u64 (shard_of_meta meta), as_str (member_of meta ''data_type'')) of
        (Some shape, Some sz, Some t) \<Rightarrow>
          (case dtype_parse t of
             Inr dt \<Rightarrow> if 0 \<in> set sz then Inl ''empty shards'' else Inr (meta, drop 1 path, shape, sz, dt)
           | Inl e \<Rightarrow> Inl ''unknown data type'')
      | _ \<Rightarrow> Inl ''bad metadata'')"

definition put_object :: "string \<Rightarrow> string \<Rightarrow> mem_store \<Rightarrow> mem_store" where
  "put_object k text s = s\<lparr>ms_objects := al_put k text (ms_objects s)\<rparr>"

definition put_shard :: "array_info \<Rightarrow> nat list \<Rightarrow> 8 word list \<Rightarrow> mem_store \<Rightarrow> mem_store" where
  "put_shard info idx bytes s =
     (case info of (nm, shape, sz, dt) \<Rightarrow>
        s\<lparr>ms_cells := (\<lambda>nm' g.
          if nm' = nm \<and> length g = length sz \<and> map2 (div) g sz = idx
          then elt (dtype_size dt) bytes (position_of sz (map2 (mod) g sz)) else ms_cells s nm' g)\<rparr>)"

definition mem_store_chunk :: "mem_handle \<Rightarrow> nat list \<Rightarrow> typed_array \<Rightarrow> (mem_store, unit) storage_op" where
  "mem_store_chunk h idx a s =
     (case snd h of (nm, shape, sz, dt) \<Rightarrow>
        if typed_dtype a \<noteq> dt \<or> typed_len a \<noteq> prod_list sz \<or> length idx \<noteq> length sz then (Inl ''bad shard'', s)
        else (Inr (), put_shard (snd h) idx (to_ne_bytes a) s))"

definition mem_retrieve :: "mem_handle \<Rightarrow> (nat \<times> nat) list \<Rightarrow> stream_dtype \<Rightarrow> (mem_store, typed_array) storage_op" where
  "mem_retrieve h ranges t s =
     (case snd h of (nm, shape, sz, dt) \<Rightarrow>
        (let cs = map (ms_cells s nm) (range_product ranges) in
         if t \<noteq> dt \<or> list_ex (\<lambda>c. length c \<noteq> dtype_size dt) cs then (Inl ''bad read'', s)
         else (Inr (from_ne_bytes dt (concat cs)), s)))"

definition mem_store_all :: "mem_handle \<Rightarrow> f64 list \<Rightarrow> (mem_store, unit) storage_op" where
  "mem_store_all h vs s =
     (case snd h of (nm, shape, sz, dt) \<Rightarrow>
        (Inr (), s\<lparr>ms_cells := (\<lambda>nm' g.
          if nm' = nm \<and> length g = 1 \<and> hd g < length vs then le_bytes 8 (vs ! hd g) else ms_cells s nm' g)\<rparr>))"

definition mem_env :: "serde_api \<Rightarrow> f64_text \<Rightarrow> (mem_store, json, mem_handle) stream_env" where
  "mem_env api T =
     \<lparr>se_key = (\<lambda>k. if k = [] then Inl ''empty key'' else Inr ()),
      se_get = (\<lambda>k s. (Inr (map_of (ms_objects s) k), s)),
      se_set = (\<lambda>k text s. (Inr (), put_object k text s)),
      se_metadata = Inr,
      se_new = mem_new,
      se_open = (\<lambda>path s. (Inl ''not supported'', s)),
      se_store_metadata = (\<lambda>h s. (Inr (), put_object (fst (snd h) @ ''/zarr.json'') (sj_pretty api (fst h)) s)),
      se_store_all = mem_store_all,
      se_store_chunk = mem_store_chunk,
      se_retrieve = mem_retrieve,
      se_api = api, se_text = T, se_digest = (\<lambda>s. s), se_now = (\<lambda>s. ''now''), se_subset = (\<lambda>r. ''subset'')\<rparr>"

text \<open>A text layer that keeps no documents, for the data alone.\<close>

definition brief_api :: serde_api where
  "brief_api = \<lparr>sj_pretty = (\<lambda>v. ''{}''), sj_parse = (\<lambda>t. Inl ''nothing kept''), sj_refusal = (\<lambda>v. [])\<rparr>"

section \<open>Its laws\<close>

lemma read_json_nats:
  assumes "read_list as_u64 (json_nats ns) = Some ms"
  shows "ms = ns"
proof -
  from assms have "list_all2 (\<lambda>n m. as_u64 (json_nat n) = Some m) ns ms"
    by (simp add: read_list_def json_nats_def as_array_def all_some_all2 list_all2_map1)
  then show ?thesis
    by (induction rule: list_all2_induct) (auto simp: as_u64_def json_nat_def split: if_splits)
qed

lemma dtype_parse_name [simp]: "dtype_parse (dtype_name dt) = Inr dt"
  by (cases dt) (simp_all add: dtype_parse_def)

lemma array_meta_fields:
  assumes "array_meta dims shape chunk shard dt codec attrs = Inr meta"
  obtains sz where "pick_dims dims shard ''shard_shape'' = Inr sz" "member_of meta ''shape'' = json_nats shape"
    "shard_of_meta meta = json_nats sz" "member_of meta ''data_type'' = JStr (dtype_name dt)"
  using assms that by (auto simp: array_meta_def bindR_def member_of_def shard_of_meta_def split: sum.splits)

lemma mem_new_info:
  assumes "array_meta dims shape chunk shard dt codec attrs = Inr meta" "mem_new (''/'' @ nm) meta = Inr h"
    "pick_dims dims shard ''shard_shape'' = Inr sz"
  shows "snd h = (nm, shape, sz, dt)"
proof -
  from array_meta_fields [OF assms(1)] assms(3) have f: "member_of meta ''shape'' = json_nats shape"
    "shard_of_meta meta = json_nats sz" "member_of meta ''data_type'' = JStr (dtype_name dt)" by (metis sum.inject(2))+
  from assms(2) obtain shape' sz' where r: "read_list as_u64 (json_nats shape) = Some shape'" "read_list as_u64 (json_nats sz) = Some sz'"
    "snd h = (nm, shape', sz', dt)"
    by (auto simp: mem_new_def f as_str_def split: option.splits if_splits)
  then show ?thesis by (auto dest: read_json_nats)
qed

interpretation mem: shard_store "mem_env api T" ms_cells snd for api T
proof
  fix dims shape chunk shard dt codec meta nm and h :: mem_handle and sz
  assume "array_meta dims shape chunk shard dt codec [] = Inr meta" "array_from_meta (mem_env api T) nm meta = Inr h"
    "pick_dims dims shard ''shard_shape'' = Inr sz"
  then show "snd h = (nm, shape, sz, dt)"
    by (auto simp: array_from_meta_def mem_env_def intro: mem_new_info split: sum.splits)
next
  fix h :: mem_handle and nm shape sz dt a idx s u s' nm' g
  assume "snd h = (nm, shape, sz, dt)" "se_store_chunk (mem_env api T) h idx a s = (Inr u, s')"
  then show "ms_cells s' nm' g = (if nm' = nm \<and> length g = length sz \<and> map2 (div) g sz = idx
      then elt (dtype_size dt) (to_ne_bytes a) (position_of sz (map2 (mod) g sz)) else ms_cells s nm' g)"
    by (auto simp: mem_env_def mem_store_chunk_def put_shard_def split: if_splits)
next
  fix h :: mem_handle and nm shape sz dt ranges s a s'
  assume h: "snd h = (nm, shape, sz, dt)" and r: "se_retrieve (mem_env api T) h ranges dt s = (Inr a, s')"
  let ?cs = "map (ms_cells s nm) (range_product ranges)"
  from h r have len: "\<forall>c\<in>set (range_product ranges). length (ms_cells s nm c) = dtype_size dt"
    and a: "a = from_ne_bytes dt (concat ?cs)" "s' = s"
    by (auto simp: mem_env_def mem_retrieve_def Let_def list_ex_iff split: if_splits)
  from length_concat_const [OF len] have "to_ne_bytes (from_ne_bytes dt (concat ?cs)) = concat ?cs"
    by (rule to_from_ne_bytes)
  with len a show "to_ne_bytes a = concat ?cs \<and> s' = s \<and> (\<forall>g\<in>set (range_product ranges). length (ms_cells s nm g) = dtype_size dt)"
    by simp
qed

section \<open>A time shard in it\<close>

text \<open>The owner of the columns 0 and 1 of three, with both records of time shard 0 in its buffer.\<close>

definition full_buf :: nd_buf where
  "full_buf = \<lparr>nb_origin = [0, 0], nb_shape = [2, 2], nb_esize = 1, nb_data = [1, 2, 3, 4]\<rparr>"

definition open_writer :: writer where
  "open_writer = \<lparr>wr_base = [], wr_geo = two_geometry, wr_role = Owner 2, wr_print = ''f'', wr_version = V2,
     wr_time_coord = False, wr_state = empty_state, wr_next = 2, wr_last_t = None,
     wr_open = [(0, \<lparr>sb_bufs = [(''v'', full_buf)], sb_written = [True, True]\<rparr>)], wr_dirty = [0], wr_flushed = [],
     wr_on_disk = False, wr_pending = no_pending, wr_tok_records = [], wr_tok_statics = [], wr_meta = []\<rparr>"

definition zero_store :: mem_store where
  "zero_store = \<lparr>ms_objects = [], ms_cells = (\<lambda>nm c. [0])\<rparr>"

lemma two_geometry_ok: "geo_ok two_geometry"
proof -
  have s: "g_schema two_geometry = two_schema" "g_region two_geometry = [(''x'', 0, 2)]" "g_dim_len two_geometry = [(''t'', 0), (''x'', 3)]"
    "g_st two_geometry = 2" by (simp_all add: two_geometry_def)
  have "validate_region two_schema [(''x'', 0, 2)] = Some (Inr ())" "dim_lens two_schema = [(''t'', 0), (''x'', 3)]"
    "map_of (ss_shard two_schema) (ss_time_dim two_schema) = Some 2" "distinct (map sv_name (ss_vars two_schema))"
    "list_all (\<lambda>v. sv_name v \<noteq> ss_time_dim two_schema) (ss_vars two_schema)"
    "map_of (ss_shard two_schema) ''t'' = Some 2" "map_of (ss_shard two_schema) ''x'' = Some 2"
    "list_all (\<lambda>v. set (sv_dims v) \<subseteq> {''t'', ''x''}) (ss_vars two_schema)" by code_simp+
  then show ?thesis by (auto simp: geo_ok_def s list_all_iff split: if_splits)
qed

lemma open_writer_ok: "writer_ok open_writer"
proof -
  have "buf_ok two_geometry 0 ''v'' full_buf"
  proof -
    have "array_spec two_geometry ''v'' = ([''t'', ''x''], DU8)" "var_box two_geometry [''t'', ''x''] (0 * g_st two_geometry) (g_st two_geometry) = Some ([0, 0], [2, 2])"
      by code_simp+
    then show ?thesis by (simp add: buf_ok_def full_buf_def box_ok_def)
  qed
  then show ?thesis using two_geometry_ok by (simp add: writer_ok_def open_writer_def bufs_ok_def)
qed

declare copy_loop.simps [code]

theorem shard_write_exact_witness:
  "\<exists>w' s'. write_shard (mem_env brief_api plain_text) 0 (open_writer, zero_store) = Some (Inr (), (w', s')) \<and>
     ms_cells s' ''v'' [1, 1] = [4] \<and> ms_cells s' ''v'' [1, 2] = [0]"
proof -
  let ?run = "write_shard (mem_env brief_api plain_text) 0 (open_writer, zero_store)"
  have "map_option fst ?run = Some (Inr ())" by code_simp
  then obtain w' s' where run: "?run = Some (Inr (), (w', s'))" by (cases ?run) auto
  have sb: "map_of (wr_open open_writer) 0 = Some \<lparr>sb_bufs = [(''v'', full_buf)], sb_written = [True, True]\<rparr>"
    by (simp add: open_writer_def)
  have g: "wr_geo open_writer = two_geometry" by (simp add: open_writer_def)
  have spec: "array_spec two_geometry ''v'' = ([''t'', ''x''], DU8)" by code_simp
  have "array_shape_of two_geometry [''t'', ''x''] (time_extent two_geometry 0) = Some [2, 3]" by code_simp
  then have c: "in_extent (wr_geo open_writer) ''v'' (time_extent (wr_geo open_writer) 0) [1, k]" if "k < 3" for k
    using that by (auto simp: in_extent_def g spec in_shape_def nth_Cons split: nat.splits)
  note at = shard_write_exact [OF mem.shard_store_axioms open_writer_ok run sb c]
  have cells: "writes_array open_writer [''t'', ''x'']" "in_region two_geometry [''t'', ''x''] [1, 1]" "\<not> in_region two_geometry [''t'', ''x''] [1, 2]"
    "in_time_shard two_geometry 0 [''t'', ''x''] [1, 1]" "box_cell full_buf [1, 1] = [4]" by code_simp+
  from at [of 1] at [of 2] cells show ?thesis using run by (auto simp: g spec zero_store_def)
qed

end
