(* ===== verification/StreamReopen.thy ===== *)
theory StreamReopen
  imports StreamMemory
begin

text \<open>
  Reopening a time shard that has been written: a writer of an indexed store that comes back to a shard gets
  its buffers from the store, cell by cell what it wrote.
\<close>

lemma buf_within:
  assumes g: "geo_ok g" and buf: "buf_ok g ts name buf" and spec: "array_spec g name = (dims, dt)"
    and shape: "array_shape_of g dims ext = Some shape" and sz: "all_some (map_of (ss_shard (g_schema g))) dims = Some sz"
    and k: "k < length dims" "\<not> is_time g (dims ! k)"
  shows "nb_origin buf ! k + nb_shape buf ! k \<le> shape ! k"
proof -
  from buf have "var_box g dims (ts * g_st g) (g_st g) = Some (nb_origin buf, nb_shape buf)" by (simp add: buf_ok_def spec)
  from var_box_nth [OF this, THEN conjunct2, THEN conjunct2, rule_format, OF k(1)] k(2) obtain a b where
    ab: "local_range g (dims ! k) = Some (a, b)" "nb_origin buf ! k = a" "nb_shape buf ! k = b - a" by auto
  have "map_of (g_dim_len g) (dims ! k) = Some (shape ! k)"
    using all_some_nth [OF shape [unfolded array_shape_of_def] k(1)] k(2) by simp
  from local_range_ok [OF g ab(1) this all_some_nth [OF sz k(1)]] show ?thesis by (simp add: ab)
qed

lemma buf_rank: "buf_ok g ts name buf \<Longrightarrow> length (fst (array_spec g name)) = length (nb_shape buf)"
  using var_box_nth [of g "fst (array_spec g name)"] by (fastforce simp: buf_ok_def)

lemma all_some_total: "\<forall>x\<in>set xs. f x \<noteq> None \<Longrightarrow> \<exists>ys. all_some f xs = Some ys"
  by (induction xs) auto

lemma spec_dims:
  assumes g: "geo_ok g" and spec: "array_spec g name = (dims, dt)"
  obtains shape sz where "array_shape_of g dims ext = Some shape" "all_some (map_of (ss_shard (g_schema g))) dims = Some sz"
proof -
  have d: "(is_time g d \<or> map_of (g_dim_len g) d \<noteq> None) \<and> map_of (ss_shard (g_schema g)) d \<noteq> None" if "d \<in> set dims" for d
  proof (cases "is_time g d")
    case True
    then show ?thesis using g by (simp add: geo_ok_def is_time_def)
  next
    case False
    then have "d \<in> fst ` set (g_dim_len g)"
      using that spec g by (auto simp: array_spec_def geo_ok_def is_time_def find_Some_iff split: option.splits)
    moreover from g this have "map_of (ss_shard (g_schema g)) d \<noteq> None" unfolding geo_ok_def by fastforce
    ultimately have "map_of (g_dim_len g) d \<noteq> None" "map_of (ss_shard (g_schema g)) d \<noteq> None"
      by (simp_all add: map_of_eq_None_iff)
    then show ?thesis by blast
  qed
  have "\<forall>d\<in>set dims. (if is_time g d then Some ext else map_of (g_dim_len g) d) \<noteq> None"
    "\<forall>d\<in>set dims. map_of (ss_shard (g_schema g)) d \<noteq> None" using d by auto
  from all_some_total [OF this(1)] all_some_total [OF this(2)] that show ?thesis by (auto simp: array_shape_of_def)
qed

text \<open>What a reload gives: the cells of the store below the limit, what the buffer had above it.\<close>

definition reloaded ::
    "(string \<Rightarrow> nat list \<Rightarrow> 8 word list) \<Rightarrow> geometry \<Rightarrow> nat \<Rightarrow> string \<Rightarrow> nd_buf \<Rightarrow> nd_buf \<Rightarrow> bool" where
  "reloaded cells g limit name buf buf' \<longleftrightarrow> (\<exists>data. buf' = buf\<lparr>nb_data := data\<rparr>) \<and>
     (\<forall>c. in_box buf c \<longrightarrow>
        box_cell buf' c = (if below_limit g (fst (array_spec g name)) limit c then cells name c else box_cell buf c))"

context shard_store
begin

lemma reloaded_buf:
  assumes g: "geo_ok g" and buf: "buf_ok g ts name buf" and spec: "array_spec g name = (dims, dt)"
    and r: "reload_box E g name dims dt buf limit s = Some (Inr buf', s')"
  shows "s' = s \<and> reloaded (cell s) g limit name buf buf'"
proof -
  obtain shape sz where shape: "array_shape_of g dims limit = Some shape"
    and sz: "all_some (map_of (ss_shard (g_schema g))) dims = Some sz"
    by (rule spec_dims [OF g spec]) (rule that)
  have b: "box_ok buf" "nb_esize buf = dtype_size dt" using buf by (simp_all add: buf_ok_def spec)
  have rank: "length dims = length (nb_shape buf)" using buf_rank [OF buf] by (simp add: spec)
  show ?thesis using reloaded_box [OF r shape sz b rank] buf_within [OF g buf spec shape sz] by (simp add: reloaded_def spec)
qed

lemma reloaded_bufs:
  assumes g: "geo_ok g"
  shows "bufs_ok g ts bufs \<Longrightarrow> reload_bufs E g limit bufs s = Some (Inr bufs', s') \<Longrightarrow>
    s' = s \<and> list_all2 (\<lambda>(name, buf) (name', buf'). name' = name \<and> reloaded (cell s) g limit name buf buf') bufs bufs'"
proof (induction bufs arbitrary: bufs' s)
  case (Cons x rest)
  obtain name buf where x: "x = (name, buf)" by (cases x)
  obtain dims dt where spec: "array_spec g name = (dims, dt)" by fastforce
  from Cons.prems(2) obtain buf1 s1 rest' where
    r: "reload_box E g name dims dt buf limit s = Some (Inr buf1, s1)" "reload_bufs E g limit rest s1 = Some (Inr rest', s')"
      "bufs' = (name, buf1) # rest'"
    by (auto simp: x spec io_simps)
  from Cons.prems(1) have ok: "buf_ok g ts name buf" "bufs_ok g ts rest" using bufs_ok_Cons by (auto simp: x)
  from reloaded_buf [OF g ok(1) spec r(1)] Cons.IH [OF ok(2) r(2)] show ?case by (auto simp: r(3) x)
qed simp

end

lemma map_of_all2:
  "list_all2 (\<lambda>(k, x) (k', y). k' = k \<and> R k x y) xs ys \<Longrightarrow> map_of xs k = Some x \<Longrightarrow> \<exists>y. map_of ys k = Some y \<and> R k x y"
  by (induction xs ys rule: list_all2_induct) (auto split: if_splits)

text \<open>
  C24: when a writer of an indexed store writes a time shard, forgets it and opens it again, it reads back
  what it wrote: the reopened buffer of every array it writes has the same bytes in every cell of the extent
  (and the store is left alone).
\<close>

theorem reopened_shard_roundtrip:
  assumes laws: "shard_store E cell arr" and w: "writer_ok w" and n: "n_indexed (wr_geo w) = Some n"
    and sb: "map_of (wr_open w) ts = Some sb" and wr: "write_shard E ts (w, s) = Some (Inr u, (w1, s1))"
    and ro: "ensure_open E ts (w1\<lparr>wr_open := al_del ts (wr_open w1)\<rparr>, s1) = Some (Inr u', (w2, s2))"
  shows "s2 = s1 \<and> (\<exists>sb2. map_of (wr_open w2) ts = Some sb2 \<and>
    (\<forall>nm buf buf2 c. map_of (sb_bufs sb) nm = Some buf \<and> map_of (sb_bufs sb2) nm = Some buf2 \<and>
       writes_array w (fst (array_spec (wr_geo w) nm)) \<and> in_extent (wr_geo w) nm n c \<and> in_box buf c \<longrightarrow>
       box_cell buf2 c = box_cell buf c))"
proof -
  let ?g = "wr_geo w"
  have g: "geo_ok ?g" and bok: "bufs_ok ?g ts (sb_bufs sb)" using w map_of_SomeD [OF sb] by (auto simp: writer_ok_def)
  from wr sb have w1: "wr_geo w1 = ?g" "ts \<in> set (wr_flushed w1)"
    by (auto simp: write_shard_def handle_def in_store_def update_handle_def add_objects_def io_simps set_insort_insert)
  have ext: "time_extent ?g ts = n" by (simp add: time_extent_def n)
  let ?w1 = "w1\<lparr>wr_open := al_del ts (wr_open w1)\<rparr>"
  have "\<not> has_key ts (wr_open ?w1)" by (simp add: has_key_map_of)
  with ro w1 n obtain sb0 bufs where sb0: "new_shard_buf ?w1 ts = Some sb0"
    and re: "reload_bufs E ?g n (sb_bufs sb0) s1 = Some (Inr bufs, s2)"
    and w2: "map_of (wr_open w2) ts = Some (sb0\<lparr>sb_bufs := bufs\<rparr>)"
    by (auto simp: ensure_open_def handle_def update_handle_def in_store_def or_panic_def io_simps)
  have ok0: "bufs_ok ?g ts (sb_bufs sb0)" using new_shard_buf_ok [OF _ sb0] g w1 by simp
  from shard_store.reloaded_bufs [OF laws g ok0 re] have s2: "s2 = s1"
    and all: "list_all2 (\<lambda>(name, buf) (name', buf'). name' = name \<and> reloaded (cell s1) ?g n name buf buf') (sb_bufs sb0) bufs"
    by auto
  have "box_cell buf2 c = box_cell buf c"
    if h: "map_of (sb_bufs sb) nm = Some buf" "map_of bufs nm = Some buf2" "writes_array w (fst (array_spec ?g nm))"
      "in_extent ?g nm n c" "in_box buf c" for nm buf buf2 c
  proof -
    have "map fst bufs = map fst (sb_bufs sb0)" using all by (auto simp: list_all2_conv_all_nth intro!: nth_equalityI)
    then obtain buf0 where b0: "map_of (sb_bufs sb0) nm = Some buf0"
      using h(2) by (metis map_of_eq_None_iff list.set_map not_None_eq option.distinct(1))
    with map_of_all2 [OF all b0] h(2) have r: "reloaded (cell s1) ?g n nm buf0 buf2" by auto
    have box: "in_box buf0 c" using in_box_region [OF g bufs_ok_of [OF bok h(1)] h(4)] in_box_region [OF g bufs_ok_of [OF ok0 b0] h(4)] h(5) by simp
    have "below_limit ?g (fst (array_spec ?g nm)) n c"
      using h(4) all_some_nth by (force simp: in_extent_def below_limit_def array_shape_of_def in_shape_def length_all_some)
    then have "box_cell buf2 c = cell s1 nm c" using r box by (simp add: reloaded_def)
    also have "\<dots> = box_cell buf c"
      using shard_store.written_time_shard [OF laws w sb wr, of nm c] h by (simp add: ext after_bufs_def)
    finally show ?thesis .
  qed
  with s2 w2 show ?thesis by auto
qed

definition indexed_geometry :: geometry where
  "indexed_geometry = two_geometry\<lparr>g_schema := two_schema\<lparr>ss_dims := [(''t'', 3), (''x'', 3)], ss_time_mode := Indexed 3 [5, 6, 7]\<rparr>,
     g_dim_len := [(''t'', 3), (''x'', 3)]\<rparr>"

definition indexed_writer :: writer where
  "indexed_writer = open_writer\<lparr>wr_geo := indexed_geometry\<rparr>"

lemma indexed_writer_ok: "writer_ok indexed_writer"
proof -
  let ?s = "g_schema indexed_geometry"
  have f: "validate_region ?s [(''x'', 0, 2)] = Some (Inr ())" "dim_lens ?s = [(''t'', 3), (''x'', 3)]" "g_region indexed_geometry = [(''x'', 0, 2)]"
    "g_dim_len indexed_geometry = [(''t'', 3), (''x'', 3)]" "g_st indexed_geometry = 2"
    "map_of (ss_shard ?s) (ss_time_dim ?s) = Some 2" "distinct (map sv_name (ss_vars ?s))"
    "list_all (\<lambda>v. sv_name v \<noteq> ss_time_dim ?s) (ss_vars ?s)"
    "map_of (ss_shard ?s) ''t'' = Some 2" "map_of (ss_shard ?s) ''x'' = Some 2"
    "list_all (\<lambda>v. set (sv_dims v) \<subseteq> {''t'', ''x''}) (ss_vars ?s)"
    "array_spec indexed_geometry ''v'' = ([''t'', ''x''], DU8)"
    "var_box indexed_geometry [''t'', ''x''] (0 * g_st indexed_geometry) (g_st indexed_geometry) = Some ([0, 0], [2, 2])" by code_simp+
  then have "geo_ok indexed_geometry" by (auto simp: geo_ok_def list_all_iff split: if_splits)
  moreover have "buf_ok indexed_geometry 0 ''v'' full_buf"
    using f(12,13) by (simp add: buf_ok_def full_buf_def box_ok_def)
  ultimately show ?thesis by (simp add: writer_ok_def indexed_writer_def open_writer_def bufs_ok_def)
qed

theorem reopened_shard_roundtrip_witness:
  "\<exists>w s sb buf. ensure_open (mem_env brief_api plain_text) 0 (w, s) = Some (Inr (), (sb, s)) \<and>
     Option.bind (map_of (wr_open sb) 0) (\<lambda>x. map_of (sb_bufs x) ''v'') = Some buf \<and> box_cell buf [1, 1] = [4]"
proof -
  let ?E = "mem_env brief_api plain_text"
  let ?run = "write_shard ?E 0 (indexed_writer, zero_store)"
  let ?again = "\<lambda>(w1, s1). ensure_open ?E 0 (w1\<lparr>wr_open := al_del 0 (wr_open w1)\<rparr>, s1)"
  have "map_option fst ?run = Some (Inr ())" by code_simp
  then obtain w1 s1 where run: "?run = Some (Inr (), (w1, s1))" by (cases ?run) auto
  have "map_option fst (Option.bind ?run (\<lambda>(r, x). ?again x)) = Some (Inr ())" by code_simp
  then obtain w2 s2 where again: "ensure_open ?E 0 (w1\<lparr>wr_open := al_del 0 (wr_open w1)\<rparr>, s1) = Some (Inr (), (w2, s2))"
    by (auto simp: run)
  have "Option.bind (Option.bind ?run (\<lambda>(r, x). ?again x)) (\<lambda>(r, w, s). Option.bind (map_of (wr_open w) 0) (\<lambda>x. map_option (\<lambda>b. ()) (map_of (sb_bufs x) ''v'')))
      = Some ()" by code_simp
  then obtain sb2 buf2 where b2: "map_of (wr_open w2) 0 = Some sb2" "map_of (sb_bufs sb2) ''v'' = Some buf2"
    by (auto simp: run again bind_eq_Some_conv)
  have n: "n_indexed (wr_geo indexed_writer) = Some 3" by code_simp
  have sb: "map_of (wr_open indexed_writer) 0 = Some \<lparr>sb_bufs = [(''v'', full_buf)], sb_written = [True, True]\<rparr>"
    by (simp add: indexed_writer_def open_writer_def)
  have spec: "fst (array_spec (wr_geo indexed_writer) ''v'') = [''t'', ''x'']" "writes_array indexed_writer [''t'', ''x'']"
    "array_shape_of (wr_geo indexed_writer) [''t'', ''x''] 3 = Some [3, 3]" by code_simp+
  then have "in_extent (wr_geo indexed_writer) ''v'' 3 [1, 1]" by (auto simp: in_extent_def in_shape_def nth_Cons split: nat.splits)
  moreover have "in_box full_buf [1, 1]" by (auto simp: in_box_def full_buf_def nth_Cons split: nat.splits)
  ultimately have "s2 = s1 \<and> box_cell buf2 [1, 1] = box_cell full_buf [1, 1]"
    using reopened_shard_roundtrip [OF mem.shard_store_axioms indexed_writer_ok n sb run again] b2 spec by fastforce
  moreover have "box_cell full_buf [1, 1] = [4]" by code_simp
  ultimately show ?thesis using again b2
    by (intro exI [where x = "w1\<lparr>wr_open := al_del 0 (wr_open w1)\<rparr>"] exI [where x = s1] exI [where x = w2] exI [where x = buf2]) simp
qed

end
