(* ===== verification/StreamKeeps.thy ===== *)
theory StreamKeeps
  imports StreamReopen
begin

text \<open>
  The invariant of a writer: its geometry is the one that opening checked, and every open buffer is the box
  of its array in its time shard with the bytes of every cell. \<open>create\<close> establishes it and every operation
  keeps it, whether it succeeds or fails.
\<close>

section \<open>Rules that know what was read\<close>

definition live :: "geometry \<Rightarrow> writer \<times> 's \<Rightarrow> bool" where
  "live g x \<longleftrightarrow> wr_geo (fst x) = g \<and> writer_ok (fst x)"

lemma keeps_bind_handle: "(\<And>w s. P (w, s) \<Longrightarrow> keeps P (f w)) \<Longrightarrow> keeps P (bindI handle f)"
proof (rule keepsI)
  fix x assume f: "\<And>w s. P (w, s) \<Longrightarrow> keeps P (f w)" and "P x"
  then show "outcome (bindI handle f) x (\<lambda>r. P)"
    by (cases x) (simp add: outcome_bind outcome_handle keeps_outcome [OF f])
qed

lemma keeps_bind_result:
  assumes "\<And>x. P x \<Longrightarrow> outcome m x (\<lambda>r y. P y \<and> (\<forall>a. r = Inr a \<longrightarrow> R a))" "\<And>a. R a \<Longrightarrow> keeps P (f a)"
  shows "keeps P (bindI m f)"
proof (rule keepsI, subst outcome_bind)
  fix x assume "P x"
  from assms(1) [OF this] show "outcome m x (\<lambda>r y. case r of Inl e \<Rightarrow> P y | Inr a \<Rightarrow> outcome (f a) y (\<lambda>r. P))"
    by (rule outcome_mono) (auto split: sum.splits intro: keeps_outcome assms(2))
qed

lemma keeps_bind_panic: "(\<And>a. v = Some a \<Longrightarrow> keeps P (f a)) \<Longrightarrow> keeps P (bindI (or_panic v) f)"
  by (rule keeps_bind_result [where R = "\<lambda>a. v = Some a"]) (auto simp: outcome_simps)

lemma writer_ok_same:
  "writer_ok w \<Longrightarrow> wr_geo w' = wr_geo w \<Longrightarrow> set (wr_open w') \<subseteq> set (wr_open w) \<Longrightarrow> writer_ok w'"
  by (auto simp: writer_ok_def)

lemma live_same: "live g (w, s) \<Longrightarrow> wr_geo w' = wr_geo w \<Longrightarrow> set (wr_open w') \<subseteq> set (wr_open w) \<Longrightarrow> live g (w', s')"
  by (auto simp: live_def intro: writer_ok_same)

lemma keeps_live_update:
  "(\<And>w. wr_geo (f w) = wr_geo w) \<Longrightarrow> (\<And>w. set (wr_open (f w)) \<subseteq> set (wr_open w)) \<Longrightarrow> keeps (live g) (update_handle f)"
  by (rule keeps_update_handle) (rule live_same)

lemma keeps_live_store [intro!]: "keeps (live g) (in_store m)"
  by (rule keeps_in_store) (simp add: live_def)

lemma keeps_live_state [intro!]: "keeps (live g) (update_state f)"
  by (rule keeps_update_state) (auto elim!: live_same)

lemma keeps_live_transact: "keeps (live g) m \<Longrightarrow> keeps (live g) (transact m)"
  by (rule keeps_transact) (auto elim!: live_same)

section \<open>Every operation keeps the buffers\<close>

lemma live_put_open:
  assumes "live g (w, s)" "bufs_ok g ts (sb_bufs sb)" "wr_geo w' = wr_geo w" "wr_open w' = bt_put ts sb (wr_open w)"
  shows "live g (w', s')"
  using assms set_bt_put [of ts sb "wr_open w"] by (fastforce simp: live_def writer_ok_def)

lemma ensure_open_keeps: "keeps (live g) (ensure_open E ts)"
  unfolding ensure_open_def
proof (rule keeps_bind_handle, rule keeps_if, rule keeps_basic, rule keeps_bind_panic)
  fix w and s :: 'a and sb
  assume w: "live g (w, s)" and sb: "new_shard_buf w ts = Some sb"
  have ok: "bufs_ok g ts (sb_bufs sb)" using new_shard_buf_ok [OF _ sb] w by (auto simp: live_def writer_ok_def)
  have g: "wr_geo w = g" using w by (simp add: live_def)
  show "keeps (live g) (bindI (case n_indexed (wr_geo w) of None \<Rightarrow> ret (sb_bufs sb)
      | Some n \<Rightarrow> if wr_on_disk w \<or> ts \<in> set (wr_flushed w) then in_store (reload_bufs E (wr_geo w) n (sb_bufs sb)) else ret (sb_bufs sb))
      (\<lambda>bufs. update_handle (\<lambda>w. w\<lparr>wr_open := bt_put ts (sb\<lparr>sb_bufs := bufs\<rparr>) (wr_open w)\<rparr>)))"
  proof (rule keeps_bind_result [where R = "bufs_ok g ts"])
    fix x :: "writer \<times> 'a" assume x: "live g x"
    have "outcome (in_store (reload_bufs E g n (sb_bufs sb))) x (\<lambda>r y. live g y \<and> (\<forall>a. r = Inr a \<longrightarrow> bufs_ok g ts a))" for n
    proof (cases x)
      case (Pair a b)
      have l: "live g (a, s')" for s' :: 'a using x by (simp add: Pair live_def)
      show ?thesis unfolding Pair outcome_in_store by (auto simp: outcome_def l dest: reload_bufs_ok [OF ok])
    qed
    with x ok show "outcome (case n_indexed (wr_geo w) of None \<Rightarrow> ret (sb_bufs sb)
      | Some n \<Rightarrow> if wr_on_disk w \<or> ts \<in> set (wr_flushed w) then in_store (reload_bufs E (wr_geo w) n (sb_bufs sb)) else ret (sb_bufs sb))
      x (\<lambda>r y. live g y \<and> (\<forall>a. r = Inr a \<longrightarrow> bufs_ok g ts a))"
      by (auto simp: outcome_simps g split: option.splits)
  next
    fix bufs assume "bufs_ok g ts bufs"
    then show "keeps (live g) (update_handle (\<lambda>w. w\<lparr>wr_open := bt_put ts (sb\<lparr>sb_bufs := bufs\<rparr>) (wr_open w)\<rparr>) :: ('a, unit) wio)"
      by (intro keeps_update_handle) (erule live_put_open, simp_all)
  qed
qed

lemma write_shard_keeps: "keeps (live g) (write_shard E ts)"
  unfolding write_shard_def
  by (intro keeps_bind keeps_handle keeps_case_option keeps_basic keeps_live_store keeps_live_update) (simp_all add: add_objects_def)

lemma map_of_open: "live g (w, s) \<Longrightarrow> map_of (wr_open w) ts = Some sb \<Longrightarrow> bufs_ok g ts (sb_bufs sb)"
  by (auto simp: live_def writer_ok_def dest!: map_of_SomeD)

lemma place_record_keeps: "keeps (live g) (place_record E i t arrays)"
  unfolding place_record_def Let_def
proof (rule keeps_bind_handle, rule keeps_bind [OF keeps_basic(3)], rule keeps_bind [OF keeps_basic(5)], rule keeps_if,
    rule keeps_basic, rule keeps_bind [OF ensure_open_keeps], rule keeps_bind_handle, rule keeps_bind_panic, rule keeps_bind_panic)
  fix w w1 :: writer and s s1 :: 'a and sb :: shard_buf and srcs bufs
  let ?st = "g_st (wr_geo w)" let ?ts = "i div ?st"
  let ?sb = "\<lparr>sb_bufs = bufs, sb_written = (sb_written sb)[i mod ?st := True]\<rparr>"
  assume "live g (w1, s1)" "map_of (wr_open w1) ?ts = Some sb" "place_sources (srcs @ time_source w i t) (sb_bufs sb) = Some bufs"
  then have ok: "bufs_ok g ?ts bufs" by (rule place_sources_ok [OF map_of_open])
  show "keeps (live g) (bindI (update_handle (\<lambda>w. add_record i t (w\<lparr>wr_open := bt_put ?ts ?sb (wr_open w)\<rparr>))) (\<lambda>_.
      if list_all id (take (shard_slots (wr_geo w) ?ts) (sb_written ?sb)) then
        bindI (write_shard E ?ts) (\<lambda>_. update_handle (\<lambda>w. w\<lparr>wr_open := al_del ?ts (wr_open w), wr_dirty := remove1 ?ts (wr_dirty w)\<rparr>))
      else update_handle (\<lambda>w. w\<lparr>wr_dirty := bs_put ?ts (wr_dirty w)\<rparr>)))"
  proof (rule keeps_bind)
    show "keeps (live g) (update_handle (\<lambda>w. add_record i t (w\<lparr>wr_open := bt_put ?ts ?sb (wr_open w)\<rparr>)) :: ('a, unit) wio)"
      by (intro keeps_update_handle) (erule live_put_open [where sb = ?sb], simp_all add: ok add_record_def)
  qed (intro keeps_if keeps_bind write_shard_keeps keeps_live_update; auto simp: al_del_def)
qed

lemma write_record_keeps: "keeps (live g) (write_record E t arrays)"
  unfolding write_record_def
  by (intro keeps_bind_handle keeps_if keeps_basic keeps_bind place_record_keeps keeps_live_update) simp_all

lemma refresh_view_keeps: "keeps (live g) (refresh_view E)"
  unfolding refresh_view_def
  by (intro keeps_bind keeps_live_store keeps_basic keeps_case_prod keeps_live_update) simp_all

lemma record_committed_keeps: "keeps (live g) (record_committed E i)"
  unfolding record_committed_def
  by (intro keeps_bind_handle keeps_bind keeps_if keeps_basic refresh_view_keeps)

lemma static_committed_keeps: "keeps (live g) (static_committed E name)"
  unfolding static_committed_def
  by (intro keeps_bind_handle keeps_bind keeps_if keeps_basic refresh_view_keeps)

lemma write_record_at_keeps: "keeps (live g) (write_record_at E i t arrays)"
  unfolding write_record_at_def Let_def
  by (intro keeps_bind_handle keeps_case_option keeps_bind keeps_if keeps_basic record_committed_keeps place_record_keeps)

lemma write_static_keeps: "keeps (live g) (write_static E name a)"
  unfolding write_static_def Let_def
  by (intro keeps_bind_handle keeps_bind keeps_if keeps_basic keeps_case_prod static_committed_keeps keeps_live_store keeps_live_update)
    (simp_all add: add_objects_def)

lemma write_blob_keeps: "keeps (live g) (write_blob E scope key bytes)"
  unfolding write_blob_def Let_def
  by (intro keeps_bind_handle keeps_bind keeps_if keeps_case_option keeps_basic keeps_live_store keeps_live_update)
    (simp_all add: add_objects_def)

lemma write_manifest_keeps: "keeps (live g) (write_manifest E)"
  unfolding write_manifest_def by (intro keeps_bind_handle keeps_if keeps_basic keeps_live_store)

lemma store_meta_keeps: "keeps (live g) (store_meta E name meta)"
  unfolding store_meta_def by (intro keeps_bind keeps_basic keeps_live_store keeps_live_update) simp_all

lemma write_shapes_keeps: "keeps (live g) (write_shapes E n)"
  unfolding write_shapes_def grow_array_def Let_def
  by (intro keeps_bind_handle keeps_for_each keeps_bind keeps_case_option keeps_basic keeps_live_store store_meta_keeps)

lemma commit_keeps: "keeps (live g) (commit E toks)"
proof -
  have recs: "keeps (live g) (commit_records E recs)" for recs
    unfolding commit_records_def Let_def
    by (intro keeps_bind_handle keeps_bind keeps_case_option keeps_if keeps_basic keeps_live_state write_shapes_keeps)
  have "keeps (live g) (apply_commit E toks)"
    unfolding apply_commit_def Let_def
    by (intro keeps_case_list keeps_basic keeps_bind recs keeps_handle keeps_live_state write_manifest_keeps)
  then show ?thesis unfolding commit_def
    by (intro keeps_bind_handle keeps_if keeps_basic keeps_case_option keeps_case_sum keeps_live_transact)
qed

lemma flush_keeps: "keeps (live g) (flush E)"
  unfolding flush_def take_token_def
  by (intro keeps_bind keeps_handle keeps_for_each write_shard_keeps keeps_if keeps_basic keeps_attempt commit_keeps
      keeps_case_sum keeps_live_update) (simp_all add: clear_pending_def restore_pending_def)

lemma invalidate_keeps: "keeps (live g) (invalidate E is)"
  unfolding invalidate_def
  by (intro keeps_bind_handle keeps_if keeps_basic keeps_case_option keeps_live_transact keeps_bind keeps_live_state write_manifest_keeps)

lemma invalidate_statics_keeps: "keeps (live g) (invalidate_statics E names)"
  unfolding invalidate_statics_def
  by (intro keeps_bind_handle keeps_if keeps_basic keeps_case_option keeps_live_transact keeps_bind keeps_live_state write_manifest_keeps)

section \<open>Opening establishes the invariant\<close>

lemma keys_bt_of_list: "fst ` set (bt_of_list kvs) = fst ` set kvs"
proof -
  have "fst ` set (fold (\<lambda>(k, v). bt_put k v) kvs m) = fst ` set kvs \<union> fst ` set m" for m
  proof (induction kvs arbitrary: m)
    case (Cons x kvs)
    then show ?case using keys_bt_put [of "fst x" "snd x" m] by (auto simp: case_prod_unfold)
  qed simp
  then show ?thesis by (simp add: bt_of_list_def)
qed

lemma check_dims_ok: "check_dims s dims = Inr u \<Longrightarrow> d \<in> fst ` set dims \<Longrightarrow> \<exists>sh. map_of (ss_shard s) d = Some sh \<and> 0 < sh"
proof (induction dims)
  case (Cons x dims)
  then show ?case by (cases x; cases "d = fst x") (auto simp: bindR_def result_simps split: sum.splits if_splits)
qed simp

lemma check_names_ok:
  "check_names td known names vs = Inr u \<Longrightarrow> distinct (map sv_name vs) \<and> sv_name ` set vs \<inter> set names = {} \<and>
     td \<notin> sv_name ` set vs \<and> (\<forall>v\<in>set vs. set (sv_dims v) \<subseteq> set known)"
  by (induction td known names vs rule: check_names.induct) (auto simp: find_None_iff split: if_splits option.splits)

lemma validated_geometry:
  assumes "validate_schema schema0 = Inr schema" "validate_region schema region = Some (Inr u)"
    and "assemble E base schema role region v cs = Some (Inr w)"
  shows "geo_ok (wr_geo w) \<and> wr_open w = []"
proof -
  from assms(1) obtain u1 u2 where d: "check_dims schema (ss_dims schema) = Inr u1"
    and n: "check_names (ss_time_dim schema) (map fst (ss_dims schema)) [] (ss_vars schema @ ss_statics schema) = Inr u2"
    by (auto simp: validate_schema_def Let_def bindR_def split: sum.splits if_splits)
  have td: "ss_time_dim schema \<in> fst ` set (ss_dims schema)"
  proof -
    have "fst ` set (with_time_len td mode dims) = fst ` set dims" for td mode dims
      by (force simp: with_time_len_def image_iff split: time_mode.splits)
    with assms(1) show ?thesis
      by (simp add: validate_schema_def Let_def bindR_def split: sum.splits if_splits) force
  qed
  from assms(3) obtain st where st: "map_of (ss_shard schema) (ss_time_dim schema) = Some st" "wr_open w = []"
    "g_schema (wr_geo w) = schema" "g_region (wr_geo w) = region" "g_dim_len (wr_geo w) = dim_lens schema" "g_st (wr_geo w) = st"
    by (auto simp: assemble_def split: sum.splits)
  from check_dims_ok [OF d td] st(1) have "0 < st" by simp
  moreover note check_names_ok [OF n] check_dims_ok [OF d]
  ultimately show ?thesis using assms(2) st
    by (auto simp: geo_ok_def dim_lens_def keys_bt_of_list)
qed

lemma keeps_case_time_mode:
  "(m = Append \<Longrightarrow> keeps P a) \<Longrightarrow> (\<And>n ts. m = Indexed n ts \<Longrightarrow> keeps P (h n ts)) \<Longrightarrow>
     keeps P (case m of Append \<Rightarrow> a | Indexed n ts \<Rightarrow> h n ts)"
  by (cases m) simp_all

lemma write_layout_keeps: "keeps (live g) (write_layout E)"
proof -
  have "keeps (live g) (put_meta E name dims shape dt attrs)" for name dims shape dt attrs
    unfolding put_meta_def Let_def by (intro keeps_bind_handle keeps_bind keeps_basic store_meta_keeps)
  then show ?thesis unfolding write_layout_def Let_def
    by (intro keeps_bind_handle keeps_bind keeps_for_each keeps_if keeps_case_time_mode keeps_basic keeps_live_store)
qed

lemma with_handle_Inr:
  assumes "with_handle w m s = Some (Inr w', s')"
  shows "\<exists>u. m (w, s) = Some (Inr u, (w', s'))"
proof -
  from assms obtain r w1 s1 where r: "m (w, s) = Some (r, w1, s1)" "(case r of Inl e \<Rightarrow> Inl e | Inr u \<Rightarrow> Inr w1) = Inr w'" "s1 = s'"
    by (auto simp: with_handle_def)
  then show ?thesis by (cases r) simp_all
qed

lemma created_writer:
  assumes "create_writer E base schema role region s = Some (Inr w, s')"
  shows "writer_ok w"
proof -
  from assms obtain schema' region' u w0 where v: "validate_schema schema = Inr schema'" "validate_region schema' region' = Some (Inr u)"
    "assemble E base schema' role region' (created_version role schema') (initial_state schema' region') = Some (Inr w0)"
    and run: "with_handle (w0\<lparr>wr_on_disk := False\<rparr>)
      (bindI (write_layout E) (\<lambda>_. if wr_version (w0\<lparr>wr_on_disk := False\<rparr>) = V2 then write_manifest E else ret ())) s = Some (Inr w, s')"
    by (auto simp: create_writer_def Let_def io_simps of_checked_def)
  let ?w = "w0\<lparr>wr_on_disk := False\<rparr>"
  from with_handle_Inr [OF run] obtain u' where
    r: "bindI (write_layout E) (\<lambda>_. if wr_version ?w = V2 then write_manifest E else ret ()) (?w, s) = Some (Inr u', (w, s'))" by blast
  have l: "live (wr_geo w0) (?w, s)" using validated_geometry [OF v] by (simp add: live_def writer_ok_def)
  have "keeps (live (wr_geo w0)) (bindI (write_layout E) (\<lambda>_. if wr_version ?w = V2 then write_manifest E else ret ()))"
    by (intro keeps_bind write_layout_keeps keeps_if write_manifest_keeps keeps_basic)
  from keepsD [OF this l r] show ?thesis by (simp add: live_def)
qed

section \<open>Runs of a writer\<close>

datatype writer_op =
    WriteRecord f64 record_arrays | WriteRecordAt nat f64 record_arrays | WriteStatic string typed_array
  | WriteBlob blob_scope string string | Flush | Commit "commit_token list" | Invalidate "nat list"
  | InvalidateStatics "string list"

definition discard :: "('s, 'a) io \<Rightarrow> ('s, unit) io" where
  "discard m = bindI m (\<lambda>_. ret ())"

fun perform :: "('s, 'm, 'h) stream_env \<Rightarrow> writer_op \<Rightarrow> ('s, unit) wio" where
  "perform E (WriteRecord t arrays) = discard (write_record E t arrays)"
| "perform E (WriteRecordAt i t arrays) = write_record_at E i t arrays"
| "perform E (WriteStatic name a) = write_static E name a"
| "perform E (WriteBlob scope key bytes) = write_blob E scope key bytes"
| "perform E Flush = discard (flush E)"
| "perform E (Commit toks) = discard (commit E toks)"
| "perform E (Invalidate is) = invalidate E is"
| "perform E (InvalidateStatics names) = invalidate_statics E names"

text \<open>A run: operations one after another, those that fail included, while other writers change the store.\<close>

inductive runs_to :: "('s, 'm, 'h) stream_env \<Rightarrow> writer \<times> 's \<Rightarrow> writer \<times> 's \<Rightarrow> bool" for E where
  run_stop: "runs_to E x x"
| run_op: "runs_to E x y \<Longrightarrow> perform E a y = Some (r, z) \<Longrightarrow> runs_to E x z"
| run_other: "runs_to E x (w, s) \<Longrightarrow> runs_to E x (w, s')"

lemma perform_keeps: "keeps (live g) (perform E a)"
  by (cases a) (auto simp: discard_def intro: keeps_bind keeps_basic write_record_keeps write_record_at_keeps write_static_keeps
    write_blob_keeps flush_keeps commit_keeps invalidate_keeps invalidate_statics_keeps)

lemma runs_live: "runs_to E x y \<Longrightarrow> live g x \<Longrightarrow> live g y"
proof (induction rule: runs_to.induct)
  case (run_op x y a r z)
  from keepsD [OF perform_keeps run_op.IH [OF run_op.prems] run_op.hyps(2)] show ?case .
qed (simp_all add: live_def)

text \<open>
  C26: after a writer is created, through any run of its operations, whatever their results and whatever
  other writers do to the store meanwhile, its geometry stays what it was created with, and every open buffer
  is the box of its array in its time shard.
\<close>

theorem writer_invariant:
  assumes "create_writer E base schema role region s = Some (Inr w, s')" "runs_to E (w, s') (w', s'')"
  shows "writer_ok w' \<and> wr_geo w' = wr_geo w"
  using runs_live [OF assms(2), of "wr_geo w"] created_writer [OF assms(1)] by (simp add: live_def)

definition one_schema :: stream_schema where
  "one_schema = \<lparr>ss_dims = [(''t'', 0)], ss_time_dim = ''t'', ss_chunk = [(''t'', 1)], ss_shard = [(''t'', 2)], ss_coords = [],
     ss_vars = [\<lparr>sv_name = ''v'', sv_dims = [''t''], sv_dtype = DU8, sv_attrs = []\<rparr>], ss_statics = [],
     ss_time_mode = Append, ss_group_attrs = [], ss_profile = ''wasm''\<rparr>"

text \<open>A store whose every operation succeeds.\<close>

definition quiet_env :: "(unit, unit, unit) stream_env" where
  "quiet_env =
     \<lparr>se_key = (\<lambda>k. Inr ()), se_get = (\<lambda>k s. (Inr None, s)), se_set = (\<lambda>k t s. (Inr (), s)), se_metadata = (\<lambda>m. Inr ()),
      se_new = (\<lambda>p m. Inr ()), se_open = (\<lambda>p s. (Inr (), s)), se_store_metadata = (\<lambda>h s. (Inr (), s)),
      se_store_all = (\<lambda>h v s. (Inr (), s)), se_store_chunk = (\<lambda>h i a s. (Inr (), s)),
      se_retrieve = (\<lambda>h r t s. (Inl ''nothing stored'', s)), se_api = brief_api, se_text = plain_text, se_digest = (\<lambda>s. s),
      se_now = (\<lambda>s. ''now''), se_subset = (\<lambda>r. ''subset'')\<rparr>"

definition one_writer :: "string \<Rightarrow> writer" where
  "one_writer fp = \<lparr>wr_base = [],
     wr_geo = \<lparr>g_schema = one_schema, g_codec = Zstd 5 False, g_region = [], g_dim_len = [(''t'', 0)], g_st = 2\<rparr>,
     wr_role = Single, wr_print = fp, wr_version = V1, wr_time_coord = False, wr_state = initial_state one_schema [],
     wr_next = 0, wr_last_t = None, wr_open = [], wr_dirty = [], wr_flushed = [], wr_on_disk = True,
     wr_pending = no_pending, wr_tok_records = [], wr_tok_statics = [], wr_meta = []\<rparr>"

lemma one_writer_created:
  "\<exists>w s. create_writer quiet_env [] one_schema Single [] () = Some (Inr w, s)"
proof -
  let ?E = "quiet_env"
  let ?w = "one_writer (schema_fingerprint (\<lambda>s. s) one_schema)"
  have v: "check_role Single = Inr ()" "validate_schema one_schema = Inr one_schema" "region_to_map [] = Inr []"
    "validate_region one_schema [] = Some (Inr ())" "create_role Single [] = Inr ()" "created_version Single one_schema = V1"
    by code_simp+
  have f: "codec_of_profile (ss_profile one_schema) = Inr (Zstd 5 False)" "dim_lens one_schema = [(''t'', 0)]"
    "map_of (ss_shard one_schema) (ss_time_dim one_schema) = Some 2" "ss_coords one_schema = []"
    "cm_count (initial_state one_schema []) = 0" "cm_last_t (initial_state one_schema []) = None"
    by code_simp+
  have a: "assemble ?E [] one_schema Single [] V1 (initial_state one_schema []) = Some (Inr ?w)"
    by (simp add: assemble_def f one_writer_def) (simp add: quiet_env_def)
  obtain m where m: "array_meta [''t''] [0] [(''t'', 1)] [(''t'', 2)] DU8 (Zstd 5 False) [] = Inr m"
    by (simp add: array_meta_def pick_dims_def)
  have "\<exists>w s. write_layout ?E (?w\<lparr>wr_on_disk := False\<rparr>, ()) = Some (Inr (), (w, s))"
    by (simp add: write_layout_def Let_def one_writer_def one_schema_def handle_def n_indexed_def put_meta_def store_meta_def
        set_json_def array_from_meta_def in_store_def lift_op_def lift_sum_def update_handle_def bindI_def m [simplified] quiet_env_def)
  then obtain w s where l: "write_layout ?E (?w\<lparr>wr_on_disk := False\<rparr>, ()) = Some (Inr (), (w, s))" by blast
  have "wr_version ?w = V1" by (simp add: one_writer_def)
  then have "create_writer ?E [] one_schema Single [] () = Some (Inr w, s)"
    by (simp add: create_writer_def v a Let_def with_handle_def l)
  then show ?thesis by blast
qed

theorem writer_invariant_witness:
  "\<exists>w s. create_writer quiet_env [] one_schema Single [] () = Some (Inr w, s) \<and>
     (\<forall>r w' s'. write_record quiet_env 5 [(''v'', TU8 [7])] (w, s) = Some (r, (w', s')) \<longrightarrow> writer_ok w')"
proof -
  let ?E = "quiet_env" let ?a = "[(''v'', TU8 [7])]"
  obtain w s where c: "create_writer ?E [] one_schema Single [] () = Some (Inr w, s)"
    using one_writer_created by blast
  have "writer_ok w'" if "write_record ?E 5 ?a (w, s) = Some (r, (w', s'))" for r w' s'
  proof -
    have "perform ?E (WriteRecord 5 ?a) (w, s) = Some (case r of Inl e \<Rightarrow> Inl e | Inr i \<Rightarrow> Inr (), (w', s'))"
      using that by (auto simp: discard_def bindI_def split: sum.splits)
    from writer_invariant [OF c runs_to.run_op [OF runs_to.run_stop this]] show ?thesis by blast
  qed
  with c show ?thesis by blast
qed

end
