(* ===== verification/StreamShare.thy ===== *)
theory StreamShare
  imports StreamKeeps
begin

text \<open>
  Several writers of one store: of the writers whose tokens a commit accepts, exactly one writes each cell of
  each array, partitioned or replicated.
\<close>

text \<open>The coordinates of a cell by dimension; a dimension the array lacks counts as 0.\<close>

definition coordinate :: "string list \<Rightarrow> nat list \<Rightarrow> string \<Rightarrow> nat" where
  "coordinate dims c d = (case map_of (zip dims c) d of Some x \<Rightarrow> x | None \<Rightarrow> 0)"

lemma coordinate_nth: "distinct dims \<Longrightarrow> length c = length dims \<Longrightarrow> k < length dims \<Longrightarrow> coordinate dims c (dims ! k) = c ! k"
  by (simp add: coordinate_def map_of_zip_nth)

lemma coordinate_other: "length c = length dims \<Longrightarrow> d \<notin> set dims \<Longrightarrow> coordinate dims c d = 0"
  by (simp add: coordinate_def map_of_zip_is_None [THEN iffD2])

definition region_ok :: "writer \<Rightarrow> bool" where
  "region_ok w \<longleftrightarrow> distinct (map fst (g_region (wr_geo w))) \<and> check_role (wr_role w) = Inr ()"

lemma token_region [simp]: "ct_region (token_of_pending w) = g_region (wr_geo w)" "ct_writer (token_of_pending w) = role_id (wr_role w)"
  by (simp_all add: token_of_pending_def Let_def)

lemma range_of_entry: "distinct (map fst (ct_region t)) \<Longrightarrow> (d, r) \<in> set (ct_region t) \<Longrightarrow> range_of t d = r"
  by (simp add: range_of_def)

text \<open>Holding the coordinates is owning the missing dimensions and having the others in the region.\<close>

lemma holds_iff_writes:
  assumes r: "distinct (map fst (g_region g))" "validate_region (g_schema g) (g_region g) = Some (Inr ())"
    and c: "distinct dims" "length c = length dims"
  shows "(\<forall>(d, a, b)\<in>set (g_region g). a \<le> coordinate dims c d \<and> coordinate dims c d < b) \<longleftrightarrow> owns g dims \<and> in_region g dims c"
proof -
  have no_time: "\<not> is_time g d" and nonempty: "a < b" if m: "(d, a, b) \<in> set (g_region g)" for d a b
  proof -
    from validate_region_ok [OF r(2) m] obtain u where u: "check_range (g_schema g) d (a, b) = Some (Inr u)" by blast
    then show "\<not> is_time g d" by (auto simp: check_range_def is_time_def)
    from check_range_ok [OF u] show "a < b" by blast
  qed
  have key: "map_of (g_region g) d = Some (a, b) \<longleftrightarrow> (d, a, b) \<in> set (g_region g)" for d a b
    using r(1) by simp
  show ?thesis
  proof
    assume h: "\<forall>(d, a, b)\<in>set (g_region g). a \<le> coordinate dims c d \<and> coordinate dims c d < b"
    have "owns g dims" using h coordinate_other [OF c(2)] by (fastforce simp: owns_def list_all_iff)
    moreover have "in_region g dims c"
      using h key coordinate_nth [OF c] by (fastforce simp: in_region_def split: option.splits)
    ultimately show "owns g dims \<and> in_region g dims c" by blast
  next
    assume h: "owns g dims \<and> in_region g dims c"
    have "a \<le> coordinate dims c d \<and> coordinate dims c d < b" if m: "(d, a, b) \<in> set (g_region g)" for d a b
    proof (cases "d \<in> set dims")
      case True
      then obtain k where k: "k < length dims" "dims ! k = d" by (auto simp: in_set_conv_nth)
      with h m key [of d a b] no_time [OF m] have "a \<le> c ! k \<and> c ! k < b" by (force simp: in_region_def)
      then show ?thesis using coordinate_nth [OF c k(1)] k(2) by simp
    next
      case False
      then show ?thesis using h m nonempty [OF m] coordinate_other [OF c(2)] by (fastforce simp: owns_def list_all_iff)
    qed
    then show "\<forall>(d, a, b)\<in>set (g_region g). a \<le> coordinate dims c d \<and> coordinate dims c d < b" by blast
  qed
qed

lemma token_holds_region:
  assumes "distinct (map fst (ct_region t))"
  shows "token_holds t x \<longleftrightarrow> (\<forall>(d, a, b)\<in>set (ct_region t). a \<le> x d \<and> x d < b)"
  using range_of_entry [OF assms] by (force simp: token_holds_def region_dims_def)

lemma contributor_id: "check_role (wr_role w) = Inr () \<Longrightarrow> is_contributor w \<longleftrightarrow> role_id (wr_role w) \<noteq> 0"
  by (cases "wr_role w") (auto simp: is_contributor_def check_role_def split: if_splits)

text \<open>A cell of an array, as far as its dimensions other than time go.\<close>

definition cell_of_array :: "stream_schema \<Rightarrow> string list \<Rightarrow> nat list \<Rightarrow> bool" where
  "cell_of_array s dims c \<longleftrightarrow> length c = length dims \<and>
     (\<forall>k<length dims. \<forall>n. dims ! k \<noteq> ss_time_dim s \<longrightarrow> map_of (dim_lens s) (dims ! k) = Some n \<longrightarrow> c ! k < n)"

definition writes_cell :: "writer \<Rightarrow> string list \<Rightarrow> nat list \<Rightarrow> bool" where
  "writes_cell w dims c \<longleftrightarrow> writes_array w dims \<and> in_region (wr_geo w) dims c"

text \<open>
  C22: when a commit accepts the tokens of a set of writers, every cell of every array is written by exactly
  one of them: the cells of a partitioned array by the writer whose region has the cell (and starts at 0
  along the region dimensions the array lacks), those of a replicated array by the owner.
\<close>

theorem one_writer_per_cell:
  assumes ok: "verify T g r own cs (map token_of_pending ws) = Some (Inr ())" and len: "g_dim_len g = dim_lens (g_schema g)"
    and ws: "\<forall>w\<in>set ws. region_ok w \<and> g_schema (wr_geo w) = g_schema g"
    and c: "distinct dims" "cell_of_array (g_schema g) dims c"
  shows "\<exists>w\<in>set ws. \<forall>w'\<in>set ws. writes_cell w' dims c \<longleftrightarrow> role_id (wr_role w') = role_id (wr_role w)"
proof -
  let ?t = token_of_pending let ?x = "coordinate dims c"
  note reg = token_region_ok [OF ok]
  have v: "validate_region (g_schema g) (g_region (wr_geo w)) = Some (Inr ())" if "w \<in> set ws" for w
    using reg(1) [of "?t w"] that by simp
  have lc: "length c = length dims" using c(2) by (simp add: cell_of_array_def)
  have holds: "token_holds (?t w) ?x \<longleftrightarrow> owns (wr_geo w) dims \<and> in_region (wr_geo w) dims c" if w: "w \<in> set ws" for w
    using token_holds_region [of "?t w" ?x] holds_iff_writes [OF _ _ c(1) lc, of "wr_geo w"] ws v w by (simp add: region_ok_def)
  have ext: "\<forall>t\<in>set (map ?t ws). in_region_extent (g_schema g) (region_dims t) ?x"
  proof (intro ballI, unfold in_region_extent_def, intro ballI allI impI)
    fix t d n assume t: "t \<in> set (map ?t ws)" and d: "d \<in> set (region_dims t)" and n: "map_of (dim_lens (g_schema g)) d = Some n"
    from range_of_ok [OF reg(1) [OF t] d] n have pos: "0 < n" by (metis option.inject not_less_zero gr0I le_zero_eq)
    from d obtain ab where "(d, ab) \<in> set (ct_region t)" by (auto simp: region_dims_def)
    from validate_region_ok [OF reg(1) [OF t] this] have time: "d \<noteq> ss_time_dim (g_schema g)"
      by (auto simp: check_range_def Let_def split: prod.splits)
    show "?x d < n"
    proof (cases "d \<in> set dims")
      case True
      then obtain k where "k < length dims" "dims ! k = d" by (auto simp: in_set_conv_nth)
      with c lc n time show ?thesis by (auto simp: cell_of_array_def coordinate_nth)
    qed (use pos in \<open>simp add: coordinate_other lc\<close>)
  qed
  from tokens_hold_once [OF ok len ext] obtain t where ids: "ct_writer ` set (map ?t ws) = {..<writer_count r}"
    and inj: "inj_on ct_writer (set (map ?t ws))" and t: "t \<in> set (map ?t ws)" "\<forall>t'\<in>set (map ?t ws). token_holds t' ?x \<longleftrightarrow> t' = t"
    by blast
  from t(1) obtain w0 where w0: "w0 \<in> set ws" "t = ?t w0" by auto
  have same_id: "?t w' = ?t w0 \<longleftrightarrow> role_id (wr_role w') = role_id (wr_role w0)" if "w' \<in> set ws" for w'
    using inj w0(1) that by (metis inj_onD list.set_map imageI token_region(2))
  have part: "partitioned (wr_geo w) dims \<longleftrightarrow> partitioned (wr_geo w0) dims" if "w \<in> set ws" for w
    using reg(2) [of "?t w0" "?t w"] that w0 by (simp add: partitioned_def has_key_def region_dims_def)
  show ?thesis
  proof (cases "partitioned (wr_geo w0) dims")
    case True
    then have "writes_cell w' dims c \<longleftrightarrow> role_id (wr_role w') = role_id (wr_role w0)" if "w' \<in> set ws" for w'
      using part [OF that] holds [OF that] t(2) w0 same_id [OF that] that by (auto simp: writes_cell_def writes_array_def)
    with w0(1) show ?thesis by blast
  next
    case False
    have "0 \<in> ct_writer ` set (map ?t ws)" using ids t(1) by force
    then obtain w1 where w1: "w1 \<in> set ws" "role_id (wr_role w1) = 0" by auto
    have "in_region (wr_geo w') dims c" if "w' \<in> set ws" for w'
    proof -
      have "map_of (g_region (wr_geo w')) (dims ! k) = None" if "k < length dims" for k
        using False part [OF \<open>w' \<in> set ws\<close>] nth_mem [OF that]
        by (cases "map_of (g_region (wr_geo w')) (dims ! k)") (auto simp: partitioned_def list_ex_iff has_key_map_of)
      then show ?thesis by (simp add: in_region_def)
    qed
    then have "writes_cell w' dims c \<longleftrightarrow> role_id (wr_role w') = role_id (wr_role w1)" if "w' \<in> set ws" for w'
      using part [OF that] False contributor_id [of w'] ws that w1 by (auto simp: writes_cell_def writes_array_def region_ok_def)
    with w1(1) show ?thesis by blast
  qed
qed

definition second_writer :: writer where
  "second_writer = open_writer\<lparr>wr_role := Contributor 1, wr_geo := two_geometry\<lparr>g_region := [(''x'', 2, 3)]\<rparr>\<rparr>"

theorem one_writer_per_cell_witness:
  "writes_cell second_writer [''t'', ''x''] [0, 2] \<noteq> writes_cell open_writer [''t'', ''x''] [0, 2]"
proof -
  have v: "verify plain_text two_geometry (Owner 2) ''f'' empty_state (map token_of_pending [open_writer, second_writer]) = Some (Inr ())"
    and l: "g_dim_len two_geometry = dim_lens (g_schema two_geometry)"
    and dl: "dim_lens (g_schema two_geometry) = [(''t'', 0), (''x'', 3)]"
    and td: "ss_time_dim (g_schema two_geometry) = ''t''"
    and ids: "role_id (wr_role open_writer) = 0" "role_id (wr_role second_writer) = 1"
    by code_simp+
  have ws: "\<forall>w\<in>set [open_writer, second_writer]. region_ok w \<and> g_schema (wr_geo w) = g_schema two_geometry"
    by (simp add: region_ok_def open_writer_def second_writer_def two_geometry_def check_role_def)
  have c: "cell_of_array (g_schema two_geometry) [''t'', ''x''] [0, 2]"
    by (auto simp: cell_of_array_def dl td nth_Cons split: nat.splits)
  from one_writer_per_cell [OF v l ws _ c] show ?thesis by (auto simp: ids)
qed

end
