(* ===== verification/StreamEffect.thy ===== *)
theory StreamEffect
  imports StreamKeeps StreamRecords
begin

text \<open>
  What a commit does: it adds the records, statics and blobs of the tokens to the committed ones and leaves a
  manifest that says so, or fails and changes nothing that is committed. What the store promises of its
  objects is the locale \<open>object_laws\<close>, interpreted on the store in memory.
\<close>

section \<open>The committed state as sets\<close>

type_synonym committed = "nat set \<times> string set \<times> blob_rec set"

definition view_of :: "bool \<Rightarrow> commit_state \<Rightarrow> committed" where
  "view_of indexed cs = ({i. committed_at cs indexed i}, {nm. static_committed_in cs nm}, set (cm_blobs cs))"

definition token_blobs :: "commit_token \<Rightarrow> blob_rec set" where
  "token_blobs t = {(scope, ct_writer t, key) |scope sc r key. (sc, r, key) \<in> set (ct_blobs t) \<and> scope_from_wire sc r = Inr scope}"

definition tokens_view :: "commit_token list \<Rightarrow> committed" where
  "tokens_view toks = (\<Union>t\<in>set toks. fst ` set (ct_records t), \<Union>t\<in>set toks. set (ct_statics t), \<Union>t\<in>set toks. token_blobs t)"

definition add_view :: "committed \<Rightarrow> committed \<Rightarrow> committed" where
  "add_view x y = (case (x, y) of ((a, b, c), (a', b', c')) \<Rightarrow> (a \<union> a', b \<union> b', c \<union> c'))"

section \<open>The steps on the state\<close>

lemma push_append_keeps [simp]:
  "cm_count (push_append i t st cs) = cm_count cs" "cm_entries (push_append i t st cs) = cm_entries cs"
  "cm_statics (push_append i t st cs) = cm_statics cs" "cm_blobs (push_append i t st cs) = cm_blobs cs"
  "cm_seq (push_append i t st cs) = cm_seq cs"
  by (simp_all add: push_append_def Let_def)

lemma append_keeps [simp]:
  "cm_count (fold (\<lambda>(i, t). push_append i t st) recs cs) = cm_count cs"
  "cm_entries (fold (\<lambda>(i, t). push_append i t st) recs cs) = cm_entries cs"
  "cm_statics (fold (\<lambda>(i, t). push_append i t st) recs cs) = cm_statics cs"
  "cm_blobs (fold (\<lambda>(i, t). push_append i t st) recs cs) = cm_blobs cs"
  "cm_seq (fold (\<lambda>(i, t). push_append i t st) recs cs) = cm_seq cs"
  by (induction recs arbitrary: cs) (auto simp: case_prod_unfold)

lemma push_indexed_keeps [simp]:
  "cm_count (push_indexed i e st cs) = cm_count cs" "cm_entries (push_indexed i e st cs) = cm_entries cs"
  "cm_statics (push_indexed i e st cs) = cm_statics cs" "cm_blobs (push_indexed i e st cs) = cm_blobs cs"
  "cm_seq (push_indexed i e st cs) = cm_seq cs"
  by (simp_all add: push_indexed_def Let_def)

lemma indexed_keeps [simp]:
  "cm_count (fold (\<lambda>(i, e). push_indexed i e st) es cs) = cm_count cs"
  "cm_entries (fold (\<lambda>(i, e). push_indexed i e st) es cs) = cm_entries cs"
  "cm_statics (fold (\<lambda>(i, e). push_indexed i e st) es cs) = cm_statics cs"
  "cm_blobs (fold (\<lambda>(i, e). push_indexed i e st) es cs) = cm_blobs cs"
  "cm_seq (fold (\<lambda>(i, e). push_indexed i e st) es cs) = cm_seq cs"
  by (induction es arbitrary: cs) (auto simp: case_prod_unfold)

lemma rebuild_keeps [simp]:
  "cm_count (rebuild_indexed_shards st cs) = cm_count cs" "cm_entries (rebuild_indexed_shards st cs) = cm_entries cs"
  "cm_statics (rebuild_indexed_shards st cs) = cm_statics cs" "cm_blobs (rebuild_indexed_shards st cs) = cm_blobs cs"
  "cm_seq (rebuild_indexed_shards st cs) = cm_seq cs"
  by (simp_all add: rebuild_indexed_shards_def)

lemma commit_entries_effect:
  "commit_entries is cs = Some cs' \<Longrightarrow> length (cm_entries cs') = length (cm_entries cs) \<and> set is \<subseteq> {..<length (cm_entries cs)} \<and>
     (\<forall>i<length (cm_entries cs). en_committed (cm_entries cs' ! i) \<longleftrightarrow> en_committed (cm_entries cs ! i) \<or> i \<in> set is) \<and>
     cm_count cs' = cm_count cs \<and> cm_statics cs' = cm_statics cs \<and> cm_blobs cs' = cm_blobs cs \<and> cm_seq cs' = cm_seq cs"
proof (induction "is" arbitrary: cs)
  case (Cons i "is")
  then obtain cs1 where c: "commit_entry i cs = Some cs1" "commit_entries is cs1 = Some cs'"
    by (auto simp: bind_eq_Some_conv)
  from Cons.IH [OF c(2)] c(1) show ?case
    by (auto simp: commit_entry_def nth_list_update split: if_splits)
qed simp

lemma commit_blobs_effect:
  "commit_blobs bs cs = Inr cs' \<Longrightarrow> set (cm_blobs cs') = set (cm_blobs cs) \<union>
       {(scope, w, key) |scope w sc r key. (w, sc, r, key) \<in> set bs \<and> scope_from_wire sc r = Inr scope} \<and>
     cm_count cs' = cm_count cs \<and> cm_entries cs' = cm_entries cs \<and> cm_statics cs' = cm_statics cs \<and> cm_seq cs' = cm_seq cs"
proof (induction bs cs rule: commit_blobs.induct)
  case (2 w sc r key bs cs)
  then obtain scope where s: "scope_from_wire sc r = Inr scope" by (auto simp: bindR_def split: sum.splits)
  with 2 show ?case by (fastforce simp: bindR_def set_insort_insert)
qed simp

lemma commit_statics_effect:
  "cm_count (fold commit_static nms cs) = cm_count cs \<and> cm_entries (fold commit_static nms cs) = cm_entries cs \<and>
   cm_blobs (fold commit_static nms cs) = cm_blobs cs \<and> cm_seq (fold commit_static nms cs) = cm_seq cs \<and>
   (\<forall>nm. static_committed_in (fold commit_static nms cs) nm \<longleftrightarrow> static_committed_in cs nm \<or> nm \<in> set nms)"
proof (induction nms arbitrary: cs)
  case (Cons n nms)
  have "static_committed_in (commit_static n cs) nm \<longleftrightarrow> static_committed_in cs nm \<or> nm = n" for nm
    by (auto simp: static_committed_in_def commit_static_def Let_def)
  with Cons.IH [of "commit_static n cs"] show ?case by (auto simp: commit_static_def Let_def)
qed simp

definition records_applied :: "geometry \<Rightarrow> (nat \<times> f64) list \<Rightarrow> commit_state \<Rightarrow> commit_state option" where
  "records_applied g recs cs =
     (case n_indexed g of
        None \<Rightarrow> Some (if recs = [] then cs
          else (fold (\<lambda>(i, t). push_append i t (g_st g)) recs cs)\<lparr>cm_count := cm_count cs + length recs\<rparr>)
      | Some n \<Rightarrow> map_option (rebuild_indexed_shards (g_st g)) (commit_entries (map fst recs) cs))"

lemma records_applied_effect:
  assumes ok: "check_records T g cs recs = Some (Inr ())" and a: "records_applied g recs cs = Some cs'"
  shows "committed_at cs' (n_indexed g \<noteq> None) i \<longleftrightarrow> committed_at cs (n_indexed g \<noteq> None) i \<or> i \<in> fst ` set recs"
    and "cm_statics cs' = cm_statics cs \<and> cm_blobs cs' = cm_blobs cs \<and> cm_seq cs' = cm_seq cs"
proof -
  have "(committed_at cs' (n_indexed g \<noteq> None) i \<longleftrightarrow> committed_at cs (n_indexed g \<noteq> None) i \<or> i \<in> fst ` set recs) \<and>
    cm_statics cs' = cm_statics cs \<and> cm_blobs cs' = cm_blobs cs \<and> cm_seq cs' = cm_seq cs"
  proof (cases "n_indexed g")
    case None
    from ok None have h: "\<forall>x\<in>set (enumerate 0 recs). fst (snd x) = cm_count cs + fst x"
      by (auto simp: check_records_def check_prefix_def case_prod_unfold split: if_splits)
    have "\<forall>k<length recs. fst (recs ! k) = cm_count cs + k"
    proof (intro allI impI)
      fix k assume "k < length recs"
      then show "fst (recs ! k) = cm_count cs + k"
        using bspec [OF h, of "(k, recs ! k)"] by (simp add: in_set_enumerate_eq)
    qed
    then have "map fst recs = [cm_count cs..<cm_count cs + length recs]" by (intro nth_equalityI) simp_all
    then have "fst ` set recs = {cm_count cs..<cm_count cs + length recs}" by (metis list.set_map set_upt)
    with a None show ?thesis by (auto simp: records_applied_def committed_at_def split: if_splits)
  next
    case (Some n)
    with a obtain cs1 where c: "commit_entries (map fst recs) cs = Some cs1" "cs' = rebuild_indexed_shards (g_st g) cs1"
      by (auto simp: records_applied_def)
    from commit_entries_effect [OF c(1)] c(2) Some show ?thesis by (auto simp: committed_at_def)
  qed
  then show "committed_at cs' (n_indexed g \<noteq> None) i \<longleftrightarrow> committed_at cs (n_indexed g \<noteq> None) i \<or> i \<in> fst ` set recs"
    and "cm_statics cs' = cm_statics cs \<and> cm_blobs cs' = cm_blobs cs \<and> cm_seq cs' = cm_seq cs" by blast+
qed

section \<open>The steps on the store\<close>

text \<open>\<open>obj s k\<close> is the object under a key: what was put there last; a write that fails changes at most its own
  object, and array metadata lies under other keys than the manifest.\<close>

locale object_laws =
  fixes E :: "('s, 'm, 'h) stream_env" and obj :: "'s \<Rightarrow> string \<Rightarrow> string option"
  assumes get_object: "se_get E k s = (r, s') \<Longrightarrow> obj s' = obj s \<and> (\<forall>v. r = Inr v \<longrightarrow> v = obj s k)"
    and set_object: "se_set E k text s = (Inr u, s') \<Longrightarrow> obj s' = (obj s)(k \<mapsto> text)"
    and set_failed: "se_set E k text s = (Inl e, s') \<Longrightarrow> k' \<noteq> k \<Longrightarrow> obj s' k' = obj s k'"
    and metadata_apart: "se_store_metadata E h s = (q, s') \<Longrightarrow> obj s' manifest_key = obj s manifest_key"

text \<open>A step that changes nothing but the metadata of arrays, in the handle and in the store.\<close>

definition only_meta :: "('s \<Rightarrow> string \<Rightarrow> string option) \<Rightarrow> writer \<times> 's \<Rightarrow> writer \<times> 's \<Rightarrow> bool" where
  "only_meta obj x y \<longleftrightarrow> (\<exists>m. fst y = (fst x)\<lparr>wr_meta := m\<rparr>) \<and> obj (snd y) manifest_key = obj (snd x) manifest_key"

lemma only_meta_refl: "only_meta obj x x"
  by (cases x) (auto simp: only_meta_def intro!: exI [where x = "wr_meta (fst x)"])

lemma only_meta_trans: "only_meta obj x y \<Longrightarrow> only_meta obj y z \<Longrightarrow> only_meta obj x z"
  by (auto simp: only_meta_def)

lemma keeps_store_step: "(\<And>w s. P (w, s) \<Longrightarrow> outcome m s (\<lambda>r s'. P (w, s'))) \<Longrightarrow> keeps P (in_store m)"
  by (auto simp: keeps_def outcome_in_store)

context object_laws
begin

lemma get_json_keeps: "outcome (get_json E k) s (\<lambda>r s'. obj s' = obj s)"
  unfolding get_json_def outcome_bind lift_sum_def outcome_basic
  using get_object by (auto simp: outcome_def lift_op_def io_simps split: sum.splits option.splits prod.splits)

lemma grow_array_keeps: "keeps (only_meta obj x) (grow_array E n name)"
  unfolding grow_array_def store_meta_def
proof (intro keeps_bind_handle keeps_bind keeps_case_option keeps_basic keeps_update_handle keeps_store_step)
  fix w s assume o: "only_meta obj x (w, s)"
  show "outcome (get_json E k) s (\<lambda>r s'. only_meta obj x (w, s'))" for k
    by (rule outcome_mono [OF get_json_keeps]) (use o in \<open>simp add: only_meta_def\<close>)
  show "outcome (lift_op f (se_store_metadata E h)) s (\<lambda>r s'. only_meta obj x (w, s'))" for f h
    using metadata_apart [of h s] o by (auto simp: outcome_def lift_op_def only_meta_def split: prod.splits sum.splits)
  show "only_meta obj x (w\<lparr>wr_meta := m\<rparr>, s)" for m using o by (auto simp: only_meta_def)
qed

lemma write_shapes_meta: "outcome (write_shapes E n) x (\<lambda>r. only_meta obj x)"
proof -
  have "keeps (only_meta obj x) (write_shapes E n)"
    unfolding write_shapes_def Let_def by (intro keeps_bind_handle keeps_for_each grow_array_keeps)
  from keeps_outcome [OF this only_meta_refl] show ?thesis .
qed

lemma commit_records_outcome:
  "outcome (commit_records E recs) (w, s) (\<lambda>r (w', s'). obj s' manifest_key = obj s manifest_key \<and>
     (\<forall>u. r = Inr u \<longrightarrow> (\<exists>m cs. records_applied (wr_geo w) recs (wr_state w) = Some cs \<and> w' = w\<lparr>wr_state := cs, wr_meta := m\<rparr>)))"
proof (cases "n_indexed (wr_geo w)")
  case None
  show ?thesis
  proof (cases "recs = []")
    case True
    then show ?thesis using None
      by (auto simp: commit_records_def outcome_simps records_applied_def intro!: exI [where x = "wr_meta w"])
  next
    case False
    let ?f = "\<lambda>cs. (fold (\<lambda>(i, t). push_append i t (g_st (wr_geo w))) recs cs)\<lparr>cm_count := cm_count cs + length recs\<rparr>"
    let ?w = "w\<lparr>wr_state := ?f (wr_state w)\<rparr>"
    have "outcome (write_shapes E n) (?w, s) (\<lambda>r (w', s'). obj s' manifest_key = obj s manifest_key \<and>
        (\<forall>u. r = Inr u \<longrightarrow> (\<exists>m cs. records_applied (wr_geo w) recs (wr_state w) = Some cs \<and> w' = w\<lparr>wr_state := cs, wr_meta := m\<rparr>)))" for n
      by (rule outcome_mono [OF write_shapes_meta]) (use None False in \<open>auto simp: only_meta_def records_applied_def\<close>)
    with None False show ?thesis by (simp add: commit_records_def outcome_simps Let_def)
  qed
next
  case (Some n)
  then show ?thesis
    by (auto simp: commit_records_def outcome_simps records_applied_def Let_def intro!: exI [where x = "wr_meta w"])
qed

end

section \<open>What verification gives\<close>

lemma verified_content:
  assumes "verify T g r own cs toks = Some (Inr ())"
  obtains recs where "\<forall>t\<in>set toks. ct_records t = recs" "check_records T g cs recs = Some (Inr ())" "toks \<noteq> []"
proof -
  obtain t0 ts where ts: "set ts = set toks" "verify_tokens T g own cs ts = Some (Inr ())" "hd ts = t0"
    by (rule verify_accepted [OF assms]) (rule that)
  then obtain rest where r: "ts = t0 # rest" by (cases ts) (auto simp: verify_tokens_def)
  with ts(2) have "\<forall>t\<in>set rest. accepted (check_same_records T t0 t)" "check_records T g cs (ct_records t0) = Some (Inr ())"
    by (auto simp: verify_tokens_def Let_def simp del: first_bad.simps)
  then have "\<forall>t\<in>set ts. ct_records t = ct_records t0" "check_records T g cs (ct_records t0) = Some (Inr ())"
    by (auto simp: r check_same_records_def split: if_splits)
  with ts(1) r that show ?thesis by (metis list.distinct(1) set_empty)
qed

lemma sorted_tokens_Cons: "toks \<noteq> [] \<Longrightarrow> \<exists>t0 rest. sorted_tokens toks = t0 # rest \<and> t0 \<in> set toks"
proof -
  assume "toks \<noteq> []"
  then have "set (sorted_tokens toks) = set toks" "sorted_tokens toks \<noteq> []"
    by (simp_all add: sorted_tokens_def) (metis length_0_conv length_sort)
  then show ?thesis by (cases "sorted_tokens toks") auto
qed

lemma set_sorted_tokens: "set (sorted_tokens toks) = set toks"
  by (simp add: sorted_tokens_def)

text \<open>The state that a commit of verified tokens writes.\<close>

definition commit_of :: "geometry \<Rightarrow> commit_token list \<Rightarrow> commit_state \<Rightarrow> commit_state \<Rightarrow> bool" where
  "commit_of g toks cs cs' \<longleftrightarrow>
     view_of (n_indexed g \<noteq> None) cs' = add_view (view_of (n_indexed g \<noteq> None) cs) (tokens_view toks) \<and>
     cm_seq cs' = cm_seq cs + 1 \<and> cm_writers cs' = map (\<lambda>t. (ct_writer t, ct_region t)) (sorted_tokens toks)"

lemma commit_of_steps:
  assumes recs: "\<forall>t\<in>set toks. ct_records t = recs" "check_records T g cs recs = Some (Inr ())" "toks \<noteq> []"
    and a: "records_applied g recs cs = Some cs1"
    and b: "commit_blobs (concat (map (\<lambda>t. map (Pair (ct_writer t)) (ct_blobs t)) (sorted_tokens toks))) cs1 = Inr cs2"
    and nms: "set nms = (\<Union>t\<in>set toks. set (ct_statics t))"
  shows "commit_of g toks cs ((fold commit_static nms cs2)
    \<lparr>cm_writers := map (\<lambda>t. (ct_writer t, ct_region t)) (sorted_tokens toks), cm_seq := cm_seq cs2 + 1\<rparr>)"
proof -
  let ?f = "fold commit_static nms cs2" let ?ix = "n_indexed g \<noteq> None"
  let ?cs = "?f\<lparr>cm_writers := map (\<lambda>t. (ct_writer t, ct_region t)) (sorted_tokens toks), cm_seq := cm_seq cs2 + 1\<rparr>"
  note ra = records_applied_effect [OF recs(2) a] and ba = commit_blobs_effect [OF b] and sa = commit_statics_effect [of nms cs2]
  have "(\<Union>t\<in>set toks. fst ` set (ct_records t)) = fst ` set recs" using recs(1,3) by (auto simp: neq_Nil_conv)
  moreover have "committed_at ?cs ?ix i \<longleftrightarrow> committed_at cs1 ?ix i" for i using sa ba by (simp add: committed_at_def)
  ultimately have "{i. committed_at ?cs ?ix i} = {i. committed_at cs ?ix i} \<union> (\<Union>t\<in>set toks. fst ` set (ct_records t))"
    using ra(1) by auto
  moreover have "static_committed_in ?cs nm \<longleftrightarrow> static_committed_in cs nm \<or> nm \<in> (\<Union>t\<in>set toks. set (ct_statics t))" for nm
    using sa ba ra(2) nms by (auto simp: static_committed_in_def)
  then have stat: "Collect (static_committed_in ?cs) = Collect (static_committed_in cs) \<union> (\<Union>t\<in>set toks. set (ct_statics t))" by blast
  have at: "(w, sc, r, key) \<in> set (concat (map (\<lambda>t. map (Pair (ct_writer t)) (ct_blobs t)) (sorted_tokens toks))) \<longleftrightarrow>
      (\<exists>t\<in>set toks. w = ct_writer t \<and> (sc, r, key) \<in> set (ct_blobs t))" for w sc r key
    by (auto simp: set_sorted_tokens)
  have "{(scope, w, key) |scope w sc r key. (w, sc, r, key) \<in> set (concat (map (\<lambda>t. map (Pair (ct_writer t)) (ct_blobs t)) (sorted_tokens toks)))
      \<and> scope_from_wire sc r = Inr scope} = (\<Union>t\<in>set toks. token_blobs t)"
    unfolding at token_blobs_def by blast
  then have "set (cm_blobs ?cs) = set (cm_blobs cs) \<union> (\<Union>t\<in>set toks. token_blobs t)"
    using sa ba ra(2) by simp
  with calculation stat have "view_of ?ix ?cs = add_view (view_of ?ix cs) (tokens_view toks)"
    unfolding view_of_def add_view_def tokens_view_def by simp
  then show ?thesis using ba ra(2) sa by (simp add: commit_of_def)
qed

context object_laws
begin

lemma set_json_outcome:
  "outcome (set_json E k v) s (\<lambda>r s'. (\<forall>u. r = Inr u \<longrightarrow> obj s' = (obj s)(k \<mapsto> sj_pretty (se_api E) v)) \<and>
     (\<forall>e. r = Inl e \<longrightarrow> (\<forall>k'. k' \<noteq> k \<longrightarrow> obj s' k' = obj s k') \<and>
        (obj s' k = obj s k \<or> (\<exists>e'. se_set E k (sj_pretty (se_api E) v) s = (Inl e', s')))))"
  unfolding set_json_def outcome_bind lift_sum_def outcome_basic
  using set_object set_failed by (fastforce simp: outcome_def lift_op_def split: sum.splits prod.splits)

lemma write_manifest_outcome:
  "outcome (write_manifest E) (w, s) (\<lambda>r (w', s'). w' = w \<and>
     (\<forall>u. r = Inr u \<longrightarrow> obj s' manifest_key = Some (sj_pretty (se_api E) (manifest_json_of E w s))) \<and>
     (\<forall>e. r = Inl e \<longrightarrow> obj s' manifest_key = obj s manifest_key \<or>
        (\<exists>s1 text e'. se_set E manifest_key text s1 = (Inl e', s'))))"
proof (cases "is_contributor w")
  case False
  from set_json_outcome [of manifest_key "manifest_json_of E w s" s]
  have "outcome (\<lambda>s. set_json E manifest_key (manifest_json_of E w s) s) s (\<lambda>r s'.
      (\<forall>u. r = Inr u \<longrightarrow> obj s' manifest_key = Some (sj_pretty (se_api E) (manifest_json_of E w s))) \<and>
      (\<forall>e. r = Inl e \<longrightarrow> obj s' manifest_key = obj s manifest_key \<or> (\<exists>s1 text e'. se_set E manifest_key text s1 = (Inl e', s'))))"
    unfolding outcome_def by fastforce
  with False show ?thesis by (simp add: write_manifest_def outcome_simps)
qed (simp add: write_manifest_def outcome_simps)

lemma commit_outcome:
  "outcome (commit E toks) (w, s) (\<lambda>r (w', s').
     (case r of
        Inl e \<Rightarrow> wr_state w' = wr_state w \<and>
          (obj s' manifest_key = obj s manifest_key \<or> (\<exists>s1 text e'. se_set E manifest_key text s1 = (Inl e', s')))
      | Inr rc \<Rightarrow> commit_of (wr_geo w) toks (wr_state w) (wr_state w') \<and>
          (\<exists>s1. obj s' manifest_key = Some (sj_pretty (se_api E) (manifest_json_of E w' s1)))))"
proof -
  let ?v = "verify (se_text E) (wr_geo w) (wr_role w) (wr_print w) (wr_state w) toks"
  show ?thesis
  proof (cases "is_contributor w \<or> ?v \<noteq> Some (Inr ())")
    case True
    then show ?thesis by (auto simp: commit_def outcome_simps split: option.splits sum.splits)
  next
    case False
    then have v: "?v = Some (Inr ())" and owner: "\<not> is_contributor w" by auto
    from verified_content [OF v] obtain recs where
      recs: "\<forall>t\<in>set toks. ct_records t = recs" "check_records (se_text E) (wr_geo w) (wr_state w) recs = Some (Inr ())" "toks \<noteq> []" .
    from sorted_tokens_Cons [OF recs(3)] recs(1) obtain t0 rest where t0: "sorted_tokens toks = t0 # rest" "ct_records t0 = recs" by auto
    let ?nms = "bs_extend (concat (map ct_statics (t0 # rest))) []"
    have nms: "set ?nms = (\<Union>t\<in>set toks. set (ct_statics t))" using set_sorted_tokens [of toks] by (simp add: t0(1) [symmetric])
    note steps = commit_of_steps [OF recs _ _ nms, unfolded t0(1)]
    have "outcome (apply_commit E toks) (w, s) (\<lambda>r (w', s').
        (case r of
           Inl e \<Rightarrow> obj s' manifest_key = obj s manifest_key \<or> (\<exists>s1 text e'. se_set E manifest_key text s1 = (Inl e', s'))
         | Inr rc \<Rightarrow> commit_of (wr_geo w) toks (wr_state w) (wr_state w') \<and>
             (\<exists>s1. obj s' manifest_key = Some (sj_pretty (se_api E) (manifest_json_of E w' s1)))))"
      unfolding apply_commit_def t0(1) Let_def list.case outcome_bind t0(2)
    proof (rule outcome_mono [OF commit_records_outcome], goal_cases)
      case (1 r y)
      obtain w1 s1 where y: "y = (w1, s1)" by (cases y)
      show ?case
      proof (cases r)
        case (Inl e)
        with 1 y show ?thesis by simp
      next
        case (Inr u)
        with 1 y obtain m cs1 where a: "records_applied (wr_geo w) recs (wr_state w) = Some cs1"
          "w1 = w\<lparr>wr_state := cs1, wr_meta := m\<rparr>" "obj s1 manifest_key = obj s manifest_key" by auto
        show ?thesis
        proof (cases "commit_blobs (concat (map (\<lambda>t. map (Pair (ct_writer t)) (ct_blobs t)) (t0 # rest))) cs1")
          case b: (Inl e)
          then show ?thesis using a Inr y by (simp add: outcome_simps of_result_def)
        next
          case b: (Inr cs2)
          let ?cs = "(fold commit_static ?nms cs2)\<lparr>cm_writers := map (\<lambda>t. (ct_writer t, ct_region t)) (t0 # rest), cm_seq := cm_seq cs2 + 1\<rparr>"
          note c = steps [OF a(1) b]
          have wm: "outcome (write_manifest E) (w1\<lparr>wr_state := ?cs\<rparr>, s1) (\<lambda>r (w', s'). w' = w1\<lparr>wr_state := ?cs\<rparr> \<and>
             (\<forall>u. r = Inr u \<longrightarrow> obj s' manifest_key = Some (sj_pretty (se_api E) (manifest_json_of E (w1\<lparr>wr_state := ?cs\<rparr>) s1))) \<and>
             (\<forall>e. r = Inl e \<longrightarrow> obj s' manifest_key = obj s manifest_key \<or>
                (\<exists>s1 text e'. se_set E manifest_key text s1 = (Inl e', s'))))"
            using write_manifest_outcome [of "w1\<lparr>wr_state := ?cs\<rparr>" s1] a(3) by simp
          from b have b': "commit_blobs (concat (map (\<lambda>t. map (Pair (ct_writer t)) (ct_blobs t)) (t0 # rest))) (wr_state w1) = Inr cs2"
            by (simp add: a(2))
          from c show ?thesis
            unfolding Inr y sum.case outcome_basic outcome_bind outcome_handle prod.case b' sum.case
            by - (rule outcome_mono [OF wm], auto simp: outcome_simps a(2) split: sum.splits)
        qed
      qed
    qed
    then show ?thesis using v owner
      by (simp add: commit_def outcome_simps) (erule outcome_mono, auto split: sum.splits)
  qed
qed

end



section \<open>On the store in memory\<close>

interpretation mem_obj: object_laws "mem_env api T" "\<lambda>s. map_of (ms_objects s)" for api T
proof
  have apart: "name @ ''/zarr.json'' \<noteq> manifest_key" for name
  proof
    assume "name @ ''/zarr.json'' = manifest_key"
    then have "drop 11 (rev (name @ ''/zarr.json'')) = drop 11 (rev manifest_key) \<and> take 9 (rev (name @ ''/zarr.json'')) = take 9 (rev manifest_key)"
      by metis
    then show False by (simp add: manifest_key_def)
  qed
  show "map_of (ms_objects s') manifest_key = map_of (ms_objects s) manifest_key"
    if "se_store_metadata (mem_env api T) h s = (q, s')" for h s q s'
    using that apart [of "fst (snd h)"] by (auto simp: mem_env_def put_object_def)
qed (auto simp: mem_env_def put_object_def)

text \<open>The owner of a schema of three time steps, of which the first and the last are committed, and the token
  of the one in the middle.\<close>

definition entries_writer :: writer where
  "entries_writer = open_writer\<lparr>wr_geo := three_geometry, wr_role := Single, wr_state := three_entries, wr_open := [], wr_dirty := []\<rparr>"

definition middle_token :: commit_token where
  "middle_token = \<lparr>ct_schema = token_schema, ct_writer = 0, ct_region = [], ct_fingerprint = ''f'', ct_records = [(1, 6)],
     ct_statics = [], ct_blobs = [], ct_objects = []\<rparr>"

text \<open>C25: a commit is atomic. Whatever tokens the owner is given: if it returns an error, the committed state of the
  handle is the one before, and the stored manifest too unless the write of the manifest is what failed; if it
  succeeds, the committed records, statics and blobs are the ones before together with those of the tokens, the sequence
  number is one more, the writers recorded are those of the tokens in the order of their numbers, and the manifest
  in the store is the one written from this new state.\<close>

theorem commit_effect:
  assumes laws: "object_laws E obj" and run: "commit E toks (w, s) = Some (r, (w', s'))"
  shows "case r of
      Inl e \<Rightarrow> wr_state w' = wr_state w \<and>
        (obj s' manifest_key = obj s manifest_key \<or> (\<exists>s1 text e'. se_set E manifest_key text s1 = (Inl e', s')))
    | Inr rc \<Rightarrow> commit_of (wr_geo w) toks (wr_state w) (wr_state w') \<and>
        (\<exists>s1. obj s' manifest_key = Some (sj_pretty (se_api E) (manifest_json_of E w' s1)))"
  using outcomeD [OF object_laws.commit_outcome [OF laws] run] by (simp split: sum.splits)

theorem commit_effect_witness:
  "\<exists>rc w' s'. commit (mem_env brief_api plain_text) [middle_token] (entries_writer, zero_store) = Some (Inr rc, (w', s')) \<and>
     {i. committed_at (wr_state w') True i} = {0, 1, 2} \<and> map_of (ms_objects s') manifest_key \<noteq> None"
proof -
  let ?run = "commit (mem_env brief_api plain_text) [middle_token] (entries_writer, zero_store)"
  have "map_option (\<lambda>(r, x). isl r) ?run = Some False" by code_simp
  then obtain rc w' s' where run: "?run = Some (Inr rc, (w', s'))"
    by (auto simp: sum.collapse(2)) (metis sum.collapse(2))
  have "wr_geo entries_writer = three_geometry" "wr_state entries_writer = three_entries" by (simp_all add: entries_writer_def)
  moreover have "n_indexed three_geometry \<noteq> None" by code_simp
  moreover have "{i. committed_at three_entries True i} = {0, 2}"
    by (auto simp: committed_at_def three_entries_def less_Suc_eq numeral_3_eq_3)
  moreover have "tokens_view [middle_token] = ({1}, {}, {})" by (simp add: tokens_view_def middle_token_def token_blobs_def)
  ultimately have "{i. committed_at (wr_state w') True i} = {0, 2} \<union> {1} \<and> map_of (ms_objects s') manifest_key \<noteq> None"
    using commit_effect [OF mem_obj.object_laws_axioms run] by (auto simp: commit_of_def view_of_def add_view_def)
  with run show ?thesis by auto
qed

end
