(* ===== verification/StreamFaults.thy ===== *)
theory StreamFaults
  imports StreamMemory
begin

text \<open>
  What a failed flush leaves behind. The loop of \<open>flush\<close> takes the whole set of dirty time shards before the
  first of them is written, and a write that fails does not put back the shards that were not written; the
  records stay pending. A flush that is tried again after the error therefore writes nothing and
  returns a token for records whose time shards never reached the store.
\<close>

lemma write_shard_pending:
  "keeps (\<lambda>(w, s). wr_dirty w = d \<and> pe_records (wr_pending w) = rs \<and> wr_role w = q) (write_shard E ts)"
  unfolding write_shard_def
  by (intro keeps_bind keeps_handle keeps_case_option keeps_basic keeps_in_store keeps_update_handle) (auto simp: add_objects_def)

lemma flush_error_forgets:
  assumes "wr_role w \<noteq> Single"
  shows "outcome (flush E) (w, s) (\<lambda>r (w', s'). \<forall>e. r = Inl e \<longrightarrow>
    wr_dirty w' = [] \<and> pe_records (wr_pending w') = pe_records (wr_pending w) \<and> wr_role w' = wr_role w)"
proof -
  have "outcome (for_each (write_shard E) (wr_dirty w)) (w\<lparr>wr_dirty := []\<rparr>, s)
      (\<lambda>r (w', s'). wr_dirty w' = [] \<and> pe_records (wr_pending w') = pe_records (wr_pending w) \<and> wr_role w' = wr_role w)"
    by (intro keeps_outcome [OF keeps_for_each [OF write_shard_pending]]) simp
  with assms show ?thesis
    unfolding flush_def outcome_bind outcome_handle sum.case
    by (auto simp: take_token_def outcome_simps elim!: outcome_mono split: sum.splits)
qed

text \<open>C27: a flush that failed is not repaired by trying again. After a flush of an owner or contributor among several
  writers that returned an error, the next flush, over any store and in any state of it, leaves the store as it is
  and succeeds with a token for all the records that were pending, whose time shards it does not write.\<close>

theorem failed_flush_forgets:
  assumes role: "wr_role w \<noteq> Single" and failed: "flush E (w, s) = Some (Inl e, (w', s'))"
  shows "\<exists>token w''. flush E' (w', t) = Some (Inr token, (w'', t)) \<and> ct_records token = pe_records (wr_pending w)"
proof -
  from outcomeD [OF flush_error_forgets [OF role] failed]
  have d: "wr_dirty w' = []" and p: "pe_records (wr_pending w') = pe_records (wr_pending w)" and r: "wr_role w' \<noteq> Single"
    using role by auto
  then have "flush E' (w', t) = Some (Inr (token_of_pending (w'\<lparr>wr_dirty := []\<rparr>)), (clear_pending (w'\<lparr>wr_dirty := []\<rparr>), t))"
    by (simp add: flush_def take_token_def bindI_def handle_def update_handle_def ret_def)
  moreover have "ct_records (token_of_pending (w'\<lparr>wr_dirty := []\<rparr>)) = pe_records (wr_pending w)"
    by (simp add: token_of_pending_def p Let_def)
  ultimately show ?thesis by blast
qed

text \<open>The owner of \<open>open_writer\<close> with both records of its shard pending, over a store that is full: the token that the
  second flush gives has the two records, and the cells of the shard are still those of the empty store.\<close>

definition waiting_writer :: writer where
  "waiting_writer = open_writer\<lparr>wr_pending := no_pending\<lparr>pe_records := [(0, 5), (1, 6)]\<rparr>\<rparr>"

definition full_env :: "(mem_store, json, mem_handle) stream_env" where
  "full_env = (mem_env brief_api plain_text)\<lparr>se_store_chunk := (\<lambda>h idx a s. (Inl ''no space left'', s))\<rparr>"

theorem failed_flush_forgets_witness:
  "\<exists>e w' s' token w''. flush full_env (waiting_writer, zero_store) = Some (Inl e, (w', s')) \<and>
     flush (mem_env brief_api plain_text) (w', s') = Some (Inr token, (w'', s')) \<and>
     ct_records token = [(0, 5), (1, 6)] \<and> ms_cells s' ''v'' [1, 1] = [0]"
proof -
  let ?run = "flush full_env (waiting_writer, zero_store)"
  have "map_option (\<lambda>(r, w, s). (isl r, ms_cells s ''v'' [1, 1])) ?run = Some (True, [0])" by code_simp
  then obtain e w' s' where run: "?run = Some (Inl e, (w', s'))" and c: "ms_cells s' ''v'' [1, 1] = [0]"
    by (auto dest: sum.collapse(1)) (metis sum.collapse(1))
  have r: "wr_role waiting_writer \<noteq> Single" and p: "pe_records (wr_pending waiting_writer) = [(0, 5), (1, 6)]"
    by (simp_all add: waiting_writer_def open_writer_def)
  from failed_flush_forgets [OF r run, of "mem_env brief_api plain_text" s'] p c run show ?thesis by auto
qed

end
