(* ===== verification/Http.thy ===== *)
theory Http
  imports Fetching
begin

text \<open>
  The \<open>http\<close> transport (\<open>rust/src/transport/http.rs\<close>): a GET with the validators and the credentials of
  the request, whose answer is a 304, an absence, a failure, or a body that is streamed into the staging
  file and hashed on the way.

  The HTTP client (\<open>reqwest\<close>) is the record \<open>http_client\<close> over whatever the network is (\<open>'r\<close>, the remote
  part of the world): how it answers a request, how it validates the names and values of headers, and the texts it
  gives its errors. A body arrives in chunks and may break off.
\<close>

section \<open>Requests and answers\<close>

datatype http_method = Get | Post

record http_request =
  hq_method :: http_method
  hq_url :: string
  hq_headers :: "(string \<times> string) list"
  hq_body :: string

record http_response =
  hr_status :: nat
  hr_headers :: "(string \<times> string) list"
  hr_chunks :: "string list"
  hr_broken :: "string option"

record 'r http_client =
  hc_send :: "http_request \<Rightarrow> 'r \<Rightarrow> (string + http_response) \<times> 'r"
  hc_text :: "http_response \<Rightarrow> string + string"
  hc_name :: "string \<Rightarrow> string option"
  hc_value :: "string \<Rightarrow> string option"
  hc_to_str :: "string \<Rightarrow> string option"
  hc_copy_error :: "io_error \<Rightarrow> string"

definition send_request :: "'r http_client \<Rightarrow> http_request \<Rightarrow> 'r world \<Rightarrow> (string + http_response) \<times> 'r world" where
  "send_request C q w = (case hc_send C q (remote w) of (r, net) \<Rightarrow> (r, w\<lparr>remote := net\<rparr>))"

definition get_request :: "string \<Rightarrow> (string \<times> string) list \<Rightarrow> http_request" where
  "get_request url hs = \<lparr>hq_method = Get, hq_url = url, hq_headers = hs, hq_body = []\<rparr>"

definition is_success :: "nat \<Rightarrow> bool" where
  "is_success status \<longleftrightarrow> 200 \<le> status \<and> status < 300"

section \<open>Headers\<close>

text \<open>A header map holds one value per name; \<open>insert\<close> replaces it. A validator that is no legal header value is left
  out, a credential that is none is an error.\<close>

definition put_validator :: "'r http_client \<Rightarrow> string \<Rightarrow> string option \<Rightarrow> (string \<times> string) list \<Rightarrow> (string \<times> string) list" where
  "put_validator C name v hs =
     (case Option.bind v (hc_value C) of None \<Rightarrow> hs | Some x \<Rightarrow> al_put name x hs)"

fun put_credentials :: "'r http_client \<Rightarrow> string \<Rightarrow> (string \<times> string) list \<Rightarrow> (string \<times> string) list \<Rightarrow> (string \<times> string) list result" where
  "put_credentials C url [] hs = Inr hs"
| "put_credentials C url ((name, v) # cs) hs =
     (case (hc_name C name, hc_value C v) of
        (Some n, Some x) \<Rightarrow> put_credentials C url cs (al_put n x hs)
      | _ \<Rightarrow> Inl (Transport url (''invalid auth header '' @ sq name)))"

definition resolver_headers :: "resolver option \<Rightarrow> (string \<times> string) list" where
  "resolver_headers auth = (case auth of None \<Rightarrow> [] | Some r \<Rightarrow> rs_headers r)"

definition http_headers :: "'r http_client \<Rightarrow> string \<Rightarrow> conditional \<Rightarrow> resolver option \<Rightarrow> (string \<times> string) list result" where
  "http_headers C url cond auth =
     put_credentials C url (resolver_headers auth)
       (put_validator C ''if-modified-since'' (cd_last_modified cond) (put_validator C ''if-none-match'' (cd_etag cond) []))"

definition header_string :: "'r http_client \<Rightarrow> (string \<times> string) list \<Rightarrow> string \<Rightarrow> string option" where
  "header_string C hs name = Option.bind (map_of hs name) (hc_to_str C)"

section \<open>Streaming a body into a file\<close>

text \<open>\<open>copy_to\<close>: the file and the hasher take the chunks one by one; the file holds what was written so far.\<close>

fun copy_chunks :: "string \<Rightarrow> string list \<Rightarrow> sha_writer \<Rightarrow> 'r world \<Rightarrow> (io_error + sha_writer) \<times> 'r world" where
  "copy_chunks dest [] sw w = (Inr sw, w)"
| "copy_chunks dest (c # cs) sw w =
     (case fs_write dest (inner sw @ c) w of
        (Inl e, w) \<Rightarrow> (Inl e, w)
      | (Inr u, w) \<Rightarrow> copy_chunks dest cs (snd (sha_write (\<lambda>b. Inr (length b)) sw c)) w)"

definition stream_body :: "'r http_client \<Rightarrow> (string \<Rightarrow> string) \<Rightarrow> string \<Rightarrow> string \<Rightarrow> http_response \<Rightarrow> 'r world \<Rightarrow> (nat \<times> string) result \<times> 'r world" where
  "stream_body C digest url dest resp w =
     (case fs_write dest [] w of
        (Inl e, w) \<Rightarrow> (Inl (Io (Some dest) e), w)
      | (Inr u, w) \<Rightarrow>
          (case copy_chunks dest (hr_chunks resp) sha_writer_new w of
             (Inl e, w) \<Rightarrow> (Inl (Transport url (hc_copy_error C e)), w)
           | (Inr sw, w) \<Rightarrow>
               (case hr_broken resp of
                  Some e \<Rightarrow> (Inl (Transport url e), w)
                | None \<Rightarrow> (Inr (length (inner sw), sha_finalize digest sw), w))))"

section \<open>The transport\<close>

definition http_fetch_hashed ::
    "'r http_client \<Rightarrow> (string \<Rightarrow> string) \<Rightarrow> ('r world, fetch_result \<times> string option) fetcher" where
  "http_fetch_hashed C digest url dest cond auth w =
     (case http_headers C url cond auth of
        Inl e \<Rightarrow> (Inl e, w)
      | Inr hs \<Rightarrow>
          (case send_request C (get_request url hs) w of
             (Inl e, w) \<Rightarrow> (Inl (Transport url e), w)
           | (Inr resp, w) \<Rightarrow>
               if hr_status resp = 304 then
                 (Inr (\<lparr>fr_status = NotModified, fr_etag = cd_etag cond, fr_last_modified = cd_last_modified cond,
                        fr_bytes_written = 0\<rparr>, None), w)
               else if \<not> is_success (hr_status resp) then
                 (Inl (if hr_status resp = 404 \<or> hr_status resp = 410
                       then NotFound url (''HTTP '' @ show_nat (hr_status resp))
                       else Transport url (''HTTP '' @ show_nat (hr_status resp))), w)
               else
                 (case stream_body C digest url dest resp w of
                    (Inl e, w) \<Rightarrow> (Inl e, w)
                  | (Inr (n, sha), w) \<Rightarrow>
                      (Inr (\<lparr>fr_status = Downloaded, fr_etag = header_string C (hr_headers resp) ''etag'',
                             fr_last_modified = header_string C (hr_headers resp) ''last-modified'',
                             fr_bytes_written = n\<rparr>, Some sha), w))))"

definition http_fetch :: "'r http_client \<Rightarrow> (string \<Rightarrow> string) \<Rightarrow> ('r world, fetch_result) fetcher" where
  "http_fetch C digest url dest cond auth w =
     (case http_fetch_hashed C digest url dest cond auth w of
        (Inl e, w) \<Rightarrow> (Inl e, w) | (Inr (res, sha), w) \<Rightarrow> (Inr res, w))"

definition http_transport :: "'r http_client \<Rightarrow> (string \<Rightarrow> string) \<Rightarrow> 'r world transport" where
  "http_transport C digest =
     \<lparr>tr_schemes = [''http'', ''https''], tr_fetch = http_fetch C digest, tr_hashed = Some (http_fetch_hashed C digest)\<rparr>"

section \<open>What it does\<close>

lemma copy_chunks_Inr:
  "copy_chunks dest cs sw w = (Inr sw', w') \<Longrightarrow> hashed sw = inner sw \<Longrightarrow> file_bytes w dest = Some (inner sw) \<Longrightarrow>
     int (length (inner sw)) \<le> u64_max \<Longrightarrow>
     inner sw' = inner sw @ concat cs \<and> hashed sw' = inner sw' \<and> file_bytes w' dest = Some (inner sw') \<and>
     int (length (inner sw')) \<le> u64_max \<and> remote w' = remote w"
proof (induction cs arbitrary: sw w)
  case (Cons c cs)
  let ?sw = "snd (sha_write (\<lambda>b. Inr (length b)) sw c)"
  have sw: "inner ?sw = inner sw @ c" "hashed ?sw = hashed sw @ c" by (simp_all add: sha_write_def)
  from Cons.prems(1) obtain w1 where w1: "fs_write dest (inner sw @ c) w = (Inr (), w1)" "copy_chunks dest cs ?sw w1 = (Inr sw', w')"
    by (auto split: prod.splits sum.splits)
  from fs_write_Inr [OF w1(1)] have "file_bytes w1 dest = Some (inner ?sw)" "int (length (inner ?sw)) \<le> u64_max" "remote w1 = remote w"
    by (simp_all add: file_bytes_def sw)
  from Cons.IH [OF w1(2) _ this(1,2)] sw Cons.prems(2) this(3) show ?case by (auto simp: sw)
qed simp

lemma fs_write_remote: "fs_write p b w = (r, w') \<Longrightarrow> remote w' = remote w"
  by (auto simp: fs_write_def split: option.splits if_splits)

lemma copy_chunks_remote: "copy_chunks dest cs sw w = (r, w') \<Longrightarrow> remote w' = remote w"
  by (induction cs arbitrary: sw w) (auto split: prod.splits sum.splits dest!: fs_write_remote)

lemma stream_body_remote: "stream_body C digest url dest resp w = (r, w') \<Longrightarrow> remote w' = remote w"
  by (auto simp: stream_body_def split: prod.splits sum.splits option.splits dest!: fs_write_remote copy_chunks_remote)

lemma stream_body_Inr:
  assumes "stream_body C digest url dest resp w = (Inr (n, sha), w')"
  shows "hr_broken resp = None" "file_bytes w' dest = Some (concat (hr_chunks resp))"
    and "int (length (concat (hr_chunks resp))) \<le> u64_max" "n = length (concat (hr_chunks resp))"
    and "sha = sha256_hex digest (concat (hr_chunks resp))"
proof -
  from assms obtain w1 sw where w1: "fs_write dest [] w = (Inr (), w1)"
    and c: "copy_chunks dest (hr_chunks resp) sha_writer_new w1 = (Inr sw, w')"
    and b: "hr_broken resp = None" and r: "n = length (inner sw)" "sha = sha_finalize digest sw"
    by (auto simp: stream_body_def split: prod.splits sum.splits option.splits)
  from fs_write_Inr [OF w1] have "file_bytes w1 dest = Some []" by (simp add: file_bytes_def)
  with copy_chunks_Inr [OF c] have "inner sw = concat (hr_chunks resp)" "hashed sw = inner sw" "file_bytes w' dest = Some (inner sw)"
    "int (length (inner sw)) \<le> u64_max" by (auto simp: sha_writer_new_def u64_max_def)
  with b r show "hr_broken resp = None" "file_bytes w' dest = Some (concat (hr_chunks resp))"
    "int (length (concat (hr_chunks resp))) \<le> u64_max" "n = length (concat (hr_chunks resp))"
    "sha = sha256_hex digest (concat (hr_chunks resp))"
    by (simp_all add: sha_finalize_def sha256_hex_def)
qed

text \<open>What a transport relies on in a store: writing into a staging file and talking to the network change no entry.\<close>

locale networked_store = blob_store S staging for S :: "'r world store" and staging +
  assumes network_apart: "same_entries S w (w\<lparr>remote := net\<rparr>)"
begin

lemma write_staging_keeps: "staging p \<Longrightarrow> same_entries S v w \<Longrightarrow> fs_write p bytes w = (wr, w') \<Longrightarrow> same_entries S v w'"
  using same_entries_trans write_staging by blast

lemma copy_chunks_keeps: "staging dest \<Longrightarrow> same_entries S v w \<Longrightarrow> copy_chunks dest cs sw w = (r, w') \<Longrightarrow> same_entries S v w'"
proof (induction cs arbitrary: sw w)
  case (Cons c cs)
  obtain x w1 where x: "fs_write dest (inner sw @ c) w = (x, w1)" by force
  from write_staging_keeps [OF Cons.prems(1,2) x] Cons.IH [OF Cons.prems(1)] Cons.prems(3) x show ?case
    by (cases x) auto
qed simp

lemma stream_body_keeps:
  "staging dest \<Longrightarrow> same_entries S v w \<Longrightarrow> stream_body C digest url dest resp w = (r, w') \<Longrightarrow> same_entries S v w'"
  by (auto simp: stream_body_def split: prod.splits sum.splits option.splits
      dest: write_staging_keeps copy_chunks_keeps [rotated 2])

lemma send_request_keeps: "same_entries S v w \<Longrightarrow> send_request C q w = (r, w') \<Longrightarrow> same_entries S v w'"
  using same_entries_trans [OF _ network_apart] by (auto simp: send_request_def split: prod.splits)

end

sublocale networked_store \<subseteq> http: staged_transport S staging digest "http_transport C digest"
  for digest C
proof
  fix url dest cond auth w r w'
  assume d: "staging dest" and f: "fetch_hashed (http_transport C digest) url dest cond auth w = (r, w')"
  from f show "same_entries S w w'"
    by (auto simp: fetch_hashed_def http_transport_def http_fetch_hashed_def split: sum.splits prod.splits if_splits
        dest!: send_request_keeps [OF same_entries_refl] stream_body_keeps [OF d, rotated])
next
  fix url dest cond auth w res sha w'
  assume "fetch_hashed (http_transport C digest) url dest cond auth w = (Inr (res, sha), w')" "fr_status res = Downloaded"
  then obtain resp n h w1 where b: "stream_body C digest url dest resp w1 = (Inr (n, h), w')" and sha: "sha = Some h"
    by (auto simp: fetch_hashed_def http_transport_def http_fetch_hashed_def split: sum.splits prod.splits if_splits)
  from stream_body_Inr [OF b] sha show "\<exists>bytes. file_bytes w' dest = Some bytes \<and> int (length bytes) \<le> u64_max \<and>
      (\<forall>h. sha = Some h \<longrightarrow> h = sha256_hex digest bytes)" by auto
qed

sublocale serde_laws \<subseteq> networked: networked_store "local_store api others root" "local_staging root"
  for others root
proof
  show "same_entries (local_store api others root) w (w\<lparr>remote := net\<rparr>)" for w net
    by (rule store_same_entries) (simp add: store_same_def blob_part_def)
qed

section \<open>Which failures read as an absence\<close>

text \<open>C29: once a server has answered, a failed download reads as the definitive absence of the object exactly when
  the answer was a 404 or a 410, or when it was a success but the local staging file could not be created because its
  directory is missing: that local error carries the same mark, although the server did have the object.\<close>

theorem http_absence_exact:
  assumes "http_headers C url cond auth = Inr hs" and "hc_send C (get_request url hs) (remote w) = (Inr resp, net)"
    and "http_fetch_hashed C digest url dest cond auth w = (Inl e, w')"
  shows "is_not_found e \<longleftrightarrow> hr_status resp = 404 \<or> hr_status resp = 410 \<or>
    (is_success (hr_status resp) \<and> (\<exists>x. fault w dest = Some x \<and> io_kind x = IoNotFound))"
  using assms
  by (auto simp: http_fetch_hashed_def send_request_def stream_body_def is_success_def fs_write_def is_a_directory_err_def
      u64_max_def split: prod.splits sum.splits if_splits option.splits)

definition absent_client :: "nat \<Rightarrow> unit http_client" where
  "absent_client status = \<lparr>hc_send = (\<lambda>q n. (Inr \<lparr>hr_status = status, hr_headers = [], hr_chunks = [''abc''], hr_broken = None\<rparr>, n)),
     hc_text = (\<lambda>r. Inr (concat (hr_chunks r))), hc_name = Some, hc_value = Some, hc_to_str = Some, hc_copy_error = io_text\<rparr>"

definition no_tmp_world :: "unit world" where
  "no_tmp_world = \<lparr>nodes = [], fault = [''/d/tmp/a.part'' \<mapsto> not_found_err], clock = 0, fresh = 0, remote = ()\<rparr>"

theorem http_absence_exact_witness:
  "\<exists>e w'. http_fetch_hashed (absent_client 200) (\<lambda>s. s) ''http://h/a'' ''/d/tmp/a.part'' no_conditional None no_tmp_world = (Inl e, w') \<and>
     is_not_found e"
proof -
  let ?C = "absent_client 200" let ?r = "\<lparr>hr_status = 200, hr_headers = [], hr_chunks = [''abc''], hr_broken = None\<rparr>"
  have hs: "http_headers ?C ''http://h/a'' no_conditional None = Inr []" by code_simp
  have a: "hc_send ?C (get_request ''http://h/a'' []) (remote no_tmp_world) = (Inr ?r, ())" by (simp add: absent_client_def)
  have "isl (fst (http_fetch_hashed ?C (\<lambda>s. s) ''http://h/a'' ''/d/tmp/a.part'' no_conditional None no_tmp_world))" by code_simp
  then obtain e w' where f: "http_fetch_hashed ?C (\<lambda>s. s) ''http://h/a'' ''/d/tmp/a.part'' no_conditional None no_tmp_world = (Inl e, w')"
    by (metis isl_def prod.collapse)
  from http_absence_exact [OF hs a f] have "is_not_found e"
    by (simp add: is_success_def no_tmp_world_def not_found_err_def)
  with f show ?thesis by blast
qed

end
