(* ===== verification/HttpFiles.thy ===== *)
theory HttpFiles
  imports Http LocalFiles
begin

text \<open>
  The cache over the local store and the \<open>http\<close> transport, end to end: a URL that is not cached is asked
  for once, what the server sends is what the cache stores and serves, and from then on the network is left alone.
\<close>

section \<open>A download over HTTP\<close>

definition http_manifest :: "host \<Rightarrow> 'r http_client \<Rightarrow> string \<Rightarrow> http_response \<Rightarrow> int \<Rightarrow> manifest" where
  "http_manifest H C url resp now =
     \<lparr>m_auth_realm = None, m_bytes = length (concat (hr_chunks resp)),
      m_etag = header_string C (hr_headers resp) ''etag'',
      m_fetched_at = (case h_stamp H now of Some s \<Rightarrow> s | None \<Rightarrow> ''1970-01-01T00:00:00Z''),
      m_last_modified = header_string C (hr_headers resp) ''last-modified'', m_schema = manifest_schema,
      m_sha256_content = sha256_hex (h_digest H) (concat (hr_chunks resp)), m_source_loader = None, m_url = url\<rparr>"

lemma copy_chunks_ok:
  assumes "healthy root w" "file_path root f" "int (length (inner sw @ concat cs)) \<le> u64_max"
    and "file_bytes w f = Some (inner sw)" "hashed sw = inner sw"
  obtains sw' w' where "copy_chunks f cs sw w = (Inr sw', w')" "local_ok root w w'"
    "inner sw' = inner sw @ concat cs" "hashed sw' = inner sw'" "file_bytes w' f = Some (inner sw')"
  using assms
proof (induction cs arbitrary: sw w thesis)
  case Nil
  then show ?case by (auto intro: local_ok_refl)
next
  case (Cons c cs)
  let ?sw = "snd (sha_write (\<lambda>b. Inr (length b)) sw c)"
  have sw: "inner ?sw = inner sw @ c" "hashed ?sw = hashed sw @ c" by (simp_all add: sha_write_def)
  have size: "int (length (inner sw @ c)) \<le> u64_max" using Cons.prems(4) by simp
  obtain w1 where w1: "fs_write f (inner sw @ c) w = (Inr (), w1)" "local_ok root w w1" "file_bytes w1 f = Some (inner sw @ c)"
    using fs_write_ok [OF Cons.prems(2,3) size] .
  have "int (length (inner ?sw @ concat cs)) \<le> u64_max" "file_bytes w1 f = Some (inner ?sw)" "hashed ?sw = inner ?sw"
    using Cons.prems(4,6) w1(3) by (simp_all add: sw)
  from Cons.IH [OF _ local_ok_healthy [OF w1(2)] Cons.prems(3) this] obtain sw' w' where
    w': "copy_chunks f cs ?sw w1 = (Inr sw', w')" "local_ok root w1 w'" "inner sw' = inner ?sw @ concat cs"
      "hashed sw' = inner sw'" "file_bytes w' f = Some (inner sw')" .
  show ?case
    by (rule Cons.prems(1) [of sw' w'])
      (use w1 w' sw local_ok_trans [OF w1(2) w'(2)] in simp_all)
qed

lemma local_ok_remote: "healthy root w \<Longrightarrow> local_ok root w (w\<lparr>remote := net\<rparr>)"
  by (simp add: local_ok_def healthy_def)

lemma http_download:
  assumes "healthy root w" "local_staging root p" "int (length (concat (hr_chunks resp))) \<le> u64_max"
    and "http_headers C url cond auth = Inr hs" "hc_send C (get_request url hs) (remote w) = (Inr resp, net)"
    and "is_success (hr_status resp)" "hr_broken resp = None"
  obtains w' where "http_fetch_hashed C digest url p cond auth w =
      (Inr (\<lparr>fr_status = Downloaded, fr_etag = header_string C (hr_headers resp) ''etag'',
         fr_last_modified = header_string C (hr_headers resp) ''last-modified'',
         fr_bytes_written = length (concat (hr_chunks resp))\<rparr>, Some (sha256_hex digest (concat (hr_chunks resp)))), w')"
    "local_ok root w w'" "file_bytes w' p = Some (concat (hr_chunks resp))"
proof -
  let ?w = "w\<lparr>remote := net\<rparr>"
  note r = local_ok_remote [OF assms(1), of net] and f = temp_files(1) [OF assms(2)]
  have z: "int (length ([] :: string)) \<le> u64_max" by (simp add: u64_max_def)
  obtain w1 where w1: "fs_write p [] ?w = (Inr (), w1)" "local_ok root ?w w1" "file_bytes w1 p = Some []"
    using fs_write_ok [OF local_ok_healthy [OF r] f z] .
  have "int (length (inner sha_writer_new @ concat (hr_chunks resp))) \<le> u64_max" "file_bytes w1 p = Some (inner sha_writer_new)"
    "hashed sha_writer_new = inner sha_writer_new" using assms(3) w1(3) by (simp_all add: sha_writer_new_def)
  from copy_chunks_ok [OF local_ok_healthy [OF w1(2)] f this] obtain sw w2 where
    c: "copy_chunks p (hr_chunks resp) sha_writer_new w1 = (Inr sw, w2)" "local_ok root w1 w2"
      "inner sw = inner sha_writer_new @ concat (hr_chunks resp)" "hashed sw = inner sw" "file_bytes w2 p = Some (inner sw)" .
  have sw: "inner sw = concat (hr_chunks resp)" using c(3) by (simp add: sha_writer_new_def)
  show ?thesis
  proof (rule that)
    show "local_ok root w w2" using r w1(2) c(2) by (blast intro: local_ok_trans)
    show "file_bytes w2 p = Some (concat (hr_chunks resp))" using c(5) sw by simp
    have "hr_status resp \<noteq> 304" using assms(6) by (simp add: is_success_def)
    then show "http_fetch_hashed C digest url p cond auth w =
      (Inr (\<lparr>fr_status = Downloaded, fr_etag = header_string C (hr_headers resp) ''etag'',
         fr_last_modified = header_string C (hr_headers resp) ''last-modified'',
         fr_bytes_written = length (concat (hr_chunks resp))\<rparr>, Some (sha256_hex digest (concat (hr_chunks resp)))), w2)"
      using assms(4-7) w1(1) c(1) c(4) sw
      by (simp add: http_fetch_hashed_def send_request_def stream_body_def sha_finalize_def sha256_hex_def)
  qed
qed

section \<open>Fetched once\<close>

lemma local_lock_remote: "local_lock root alone k w = (r, w') \<Longrightarrow> remote w' = remote w"
  by (auto simp: local_lock_def alone_def split: prod.splits sum.splits node.splits
      dest!: fs_write_remote create_dir_all_keeps(7))

lemma local_staging_remote: "local_new_staging root w = (r, w') \<Longrightarrow> remote w' = remote w"
  by (auto simp: local_new_staging_def temp_in_def Let_def split: prod.splits sum.splits
      dest!: fs_write_remote create_dir_all_keeps(7))

context local_files
begin

lemma http_first_fetch:
  fixes w :: "'r world"
  assumes h: "healthy root w"
    and url: "scheme_of url = Inr s" "ascii_lower s = ''http'' \<or> ascii_lower s = ''https''"
    and cold: "local_get_blob_hinted root (cache_key (h_digest H) url) (ext_from_url url) w = None"
      "local_get_meta api root (cache_key (h_digest H) url) w = Inr None"
    and answer: "hc_send C (get_request url []) (remote w) = (Inr resp, net)" "is_success (hr_status resp)" "hr_broken resp = None"
    and size: "int (length (concat (hr_chunks resp))) \<le> u64_max"
      "int (length (to_json_bytes api (http_manifest H C url resp (clock w)))) \<le> u64_max"
  obtains b w' where "fetch H (web_cache api root (http_transport C (h_digest H))) (request url) (w, rv) = (Inr b, w', rv)"
    "file_bytes w' (cb_path b) = Some (concat (hr_chunks resp))" "cb_manifest b = http_manifest H C url resp (clock w)"
    "local_get_blob_hinted root (cache_key (h_digest H) url) (ext_from_url url) w' = Some (cb_path b)"
    "local_get_meta api root (cache_key (h_digest H) url) w' = Inr (Some (cb_manifest b))" "cb_key b = cache_key (h_digest H) url"
proof -
  let ?k = "cache_key (h_digest H) url" and ?t = "http_transport C (h_digest H) :: 'r world transport"
  let ?C = "web_cache api root ?t :: 'r cache" and ?ext = "ext_from_url url" and ?S = "local_store api alone root :: 'r world store"
  let ?body = "concat (hr_chunks resp)"
  have k: "valid_key ?k" by (rule key64) (rule digest32)
  have C: "c_store ?C = ?S" and tr: "transport_get (c_transports ?C) (ascii_lower s) = Some ?t"
    using url(2) by (auto simp: web_cache_def transport_get_register http_transport_def)
  have miss: "try_hit H ?C ?k (request url) v x = (Inr None, x)" if "same_entries ?S w v" for v x
    using that k cold(1) C by (simp add: try_hit_def same_entries_def same_blob_def request_def)
  obtain w1 where l: "local_lock root alone ?k w = (Inr (), w1)" "local_ok root w w1"
    using local_lock_ok [OF h k] .
  have same1: "same_entries ?S w w1" using store_same_entries [OF local_lock_same [OF l(1) k]] .
  have meta1: "local_get_meta api root ?k w1 = Inr None" using same1 k cold(2) by (simp add: same_entries_def same_meta_def)
  obtain p w2 where st: "local_new_staging root w1 = (Inr p, w2)" "local_ok root w1 w2" "local_staging root p"
    using local_new_staging_ok [OF local_ok_healthy [OF l(2)]] .
  have r2: "remote w2 = remote w" using local_lock_remote [OF l(1)] local_staging_remote [OF st(1)] by simp
  have hs: "http_headers C url no_conditional None = Inr []"
    by (simp add: http_headers_def put_validator_def no_conditional_def resolver_headers_def)
  have a2: "hc_send C (get_request url []) (remote w2) = (Inr resp, net)" using answer(1) r2 by simp
  let ?res = "\<lparr>fr_status = Downloaded, fr_etag = header_string C (hr_headers resp) ''etag'',
         fr_last_modified = header_string C (hr_headers resp) ''last-modified'', fr_bytes_written = length ?body\<rparr>"
  obtain w3 where f: "http_fetch_hashed C (h_digest H) url p no_conditional None w2 = (Inr (?res, Some (sha256_hex (h_digest H) ?body)), w3)"
    "local_ok root w2 w3" "file_bytes w3 p = Some ?body"
    using http_download [OF local_ok_healthy [OF st(2)] st(3) size(1) hs a2 answer(2,3)] .
  obtain w4 where c: "local_commit_blob root ?k p ?ext w3 = (Inr (blob_path root ?k ?ext), w4)" "local_ok root w3 w4"
      "file_bytes w4 (blob_path root ?k ?ext) = Some ?body"
    using local_commit_ok [OF local_ok_healthy [OF f(2)] k st(3) f(3)] .
  have clock: "clock w4 = clock w" using l(2) st(2) f(2) c(2) by (simp add: local_ok_def)
  let ?m = "http_manifest H C url resp (clock w)"
  obtain w5 where pm: "local_put_meta api root ?k ?m w4 = (Inr (), w5)" "local_ok root w4 w5"
    using local_put_meta_ok [OF local_ok_healthy [OF c(2)] k size(2)] .
  have "manifest_ok ?m" using size(1) by (simp add: manifest_ok_def http_manifest_def)
  from local.put_meta_ok [OF k this, of alone root w4 "()" w5] pm(1) k
  have same: "same_blob ?S w4 w5 ?k" and meta5: "local_get_meta api root ?k w5 = Inr (Some ?m)" by simp_all
  have "st_get_blob_hinted ?S ?k ?ext w4 = Some (blob_path root ?k ?ext)" using local_commit_found [OF k c(1)] by simp
  from same_blobD [OF same this] c(3) have blob: "file_bytes w5 (blob_path root ?k ?ext) = Some ?body"
    and found: "local_get_blob_hinted root ?k ?ext w5 = Some (blob_path root ?k ?ext)" by simp_all
  obtain t where node: "map_of (nodes w3) p = Some (FileNode ?body t)" using file_bytes_Some [OF f(3)] by blast
  have fault: "fault w3 p = None" using local_ok_healthy [OF f(2)] by (simp add: healthy_def)
  let ?b = "\<lparr>cb_key = ?k, cb_path = blob_path root ?k ?ext, cb_manifest = ?m\<rparr>"
  have cr: "commit_result H ?C ?k (request url) url (?res, Some (sha256_hex (h_digest H) ?body)) None p w3 = (Inr ?b, w5)"
    using C c(1) pm(1) node fault clock
    by (simp add: commit_result_def fs_len_def fs_node_def request_def Let_def http_manifest_def now_rfc3339_def)
  have fh: "fetch_hashed ?t url p no_conditional None w2 = (Inr (?res, Some (sha256_hex (h_digest H) ?body)), w3)"
    using f(1) by (simp add: fetch_hashed_def http_transport_def)
  have "download_locked_with H ?C ?k (request url) True w1 = (Inr ?b, w5)"
    using C meta1 url(1) tr st(1) fh cr by (simp add: download_locked_with_def request_def Let_def)
  then have "download_locked H ?C ?k (request url) w1 = (Inr ?b, w5)" by (simp add: download_locked_def)
  moreover have "fetch H ?C (request url) (w, rv) = fetch_online H ?C ?k (request url) (w, rv)"
    by (simp add: fetch_def web_cache_def request_def)
  ultimately have "fetch H ?C (request url) (w, rv) = (Inr ?b, w5, rv)"
    using miss [OF same_entries_refl] miss [OF same1] l(1) C by (simp add: fetch_online_def)
  from that [OF this] blob found meta5 show ?thesis by simp
qed

lemma http_warm_fetch:
  fixes w :: "'r world"
  assumes "scheme_of url = Inr s" "ascii_lower s = ''http'' \<or> ascii_lower s = ''https''"
    and "local_get_blob_hinted root (cache_key (h_digest H) url) (ext_from_url url) w = Some p"
    and "local_get_meta api root (cache_key (h_digest H) url) w = Inr (Some m)"
  shows "fetch H (web_cache api root (http_transport C (h_digest H))) (request url) (w, rv) =
    (Inr \<lparr>cb_key = cache_key (h_digest H) url, cb_path = p, cb_manifest = m\<rparr>, w, rv)"
proof -
  have "local_source_path (h_env H) url = None"
    using assms(1,2) by (auto simp: local_source_path_def eq_ignore_case_def ascii_lower_def lower_char_def is_upper_def)
  with assms(3,4) show ?thesis
    by (simp add: fetch_def web_cache_def request_def fetch_online_def try_hit_def decide_def decide_at_def Let_def)
qed

end

text \<open>C28: over a healthy local store, a URL that is not cached is asked for once: whatever a server that answers with a
  success and a whole body sends, in whatever chunks, is the content of the blob the fetch returns; its manifest
  has the length, the digest and the validators of that answer; and every later fetch of the URL returns the
  same blob and leaves the world, the network included, as it is.\<close>

theorem http_fetched_once:
  fixes w :: "'r world"
  assumes "local_files api H" and "healthy root w"
    and "scheme_of url = Inr s" and "ascii_lower s = ''http'' \<or> ascii_lower s = ''https''"
    and "local_get_blob_hinted root (cache_key (h_digest H) url) (ext_from_url url) w = None"
    and "local_get_meta api root (cache_key (h_digest H) url) w = Inr None"
    and "hc_send C (get_request url []) (remote w) = (Inr resp, net)"
    and "is_success (hr_status resp)" and "hr_broken resp = None" and "int (length (concat (hr_chunks resp))) \<le> u64_max"
    and "int (length (to_json_bytes api (http_manifest H C url resp (clock w)))) \<le> u64_max"
  shows "\<exists>b w'. fetch H (web_cache api root (http_transport C (h_digest H))) (request url) (w, rv) = (Inr b, w', rv) \<and>
    file_bytes w' (cb_path b) = Some (concat (hr_chunks resp)) \<and> cb_manifest b = http_manifest H C url resp (clock w) \<and>
    (\<forall>rv2. fetch H (web_cache api root (http_transport C (h_digest H))) (request url) (w', rv2) = (Inr b, w', rv2))"
proof -
  obtain b w' where b: "fetch H (web_cache api root (http_transport C (h_digest H))) (request url) (w, rv) = (Inr b, w', rv)"
    "file_bytes w' (cb_path b) = Some (concat (hr_chunks resp))" "cb_manifest b = http_manifest H C url resp (clock w)"
    "local_get_blob_hinted root (cache_key (h_digest H) url) (ext_from_url url) w' = Some (cb_path b)"
    "local_get_meta api root (cache_key (h_digest H) url) w' = Inr (Some (cb_manifest b))" "cb_key b = cache_key (h_digest H) url"
    using local_files.http_first_fetch [OF assms] .
  from local_files.http_warm_fetch [OF assms(1,3,4) b(4,5)] b(6)
  have "fetch H (web_cache api root (http_transport C (h_digest H))) (request url) (w', rv2) = (Inr b, w', rv2)" for rv2
    by (metis cached_blob.surjective old.unit.exhaust)
  with b show ?thesis by blast
qed

text \<open>A server that counts the requests it gets and answers each with a body in two chunks.\<close>

definition two_chunks :: http_response where
  "two_chunks = \<lparr>hr_status = 200, hr_headers = [(''etag'', ''v1'')], hr_chunks = [''ab'', ''c''], hr_broken = None\<rparr>"

definition counting_client :: "nat http_client" where
  "counting_client = \<lparr>hc_send = (\<lambda>q n. (Inr two_chunks, Suc n)), hc_text = (\<lambda>r. Inr (concat (hr_chunks r))),
     hc_name = Some, hc_value = Some, hc_to_str = Some, hc_copy_error = io_text\<rparr>"

definition counting_world :: "nat world" where
  "counting_world = \<lparr>nodes = [], fault = (\<lambda>_. None), clock = 9000000000, fresh = 0, remote = 0\<rparr>"

theorem http_fetched_once_witness:
  "\<exists>b w'. fetch sample_host (web_cache flat_api ''/d'' (http_transport counting_client (h_digest sample_host)))
       (request ''https://h/a.nc'') (counting_world, rv_new) = (Inr b, w', rv_new) \<and>
     file_bytes w' (cb_path b) = Some ''abc'' \<and> m_etag (cb_manifest b) = Some ''v1'' \<and>
     fetch sample_host (web_cache flat_api ''/d'' (http_transport counting_client (h_digest sample_host)))
       (request ''https://h/a.nc'') (w', rv_new) = (Inr b, w', rv_new)"
proof -
  let ?url = "''https://h/a.nc''"
  have cold: "healthy ''/d'' counting_world" "local_get_blob_hinted ''/d'' (cache_key (h_digest sample_host) ?url) (ext_from_url ?url) counting_world = None"
    "local_get_meta flat_api ''/d'' (cache_key (h_digest sample_host) ?url) counting_world = Inr None"
    by (rule fresh_root [OF sample_key]; simp add: counting_world_def)+
  have url: "scheme_of ?url = Inr ''https''" "ascii_lower ''https'' = ''http'' \<or> ascii_lower ''https'' = ''https''" by code_simp+
  have answer: "hc_send counting_client (get_request ?url []) (remote counting_world) = (Inr two_chunks, 1)"
    by (simp add: counting_client_def counting_world_def)
  have ok: "is_success (hr_status two_chunks)" "hr_broken two_chunks = None" "int (length (concat (hr_chunks two_chunks))) \<le> u64_max"
    "int (length (to_json_bytes flat_api (http_manifest sample_host counting_client ?url two_chunks (clock counting_world)))) \<le> u64_max"
    by code_simp+
  have e: "m_etag (http_manifest sample_host counting_client ?url two_chunks (clock counting_world)) = Some ''v1''"
    "concat (hr_chunks two_chunks) = ''abc''" by code_simp+
  from http_fetched_once [OF sample.local_files_axioms cold(1) url cold(2,3) answer ok, of rv_new] e show ?thesis by metis
qed

end
