(* ===== verification/S3Config.thy ===== *)
theory S3Config
  imports StreamTypes
begin

text \<open>
  What a deployment says about the S3 buckets it reads (\<open>rust/src/s3_config.rs\<close>), and the options a direct read of
  a store is made with (the first half of \<open>rust/src/format/zarr_object_store.rs\<close>).

  The process environment is the list of its variables, as \<open>std::env::vars\<close> gives it; the JSON parser is a
  parameter. An option list is kept in order, as the code keeps it: the \<open>object_store\<close> crate that receives it is not
  modelled. Values that are maps from buckets in the code are association lists here.
\<close>

section \<open>Option keys\<close>

type_synonym store_opts = "(string \<times> string) list"
type_synonym env_vars = "(string \<times> string) list"

definition bucket_options_env :: string where "bucket_options_env = ''EARTHSCI_S3_BUCKET_OPTIONS''"

definition s3_signing_keys :: "string list" where
  "s3_signing_keys = [''aws_skip_signature'', ''skip_signature'']"

definition s3_credential_keys :: "string list" where
  "s3_credential_keys =
     [''aws_access_key_id'', ''access_key_id'', ''aws_secret_access_key'', ''secret_access_key'',
      ''aws_session_token'', ''session_token'', ''aws_token'', ''token'',
      ''aws_container_credentials_relative_uri'', ''container_credentials_relative_uri'',
      ''aws_container_credentials_full_uri'', ''container_credentials_full_uri'',
      ''aws_web_identity_token_file'', ''web_identity_token_file'', ''aws_role_arn'', ''role_arn'']"

definition s3_static_key_keys :: "string list" where
  "s3_static_key_keys = [''aws_access_key_id'', ''access_key_id'']"

definition s3_endpoint_keys :: "string list" where
  "s3_endpoint_keys = [''endpoint'', ''endpoint_url'', ''aws_endpoint'', ''aws_endpoint_url'', ''aws_endpoint_url_s3'']"

definition s3_region_keys :: "string list" where
  "s3_region_keys = [''aws_region'', ''region'']"

definition has_any :: "store_opts \<Rightarrow> string list \<Rightarrow> bool" where
  "has_any opts keys = list_ex (\<lambda>(k, v). k \<in> set keys) opts"

definition value_of :: "store_opts \<Rightarrow> string list \<Rightarrow> string option" where
  "value_of opts keys = map_option snd (find (\<lambda>(k, v). k \<in> set keys) opts)"

section \<open>The statements about a bucket\<close>

text \<open>What is before the first slash; the whole text when there is none.\<close>

definition host_part :: "string \<Rightarrow> string" where
  "host_part rest = takeWhile (\<lambda>c. c \<noteq> CHR ''/'') rest"

definition bucket_of_url :: "string \<Rightarrow> string option" where
  "bucket_of_url url =
     Option.bind (case strip_prefix ''s3://'' url of Some r \<Rightarrow> Some r | None \<Rightarrow> strip_prefix ''s3a://'' url) (\<lambda>rest.
       if host_part rest \<noteq> [] then Some (ascii_lower (host_part rest)) else None)"

fun kind_of :: "json \<Rightarrow> string" where
  "kind_of JNull = ''null''"
| "kind_of (JBool b) = ''a boolean''"
| "kind_of (JInt i) = ''a number''"
| "kind_of (JNum s) = ''a number''"
| "kind_of (JStr s) = ''a string''"
| "kind_of (JArr vs) = ''an array''"
| "kind_of (JObj kvs) = ''an object''"

fun option_text :: "json \<Rightarrow> string option" where
  "option_text (JStr s) = Some s"
| "option_text (JBool b) = Some (if b then ''true'' else ''false'')"
| "option_text (JInt i) = Some (show_int i)"
| "option_text (JNum s) = Some s"
| "option_text _ = None"

fun option_pairs :: "string \<Rightarrow> (string \<times> json) list \<Rightarrow> string + store_opts" where
  "option_pairs bucket [] = Inr []"
| "option_pairs bucket ((key, v) # kvs) =
     (case option_text v of
        None \<Rightarrow> Inl (sq bucket @ ''.'' @ sq key @ '' is '' @ kind_of v @ '', and an option value must be a string, boolean or number'')
      | Some t \<Rightarrow>
          (case option_pairs bucket kvs of
             Inl e \<Rightarrow> Inl e
           | Inr ps \<Rightarrow> Inr ((ascii_lower (trim key), t) # ps)))"

fun bucket_entries :: "(string \<times> json) list \<Rightarrow> (string \<times> store_opts) list \<Rightarrow> string + (string \<times> store_opts) list" where
  "bucket_entries [] out = Inr out"
| "bucket_entries ((name, v) # kvs) out =
     (let bucket = ascii_lower (trim name) in
      if bucket = [] then Inl ''a bucket name is empty''
      else
        (case as_object v of
           None \<Rightarrow> Inl (sq bucket @ '' does not map to a JSON object of options'')
         | Some options \<Rightarrow>
             (case option_pairs bucket options of
                Inl e \<Rightarrow> Inl e
              | Inr ps \<Rightarrow> bucket_entries kvs (al_put bucket ps out))))"

definition parse_bucket_options :: "(string \<Rightarrow> string + json) \<Rightarrow> string \<Rightarrow> string + (string \<times> store_opts) list" where
  "parse_bucket_options parse spec =
     (if trim spec = [] then Inr []
      else
        (case parse spec of
           Inl e \<Rightarrow> Inl (''not valid JSON: '' @ e)
         | Inr root \<Rightarrow>
             (case as_object root of
                None \<Rightarrow> Inl ''expected a JSON object of {\"bucket\": {options}}''
              | Some buckets \<Rightarrow> bucket_entries buckets [])))"

definition bucket_options_from_env :: "(string \<Rightarrow> string + json) \<Rightarrow> env_vars \<Rightarrow> string + (string \<times> store_opts) list" where
  "bucket_options_from_env parse env =
     (case map_of env bucket_options_env of None \<Rightarrow> Inr [] | Some spec \<Rightarrow> parse_bucket_options parse spec)"

definition options_for_bucket :: "(string \<Rightarrow> string + json) \<Rightarrow> env_vars \<Rightarrow> string \<Rightarrow> store_opts" where
  "options_for_bucket parse env bucket =
     (case bucket_options_from_env parse env of
        Inl e \<Rightarrow> []
      | Inr m \<Rightarrow> (case map_of m (ascii_lower bucket) of None \<Rightarrow> [] | Some opts \<Rightarrow> opts))"

definition options_for_url :: "(string \<Rightarrow> string + json) \<Rightarrow> env_vars \<Rightarrow> string \<Rightarrow> store_opts" where
  "options_for_url parse env url =
     (case bucket_of_url url of None \<Rightarrow> [] | Some b \<Rightarrow> options_for_bucket parse env b)"

definition stated_signing :: "store_opts \<Rightarrow> bool option" where
  "stated_signing opts =
     (case value_of opts s3_signing_keys of
        Some v \<Rightarrow> Some (ascii_lower (trim v) \<notin> {''true'', ''1'', ''yes'', ''on''})
      | None \<Rightarrow> if has_any opts s3_credential_keys then Some True else None)"

definition stated_region :: "store_opts \<Rightarrow> string option" where
  "stated_region opts = Option.bind (value_of opts s3_region_keys) (\<lambda>r. if r \<noteq> [] then Some r else None)"

section \<open>The region\<close>

text \<open>\<open>resolve_region\<close> of \<open>rust/src/transport/s3.rs\<close>, which both paths use.\<close>

definition set_var :: "env_vars \<Rightarrow> string \<Rightarrow> string option" where
  "set_var env var = Option.bind (map_of env var) (\<lambda>v. if v \<noteq> [] then Some v else None)"

definition default_s3_region :: string where "default_s3_region = ''us-east-2''"

definition resolve_region :: "env_vars \<Rightarrow> string option \<Rightarrow> string" where
  "resolve_region env expl =
     (case expl of
        Some r \<Rightarrow> r
      | None \<Rightarrow>
          (case set_var env ''EARTHSCI_S3_REGION'' of
             Some v \<Rightarrow> v
           | None \<Rightarrow> (case set_var env ''AWS_REGION'' of Some v \<Rightarrow> v | None \<Rightarrow> default_s3_region)))"

definition resolve_region_for_bucket :: "(string \<Rightarrow> string + json) \<Rightarrow> env_vars \<Rightarrow> string \<Rightarrow> string option \<Rightarrow> string" where
  "resolve_region_for_bucket parse env bucket expl =
     (case expl of
        Some r \<Rightarrow> r
      | None \<Rightarrow>
          (case stated_region (options_for_bucket parse env bucket) of
             Some region \<Rightarrow> region
           | None \<Rightarrow> resolve_region env None))"

section \<open>The options of a direct read\<close>

definition env_prefixes :: "string list" where
  "env_prefixes = [''AWS_'', ''GOOGLE_'', ''AZURE_'']"

definition store_options_from_env :: "env_vars \<Rightarrow> store_opts" where
  "store_options_from_env env =
     map (\<lambda>(k, v). (ascii_lower k, v)) (filter (\<lambda>(k, v). list_ex (\<lambda>p. starts_with p k) env_prefixes) env)"

definition is_s3_url :: "string \<Rightarrow> bool" where
  "is_s3_url url \<longleftrightarrow> starts_with ''s3://'' url \<or> starts_with ''s3a://'' url"

definition put_option :: "string \<times> string \<Rightarrow> store_opts \<Rightarrow> store_opts" where
  "put_option kv merged = filter (\<lambda>(k, v). k \<noteq> fst kv) merged @ [kv]"

definition anonymous_read :: "string \<times> string" where
  "anonymous_read = (''aws_skip_signature'', ''true'')"

definition merged_options :: "(string \<Rightarrow> string + json) \<Rightarrow> env_vars \<Rightarrow> string \<Rightarrow> store_opts \<Rightarrow> store_opts" where
  "merged_options parse env url expl = fold put_option (options_for_url parse env url @ expl) (store_options_from_env env)"

definition read_store_options :: "(string \<Rightarrow> string + json) \<Rightarrow> env_vars \<Rightarrow> string \<Rightarrow> store_opts \<Rightarrow> store_opts" where
  "read_store_options parse env url expl =
     (let per_bucket = options_for_url parse env url;
          merged = merged_options parse env url expl in
      if \<not> is_s3_url url \<or> has_any merged s3_signing_keys then merged
      else
        (let stated = has_any expl s3_credential_keys \<or> has_any per_bucket s3_credential_keys;
             endpoint = has_any merged s3_endpoint_keys \<and> has_any merged s3_static_key_keys in
         if \<not> stated \<and> \<not> endpoint then merged @ [anonymous_read] else merged))"

definition apply_s3_defaults :: "env_vars \<Rightarrow> string \<Rightarrow> store_opts \<Rightarrow> store_opts" where
  "apply_s3_defaults env url opts =
     (if \<not> is_s3_url url then opts
      else
        (let opts = (if \<not> has_any opts s3_signing_keys \<and> \<not> has_any opts s3_credential_keys then opts @ [anonymous_read] else opts) in
         if \<not> has_any opts [''region'', ''aws_region''] then opts @ [(''aws_region'', resolve_region env None)] else opts))"

text \<open>The options a direct read reaches \<open>object_store\<close> with.\<close>

definition direct_read_options :: "(string \<Rightarrow> string + json) \<Rightarrow> env_vars \<Rightarrow> string \<Rightarrow> store_opts \<Rightarrow> store_opts" where
  "direct_read_options parse env url expl = apply_s3_defaults env url (read_store_options parse env url expl)"

section \<open>What an environment can say\<close>

definition about_signing :: "store_opts \<Rightarrow> store_opts" where
  "about_signing opts = filter (\<lambda>(k, v). k \<in> set s3_signing_keys) opts"

lemma has_any_append [simp]: "has_any (xs @ ys) keys \<longleftrightarrow> has_any xs keys \<or> has_any ys keys"
  by (simp add: has_any_def)

lemma about_signing_append [simp]: "about_signing (xs @ ys) = about_signing xs @ about_signing ys"
  by (simp add: about_signing_def)

lemma about_signing_none: "\<not> has_any opts s3_signing_keys \<Longrightarrow> about_signing opts = []"
  by (auto simp: has_any_def about_signing_def list_ex_iff filter_empty_conv)

lemma has_any_Cons: "has_any ((k, v) # opts) keys \<longleftrightarrow> k \<in> set keys \<or> has_any opts keys"
  by (simp add: has_any_def)

lemma put_options_append:
  "fold put_option kvs (xs @ ys) = filter (\<lambda>(k, v). k \<notin> fst ` set kvs) xs @ fold put_option kvs ys"
proof (induction kvs arbitrary: xs ys)
  case (Cons kv kvs)
  have "fold put_option (kv # kvs) (xs @ ys) =
      fold put_option kvs (filter (\<lambda>(k, v). k \<noteq> fst kv) xs @ (filter (\<lambda>(k, v). k \<noteq> fst kv) ys @ [kv]))"
    by (simp add: put_option_def)
  also have "\<dots> = filter (\<lambda>(k, v). k \<notin> fst ` set kvs) (filter (\<lambda>(k, v). k \<noteq> fst kv) xs) @ fold put_option (kv # kvs) ys"
    by (subst Cons.IH) (simp add: put_option_def)
  finally show ?case by (simp add: case_prod_unfold conj_commute)
qed simp

lemma put_options_has: "has_any (fold put_option kvs xs) keys \<longleftrightarrow>
    has_any kvs keys \<or> has_any (filter (\<lambda>(k, v). k \<notin> fst ` set kvs) xs) keys"
proof (induction kvs arbitrary: xs)
  case Nil
  show ?case by (auto simp: has_any_def)
next
  case (Cons kv kvs)
  have "has_any (fold put_option (kv # kvs) xs) keys \<longleftrightarrow> has_any kvs keys \<or>
      has_any (filter (\<lambda>(k, v). k \<notin> fst ` set kvs) (filter (\<lambda>(k, v). k \<noteq> fst kv) xs @ [kv])) keys"
    by (simp add: Cons.IH put_option_def)
  also have "\<dots> \<longleftrightarrow> has_any (kv # kvs) keys \<or> has_any (filter (\<lambda>(k, v). k \<notin> fst ` set (kv # kvs)) xs) keys"
    by (cases kv) (force simp: has_any_def list_ex_iff image_iff)
  finally show ?case .
qed

lemma store_options_append: "store_options_from_env (env @ extra) = store_options_from_env env @ store_options_from_env extra"
  by (simp add: store_options_from_env_def)

definition silent_vars :: "env_vars \<Rightarrow> bool" where
  "silent_vars extra \<longleftrightarrow> list_all (\<lambda>(k, v). k \<noteq> bucket_options_env \<and> ascii_lower k \<notin> set (s3_signing_keys @ s3_endpoint_keys)) extra"

lemma silent_options: "silent_vars extra \<Longrightarrow> set keys \<subseteq> set (s3_signing_keys @ s3_endpoint_keys) \<Longrightarrow>
    \<not> has_any (filter P (store_options_from_env extra)) keys"
  by (auto simp: silent_vars_def has_any_def list_ex_iff list_all_iff store_options_from_env_def)

lemma silent_lookup: "silent_vars extra \<Longrightarrow> map_of (env @ extra) bucket_options_env = map_of env bucket_options_env"
proof -
  assume "silent_vars extra"
  then have "map_of extra bucket_options_env = None" by (auto simp: silent_vars_def list_all_iff map_of_eq_None_iff)
  then show ?thesis by (simp add: map_add_def split: option.split)
qed

lemma silent_buckets: "silent_vars extra \<Longrightarrow> options_for_bucket parse (env @ extra) b = options_for_bucket parse env b"
  by (simp add: options_for_bucket_def bucket_options_from_env_def silent_lookup del: map_of_append)

lemma silent_url: "silent_vars extra \<Longrightarrow> options_for_url parse (env @ extra) url = options_for_url parse env url"
  by (simp add: options_for_url_def silent_buckets split: option.split)

lemma merged_silent:
  assumes "silent_vars extra" "set keys \<subseteq> set (s3_signing_keys @ s3_endpoint_keys)"
  shows "has_any (merged_options parse (env @ extra) url expl) keys \<longleftrightarrow> has_any (merged_options parse env url expl) keys"
  using silent_options [OF assms]
  by (simp add: merged_options_def silent_url [OF assms(1)] put_options_has store_options_append del: fold_append)

lemma merged_about_signing:
  assumes "silent_vars extra"
  shows "about_signing (merged_options parse (env @ extra) url expl) = about_signing (merged_options parse env url expl)"
proof -
  let ?os = "options_for_url parse env url @ expl" and ?F = "\<lambda>xs :: store_opts. filter (\<lambda>(k, v). k \<notin> fst ` set (options_for_url parse env url @ expl)) xs"
  have none: "about_signing (?F (store_options_from_env extra)) = []"
    using silent_options [OF assms, of s3_signing_keys] by (auto intro!: about_signing_none)
  have split: "fold put_option ?os xs = ?F xs @ fold put_option ?os []" for xs
    using put_options_append [of ?os xs "[]"] by simp
  show ?thesis using none
    by (simp only: merged_options_def silent_url [OF assms] store_options_append split [of "_ @ _"] split [of "store_options_from_env env"]
        filter_append about_signing_append append_Nil2 append_Nil)
qed

text \<open>Which of two kinds of option lists the final one is, when no endpoint is configured.\<close>

lemma direct_read_signing:
  assumes "is_s3_url url" "\<not> has_any (merged_options parse env url expl) s3_endpoint_keys"
  shows "about_signing (direct_read_options parse env url expl) =
    (if has_any (merged_options parse env url expl) s3_signing_keys then about_signing (merged_options parse env url expl)
     else if has_any expl s3_credential_keys \<or> has_any (options_for_url parse env url) s3_credential_keys then []
     else [anonymous_read])"
proof -
  let ?m = "merged_options parse env url expl"
  have anon: "about_signing [anonymous_read] = [anonymous_read]" "has_any [anonymous_read] s3_signing_keys"
    by (simp_all add: about_signing_def has_any_def anonymous_read_def s3_signing_keys_def)
  have region: "about_signing [(''aws_region'', r)] = []" "about_signing [anonymous_read, (''aws_region'', r)] = [anonymous_read]" for r
    by (simp_all add: about_signing_def s3_signing_keys_def anonymous_read_def)
  have creds: "has_any ?m s3_credential_keys" if "has_any expl s3_credential_keys \<or> has_any (options_for_url parse env url) s3_credential_keys"
    using that by (auto simp: merged_options_def put_options_has simp del: fold_append)
  have none: "about_signing ?m = []" if "\<not> has_any ?m s3_signing_keys" by (rule about_signing_none [OF that])
  show ?thesis using assms anon region creds none
    by (simp add: direct_read_options_def read_store_options_def apply_s3_defaults_def Let_def)
qed

end
