(* ===== verification/S3.thy ===== *)
theory S3
  imports Http S3Config
begin

text \<open>
  The \<open>s3\<close> transport (\<open>rust/src/transport/s3.rs\<close>): an anonymous read rewrites the URL to regional HTTPS and
  delegates to the \<open>http\<close> transport; a read of a bucket that was named for it is signed, and goes through the
  client of the \<open>object_store\<close> crate, in ranges.

  That client is the record \<open>object_client\<close>: how it opens an object for a URL and options, its head and its ranged
  reads over the network. The process environment is read when the transport is made and at each fetch. The
  build is the one with the feature \<open>object-store\<close>.
\<close>

section \<open>Buckets\<close>

definition signed_buckets_env :: string where "signed_buckets_env = ''EARTHSCI_S3_SIGNED_BUCKETS''"

definition parse_signed_buckets :: "string \<Rightarrow> string list" where
  "parse_signed_buckets spec = map ascii_lower (filter (\<lambda>s. s \<noteq> []) (map trim (split_on (CHR '','') spec)))"

definition signed_buckets_from_env :: "env_vars \<Rightarrow> string list" where
  "signed_buckets_from_env env = (case map_of env signed_buckets_env of None \<Rightarrow> [] | Some spec \<Rightarrow> parse_signed_buckets spec)"

definition bucket_of :: "string \<Rightarrow> string result" where
  "bucket_of url =
     (case strip_prefix ''s3://'' url of
        None \<Rightarrow> Inl (BadUrl url ''not an s3:// URL'')
      | Some rest \<Rightarrow> if host_part rest = [] then Inl (BadUrl url ''s3:// URL has an empty bucket'') else Inr (host_part rest))"

definition check_bucket_options :: "(string \<Rightarrow> string + json) \<Rightarrow> env_vars \<Rightarrow> unit result" where
  "check_bucket_options parse env =
     (case bucket_options_from_env parse env of Inl detail \<Rightarrow> Inl (BadConfig bucket_options_env detail) | Inr m \<Rightarrow> Inr ())"

definition s3_https_url :: "string \<Rightarrow> string \<Rightarrow> string result" where
  "s3_https_url url region =
     (case strip_prefix ''s3://'' url of
        None \<Rightarrow> Inl (BadUrl url ''not an s3:// URL'')
      | Some rest \<Rightarrow>
          (case split_once ''/'' rest of
             None \<Rightarrow> Inl (BadUrl url ''s3:// URL has no object key'')
           | Some (bucket, key) \<Rightarrow>
               if bucket = [] then Inl (BadUrl url ''s3:// URL has an empty bucket'')
               else Inr (''https://'' @ bucket @ ''.s3.'' @ region @ ''.amazonaws.com/'' @ key)))"

section \<open>The transport\<close>

record s3_transport =
  s3_region :: "string option"
  s3_signed :: "string list"
  s3_env_signing :: bool

definition s3_new :: "env_vars \<Rightarrow> s3_transport" where
  "s3_new env = \<lparr>s3_region = None, s3_signed = signed_buckets_from_env env, s3_env_signing = True\<rparr>"

definition s3_with_region :: "env_vars \<Rightarrow> string \<Rightarrow> s3_transport" where
  "s3_with_region env region = \<lparr>s3_region = Some region, s3_signed = signed_buckets_from_env env, s3_env_signing = True\<rparr>"

definition signing_buckets :: "string list \<Rightarrow> s3_transport \<Rightarrow> s3_transport" where
  "signing_buckets buckets t =
     t\<lparr>s3_signed := filter (\<lambda>b. b \<noteq> []) (map (\<lambda>b. ascii_lower (trim b)) buckets), s3_env_signing := False\<rparr>"

definition signs :: "(string \<Rightarrow> string + json) \<Rightarrow> env_vars \<Rightarrow> s3_transport \<Rightarrow> string \<Rightarrow> bool" where
  "signs parse env t bucket =
     (let bucket = ascii_lower bucket in
      case (if s3_env_signing t then stated_signing (options_for_bucket parse env bucket) else None) of
        Some stated \<Rightarrow> stated
      | None \<Rightarrow> bucket \<in> set (s3_signed t))"

section \<open>The signed read\<close>

datatype object_error = NoSuchObject string | ObjectError string

record object_meta =
  om_size :: nat
  om_etag :: "string option"

record ('o, 'u, 'r) object_client =
  oc_url :: "string \<Rightarrow> string + 'u"
  oc_open :: "'u \<Rightarrow> store_opts \<Rightarrow> string + 'o"
  oc_runtime :: "string option"
  oc_head :: "'o \<Rightarrow> 'r \<Rightarrow> (object_error + object_meta) \<times> 'r"
  oc_range :: "'o \<Rightarrow> nat \<Rightarrow> nat \<Rightarrow> 'r \<Rightarrow> (object_error + string) \<times> 'r"

definition os_err :: "string \<Rightarrow> error" where "os_err detail = FormatError ''zarr'' detail"

definition resolve_backend :: "('o, 'u, 'r) object_client \<Rightarrow> string \<Rightarrow> store_opts \<Rightarrow> 'o result" where
  "resolve_backend B url opts =
     (case oc_url B url of
        Inl e \<Rightarrow> Inl (os_err (''invalid store URL '' @ sq url @ '': '' @ e))
      | Inr u \<Rightarrow>
          (case oc_open B u opts of
             Inl e \<Rightarrow> Inl (os_err (''no object_store backend for '' @ sq url @ '': '' @ e))
           | Inr obj \<Rightarrow> Inr obj))"

definition object_runtime :: "('o, 'u, 'r) object_client \<Rightarrow> unit result" where
  "object_runtime B =
     (case oc_runtime B of Some e \<Rightarrow> Inl (os_err (''build tokio runtime for object_store: '' @ e)) | None \<Rightarrow> Inr ())"

fun signed_read_error :: "string \<Rightarrow> object_error \<Rightarrow> error" where
  "signed_read_error url (NoSuchObject e) = NotFound url ''signed s3 read: no such key''"
| "signed_read_error url (ObjectError e) = Transport url (''signed s3 read: '' @ e)"

fun strip_weak :: "string \<Rightarrow> string" where
  "strip_weak (a # b # s) = (if a = CHR ''W'' \<and> b = CHR ''/'' then strip_weak s else a # b # s)"
| "strip_weak s = s"

definition trim_quotes :: "string \<Rightarrow> string" where
  "trim_quotes s = rev (dropWhile (\<lambda>c. c = CHR 0x22) (rev (dropWhile (\<lambda>c. c = CHR 0x22) s)))"

text \<open>An entity tag is the text of a header, which has no white space beyond ASCII's.\<close>

definition etag_eq :: "string \<Rightarrow> string \<Rightarrow> bool" where
  "etag_eq a b \<longleftrightarrow> trim_quotes (strip_weak (trim a)) = trim_quotes (strip_weak (trim b))"

definition signed_chunk :: nat where "signed_chunk = 8 * 1024 * 1024"

text \<open>The loop over the ranges: \<open>acc\<close> is what the staging file holds.\<close>

function copy_ranges ::
    "('o, 'u, 'r) object_client \<Rightarrow> 'o \<Rightarrow> string \<Rightarrow> string \<Rightarrow> nat \<Rightarrow> nat \<Rightarrow> string \<Rightarrow> 'r world \<Rightarrow> unit result \<times> 'r world" where
  "copy_ranges B obj url dest n offset acc w =
     (if offset < n then
        (let fin = min (offset + signed_chunk) n in
         case oc_range B obj offset fin (remote w) of
           (Inl e, net) \<Rightarrow> (Inl (signed_read_error url e), w\<lparr>remote := net\<rparr>)
         | (Inr bytes, net) \<Rightarrow>
             (case fs_write dest (acc @ bytes) (w\<lparr>remote := net\<rparr>) of
                (Inl e, w) \<Rightarrow> (Inl (Io None e), w)
              | (Inr u, w) \<Rightarrow> copy_ranges B obj url dest n fin (acc @ bytes) w))
      else (Inr (), w))"
  by pat_completeness auto
termination
  by (relation "measure (\<lambda>(B, obj, url, dest, n, offset, acc, w). n - offset)") (auto simp: signed_chunk_def)

declare copy_ranges.simps [simp del]

definition etag_unchanged :: "conditional \<Rightarrow> object_meta \<Rightarrow> bool" where
  "etag_unchanged cond meta =
     (case (cd_etag cond, om_etag meta) of (Some have, Some now) \<Rightarrow> etag_eq have now | _ \<Rightarrow> False)"

definition fetch_object ::
    "('o, 'u, 'r) object_client \<Rightarrow> 'o \<Rightarrow> string \<Rightarrow> string \<Rightarrow> conditional \<Rightarrow> 'r world \<Rightarrow> fetch_result result \<times> 'r world" where
  "fetch_object B obj url dest cond w =
     (case oc_head B obj (remote w) of
        (Inl e, net) \<Rightarrow> (Inl (signed_read_error url e), w\<lparr>remote := net\<rparr>)
      | (Inr meta, net) \<Rightarrow>
          if etag_unchanged cond meta then
            (Inr \<lparr>fr_status = NotModified, fr_etag = om_etag meta, fr_last_modified = None, fr_bytes_written = 0\<rparr>, w\<lparr>remote := net\<rparr>)
          else
            (case fs_write dest [] (w\<lparr>remote := net\<rparr>) of
               (Inl e, w) \<Rightarrow> (Inl (Io None e), w)
             | (Inr u, w) \<Rightarrow>
                 (case copy_ranges B obj url dest (om_size meta) 0 [] w of
                    (Inl e, w) \<Rightarrow> (Inl e, w)
                  | (Inr u, w) \<Rightarrow>
                      (Inr \<lparr>fr_status = Downloaded, fr_etag = om_etag meta, fr_last_modified = None,
                            fr_bytes_written = om_size meta\<rparr>, w))))"

definition fetch_signed ::
    "('o, 'u, 'r) object_client \<Rightarrow> (string \<Rightarrow> string + json) \<Rightarrow> env_vars \<Rightarrow> s3_transport
      \<Rightarrow> string \<Rightarrow> string \<Rightarrow> conditional \<Rightarrow> 'r world \<Rightarrow> fetch_result result \<times> 'r world" where
  "fetch_signed B parse env t url dest cond w =
     (case bucket_of url of
        Inl e \<Rightarrow> (Inl e, w)
      | Inr bucket \<Rightarrow>
          (let region = resolve_region_for_bucket parse env bucket (s3_region t);
               opts = read_store_options parse env url [(''aws_skip_signature'', ''false''), (''aws_region'', region)] in
           case bindR (resolve_backend B url opts) (\<lambda>obj. bindR (object_runtime B) (\<lambda>_. Inr obj)) of
             Inl e \<Rightarrow> (Inl e, w)
           | Inr obj \<Rightarrow> fetch_object B obj url dest cond w))"

section \<open>Fetching\<close>

definition s3_fetch_hashed ::
    "('o, 'u, 'r) object_client \<Rightarrow> 'r http_client \<Rightarrow> (string \<Rightarrow> string) \<Rightarrow> (string \<Rightarrow> string + json) \<Rightarrow> env_vars \<Rightarrow> s3_transport
      \<Rightarrow> ('r world, fetch_result \<times> string option) fetcher" where
  "s3_fetch_hashed B C digest parse env t url dest cond auth w =
     (case bindR (bucket_of url) (\<lambda>bucket. bindR (check_bucket_options parse env) (\<lambda>_. Inr bucket)) of
        Inl e \<Rightarrow> (Inl e, w)
      | Inr bucket \<Rightarrow>
          if signs parse env t bucket then
            (case fetch_signed B parse env t url dest cond w of (Inl e, w) \<Rightarrow> (Inl e, w) | (Inr res, w) \<Rightarrow> (Inr (res, None), w))
          else
            (case s3_https_url url (resolve_region_for_bucket parse env bucket (s3_region t)) of
               Inl e \<Rightarrow> (Inl e, w)
             | Inr https \<Rightarrow> http_fetch_hashed C digest https dest cond auth w))"

definition s3_fetch ::
    "('o, 'u, 'r) object_client \<Rightarrow> 'r http_client \<Rightarrow> (string \<Rightarrow> string) \<Rightarrow> (string \<Rightarrow> string + json) \<Rightarrow> env_vars \<Rightarrow> s3_transport
      \<Rightarrow> ('r world, fetch_result) fetcher" where
  "s3_fetch B C digest parse env t url dest cond auth w =
     (case bindR (bucket_of url) (\<lambda>bucket. bindR (check_bucket_options parse env) (\<lambda>_. Inr bucket)) of
        Inl e \<Rightarrow> (Inl e, w)
      | Inr bucket \<Rightarrow>
          if signs parse env t bucket then fetch_signed B parse env t url dest cond w
          else
            (case s3_https_url url (resolve_region_for_bucket parse env bucket (s3_region t)) of
               Inl e \<Rightarrow> (Inl e, w)
             | Inr https \<Rightarrow> http_fetch C digest https dest cond auth w))"

definition s3_transport_of ::
    "('o, 'u, 'r) object_client \<Rightarrow> 'r http_client \<Rightarrow> (string \<Rightarrow> string) \<Rightarrow> (string \<Rightarrow> string + json) \<Rightarrow> env_vars \<Rightarrow> s3_transport \<Rightarrow> 'r world transport" where
  "s3_transport_of B C digest parse env t =
     \<lparr>tr_schemes = [''s3''], tr_fetch = s3_fetch B C digest parse env t,
      tr_hashed = Some (s3_fetch_hashed B C digest parse env t)\<rparr>"

section \<open>The staging contract\<close>

lemma copy_ranges_Inr:
  "copy_ranges B obj url dest n offset acc w = (Inr u, w') \<Longrightarrow> file_bytes w dest = Some acc \<Longrightarrow> int (length acc) \<le> u64_max \<Longrightarrow>
     \<exists>bs. file_bytes w' dest = Some bs \<and> int (length bs) \<le> u64_max"
proof (induction B obj url dest n offset acc w rule: copy_ranges.induct)
  case (1 B obj url dest n offset acc w)
  show ?case
  proof (cases "offset < n")
    case True
    let ?fin = "min (offset + signed_chunk) n"
    from 1(2) True obtain bytes net w1 where r: "oc_range B obj offset ?fin (remote w) = (Inr bytes, net)"
      "fs_write dest (acc @ bytes) (w\<lparr>remote := net\<rparr>) = (Inr (), w1)" "copy_ranges B obj url dest n ?fin (acc @ bytes) w1 = (Inr u, w')"
      by (subst (asm) copy_ranges.simps) (auto simp: Let_def split: prod.splits sum.splits)
    from fs_write_Inr [OF r(2)] have "file_bytes w1 dest = Some (acc @ bytes)" "int (length (acc @ bytes)) \<le> u64_max"
      by (simp_all add: file_bytes_def)
    from 1(1) [OF True refl r(1) [symmetric] refl r(2) [symmetric] refl r(3) this] show ?thesis .
  next
    case False
    with 1(2-4) show ?thesis by (simp add: copy_ranges.simps [of B obj url dest n])
  qed
qed

context networked_store
begin

lemma copy_ranges_keeps:
  "staging dest \<Longrightarrow> same_entries S v w \<Longrightarrow> copy_ranges B obj url dest n offset acc w = (r, w') \<Longrightarrow> same_entries S v w'"
proof (induction B obj url dest n offset acc w rule: copy_ranges.induct)
  case (1 B obj url dest n offset acc w)
  show ?case
  proof (cases "offset < n")
    case True
    let ?fin = "min (offset + signed_chunk) n"
    obtain x net where x: "oc_range B obj offset ?fin (remote w) = (x, net)" by force
    have net: "same_entries S v (w\<lparr>remote := net\<rparr>)" using same_entries_trans [OF 1(3) network_apart] .
    show ?thesis
    proof (cases x)
      case (Inl e)
      with 1(4) True x net show ?thesis by (subst (asm) copy_ranges.simps) (auto simp: Let_def)
    next
      case (Inr bytes)
      obtain y w1 where y: "fs_write dest (acc @ bytes) (w\<lparr>remote := net\<rparr>) = (y, w1)" by force
      note k = write_staging_keeps [OF 1(2) net y]
      show ?thesis
      proof (cases y)
        case (Inl e)
        with 1(4) True x Inr y k show ?thesis by (subst (asm) copy_ranges.simps) (auto simp: Let_def)
      next
        case y': (Inr u)
        from 1(4) True x Inr y y' have "copy_ranges B obj url dest n ?fin (acc @ bytes) w1 = (r, w')"
          by (subst (asm) copy_ranges.simps) (auto simp: Let_def)
        with 1(1) [OF True refl x [unfolded Inr, symmetric] refl y [unfolded y', symmetric] refl 1(2) k] show ?thesis .
      qed
    qed
  next
    case False
    with 1(3,4) show ?thesis by (simp add: copy_ranges.simps [of B obj url dest n])
  qed
qed

lemma fetch_object_keeps:
  assumes d: "staging dest" and v: "same_entries S v w" and f: "fetch_object B obj url dest cond w = (r, w')"
  shows "same_entries S v w'"
proof -
  obtain x net where x: "oc_head B obj (remote w) = (x, net)" by force
  have n: "same_entries S v (w\<lparr>remote := net\<rparr>)" using same_entries_trans [OF v network_apart] .
  obtain y w1 where y: "fs_write dest [] (w\<lparr>remote := net\<rparr>) = (y, w1)" by force
  note k = write_staging_keeps [OF d n y]
  show ?thesis
  proof (cases x)
    case (Inl e)
    with f x n show ?thesis by (auto simp: fetch_object_def)
  next
    case (Inr meta)
    obtain z w2 where z: "copy_ranges B obj url dest (om_size meta) 0 [] w1 = (z, w2)" by force
    from copy_ranges_keeps [OF d k z] f x Inr n y k z show ?thesis
      by (auto simp: fetch_object_def split: sum.splits if_splits)
  qed
qed

lemma fetch_signed_keeps:
  "staging dest \<Longrightarrow> same_entries S v w \<Longrightarrow> fetch_signed B parse env t url dest cond w = (r, w') \<Longrightarrow> same_entries S v w'"
  by (auto simp: fetch_signed_def Let_def split: sum.splits dest: fetch_object_keeps)

end

lemma fetch_signed_downloads:
  assumes "fetch_signed B parse env t url dest cond w = (Inr res, w')" "fr_status res = Downloaded"
  shows "\<exists>bs. file_bytes w' dest = Some bs \<and> int (length bs) \<le> u64_max"
proof -
  from assms obtain obj net w1 and meta :: object_meta where w1: "fs_write dest [] (w\<lparr>remote := net\<rparr>) = (Inr (), w1)"
    and c: "copy_ranges B obj url dest (om_size meta) 0 [] w1 = (Inr (), w')"
    by (auto simp: fetch_signed_def fetch_object_def Let_def split: sum.splits prod.splits if_splits)
  from fs_write_Inr [OF w1] copy_ranges_Inr [OF c] show ?thesis by (auto simp: file_bytes_def u64_max_def)
qed

sublocale networked_store \<subseteq> s3: staged_transport S staging digest "s3_transport_of B C digest parse env t"
  for digest and B :: "('o, 'u, 'r) object_client" and C parse env t
proof
  fix url dest cond auth w r w'
  assume d: "staging dest" and f: "fetch_hashed (s3_transport_of B C digest parse env t) url dest cond auth w = (r, w')"
  have h: "same_entries S w w1" if "http_fetch_hashed C digest https dest cond auth w = (x, w1)" for https x w1
    using http.fetch_keeps [OF d, of C digest https cond auth w x w1] that by (simp add: fetch_hashed_def http_transport_def)
  from f show "same_entries S w w'"
    by (auto simp: fetch_hashed_def s3_transport_of_def s3_fetch_hashed_def split: sum.splits prod.splits if_splits
        dest: h fetch_signed_keeps [OF d same_entries_refl])
next
  fix url dest cond auth w res sha w'
  assume d: "staging dest" and f: "fetch_hashed (s3_transport_of B C digest parse env t) url dest cond auth w = (Inr (res, sha), w')"
    and r: "fr_status res = Downloaded"
  have h: "\<exists>bytes. file_bytes w' dest = Some bytes \<and> int (length bytes) \<le> u64_max \<and> (\<forall>h. sha = Some h \<longrightarrow> h = sha256_hex digest bytes)"
    if "http_fetch_hashed C digest https dest cond auth w = (Inr (res, sha), w')" for https
    using http.fetch_downloads [OF d, of C digest https cond auth w res sha w'] that r by (simp add: fetch_hashed_def http_transport_def)
  from f r show "\<exists>bytes. file_bytes w' dest = Some bytes \<and> int (length bytes) \<le> u64_max \<and> (\<forall>h. sha = Some h \<longrightarrow> h = sha256_hex digest bytes)"
    by (auto simp: fetch_hashed_def s3_transport_of_def s3_fetch_hashed_def split: sum.splits prod.splits if_splits
        dest: h fetch_signed_downloads)
qed

end
