(* ===== verification/S3Props.thy ===== *)
theory S3Props
  imports S3
begin

text \<open>
  What the \<open>s3\<close> transport promises: credentials that a platform injects never make an anonymous read a signed
  one; a signed read of an object that stays the same stages exactly that object, whatever its size; and what
  happens when the object is replaced while its ranges are read.
\<close>

section \<open>Who is signed\<close>

definition ambient_vars :: "env_vars \<Rightarrow> bool" where
  "ambient_vars extra \<longleftrightarrow> silent_vars extra \<and> list_all (\<lambda>(k, v). k \<noteq> signed_buckets_env) extra"

lemma signed_buckets_ambient: "ambient_vars extra \<Longrightarrow> signed_buckets_from_env (env @ extra) = signed_buckets_from_env env"
proof -
  assume "ambient_vars extra"
  then have "map_of extra signed_buckets_env = None" by (auto simp: ambient_vars_def list_all_iff map_of_eq_None_iff)
  then show ?thesis by (simp add: signed_buckets_from_env_def map_add_def split: option.split)
qed

lemma direct_read_not_s3: "\<not> is_s3_url url \<Longrightarrow> direct_read_options parse env url expl = merged_options parse env url expl"
  by (simp add: direct_read_options_def read_store_options_def apply_s3_defaults_def Let_def)

text \<open>C30: variables that a platform adds to the environment of a process (roles, tokens, access keys: anything that does not name
  a bucket, an endpoint or the signing switch) decide nothing about signing. The transport signs for the same
  buckets as without them, and as long as no endpoint is configured the options of a direct read say the same
  about signing as without them.\<close>

theorem ambient_identity_never_signs:
  assumes "ambient_vars extra" and "\<not> has_any (merged_options parse env url expl) s3_endpoint_keys"
  shows "signs parse (env @ extra) (s3_new (env @ extra)) bucket = signs parse env (s3_new env) bucket \<and>
    about_signing (direct_read_options parse (env @ extra) url expl) = about_signing (direct_read_options parse env url expl)"
proof
  have s: "silent_vars extra" using assms(1) by (simp add: ambient_vars_def)
  show "signs parse (env @ extra) (s3_new (env @ extra)) bucket = signs parse env (s3_new env) bucket"
    by (simp add: signs_def s3_new_def signed_buckets_ambient [OF assms(1)] silent_buckets [OF s])
  have "set s3_endpoint_keys \<subseteq> set (s3_signing_keys @ s3_endpoint_keys)" "set s3_signing_keys \<subseteq> set (s3_signing_keys @ s3_endpoint_keys)"
    by auto
  note same = merged_silent [OF s this(1)] merged_silent [OF s this(2)]
  show "about_signing (direct_read_options parse (env @ extra) url expl) = about_signing (direct_read_options parse env url expl)"
  proof (cases "is_s3_url url")
    case True
    with assms(2) same show ?thesis by (simp add: direct_read_signing merged_about_signing [OF s] silent_url [OF s])
  qed (simp add: direct_read_not_s3 merged_about_signing [OF s])
qed

definition task_role :: env_vars where
  "task_role = [(''AWS_CONTAINER_CREDENTIALS_RELATIVE_URI'', ''/v2/credentials''), (''AWS_ACCESS_KEY_ID'', ''AKIA''),
     (''AWS_SECRET_ACCESS_KEY'', ''k'')]"

theorem ambient_identity_never_signs_witness:
  "\<not> signs (\<lambda>t. Inl t) task_role (s3_new task_role) ''inmap-model'' \<and>
   about_signing (direct_read_options (\<lambda>t. Inl t) task_role ''s3://inmap-model/isrm.zarr'' []) = [anonymous_read]"
proof -
  have a: "ambient_vars task_role" "\<not> has_any (merged_options (\<lambda>t. Inl t) [] ''s3://inmap-model/isrm.zarr'' []) s3_endpoint_keys"
    "\<not> signs (\<lambda>t. Inl t) [] (s3_new []) ''inmap-model''"
    "about_signing (direct_read_options (\<lambda>t. Inl t) [] ''s3://inmap-model/isrm.zarr'' []) = [anonymous_read]" by code_simp+
  from ambient_identity_never_signs [OF a(1,2), of "''inmap-model''"] a(3,4) show ?thesis by simp
qed

section \<open>A signed read of a steady object\<close>

text \<open>An object that does not change: its head gives its size and tag, a range its bytes there.\<close>

locale steady_object =
  fixes B :: "('o, 'u, 'r) object_client" and obj :: 'o and body :: string and tag :: "string option"
  assumes steady_head: "fst (oc_head B obj net) = Inr \<lparr>om_size = length body, om_etag = tag\<rparr>"
    and steady_range: "a \<le> b \<Longrightarrow> b \<le> length body \<Longrightarrow> fst (oc_range B obj a b net) = Inr (take (b - a) (drop a body))"
begin

lemma copy_ranges_steady:
  assumes "offset \<le> length body" "acc = take offset body" "file_bytes w dest = Some acc"
    and "fault w dest = None" "int (length body) \<le> u64_max"
  shows "\<exists>w'. copy_ranges B obj url dest (length body) offset acc w = (Inr (), w') \<and> file_bytes w' dest = Some body"
  using assms
proof (induction "length body - offset" arbitrary: offset acc w rule: less_induct)
  case less
  show ?case
  proof (cases "offset < length body")
    case True
    let ?fin = "min (offset + signed_chunk) (length body)"
    have e: "offset < ?fin" "?fin \<le> length body" using True by (auto simp: signed_chunk_def)
    obtain net where r: "oc_range B obj offset ?fin (remote w) = (Inr (take (?fin - offset) (drop offset body)), net)"
      using steady_range [of offset ?fin "remote w"] e by (cases "oc_range B obj offset ?fin (remote w)") simp
    let ?w = "w\<lparr>remote := net\<rparr>"
    have acc: "acc @ take (?fin - offset) (drop offset body) = take ?fin body"
      using less.prems(2) e by (metis less_imp_le take_add le_add_diff_inverse)
    have "map_of (nodes w) dest \<noteq> Some DirNode" using less.prems(3) by (auto simp: file_bytes_def)
    moreover have "int (length (take ?fin body)) \<le> u64_max" using less.prems(5) by simp
    ultimately obtain w1 where w1: "fs_write dest (take ?fin body) ?w = (Inr (), w1)"
      using less.prems(4) by (auto simp: fs_write_def)
    from fs_write_Inr [OF w1] have "file_bytes w1 dest = Some (take ?fin body)" "fault w1 dest = None"
      using less.prems(4) by (simp_all add: file_bytes_def)
    moreover have "length body - ?fin < length body - offset" using e True by linarith
    ultimately obtain w' where
      "copy_ranges B obj url dest (length body) ?fin (take ?fin body) w1 = (Inr (), w')" "file_bytes w' dest = Some body"
      using less.hyps [OF _ e(2) refl _ _ less.prems(5)] by blast
    then show ?thesis using True r w1 acc by (subst copy_ranges.simps) (simp add: Let_def)
  next
    case False
    then show ?thesis using less.prems by (subst copy_ranges.simps) simp
  qed
qed

lemma fetch_object_steady:
  assumes "fault w dest = None" "map_of (nodes w) dest \<noteq> Some DirNode" "int (length body) \<le> u64_max"
    and "\<not> etag_unchanged cond \<lparr>om_size = length body, om_etag = tag\<rparr>"
  shows "\<exists>w'. fetch_object B obj url dest cond w =
      (Inr \<lparr>fr_status = Downloaded, fr_etag = tag, fr_last_modified = None, fr_bytes_written = length body\<rparr>, w') \<and>
    file_bytes w' dest = Some body"
proof -
  obtain net where h: "oc_head B obj (remote w) = (Inr \<lparr>om_size = length body, om_etag = tag\<rparr>, net)"
    using steady_head [of "remote w"] by (cases "oc_head B obj (remote w)") simp
  obtain w1 where w1: "fs_write dest [] (w\<lparr>remote := net\<rparr>) = (Inr (), w1)"
    using assms(1,2) by (auto simp: fs_write_def u64_max_def)
  from fs_write_Inr [OF w1] have "file_bytes w1 dest = Some []" "fault w1 dest = None"
    using assms(1) by (simp_all add: file_bytes_def)
  from copy_ranges_steady [of 0 "[]", OF _ _ this assms(3)] obtain w' where
    "copy_ranges B obj url dest (length body) 0 [] w1 = (Inr (), w')" "file_bytes w' dest = Some body" by auto
  with h w1 assms(4) show ?thesis by (simp add: fetch_object_def)
qed

end

text \<open>The objects of a bucket kept in a list, as a client sees them; the state counts the requests.\<close>

definition bucket_client :: "(string \<times> string) list \<Rightarrow> (string, string, nat) object_client" where
  "bucket_client objs =
     \<lparr>oc_url = Inr, oc_open = (\<lambda>u opts. Inr u), oc_runtime = None,
      oc_head = (\<lambda>k n. (case map_of objs k of None \<Rightarrow> Inl (NoSuchObject k)
        | Some b \<Rightarrow> Inr \<lparr>om_size = length b, om_etag = Some k\<rparr>, Suc n)),
      oc_range = (\<lambda>k x y n. (case map_of objs k of None \<Rightarrow> Inl (NoSuchObject k) | Some b \<Rightarrow> Inr (take (y - x) (drop x b)), Suc n))\<rparr>"

lemma bucket_steady: "map_of objs k = Some b \<Longrightarrow> steady_object (bucket_client objs) k b (Some k)"
  by unfold_locales (simp_all add: bucket_client_def)

definition one_object :: "(string \<times> string) list" where
  "one_object = [(''s3://b/k'', ''abcde'')]"

interpretation one_object: steady_object "bucket_client one_object" "''s3://b/k''" "''abcde''" "Some ''s3://b/k''"
  by (rule bucket_steady) (simp add: one_object_def)

text \<open>C31: a signed read stages the whole object. For an object of any size that stays the same while it is read, and a
  staging file that can be written, the fetch succeeds unless the tag of the request is the object's own; it takes
  the object in ranges and the staging file ends up with exactly its bytes.\<close>

theorem signed_read_stages_object:
  assumes "steady_object B obj body tag" and "resolve_backend B url (read_store_options parse env url
      [(''aws_skip_signature'', ''false''), (''aws_region'', resolve_region_for_bucket parse env bucket (s3_region t))]) = Inr obj"
    and "oc_runtime B = None" and "bucket_of url = Inr bucket" and "check_bucket_options parse env = Inr ()" and "signs parse env t bucket"
    and "fault w dest = None" and "map_of (nodes w) dest \<noteq> Some DirNode" and "int (length body) \<le> u64_max"
    and "\<not> etag_unchanged cond \<lparr>om_size = length body, om_etag = tag\<rparr>"
  shows "\<exists>w'. s3_fetch_hashed B C digest parse env t url dest cond auth w =
      (Inr (\<lparr>fr_status = Downloaded, fr_etag = tag, fr_last_modified = None, fr_bytes_written = length body\<rparr>, None), w') \<and>
    file_bytes w' dest = Some body"
proof -
  obtain w' where "fetch_object B obj url dest cond w =
      (Inr \<lparr>fr_status = Downloaded, fr_etag = tag, fr_last_modified = None, fr_bytes_written = length body\<rparr>, w')"
    "file_bytes w' dest = Some body"
    using steady_object.fetch_object_steady [OF assms(1,7-10)] by blast
  with assms(2-6) show ?thesis by (simp add: s3_fetch_hashed_def fetch_signed_def object_runtime_def Let_def)
qed

definition quiet_client :: "nat http_client" where
  "quiet_client = \<lparr>hc_send = (\<lambda>q n. (Inl ''no route'', Suc n)), hc_text = (\<lambda>r. Inr []), hc_name = Some, hc_value = Some,
     hc_to_str = Some, hc_copy_error = io_text\<rparr>"

definition blank_world :: "nat world" where
  "blank_world = \<lparr>nodes = [], fault = (\<lambda>_. None), clock = 0, fresh = 0, remote = 0\<rparr>"

definition naming_env :: env_vars where
  "naming_env = [(''EARTHSCI_S3_SIGNED_BUCKETS'', ''b'')]"

theorem signed_read_stages_object_witness:
  "\<exists>w'. s3_fetch_hashed (bucket_client one_object) quiet_client (\<lambda>s. s) (\<lambda>t. Inl t) naming_env (s3_new naming_env)
      ''s3://b/k'' ''/p'' no_conditional None blank_world =
    (Inr (\<lparr>fr_status = Downloaded, fr_etag = Some ''s3://b/k'', fr_last_modified = None, fr_bytes_written = 5\<rparr>, None), w') \<and>
    file_bytes w' ''/p'' = Some ''abcde''"
proof -
  have r: "resolve_backend (bucket_client one_object) ''s3://b/k'' opts = Inr ''s3://b/k''" "oc_runtime (bucket_client one_object) = None" for opts
    by (simp_all add: resolve_backend_def bucket_client_def)
  have b: "bucket_of ''s3://b/k'' = Inr ''b''" "check_bucket_options (\<lambda>t. Inl t) naming_env = Inr ()"
    "signs (\<lambda>t. Inl t) naming_env (s3_new naming_env) ''b''" by code_simp+
  have w: "fault blank_world ''/p'' = None" "map_of (nodes blank_world) ''/p'' \<noteq> Some DirNode" "int (length ''abcde'') \<le> u64_max"
    "\<not> etag_unchanged no_conditional \<lparr>om_size = length ''abcde'', om_etag = Some ''s3://b/k''\<rparr>"
    by (simp_all add: blank_world_def u64_max_def etag_unchanged_def no_conditional_def)
  have "length ''abcde'' = 5" by simp
  with signed_read_stages_object [OF one_object.steady_object_axioms r b w] show ?thesis by metis
qed

section \<open>An object that is replaced\<close>

text \<open>A key that holds \<open>a\<close> for the head and the first range and \<open>b\<close> from then on; the state counts the requests.\<close>

definition replaced_client :: "string \<Rightarrow> string \<Rightarrow> (string, string, nat) object_client" where
  "replaced_client a b =
     \<lparr>oc_url = Inr, oc_open = (\<lambda>u opts. Inr u), oc_runtime = None,
      oc_head = (\<lambda>k n. (Inr \<lparr>om_size = length a, om_etag = Some ''v1''\<rparr>, Suc n)),
      oc_range = (\<lambda>k x y n. (Inr (take (y - x) (drop x (if n \<le> 1 then a else b))), Suc n))\<rparr>"

text \<open>C32: the ranges of a signed read are not tied to the version whose head was read. When an object of more than one and at most two
  ranges is replaced, between the two, by another of the same length, the fetch succeeds, reports the tag of the
  first version, and stages the first range of the one with the rest of the other: the content of neither.\<close>

theorem signed_read_tears:
  assumes "length b = length a" and "signed_chunk < length a" and "length a \<le> 2 * signed_chunk" and "int (length a) \<le> u64_max"
    and "fault w dest = None" and "map_of (nodes w) dest \<noteq> Some DirNode" and "remote w = 0"
  shows "\<exists>w'. fetch_object (replaced_client a b) url url dest no_conditional w =
      (Inr \<lparr>fr_status = Downloaded, fr_etag = Some ''v1'', fr_last_modified = None, fr_bytes_written = length a\<rparr>, w') \<and>
    file_bytes w' dest = Some (take signed_chunk a @ drop signed_chunk b)"
proof -
  let ?B = "replaced_client a b" let ?n = "length a" let ?c = "signed_chunk"
  have B: "oc_head ?B k m = (Inr \<lparr>om_size = ?n, om_etag = Some ''v1''\<rparr>, Suc m)"
    "oc_range ?B k x y m = (Inr (take (y - x) (drop x (if m \<le> 1 then a else b))), Suc m)" for k x y m
    by (simp_all add: replaced_client_def)
  have put: "fs_write dest t v = (Inr (), v\<lparr>nodes := al_put dest (FileNode t (Some (clock v))) (nodes v)\<rparr>)"
    if "fault v dest = None" "map_of (nodes v) dest \<noteq> Some DirNode" "length t \<le> ?n" for t and v :: "nat world"
    using that assms(4) by (simp add: fs_write_def)
  have pos: "0 < ?c" by (simp add: signed_chunk_def)
  have e: "min (0 + ?c) ?n = ?c" "min (?c + ?c) ?n = ?n" "0 < ?n" using assms(2,3) pos by auto
  have rest: "take (?n - ?c) (drop ?c b) = drop ?c b" using assms(1) by simp
  have last: "copy_ranges ?B url url dest ?n ?n acc v = (Inr (), v)" for acc v by (subst copy_ranges.simps) simp
  have second: "copy_ranges ?B url url dest ?n ?c (take ?c a) v =
      (Inr (), v\<lparr>remote := Suc (remote v), nodes := al_put dest (FileNode (take ?c a @ drop ?c b) (Some (clock v))) (nodes v)\<rparr>)"
    if "fault v dest = None" "map_of (nodes v) dest \<noteq> Some DirNode" "remote v = 2" for v
    using that assms(1,2) by (subst copy_ranges.simps) (simp add: Let_def e B rest put last)
  have first: "copy_ranges ?B url url dest ?n 0 [] v = copy_ranges ?B url url dest ?n ?c (take ?c a)
      (v\<lparr>remote := Suc (remote v), nodes := al_put dest (FileNode (take ?c a) (Some (clock v))) (nodes v)\<rparr>)"
    if "fault v dest = None" "map_of (nodes v) dest \<noteq> Some DirNode" "remote v = 1" for v
    using that assms(2) e(1,3) by (subst copy_ranges.simps) (simp add: Let_def B put)
  show ?thesis using assms(5-7)
    by (simp add: fetch_object_def B put etag_unchanged_def no_conditional_def first second file_bytes_def)
qed

theorem signed_read_tears_witness:
  "\<exists>w'. fetch_object (replaced_client (replicate (signed_chunk + 1) CHR ''x'') (replicate (signed_chunk + 1) CHR ''y''))
      ''s3://b/k'' ''s3://b/k'' ''/p'' no_conditional blank_world =
      (Inr \<lparr>fr_status = Downloaded, fr_etag = Some ''v1'', fr_last_modified = None, fr_bytes_written = signed_chunk + 1\<rparr>, w') \<and>
    file_bytes w' ''/p'' = Some (replicate signed_chunk CHR ''x'' @ ''y'')"
proof -
  let ?a = "replicate (signed_chunk + 1) CHR ''x''" and ?b = "replicate (signed_chunk + 1) CHR ''y''"
  have "length ?b = length ?a" "signed_chunk < length ?a" "length ?a \<le> 2 * signed_chunk" "int (length ?a) \<le> u64_max"
    by (simp_all add: signed_chunk_def u64_max_def)
  from signed_read_tears [OF this, of blank_world "''/p''" "''s3://b/k''"]
  have "\<exists>w'. fetch_object (replaced_client ?a ?b) ''s3://b/k'' ''s3://b/k'' ''/p'' no_conditional blank_world =
      (Inr \<lparr>fr_status = Downloaded, fr_etag = Some ''v1'', fr_last_modified = None, fr_bytes_written = length ?a\<rparr>, w') \<and>
    file_bytes w' ''/p'' = Some (take signed_chunk ?a @ drop signed_chunk ?b)"
    by (simp add: blank_world_def del: replicate_Suc)
  moreover have "take signed_chunk ?a = replicate signed_chunk CHR ''x''" "drop signed_chunk ?b = ''y''" "length ?a = signed_chunk + 1"
    by (simp_all del: replicate_Suc) simp
  ultimately show ?thesis by metis
qed

end
