(* ===== verification/Cds.thy ===== *)
theory Cds
  imports Http S3
begin

text \<open>
  The \<open>cds\<close> transport (\<open>rust/src/transport/cds.rs\<close>): a request is submitted as a job, the job is polled until it
  ends, the results name an asset, and the asset is downloaded.

  The polling loop is a partial function: nothing in it bounds the number of polls but the clock. Time is the
  record \<open>timer\<close> over the state of the network: what a monotonic clock shows, and sleeping. Durations are
  nanoseconds.
\<close>

section \<open>URLs and keys\<close>

definition build_cds_url :: "string \<Rightarrow> string \<Rightarrow> string" where
  "build_cds_url dataset req = ''cds://'' @ dataset @ ''?'' @ req"

definition parse_cds_url :: "(string \<Rightarrow> string + json) \<Rightarrow> string \<Rightarrow> (string \<times> string) result" where
  "parse_cds_url parse url =
     (case strip_prefix ''cds://'' url of
        None \<Rightarrow> Inl (BadUrl url ''not a cds:// URL'')
      | Some rest \<Rightarrow>
          (case split_once ''?'' rest of
             None \<Rightarrow> Inl (BadUrl url (''cds:// URL missing '' @ sq ''?<request-json>''))
           | Some (dataset, req) \<Rightarrow>
               if dataset = [] then Inl (BadUrl url ''cds:// URL has an empty dataset'')
               else if req = [] then Inl (BadUrl url ''cds:// URL has an empty request'')
               else
                 (case parse req of
                    Inl e \<Rightarrow> Inl (BadUrl url (''cds:// request is not JSON: '' @ e))
                  | Inr v \<Rightarrow> if as_object v = None then Inl (BadUrl url ''cds:// request must be a JSON object'') else Inr (dataset, req))))"

definition cdsapirc_line :: "string \<Rightarrow> string option" where
  "cdsapirc_line line =
     Option.bind (strip_prefix ''key:'' (dropWhile is_space line)) (\<lambda>rest. if trim rest \<noteq> [] then Some (trim rest) else None)"

fun first_some :: "('a \<Rightarrow> 'b option) \<Rightarrow> 'a list \<Rightarrow> 'b option" where
  "first_some f [] = None"
| "first_some f (x # xs) = (case f x of Some y \<Rightarrow> Some y | None \<Rightarrow> first_some f xs)"

definition parse_cdsapirc_key :: "string \<Rightarrow> string option" where
  "parse_cdsapirc_key contents = first_some cdsapirc_line (str_lines contents)"

definition read_cdsapirc_key :: "string \<Rightarrow> 'r world \<Rightarrow> string option result" where
  "read_cdsapirc_key path w =
     (case fs_read path w of
        Inr contents \<Rightarrow> Inr (parse_cdsapirc_key contents)
      | Inl e \<Rightarrow> if io_kind e = IoNotFound then Inr None else Inl (Io (Some path) e))"

definition no_cds_key :: error where
  "no_cds_key = Transport ''cds://'' (''CDS API key not found: set CDSAPI_KEY or create ~/.cdsapirc with '' @ sq ''key: <your-key>'')"

definition cds_api_key :: "(string \<Rightarrow> string option) \<Rightarrow> 'r world \<Rightarrow> string result" where
  "cds_api_key env w =
     (case Option.bind (env ''CDSAPI_KEY'') (\<lambda>k. if trim k \<noteq> [] then Some (trim k) else None) of
        Some k \<Rightarrow> Inr k
      | None \<Rightarrow>
          (case env ''HOME'' of
             None \<Rightarrow> Inl no_cds_key
           | Some home \<Rightarrow>
               bindR (read_cdsapirc_key (path_join home ''.cdsapirc'') w) (\<lambda>k.
                 case k of Some k \<Rightarrow> Inr k | None \<Rightarrow> Inl no_cds_key)))"

definition cds_auth :: "(string \<Rightarrow> string option) \<Rightarrow> 'r world \<Rightarrow> resolver result" where
  "cds_auth env w = bindR (cds_api_key env w) (\<lambda>k. Inr (header_auth ''cds'' ''PRIVATE-TOKEN'' k))"

section \<open>The transport\<close>

record 'r timer =
  tm_now :: "'r \<Rightarrow> nat"
  tm_sleep :: "nat \<Rightarrow> 'r \<Rightarrow> 'r"
  tm_debug :: "nat \<Rightarrow> string"

record 'r cds_transport =
  cds_client :: "'r http_client"
  cds_parse :: "string \<Rightarrow> string + json"
  cds_timer :: "'r timer"
  cds_base :: string
  cds_poll :: nat
  cds_timeout :: nat

definition cds_with_client :: "'r http_client \<Rightarrow> (string \<Rightarrow> string + json) \<Rightarrow> 'r timer \<Rightarrow> string \<Rightarrow> 'r cds_transport" where
  "cds_with_client C parse tm base =
     \<lparr>cds_client = C, cds_parse = parse, cds_timer = tm, cds_base = rev (dropWhile (\<lambda>c. c = CHR ''/'') (rev base)),
      cds_poll = 5 * 1000000000, cds_timeout = 600 * 1000000000\<rparr>"

definition json_get :: "json \<Rightarrow> string \<Rightarrow> json option" where
  "json_get v k = Option.bind (as_object v) (\<lambda>kvs. map_of kvs k)"

definition job_status :: "json \<Rightarrow> string" where
  "job_status v = (case Option.bind (json_get v ''status'') as_str of Some s \<Rightarrow> s | None \<Rightarrow> [])"

text \<open>What the three exchanges with the API share: the answer's text, which must come with a success and be JSON.\<close>

definition cds_exchange :: "'r cds_transport \<Rightarrow> string \<Rightarrow> string \<Rightarrow> http_request \<Rightarrow> 'r world \<Rightarrow> (string \<times> json) result \<times> 'r world" where
  "cds_exchange T url what q w =
     (case send_request (cds_client T) q w of
        (Inl e, w) \<Rightarrow> (Inl (Transport url e), w)
      | (Inr resp, w) \<Rightarrow>
          (case hc_text (cds_client T) resp of
             Inl e \<Rightarrow> (Inl (Transport url e), w)
           | Inr text \<Rightarrow>
               if \<not> is_success (hr_status resp) then
                 (Inl (Transport url (what @ '' HTTP '' @ show_nat (hr_status resp) @ '': '' @ text)), w)
               else
                 (case cds_parse T text of
                    Inl e \<Rightarrow> (Inl (Transport url (what @ '' response not JSON: '' @ e)), w)
                  | Inr v \<Rightarrow> (Inr (text, v), w))))"

definition cds_submit :: "'r cds_transport \<Rightarrow> string \<Rightarrow> string \<Rightarrow> string \<Rightarrow> (string \<times> string) list \<Rightarrow> 'r world \<Rightarrow> string result \<times> 'r world" where
  "cds_submit T url dataset req auth w =
     (case cds_exchange T url ''submit'' \<lparr>hq_method = Post,
          hq_url = cds_base T @ ''/retrieve/v1/processes/'' @ dataset @ ''/execution'',
          hq_headers = al_put ''content-type'' ''application/json'' auth, hq_body = ''{\"inputs\":'' @ req @ ''}''\<rparr> w of
        (Inl e, w) \<Rightarrow> (Inl e, w)
      | (Inr (text, v), w) \<Rightarrow>
          if job_status v \<notin> {''accepted'', ''running'', ''successful''} then
            (Inl (Transport url (''CDS submit rejected: '' @ text)), w)
          else
            (case Option.bind (json_get v ''jobID'') as_str of
               None \<Rightarrow> (Inl (Transport url (''submit response missing jobID: '' @ text)), w)
             | Some job \<Rightarrow> (Inr job, w)))"

definition results_href :: "'r cds_transport \<Rightarrow> string \<Rightarrow> string \<Rightarrow> (string \<times> string) list \<Rightarrow> 'r world \<Rightarrow> string result \<times> 'r world" where
  "results_href T url job_url auth w =
     (case cds_exchange T url ''results'' (get_request (job_url @ ''/results'') auth) w of
        (Inl e, w) \<Rightarrow> (Inl e, w)
      | (Inr (text, v), w) \<Rightarrow>
          (case Option.bind (Option.bind (Option.bind (json_get v ''asset'') (\<lambda>a. json_get a ''value'')) (\<lambda>a. json_get a ''href'')) as_str of
             None \<Rightarrow> (Inl (Transport url (''results missing asset.value.href: '' @ text)), w)
           | Some href \<Rightarrow> (Inr href, w)))"

definition job_url :: "'r cds_transport \<Rightarrow> string \<Rightarrow> string" where
  "job_url T job = cds_base T @ ''/retrieve/v1/jobs/'' @ job"

definition cds_now :: "'r cds_transport \<Rightarrow> 'r world \<Rightarrow> nat" where
  "cds_now T w = tm_now (cds_timer T) (remote w)"

definition cds_sleep :: "'r cds_transport \<Rightarrow> 'r world \<Rightarrow> 'r world" where
  "cds_sleep T w = w\<lparr>remote := tm_sleep (cds_timer T) (cds_poll T) (remote w)\<rparr>"

partial_function (option) wait_loop ::
    "'r cds_transport \<Rightarrow> string \<Rightarrow> string \<Rightarrow> (string \<times> string) list \<Rightarrow> nat \<Rightarrow> 'r world \<Rightarrow> (string result \<times> 'r world) option" where
  "wait_loop T url job auth start w =
     (case cds_exchange T url ''poll'' (get_request (job_url T job) auth) w of
        (Inl e, w) \<Rightarrow> Some (Inl e, w)
      | (Inr (text, v), w) \<Rightarrow>
          if job_status v = ''successful'' then Some (results_href T url (job_url T job) auth w)
          else if job_status v = ''failed'' then
            Some (Inl (Transport url (''CDS job '' @ job @ '' failed: '' @ text)), w)
          else if cds_timeout T < cds_now T w - start then
            Some (Inl (Transport url (''CDS job '' @ job @ '' timed out after '' @ tm_debug (cds_timer T) (cds_timeout T))), w)
          else wait_loop T url job auth start (cds_sleep T w))"

definition cds_wait :: "'r cds_transport \<Rightarrow> string \<Rightarrow> string \<Rightarrow> (string \<times> string) list \<Rightarrow> 'r world \<Rightarrow> (string result \<times> 'r world) option" where
  "cds_wait T url job auth w = wait_loop T url job auth (cds_now T w) w"

definition cds_download :: "'r cds_transport \<Rightarrow> (string \<Rightarrow> string) \<Rightarrow> string \<Rightarrow> string \<Rightarrow> string \<Rightarrow> 'r world \<Rightarrow> (nat \<times> string) result \<times> 'r world" where
  "cds_download T digest url href dest w =
     (case send_request (cds_client T) (get_request href []) w of
        (Inl e, w) \<Rightarrow> (Inl (Transport url e), w)
      | (Inr resp, w) \<Rightarrow>
          if \<not> is_success (hr_status resp) then
            (Inl (Transport url (''download HTTP '' @ show_nat (hr_status resp) @ '' from '' @ href)), w)
          else stream_body (cds_client T) digest url dest resp w)"

definition cds_fetch_hashed ::
    "'r cds_transport \<Rightarrow> (string \<Rightarrow> string) \<Rightarrow> string \<Rightarrow> string \<Rightarrow> conditional \<Rightarrow> resolver option \<Rightarrow> 'r world
      \<Rightarrow> ((fetch_result \<times> string option) result \<times> 'r world) option" where
  "cds_fetch_hashed T digest url dest cond auth w =
     (case bindR (parse_cds_url (cds_parse T) url) (\<lambda>(dataset, req).
          bindR (put_credentials (cds_client T) url (resolver_headers auth) []) (\<lambda>hs. Inr (dataset, req, hs))) of
        Inl e \<Rightarrow> Some (Inl e, w)
      | Inr (dataset, req, hs) \<Rightarrow>
          (case cds_submit T url dataset req hs w of
             (Inl e, w) \<Rightarrow> Some (Inl e, w)
           | (Inr job, w) \<Rightarrow>
               (case cds_wait T url job hs w of
                  None \<Rightarrow> None
                | Some (Inl e, w) \<Rightarrow> Some (Inl e, w)
                | Some (Inr href, w) \<Rightarrow>
                    (case cds_download T digest url href dest w of
                       (Inl e, w) \<Rightarrow> Some (Inl e, w)
                     | (Inr (n, sha), w) \<Rightarrow>
                         Some (Inr (\<lparr>fr_status = Downloaded, fr_etag = None, fr_last_modified = None, fr_bytes_written = n\<rparr>, Some sha), w)))))"

end
