(* ===== verification/CdsProps.thy ===== *)
theory CdsProps
  imports Cds
begin

text \<open>
  What the \<open>cds\<close> transport promises: a fetch ends, after a number of requests that the polling interval and the
  budget bound; and the credential it is given goes nowhere but to the API.
\<close>

section \<open>A fetch ends\<close>

text \<open>A network on which time does not run backwards, sleeping takes at least as long as it was asked to, and requests can be
  counted.\<close>

locale paced_network =
  fixes C :: "'r http_client" and tm :: "'r timer" and reqs :: "'r \<Rightarrow> nat"
  assumes send_counts: "reqs (snd (hc_send C q r)) = Suc (reqs r)"
    and send_time: "tm_now tm r \<le> tm_now tm (snd (hc_send C q r))"
    and sleep_counts: "reqs (tm_sleep tm d r) = reqs r"
    and sleep_time: "tm_now tm r + d \<le> tm_now tm (tm_sleep tm d r)"
begin

lemma exchange_counts:
  assumes "cds_client T = C" "cds_exchange T url what q w = (r, w')"
  shows "reqs (remote w') = Suc (reqs (remote w))" and "cds_timer T = tm \<Longrightarrow> cds_now T w \<le> cds_now T w'"
proof -
  have "remote w' = snd (hc_send C q (remote w))"
    using assms by (auto simp: cds_exchange_def send_request_def split: prod.splits sum.splits if_splits)
  then show "reqs (remote w') = Suc (reqs (remote w))" and "cds_timer T = tm \<Longrightarrow> cds_now T w \<le> cds_now T w'"
    using send_counts send_time by (simp_all add: cds_now_def)
qed

lemma results_counts:
  assumes C: "cds_client T = C" and r: "results_href T url ju hs w = (r, w')"
  shows "reqs (remote w') = Suc (reqs (remote w))"
proof -
  obtain x w1 where x: "cds_exchange T url ''results'' (get_request (ju @ ''/results'') hs) w = (x, w1)" by force
  with r have "w' = w1" by (auto simp: results_href_def split: sum.splits prod.splits option.splits)
  with exchange_counts(1) [OF C x] show ?thesis by simp
qed

lemma submit_counts:
  assumes C: "cds_client T = C" and r: "cds_submit T url ds req hs w = (r, w')"
  shows "reqs (remote w') = Suc (reqs (remote w))"
proof -
  let ?q = "\<lparr>hq_method = Post, hq_url = cds_base T @ ''/retrieve/v1/processes/'' @ ds @ ''/execution'',
      hq_headers = al_put ''content-type'' ''application/json'' hs, hq_body = ''{\"inputs\":'' @ req @ ''}''\<rparr>"
  obtain x w1 where x: "cds_exchange T url ''submit'' ?q w = (x, w1)" by force
  with r have "w' = w1" by (auto simp: cds_submit_def split: sum.splits prod.splits option.splits if_splits)
  with exchange_counts(1) [OF C x] show ?thesis by simp
qed

lemma download_counts: "cds_client T = C \<Longrightarrow> cds_download T digest url href dest w = (r, w') \<Longrightarrow> reqs (remote w') = Suc (reqs (remote w))"
proof -
  assume C: "cds_client T = C" and d: "cds_download T digest url href dest w = (r, w')"
  obtain x net where x: "hc_send C (get_request href []) (remote w) = (x, net)" by force
  then have n: "reqs net = Suc (reqs (remote w))" using send_counts [of "get_request href []" "remote w"] by simp
  from d have "remote w' = net"
    using stream_body_remote [of C digest url dest _ "w\<lparr>remote := net\<rparr>"]
    by (cases x) (auto simp: cds_download_def C send_request_def x split: if_splits)
  with n show "reqs (remote w') = Suc (reqs (remote w))" by simp
qed

lemma wait_loop_ends:
  assumes T: "cds_client T = C" "cds_timer T = tm" "0 < cds_poll T"
    and k: "start + k * cds_poll T \<le> cds_now T w" "k + n = cds_timeout T div cds_poll T + 2" "0 < n"
  shows "\<exists>r w'. wait_loop T url job hs start w = Some (r, w') \<and> reqs (remote w') \<le> reqs (remote w) + n + 1"
  using k
proof (induction n arbitrary: k w)
  case (Suc n)
  obtain x w1 where x: "cds_exchange T url ''poll'' (get_request (job_url T job) hs) w = (x, w1)" by force
  note c = exchange_counts [OF T(1) x] and step = wait_loop.simps [of T url job hs start w]
  show ?case
  proof (cases x)
    case (Inl e)
    with x c(1) show ?thesis by (subst step) simp
  next
    case (Inr tv)
    obtain body v where tv: "tv = (body, v)" by (cases tv)
    consider "job_status v = ''successful''" | "job_status v \<noteq> ''successful''" "job_status v = ''failed'' \<or> cds_timeout T < cds_now T w1 - start"
      | "job_status v \<noteq> ''successful''" "job_status v \<noteq> ''failed''" "cds_now T w1 - start \<le> cds_timeout T" by linarith
    then show ?thesis
    proof cases
      case 1
      obtain r w2 where r: "results_href T url (job_url T job) hs w1 = (r, w2)" by force
      with 1 x Inr tv c(1) results_counts [OF T(1) r] show ?thesis by (subst step) simp
    next
      case 2
      with x Inr tv c(1) show ?thesis by (subst step) auto
    next
      case 3
      let ?w = "cds_sleep T w1"
      have now: "cds_now T w1 + cds_poll T \<le> cds_now T ?w" "reqs (remote ?w) = reqs (remote w1)"
        using sleep_time [of "remote w1" "cds_poll T"] sleep_counts T(2) by (simp_all add: cds_now_def cds_sleep_def)
      have "k * cds_poll T \<le> cds_timeout T" using Suc.prems(1) c(2) [OF T(2)] 3(3) by linarith
      then have k: "k \<le> cds_timeout T div cds_poll T" using T(3) by (simp add: less_eq_div_iff_mult_less_eq)
      have "start + Suc k * cds_poll T \<le> cds_now T ?w" "Suc k + n = cds_timeout T div cds_poll T + 2" "0 < n"
        using Suc.prems(1,2) c(2) [OF T(2)] now(1) k by simp_all
      from Suc.IH [OF this] obtain r w' where "wait_loop T url job hs start ?w = Some (r, w')"
        "reqs (remote w') \<le> reqs (remote ?w) + n + 1" by blast
      with 3 x Inr tv c(1) now(2) show ?thesis by (subst step) simp
    qed
  qed
qed simp

lemma fetch_ends:
  assumes T: "cds_client T = C" "cds_timer T = tm" "0 < cds_poll T"
  shows "\<exists>r w'. cds_fetch_hashed T digest url dest cond auth w = Some (r, w') \<and>
    reqs (remote w') \<le> reqs (remote w) + cds_timeout T div cds_poll T + 5"
proof (cases "bindR (parse_cds_url (cds_parse T) url) (\<lambda>(dataset, req).
    bindR (put_credentials (cds_client T) url (resolver_headers auth) []) (\<lambda>hs. Inr (dataset, req, hs)))")
  case (Inl e)
  then show ?thesis by (simp add: cds_fetch_hashed_def)
next
  case (Inr t)
  obtain ds req hs where t: "t = (ds, req, hs)" by (cases t)
  obtain x w1 where x: "cds_submit T url ds req hs w = (x, w1)" by force
  note c1 = submit_counts [OF T(1) x]
  show ?thesis
  proof (cases x)
    case (Inl e)
    with Inr t x c1 show ?thesis by (simp add: cds_fetch_hashed_def)
  next
    case x': (Inr job)
    obtain y w2 where y: "cds_wait T url job hs w1 = Some (y, w2)"
      "reqs (remote w2) \<le> reqs (remote w1) + (cds_timeout T div cds_poll T + 2) + 1"
      using wait_loop_ends [OF T, of "cds_now T w1" 0 w1 "cds_timeout T div cds_poll T + 2" url job hs] by (auto simp: cds_wait_def)
    show ?thesis
    proof (cases y)
      case (Inl e)
      with Inr t x x' y c1 show ?thesis by (simp add: cds_fetch_hashed_def)
    next
      case y': (Inr href)
      obtain z w3 where z: "cds_download T digest url href dest w2 = (z, w3)" by force
      note c3 = download_counts [OF T(1) z]
      show ?thesis using Inr t x x' y y' z c1 c3 by (cases z) (auto simp: cds_fetch_hashed_def split: prod.splits)
    qed
  qed
qed

end

text \<open>A service whose jobs never end, on a clock that a request does not move: what the network remembers is the time and
  the number of requests.\<close>

definition stuck_client :: "(nat \<times> nat) http_client" where
  "stuck_client = \<lparr>hc_send = (\<lambda>q (t, n). (Inr \<lparr>hr_status = 200, hr_headers = [], hr_chunks = [''running''], hr_broken = None\<rparr>, (t, Suc n))),
     hc_text = (\<lambda>r. Inr (concat (hr_chunks r))), hc_name = Some, hc_value = Some, hc_to_str = Some, hc_copy_error = io_text\<rparr>"

definition pair_timer :: "(nat \<times> nat) timer" where
  "pair_timer = \<lparr>tm_now = fst, tm_sleep = (\<lambda>d (t, n). (t + d, n)), tm_debug = show_nat\<rparr>"

interpretation stuck: paced_network stuck_client pair_timer snd
  by unfold_locales (auto simp: stuck_client_def pair_timer_def)

definition stuck_cds :: "(nat \<times> nat) cds_transport" where
  "stuck_cds = (cds_with_client stuck_client (\<lambda>t. Inr (JObj [(''status'', JStr t), (''jobID'', JStr ''j'')])) pair_timer ''https://c/api/'')
     \<lparr>cds_poll := 2, cds_timeout := 7\<rparr>"

text \<open>C33: a fetch from the climate store ends whatever its service answers. If time does not run backwards and sleeping takes as
  long as asked, the polling loop returns, and the whole fetch has sent at most the quotient of the budget by the polling
  interval and five requests.\<close>

theorem cds_fetch_ends:
  assumes "paced_network (cds_client T) (cds_timer T) reqs" and "0 < cds_poll T"
  shows "\<exists>r w'. cds_fetch_hashed T digest url dest cond auth w = Some (r, w') \<and>
    reqs (remote w') \<le> reqs (remote w) + cds_timeout T div cds_poll T + 5"
  by (rule paced_network.fetch_ends [OF assms(1) refl refl assms(2)])

theorem cds_fetch_ends_witness:
  "\<exists>r w'. cds_fetch_hashed stuck_cds (\<lambda>s. s) ''cds://d?{}'' ''/p'' no_conditional None
      \<lparr>nodes = [], fault = (\<lambda>_. None), clock = 0, fresh = 0, remote = (0, 0)\<rparr> = Some (r, w') \<and> snd (remote w') \<le> 8"
proof -
  have "paced_network (cds_client stuck_cds) (cds_timer stuck_cds) snd" "0 < cds_poll stuck_cds"
    "cds_timeout stuck_cds div cds_poll stuck_cds = 3"
    using stuck.paced_network_axioms by (simp_all add: stuck_cds_def cds_with_client_def)
  from cds_fetch_ends [OF this(1,2), of "\<lambda>s. s" "''cds://d?{}''" "''/p''" no_conditional None
      "\<lparr>nodes = [], fault = (\<lambda>_. None), clock = 0, fresh = 0, remote = (0, 0)\<rparr>"] this(3)
  show ?thesis by simp
qed

section \<open>Where the credential goes\<close>

text \<open>A network that remembers the requests it was sent, with whatever else it is.\<close>

definition records_requests :: "('r \<times> http_request list) http_client \<Rightarrow> ('r \<times> http_request list) timer \<Rightarrow> bool" where
  "records_requests C tm \<longleftrightarrow> (\<forall>q r. snd (snd (hc_send C q r)) = snd r @ [q]) \<and> (\<forall>d r. snd (tm_sleep tm d r) = snd r)"

definition to_api :: "'r cds_transport \<Rightarrow> http_request \<Rightarrow> bool" where
  "to_api T q \<longleftrightarrow> starts_with (cds_base T @ ''/retrieve/v1/'') (hq_url q)"

definition sent_between :: "(http_request \<Rightarrow> bool) \<Rightarrow> ('r \<times> http_request list) world \<Rightarrow> ('r \<times> http_request list) world \<Rightarrow> bool" where
  "sent_between P w w' \<longleftrightarrow> (\<exists>sent. snd (remote w') = snd (remote w) @ sent \<and> (\<forall>q\<in>set sent. P q))"

lemma sent_refl: "snd (remote w') = snd (remote w) \<Longrightarrow> sent_between P w w'"
  by (simp add: sent_between_def)

lemma sent_trans: "sent_between P w w1 \<Longrightarrow> sent_between P w1 w2 \<Longrightarrow> sent_between P w w2"
  by (auto simp: sent_between_def)

lemma sent_one: "snd (remote w') = snd (remote w) @ [q] \<Longrightarrow> P q \<Longrightarrow> sent_between P w w'"
  by (auto simp: sent_between_def)

lemma exchange_sends:
  assumes "records_requests (cds_client T) tm" "cds_exchange T url what q w = (r, w')" "P q"
  shows "sent_between P w w'"
proof -
  have "remote w' = snd (hc_send (cds_client T) q (remote w))"
    using assms(2) by (auto simp: cds_exchange_def send_request_def split: prod.splits sum.splits if_splits)
  moreover have "snd (snd (hc_send (cds_client T) q (remote w))) = snd (remote w) @ [q]"
    using assms(1) unfolding records_requests_def by blast
  ultimately show ?thesis by (intro sent_one [where P = P, OF _ assms(3)]) simp
qed

lemma results_sends:
  assumes "records_requests (cds_client T) tm" "results_href T url ju hs w = (r, w')" "P (get_request (ju @ ''/results'') hs)"
  shows "sent_between P w w'"
proof -
  obtain x w1 where x: "cds_exchange T url ''results'' (get_request (ju @ ''/results'') hs) w = (x, w1)" by force
  with assms(2) have "w' = w1" by (auto simp: results_href_def split: sum.splits prod.splits option.splits)
  with exchange_sends [where P = P, OF assms(1) x assms(3)] show ?thesis by simp
qed

lemma job_requests: "to_api T (get_request (job_url T job) hs)" "to_api T (get_request (job_url T job @ ''/results'') hs)"
  by (simp_all add: to_api_def get_request_def job_url_def starts_with_iff)

lemma wait_loop_sends:
  assumes rec: "records_requests (cds_client T) (cds_timer T)" and w: "wait_loop T url job hs start w = Some rw"
  shows "sent_between (to_api T) w (snd rw)"
proof (rule wait_loop.raw_induct [where P = "\<lambda>T url job hs start w rw.
    records_requests (cds_client T) (cds_timer T) \<longrightarrow> sent_between (to_api T) w (snd rw)", OF _ w, rule_format, OF _ rec])
  fix f T url job hs start and w :: "('a \<times> http_request list) world" and rw
  assume ih: "\<And>T url job hs start w rw. f T url job hs start w = Some rw \<Longrightarrow>
      records_requests (cds_client T) (cds_timer T) \<Longrightarrow> sent_between (to_api T) w (snd rw)"
    and step: "(case cds_exchange T url ''poll'' (get_request (job_url T job) hs) w of
        (Inl e, w) \<Rightarrow> Some (Inl e, w)
      | (Inr (body, v), w) \<Rightarrow>
          if job_status v = ''successful'' then Some (results_href T url (job_url T job) hs w)
          else if job_status v = ''failed'' then
            Some (Inl (Transport url (''CDS job '' @ job @ '' failed: '' @ body)), w)
          else if cds_timeout T < cds_now T w - start then
            Some (Inl (Transport url (''CDS job '' @ job @ '' timed out after '' @ tm_debug (cds_timer T) (cds_timeout T))), w)
          else f T url job hs start (cds_sleep T w)) = Some rw"
    and rec: "records_requests (cds_client T) (cds_timer T)"
  obtain x w1 where x: "cds_exchange T url ''poll'' (get_request (job_url T job) hs) w = (x, w1)" by force
  note s1 = exchange_sends [where P = "to_api T", OF rec x job_requests(1)]
  show "sent_between (to_api T) w (snd rw)"
  proof (cases x)
    case (Inl e)
    with step x s1 show ?thesis by auto
  next
    case (Inr tv)
    obtain body v where tv: "tv = (body, v)" by (cases tv)
    obtain r w2 where r: "results_href T url (job_url T job) hs w1 = (r, w2)" by force
    have s2: "sent_between (to_api T) w (snd (results_href T url (job_url T job) hs w1))"
      using sent_trans [OF s1 results_sends [where P = "to_api T", OF rec r job_requests(2)]] r by simp
    have "snd (tm_sleep (cds_timer T) (cds_poll T) (remote w1)) = snd (remote w1)"
      using rec unfolding records_requests_def by blast
    then have sl: "sent_between (to_api T) w1 (cds_sleep T w1)" by (intro sent_refl) (simp add: cds_sleep_def)
    from step x Inr tv s1 s2 sent_trans [OF sent_trans [OF s1 sl] ih [OF _ rec]] show ?thesis
      by (auto split: if_splits)
  qed
qed

lemma submit_sends:
  assumes "records_requests (cds_client T) tm" "cds_submit T url ds req hs w = (r, w')"
  shows "sent_between (to_api T) w w'"
proof -
  let ?q = "\<lparr>hq_method = Post, hq_url = cds_base T @ ''/retrieve/v1/processes/'' @ ds @ ''/execution'',
      hq_headers = al_put ''content-type'' ''application/json'' hs, hq_body = ''{\"inputs\":'' @ req @ ''}''\<rparr>"
  obtain y v where y: "cds_exchange T url ''submit'' ?q w = (y, v)" by force
  with assms(2) have "w' = v" by (auto simp: cds_submit_def split: sum.splits prod.splits option.splits if_splits)
  moreover have "to_api T ?q" by (simp add: to_api_def starts_with_iff)
  ultimately show ?thesis using exchange_sends [where P = "to_api T", OF assms(1) y] by simp
qed

lemma download_sends:
  assumes "records_requests (cds_client T) tm" "cds_download T digest url href dest w = (r, w')" "P (get_request href [])"
  shows "sent_between P w w'"
proof -
  obtain a net where a: "hc_send (cds_client T) (get_request href []) (remote w) = (a, net)"
    by (cases "hc_send (cds_client T) (get_request href []) (remote w)")
  have "remote w' = net"
    using assms(2) stream_body_remote [of "cds_client T" digest url dest _ "w\<lparr>remote := net\<rparr>"]
    by (cases a) (auto simp: cds_download_def send_request_def a split: if_splits)
  moreover have "snd net = snd (remote w) @ [get_request href []]"
    using assms(1) a by (metis records_requests_def snd_conv)
  ultimately show ?thesis by (intro sent_one [where P = P, OF _ assms(3)]) simp
qed

text \<open>C34: the credential of a climate-store fetch goes to its API alone. Whatever the service answers, and whichever address its results
  name, every request of a fetch either goes to the API under the configured base or carries no header at all.\<close>

theorem token_stays_at_api:
  assumes "records_requests (cds_client T) (cds_timer T)" and "cds_fetch_hashed T digest url dest cond auth w = Some (r, w')"
  shows "\<exists>sent. snd (remote w') = snd (remote w) @ sent \<and>
    (\<forall>q\<in>set sent. starts_with (cds_base T @ ''/retrieve/v1/'') (hq_url q) \<or> hq_headers q = [])"
proof -
  let ?P = "\<lambda>q. to_api T q \<or> hq_headers q = []"
  note rec = assms(1)
  have api: "sent_between ?P v v'" if "sent_between (to_api T) v v'" for v v' :: "('a \<times> http_request list) world"
    using that by (auto simp: sent_between_def)
  have s1: "sent_between ?P w w1" if "cds_submit T url ds req hs w = (x, w1)" for ds req hs x w1
    by (rule api [OF submit_sends [OF rec that]])
  have s2: "sent_between ?P w1 w2" if "cds_wait T url job hs w1 = Some (y, w2)" for job hs w1 y w2
    using wait_loop_sends [OF rec that [unfolded cds_wait_def]] api by simp
  have s3: "sent_between ?P w2 w3" if "cds_download T digest url href dest w2 = (z, w3)" for href w2 z w3
    by (rule download_sends [where P = ?P, OF rec that]) (simp add: get_request_def)
  have "sent_between ?P w w'"
    using assms(2) by (auto simp: cds_fetch_hashed_def split: sum.splits prod.splits option.splits
        intro: sent_refl dest!: s1 s2 s3 intro: sent_trans)
  then show ?thesis by (simp add: sent_between_def to_api_def)
qed

text \<open>A service whose job is finished at once and whose results name an address elsewhere.\<close>

definition prompt_client :: "(unit \<times> http_request list) http_client" where
  "prompt_client = \<lparr>hc_send = (\<lambda>q (u, log). (Inr \<lparr>hr_status = 200, hr_headers = [], hr_chunks = [''ok''], hr_broken = None\<rparr>, (u, log @ [q]))),
     hc_text = (\<lambda>r. Inr (concat (hr_chunks r))), hc_name = Some, hc_value = Some, hc_to_str = Some, hc_copy_error = io_text\<rparr>"

definition prompt_answer :: json where
  "prompt_answer = JObj [(''status'', JStr ''successful''), (''jobID'', JStr ''j''),
     (''asset'', JObj [(''value'', JObj [(''href'', JStr ''https://elsewhere/x.nc'')])])]"

definition prompt_cds :: "(unit \<times> http_request list) cds_transport" where
  "prompt_cds = cds_with_client prompt_client (\<lambda>t. Inr prompt_answer)
     \<lparr>tm_now = (\<lambda>r. 0), tm_sleep = (\<lambda>d r. r), tm_debug = show_nat\<rparr> ''https://c/api/''"

definition unlogged_world :: "(unit \<times> http_request list) world" where
  "unlogged_world = \<lparr>nodes = [], fault = (\<lambda>_. None), clock = 0, fresh = 0, remote = ((), [])\<rparr>"

lemma prompt_exchange:
  "cds_exchange prompt_cds url what q w = (Inr (''ok'', prompt_answer), w\<lparr>remote := ((), snd (remote w) @ [q])\<rparr>)"
  by (cases "remote w") (simp add: cds_exchange_def send_request_def prompt_cds_def cds_with_client_def prompt_client_def is_success_def)

lemma prompt_fetch:
  "\<exists>res w'. cds_fetch_hashed prompt_cds (\<lambda>s. s) ''cds://d?{}'' ''/p'' no_conditional
       (Some (header_auth ''cds'' ''PRIVATE-TOKEN'' ''secret'')) unlogged_world = Some (Inr res, w') \<and> length (snd (remote w')) = 4"
proof -
  have parts: "parse_cds_url (cds_parse prompt_cds) ''cds://d?{}'' = Inr (''d'', ''{}'')"
    "put_credentials (cds_client prompt_cds) ''cds://d?{}'' (resolver_headers (Some (header_auth ''cds'' ''PRIVATE-TOKEN'' ''secret''))) []
      = Inr [(''PRIVATE-TOKEN'', ''secret'')]"
    by (simp_all add: parse_cds_url_def strip_prefix_def prompt_cds_def cds_with_client_def prompt_client_def prompt_answer_def
        as_object_def resolver_headers_def header_auth_def)
  have answer: "job_status prompt_answer = ''successful''" "Option.bind (json_get prompt_answer ''jobID'') as_str = Some ''j''"
    "Option.bind (Option.bind (Option.bind (json_get prompt_answer ''asset'') (\<lambda>a. json_get a ''value'')) (\<lambda>a. json_get a ''href'')) as_str
      = Some ''https://elsewhere/x.nc''" by code_simp+
  have submit: "\<exists>q. cds_submit prompt_cds url ds req hs w = (Inr ''j'', w\<lparr>remote := ((), snd (remote w) @ [q])\<rparr>)" for url ds req hs w
    unfolding cds_submit_def prompt_exchange prod.case sum.case answer option.case by auto
  have results: "results_href prompt_cds url ju hs w =
      (Inr ''https://elsewhere/x.nc'', w\<lparr>remote := ((), snd (remote w) @ [get_request (ju @ ''/results'') hs])\<rparr>)" for url ju hs w
    unfolding results_href_def prompt_exchange prod.case sum.case answer option.case by simp
  have wait: "\<exists>q q'. cds_wait prompt_cds url job hs w =
      Some (Inr ''https://elsewhere/x.nc'', w\<lparr>remote := ((), snd (remote w) @ [q, q'])\<rparr>)" for url job hs w
    unfolding cds_wait_def by (subst wait_loop.simps) (simp add: prompt_exchange answer(1) results, blast)
  have download: "\<exists>n sha w'. cds_download prompt_cds (\<lambda>s. s) url href ''/p'' w = (Inr (n, sha), w') \<and>
      remote w' = ((), snd (remote w) @ [get_request href []])"
    if "nodes w = []" "fault w = (\<lambda>_. None)" for url href and w :: "(unit \<times> http_request list) world"
    using that by (cases "remote w") (simp add: cds_download_def send_request_def prompt_cds_def cds_with_client_def prompt_client_def
        is_success_def stream_body_def fs_write_def u64_max_def sha_writer_new_def sha_write_def)
  obtain q where s: "cds_submit prompt_cds ''cds://d?{}'' ''d'' ''{}'' [(''PRIVATE-TOKEN'', ''secret'')] unlogged_world =
      (Inr ''j'', unlogged_world\<lparr>remote := ((), [q])\<rparr>)"
    using submit [of "''cds://d?{}''" "''d''" "''{}''" "[(''PRIVATE-TOKEN'', ''secret'')]" unlogged_world] by (auto simp: unlogged_world_def)
  obtain p p' where w: "cds_wait prompt_cds ''cds://d?{}'' ''j'' [(''PRIVATE-TOKEN'', ''secret'')] (unlogged_world\<lparr>remote := ((), [q])\<rparr>) =
      Some (Inr ''https://elsewhere/x.nc'', unlogged_world\<lparr>remote := ((), [q, p, p'])\<rparr>)"
    using wait [of "''cds://d?{}''" "''j''" "[(''PRIVATE-TOKEN'', ''secret'')]" "unlogged_world\<lparr>remote := ((), [q])\<rparr>"] by auto
  obtain n sha w' where d: "cds_download prompt_cds (\<lambda>s. s) ''cds://d?{}'' ''https://elsewhere/x.nc'' ''/p'' (unlogged_world\<lparr>remote := ((), [q, p, p'])\<rparr>) =
      (Inr (n, sha), w')" "length (snd (remote w')) = 4"
    using download [of "unlogged_world\<lparr>remote := ((), [q, p, p'])\<rparr>" "''cds://d?{}''" "''https://elsewhere/x.nc''"]
    by (auto simp: unlogged_world_def)
  show ?thesis unfolding cds_fetch_hashed_def parts bindR_simps prod.case sum.case s w option.case using d by simp
qed

theorem token_stays_at_api_witness:
  "\<exists>res w' sent. cds_fetch_hashed prompt_cds (\<lambda>s. s) ''cds://d?{}'' ''/p'' no_conditional
       (Some (header_auth ''cds'' ''PRIVATE-TOKEN'' ''secret'')) unlogged_world = Some (Inr res, w') \<and>
     snd (remote w') = sent \<and> length sent = 4 \<and>
     (\<forall>q\<in>set sent. starts_with ''https://c/api/retrieve/v1/'' (hq_url q) \<or> hq_headers q = [])"
proof -
  let ?run = "cds_fetch_hashed prompt_cds (\<lambda>s. s) ''cds://d?{}'' ''/p'' no_conditional
       (Some (header_auth ''cds'' ''PRIVATE-TOKEN'' ''secret'')) unlogged_world"
  have rec: "records_requests (cds_client prompt_cds) (cds_timer prompt_cds)"
    by (auto simp: records_requests_def prompt_cds_def cds_with_client_def prompt_client_def)
  obtain res w' where run: "?run = Some (Inr res, w')" "length (snd (remote w')) = 4" using prompt_fetch by blast
  have base: "cds_base prompt_cds = ''https://c/api''" by (simp add: prompt_cds_def cds_with_client_def)
  from token_stays_at_api [OF rec run(1)] base have
    "\<forall>q\<in>set (snd (remote w')). starts_with ''https://c/api/retrieve/v1/'' (hq_url q) \<or> hq_headers q = []"
    by (auto simp: unlogged_world_def)
  with run show ?thesis by blast
qed

end
