(* ===== verification/Era5.thy ===== *)
theory Era5
  imports Cds Gregorian
begin

text \<open>
  The ERA5 request mapping (\<open>rust/src/era5.rs\<close>): from the declared variables, pressure levels, area and month
  to the request document of the climate store and the \<open>cds\<close> URL that is its cache key.

  The printer of JSON texts (\<open>serde_json::to_string\<close>) and the floating-point operations of the area are parameters.
  An \<open>i32\<close> year that would leave its range is a panic, \<open>None\<close>.
\<close>

section \<open>Tables\<close>

definition era5_dataset :: string where "era5_dataset = ''reanalysis-era5-pressure-levels''"

definition era5_levels_hpa :: "int list" where
  "era5_levels_hpa =
     [1000, 975, 950, 925, 900, 875, 850, 825, 800, 775, 750, 700, 650, 600, 550, 500, 450, 400, 350, 300,
      250, 225, 200, 175, 150, 125, 100, 70, 50, 30, 20, 10, 7, 5, 3, 2, 1]"

definition era5_variables :: "(string \<times> string) list" where
  "era5_variables =
     [(''divergence'', ''d''), (''fraction_of_cloud_cover'', ''cc''), (''geopotential'', ''z''),
      (''ozone_mass_mixing_ratio'', ''o3''), (''potential_vorticity'', ''pv''), (''relative_humidity'', ''r''),
      (''specific_cloud_ice_water_content'', ''ciwc''), (''specific_cloud_liquid_water_content'', ''clwc''),
      (''specific_humidity'', ''q''), (''specific_rain_water_content'', ''crwc''),
      (''specific_snow_water_content'', ''cswc''), (''temperature'', ''t''), (''u_component_of_wind'', ''u''),
      (''v_component_of_wind'', ''v''), (''vertical_velocity'', ''w''), (''vorticity'', ''vo'')]"

definition all_variables :: "string list" where
  "all_variables = map fst era5_variables"

definition variable_short_name :: "string \<Rightarrow> string option" where
  "variable_short_name name = map_option snd (find (\<lambda>(long, short). long = name) era5_variables)"

definition era5_err :: "string \<Rightarrow> error" where "era5_err detail = FormatError ''era5'' detail"

definition pressure_level_of :: "nat \<Rightarrow> int result" where
  "pressure_level_of i =
     (if i = 0 \<or> length era5_levels_hpa < i then
        Inl (era5_err (''pressure-level index '' @ show_nat i @ '' out of range 1..='' @ show_nat (length era5_levels_hpa)))
      else Inr (era5_levels_hpa ! (i - 1)))"

fun pressure_levels_from_indices :: "nat list \<Rightarrow> int list result" where
  "pressure_levels_from_indices [] = Inr []"
| "pressure_levels_from_indices (i # is) =
     bindR (pressure_level_of i) (\<lambda>p. bindR (pressure_levels_from_indices is) (\<lambda>ps. Inr (p # ps)))"

record 'f bounds_ops =
  bo_min :: "'f \<Rightarrow> 'f \<Rightarrow> 'f"
  bo_max :: "'f \<Rightarrow> 'f \<Rightarrow> 'f"
  bo_ceil_above :: "'f \<Rightarrow> int"
  bo_floor_below :: "'f \<Rightarrow> int"

text \<open>\<open>bo_ceil_above x\<close> is \<open>(x + 1.0).ceil() as i32\<close>, \<open>bo_floor_below x\<close> is \<open>(x - 1.0).floor() as i32\<close>.\<close>

definition area_from_bounds :: "'f bounds_ops \<Rightarrow> 'f \<times> 'f \<Rightarrow> 'f \<times> 'f \<Rightarrow> int list" where
  "area_from_bounds F lon lat =
     (let lon_min = bo_min F (fst lon) (snd lon); lon_max = bo_max F (fst lon) (snd lon);
          lat_min = bo_min F (fst lat) (snd lat); lat_max = bo_max F (fst lat) (snd lat) in
      [bo_ceil_above F lat_max, bo_floor_below F lon_min, bo_floor_below F lat_min, bo_ceil_above F lon_max])"

section \<open>Months and days\<close>

definition i32_max :: int where "i32_max = 2147483647"

definition month_le :: "int \<times> nat \<Rightarrow> int \<times> nat \<Rightarrow> bool" where
  "month_le a b \<longleftrightarrow> fst a < fst b \<or> fst a = fst b \<and> snd a \<le> snd b"

function months_from :: "int \<Rightarrow> nat \<Rightarrow> int \<times> nat \<Rightarrow> (int \<times> nat) list option" where
  "months_from y m fin =
     (if month_le (y, m) fin then
        (if 12 < m + 1 then
           (if y + 1 \<le> i32_max then map_option (\<lambda>ms. (y, m) # ms) (months_from (y + 1) 1 fin) else None)
         else map_option (\<lambda>ms. (y, m) # ms) (months_from y (m + 1) fin))
      else Some [])"
  by pat_completeness auto
termination
proof (relation "measures [\<lambda>(y, m, fin). nat (fst fin - y + 1), \<lambda>(y, m, fin). 13 - m]")
qed (auto simp: month_le_def)

declare months_from.simps [simp del]

definition months_in_range :: "int \<times> nat \<Rightarrow> int \<times> nat \<Rightarrow> (int \<times> nat) list option" where
  "months_in_range start fin = months_from (fst start) (snd start) fin"

definition is_leap_year :: "int \<Rightarrow> bool" where
  "is_leap_year year \<longleftrightarrow> (year mod 4 = 0 \<and> year mod 100 \<noteq> 0) \<or> year mod 400 = 0"

definition days_in_month :: "int \<Rightarrow> nat \<Rightarrow> nat list result" where
  "days_in_month year month =
     (if month \<in> {1, 3, 5, 7, 8, 10, 12} then Inr [1..<32]
      else if month \<in> {4, 6, 9, 11} then Inr [1..<31]
      else if month = 2 then Inr (if is_leap_year year then [1..<30] else [1..<29])
      else Inl (era5_err (''invalid month '' @ show_nat month @ '' (expected 1..=12)'')))"

section \<open>The request\<close>

record era5_levels =
  el_variables :: "string list"
  el_levels :: "int list"
  el_area :: "int list"

definition pad_two :: "nat \<Rightarrow> string" where
  "pad_two n = (if n < 10 then ''0'' @ show_nat n else show_nat n)"

definition json_texts :: "string list \<Rightarrow> json" where
  "json_texts xs = JArr (map JStr xs)"

definition sort_dedup :: "'a::linorder list \<Rightarrow> 'a list" where
  "sort_dedup xs = remdups_adj (sort xs)"

definition era5_request :: "era5_levels \<Rightarrow> int \<Rightarrow> nat \<Rightarrow> nat list \<Rightarrow> json" where
  "era5_request e year month days =
     JObj [(''area'', JArr (map JInt (el_area e))),
       (''data_format'', JStr ''netcdf''),
       (''day'', json_texts (map pad_two (sort_dedup days))),
       (''download_format'', JStr ''unarchived''),
       (''month'', json_texts [pad_two month]),
       (''pressure_level'', json_texts (map show_int (remdups_adj (rev (sort (el_levels e)))))),
       (''product_type'', json_texts [''reanalysis'']),
       (''time'', json_texts (map (\<lambda>h. pad_two h @ '':00'') [0..<24])),
       (''variable'', json_texts (sort_dedup (el_variables e))),
       (''year'', json_texts [show_int year])]"

definition request_json :: "(json \<Rightarrow> string) \<Rightarrow> era5_levels \<Rightarrow> int \<Rightarrow> nat \<Rightarrow> nat list \<Rightarrow> string" where
  "request_json to_text e year month days = to_text (era5_request e year month days)"

definition era5_cds_url :: "(json \<Rightarrow> string) \<Rightarrow> era5_levels \<Rightarrow> int \<Rightarrow> nat \<Rightarrow> nat list \<Rightarrow> string" where
  "era5_cds_url to_text e year month days = build_cds_url era5_dataset (request_json to_text e year month days)"

section \<open>Which requests share an entry\<close>

lemma set_sort_dedup: "set (sort_dedup xs) = set xs"
  by (simp add: sort_dedup_def)

lemma sorted_remdups_adj: "sorted xs \<Longrightarrow> sorted_wrt (<) (remdups_adj xs)"
  by (induction xs rule: remdups_adj.induct) auto

lemma sort_dedup_eq: "sort_dedup xs = sort_dedup ys \<longleftrightarrow> set xs = set ys"
proof
  assume "set xs = set ys"
  moreover have "sorted_wrt (<) (sort_dedup zs)" for zs :: "'a list" by (simp add: sort_dedup_def sorted_remdups_adj)
  ultimately show "sort_dedup xs = sort_dedup ys"
    by (intro sorted_distinct_set_unique) (simp_all add: set_sort_dedup strict_sorted_iff)
qed (metis set_sort_dedup)

lemma dec_value_zero: "dec_value (''0'' @ s) = dec_value s"
  by (simp add: dec_value_def digit_val_def)

lemma inj_pad_two: "inj pad_two"
proof (rule injI)
  have "dec_value (pad_two n) = n" for n by (simp add: pad_two_def dec_value_zero del: append.simps)
  then show "pad_two a = pad_two b \<Longrightarrow> a = b" for a b by metis
qed

lemma inj_show_int: "inj show_int"
proof (rule injI)
  fix a b assume e: "show_int a = show_int b"
  have nd: "CHR ''-'' \<notin> set (show_nat n)" for n using show_nat_digits [of "CHR ''-''" n] by (auto simp: is_digit_def)
  have hd: "show_nat n = CHR ''-'' # s \<Longrightarrow> False" for n s using nd [of n] by simp
  have v: "show_nat m = show_nat n \<Longrightarrow> m = n" for m n by (metis dec_value_show_nat)
  from e show "a = b"
    by (auto simp: show_int_def split: if_splits dest: hd hd [OF sym] v)
qed

lemma map_inj_eq: "inj f \<Longrightarrow> map f xs = map f ys \<longleftrightarrow> xs = ys"
  by (simp add: inj_map_eq_map)

lemma rev_sort_dedup: "remdups_adj (rev (sort xs)) = rev (sort_dedup xs)"
  by (simp add: sort_dedup_def)

lemma era5_request_eq:
  "era5_request e y m ds = era5_request e' y' m' ds' \<longleftrightarrow>
     set (el_variables e) = set (el_variables e') \<and> set (el_levels e) = set (el_levels e') \<and> el_area e = el_area e' \<and>
     y = y' \<and> m = m' \<and> set ds = set ds'"
proof -
  have i: "inj JInt" "inj JStr" by (simp_all add: inj_def)
  have c: "inj (JStr \<circ> pad_two)" "inj (JStr \<circ> show_int)"
    by (simp_all add: inj_compose [OF i(2)] inj_pad_two inj_show_int)
  show ?thesis
    by (auto simp: era5_request_def json_texts_def rev_sort_dedup map_inj_eq [OF c(1)] map_inj_eq [OF c(2)]
        sort_dedup_eq inj_eq [OF inj_pad_two] inj_eq [OF inj_show_int] map_inj_eq [OF i(1)] map_inj_eq [OF i(2)]
        simp del: remdups_adj_rev)
qed

lemma era5_request_object: "as_object (era5_request e y m ds) \<noteq> None"
  by (simp add: era5_request_def as_object_def)

lemma era5_dataset_plain: "CHR ''?'' \<notin> set era5_dataset" "era5_dataset \<noteq> []"
  by (simp_all add: era5_dataset_def)

lemma era5_url_parses:
  assumes "parse (to_text (era5_request e y m ds)) = Inr (era5_request e y m ds)"
    and "to_text (era5_request e y m ds) \<noteq> []"
  shows "parse_cds_url parse (era5_cds_url to_text e y m ds) = Inr (era5_dataset, request_json to_text e y m ds)"
  using assms era5_request_object [of e y m ds] split_once_char [OF era5_dataset_plain(1)]
  by (simp add: parse_cds_url_def era5_cds_url_def build_cds_url_def request_json_def era5_dataset_plain strip_prefix_def)

text \<open>C35: The ERA5 cache key names the retrieval and nothing else: two retrievals have the same \<open>cds\<close> URL, and so the
  same cache entry, exactly when they ask for the same set of variables, the same set of levels, the same days, area,
  year and month, whatever order and repetitions the caller listed them in; and the \<open>cds\<close> transport reads from the URL
  the dataset and the request text it was built from. The hypothesis is the round trip of the JSON library.\<close>

theorem era5_key_exact:
  assumes "parse (to_text (era5_request e y m ds)) = Inr (era5_request e y m ds)"
    and "parse (to_text (era5_request e' y' m' ds')) = Inr (era5_request e' y' m' ds')"
    and "to_text (era5_request e y m ds) \<noteq> []"
  shows "(era5_cds_url to_text e y m ds = era5_cds_url to_text e' y' m' ds' \<longleftrightarrow>
      set (el_variables e) = set (el_variables e') \<and> set (el_levels e) = set (el_levels e') \<and> el_area e = el_area e' \<and>
      y = y' \<and> m = m' \<and> set ds = set ds') \<and>
    parse_cds_url parse (era5_cds_url to_text e y m ds) = Inr (era5_dataset, request_json to_text e y m ds)"
proof -
  have "to_text (era5_request e y m ds) = to_text (era5_request e' y' m' ds') \<longleftrightarrow>
      era5_request e y m ds = era5_request e' y' m' ds'"
    using assms(1,2) by (metis sum.inject(2))
  then have "era5_cds_url to_text e y m ds = era5_cds_url to_text e' y' m' ds' \<longleftrightarrow>
      era5_request e y m ds = era5_request e' y' m' ds'"
    by (simp only: era5_cds_url_def build_cds_url_def request_json_def same_append_eq)
  with era5_url_parses [of parse to_text e y m ds] assms show ?thesis by (simp add: era5_request_eq)
qed

definition listed_twice :: era5_levels where
  "listed_twice = \<lparr>el_variables = [''temperature'', ''geopotential'', ''temperature''], el_levels = [850, 1000], el_area = [50, - 130, 20, - 60]\<rparr>"

definition listed_once :: era5_levels where
  "listed_once = \<lparr>el_variables = [''geopotential'', ''temperature''], el_levels = [1000, 850], el_area = [50, - 130, 20, - 60]\<rparr>"

definition january :: json where "january = era5_request listed_once 2018 1 [1, 8]"

definition february :: json where "february = era5_request listed_once 2018 2 [1, 8]"

text \<open>A printer and a parser of the two requests.\<close>

definition month_text :: "json \<Rightarrow> string" where
  "month_text v = (if v = january then ''[1]'' else if v = february then ''[2]'' else ''null'')"

definition month_parse :: "string \<Rightarrow> string + json" where
  "month_parse s =
     (if s = ''[1]'' then Inr january else if s = ''[2]'' then Inr february else Inl ''expected value'')"

theorem era5_key_exact_witness:
  "era5_cds_url month_text listed_twice 2018 1 [8, 1] = era5_cds_url month_text listed_once 2018 1 [1, 8] \<and>
   era5_cds_url month_text listed_twice 2018 1 [8, 1] \<noteq> era5_cds_url month_text listed_once 2018 2 [1, 8] \<and>
   parse_cds_url month_parse (era5_cds_url month_text listed_twice 2018 1 [8, 1]) =
     Inr (era5_dataset, request_json month_text listed_twice 2018 1 [8, 1])"
proof -
  have jan: "era5_request listed_twice 2018 1 [8, 1] = january"
    by (auto simp: era5_request_eq listed_twice_def listed_once_def january_def)
  have ne: "january \<noteq> february"
    by (simp add: january_def february_def era5_request_eq)
  have p: "month_parse (month_text (era5_request listed_twice 2018 1 [8, 1])) = Inr (era5_request listed_twice 2018 1 [8, 1])"
    "month_text (era5_request listed_twice 2018 1 [8, 1]) \<noteq> []"
    unfolding jan by (simp_all add: month_parse_def month_text_def)
  have q: "month_parse (month_text (era5_request listed_once 2018 1 [1, 8])) = Inr (era5_request listed_once 2018 1 [1, 8])"
    "month_parse (month_text (era5_request listed_once 2018 2 [1, 8])) = Inr (era5_request listed_once 2018 2 [1, 8])"
    unfolding january_def [symmetric] february_def [symmetric]
    using ne by (simp_all add: month_parse_def month_text_def)
  have "set (el_variables listed_twice) = set (el_variables listed_once) \<and>
      set (el_levels listed_twice) = set (el_levels listed_once) \<and> el_area listed_twice = el_area listed_once"
    by (auto simp: listed_twice_def listed_once_def)
  with era5_key_exact [OF p(1) q(1) p(2)] era5_key_exact [OF p(1) q(2) p(2)] show ?thesis by auto
qed

section \<open>The months of a range\<close>

text \<open>Months counted from year 0.\<close>

definition month_index :: "int \<times> nat \<Rightarrow> int" where
  "month_index ym = 12 * fst ym + int (snd ym) - 1"

definition month_at :: "int \<Rightarrow> int \<times> nat" where
  "month_at i = (i div 12, nat (i mod 12) + 1)"

lemma month_at_index:
  assumes "1 \<le> m" "m \<le> 12"
  shows "month_at (month_index (y, m)) = (y, m)"
proof -
  obtain k where m: "m = Suc k" using assms(1) by (cases m) auto
  have "month_index (y, m) = 12 * y + int k" by (simp add: month_index_def m)
  moreover have "(12 * y + int k) div 12 = y" "(12 * y + int k) mod 12 = int k" using assms(2) m by simp_all
  ultimately show ?thesis by (simp add: month_at_def m)
qed

lemma month_le_index:
  "1 \<le> snd a \<Longrightarrow> snd a \<le> 12 \<Longrightarrow> 1 \<le> snd b \<Longrightarrow> snd b \<le> 12 \<Longrightarrow> month_le a b \<longleftrightarrow> month_index a \<le> month_index b"
  by (auto simp: month_le_def month_index_def)

lemma months_from_exact:
  assumes "1 \<le> m" "m \<le> 12" "1 \<le> snd fin" "snd fin \<le> 12" "fst fin < i32_max"
  shows "months_from y m fin = Some (map month_at [month_index (y, m)..month_index fin])"
  using assms
proof (induction y m "fin" rule: months_from.induct)
  case (1 y m "fin")
  let ?i = "month_index (y, m)"
  let ?next = "if 12 < m + 1 then (y + 1, 1) else (y, m + 1)"
  have s: "month_index ?next = ?i + 1" using 1(4) by (simp add: month_index_def)
  show ?case
  proof (cases "month_le (y, m) fin")
    case True
    then have "y + 1 \<le> i32_max" using 1(7) by (auto simp: month_le_def)
    moreover have "[?i..month_index fin] = ?i # [?i + 1..month_index fin]"
      using True 1 month_le_index [of "(y, m)" "fin"] by (simp add: upto_rec1)
    ultimately show ?thesis
      using True 1 s by (subst months_from.simps) (auto simp: month_at_index split: if_splits)
  next
    case False
    then show ?thesis using 1 month_le_index [of "(y, m)" "fin"] by (subst months_from.simps) simp
  qed
qed

lemma days_in_month_calendar:
  assumes "1 \<le> m" "m \<le> 12"
  shows "days_in_month y m = Inr [1..<nat (mlen y (int m) + 1)]"
proof -
  have "m \<in> set [1..<13]" using assms by simp
  then have "m \<in> set [1, 2, 3, 4, 5, 6, 7, 8, 9, 10, 11, 12]" by (simp add: upt_rec eval_nat_numeral)
  moreover have "is_leap_year y = leap y" by (auto simp: is_leap_year_def leap_def)
  ultimately show ?thesis
    by (simp only: list.set insert_iff empty_iff)
      (elim disjE; simp add: days_in_month_def mlen_def del: upt_rec_numeral)
qed

end
