(* ===== verification/Tables.thy ===== *)
theory Tables
  imports Readers StreamTypes
begin

text \<open>
  What the readers of tables share (\<open>rust/src/format/csv_reader.rs\<close>, \<open>ff10.rs\<close>, \<open>json_reader.rs\<close>): a column as a field on
  the single dimension \<open>index\<close>, the options of a loader, and the parameters. The \<open>csv\<close> crate is the record \<open>csv_api\<close>:
  the records of a text, each with the byte it is reported at, an error in their place. Reading and classifying an f64 is
  the record \<open>number_api\<close>.
\<close>

record csv_record =
  cr_position :: "nat option"
  cr_fields :: "string list"

record csv_api =
  csv_records :: "bool \<Rightarrow> char \<Rightarrow> string \<Rightarrow> (string + csv_record) list"

record 'f number_api =
  nu_parse :: "string \<Rightarrow> 'f option"
  nu_json :: "json \<Rightarrow> 'f option"
  nu_nan :: 'f
  nu_infinity :: 'f
  nu_is_infinite :: "'f \<Rightarrow> bool"
  nu_is_zero :: "'f \<Rightarrow> bool"
  nu_zero :: 'f

definition index_field :: "'f array_data \<Rightarrow> nat \<Rightarrow> 'f field" where
  "index_field data n =
     \<lparr>f_dtype = array_dtype data, f_dims = [''index''], f_shape = [n], f_data = data, f_fill = None\<rparr>"

definition no_table :: "'f dataset" where
  "no_table = \<lparr>ds_vars = [], ds_coords = []\<rparr>"

text \<open>A JSON value that must be an array of strings: the error is the same for the value and for an element.\<close>

definition string_list :: "error \<Rightarrow> json \<Rightarrow> string list result" where
  "string_list bad v = bindR (ok_or bad (as_array v)) (each (\<lambda>x. ok_or bad (as_str x)))"

text \<open>\<open>{:?}\<close> of an ordered set of texts.\<close>

definition dbg_set :: "string list \<Rightarrow> string" where
  "dbg_set xs = ''{'' @ (case xs of [] \<Rightarrow> [] | y # ys \<Rightarrow> dbg_str y @ concat (map (\<lambda>z. '', '' @ dbg_str z) ys)) @ ''}''"

text \<open>The elements a \<open>BTreeSet\<close> gives back, in order.\<close>

definition ordered :: "'a::linorder list \<Rightarrow> 'a list" where
  "ordered xs = sort (remdups xs)"

lemma ordered_set [simp]: "set (ordered xs) = set xs"
  by (simp add: ordered_def)

lemma ordered_unique: "ordered xs = ordered ys \<longleftrightarrow> set xs = set ys"
proof
  assume "set xs = set ys"
  then show "ordered xs = ordered ys" unfolding ordered_def by (intro sorted_distinct_set_unique) simp_all
qed (metis ordered_set)

lemma al_put_fresh: "k \<notin> fst ` set m \<Longrightarrow> al_put k v m = m @ [(k, v)]"
  by (induction k v m rule: al_put.induct) auto

end
