(* ===== verification/CsvTable.thy ===== *)
theory CsvTable
  imports Tables
begin

text \<open>
  The \<open>csv\<close> reader (\<open>rust/src/format/csv_reader.rs\<close>): the rows of a delimited text with the file line each starts on, and
  the columns of the table. A slice out of bounds is a panic, \<open>None\<close>. Cells are moved out of the rows column by
  column, as the code does it.
\<close>

section \<open>The reader and its options\<close>

record csv_reader =
  cv_numeric :: "string list option"
  cv_delimiter :: char
  cv_header_row :: nat

definition csv_err :: "string \<Rightarrow> error" where "csv_err detail = FormatError ''csv'' detail"

definition csv_new :: csv_reader where
  "csv_new = \<lparr>cv_numeric = None, cv_delimiter = CHR '','', cv_header_row = 0\<rparr>"

definition numeric_columns :: "string list \<Rightarrow> csv_reader \<Rightarrow> csv_reader" where
  "numeric_columns names r = r\<lparr>cv_numeric := Some names\<rparr>"

definition csv_option :: "string \<times> json \<Rightarrow> csv_reader \<Rightarrow> csv_reader result" where
  "csv_option kv r =
     (let (k, v) = kv in
      if k \<notin> {''numeric_columns'', ''delimiter'', ''header_row''} then
        Inl (csv_err (''unknown reader option '' @ dbg_str k @ ''; csv takes numeric_columns, delimiter, header_row''))
      else if v = JNull then Inr r
      else if k = ''numeric_columns'' then
        bindR (string_list (csv_err (''reader option '' @ dbg_str k @ '' must be an array of strings'')) v) (\<lambda>names.
          Inr (numeric_columns names r))
      else if k = ''delimiter'' then
        (case as_str v of
           Some [c] \<Rightarrow> Inr (r\<lparr>cv_delimiter := c\<rparr>)
         | _ \<Rightarrow> Inl (csv_err (''reader option '' @ dbg_str k @ '' must be a one-character ASCII string'')))
      else
        bindR (ok_or (csv_err (''reader option '' @ dbg_str k @ '' must be a non-negative integer (0-based)'')) (as_u64 v)) (\<lambda>n.
          Inr (r\<lparr>cv_header_row := n\<rparr>)))"

fun csv_options :: "(string \<times> json) list \<Rightarrow> csv_reader \<Rightarrow> csv_reader result" where
  "csv_options [] r = Inr r"
| "csv_options (kv # kvs) r = bindR (csv_option kv r) (csv_options kvs)"

definition csv_from_options :: "(string \<times> json) list \<Rightarrow> csv_reader result" where
  "csv_from_options options = csv_options options csv_new"

section \<open>The rows and their lines\<close>

definition is_break :: "char \<Rightarrow> bool" where "is_break b \<longleftrightarrow> b = CHR 0x0A \<or> b = CHR 0x0D"

definition skip_breaks :: "string \<Rightarrow> nat \<Rightarrow> nat" where
  "skip_breaks bytes start = start + length (takeWhile is_break (drop start bytes))"

definition count_breaks :: "string \<Rightarrow> nat" where
  "count_breaks s = length (filter (\<lambda>b. b = CHR 0x0A) s)"

fun csv_lines ::
    "string \<Rightarrow> string \<Rightarrow> nat \<Rightarrow> nat \<Rightarrow> (string + csv_record) list \<Rightarrow> (nat \<times> string list) list result option" where
  "csv_lines path bytes line scanned [] = Some (Inr [])"
| "csv_lines path bytes line scanned (rec # recs) =
     (case rec of
        Inl e \<Rightarrow> Some (Inl (csv_err (path @ '': '' @ e @ '' (csv text must be UTF-8)'')))
      | Inr r \<Rightarrow>
          if cr_fields r = [] then csv_lines path bytes line scanned recs
          else
            (let start = skip_breaks bytes (case cr_position r of None \<Rightarrow> scanned | Some p \<Rightarrow> p) in
             if scanned \<le> start \<and> start \<le> length bytes then
               (let line' = line + count_breaks (take (start - scanned) (drop scanned bytes)) in
                map_option (\<lambda>rows. bindR rows (\<lambda>out. Inr ((line', cr_fields r) # out))) (csv_lines path bytes line' start recs))
             else None))"

definition csv_rows :: "csv_api \<Rightarrow> csv_reader \<Rightarrow> string \<Rightarrow> string \<Rightarrow> (nat \<times> string list) list result option" where
  "csv_rows A r path bytes = csv_lines path bytes 1 0 (csv_records A True (cv_delimiter r) bytes)"

section \<open>The columns\<close>

definition parses_float :: "'f number_api \<Rightarrow> string \<Rightarrow> bool" where
  "parses_float N s \<longleftrightarrow> nu_parse N (trim s) \<noteq> None"

fun repeated :: "string list \<Rightarrow> string list \<Rightarrow> string list" where
  "repeated seen [] = []"
| "repeated seen (h # hs) = (if h \<in> set seen then h # repeated seen hs else repeated (h # seen) hs)"

fun take_column :: "nat \<Rightarrow> string \<Rightarrow> (nat \<times> string list) list \<Rightarrow> (string list \<times> (nat \<times> string list) list) result" where
  "take_column j name [] = Inr ([], [])"
| "take_column j name ((line, r) # body) =
     (if j < length r then
        bindR (take_column j name body) (\<lambda>(vals, body'). Inr (r ! j # vals, (line, r[j := []]) # body'))
      else
        Inl (csv_err (''line '' @ show_nat line @ '' has '' @ show_nat (length r) @ '' fields; column '' @ dbg_str name
          @ '' is field '' @ show_nat (j + 1))))"

fun parse_column :: "'f number_api \<Rightarrow> string \<Rightarrow> ((nat \<times> string list) \<times> string) list \<Rightarrow> 'f list result" where
  "parse_column N name [] = Inr []"
| "parse_column N name (((line, r), v) # cells) =
     (case nu_parse N (trim v) of
        None \<Rightarrow> Inl (csv_err (''column '' @ dbg_str name @ '' on line '' @ show_nat line @ '': cannot parse '' @ dbg_str v @ '' as a number''))
      | Some x \<Rightarrow> bindR (parse_column N name cells) (\<lambda>xs. Inr (x # xs)))"

fun csv_columns ::
    "'f number_api \<Rightarrow> string list option \<Rightarrow> (nat \<times> string) list \<Rightarrow> (nat \<times> string list) list \<Rightarrow> (string \<times> 'f field) list
      \<Rightarrow> (string \<times> 'f field) list result" where
  "csv_columns N nums [] body out = Inr out"
| "csv_columns N nums ((j, name) # cols) body out =
     bindR (take_column j name body) (\<lambda>(vals, body').
     bindR (if (case nums of Some ns \<Rightarrow> name \<in> set ns | None \<Rightarrow> list_all (parses_float N) vals)
            then bindR (parse_column N name (zip body' vals)) (\<lambda>xs. Inr (AF64 xs)) else Inr (AStr vals)) (\<lambda>data.
       csv_columns N nums cols body' (al_put name (index_field data (length body)) out)))"

definition missing_names :: "string list \<Rightarrow> string list \<Rightarrow> string list" where
  "missing_names names header = ordered (filter (\<lambda>v. v \<notin> set header) names)"

definition csv_table :: "'f number_api \<Rightarrow> csv_reader \<Rightarrow> string \<Rightarrow> (nat \<times> string list) list \<Rightarrow> string list \<Rightarrow> 'f dataset result" where
  "csv_table N r path rows vars =
     (if rows = [] then Inr no_table
      else if length rows \<le> cv_header_row r then
        Inl (csv_err (''header_row '' @ show_nat (cv_header_row r) @ '' is past the '' @ show_nat (length rows)
          @ '' non-blank rows of '' @ path))
      else
        (let body = drop (cv_header_row r + 1) rows; (header_line, header) = rows ! cv_header_row r;
             dups = repeated [] header in
         if dups \<noteq> [] then
           Inl (csv_err (''header on line '' @ show_nat header_line @ '' repeats column names '' @ dbg_list (ordered dups)
             @ ''; every column needs a distinct name''))
         else if vars \<noteq> [] \<and> missing_names vars header \<noteq> [] then
           Inl (csv_err (''requested variables not in CSV: '' @ dbg_list (missing_names vars header)
             @ ''; present columns: '' @ dbg_list header))
         else if (case cv_numeric r of Some ns \<Rightarrow> missing_names ns header \<noteq> [] | None \<Rightarrow> False) then
           Inl (csv_err (''numeric_columns not in CSV: '' @ dbg_list (missing_names (the (cv_numeric r)) header)
             @ ''; present columns: '' @ dbg_list header))
         else
           bindR (csv_columns N (cv_numeric r)
               (filter (\<lambda>(j, name). vars = [] \<or> name \<in> set vars) (zip [0..<length header] header)) body [])
             (\<lambda>vs. Inr \<lparr>ds_vars = vs, ds_coords = []\<rparr>)))"

definition csv_native ::
    "csv_api \<Rightarrow> 'f number_api \<Rightarrow> csv_reader \<Rightarrow> string \<Rightarrow> string list \<Rightarrow> selection \<Rightarrow> ('r io_world, 'f dataset) io" where
  "csv_native A N r path vars sel st =
     (case fs_read path (fst st) of
        Inl e \<Rightarrow> Some (Inl (csv_err (''open '' @ path @ '': '' @ io_text e)), st)
      | Inr bytes \<Rightarrow>
          map_option (\<lambda>rows. (bindR rows (\<lambda>rs. csv_table N r path rs vars), st)) (csv_rows A r path bytes))"

definition csv_registered :: "csv_api \<Rightarrow> 'f number_api \<Rightarrow> ('r, 'f) registered" where
  "csv_registered A N =
     \<lparr>rg_reader = whole_reader [''csv''] (csv_native A N csv_new),
      rg_configured = (\<lambda>options.
        if options = [] then Inr None
        else bindR (csv_from_options options) (\<lambda>r. Inr (Some (whole_reader [''csv''] (csv_native A N r)))))\<rparr>"

section \<open>What a table holds\<close>

definition column_cells :: "nat \<Rightarrow> (nat \<times> string list) list \<Rightarrow> string list" where
  "column_cells j body = map (\<lambda>row. snd row ! j) body"

definition is_numeric :: "'f number_api \<Rightarrow> string list option \<Rightarrow> string \<Rightarrow> string list \<Rightarrow> bool" where
  "is_numeric N nums name vals \<longleftrightarrow> (case nums of Some ns \<Rightarrow> name \<in> set ns | None \<Rightarrow> list_all (parses_float N) vals)"

definition column_ok :: "'f number_api \<Rightarrow> string list option \<Rightarrow> (nat \<times> string list) list \<Rightarrow> nat \<times> string \<Rightarrow> bool" where
  "column_ok N nums body c \<longleftrightarrow>
     (\<forall>row\<in>set body. fst c < length (snd row)) \<and>
     (is_numeric N nums (snd c) (column_cells (fst c) body) \<longrightarrow> (\<forall>v\<in>set (column_cells (fst c) body). parses_float N v))"

definition column_field :: "'f number_api \<Rightarrow> string list option \<Rightarrow> (nat \<times> string list) list \<Rightarrow> nat \<times> string \<Rightarrow> string \<times> 'f field" where
  "column_field N nums body c =
     (let vals = column_cells (fst c) body in
      (snd c, index_field (if is_numeric N nums (snd c) vals then AF64 (map (\<lambda>v. the (nu_parse N (trim v))) vals) else AStr vals)
        (length body)))"

lemma take_column_Inr:
  "take_column j name body = Inr (vals, body') \<longleftrightarrow>
     (\<forall>row\<in>set body. j < length (snd row)) \<and> vals = column_cells j body \<and> body' = map (\<lambda>(l, r). (l, r[j := []])) body"
proof (induction j name body arbitrary: vals body' rule: take_column.induct)
  case (2 j name line r body)
  show ?case
  proof (cases "take_column j name body")
    case (Inl e)
    with "2.IH" show ?thesis by (cases "j < length r") (auto simp: column_cells_def)
  next
    case (Inr p)
    obtain vs b where p: "p = (vs, b)" by (cases p)
    show ?thesis
    proof (cases "j < length r")
      case True
      from "2.IH" [OF True, of vs b] Inr p True show ?thesis by (auto simp: column_cells_def)
    next
      case False
      then show ?thesis by auto
    qed
  qed
qed (auto simp: column_cells_def)

lemma parse_column_Inr:
  "parse_column N name cells = Inr xs \<longleftrightarrow>
     (\<forall>c\<in>set cells. parses_float N (snd c)) \<and> xs = map (\<lambda>c. the (nu_parse N (trim (snd c)))) cells"
proof (induction N name cells arbitrary: xs rule: parse_column.induct)
  case (2 N name line r v cells)
  show ?case
  proof (cases "nu_parse N (trim v)")
    case (Some x)
    with "2.IH" [OF Some] show ?thesis
      by (cases "parse_column N name cells") (auto simp: parses_float_def)
  qed (auto simp: parses_float_def)
qed auto

lemma column_cells_taken: "i \<noteq> j \<Longrightarrow> column_cells i (map (\<lambda>(l, r). (l, r[j := []])) body) = column_cells i body"
  by (auto simp: column_cells_def)

lemma column_taken:
  assumes "fst c \<noteq> j"
  shows "column_ok N nums (map (\<lambda>(l, r). (l, r[j := []])) body) c = column_ok N nums body c"
    and "column_field N nums (map (\<lambda>(l, r). (l, r[j := []])) body) c = column_field N nums body c"
  using assms by (auto simp: column_ok_def column_field_def column_cells_taken)

lemma column_step:
  "bindR (take_column j name body) (\<lambda>(vals, body').
     bindR (if (case nums of Some ns \<Rightarrow> name \<in> set ns | None \<Rightarrow> list_all (parses_float N) vals)
            then bindR (parse_column N name (zip body' vals)) (\<lambda>xs. Inr (AF64 xs)) else Inr (AStr vals)) (\<lambda>data. f body' data)) = Inr vs \<longleftrightarrow>
   column_ok N nums body (j, name) \<and>
   f (map (\<lambda>(l, r). (l, r[j := []])) body) (f_data (snd (column_field N nums body (j, name)))) = Inr vs"
proof (cases "take_column j name body")
  case (Inl e)
  then have "\<not> (\<forall>row\<in>set body. j < length (snd row))"
    using take_column_Inr [of j name body "column_cells j body" "map (\<lambda>(l, r). (l, r[j := []])) body"] by auto
  with Inl show ?thesis by (auto simp: column_ok_def)
next
  case (Inr p)
  obtain vals body' where p: "p = (vals, body')" by (cases p)
  with Inr take_column_Inr have t: "\<forall>row\<in>set body. j < length (snd row)" "vals = column_cells j body"
    "body' = map (\<lambda>(l, r). (l, r[j := []])) body" by auto
  have "length body' = length vals" using t by (simp add: column_cells_def)
  then have m: "map snd (zip body' vals) = vals" by (rule map_snd_zip)
  then have z: "snd ` set (zip body' vals) = set vals" by (metis set_map)
  have "map (\<lambda>c. the (nu_parse N (trim (snd c)))) (zip body' vals) = map (\<lambda>v. the (nu_parse N (trim v))) (map snd (zip body' vals))" by simp
  then have zp: "map (\<lambda>c. the (nu_parse N (trim (snd c)))) (zip body' vals) = map (\<lambda>v. the (nu_parse N (trim v))) vals" unfolding m .
  show ?thesis
  proof (cases "is_numeric N nums name vals")
    case True
    have pc: "parse_column N name (zip body' vals) = Inr xs \<longleftrightarrow> (\<forall>v\<in>set vals. parses_float N v) \<and> xs = map (\<lambda>v. the (nu_parse N (trim v))) vals" for xs
      unfolding parse_column_Inr zp z [symmetric] by auto
    have num: "(case nums of Some ns \<Rightarrow> name \<in> set ns | None \<Rightarrow> list_all (parses_float N) vals) = True"
      using True by (simp add: is_numeric_def)
    show ?thesis
    proof (cases "\<forall>v\<in>set vals. parses_float N v")
      case all: True
      then have "parse_column N name (zip body' vals) = Inr (map (\<lambda>v. the (nu_parse N (trim v))) vals)" by (simp add: pc)
      with all True Inr p t num [unfolded t(2)] show ?thesis by (simp add: column_ok_def column_field_def index_field_def Let_def)
    next
      case False
      then obtain e where "parse_column N name (zip body' vals) = Inl e" using pc by (cases "parse_column N name (zip body' vals)") auto
      with False True Inr p t num [unfolded t(2)] show ?thesis by (auto simp: column_ok_def)
    qed
  next
    case False
    with Inr p t show ?thesis
      by (auto simp: column_ok_def column_field_def is_numeric_def index_field_def Let_def)
  qed
qed

lemma csv_columns_exact:
  assumes "distinct (map fst cols)" "distinct (map snd cols)" "snd ` set cols \<inter> fst ` set out = {}"
  shows "csv_columns N nums cols body out = Inr vs \<longleftrightarrow>
    (\<forall>c\<in>set cols. column_ok N nums body c) \<and> vs = out @ map (column_field N nums body) cols"
  using assms
proof (induction cols arbitrary: body out)
  case (Cons c cols)
  obtain j name where c: "c = (j, name)" by (cases c)
  let ?b = "map (\<lambda>(l, r). (l, r[j := []])) body" and ?F = "column_field N nums body (j, name)"
  have f: "index_field (f_data (snd ?F)) (length body) = snd ?F" "fst ?F = name"
    by (simp_all add: column_field_def index_field_def Let_def)
  then have put: "al_put name (snd ?F) out = out @ [?F]"
    using Cons.prems(3) c by (subst al_put_fresh) (auto simp: prod_eq_iff)
  have taken: "column_ok N nums ?b d = column_ok N nums body d" "column_field N nums ?b d = column_field N nums body d" if "d \<in> set cols" for d
    using column_taken [of d j] that Cons.prems(1) c by force+
  have "csv_columns N nums (c # cols) body out = Inr vs \<longleftrightarrow>
      column_ok N nums body c \<and> csv_columns N nums cols ?b (out @ [?F]) = Inr vs"
    unfolding c csv_columns.simps column_step f put ..
  also have "\<dots> \<longleftrightarrow> column_ok N nums body c \<and> (\<forall>d\<in>set cols. column_ok N nums ?b d) \<and> vs = (out @ [?F]) @ map (column_field N nums ?b) cols"
    using Cons.prems c f(2) by (subst Cons.IH) auto
  also have "\<dots> \<longleftrightarrow> (\<forall>d\<in>set (c # cols). column_ok N nums body d) \<and> vs = out @ map (column_field N nums body) (c # cols)"
    using taken by (auto simp: c cong: map_cong)
  finally show ?case .
qed auto

lemma repeated_Nil: "repeated seen hs = [] \<longleftrightarrow> distinct hs \<and> set hs \<inter> set seen = {}"
  by (induction seen hs rule: repeated.induct) auto

lemma missing_Nil: "missing_names names header = [] \<longleftrightarrow> set names \<subseteq> set header"
proof -
  have "missing_names names header = [] \<longleftrightarrow> set (missing_names names header) = {}" by simp
  also have "\<dots> \<longleftrightarrow> set names \<subseteq> set header" by (auto simp: missing_names_def)
  finally show ?thesis .
qed

text \<open>C38: what the \<open>csv\<close> reader makes of the non-blank rows of a file. It returns a table exactly when the row that holds
  the names is there, names no column twice, has every requested and every declared numeric column, every later row
  reaches the wanted columns, and every cell of a numeric column is a number; and then the table has one field for each
  wanted column, in the order of the header, with one cell for each later row: numbers where the column is declared
  numeric, or, when nothing is declared, where all its cells are numbers, and else the texts as they are. That cells are
  moved out of the rows never shows. No rows give the empty table.\<close>

theorem csv_table_exact:
  "csv_table N r path rows vars = Inr ds \<longleftrightarrow>
     (rows = [] \<and> ds = no_table) \<or>
     (\<exists>before line header body. rows = before @ (line, header) # body \<and> length before = cv_header_row r \<and>
        distinct header \<and> set vars \<subseteq> set header \<and> (\<forall>ns. cv_numeric r = Some ns \<longrightarrow> set ns \<subseteq> set header) \<and>
        (let wanted = filter (\<lambda>c. vars = [] \<or> snd c \<in> set vars) (zip [0..<length header] header) in
           (\<forall>c\<in>set wanted. column_ok N (cv_numeric r) body c) \<and>
           ds = \<lparr>ds_vars = map (column_field N (cv_numeric r) body) wanted, ds_coords = []\<rparr>))"
proof (cases "cv_header_row r < length rows")
  case False
  then show ?thesis by (auto simp: csv_table_def)
next
  case True
  obtain line header where h: "rows ! cv_header_row r = (line, header)" by (cases "rows ! cv_header_row r")
  define body where "body = drop (cv_header_row r + 1) rows"
  let ?w = "filter (\<lambda>c. vars = [] \<or> snd c \<in> set vars) (zip [0..<length header] header)"
  have split: "rows = before @ (l, hs) # b \<and> length before = cv_header_row r \<longleftrightarrow>
      before = take (cv_header_row r) rows \<and> l = line \<and> hs = header \<and> b = body" for before l hs b
    using True h id_take_nth_drop [OF True] by (auto simp: body_def nth_append)
  have fst_w: "distinct (map fst ?w)" by (simp add: distinct_map_filter)
  have snd_w: "distinct (map snd ?w)" if "distinct header" using that by (simp add: distinct_map_filter)
  have w: "filter (\<lambda>(j, name). vars = [] \<or> name \<in> set vars) (zip [0..<length header] header) = ?w"
    by (simp add: case_prod_unfold)
  let ?G = "distinct header \<and> set vars \<subseteq> set header \<and> (\<forall>ns. cv_numeric r = Some ns \<longrightarrow> set ns \<subseteq> set header)"
  let ?C = "csv_columns N (cv_numeric r) ?w body []"
  have "\<exists>e. csv_table N r path rows vars = Inl e" if "\<not> ?G"
    using that True by (auto simp: csv_table_def h repeated_Nil missing_Nil Let_def)
  moreover have "csv_table N r path rows vars = bindR ?C (\<lambda>vs. Inr \<lparr>ds_vars = vs, ds_coords = []\<rparr>)" if ?G
    using that True by (auto simp: csv_table_def h body_def w repeated_Nil missing_Nil Let_def split: option.split)
  moreover have "bindR ?C (\<lambda>vs. Inr \<lparr>ds_vars = vs, ds_coords = []\<rparr>) = Inr ds \<longleftrightarrow>
      (\<forall>c\<in>set ?w. column_ok N (cv_numeric r) body c) \<and> ds = \<lparr>ds_vars = map (column_field N (cv_numeric r) body) ?w, ds_coords = []\<rparr>" if ?G
  proof -
    have e: "?C = Inr vs \<longleftrightarrow> (\<forall>c\<in>set ?w. column_ok N (cv_numeric r) body c) \<and> vs = map (column_field N (cv_numeric r) body) ?w" for vs
      using csv_columns_exact [OF fst_w snd_w, of "[]" N "cv_numeric r" body vs] that by simp
    then show ?thesis by (cases ?C) auto
  qed
  ultimately have "csv_table N r path rows vars = Inr ds \<longleftrightarrow> distinct header \<and> set vars \<subseteq> set header \<and>
      (\<forall>ns. cv_numeric r = Some ns \<longrightarrow> set ns \<subseteq> set header) \<and> (\<forall>c\<in>set ?w. column_ok N (cv_numeric r) body c) \<and>
      ds = \<lparr>ds_vars = map (column_field N (cv_numeric r) body) ?w, ds_coords = []\<rparr>" by (metis Inl_Inr_False)
  moreover have "rows \<noteq> []" using True by auto
  moreover have "(\<exists>before l hs b. (rows = before @ (l, hs) # b \<and> length before = cv_header_row r) \<and> P hs b) \<longleftrightarrow> P header body" for P
    by (simp add: split)
  ultimately show ?thesis by (simp only: conj_assoc [symmetric] Let_def) (simp only: conj_assoc simp_thms)
qed

definition whole_numbers :: "int number_api" where
  "whole_numbers = \<lparr>nu_parse = (\<lambda>s. if s \<noteq> [] \<and> list_all is_digit s then Some (int (dec_value s)) else None), nu_json = (\<lambda>v. None),
     nu_nan = 0, nu_infinity = 0, nu_is_infinite = (\<lambda>x. False), nu_is_zero = (\<lambda>x. x = 0), nu_zero = 0\<rparr>"

definition station_rows :: "(nat \<times> string list) list" where
  "station_rows = [(1, [''id'', ''name'', ''o3'']), (2, [''007'', ''Bly'', '' 41'']), (4, [''012'', ''Ely'', ''39'', ''late''])]"

theorem csv_table_exact_witness:
  "csv_table whole_numbers (numeric_columns [''o3''] csv_new) ''a.csv'' station_rows [''o3'', ''id''] =
     Inr \<lparr>ds_vars = [(''id'', index_field (AStr [''007'', ''012'']) 2), (''o3'', index_field (AF64 [41, 39]) 2)], ds_coords = []\<rparr>"
proof -
  have o: "cv_header_row (numeric_columns [''o3''] csv_new) = 0" "cv_numeric (numeric_columns [''o3''] csv_new) = Some [''o3'']"
    by (simp_all add: numeric_columns_def csv_new_def)
  have "column_ok whole_numbers (Some [''o3'']) (tl station_rows) (0, ''id'')" "column_ok whole_numbers (Some [''o3'']) (tl station_rows) (2, ''o3'')"
    "column_field whole_numbers (Some [''o3'']) (tl station_rows) (0, ''id'') = (''id'', index_field (AStr [''007'', ''012'']) 2)"
    "column_field whole_numbers (Some [''o3'']) (tl station_rows) (2, ''o3'') = (''o3'', index_field (AF64 [41, 39]) 2)"
    by code_simp+
  moreover have "filter (\<lambda>c. [''o3'', ''id''] = [] \<or> snd c \<in> set [''o3'', ''id'']) (zip [0..<length [''id'', ''name'', ''o3'']] [''id'', ''name'', ''o3'']) =
      [(0, ''id''), (2, ''o3'')]" by code_simp
  ultimately show ?thesis
    by (subst csv_table_exact, intro disjI2 exI [of _ "[]"] exI [of _ 1] exI [of _ "[''id'', ''name'', ''o3'']"] exI [of _ "tl station_rows"])
      (simp only: o Let_def, simp add: station_rows_def)
qed

section \<open>The line of a row\<close>

lemma skip_breaks_step:
  "skip_breaks bytes p = (if p < length bytes \<and> is_break (bytes ! p) then skip_breaks bytes (Suc p) else p)"
  by (cases "p < length bytes") (auto simp: skip_breaks_def Cons_nth_drop_Suc [symmetric])

lemma skip_breaks_mono: "p \<le> q \<Longrightarrow> skip_breaks bytes p \<le> skip_breaks bytes q"
proof (induction q rule: dec_induct)
  case (step q)
  have "skip_breaks bytes q \<le> skip_breaks bytes (Suc q)"
    by (subst skip_breaks_step) (simp add: skip_breaks_def)
  with step.IH show ?case by simp
qed simp

lemma skip_breaks_length: "p \<le> length bytes \<Longrightarrow> skip_breaks bytes p \<le> length bytes"
  using length_takeWhile_le [of is_break "drop p bytes"] by (simp add: skip_breaks_def)

lemma count_breaks_take: "a \<le> b \<Longrightarrow> count_breaks (take b bytes) = count_breaks (take a bytes) + count_breaks (take (b - a) (drop a bytes))"
  using take_add [of a "b - a" bytes] by (simp add: count_breaks_def)

text \<open>When the records are reported where the ones before them ended, in order and inside the text, no slice is out of bounds, and each row is
  counted from the line its first byte is on.\<close>

lemma csv_lines_exact:
  assumes "sorted_wrt (\<le>) ps" "\<forall>p\<in>set ps. a \<le> skip_breaks bytes p \<and> p \<le> length bytes"
    and "line = 1 + count_breaks (take a bytes)" "length fs = length ps"
  shows "csv_lines path bytes line a (map2 (\<lambda>p f. Inr \<lparr>cr_position = Some p, cr_fields = f\<rparr>) ps fs) =
    Some (Inr (map (\<lambda>(p, f). (1 + count_breaks (take (skip_breaks bytes p) bytes), f)) (filter (\<lambda>(p, f). f \<noteq> []) (zip ps fs))))"
  using assms(4,1-3)
proof (induction fs ps arbitrary: line a rule: list_induct2)
  case (Cons f fs p ps)
  let ?s = "skip_breaks bytes p"
  have s: "a \<le> ?s" "?s \<le> length bytes" using Cons.prems skip_breaks_length by auto
  have later: "\<forall>q\<in>set ps. ?s \<le> skip_breaks bytes q \<and> q \<le> length bytes" using Cons.prems skip_breaks_mono by auto
  have n: "line + count_breaks (take (?s - a) (drop a bytes)) = 1 + count_breaks (take ?s bytes)"
    using Cons.prems(3) count_breaks_take [OF s(1)] by simp
  show ?case
  proof (cases "f = []")
    case True
    then show ?thesis using Cons.IH [of a line] Cons.prems by simp
  next
    case False
    then show ?thesis using Cons.IH [OF _ later refl] Cons.prems(1) s n by (simp add: Let_def)
  qed
qed simp

end
