(* ===== verification/JsonTable.thy ===== *)
theory JsonTable
  imports Tables
begin

text \<open>
  The \<open>json\<close> reader (\<open>rust/src/format/json_reader.rs\<close>): an array of records becomes a table with one column for each leaf,
  named by its keys joined with dots.

  The JSON parser, the printer of a value in a message and the check of UTF-8 are parameters (\<open>json_text_api\<close>). The
  members of an object are an association list without repeated keys, as \<open>serde_json::Map\<close> gives them. The set of the
  paths that hold an object is the list of them.
\<close>

section \<open>The reader and its options\<close>

record json_reader =
  jr_records_path :: "string list"
  jr_numeric :: "string list"

record json_text_api =
  jt_utf8_error :: "string \<Rightarrow> string option"
  jt_parse :: "string \<Rightarrow> string + json"
  jt_show :: "json \<Rightarrow> string"

definition json_err :: "string \<Rightarrow> string \<Rightarrow> error" where
  "json_err code detail = FormatError ''json'' (code @ '': '' @ detail)"

definition json_new :: json_reader where
  "json_new = \<lparr>jr_records_path = [], jr_numeric = []\<rparr>"

definition str_list :: "string \<Rightarrow> json \<Rightarrow> string list result" where
  "str_list name v =
     (if v = JNull then Inr []
      else string_list (json_err ''json_option'' (''reader option '' @ dbg_str name @ '' must be an array of strings'')) v)"

definition json_option :: "string \<times> json \<Rightarrow> json_reader \<Rightarrow> json_reader result" where
  "json_option kv r =
     (let (k, v) = kv in
      if k = ''records_path'' then bindR (str_list k v) (\<lambda>ks. Inr (r\<lparr>jr_records_path := ks\<rparr>))
      else if k = ''numeric_columns'' then bindR (str_list k v) (\<lambda>ks. Inr (r\<lparr>jr_numeric := ks\<rparr>))
      else Inl (json_err ''json_option'' (''unknown reader option '' @ dbg_str k @ ''; json takes records_path, numeric_columns'')))"

fun json_options :: "(string \<times> json) list \<Rightarrow> json_reader \<Rightarrow> json_reader result" where
  "json_options [] r = Inr r"
| "json_options (kv # kvs) r = bindR (json_option kv r) (json_options kvs)"

definition json_from_options :: "(string \<times> json) list \<Rightarrow> json_reader result" where
  "json_from_options options = json_options options json_new"

fun json_kind :: "json option \<Rightarrow> string" where
  "json_kind None = ''null''"
| "json_kind (Some JNull) = ''null''"
| "json_kind (Some (JBool b)) = ''bool''"
| "json_kind (Some (JInt i)) = ''number''"
| "json_kind (Some (JNum s)) = ''number''"
| "json_kind (Some (JStr s)) = ''string''"
| "json_kind (Some (JArr a)) = ''array''"
| "json_kind (Some (JObj m)) = ''object''"

section \<open>Numbers\<close>

definition skip_sign :: "string \<Rightarrow> string" where
  "skip_sign s = (case s of c # cs \<Rightarrow> if c = CHR ''+'' \<or> c = CHR ''-'' then cs else s | [] \<Rightarrow> [])"

definition exponent_ends :: "string \<Rightarrow> bool" where
  "exponent_ends s =
     (case s of
        c # cs \<Rightarrow>
          if c = CHR ''e'' \<or> c = CHR ''E''
          then takeWhile is_digit (skip_sign cs) \<noteq> [] \<and> dropWhile is_digit (skip_sign cs) = []
          else False
      | [] \<Rightarrow> True)"

definition is_numeric_text :: "string \<Rightarrow> bool" where
  "is_numeric_text s =
     (let whole = takeWhile is_digit (skip_sign s); rest = dropWhile is_digit (skip_sign s) in
      case rest of
        c # cs \<Rightarrow>
          if c = CHR ''.''
          then (whole \<noteq> [] \<or> takeWhile is_digit cs \<noteq> []) \<and> exponent_ends (dropWhile is_digit cs)
          else whole \<noteq> [] \<and> exponent_ends rest
      | [] \<Rightarrow> whole \<noteq> [])"

definition is_ascii_ws :: "char \<Rightarrow> bool" where
  "is_ascii_ws c \<longleftrightarrow> c = CHR '' '' \<or> c = CHR 0x09 \<or> c = CHR 0x0A \<or> c = CHR 0x0D"

definition trim_ascii_ws :: "string \<Rightarrow> string" where
  "trim_ascii_ws s = rev (dropWhile is_ascii_ws (rev (dropWhile is_ascii_ws s)))"

definition finite_number :: "'f number_api \<Rightarrow> 'f \<Rightarrow> string \<Rightarrow> nat \<Rightarrow> string \<Rightarrow> 'f result" where
  "finite_number N f name row shown =
     (if nu_is_infinite N f then
        Inl (json_err ''json_parse'' (''field '' @ dbg_str name @ '' record '' @ show_nat row @ '': number '' @ shown
          @ '' is outside the float64 range''))
      else Inr (if nu_is_zero N f then nu_zero N else f))"

definition json_number :: "json_text_api \<Rightarrow> 'f number_api \<Rightarrow> json \<Rightarrow> string \<Rightarrow> nat \<Rightarrow> 'f result" where
  "json_number T N v name row =
     finite_number N (case nu_json N v of Some f \<Rightarrow> f | None \<Rightarrow> nu_infinity N) name row (jt_show T v)"

section \<open>Leaves and columns\<close>

text \<open>The state is the leaves found so far and the paths that hold an object.\<close>

function flatten :: "(string \<times> json) list \<Rightarrow> string \<Rightarrow> (string \<times> json) list \<times> string list \<Rightarrow> nat
    \<Rightarrow> ((string \<times> json) list \<times> string list) result" where
  "flatten [] prefix st row = Inr st"
| "flatten ((k, v) # kvs) prefix st row =
     (let name = prefix @ k in
      case as_object v of
        Some members \<Rightarrow>
          (case flatten members (name @ ''.'') (fst st, name # snd st) row of
             Inl e \<Rightarrow> Inl e
           | Inr st' \<Rightarrow> flatten kvs prefix st' row)
      | None \<Rightarrow>
          if map_of (fst st) name \<noteq> None then
            Inl (json_err ''json_field_conflict'' (''record '' @ show_nat row @ '': field '' @ dbg_str name
              @ '' appears twice once flattened''))
          else flatten kvs prefix (al_put name v (fst st), snd st) row)"
  by pat_completeness auto
termination
  by (relation "measure (\<lambda>(m, prefix, st, row). size_list (size_prod (\<lambda>_. 0) size) m)")
    (auto simp: as_object_def split: json.splits)

definition numeric_cell :: "json_text_api \<Rightarrow> 'f number_api \<Rightarrow> string \<Rightarrow> nat \<Rightarrow> json option \<Rightarrow> 'f result" where
  "numeric_cell T N name i v =
     (let bad = (\<lambda>x. Inl (json_err ''json_numeric_text'' (''field '' @ dbg_str name @ '' record '' @ show_nat i @ '': cannot read ''
          @ x @ '' as a number''))) in
      case v of
        None \<Rightarrow> Inr (nu_nan N)
      | Some JNull \<Rightarrow> Inr (nu_nan N)
      | Some (JInt n) \<Rightarrow> json_number T N (JInt n) name i
      | Some (JNum s) \<Rightarrow> json_number T N (JNum s) name i
      | Some (JStr s) \<Rightarrow>
          if is_numeric_text (trim_ascii_ws s) then
            (case nu_parse N (trim_ascii_ws s) of
               None \<Rightarrow> bad (dbg_str s)
             | Some f \<Rightarrow> finite_number N f name i (trim_ascii_ws s))
          else bad (jt_show T (JStr s))
      | Some other \<Rightarrow> bad (jt_show T other))"

fun numeric_cells :: "json_text_api \<Rightarrow> 'f number_api \<Rightarrow> string \<Rightarrow> nat \<Rightarrow> json option list \<Rightarrow> 'f list result" where
  "numeric_cells T N name i [] = Inr []"
| "numeric_cells T N name i (v # vs) =
     bindR (numeric_cell T N name i v) (\<lambda>f. bindR (numeric_cells T N name (Suc i) vs) (\<lambda>fs. Inr (f # fs)))"

fun number_cells :: "json_text_api \<Rightarrow> 'f number_api \<Rightarrow> string \<Rightarrow> nat \<Rightarrow> json option list \<Rightarrow> 'f list result" where
  "number_cells T N name i [] = Inr []"
| "number_cells T N name i (v # vs) =
     bindR (if json_kind v = ''number'' then json_number T N (the v) name i else Inr (nu_nan N)) (\<lambda>f.
     bindR (number_cells T N name (Suc i) vs) (\<lambda>fs. Inr (f # fs)))"

fun bool_cells :: "string \<Rightarrow> nat \<Rightarrow> json option list \<Rightarrow> bool list result" where
  "bool_cells name i [] = Inr []"
| "bool_cells name i (v # vs) =
     (case v of
        Some (JBool b) \<Rightarrow> bindR (bool_cells name (Suc i) vs) (\<lambda>bs. Inr (b # bs))
      | _ \<Rightarrow> Inl (json_err ''json_null_bool'' (''field '' @ dbg_str name @ '' record '' @ show_nat i
          @ '' is null in a boolean field, which has no missing value'')))"

definition text_cell :: "json option \<Rightarrow> string" where
  "text_cell v = (case v of Some (JStr s) \<Rightarrow> s | _ \<Rightarrow> [])"

definition kinds_of :: "json option list \<Rightarrow> string list" where
  "kinds_of vals = ordered (filter (\<lambda>k. k \<noteq> ''null'') (map json_kind vals))"

definition json_column :: "json_text_api \<Rightarrow> 'f number_api \<Rightarrow> string \<Rightarrow> json option list \<Rightarrow> bool \<Rightarrow> 'f array_data result" where
  "json_column T N name vals numeric =
     (case position (\<lambda>v. json_kind v = ''array'') vals of
        Some row \<Rightarrow>
          Inl (json_err ''json_nested_array'' (''field '' @ dbg_str name @ '' record '' @ show_nat row
            @ '' is an array; a points field is one value per record (leave the field out of `variables`)''))
      | None \<Rightarrow>
          if numeric then bindR (numeric_cells T N name 0 vals) (\<lambda>fs. Inr (AF64 fs))
          else
            (let present = kinds_of vals in
             if 1 < length present then
               Inl (json_err ''json_mixed_types'' (''field '' @ dbg_str name @ '' mixes JSON kinds '' @ dbg_set present))
             else
               (let k = (case present of k # ks \<Rightarrow> k | [] \<Rightarrow> ''null'') in
                if k = ''number'' \<or> k = ''null'' then bindR (number_cells T N name 0 vals) (\<lambda>fs. Inr (AF64 fs))
                else if k = ''string'' then Inr (AStr (map text_cell vals))
                else bindR (bool_cells name 0 vals) (\<lambda>bs. Inr (ABool bs)))))"

section \<open>Reading\<close>

definition place_of :: "string list \<Rightarrow> string" where
  "place_of keys = (if keys = [] then ''the root'' else ''records_path '' @ dbg_list keys)"

fun descend :: "string list \<Rightarrow> string list \<Rightarrow> json \<Rightarrow> json result" where
  "descend seen [] node = Inr node"
| "descend seen (key # keys) node =
     (case as_object node of
        None \<Rightarrow> Inl (json_err ''json_records_path'' (place_of seen @ '' is a JSON '' @ json_kind (Some node) @ '', not an object''))
      | Some members \<Rightarrow>
          (case map_of members key of
             None \<Rightarrow> Inl (json_err ''json_records_path'' (place_of seen @ '' has no member '' @ dbg_str key @ ''; members: ''
               @ dbg_set (ordered (map fst members))))
           | Some child \<Rightarrow> descend (seen @ [key]) keys child))"

definition records_of :: "string list \<Rightarrow> json \<Rightarrow> json list result" where
  "records_of path doc =
     bindR (descend [] path doc) (\<lambda>node.
       case as_array node of
         Some records \<Rightarrow> Inr records
       | None \<Rightarrow> Inl (json_err ''json_records_path'' (place_of path @ '' is a JSON '' @ json_kind (Some node)
           @ '', not an array of records'')))"

fun flatten_records :: "nat \<Rightarrow> json list \<Rightarrow> string list \<Rightarrow> ((string \<times> json) list list \<times> string list) result" where
  "flatten_records i [] paths = Inr ([], paths)"
| "flatten_records i (rec # recs) paths =
     (case as_object rec of
        None \<Rightarrow> Inl (json_err ''json_record_not_object'' (''record '' @ show_nat i @ '' is a JSON '' @ json_kind (Some rec)
          @ '', not an object''))
      | Some members \<Rightarrow>
          bindR (flatten members [] ([], paths) i) (\<lambda>(flat, paths).
          bindR (flatten_records (Suc i) recs paths) (\<lambda>(flats, paths). Inr (flat # flats, paths))))"

fun json_columns ::
    "json_text_api \<Rightarrow> 'f number_api \<Rightarrow> string list \<Rightarrow> (string \<times> json) list list \<Rightarrow> string list \<Rightarrow> string list
      \<Rightarrow> (string \<times> 'f field) list \<Rightarrow> (string \<times> 'f field) list result" where
  "json_columns T N numeric flats paths [] out = Inr out"
| "json_columns T N numeric flats paths (name # names) out =
     (if name \<in> set paths then
        Inl (json_err ''json_field_conflict'' (''field '' @ dbg_str name @ '' is a value in one record and an object in another''))
      else
        bindR (json_column T N name (map (\<lambda>flat. map_of flat name) flats) (name \<in> set numeric)) (\<lambda>data.
          json_columns T N numeric flats paths names (al_put name (index_field data (length flats)) out)))"

definition json_table :: "json_text_api \<Rightarrow> 'f number_api \<Rightarrow> json_reader \<Rightarrow> json list \<Rightarrow> string list \<Rightarrow> 'f dataset result" where
  "json_table T N r records vars =
     bindR (flatten_records 0 records []) (\<lambda>(flats, paths).
       (let names = ordered (concat (map (map fst) flats));
            missing = filter (\<lambda>v. v \<notin> set names) (ordered vars) in
        if vars \<noteq> [] \<and> missing \<noteq> [] then
          Inl (json_err ''json_variables_missing'' (''requested variables not in the JSON records: '' @ dbg_list missing
            @ ''; present fields: '' @ dbg_set names))
        else
          bindR (json_columns T N (jr_numeric r) flats paths (if vars = [] then names else ordered vars) []) (\<lambda>vs.
            Inr \<lparr>ds_vars = vs, ds_coords = []\<rparr>)))"

definition json_native ::
    "json_text_api \<Rightarrow> 'f number_api \<Rightarrow> json_reader \<Rightarrow> string \<Rightarrow> string list \<Rightarrow> selection \<Rightarrow> ('r io_world, 'f dataset) io" where
  "json_native T N r path vars sel st =
     (if sel \<noteq> SelAll then
        Some (Inl (json_err ''json_option'' ''the json reader supports no selection (supports_selection is false)''), st)
      else
        (case fs_read path (fst st) of
           Inl e \<Rightarrow> Some (Inl (json_err ''json_parse'' (''open '' @ path @ '': '' @ io_text e)), st)
         | Inr bytes \<Rightarrow>
             (case jt_utf8_error T bytes of
                Some e \<Rightarrow> Some (Inl (json_err ''json_parse'' (path @ '': not UTF-8 ('' @ e @ '')'')), st)
              | None \<Rightarrow>
                  (case jt_parse T bytes of
                     Inl e \<Rightarrow> Some (Inl (json_err ''json_parse'' (path @ '': '' @ e)), st)
                   | Inr doc \<Rightarrow> Some (bindR (records_of (jr_records_path r) doc) (\<lambda>recs. json_table T N r recs vars), st)))))"

definition json_registered :: "json_text_api \<Rightarrow> 'f number_api \<Rightarrow> ('r, 'f) registered" where
  "json_registered T N =
     \<lparr>rg_reader = whole_reader [''json''] (json_native T N json_new),
      rg_configured = (\<lambda>options.
        if options = [] then Inr None
        else bindR (json_from_options options) (\<lambda>r. Inr (Some (whole_reader [''json''] (json_native T N r)))))\<rparr>"

section \<open>What is a number\<close>

text \<open>Digits, optionally a point and digits on either side of it, optionally an exponent.\<close>

definition digits :: "string \<Rightarrow> bool" where "digits s \<longleftrightarrow> (\<forall>c\<in>set s. is_digit c)"

definition signs :: "string set" where "signs = {[], ''+'', ''-''}"

definition mantissa :: "string \<Rightarrow> bool" where
  "mantissa m \<longleftrightarrow> (m \<noteq> [] \<and> digits m) \<or> (\<exists>a b. m = a @ ''.'' @ b \<and> digits a \<and> digits b \<and> a @ b \<noteq> [])"

definition exponent :: "string \<Rightarrow> bool" where
  "exponent x \<longleftrightarrow> x = [] \<or> (\<exists>e sg ds. x = e # sg @ ds \<and> e \<in> set ''eE'' \<and> sg \<in> signs \<and> ds \<noteq> [] \<and> digits ds)"

lemma digit_not_mark: "is_digit c \<Longrightarrow> c \<notin> set ''+-.eE''"
  by (auto simp: is_digit_def)

lemma skip_sign_sign: "sg \<in> signs \<Longrightarrow> t = [] \<or> hd t \<notin> set ''+-'' \<Longrightarrow> skip_sign (sg @ t) = t"
  by (cases t) (auto simp: signs_def skip_sign_def)

lemma skip_sign_split: "\<exists>sg\<in>signs. s = sg @ skip_sign s"
  by (cases s) (auto simp: signs_def skip_sign_def)

lemma take_digits: "digits a \<Longrightarrow> t = [] \<or> \<not> is_digit (hd t) \<Longrightarrow> takeWhile is_digit (a @ t) = a \<and> dropWhile is_digit (a @ t) = t"
  by (cases t) (auto simp: digits_def takeWhile_append dropWhile_append)

lemma take_all_digits [simp]: "digits a \<Longrightarrow> takeWhile is_digit a = a" "digits a \<Longrightarrow> dropWhile is_digit a = []"
  by (simp_all add: digits_def)

lemma digits_takeWhile: "digits (takeWhile is_digit s)"
  by (auto simp: digits_def dest: set_takeWhileD)

lemma exponent_ends_exact: "exponent_ends s \<longleftrightarrow> exponent s"
proof
  assume e: "exponent_ends s"
  show "exponent s"
  proof (cases s)
    case (Cons c cs)
    from e Cons have c: "c \<in> set ''eE''" and d: "takeWhile is_digit (skip_sign cs) \<noteq> []" "dropWhile is_digit (skip_sign cs) = []"
      by (auto simp: exponent_ends_def split: if_splits)
    from d(2) takeWhile_dropWhile_id [of is_digit "skip_sign cs"] have "skip_sign cs = takeWhile is_digit (skip_sign cs)" by (metis append_Nil2)
    moreover obtain sg where "sg \<in> signs" "cs = sg @ skip_sign cs" using skip_sign_split by blast
    ultimately show ?thesis using Cons c d digits_takeWhile by (metis exponent_def)
  qed (simp add: exponent_def)
next
  assume "exponent s"
  then consider "s = []" | e sg ds where "s = e # sg @ ds" "e \<in> set ''eE''" "sg \<in> signs" "ds \<noteq> []" "digits ds"
    by (auto simp: exponent_def)
  then show "exponent_ends s"
  proof cases
    case 2
    have "hd ds \<notin> set ''+-''" using 2(4,5) digit_not_mark [of "hd ds"] by (auto simp: digits_def)
    then have "skip_sign (sg @ ds) = ds" by (intro skip_sign_sign [OF 2(3)]) simp
    with 2 show ?thesis by (auto simp: exponent_ends_def digits_def)
  qed (simp add: exponent_ends_def)
qed

lemma exponent_head: "exponent x \<Longrightarrow> x = [] \<or> (\<not> is_digit (hd x) \<and> hd x \<noteq> CHR ''.'')"
  by (auto simp: exponent_def is_digit_def)

lemma mantissa_nonempty: "mantissa m \<Longrightarrow> m \<noteq> [] \<and> hd m \<notin> set ''+-''"
  by (cases m) (auto simp: mantissa_def digits_def Cons_eq_append_conv is_digit_def)

text \<open>The texts a declared numeric column accepts are the decimal numbers and nothing else: an optional sign, digits with at most
  one point and at least one digit, and an optional exponent with at least one digit; no \<open>nan\<close>, no infinity, no separator.\<close>

theorem numeric_text_exact:
  "is_numeric_text s \<longleftrightarrow> (\<exists>sg m x. s = sg @ m @ x \<and> sg \<in> signs \<and> mantissa m \<and> exponent x)"
proof
  let ?t = "skip_sign s"
  let ?a = "takeWhile is_digit ?t" and ?r = "dropWhile is_digit ?t"
  assume n: "is_numeric_text s"
  obtain sg where sg: "sg \<in> signs" "s = sg @ ?t" using skip_sign_split by blast
  have t: "?t = ?a @ ?r" by simp
  have "\<exists>m x. ?t = m @ x \<and> mantissa m \<and> exponent x"
  proof (cases ?r)
    case Nil
    with n t have "?a \<noteq> []" "?t = ?a @ []" by (auto simp: is_numeric_text_def)
    with digits_takeWhile show ?thesis unfolding mantissa_def exponent_def by blast
  next
    case (Cons c cs)
    show ?thesis
    proof (cases "c = CHR ''.''")
      case True
      let ?b = "takeWhile is_digit cs"
      have "?t = (?a @ ''.'' @ ?b) @ dropWhile is_digit cs" using t Cons True by simp
      moreover have "mantissa (?a @ ''.'' @ ?b)"
        unfolding mantissa_def using n Cons True digits_takeWhile [of ?t] digits_takeWhile [of cs]
        by (intro disjI2 exI [of _ ?a] exI [of _ ?b]) (auto simp: is_numeric_text_def)
      moreover have "exponent (dropWhile is_digit cs)" using n Cons True by (simp add: is_numeric_text_def exponent_ends_exact)
      ultimately show ?thesis by blast
    next
      case False
      with n Cons have "?a \<noteq> []" "exponent ?r" by (auto simp: is_numeric_text_def exponent_ends_exact)
      with t digits_takeWhile show ?thesis unfolding mantissa_def by blast
    qed
  qed
  then obtain m x where "?t = m @ x" "mantissa m" "exponent x" by blast
  with sg show "\<exists>sg m x. s = sg @ m @ x \<and> sg \<in> signs \<and> mantissa m \<and> exponent x" by metis
next
  assume "\<exists>sg m x. s = sg @ m @ x \<and> sg \<in> signs \<and> mantissa m \<and> exponent x"
  then obtain sg m x where s: "s = sg @ m @ x" "sg \<in> signs" and m: "mantissa m" and x: "exponent x" by blast
  have t: "skip_sign s = m @ x" unfolding s(1) using s(2) mantissa_nonempty [OF m] by (intro skip_sign_sign) auto
  note xh = exponent_head [OF x]
  from m consider "m \<noteq> []" "digits m" | a b where "m = a @ ''.'' @ b" "digits a" "digits b" "a @ b \<noteq> []"
    by (auto simp: mantissa_def)
  then show "is_numeric_text s"
  proof cases
    case 1
    have "takeWhile is_digit (m @ x) = m \<and> dropWhile is_digit (m @ x) = x" by (rule take_digits [OF 1(2)]) (use xh in auto)
    with 1 x xh show ?thesis unfolding is_numeric_text_def t by (cases x) (auto simp: exponent_ends_exact)
  next
    case 2
    have "takeWhile is_digit (a @ ''.'' @ b @ x) = a \<and> dropWhile is_digit (a @ ''.'' @ b @ x) = ''.'' @ b @ x"
      by (rule take_digits [OF 2(2)]) (auto simp: is_digit_def)
    moreover have "takeWhile is_digit (b @ x) = b \<and> dropWhile is_digit (b @ x) = x" by (rule take_digits [OF 2(3)]) (use xh in auto)
    ultimately show ?thesis using 2 x unfolding is_numeric_text_def t by (auto simp: exponent_ends_exact)
  qed
qed

section \<open>The leaves of a record\<close>

text \<open>The leaf that the keys of a path lead to, the name it gets, and the objects in which no key is repeated.\<close>

fun leaf_at :: "json \<Rightarrow> string list \<Rightarrow> json option" where
  "leaf_at v [] = (if as_object v = None then Some v else None)"
| "leaf_at v (k # ks) = Option.bind (as_object v) (\<lambda>m. Option.bind (map_of m k) (\<lambda>c. leaf_at c ks))"

fun dotted :: "string list \<Rightarrow> string" where
  "dotted [] = []"
| "dotted [k] = k"
| "dotted (k # ks) = k @ ''.'' @ dotted ks"

fun distinct_keys :: "json \<Rightarrow> bool" where
  "distinct_keys (JObj m) \<longleftrightarrow> distinct (map fst m) \<and> (\<forall>kv\<in>set m. distinct_keys (snd kv))"
| "distinct_keys v \<longleftrightarrow> True"

function leaf_paths :: "string list \<Rightarrow> (string \<times> json) list \<Rightarrow> (string list \<times> json) list" where
  "leaf_paths pre [] = []"
| "leaf_paths pre ((k, v) # kvs) =
     (case as_object v of Some members \<Rightarrow> leaf_paths (pre @ [k]) members | None \<Rightarrow> [(pre @ [k], v)]) @ leaf_paths pre kvs"
  by pat_completeness auto
termination
  by (relation "measure (\<lambda>(pre, m). size_list (size_prod (\<lambda>_. 0) size) m)")
    (auto simp: as_object_def split: json.splits)

function object_paths :: "string list \<Rightarrow> (string \<times> json) list \<Rightarrow> string list list" where
  "object_paths pre [] = []"
| "object_paths pre ((k, v) # kvs) =
     (case as_object v of Some members \<Rightarrow> (pre @ [k]) # object_paths (pre @ [k]) members | None \<Rightarrow> []) @ object_paths pre kvs"
  by pat_completeness auto
termination
  by (relation "measure (\<lambda>(pre, m). size_list (size_prod (\<lambda>_. 0) size) m)")
    (auto simp: as_object_def split: json.splits)

definition leaves :: "string list \<Rightarrow> (string \<times> json) list \<Rightarrow> (string \<times> json) list" where
  "leaves pre m = map (\<lambda>(ks, v). (dotted ks, v)) (leaf_paths pre m)"

lemma dotted_snoc: "dotted (pre @ [k]) = concat (map (\<lambda>k. k @ ''.'') pre) @ k"
  by (induction pre rule: dotted.induct) auto

lemma leaves_Cons:
  "leaves pre ((k, v) # kvs) =
     (case as_object v of Some members \<Rightarrow> leaves (pre @ [k]) members | None \<Rightarrow> [(dotted (pre @ [k]), v)]) @ leaves pre kvs"
  by (simp add: leaves_def split: option.split)

text \<open>Flattening adds the leaves in the order of the document, and fails exactly when two of them get one name.\<close>

lemma flatten_exact:
  "prefix = concat (map (\<lambda>k. k @ ''.'') pre) \<Longrightarrow>
   flatten m prefix st row = Inr st' \<longleftrightarrow>
     distinct (map fst (leaves pre m)) \<and> fst ` set (leaves pre m) \<inter> fst ` set (fst st) = {} \<and>
     fst st' = fst st @ leaves pre m \<and> snd st' = rev (map dotted (object_paths pre m)) @ snd st"
proof (induction m prefix st row arbitrary: pre st' rule: flatten.induct)
  case (1 prefix st row)
  then show ?case by (auto simp: leaves_def prod_eq_iff)
next
  case (2 k v kvs prefix st row)
  let ?n = "prefix @ k"
  have n: "dotted (pre @ [k]) = ?n" using "2.prems" by (simp add: dotted_snoc)
  show ?case
  proof (cases "as_object v")
    case None
    show ?thesis
    proof (cases "map_of (fst st) ?n")
      case fresh: None
      then have put: "al_put ?n v (fst st) = fst st @ [(?n, v)]" by (intro al_put_fresh) (simp add: map_of_eq_None_iff)
      have "flatten kvs prefix (al_put ?n v (fst st), snd st) row = Inr st' \<longleftrightarrow>
          distinct (map fst (leaves pre kvs)) \<and> fst ` set (leaves pre kvs) \<inter> insert ?n (fst ` set (fst st)) = {} \<and>
          fst st' = fst st @ (?n, v) # leaves pre kvs \<and> snd st' = rev (map dotted (object_paths pre kvs)) @ snd st"
        using "2.IH"(1) [OF refl None _ "2.prems", of st'] fresh unfolding put by simp
      then show ?thesis using None fresh n by (auto simp: leaves_Cons map_of_eq_None_iff)
    next
      case (Some w)
      then have "?n \<in> fst ` set (fst st)" by (metis map_of_SomeD image_eqI fst_conv)
      with None Some n show ?thesis by (auto simp: leaves_Cons)
    qed
  next
    case (Some members)
    have p': "?n @ ''.'' = concat (map (\<lambda>k. k @ ''.'') (pre @ [k]))" using "2.prems" by simp
    note ih1 = "2.IH"(2) [OF refl Some p']
    show ?thesis
    proof (cases "flatten members (?n @ ''.'') (fst st, ?n # snd st) row")
      case (Inl e)
      with ih1 [of "(fst st @ leaves (pre @ [k]) members, rev (map dotted (object_paths (pre @ [k]) members)) @ ?n # snd st)"]
      have "\<not> (distinct (map fst (leaves (pre @ [k]) members)) \<and> fst ` set (leaves (pre @ [k]) members) \<inter> fst ` set (fst st) = {})" by auto
      with Inl Some show ?thesis by (auto simp: leaves_Cons)
    next
      case (Inr st1)
      with ih1 [of st1] have d: "distinct (map fst (leaves (pre @ [k]) members))" "fst ` set (leaves (pre @ [k]) members) \<inter> fst ` set (fst st) = {}"
        "fst st1 = fst st @ leaves (pre @ [k]) members" "snd st1 = rev (map dotted (object_paths (pre @ [k]) members)) @ ?n # snd st" by auto
      from "2.IH"(3) [OF refl Some Inr "2.prems", of st'] Inr Some d show ?thesis by (auto simp: leaves_Cons n)
    qed
  qed
qed

lemma as_object_obj [simp]: "as_object (JObj m) = Some m"
  by (simp add: as_object_def)

lemma leaf_paths_exact:
  "distinct_keys (JObj m) \<Longrightarrow>
   (ks, w) \<in> set (leaf_paths pre m) \<longleftrightarrow> (\<exists>qs. ks = pre @ qs \<and> leaf_at (JObj m) qs = Some w)"
proof (induction pre m arbitrary: ks rule: leaf_paths.induct)
  case (1 pre)
  have "leaf_at (JObj []) qs = None" for qs by (cases qs) auto
  then show ?case by simp
next
  case (2 pre k v kvs)
  from "2.prems" have d: "distinct_keys v" "distinct_keys (JObj kvs)" and k: "map_of kvs k = None" by (auto simp: map_of_eq_None_iff)
  have at: "leaf_at (JObj ((k, v) # kvs)) qs = Some w \<longleftrightarrow>
      (\<exists>js. qs = k # js \<and> leaf_at v js = Some w) \<or> leaf_at (JObj kvs) qs = Some w" for qs
    by (cases qs) (auto simp: k bind_eq_Some_conv)
  have head: "(ks, w) \<in> set (case as_object v of Some members \<Rightarrow> leaf_paths (pre @ [k]) members | None \<Rightarrow> [(pre @ [k], v)]) \<longleftrightarrow>
      (\<exists>js. ks = pre @ k # js \<and> leaf_at v js = Some w)"
  proof (cases "as_object v")
    case None
    have "leaf_at v js = Some w \<longleftrightarrow> js = [] \<and> v = w" for js using None by (cases js) auto
    with None show ?thesis by auto
  next
    case (Some members)
    then have v: "v = JObj members" by (auto simp: as_object_def split: json.splits)
    with "2.IH"(1) [OF Some] d(1) show ?thesis by auto
  qed
  show ?case using "2.IH"(2) [OF d(2), of ks] head by (auto simp: at)
qed

lemma leaf_paths_distinct: "distinct_keys (JObj m) \<Longrightarrow> distinct (map fst (leaf_paths pre m))"
proof (induction pre m rule: leaf_paths.induct)
  case (2 pre k v kvs)
  from "2.prems" have d: "distinct_keys v" "distinct_keys (JObj kvs)" and k: "map_of kvs k = None" by (auto simp: map_of_eq_None_iff)
  have later: "\<exists>j js. qs = pre @ j # js \<and> j \<noteq> k" if "qs \<in> fst ` set (leaf_paths pre kvs)" for qs
  proof -
    from that obtain w ps where "qs = pre @ ps" "leaf_at (JObj kvs) ps = Some w" using leaf_paths_exact [OF d(2)] by force
    then show ?thesis using k by (cases ps) (auto simp: bind_eq_Some_conv)
  qed
  show ?case
  proof (cases "as_object v")
    case None
    with "2.IH"(2) [OF d(2)] later show ?thesis by fastforce
  next
    case (Some members)
    then have v: "v = JObj members" by (auto simp: as_object_def split: json.splits)
    have "\<exists>js. qs = pre @ k # js" if "qs \<in> fst ` set (leaf_paths (pre @ [k]) members)" for qs
      using that leaf_paths_exact [OF d(1) [unfolded v]] by force
    with "2.IH"(1) [OF Some d(1) [unfolded v]] "2.IH"(2) [OF d(2)] later Some show ?thesis by fastforce
  qed
qed simp

text \<open>C39: a record becomes the table of its leaves. Flattening a record succeeds exactly when no two of its leaves get the same
  name once their keys are joined by dots, and then it maps a name to a value exactly when some path of keys with that name
  leads to that value.\<close>

theorem json_leaves_exact:
  assumes "distinct_keys (JObj m)"
  shows "((\<exists>st. flatten m [] ([], paths) row = Inr st) \<longleftrightarrow> inj_on dotted {ks. leaf_at (JObj m) ks \<noteq> None}) \<and>
    (\<forall>st name w. flatten m [] ([], paths) row = Inr st \<longrightarrow>
       (map_of (fst st) name = Some w \<longleftrightarrow> (\<exists>ks. dotted ks = name \<and> leaf_at (JObj m) ks = Some w)))"
proof -
  have ex: "(ks, w) \<in> set (leaf_paths [] m) \<longleftrightarrow> leaf_at (JObj m) ks = Some w" for ks w
    using leaf_paths_exact [OF assms, of ks w "[]"] by simp
  then have S: "{ks. leaf_at (JObj m) ks \<noteq> None} = set (map fst (leaf_paths [] m))" by force
  have names: "map fst (leaves [] m) = map dotted (map fst (leaf_paths [] m))" by (simp add: leaves_def case_prod_unfold)
  have "distinct (map fst (leaves [] m)) \<longleftrightarrow> inj_on dotted {ks. leaf_at (JObj m) ks \<noteq> None}"
    using leaf_paths_distinct [OF assms, of "[]"] unfolding names S distinct_map by simp
  moreover have flat: "flatten m [] ([], paths) row = Inr st \<longleftrightarrow> distinct (map fst (leaves [] m)) \<and> fst st = leaves [] m \<and>
      snd st = rev (map dotted (object_paths [] m)) @ paths" for st
    using flatten_exact [of "[]" "[]" m "([], paths)" row st] by simp
  moreover have "map_of (leaves [] m) name = Some w \<longleftrightarrow> (\<exists>ks. dotted ks = name \<and> leaf_at (JObj m) ks = Some w)"
    if "distinct (map fst (leaves [] m))" for name w
  proof -
    have "map_of (leaves [] m) name = Some w \<longleftrightarrow> (name, w) \<in> set (leaves [] m)" using that by (rule map_of_eq_Some_iff)
    also have "\<dots> \<longleftrightarrow> (\<exists>ks. dotted ks = name \<and> leaf_at (JObj m) ks = Some w)" 
    proof -
      have "(name, w) \<in> set (leaves [] m) \<longleftrightarrow> (\<exists>ks. dotted ks = name \<and> (ks, w) \<in> set (leaf_paths [] m))"
        unfolding leaves_def set_map by force
      then show ?thesis unfolding ex .
    qed
    finally show ?thesis .
  qed
  moreover have "(\<exists>st. flatten m [] ([], paths) row = Inr st) \<longleftrightarrow> distinct (map fst (leaves [] m))"
    unfolding flat by (metis fst_conv snd_conv)
  ultimately show ?thesis by metis
qed

definition nested_record :: "(string \<times> json) list" where
  "nested_record = [(''id'', JInt 7), (''at'', JObj [(''lat'', JNum ''1.5''), (''tags'', JArr [])])]"

theorem json_leaves_exact_witness:
  "\<exists>st. flatten nested_record [] ([], []) 0 = Inr st \<and> map_of (fst st) ''at.lat'' = Some (JNum ''1.5'')"
proof -
  have d: "distinct_keys (JObj nested_record)" by (simp add: nested_record_def)
  have "flatten nested_record [] ([], []) 0 = Inr ([(''id'', JInt 7), (''at.lat'', JNum ''1.5''), (''at.tags'', JArr [])], [''at''])"
    by (simp add: nested_record_def as_object_def Let_def)
  moreover from conjunct2 [OF json_leaves_exact [OF d, of "[]" 0], rule_format, OF this, of "''at.lat''" "JNum ''1.5''"]
  have "map_of [(''id'', JInt 7), (''at.lat'', JNum ''1.5''), (''at.tags'', JArr [])] ''at.lat'' = Some (JNum ''1.5'')"
    by (auto simp: nested_record_def intro!: exI [of _ "[''at'', ''lat'']"])
  ultimately show ?thesis by auto
qed

section \<open>What a table holds\<close>

text \<open>The number a cell reads as, a finite one with the sign of zero dropped; a missing cell is NaN.\<close>

definition finite_value :: "'f number_api \<Rightarrow> 'f \<Rightarrow> 'f option" where
  "finite_value N f = (if nu_is_infinite N f then None else Some (if nu_is_zero N f then nu_zero N else f))"

definition cell_number :: "'f number_api \<Rightarrow> json option \<Rightarrow> 'f option" where
  "cell_number N v =
     (if json_kind v = ''null'' then Some (nu_nan N)
      else if json_kind v = ''number'' then finite_value N (case nu_json N (the v) of Some f \<Rightarrow> f | None \<Rightarrow> nu_infinity N)
      else
        (case v of
           Some (JStr s) \<Rightarrow>
             if is_numeric_text (trim_ascii_ws s) then Option.bind (nu_parse N (trim_ascii_ws s)) (finite_value N) else None
         | _ \<Rightarrow> None))"

definition column_holds :: "'f number_api \<Rightarrow> json option list \<Rightarrow> bool \<Rightarrow> 'f array_data \<Rightarrow> bool" where
  "column_holds N vals numeric data \<longleftrightarrow>
     (\<forall>v\<in>set vals. json_kind v \<noteq> ''array'') \<and>
     (if numeric \<or> (\<forall>v\<in>set vals. json_kind v \<in> {''null'', ''number''}) then
        (\<exists>fs. data = AF64 fs \<and> list_all2 (\<lambda>v f. cell_number N v = Some f) vals fs)
      else if \<forall>v\<in>set vals. json_kind v \<in> {''null'', ''string''} then data = AStr (map text_cell vals)
      else (\<exists>bs. data = ABool bs \<and> vals = map (\<lambda>b. Some (JBool b)) bs))"

lemma finite_number_Inr: "finite_number N f name row shown = Inr x \<longleftrightarrow> finite_value N f = Some x"
  by (auto simp: finite_number_def finite_value_def)

lemma kind_null: "json_kind v = ''null'' \<longleftrightarrow> v = None \<or> v = Some JNull"
  by (cases v rule: json_kind.cases) auto

lemma numeric_cell_Inr: "json_kind v \<noteq> ''array'' \<Longrightarrow> numeric_cell T N name i v = Inr f \<longleftrightarrow> cell_number N v = Some f"
  by (cases v rule: json_kind.cases)
    (auto simp: numeric_cell_def cell_number_def json_number_def finite_number_Inr Let_def split: option.split)

lemma numeric_cells_Inr:
  "\<forall>v\<in>set vals. json_kind v \<noteq> ''array'' \<Longrightarrow>
   numeric_cells T N name i vals = Inr fs \<longleftrightarrow> list_all2 (\<lambda>v f. cell_number N v = Some f) vals fs"
  by (induction T N name i vals arbitrary: fs rule: numeric_cells.induct)
    (auto simp: bindR_Inr numeric_cell_Inr list_all2_Cons1)

lemma number_cells_Inr:
  "\<forall>v\<in>set vals. json_kind v \<in> {''null'', ''number''} \<Longrightarrow>
   number_cells T N name i vals = Inr fs \<longleftrightarrow> list_all2 (\<lambda>v f. cell_number N v = Some f) vals fs"
proof (induction T N name i vals arbitrary: fs rule: number_cells.induct)
  case (2 T N name i v vs)
  then show ?case
    by (auto simp: bindR_Inr cell_number_def json_number_def finite_number_Inr list_all2_Cons1)
qed auto

lemma bool_cells_Inr: "bool_cells name i vals = Inr bs \<longleftrightarrow> vals = map (\<lambda>b. Some (JBool b)) bs"
proof (induction name i vals arbitrary: bs rule: bool_cells.induct)
  case (2 name i v vs)
  show ?case by (cases v rule: json_kind.cases; cases bs) (use "2.IH" in \<open>auto simp: bindR_Inr\<close>)
qed auto

lemma kinds_of_set: "set (kinds_of vals) = json_kind ` set vals - {''null''}"
  by (auto simp: kinds_of_def)

lemma kinds_of_distinct: "distinct (kinds_of vals)"
  by (simp add: kinds_of_def ordered_def)

lemma kinds_of_cases:
  obtains "kinds_of vals = []" "\<forall>v\<in>set vals. json_kind v = ''null''"
  | k where "kinds_of vals = [k]" "k \<noteq> ''null''" "k \<in> json_kind ` set vals" "\<forall>v\<in>set vals. json_kind v \<in> {''null'', k}"
  | k k' where "1 < length (kinds_of vals)" "k \<noteq> k'" "{k, k'} \<subseteq> json_kind ` set vals - {''null''}"
proof (cases "kinds_of vals")
  case Nil
  with that(1) kinds_of_set [of vals] show ?thesis by auto
next
  case (Cons k ks)
  show ?thesis
  proof (cases ks)
    case Nil
    with Cons kinds_of_set [of vals] have "json_kind ` set vals - {''null''} = {k}" by simp
    with Cons Nil that(2) show ?thesis by auto
  next
    case (Cons k' ks')
    with \<open>kinds_of vals = k # ks\<close> kinds_of_set [of vals] kinds_of_distinct [of vals] show ?thesis
      by (intro that(3) [of k k']) auto
  qed
qed

lemma kind_range: "json_kind v \<in> {''null'', ''bool'', ''number'', ''string'', ''array'', ''object''}"
  by (cases v rule: json_kind.cases) auto

lemma json_column_Inr: "json_column T N name vals numeric = Inr data \<longleftrightarrow> column_holds N vals numeric data"
proof (cases "\<forall>v\<in>set vals. json_kind v \<noteq> ''array''")
  case False
  then obtain row where "position (\<lambda>v. json_kind v = ''array'') vals = Some row"
    using position_None [of "\<lambda>v. json_kind v = ''array''" vals] by (cases "position (\<lambda>v. json_kind v = ''array'') vals") auto
  with False show ?thesis by (auto simp: json_column_def column_holds_def)
next
  case True
  then have pos: "position (\<lambda>v. json_kind v = ''array'') vals = None" by (simp add: position_None)
  show ?thesis
  proof (cases numeric)
    case num: True
    with True pos show ?thesis by (auto simp: json_column_def column_holds_def bindR_Inr numeric_cells_Inr)
  next
    case nn: False
    have null: "json_kind v \<in> {''null'', ''number''} \<Longrightarrow> json_kind v \<in> {''null'', ''string''} \<Longrightarrow> json_kind v = ''null''" for v by auto
    show ?thesis
    proof (cases rule: kinds_of_cases [of vals])
      case 1
      with True pos nn show ?thesis by (auto simp: json_column_def column_holds_def bindR_Inr number_cells_Inr)
    next
      case (2 k)
      then obtain v where v: "v \<in> set vals" "json_kind v = k" by auto
      show ?thesis
      proof (cases "k = ''number''")
        case num: True
        with 2 True pos nn show ?thesis by (simp add: json_column_def column_holds_def bindR_Inr number_cells_Inr) blast
      next
        case False
        with v 2(2) have no: "\<not> (\<forall>v\<in>set vals. json_kind v \<in> {''null'', ''number''})" by auto
        show ?thesis
        proof (cases "k = ''string''")
          case str: True
          with 2 False True pos nn no show ?thesis by (simp add: json_column_def column_holds_def) blast
        next
          case str: False
          with v 2(2) have no': "\<not> (\<forall>v\<in>set vals. json_kind v \<in> {''null'', ''string''})" by auto
          have "json_column T N name vals numeric = bindR (bool_cells name 0 vals) (\<lambda>bs. Inr (ABool bs))"
            using 2 False str pos nn by (simp add: json_column_def)
          moreover have "column_holds N vals numeric data \<longleftrightarrow> (\<exists>bs. data = ABool bs \<and> vals = map (\<lambda>b. Some (JBool b)) bs)"
            unfolding column_holds_def using no no' nn True by (simp only: if_False simp_thms) blast
          ultimately show ?thesis by (auto simp: bindR_Inr bool_cells_Inr)
        qed
      qed
    next
      case (3 k k')
      then obtain v v' where v: "v \<in> set vals" "v' \<in> set vals" "json_kind v = k" "json_kind v' = k'" by auto
      have one: "\<not> (\<forall>v\<in>set vals. json_kind v \<in> {''null'', c})" for c
      proof
        assume "\<forall>v\<in>set vals. json_kind v \<in> {''null'', c}"
        with v have "k \<in> {''null'', c}" "k' \<in> {''null'', c}" by blast+
        with 3(2,3) show False by blast
      qed
      have "vals \<noteq> map (\<lambda>b. Some (JBool b)) bs" for bs
      proof
        assume "vals = map (\<lambda>b. Some (JBool b)) bs"
        then have "\<forall>v\<in>set vals. json_kind v \<in> {''null'', ''bool''}" by auto
        with one show False by blast
      qed
      then have "\<not> column_holds N vals numeric data" unfolding column_holds_def using nn one by (simp only: if_False simp_thms)
      with 3 True pos nn show ?thesis by (simp add: json_column_def)
    qed
  qed
qed

text \<open>The names of the objects of a record.\<close>

definition object_names :: "(string \<times> json) list \<Rightarrow> string list" where
  "object_names m = map dotted (object_paths [] m)"

lemma flatten_records_Inr:
  "flatten_records i recs paths = Inr (flats, paths') \<longleftrightarrow>
     (\<exists>objs. recs = map JObj objs \<and> (\<forall>m\<in>set objs. distinct (map fst (leaves [] m))) \<and> flats = map (leaves []) objs \<and>
        paths' = concat (rev (map (\<lambda>m. rev (object_names m)) objs)) @ paths)"
proof (induction i recs paths arbitrary: flats paths' rule: flatten_records.induct)
  case (2 i rec recs paths)
  show ?case
  proof (cases "as_object rec")
    case None
    then have "rec \<noteq> JObj m" for m by auto
    with None show ?thesis by (auto simp: Cons_eq_map_conv)
  next
    case (Some m)
    then have r: "rec = JObj m" by (auto simp: as_object_def split: json.splits)
    have flat: "flatten m [] ([], paths) i = Inr st \<longleftrightarrow> distinct (map fst (leaves [] m)) \<and> st = (leaves [] m, rev (object_names m) @ paths)" for st
      using flatten_exact [of "[]" "[]" m "([], paths)" i st] by (auto simp: object_names_def prod_eq_iff)
    show ?thesis
    proof (cases "distinct (map fst (leaves [] m))")
      case True
      with flat have f: "flatten m [] ([], paths) i = Inr (leaves [] m, rev (object_names m) @ paths)" by simp
      have "flatten_records i (rec # recs) paths = Inr (flats, paths') \<longleftrightarrow>
          (\<exists>fs. flats = leaves [] m # fs \<and> flatten_records (Suc i) recs (rev (object_names m) @ paths) = Inr (fs, paths'))"
        using Some f by (auto simp: bindR_Inr)
      also have "\<dots> \<longleftrightarrow> (\<exists>objs. rec # recs = map JObj (m # objs) \<and> (\<forall>m\<in>set (m # objs). distinct (map fst (leaves [] m))) \<and>
          flats = map (leaves []) (m # objs) \<and> paths' = concat (rev (map (\<lambda>m. rev (object_names m)) (m # objs))) @ paths)"
        using "2.IH" [OF Some, of "rev (object_names m) @ paths" _ paths'] True r by auto
      also have "\<dots> \<longleftrightarrow> (\<exists>objs. rec # recs = map JObj objs \<and> (\<forall>m\<in>set objs. distinct (map fst (leaves [] m))) \<and>
          flats = map (leaves []) objs \<and> paths' = concat (rev (map (\<lambda>m. rev (object_names m)) objs)) @ paths)"
      proof -
        have "(\<exists>objs. rec # recs = map JObj (m # objs) \<and> Q (m # objs)) \<longleftrightarrow> (\<exists>objs. rec # recs = map JObj objs \<and> Q objs)" for Q
          by (auto simp: r Cons_eq_map_conv)
        then show ?thesis .
      qed
      finally show ?thesis .
    next
      case False
      with flat have "\<nexists>st. flatten m [] ([], paths) i = Inr st" by auto
      with False r Some show ?thesis by (auto simp: bindR_Inr Cons_eq_map_conv)
    qed
  qed
qed auto

lemma json_columns_Inr:
  "distinct names \<Longrightarrow> set names \<inter> fst ` set out = {} \<Longrightarrow>
   json_columns T N numeric flats paths names out = Inr vs \<longleftrightarrow>
     (\<exists>fs. vs = out @ fs \<and> list_all2 (\<lambda>n nf. fst nf = n \<and> n \<notin> set paths \<and>
        (\<exists>data. snd nf = index_field data (length flats) \<and> column_holds N (map (\<lambda>flat. map_of flat n) flats) (n \<in> set numeric) data)) names fs)"
proof (induction names arbitrary: out)
  case (Cons n names)
  have put: "al_put n f out = out @ [(n, f)]" for f using Cons.prems by (intro al_put_fresh) auto
  have "json_columns T N numeric flats paths (n # names) out = Inr vs \<longleftrightarrow> n \<notin> set paths \<and>
      (\<exists>data. column_holds N (map (\<lambda>flat. map_of flat n) flats) (n \<in> set numeric) data \<and>
        json_columns T N numeric flats paths names (out @ [(n, index_field data (length flats))]) = Inr vs)"
    by (simp add: bindR_Inr json_column_Inr put)
  also have "\<dots> \<longleftrightarrow> n \<notin> set paths \<and>
      (\<exists>data. column_holds N (map (\<lambda>flat. map_of flat n) flats) (n \<in> set numeric) data \<and>
        (\<exists>fs. vs = (out @ [(n, index_field data (length flats))]) @ fs \<and> list_all2 (\<lambda>n nf. fst nf = n \<and> n \<notin> set paths \<and>
          (\<exists>data. snd nf = index_field data (length flats) \<and> column_holds N (map (\<lambda>flat. map_of flat n) flats) (n \<in> set numeric) data)) names fs))"
    using Cons.prems by (subst Cons.IH) auto
  finally show ?case by (force simp: list_all2_Cons1)
qed auto

text \<open>C40: what the \<open>json\<close> reader makes of an array of values. It returns a table exactly when every value is an object with
  distinct leaf names, every requested name is a leaf of some record, no wanted name is an object in any record, and each
  wanted column holds together: no arrays, and numbers or nulls only, or texts or nulls only, or booleans only, or, for a column
  declared numeric, cells that all read as finite numbers. Then there is one field for each wanted name in order (all names,
  when none is requested), with one cell for each record: the value of that leaf in that record.\<close>

theorem json_table_exact:
  "json_table T N r records vars = Inr ds \<longleftrightarrow>
     (\<exists>objs. records = map JObj objs \<and> (\<forall>m\<in>set objs. distinct (map fst (leaves [] m))) \<and>
        (let names = ordered (concat (map (\<lambda>m. map fst (leaves [] m)) objs)); wanted = (if vars = [] then names else ordered vars) in
           set vars \<subseteq> set names \<and> ds_coords ds = [] \<and>
           list_all2 (\<lambda>n nf. fst nf = n \<and> (\<forall>m\<in>set objs. n \<notin> set (object_names m)) \<and>
             (\<exists>data. snd nf = index_field data (length objs) \<and>
                column_holds N (map (\<lambda>m. map_of (leaves [] m) n) objs) (n \<in> set (jr_numeric r)) data)) wanted (ds_vars ds)))"
proof -
  let ?names = "\<lambda>objs. ordered (concat (map (\<lambda>m. map fst (leaves [] m)) objs))"
  let ?wanted = "\<lambda>objs. if vars = [] then ?names objs else ordered vars"
  have missing: "filter (\<lambda>v. v \<notin> set ns) (ordered vars) = [] \<longleftrightarrow> set vars \<subseteq> set ns" for ns :: "string list"
    by (auto simp: filter_empty_conv)
  have cols: "json_columns T N nums (map (leaves []) objs) paths (?wanted objs) [] = Inr vs \<longleftrightarrow>
      list_all2 (\<lambda>n nf. fst nf = n \<and> n \<notin> set paths \<and> (\<exists>data. snd nf = index_field data (length objs) \<and>
        column_holds N (map (\<lambda>m. map_of (leaves [] m) n) objs) (n \<in> set nums) data)) (?wanted objs) vs" for nums objs paths vs
    using json_columns_Inr [of "?wanted objs" "[]" T N nums "map (leaves []) objs" paths vs]
    by (simp add: ordered_def comp_def)
  have ds: "ds = \<lparr>ds_vars = vs, ds_coords = []\<rparr> \<longleftrightarrow> ds_vars ds = vs \<and> ds_coords ds = []" for vs by (cases ds) auto
  have "json_table T N r records vars = Inr ds \<longleftrightarrow> (\<exists>flats paths. flatten_records 0 records [] = Inr (flats, paths) \<and>
      set vars \<subseteq> set (ordered (concat (map (map fst) flats))) \<and> ds_coords ds = [] \<and>
      json_columns T N (jr_numeric r) flats paths (if vars = [] then ordered (concat (map (map fst) flats)) else ordered vars) [] = Inr (ds_vars ds))"
    by (auto simp: json_table_def bindR_Inr Let_def missing split: if_splits) (auto simp: ds missing)
  also have "\<dots> \<longleftrightarrow> (\<exists>objs. records = map JObj objs \<and> (\<forall>m\<in>set objs. distinct (map fst (leaves [] m))) \<and>
      set vars \<subseteq> set (?names objs) \<and> ds_coords ds = [] \<and>
      json_columns T N (jr_numeric r) (map (leaves []) objs) (concat (rev (map (\<lambda>m. rev (object_names m)) objs))) (?wanted objs) [] = Inr (ds_vars ds))"
  proof -
    have ex: "(\<exists>flats paths. (\<exists>objs. records = map JObj objs \<and> D objs \<and> flats = F objs \<and> paths = P objs @ []) \<and> R flats paths) \<longleftrightarrow>
        (\<exists>objs. records = map JObj objs \<and> D objs \<and> R (F objs) (P objs))" for D F P and R :: "(string \<times> json) list list \<Rightarrow> string list \<Rightarrow> bool"
      by auto
    show ?thesis unfolding flatten_records_Inr ex by (simp add: comp_def)
  qed
  finally show ?thesis unfolding cols by (simp add: Let_def)
qed

text \<open>Two records, one without a height; the height is the number of quarters in \<open>int\<close>, NaN the number -1.\<close>

definition quarters :: "int number_api" where
  "quarters = \<lparr>nu_parse = (\<lambda>s. None), nu_json = (\<lambda>v. case v of JInt n \<Rightarrow> Some (4 * n) | _ \<Rightarrow> None), nu_nan = - 1, nu_infinity = - 2,
     nu_is_infinite = (\<lambda>x. x = - 2), nu_is_zero = (\<lambda>x. x = 0), nu_zero = 0\<rparr>"

definition plain_json :: json_text_api where
  "plain_json = \<lparr>jt_utf8_error = (\<lambda>s. None), jt_parse = (\<lambda>s. Inl ''expected value''), jt_show = (\<lambda>v. ''?'')\<rparr>"

definition two_stacks :: "json list" where
  "two_stacks = [JObj [(''id'', JStr ''a''), (''stack'', JObj [(''height'', JInt 3)])], JObj [(''id'', JStr ''b'')]]"

theorem json_table_exact_witness:
  "json_table plain_json quarters json_new two_stacks [''stack.height'', ''id''] =
     Inr \<lparr>ds_vars = [(''id'', index_field (AStr [''a'', ''b'']) 2), (''stack.height'', index_field (AF64 [12, - 1]) 2)], ds_coords = []\<rparr>"
proof -
  let ?m = "[(''id'', JStr ''a''), (''stack'', JObj [(''height'', JInt 3)])]" and ?m' = "[(''id'', JStr ''b'')]"
  have l: "leaves [] ?m = [(''id'', JStr ''a''), (''stack.height'', JInt 3)]" "leaves [] ?m' = [(''id'', JStr ''b'')]"
    "object_names ?m = [''stack'']" "object_names ?m' = []"
    by (simp_all add: leaves_def object_names_def as_object_def)
  have o: "ordered [''stack.height'', ''id''] = [''id'', ''stack.height'']" by code_simp
  have c: "column_holds quarters [Some (JInt 3), None] False (AF64 [12, - 1])" "column_holds quarters [Some (JStr ''a''), Some (JStr ''b'')] False (AStr [''a'', ''b''])"
    by (simp_all add: column_holds_def cell_number_def finite_value_def quarters_def text_cell_def)
  show ?thesis
    by (subst json_table_exact, intro exI [of _ "[?m, ?m']"])
      (use c in \<open>auto simp: two_stacks_def l o Let_def json_new_def numeral_2_eq_2\<close>)
qed

end
