(* ===== verification/Globs.thy ===== *)
theory Globs
  imports Prelude "HOL-Library.List_Lexorder" "HOL-Library.Char_ord"
begin

text \<open>
  The patterns that select members of an archive (\<open>rust/src/format/ff10.rs\<close>): parsing a pattern into tokens, and
  matching a name by the loop with one backtracking pointer. That the loop ends is proved and not presumed: it is a
  partial function.

  A \<open>char\<close> of the code is its UTF-8 bytes, so a text is the list of its characters; the bytes order characters as
  their code points do.
\<close>

section \<open>Patterns\<close>

function char_texts :: "string \<Rightarrow> string list" where
  "char_texts [] = []"
| "char_texts (c # cs) = utf8_head (c # cs) # char_texts (dropWhile is_cont cs)"
  by pat_completeness auto
termination
  by (relation "measure length") (simp_all add: length_dropWhile_le less_Suc_eq_le)

datatype glob_tok = GStar | GAny | GLit string | GClass bool "(string \<times> string) list"

fun class_ranges :: "string list \<Rightarrow> (string \<times> string) list" where
  "class_ranges (a # h # b # rest) =
     (if h = ''-'' then (a, b) # class_ranges rest else (a, a) # class_ranges (h # b # rest))"
| "class_ranges (a # rest) = (a, a) # class_ranges rest"
| "class_ranges [] = []"

text \<open>Where the body of a class begins, and how long it is; a bracket that comes first in it is a member of it.\<close>

definition class_negated :: "string list \<Rightarrow> bool" where
  "class_negated cs \<longleftrightarrow> cs \<noteq> [] \<and> hd cs = ''!''"

definition class_body :: "string list \<Rightarrow> string list" where
  "class_body cs = (if class_negated cs then tl cs else cs)"

definition class_length :: "string list \<Rightarrow> nat" where
  "class_length body =
     (let k = (if body \<noteq> [] \<and> hd body = '']'' then 1 else 0) in k + length (takeWhile (\<lambda>c. c \<noteq> '']'') (drop k body)))"

function glob_tokens :: "string list \<Rightarrow> glob_tok list" where
  "glob_tokens [] = []"
| "glob_tokens (c # cs) =
     (if c = ''*'' then GStar # glob_tokens cs
      else if c = ''?'' then GAny # glob_tokens cs
      else if c = ''['' then
        (let body = class_body cs; n = class_length body in
         if length body \<le> n then GLit ''['' # glob_tokens cs
         else GClass (class_negated cs) (class_ranges (take n body)) # glob_tokens (drop (Suc n) body))
      else GLit c # glob_tokens cs)"
  by pat_completeness auto
termination
  by (relation "measure length") (auto simp: class_body_def)

declare char_texts.simps [simp del] glob_tokens.simps [simp del]

fun tok_match :: "glob_tok \<Rightarrow> string \<Rightarrow> bool" where
  "tok_match GStar c = False"
| "tok_match GAny c = True"
| "tok_match (GLit l) c = (l = c)"
| "tok_match (GClass neg ranges) c = (list_ex (\<lambda>(lo, hi). lo \<le> c \<and> c \<le> hi) ranges \<noteq> neg)"

text \<open>The code asks \<open>tok_match\<close> of no star (that arm is unreachable).\<close>

section \<open>The matching loop\<close>

partial_function (option) glob_loop ::
    "glob_tok list \<Rightarrow> string list \<Rightarrow> nat \<Rightarrow> nat \<Rightarrow> nat option \<Rightarrow> nat \<Rightarrow> bool option" where
  "glob_loop toks cs ti si star mark =
     (if si < length cs then
        (if ti < length toks \<and> toks ! ti = GStar then glob_loop toks cs (ti + 1) si (Some ti) si
         else if ti < length toks \<and> toks ! ti \<noteq> GStar \<and> tok_match (toks ! ti) (cs ! si) then
           glob_loop toks cs (ti + 1) (si + 1) star mark
         else
           (case star of
              Some s \<Rightarrow> glob_loop toks cs (s + 1) (mark + 1) star (mark + 1)
            | None \<Rightarrow> Some False))
      else Some (ti + length (takeWhile ((=) GStar) (drop ti toks)) = length toks))"

definition glob_match :: "glob_tok list \<Rightarrow> string \<Rightarrow> bool option" where
  "glob_match toks s = glob_loop toks (char_texts s) 0 0 None 0"

section \<open>What a pattern denotes\<close>

definition tok_word :: "glob_tok \<Rightarrow> string list \<Rightarrow> bool" where
  "tok_word t w \<longleftrightarrow> t = GStar \<or> (\<exists>c. w = [c] \<and> tok_match t c)"

definition denotes :: "glob_tok list \<Rightarrow> string list \<Rightarrow> bool" where
  "denotes toks cs \<longleftrightarrow> (\<exists>ws. list_all2 tok_word toks ws \<and> concat ws = cs)"

lemma denotes_Nil [simp]: "denotes [] cs \<longleftrightarrow> cs = []"
  by (auto simp: denotes_def)

lemma denotes_Cons: "denotes (t # ts) cs \<longleftrightarrow> (\<exists>w cs'. cs = w @ cs' \<and> tok_word t w \<and> denotes ts cs')"
proof
  assume "\<exists>w cs'. cs = w @ cs' \<and> tok_word t w \<and> denotes ts cs'"
  then obtain w ws where "cs = concat (w # ws)" "list_all2 tok_word (t # ts) (w # ws)" by (auto simp: denotes_def)
  then show "denotes (t # ts) cs" unfolding denotes_def by blast
next
  assume "denotes (t # ts) cs"
  then obtain w ws where "tok_word t w" "list_all2 tok_word ts ws" "cs = w @ concat ws"
    by (auto simp: denotes_def list_all2_Cons1)
  then show "\<exists>w cs'. cs = w @ cs' \<and> tok_word t w \<and> denotes ts cs'" unfolding denotes_def by blast
qed

lemma denotes_one: "t \<noteq> GStar \<Longrightarrow> denotes (t # ts) cs \<longleftrightarrow> (\<exists>c cs'. cs = c # cs' \<and> tok_match t c \<and> denotes ts cs')"
proof -
  assume "t \<noteq> GStar"
  then have "denotes (t # ts) cs \<longleftrightarrow> (\<exists>c cs'. cs = [c] @ cs' \<and> tok_match t c \<and> denotes ts cs')"
    unfolding denotes_Cons tok_word_def by blast
  then show ?thesis by simp
qed

lemma denotes_star: "denotes (GStar # ts) cs \<longleftrightarrow> (\<exists>k\<le>length cs. denotes ts (drop k cs))"
proof
  assume "denotes (GStar # ts) cs"
  then obtain w cs' where "cs = w @ cs'" "denotes ts cs'" by (auto simp: denotes_Cons)
  then show "\<exists>k\<le>length cs. denotes ts (drop k cs)" by (intro exI [of _ "length w"]) simp
next
  assume "\<exists>k\<le>length cs. denotes ts (drop k cs)"
  then show "denotes (GStar # ts) cs" by (metis append_take_drop_id denotes_Cons tok_word_def)
qed

lemma denotes_star_later: "denotes (GStar # ts) (drop k cs) \<Longrightarrow> j \<le> k \<Longrightarrow> denotes (GStar # ts) (drop j cs)"
proof -
  assume d: "denotes (GStar # ts) (drop k cs)" and "j \<le> k"
  then obtain i where "i \<le> length (drop k cs)" "denotes ts (drop (i + k) cs)" by (auto simp: denotes_star)
  with \<open>j \<le> k\<close> show ?thesis
    by (cases "length cs \<le> k") (auto simp: denotes_star intro!: exI [of _ "min (i + k - j) (length cs - j)"] split: if_splits simp: min_def)
qed

lemma denotes_star_step:
  "denotes (GStar # ts) cs \<longleftrightarrow> denotes ts cs \<or> cs \<noteq> [] \<and> denotes (GStar # ts) (tl cs)"
proof -
  have "denotes (GStar # ts) (tl cs) \<Longrightarrow> denotes (GStar # ts) cs"
    using denotes_star_later [of ts 1 cs 0] by (simp add: drop_Suc)
  moreover have "denotes (GStar # ts) (tl cs)" if d: "denotes (GStar # ts) cs" and n: "\<not> denotes ts cs"
  proof -
    from d obtain k where k: "k \<le> length cs" "denotes ts (drop k cs)" by (auto simp: denotes_star)
    with n obtain j where "k = Suc j" by (cases k) auto
    with k show ?thesis by (auto simp: denotes_star drop_Suc intro!: exI [of _ j])
  qed
  moreover have "denotes (GStar # ts) []" if "denotes ts []" using that by (auto simp: denotes_star)
  ultimately show ?thesis by (auto simp: denotes_star intro: exI [of _ 0])
qed

lemma denotes_plain:
  "\<forall>t\<in>set us. t \<noteq> GStar \<Longrightarrow> denotes (us @ ts) cs \<Longrightarrow> length us \<le> length cs \<and> denotes ts (drop (length us) cs)"
  by (induction us arbitrary: cs) (auto simp: denotes_one)

lemma denotes_only_stars: "denotes ts [] \<longleftrightarrow> (\<forall>t\<in>set ts. t = GStar)"
proof (induction ts)
  case (Cons t ts)
  then show ?case by (cases "t = GStar") (auto simp: denotes_star denotes_one)
qed simp

section \<open>The loop decides it\<close>

text \<open>The invariant: since the last star at \<open>s\<close>, the tokens after it have matched the characters from \<open>mark\<close> on, and every match of
  the whole text gives that star what is before \<open>mark\<close> or more.\<close>

definition glob_inv :: "glob_tok list \<Rightarrow> string list \<Rightarrow> nat \<Rightarrow> nat \<Rightarrow> nat option \<Rightarrow> nat \<Rightarrow> bool" where
  "glob_inv toks cs ti si star mark \<longleftrightarrow>
     ti \<le> length toks \<and> si \<le> length cs \<and>
     (case star of
        None \<Rightarrow> mark = 0 \<and> (denotes toks cs \<longleftrightarrow> denotes (drop ti toks) (drop si cs))
      | Some s \<Rightarrow> s < ti \<and> toks ! s = GStar \<and> (\<forall>t\<in>set (take (ti - Suc s) (drop (Suc s) toks)). t \<noteq> GStar) \<and>
          si = mark + (ti - Suc s) \<and> (denotes toks cs \<longleftrightarrow> denotes (drop s toks) (drop mark cs)) \<and>
          (denotes (drop (Suc s) toks) (drop mark cs) \<longleftrightarrow> denotes (drop ti toks) (drop si cs)))"

lemma drop_at: "i < length xs \<Longrightarrow> xs ! i = x \<Longrightarrow> drop i xs = x # drop (Suc i) xs"
  by (auto simp: Cons_nth_drop_Suc)

lemma drop_from_star: "s < ti \<Longrightarrow> ti \<le> length toks \<Longrightarrow> toks ! s = GStar \<Longrightarrow> drop s toks = GStar # drop (Suc s) toks"
  by (intro drop_at) auto

lemma glob_inv_mark: "glob_inv toks cs ti si star mark \<Longrightarrow> mark \<le> si"
  by (auto simp: glob_inv_def split: option.splits)

text \<open>Between the last star and \<open>ti\<close> there is no other: any later place of those tokens leaves the rest a later place.\<close>

lemma glob_inv_rest:
  assumes "glob_inv toks cs ti si (Some s) mark" and "k \<le> length cs" "mark \<le> k" "denotes (drop (Suc s) toks) (drop k cs)"
  shows "k + (ti - Suc s) \<le> length cs \<and> denotes (drop ti toks) (drop (k + (ti - Suc s)) cs)"
proof -
  let ?us = "take (ti - Suc s) (drop (Suc s) toks)"
  from assms(1) have s: "s < ti" "ti \<le> length toks" and plain: "\<forall>t\<in>set ?us. t \<noteq> GStar" by (auto simp: glob_inv_def)
  have "drop (ti - Suc s) (drop (Suc s) toks) = drop ti toks" using s by simp
  with append_take_drop_id [of "ti - Suc s" "drop (Suc s) toks"]
  have u: "drop (Suc s) toks = ?us @ drop ti toks" "length ?us = ti - Suc s" using s by simp_all
  from denotes_plain [OF plain, of "drop ti toks" "drop k cs"] assms(4)
  have "ti - Suc s \<le> length cs - k" "denotes (drop ti toks) (drop (ti - Suc s) (drop k cs))"
    unfolding u(1) [symmetric] u(2) by simp_all
  then show ?thesis using assms(2) by (simp add: add.commute)
qed

lemma glob_inv_star:
  assumes inv: "glob_inv toks cs ti si star mark" and ti: "ti < length toks" "toks ! ti = GStar"
  shows "glob_inv toks cs (Suc ti) si (Some ti) si"
proof -
  have d: "drop ti toks = GStar # drop (Suc ti) toks" by (rule drop_at [OF ti])
  have "denotes toks cs \<longleftrightarrow> denotes (drop ti toks) (drop si cs)"
  proof (cases star)
    case None
    with inv show ?thesis by (simp add: glob_inv_def)
  next
    case (Some s)
    have i: "s < ti" "toks ! s = GStar" "ti \<le> length toks" "si = mark + (ti - Suc s)"
      "denotes toks cs \<longleftrightarrow> denotes (drop s toks) (drop mark cs)"
      "denotes (drop (Suc s) toks) (drop mark cs) \<longleftrightarrow> denotes (drop ti toks) (drop si cs)" "si \<le> length cs"
      using inv Some by (auto simp: glob_inv_def)
    have ds: "drop s toks = GStar # drop (Suc s) toks" by (rule drop_from_star [OF i(1,3,2)])
    show ?thesis
    proof
      assume "denotes toks cs"
      then obtain k where k: "k \<le> length cs - mark" "denotes (drop (Suc s) toks) (drop (k + mark) cs)"
        by (auto simp: i(5) ds denotes_star)
      with glob_inv_rest [OF inv [unfolded Some], of "k + mark"] i
      have "denotes (drop ti toks) (drop (k + mark + (ti - Suc s)) cs)" by simp
      then show "denotes (drop ti toks) (drop si cs)" unfolding d by (rule denotes_star_later) (simp add: i(4))
    next
      assume "denotes (drop ti toks) (drop si cs)"
      then show "denotes toks cs" by (simp add: i(5) ds denotes_star_step [of _ "drop mark cs"] i(6))
    qed
  qed
  with inv ti show ?thesis by (simp add: glob_inv_def)
qed

lemma glob_inv_match:
  assumes inv: "glob_inv toks cs ti si star mark"
    and ti: "ti < length toks" "toks ! ti \<noteq> GStar" "si < length cs" "tok_match (toks ! ti) (cs ! si)"
  shows "glob_inv toks cs (Suc ti) (Suc si) star mark"
proof -
  have "denotes (drop ti toks) (drop si cs) \<longleftrightarrow> denotes (drop (Suc ti) toks) (drop (Suc si) cs)"
    using ti by (simp add: drop_at [OF ti(1) refl] drop_at [OF ti(3) refl] denotes_one)
  moreover have "take (Suc ti - Suc s) (drop (Suc s) toks) = take (ti - Suc s) (drop (Suc s) toks) @ [toks ! ti]" if "s < ti" for s
    using that ti(1) by (simp add: take_Suc_conv_app_nth Suc_diff_Suc [symmetric])
  ultimately show ?thesis using inv ti by (auto simp: glob_inv_def split: option.splits)
qed

lemma glob_inv_back:
  assumes inv: "glob_inv toks cs ti si (Some s) mark" and "si < length cs"
    and no: "\<not> denotes (drop ti toks) (drop si cs)"
  shows "glob_inv toks cs (Suc s) (Suc mark) (Some s) (Suc mark)"
proof -
  have i: "s < ti" "toks ! s = GStar" "ti \<le> length toks"
      "denotes toks cs \<longleftrightarrow> denotes (drop s toks) (drop mark cs)"
      "denotes (drop (Suc s) toks) (drop mark cs) \<longleftrightarrow> denotes (drop ti toks) (drop si cs)"
    using inv by (auto simp: glob_inv_def)
  have "mark < length cs" using glob_inv_mark [OF inv] assms(2) by simp
  with i no show ?thesis
    by (simp add: glob_inv_def drop_from_star [OF i(1,3,2)] denotes_star_step [of _ "drop mark cs"] drop_Suc tl_drop)
qed

lemma glob_inv_end:
  assumes inv: "glob_inv toks cs ti (length cs) star mark"
  shows "denotes toks cs \<longleftrightarrow> (\<forall>t\<in>set (drop ti toks). t = GStar)"
proof (cases star)
  case None
  with inv show ?thesis by (simp add: glob_inv_def denotes_only_stars)
next
  case (Some s)
  have i: "s < ti" "toks ! s = GStar" "ti \<le> length toks" "length cs = mark + (ti - Suc s)"
      "denotes toks cs \<longleftrightarrow> denotes (drop s toks) (drop mark cs)"
      "denotes (drop (Suc s) toks) (drop mark cs) \<longleftrightarrow> denotes (drop ti toks) []"
    using inv Some by (auto simp: glob_inv_def)
  have "denotes (drop s toks) (drop mark cs) \<longleftrightarrow> denotes (drop (Suc s) toks) (drop mark cs)"
  proof
    assume "denotes (drop s toks) (drop mark cs)"
    then obtain k where k: "k \<le> length cs - mark" "denotes (drop (Suc s) toks) (drop (k + mark) cs)"
      by (auto simp: drop_from_star [OF i(1,3,2)] denotes_star)
    with glob_inv_rest [OF inv [unfolded Some], of "k + mark"] i(4) have "k = 0" by simp
    with k show "denotes (drop (Suc s) toks) (drop mark cs)" by simp
  qed (simp add: drop_from_star [OF i(1,3,2)] denotes_star_step [of _ "drop mark cs"])
  then show ?thesis by (simp add: i(5,6) denotes_only_stars)
qed

lemma skipped_stars: "ti \<le> length toks \<Longrightarrow>
    ti + length (takeWhile ((=) GStar) (drop ti toks)) = length toks \<longleftrightarrow> (\<forall>t\<in>set (drop ti toks). t = GStar)"
proof -
  assume ti: "ti \<le> length toks"
  have "length (takeWhile P xs) = length xs \<longleftrightarrow> (\<forall>x\<in>set xs. P x)" for P and xs :: "glob_tok list"
    by (metis takeWhile_eq_all_conv takeWhile_eq_take take_all_iff linorder_not_less length_takeWhile_le order_refl set_takeWhileD)
  from this [of "(=) GStar" "drop ti toks"] ti show ?thesis by auto
qed

text \<open>Each turn moves \<open>mark\<close> forward or keeps it and takes a token.\<close>

lemma glob_loop_exact: "glob_inv toks cs ti si star mark \<Longrightarrow> glob_loop toks cs ti si star mark = Some (denotes toks cs)"
proof (induction "(length cs - mark) * Suc (length toks) + (length toks - ti)" arbitrary: ti si star mark rule: less_induct)
  case less
  let ?m = "\<lambda>mark ti. (length cs - mark) * Suc (length toks) + (length toks - ti)"
  have ms: "mark \<le> si" by (rule glob_inv_mark [OF less.prems])
  have le: "ti \<le> length toks" "si \<le> length cs" using less.prems by (auto simp: glob_inv_def)
  have down: "?m mark' ti' < ?m mark ti" if "mark < mark'" "mark' \<le> length cs" for mark' ti'
  proof -
    have "Suc (length cs - mark') * Suc (length toks) \<le> (length cs - mark) * Suc (length toks)"
      using that by (intro mult_right_mono) auto
    moreover have "length toks - ti' < Suc (length toks)" by simp
    ultimately have "?m mark' ti' < (length cs - mark) * Suc (length toks)" unfolding mult_Suc by linarith
    then show ?thesis by linarith
  qed
  show ?case
  proof (cases "si < length cs")
    case False
    with le have "si = length cs" by simp
    with less.prems glob_inv_end [of toks cs ti star mark] skipped_stars [OF le(1)] show ?thesis
      by (subst glob_loop.simps) simp
  next
    case si: True
    consider (star) "ti < length toks" "toks ! ti = GStar" | (one) "ti < length toks" "toks ! ti \<noteq> GStar" "tok_match (toks ! ti) (cs ! si)"
      | (none) "\<not> (ti < length toks \<and> toks ! ti = GStar)" "\<not> (ti < length toks \<and> toks ! ti \<noteq> GStar \<and> tok_match (toks ! ti) (cs ! si))" by blast
    then show ?thesis
    proof cases
      case star
      have "?m si (Suc ti) < ?m mark ti"
        using down [of si "Suc ti"] star ms le by (cases "mark = si") auto
      with less.hyps [OF _ glob_inv_star [OF less.prems star]] si star show ?thesis by (subst glob_loop.simps) simp
    next
      case one
      have "?m mark (Suc ti) < ?m mark ti" using one by simp
      with less.hyps [OF _ glob_inv_match [OF less.prems one(1,2) si one(3)]] si one show ?thesis by (subst glob_loop.simps) simp
    next
      case none
      have no: "\<not> denotes (drop ti toks) (drop si cs)"
      proof (cases "ti < length toks")
        case True
        with none si show ?thesis by (auto simp: drop_at [OF True refl] drop_at [OF si refl] denotes_one)
      next
        case False
        with le si show ?thesis by simp
      qed
      show ?thesis
      proof (cases star)
        case None
        with less.prems no none si show ?thesis by (subst glob_loop.simps) (auto simp: glob_inv_def)
      next
        case (Some s)
        have "?m (Suc mark) (Suc s) < ?m mark ti" using down [of "Suc mark" "Suc s"] ms si by simp
        with less.hyps [OF _ glob_inv_back [OF less.prems [unfolded Some] si no]] si none Some show ?thesis
          by (subst glob_loop.simps) auto
      qed
    qed
  qed
qed

text \<open>C36: the matching loop always ends, and says yes exactly when the name is a concatenation of words, one for each token of the
  pattern in order: any text for a star, one character of its kind for every other token. A single backtracking
  pointer, to the last star, loses no match.\<close>

theorem glob_match_exact: "glob_match toks s = Some (denotes toks (char_texts s))"
  unfolding glob_match_def by (rule glob_loop_exact) (simp add: glob_inv_def)

end
