(* ===== verification/Ff10.thy ===== *)
theory Ff10
  imports Tables Globs StreamSchema
begin

text \<open>
  The \<open>ff10\<close> reader (\<open>rust/src/format/ff10.rs\<close>): an emissions table of 77 columns without a header, bare or as the
  selected members of a zip archive.

  The \<open>zip\<close> crate is the record \<open>zip_api\<close>: opening an archive from its bytes, the names of its members, one member by
  name and its text. Requested columns are a hash set in the code; of several that are unknown the model reports the
  first.
\<close>

section \<open>The schema\<close>

definition ff10_point_columns :: "string list" where
  "ff10_point_columns =
     [''COUNTRY_CD'', ''REGION_CD'', ''TRIBAL_CODE'', ''FACILITY_ID'', ''UNIT_ID'', ''REL_POINT_ID'', ''PROCESS_ID'',
      ''AGY_FACILITY_ID'', ''AGY_UNIT_ID'', ''AGY_REL_POINT_ID'', ''AGY_PROCESS_ID'', ''SCC'', ''POLID'',
      ''ANN_VALUE'', ''ANN_PCT_RED'', ''FACILITY_NAME'', ''ERPTYPE'', ''STKHGT'', ''STKDIAM'', ''STKTEMP'',
      ''STKFLOW'', ''STKVEL'', ''NAICS'', ''LONGITUDE'', ''LATITUDE'', ''LL_DATUM'', ''HORIZ_COLL_MTHD'',
      ''DESIGN_CAPACITY'', ''DESIGN_CAPACITY_UNITS'', ''REG_CODES'', ''FAC_SOURCE_TYPE'', ''UNIT_TYPE_CODE'',
      ''CONTROL_IDS'', ''CONTROL_MEASURES'', ''CURRENT_COST'', ''CUMULATIVE_COST'', ''PROJECTION_FACTOR'',
      ''SUBMITTER_FAC_ID'', ''CALC_METHOD'', ''DATA_SET_ID'', ''FACIL_CATEGORY_CODE'', ''ORIS_FACILITY_CODE'',
      ''ORIS_BOILER_ID'', ''IPM_YN'', ''CALC_YEAR'', ''DATE_UPDATED'', ''FUG_HEIGHT'', ''FUG_WIDTH_XDIM'',
      ''FUG_LENGTH_YDIM'', ''FUG_ANGLE'', ''ZIPCODE'', ''ANNUAL_AVG_HOURS_PER_YEAR'', ''JAN_VALUE'', ''FEB_VALUE'',
      ''MAR_VALUE'', ''APR_VALUE'', ''MAY_VALUE'', ''JUN_VALUE'', ''JUL_VALUE'', ''AUG_VALUE'', ''SEP_VALUE'',
      ''OCT_VALUE'', ''NOV_VALUE'', ''DEC_VALUE'', ''JAN_PCTRED'', ''FEB_PCTRED'', ''MAR_PCTRED'', ''APR_PCTRED'',
      ''MAY_PCTRED'', ''JUN_PCTRED'', ''JUL_PCTRED'', ''AUG_PCTRED'', ''SEP_PCTRED'', ''OCT_PCTRED'', ''NOV_PCTRED'',
      ''DEC_PCTRED'', ''COMMENT'']"

definition ff10_point_numeric :: "string list" where
  "ff10_point_numeric =
     [''ANN_VALUE'', ''ANN_PCT_RED'', ''STKHGT'', ''STKDIAM'', ''STKTEMP'', ''STKFLOW'', ''STKVEL'', ''LONGITUDE'',
      ''LATITUDE'', ''DESIGN_CAPACITY'', ''CURRENT_COST'', ''CUMULATIVE_COST'', ''PROJECTION_FACTOR'',
      ''FUG_HEIGHT'', ''FUG_WIDTH_XDIM'', ''FUG_LENGTH_YDIM'', ''FUG_ANGLE'', ''ANNUAL_AVG_HOURS_PER_YEAR'',
      ''JAN_VALUE'', ''FEB_VALUE'', ''MAR_VALUE'', ''APR_VALUE'', ''MAY_VALUE'', ''JUN_VALUE'', ''JUL_VALUE'',
      ''AUG_VALUE'', ''SEP_VALUE'', ''OCT_VALUE'', ''NOV_VALUE'', ''DEC_VALUE'', ''JAN_PCTRED'', ''FEB_PCTRED'',
      ''MAR_PCTRED'', ''APR_PCTRED'', ''MAY_PCTRED'', ''JUN_PCTRED'', ''JUL_PCTRED'', ''AUG_PCTRED'', ''SEP_PCTRED'',
      ''OCT_PCTRED'', ''NOV_PCTRED'', ''DEC_PCTRED'']"

datatype ff10_kind = Point

record ff10_reader =
  ff_kind :: ff10_kind
  ff_member :: "string option"
  ff_members :: "string list"
  ff_member_glob :: "string option"
  ff_skip_header_row :: bool
  ff_numeric :: "string list"

definition ff10_new :: ff10_reader where
  "ff10_new =
     \<lparr>ff_kind = Point, ff_member = None, ff_members = [], ff_member_glob = None, ff_skip_header_row = False,
      ff_numeric = ff10_point_numeric\<rparr>"

definition ff10_err :: "string \<Rightarrow> error" where "ff10_err detail = FormatError ''ff10'' detail"

definition str_opt :: "string \<Rightarrow> json \<Rightarrow> string result" where
  "str_opt key v = ok_or (ff10_err (''reader option '' @ dbg_str key @ '' must be a string'')) (as_str v)"

definition ff10_option :: "string \<times> json \<Rightarrow> ff10_reader \<Rightarrow> ff10_reader result" where
  "ff10_option kv r =
     (let (k, v) = kv in
      if k = ''member'' then bindR (str_opt k v) (\<lambda>m. Inr (r\<lparr>ff_member := Some m\<rparr>))
      else if k = ''members'' then
        bindR (ok_or (ff10_err (''reader option '' @ dbg_str k @ '' must be an array of strings'')) (as_array v)) (\<lambda>arr.
        bindR (each (str_opt k) arr) (\<lambda>names. Inr (r\<lparr>ff_members := names\<rparr>)))
      else if k = ''member_glob'' then bindR (str_opt k v) (\<lambda>g. Inr (r\<lparr>ff_member_glob := Some g\<rparr>))
      else if k = ''skip_header_row'' then
        bindR (ok_or (ff10_err (''reader option '' @ dbg_str k @ '' must be a boolean'')) (as_bool v)) (\<lambda>b.
          Inr (r\<lparr>ff_skip_header_row := b\<rparr>))
      else if k = ''kind'' then
        bindR (str_opt k v) (\<lambda>t.
          if t = ''point'' then Inr (r\<lparr>ff_kind := Point\<rparr>)
          else Inl (ff10_err (''reader option '' @ dbg_str ''kind'' @ '': unknown FF10 schema variant '' @ dbg_str t
            @ '' (only '' @ dbg_str ''point'' @ '' ships today)'')))
      else Inl (ff10_err (''unknown reader option '' @ dbg_str k
        @ ''; ff10 takes member, members, member_glob, skip_header_row, kind'')))"

fun ff10_options :: "(string \<times> json) list \<Rightarrow> ff10_reader \<Rightarrow> ff10_reader result" where
  "ff10_options [] r = Inr r"
| "ff10_options (kv # kvs) r = bindR (ff10_option kv r) (ff10_options kvs)"

definition ff10_from_options :: "(string \<times> json) list \<Rightarrow> ff10_reader result" where
  "ff10_from_options options = ff10_options options ff10_new"

section \<open>Members of an archive\<close>

record ('a, 'e) zip_api =
  za_open :: "string \<Rightarrow> string + 'a"
  za_names :: "'a \<Rightarrow> string + string list"
  za_entry :: "'a \<Rightarrow> string \<Rightarrow> string + 'e"
  za_text :: "'e \<Rightarrow> io_error + string"

definition open_archive :: "('a, 'e) zip_api \<Rightarrow> string \<Rightarrow> 'r world \<Rightarrow> 'a result" where
  "open_archive Z path w =
     (case fs_read path w of
        Inl e \<Rightarrow> Inl (Io (Some path) e)
      | Inr bytes \<Rightarrow> (case za_open Z bytes of Inl e \<Rightarrow> Inl (ff10_err e) | Inr a \<Rightarrow> Inr a))"

definition entry_text :: "('a, 'e) zip_api \<Rightarrow> string \<Rightarrow> 'e \<Rightarrow> string result" where
  "entry_text Z path e = (case za_text Z e of Inl err \<Rightarrow> Inl (Io (Some path) err) | Inr t \<Rightarrow> Inr t)"

definition read_zip_member :: "('a, 'e) zip_api \<Rightarrow> string \<Rightarrow> string \<Rightarrow> 'r world \<Rightarrow> string result" where
  "read_zip_member Z path member w =
     bindR (open_archive Z path w) (\<lambda>a.
       case za_entry Z a member of
         Inl e \<Rightarrow> Inl (ff10_err (''zip member '' @ dbg_str member @ '' not found in '' @ path))
       | Inr e \<Rightarrow> entry_text Z path e)"

fun select_named :: "string \<Rightarrow> string list \<Rightarrow> string list \<Rightarrow> string list \<Rightarrow> string list result" where
  "select_named path names [] selected = Inr selected"
| "select_named path names (m # ms) selected =
     (if m \<notin> set names then
        Inl (ff10_err (''zip member '' @ dbg_str m @ '' not found in '' @ path @ ''; members: '' @ dbg_list names))
      else select_named path names ms (m # selected))"

text \<open>The names a pattern matches; \<open>None\<close> is a matching loop that does not end.\<close>

fun glob_hits :: "glob_tok list \<Rightarrow> string list \<Rightarrow> string list option" where
  "glob_hits toks [] = Some []"
| "glob_hits toks (n # ns) =
     (case glob_match toks n of
        None \<Rightarrow> None
      | Some b \<Rightarrow> map_option (\<lambda>hits. if b then n # hits else hits) (glob_hits toks ns))"

definition is_file_name :: "string \<Rightarrow> bool" where
  "is_file_name n \<longleftrightarrow> \<not> (n \<noteq> [] \<and> last n = CHR ''/'')"

definition select_members :: "string \<Rightarrow> string list \<Rightarrow> string list \<Rightarrow> string option \<Rightarrow> string list result option" where
  "select_members path names members glob =
     (case select_named path names members [] of
        Inl e \<Rightarrow> Some (Inl e)
      | Inr selected \<Rightarrow>
          map_option (\<lambda>r. bindR r (\<lambda>sel. if sel = [] then Inl (ff10_err ''members/member_glob selected no zip members'') else Inr (ordered sel)))
            (case glob of
               None \<Rightarrow> Some (Inr selected)
             | Some g \<Rightarrow>
                 (case glob_hits (glob_tokens (char_texts g)) names of
                    None \<Rightarrow> None
                  | Some hits \<Rightarrow>
                      Some (if hits = [] then
                          Inl (ff10_err (''member_glob '' @ dbg_str g @ '' matched no members in '' @ path @ ''; members: '' @ dbg_list names))
                        else Inr (hits @ selected)))))"

fun read_members :: "('a, 'e) zip_api \<Rightarrow> string \<Rightarrow> 'a \<Rightarrow> string list \<Rightarrow> string list result" where
  "read_members Z path a [] = Inr []"
| "read_members Z path a (n # ns) =
     (case za_entry Z a n of
        Inl e \<Rightarrow> Inl (ff10_err e)
      | Inr e \<Rightarrow> bindR (entry_text Z path e) (\<lambda>t. bindR (read_members Z path a ns) (\<lambda>ts. Inr (t # ts))))"

definition read_zip_selected ::
    "('a, 'e) zip_api \<Rightarrow> string \<Rightarrow> string list \<Rightarrow> string option \<Rightarrow> 'r world \<Rightarrow> string list result option" where
  "read_zip_selected Z path members glob w =
     (case open_archive Z path w of
        Inl e \<Rightarrow> Some (Inl e)
      | Inr a \<Rightarrow>
          (case za_names Z a of
             Inl e \<Rightarrow> Some (Inl (ff10_err e))
           | Inr all_names \<Rightarrow>
               map_option (\<lambda>r. bindR r (read_members Z path a)) (select_members path (filter is_file_name all_names) members glob)))"

section \<open>Rows\<close>

definition data_lines :: "string \<Rightarrow> string list" where
  "data_lines txt =
     filter (\<lambda>ln. let s = dropWhile is_space ln in s \<noteq> [] \<and> trim ln \<noteq> [] \<and> \<not> starts_with ''#'' s) (str_lines txt)"

definition header_field :: "string \<Rightarrow> string" where
  "header_field line = ascii_lower (trim (hd (split_on (CHR '','') line)))"

definition skip_header :: "string list \<Rightarrow> string list result" where
  "skip_header lines =
     (case lines of
        [] \<Rightarrow> Inl (ff10_err (''skip_header_row: no non-comment lines '' @ [CHR 0xE2, CHR 0x80, CHR 0x94]
          @ '' the asserted header row is missing''))
      | first # rest \<Rightarrow>
          if header_field first \<noteq> ''country_cd'' then
            Inl (ff10_err (''skip_header_row: first non-comment line does not start with a '' @ sq ''country_cd''
              @ '' header field (got '' @ dbg_str (header_field first) @ ''); refusing to drop a data row''))
          else Inr rest)"

fun checked_rows :: "(string + csv_record) list \<Rightarrow> string list list \<Rightarrow> string list list result" where
  "checked_rows [] rows = Inr rows"
| "checked_rows (rec # recs) rows =
     (case rec of
        Inl e \<Rightarrow> Inl (ff10_err e)
      | Inr r \<Rightarrow>
          if length (cr_fields r) \<noteq> length ff10_point_columns then
            Inl (ff10_err (''FF10 point row has '' @ show_nat (length (cr_fields r)) @ '' fields, expected ''
              @ show_nat (length ff10_point_columns)))
          else checked_rows recs (rows @ [cr_fields r]))"

definition parse_rows :: "csv_api \<Rightarrow> string list list \<Rightarrow> string \<Rightarrow> bool \<Rightarrow> string list list result" where
  "parse_rows A rows txt skip =
     bindR (if skip then skip_header (data_lines txt) else Inr (data_lines txt)) (\<lambda>lines.
       checked_rows (csv_records A False (CHR '','') (join_with [CHR 0x0A] lines)) rows)"

fun parse_texts :: "csv_api \<Rightarrow> bool \<Rightarrow> string list \<Rightarrow> string list list \<Rightarrow> string list list result" where
  "parse_texts A skip [] rows = Inr rows"
| "parse_texts A skip (t # ts) rows = bindR (parse_rows A rows t skip) (parse_texts A skip ts)"

section \<open>The dataset\<close>

fun numeric_values :: "'f number_api \<Rightarrow> string \<Rightarrow> nat \<Rightarrow> string list list \<Rightarrow> 'f list result" where
  "numeric_values N name j [] = Inr []"
| "numeric_values N name j (r # rows) =
     (let s = trim (r ! j) in
      bindR (if s = [] then Inr (nu_nan N)
             else ok_or (ff10_err (''column '' @ name @ '': cannot parse '' @ dbg_str (r ! j) @ '' as f64'')) (nu_parse N s)) (\<lambda>x.
      bindR (numeric_values N name j rows) (\<lambda>xs. Inr (x # xs))))"

fun ff10_columns ::
    "'f number_api \<Rightarrow> string list \<Rightarrow> string list list \<Rightarrow> string list \<Rightarrow> (nat \<times> string) list \<Rightarrow> (string \<times> 'f field) list
      \<Rightarrow> (string \<times> 'f field) list result" where
  "ff10_columns N nums rows vars [] out = Inr out"
| "ff10_columns N nums rows vars ((j, name) # cols) out =
     (if vars \<noteq> [] \<and> name \<notin> set vars then ff10_columns N nums rows vars cols out
      else
        bindR (if name \<in> set nums then bindR (numeric_values N name j rows) (\<lambda>xs. Inr (AF64 xs))
               else Inr (AStr (map (\<lambda>r. r ! j) rows))) (\<lambda>data.
          ff10_columns N nums rows vars cols (al_put name (index_field data (length rows)) out)))"

definition build_dataset :: "'f number_api \<Rightarrow> string list list \<Rightarrow> string list \<Rightarrow> string list \<Rightarrow> 'f dataset result" where
  "build_dataset N rows nums vars =
     (case find (\<lambda>v. v \<notin> set ff10_point_columns) vars of
        Some v \<Rightarrow> Inl (ff10_err (''requested FF10 column '' @ dbg_str v @ '' not in schema''))
      | None \<Rightarrow>
          bindR (ff10_columns N nums rows vars (zip [0..<length ff10_point_columns] ff10_point_columns) []) (\<lambda>vs.
            Inr \<lparr>ds_vars = vs, ds_coords = []\<rparr>))"

text \<open>\<open>std::fs::read_to_string\<close> fails on a text that is not UTF-8, with the text the parameter gives.\<close>

definition read_texts ::
    "('a, 'e) zip_api \<Rightarrow> (string \<Rightarrow> io_error option) \<Rightarrow> ff10_reader \<Rightarrow> string \<Rightarrow> 'r world \<Rightarrow> string list result option" where
  "read_texts Z utf8 r path w =
     (if ff_members r \<noteq> [] \<or> ff_member_glob r \<noteq> None then
        (if ff_member r \<noteq> None then
           Some (Inl (ff10_err ''`member` is mutually exclusive with `members`/`member_glob`''))
         else read_zip_selected Z path (ff_members r) (ff_member_glob r) w)
      else
        Some (case ff_member r of
          Some m \<Rightarrow> bindR (read_zip_member Z path m w) (\<lambda>t. Inr [t])
        | None \<Rightarrow>
            (case fs_read path w of
               Inl e \<Rightarrow> Inl (Io (Some path) e)
             | Inr bytes \<Rightarrow> (case utf8 bytes of Some e \<Rightarrow> Inl (Io (Some path) e) | None \<Rightarrow> Inr [bytes]))))"

definition ff10_native ::
    "('a, 'e) zip_api \<Rightarrow> (string \<Rightarrow> io_error option) \<Rightarrow> csv_api \<Rightarrow> 'f number_api \<Rightarrow> ff10_reader
      \<Rightarrow> string \<Rightarrow> string list \<Rightarrow> selection \<Rightarrow> ('r io_world, 'f dataset) io" where
  "ff10_native Z utf8 A N r path vars sel st =
     map_option (\<lambda>texts.
       (bindR texts (\<lambda>ts. bindR (parse_texts A (ff_skip_header_row r) ts []) (\<lambda>rows.
          build_dataset N rows (ff_numeric r) vars)), st))
       (read_texts Z utf8 r path (fst st))"

definition ff10_registered ::
    "('a, 'e) zip_api \<Rightarrow> (string \<Rightarrow> io_error option) \<Rightarrow> csv_api \<Rightarrow> 'f number_api \<Rightarrow> ('r, 'f) registered" where
  "ff10_registered Z utf8 A N =
     \<lparr>rg_reader = whole_reader [''ff10''] (ff10_native Z utf8 A N ff10_new),
      rg_configured = (\<lambda>options.
        if options = [] then Inr None
        else bindR (ff10_from_options options) (\<lambda>r. Inr (Some (whole_reader [''ff10''] (ff10_native Z utf8 A N r)))))\<rparr>"

section \<open>Which members are read\<close>

lemma select_named_Inr: "select_named path names ms sel = Inr sel' \<longleftrightarrow> set ms \<subseteq> set names \<and> sel' = rev ms @ sel"
  by (induction path names ms sel rule: select_named.induct) auto

lemma glob_hits_exact: "glob_hits toks names = Some (filter (\<lambda>n. denotes toks (char_texts n)) names)"
  by (induction names) (simp_all add: glob_match_exact)

lemma read_members_Inr:
  "read_members Z path a ns = Inr ts \<longleftrightarrow> list_all2 (\<lambda>n t. \<exists>e. za_entry Z a n = Inr e \<and> za_text Z e = Inr t) ns ts"
proof (induction ns arbitrary: ts)
  case (Cons n ns)
  show ?case
    by (cases "za_entry Z a n"; cases "read_members Z path a ns")
      (auto simp: entry_text_def Cons.IH [symmetric] list_all2_Cons1 split: sum.split)
qed auto

lemma ordered_sorted_list: "ordered xs = sorted_list_of_set (set xs)"
  by (simp add: ordered_def sorted_list_of_set_sort_remdups)

lemma is_file_name_iff: "is_file_name n \<longleftrightarrow> (\<nexists>d. n = d @ ''/'')"
  by (cases n rule: rev_cases) (auto simp: is_file_name_def)

text \<open>The file members that an explicit list and a pattern select.\<close>

definition chosen :: "string list \<Rightarrow> string list \<Rightarrow> string option \<Rightarrow> string set" where
  "chosen names members glob =
     set members \<union> {n \<in> set names. \<exists>g. glob = Some g \<and> denotes (glob_tokens (char_texts g)) (char_texts n)}"

lemma select_members_exact:
  "\<exists>r. select_members path names members glob = Some r \<and>
     (\<forall>sel. r = Inr sel \<longleftrightarrow> set members \<subseteq> set names \<and>
        (\<forall>g. glob = Some g \<longrightarrow> (\<exists>n\<in>set names. denotes (glob_tokens (char_texts g)) (char_texts n))) \<and>
        chosen names members glob \<noteq> {} \<and> sel = sorted_list_of_set (chosen names members glob))"
proof (cases "set members \<subseteq> set names")
  case False
  then obtain e where "select_named path names members [] = Inl e"
    using select_named_Inr [of path names members "[]"] by (cases "select_named path names members []") auto
  with False show ?thesis by (simp add: select_members_def)
next
  case True
  then have named: "select_named path names members [] = Inr (rev members)" using select_named_Inr by simp
  show ?thesis
  proof (cases glob)
    case None
    with True named show ?thesis by (auto simp: select_members_def chosen_def ordered_sorted_list)
  next
    case (Some g)
    let ?hits = "filter (\<lambda>n. denotes (glob_tokens (char_texts g)) (char_texts n)) names"
    have c: "set (?hits @ rev members) = chosen names members glob" using Some by (auto simp: chosen_def)
    have "?hits = [] \<longleftrightarrow> \<not> (\<exists>n\<in>set names. denotes (glob_tokens (char_texts g)) (char_texts n))" by (auto simp: filter_empty_conv)
    with True named Some c show ?thesis
      by (cases "?hits = []") (auto simp: select_members_def glob_hits_exact ordered_sorted_list)
  qed
qed

lemma zip_members_named:
  "\<exists>r. read_zip_selected Z path members glob w = Some r \<and>
     (\<forall>texts. r = Inr texts \<longleftrightarrow>
        (\<exists>bytes a listed. fs_read path w = Inr bytes \<and> za_open Z bytes = Inr a \<and> za_names Z a = Inr listed \<and>
           (let names = filter is_file_name listed in
              set members \<subseteq> set names \<and>
              (\<forall>g. glob = Some g \<longrightarrow> (\<exists>n\<in>set names. denotes (glob_tokens (char_texts g)) (char_texts n))) \<and>
              chosen names members glob \<noteq> {} \<and>
              list_all2 (\<lambda>n t. \<exists>e. za_entry Z a n = Inr e \<and> za_text Z e = Inr t)
                (sorted_list_of_set (chosen names members glob)) texts)))"
proof (cases "open_archive Z path w")
  case (Inl e)
  then show ?thesis by (auto simp: read_zip_selected_def open_archive_def split: sum.splits)
next
  case (Inr a)
  then obtain bytes where b: "fs_read path w = Inr bytes" "za_open Z bytes = Inr a"
    by (auto simp: open_archive_def split: sum.splits)
  show ?thesis
  proof (cases "za_names Z a")
    case (Inl e)
    with Inr b show ?thesis by (simp add: read_zip_selected_def)
  next
    case names: (Inr listed)
    from select_members_exact [of path "filter is_file_name listed" members glob]
    obtain r where r: "select_members path (filter is_file_name listed) members glob = Some r"
      and sel: "\<And>sel. r = Inr sel \<longleftrightarrow> set members \<subseteq> set (filter is_file_name listed) \<and>
        (\<forall>g. glob = Some g \<longrightarrow> (\<exists>n\<in>set (filter is_file_name listed). denotes (glob_tokens (char_texts g)) (char_texts n))) \<and>
        chosen (filter is_file_name listed) members glob \<noteq> {} \<and> sel = sorted_list_of_set (chosen (filter is_file_name listed) members glob)" by metis
    have "bindR r (read_members Z path a) = Inr texts \<longleftrightarrow> (\<exists>sel. r = Inr sel \<and> read_members Z path a sel = Inr texts)" for texts
      by (cases r) auto
    with Inr names b r show ?thesis by (simp add: read_zip_selected_def sel read_members_Inr Let_def conj_assoc)
  qed
qed

text \<open>C37: the members of an archive that are read. The selection always ends; it succeeds exactly when the archive opens, every listed
  name is a file of it, a pattern that is given matches some file, something is selected, and the selected members can be
  read; and then the texts are those of exactly the files that are listed or that the pattern denotes, each once, in
  ascending order of their names. A directory entry is never selected.\<close>

theorem zip_members_exact:
  "\<exists>r. read_zip_selected Z path members glob w = Some r \<and>
     (\<forall>texts. r = Inr texts \<longleftrightarrow>
        (\<exists>bytes a listed. fs_read path w = Inr bytes \<and> za_open Z bytes = Inr a \<and> za_names Z a = Inr listed \<and>
           (let names = filter (\<lambda>n. \<nexists>d. n = d @ ''/'') listed in
              set members \<subseteq> set names \<and>
              (\<forall>g. glob = Some g \<longrightarrow> (\<exists>n\<in>set names. denotes (glob_tokens (char_texts g)) (char_texts n))) \<and>
              chosen names members glob \<noteq> {} \<and>
              list_all2 (\<lambda>n t. \<exists>e. za_entry Z a n = Inr e \<and> za_text Z e = Inr t)
                (sorted_list_of_set (chosen names members glob)) texts)))"
  using zip_members_named unfolding is_file_name_iff .

text \<open>An archive of three files and a directory: its bytes do not matter, an entry is its text.\<close>

definition small_zip :: "(unit, string) zip_api" where
  "small_zip =
     \<lparr>za_open = (\<lambda>bytes. Inr ()), za_names = (\<lambda>a. Inr [''b.csv'', ''d/'', ''n.txt'', ''a.csv'']),
      za_entry = (\<lambda>a n. Inr (''text of '' @ n)), za_text = Inr\<rparr>"

definition zip_world :: "unit world" where
  "zip_world = \<lparr>nodes = [(''e.zip'', FileNode ''PK'' None)], fault = Map.empty, clock = 0, fresh = 0, remote = ()\<rparr>"

theorem zip_members_exact_witness:
  "read_zip_selected small_zip ''e.zip'' [''b.csv''] (Some ''?.csv'') zip_world =
     Some (Inr [''text of a.csv'', ''text of b.csv''])"
proof -
  have g: "glob_tokens (char_texts ''?.csv'') = [GAny, GLit ''.'', GLit ''c'', GLit ''s'', GLit ''v'']"
    and n: "char_texts ''a.csv'' = [''a'', ''.'', ''c'', ''s'', ''v'']" "char_texts ''b.csv'' = [''b'', ''.'', ''c'', ''s'', ''v'']"
      "char_texts ''n.txt'' = [''n'', ''.'', ''t'', ''x'', ''t'']"
    and f: "filter is_file_name [''b.csv'', ''d/'', ''n.txt'', ''a.csv''] = [''b.csv'', ''n.txt'', ''a.csv'']"
    by code_simp+
  have c: "chosen [''b.csv'', ''n.txt'', ''a.csv''] [''b.csv''] (Some ''?.csv'') = set [''b.csv'', ''a.csv'']"
    by (auto simp: chosen_def g n denotes_one)
  have o: "sorted_list_of_set (set [''b.csv'', ''a.csv'']) = [''a.csv'', ''b.csv'']"
    unfolding ordered_sorted_list [symmetric] by code_simp
  obtain r where r: "read_zip_selected small_zip ''e.zip'' [''b.csv''] (Some ''?.csv'') zip_world = Some r"
    and iff: "\<And>texts. r = Inr texts \<longleftrightarrow>
        (\<exists>bytes a listed. fs_read ''e.zip'' zip_world = Inr bytes \<and> za_open small_zip bytes = Inr a \<and> za_names small_zip a = Inr listed \<and>
           (let names = filter (\<lambda>n. \<nexists>d. n = d @ ''/'') listed in
              set [''b.csv''] \<subseteq> set names \<and>
              (\<forall>g. Some ''?.csv'' = Some g \<longrightarrow> (\<exists>n\<in>set names. denotes (glob_tokens (char_texts g)) (char_texts n))) \<and>
              chosen names [''b.csv''] (Some ''?.csv'') \<noteq> {} \<and>
              list_all2 (\<lambda>n t. \<exists>e. za_entry small_zip a n = Inr e \<and> za_text small_zip e = Inr t)
                (sorted_list_of_set (chosen names [''b.csv''] (Some ''?.csv''))) texts))"
    using zip_members_exact [of small_zip "''e.zip''" "[''b.csv'']" "Some ''?.csv''" zip_world] by blast
  have "fs_read ''e.zip'' zip_world = Inr ''PK''" by (simp add: fs_read_def fs_node_def zip_world_def)
  moreover have "\<exists>n\<in>set [''b.csv'', ''n.txt'', ''a.csv'']. denotes (glob_tokens (char_texts ''?.csv'')) (char_texts n)"
    by (simp add: g n denotes_one)
  ultimately have "r = Inr [''text of a.csv'', ''text of b.csv'']"
    unfolding iff Let_def is_file_name_iff [symmetric]
    by (intro exI [of _ "''PK''"] exI [of _ "()"] exI [of _ "[''b.csv'', ''d/'', ''n.txt'', ''a.csv'']"])
      (simp only: f c o option.inject, simp add: small_zip_def)
  with r show ?thesis by simp
qed

end
