(* ===== verification/Spec2Isabelle.thy ===== *)
theory Spec2Isabelle
  imports LocalFiles Gregorian PrefetchProps AxisDecode Esm Schedule WindowProps Selecting EsmSource ZarrProps StreamRecords StreamTiling StreamShare StreamEffect StreamFaults HttpFiles S3Props CdsProps Era5 CsvTable JsonTable Ff10
begin

text \<open>
  EarthSciIO, the Rust library (\<open>rust/src\<close>): a data source is a URL template, a cadence and a format; the
  provider turns an instant into the record that is valid there, out of files that the cache has fetched,
  verified and stored under a content key, decoded by the reader of the format. A prefetch group runs that
  ahead of a consumer, on worker threads and within a byte budget.

  PARTS AND THEORIES (in the order they are built; file names are under \<open>rust/src\<close>)

  Prelude: lists, strings, decimal texts, association lists, division. Errors: \<open>error.rs\<close>; a fallible
  operation is an \<open>error + 'a\<close>, \<open>Inl\<close> the error; where the code can also panic or run out of range the
  outcome is an option of that, \<open>None\<close> the panic.
  Keys: \<open>key.rs\<close>, \<open>offline.rs\<close>, \<open>datadir.rs\<close>; SHA-256 is a parameter.
  Calendar, Gregorian: \<open>calendar.rs\<close>. The calendar arithmetic of the \<open>time\<close> crate is the record
  \<open>civil_api\<close>; its documented laws are the locale \<open>civil_laws\<close>, interpreted by the proleptic Gregorian
  calendar written out in Gregorian. The two walks of \<open>floor_index\<close> are partial functions, so that their
  return is proved (under a bracket of anchors around the instant) and not presumed.
  Manifests: \<open>manifest.rs\<close> over a JSON value type; the text layer is a parameter.
  FileSystem, LocalStore: an explicit file system with faults, and \<open>store/mod.rs\<close>, \<open>store/local.rs\<close> over it;
  what other processes do meanwhile is a parameter of each step that takes the lock.
  Transports: \<open>transport/mod.rs\<close>, \<open>transport/file.rs\<close>, \<open>auth.rs\<close>.
  Validate: \<open>validate.rs\<close>, \<open>clock.rs\<close>: the freshness decision and the memo of source digests.
  Cache, Fetching, LocalFiles: \<open>cache.rs\<close>: the hit test, the fallback over mirrors, download, commit; then its
  guarantees over any store that keeps the store laws, and over the local store with file URLs.
  Prefetch, PrefetchRuns, PrefetchProps: \<open>prefetch.rs\<close>: the shared state, the operations of the worker, of
  the fetchers and of the consumer, the runs of any interleaving of them (an inductive relation), their
  invariants, and the simulation by a reader that samples in the declared order.
  Esm, EsmSource: \<open>esm.rs\<close> and \<open>esm_source.rs\<close>: URL templates, and the data source an esm entry declares.
  Arrays, Gathering: the typed arrays, fields, datasets and selections of \<open>format/mod.rs\<close>, and the gather loop.
  Sources: \<open>provider.rs\<close> 1: the data source, its cadence, files and records of a cadence.
  TimeAxis, AxisDecode: \<open>time_axis.rs\<close>: the CF time axis and its memo. Floats are the record \<open>float_ops\<close>.
  Selecting: the wire form of a selection.
  Effects, Readers: the error-and-state steps of the provider; a reader (\<open>format/mod.rs\<close>) as a record.
  Provider, Windows: \<open>provider.rs\<close> 2 and 3: opening and materialising a file, sampling, refreshing, the LRU of
  decoded files; windows, their union, the schedule and prefetching.
  Sampling, Schedule, WindowProps: their properties.
  Chunks, ZarrStore, ZarrReader, ZarrProps: the zarr reader (\<open>format/zarr.rs\<close>, \<open>format/zarr_store.rs\<close>): chunk
  arithmetic and scatter, the cache as a storage, the arrays read by a pool of workers. The zarrs library
  is the record \<open>zarrs\<close>; the pool is a list of worker states stepped by a schedule.
  StreamTypes, StreamSchema, StreamBoxes, StreamCommit, StreamStore, StreamManifest, StreamWriter: the streaming
  zarr writer (\<open>format/zarr_stream.rs\<close> and the parts of \<open>format/zarr_write.rs\<close> it calls): element types and
  bytes; schema, region, fingerprint and geometry; boxes of bytes and their overlap; commit state, tokens and
  their verification; the store; the output manifest both ways; the writer and its operations.
  StreamTiling, StreamRecords, StreamData, StreamOutcomes, StreamOwners, StreamMemory, StreamReopen, StreamKeeps,
  StreamShare, StreamEffect: its properties. What the array library promises of a stored shard and of a retrieved subset
  is the locale \<open>shard_store\<close>, and what the store promises of its objects \<open>object_laws\<close>; both are
  interpreted on a store in memory that keeps the bytes of every cell.

  StreamFaults: what a failed flush leaves behind.
  Http, HttpFiles: \<open>transport/http.rs\<close>, as a transport of the cache and with the cache over the local store.
  S3Config, S3, S3Props: \<open>s3_config.rs\<close>, \<open>transport/s3.rs\<close> and the options part of \<open>format/zarr_object_store.rs\<close>:
  what a deployment says about its buckets, when a read is signed, and the signed read in ranges.
  Cds, CdsProps, Era5: \<open>transport/cds.rs\<close> and \<open>era5.rs\<close>: submit, poll, download; the request of an ERA5 month.
  The HTTP client, the object store client and the clock are the records \<open>http_client\<close>, \<open>object_client\<close> and
  \<open>timer\<close>, over the part \<open>remote\<close> of the world.

  Tables, CsvTable, JsonTable, Globs, Ff10: the readers of tables, \<open>format/csv_reader.rs\<close>, \<open>format/json_reader.rs\<close> and
  \<open>format/ff10.rs\<close> with its matching of archive members. The \<open>csv\<close> and \<open>zip\<close> crates, the JSON texts and the parsing of
  floats are the records \<open>csv_api\<close>, \<open>zip_api\<close>, \<open>json_text_api\<close> and \<open>number_api\<close>.

  STATE. A \<open>run\<close> is the world of the readers and transports, the heap of decoded files (an \<open>Arc\<close> is an
  address; a weak reference asks whether the address is alive) and the memo of time axes. A provider is a
  record that every operation takes and returns. The store is a world of file nodes, locks and faults. The
  prefetch group is the record of its mutex, and each critical section is one step. A stream writer is a
  record threaded through its operations with the store; the \<open>zarrs\<close> arrays, the JSON texts, the clock and the
  digest are the fields of \<open>stream_env\<close>, an f64 is its 64 bits.

  WHAT THE LEMMAS SHOW
  Cache: a served blob is in the store under the request key with the manifest that describes it; failures
  leave manifests alone; the failure of all sources is an absence exactly when each source of that run
  reported one, and the one other error that reads as an absence is a local I/O error; offline does nothing;
  a fetch of a file URL has the bytes of the file; the memo of source digests answers what re-hashing would,
  but for the documented miss of a replacement that keeps the length and an old modification time, which is
  exhibited. Prefetch: what is served is what a sequential reader
  serves; a take never waits forever; depth and budget bound what is admitted. Calendar: anchors increase, the
  index found is the right one, texts of durations parse to what they denote. Time axis: the record found is
  the latest at or before the anchor; ISO reference dates read back. Provider: a refresh through the
  buffer and the LRU leaves what a fresh \<open>sample_at\<close> returns; the schedule is the anchors of the window;
  a window sliced out of the read of a union is the window's own read. Zarr: under any schedule of the
  pool a read is the gather of the whole array, and every schedule ends. Stream writer: tokens that a
  commit accepts tile the array, each shard in one region, and each cell of each array
  has one writer; writing a time shard changes exactly the cells of the writer's region, and reopening it
  gives them back; the buffers keep their shape through every run; the manifest states which records are
  committed; a commit adds what its tokens hold or leaves what is committed as it was; a flush that failed
  forgets its dirty shards. Transports: which answers of a server read as absence; a URL that is not cached is
  asked for once; an ambient identity decides nothing about signing; a signed read stages an object that stays
  the same and mixes the versions of one that is replaced; a fetch from the climate store ends, within a number
  of requests, and sends its token to the API alone; an ERA5 URL names the retrieval up to order and repetition.
  Tables: when the csv and the json readers return a table, and every cell of it; the leaves a record is flattened
  into; the matching loop of member patterns ends and loses no match, and the members read are exactly those named.

  BOUNDS AND FUEL
  No fuel is used: loops without a structural measure are partial functions with option results, and the
  theorems state that they return. Indices that the code holds in 64 bits are integers with explicit range
  tests, and where the code casts and wraps the wrap is written out. Byte counts and lengths are naturals:
  their sums are taken not to reach 2^64.

  NOT MODELLED
  The readers over decoders of other crates (\<open>format/netcdf.rs\<close>, \<open>geotiff.rs\<close>, \<open>shapefile.rs\<close>, \<open>parquet.rs\<close>), which the provider sees through the reader
  record; the snapshot zarr writer; the adapters of the object stores and of the browser file system to the
  storage traits; the builder of a prefetch group. What an HTTP client does inside one request (redirects,
  retries, its timeouts) is in the parameter \<open>http_client\<close>. \<open>lib.rs\<close> holds re-exports only.
\<close>

end
